(* ===== verification/Prelude.thy ===== *)
theory Prelude
  imports Main "HOL-Library.AList" "HOL-Library.Multiset"
begin

section \<open>Prelude: shared vocabulary of the Go model\<close>

text \<open>
  Generic vocabulary used by every component: early-return validators, association lists
  that stand for Go maps, element updates of slices indexed by Go integers, the decimal
  rendering used by \<open>fmt.Sprintf("%d")\<close>, and clock arithmetic.

  Conventions. A Go \<open>int\<close> is an \<open>int\<close>; a \<open>uint64\<close> revision or sequence number is a \<open>nat\<close>
  (every validator rejects values above \<open>2^53 - 1\<close> before they can wrap). A Go map is an
  association list with distinct keys; ranging over it visits the keys in list order, and
  every loop of the source that ranges over a map computes an order-independent result. A
  slice whose nil-ness the code tests is a \<open>list option\<close>; every other slice is a list.
\<close>

named_theorems frame "fields an operation leaves unchanged"
named_theorems sel_simps "selectors of helper records"

subsection \<open>Validators with early returns\<close>

text \<open>
  A Go function of type \<open>error\<close> is an \<open>'e option\<close>, \<open>None\<close> being \<open>nil\<close>. \<open>reject_if b e\<close> is
  \<open>if b { return e }\<close>; \<open>checks\<close> runs a sequence of such statements and returns the first
  error.
\<close>

definition reject_if :: "bool \<Rightarrow> 'e \<Rightarrow> 'e option" where
  "reject_if b e = (if b then Some e else None)"

fun checks :: "'e option list \<Rightarrow> 'e option" where
  "checks [] = None"
| "checks (None # cs) = checks cs"
| "checks (Some e # cs) = Some e"

lemma reject_if_None [simp]: "reject_if b e = None \<longleftrightarrow> \<not> b"
  by (simp add: reject_if_def)

lemma reject_if_Some [simp]: "reject_if b e = Some e' \<longleftrightarrow> b \<and> e = e'"
  by (auto simp: reject_if_def)

lemma checks_Cons: "checks (c # cs) = (case c of None \<Rightarrow> checks cs | Some e \<Rightarrow> Some e)"
  by (cases c) auto

lemma checks_None [simp]: "checks cs = None \<longleftrightarrow> (\<forall>c\<in>set cs. c = None)"
proof (induction cs)
  case Nil then show ?case by simp
next
  case (Cons c cs) then show ?case by (cases c) auto
qed

lemma checks_reject_Cons:
  "checks (reject_if b e # cs) = (if b then Some e else checks cs)"
  by (simp add: reject_if_def)

text \<open>A loop whose body may return an error and carries a local state.\<close>

fun loopE :: "('s \<Rightarrow> 'a \<Rightarrow> 'e + 's) \<Rightarrow> 's \<Rightarrow> 'a list \<Rightarrow> 'e + 's" where
  "loopE f s [] = Inr s"
| "loopE f s (x # xs) = (case f s x of Inl e \<Rightarrow> Inl e | Inr s' \<Rightarrow> loopE f s' xs)"

definition err_of :: "'e + 'a \<Rightarrow> 'e option" where
  "err_of r = (case r of Inl e \<Rightarrow> Some e | Inr _ \<Rightarrow> None)"

lemma err_of_simps [simp]: "err_of (Inl e) = Some e" "err_of (Inr x) = None"
  by (simp_all add: err_of_def)

lemma err_of_None: "err_of r = None \<longleftrightarrow> (\<exists>x. r = Inr x)"
  by (cases r) auto

lemma err_of_case_check:
  "err_of (case c of Some e \<Rightarrow> Inl e | None \<Rightarrow> r) = (case c of Some e \<Rightarrow> Some e | None \<Rightarrow> err_of r)"
  by (cases c) auto

text \<open>A loop that only tests each element (the first failing test is returned).\<close>

definition each :: "('a \<Rightarrow> 'e option) \<Rightarrow> 'a list \<Rightarrow> 'e option" where
  "each f xs = checks (map f xs)"

lemma each_None [simp]: "each f xs = None \<longleftrightarrow> (\<forall>x\<in>set xs. f x = None)"
  by (simp add: each_def)

lemma each_simps [simp]:
  "each f [] = None"
  "each f (x # xs) = (case f x of None \<Rightarrow> each f xs | Some e \<Rightarrow> Some e)"
  by (simp_all add: each_def checks_Cons split: option.splits)

text \<open>Nil-able slices.\<close>

fun slice :: "'a list option \<Rightarrow> 'a list" where
  "slice None = []"
| "slice (Some xs) = xs"

subsection \<open>Go maps\<close>

text \<open>
  The interface of a Go map as the engine uses it: lookup with the comma-ok form, store,
  \<open>delete\<close> and \<open>len\<close>. The laws are what the clients rely on.
\<close>

locale go_map =
  fixes empty :: 'm
    and get :: "'m \<Rightarrow> 'k \<Rightarrow> 'v option"
    and put :: "'k \<Rightarrow> 'v \<Rightarrow> 'm \<Rightarrow> 'm"
    and del :: "'k \<Rightarrow> 'm \<Rightarrow> 'm"
    and len :: "'m \<Rightarrow> nat"
    and invar :: "'m \<Rightarrow> bool"
  assumes get_empty: "get empty k = None"
    and get_put: "get (put k v m) k' = (if k' = k then Some v else get m k')"
    and get_del: "get (del k m) k' = (if k' = k then None else get m k')"
    and invar_empty: "invar empty"
    and invar_put: "invar m \<Longrightarrow> invar (put k v m)"
    and invar_del: "invar m \<Longrightarrow> invar (del k m)"
    and len_empty: "len empty = 0"
    and len_put: "invar m \<Longrightarrow> len (put k v m) = (if get m k = None then Suc (len m) else len m)"
begin

lemma get_put_same: "get (put k v m) k = Some v"
  by (simp add: get_put)

lemma get_put_other: "k' \<noteq> k \<Longrightarrow> get (put k v m) k' = get m k'"
  by (simp add: get_put)

text \<open>Storing at keys that are present never changes the size or the set of keys.\<close>

lemma len_overwrite: "invar m \<Longrightarrow> get m k \<noteq> None \<Longrightarrow> len (put k v m) = len m"
  by (simp add: len_put)

lemma keys_overwrite:
  "get m k \<noteq> None \<Longrightarrow> (get (put k v m) k' = None) = (get m k' = None)"
  by (simp add: get_put)

text \<open>A fold of stores whose keys are all present keeps size, keys and the invariant.\<close>

lemma fold_overwrite:
  assumes "invar m" and "\<And>x. x \<in> set xs \<Longrightarrow> get m (f x) \<noteq> None"
  shows "invar (fold (\<lambda>x. put (f x) (g x)) xs m)
    \<and> len (fold (\<lambda>x. put (f x) (g x)) xs m) = len m
    \<and> (get (fold (\<lambda>x. put (f x) (g x)) xs m) k = None) = (get m k = None)"
  using assms
proof (induction xs arbitrary: m)
  case Nil
  then show ?case by simp
next
  case (Cons x xs)
  have x: "get m (f x) \<noteq> None" by (rule Cons.prems(2)) simp
  have "\<And>y. y \<in> set xs \<Longrightarrow> get (put (f x) (g x) m) (f y) \<noteq> None"
    using Cons.prems(2) by (simp add: get_put)
  from Cons.IH [OF invar_put [OF Cons.prems(1)] this] show ?case
    using x Cons.prems(1) by (auto simp: len_put get_put)
qed

end

definition alist_len :: "('k \<times> 'v) list \<Rightarrow> nat" where
  "alist_len m = length m"

definition alist_invar :: "('k \<times> 'v) list \<Rightarrow> bool" where
  "alist_invar m = distinct (map fst m)"

lemma map_of_update: "map_of (AList.update k v m) k' = (if k' = k then Some v else map_of m k')"
  by (simp add: update_conv')

lemma map_of_delete: "map_of (AList.delete k m) k' = (if k' = k then None else map_of m k')"
  by (simp add: delete_conv')

lemma length_update_mem:
  "length (AList.update k v m) = (if k \<in> fst ` set m then length m else Suc (length m))"
  by (induction m) auto

lemma length_update:
  "length (AList.update k v m) = (if map_of m k = None then Suc (length m) else length m)"
  by (simp add: length_update_mem map_of_eq_None_iff)

interpretation alist: go_map "[]" map_of AList.update AList.delete alist_len alist_invar
proof unfold_locales
  fix m :: "('k \<times> 'v) list" and k v
  assume "alist_invar m"
  then show "alist_len (AList.update k v m) = (if map_of m k = None then Suc (alist_len m) else alist_len m)"
    by (simp only: alist_len_def length_update)
qed (simp_all add: alist_len_def alist_invar_def map_of_update map_of_delete
       distinct_update distinct_delete)

lemma map_of_Some_update_mem:
  "(k', v') \<in> set (AList.update k v m) \<Longrightarrow> distinct (map fst m) \<Longrightarrow>
   (k' = k \<and> v' = v) \<or> (k' \<noteq> k \<and> (k', v') \<in> set m)"
  by (metis distinct_update map_of_eq_Some_iff map_of_update option.inject)

subsection \<open>Slices indexed by Go integers\<close>

text \<open>
  \<open>at xs i\<close> reads index \<open>i\<close>, \<open>upd i f xs\<close> writes it. An index
  that comes from a caller or a request has an explicit panic branch at the operation that uses it
  (\<open>GoPanic\<close>). An index that the state itself stores is read directly; the invariants
  show that it is in range in every reachable state (\<open>stored_in_range\<close>, C13).
\<close>

definition in_range :: "int \<Rightarrow> 'a list \<Rightarrow> bool" where
  "in_range i xs \<longleftrightarrow> 0 \<le> i \<and> i < int (length xs)"

definition at :: "'a list \<Rightarrow> int \<Rightarrow> 'a" where
  "at xs i = xs ! nat i"

definition upd :: "int \<Rightarrow> ('a \<Rightarrow> 'a) \<Rightarrow> 'a list \<Rightarrow> 'a list" where
  "upd i f xs = xs[nat i := f (xs ! nat i)]"

lemma length_upd [simp]: "length (upd i f xs) = length xs"
  by (simp add: upd_def)

lemma in_range_upd [simp]: "in_range j (upd i f xs) = in_range j xs"
  by (simp add: in_range_def)

lemma at_upd:
  "in_range i xs \<Longrightarrow> in_range j xs \<Longrightarrow> at (upd i f xs) j = (if j = i then f (at xs i) else at xs j)"
  by (auto simp: at_def upd_def in_range_def nth_list_update)

lemma at_upd_same [simp]: "in_range i xs \<Longrightarrow> at (upd i f xs) i = f (at xs i)"
  by (simp add: at_upd)

lemma at_upd_other: "in_range i xs \<Longrightarrow> in_range j xs \<Longrightarrow> j \<noteq> i \<Longrightarrow> at (upd i f xs) j = at xs j"
  by (simp add: at_upd)

lemma nth_upd:
  "k < length xs \<Longrightarrow> (upd i f xs) ! k = (if k = nat i then f (xs ! k) else xs ! k)"
  by (simp add: upd_def nth_list_update)

lemma upd_id: "f (xs ! nat i) = xs ! nat i \<Longrightarrow> upd i f xs = xs"
  by (simp add: upd_def)

lemma map_upd:
  "(\<And>x. g (f x) = g x) \<Longrightarrow> map g (upd i f xs) = map g xs"
  by (rule nth_equalityI) (simp_all add: nth_upd)

text \<open>\<open>for i, x := range xs\<close>: the elements paired with their Go index.\<close>

definition indexed :: "'a list \<Rightarrow> (int \<times> 'a) list" where
  "indexed xs = zip (map int [0..<length xs]) xs"

lemma set_indexed: "(i, x) \<in> set (indexed xs) \<longleftrightarrow> in_range i xs \<and> x = at xs i"
  by (force simp: indexed_def set_zip in_range_def at_def)

lemma length_indexed [simp]: "length (indexed xs) = length xs"
  by (simp add: indexed_def)

lemma map_snd_indexed [simp]: "map snd (indexed xs) = xs"
  by (simp add: indexed_def)

lemma map_fst_indexed [simp]: "map fst (indexed xs) = map int [0..<length xs]"
  by (simp add: indexed_def)

lemma indexed_Nil [simp]: "indexed [] = []"
  by (simp add: indexed_def)

text \<open>The indices that satisfy a test, in order.\<close>

definition seats_where :: "('a \<Rightarrow> bool) \<Rightarrow> 'a list \<Rightarrow> int list" where
  "seats_where p xs = map fst (filter (\<lambda>(i, x). p x) (indexed xs))"

lemma set_seats_where: "i \<in> set (seats_where p xs) \<longleftrightarrow> in_range i xs \<and> p (at xs i)"
  by (force simp: seats_where_def set_indexed)

lemma distinct_seats_where [simp]: "distinct (seats_where p xs)"
  unfolding seats_where_def by (rule distinct_map_filter) (simp add: distinct_map)

subsection \<open>Decimal rendering\<close>

definition digit :: "nat \<Rightarrow> char" where
  "digit d = char_of (48 + d)"

fun dec :: "nat \<Rightarrow> string" where
  "dec n = (if n < 10 then [digit n] else dec (n div 10) @ [digit (n mod 10)])"

declare dec.simps [simp del]

definition dec_int :: "int \<Rightarrow> string" where
  "dec_int i = (if i < 0 then ''-'' @ dec (nat (- i)) else dec (nat i))"

definition undec :: "string \<Rightarrow> nat" where
  "undec s = foldl (\<lambda>acc c. 10 * acc + (of_char c - 48)) 0 s"

lemma of_char_digit: "d < 10 \<Longrightarrow> of_char (digit d) = (48 + d :: nat)"
  by (simp add: digit_def)

lemma undec_dec [simp]: "undec (dec n) = n"
proof (induction n rule: dec.induct)
  case (1 n)
  show ?case
  proof (cases "n < 10")
    case True
    then show ?thesis by (simp add: dec.simps undec_def of_char_digit)
  next
    case False
    with 1 have "undec (dec (n div 10)) = n div 10" by simp
    moreover have "undec (dec n) = 10 * undec (dec (n div 10)) + n mod 10"
      using False by (simp add: dec.simps [of n] undec_def of_char_digit)
    ultimately show ?thesis by simp
  qed
qed

lemma dec_inj [simp]: "dec m = dec n \<longleftrightarrow> m = n"
  by (metis undec_dec)

lemma dec_not_Nil [simp]: "dec n \<noteq> []"
  by (simp add: dec.simps [of n])

lemma digit_range: "d < 10 \<Longrightarrow> digit d \<in> set ''0123456789''"
proof -
  assume "d < 10"
  then have "d \<in> set [0..<10]" by simp
  moreover have "\<forall>d\<in>set [0..<10]. digit d \<in> set ''0123456789''" by code_simp
  ultimately show ?thesis by blast
qed

lemma set_dec: "set (dec n) \<subseteq> set ''0123456789''"
proof (induction n rule: dec.induct)
  case (1 n)
  show ?case
  proof (cases "n < 10")
    case True
    with digit_range [of n] show ?thesis by (simp add: dec.simps [of n])
  next
    case False
    with 1 digit_range [of "n mod 10"] show ?thesis by (simp add: dec.simps [of n])
  qed
qed

subsection \<open>Time\<close>

text \<open>
  A \<open>time.Time\<close> is a count of nanoseconds since the Unix epoch; \<open>t.UnixMilli()\<close> is its floor
  in milliseconds and \<open>t.Add(n * time.Second)\<close> adds whole seconds.
\<close>

type_synonym gotime = int

definition unix_milli :: "gotime \<Rightarrow> int" where
  "unix_milli t = t div 1000000"

definition add_seconds :: "gotime \<Rightarrow> int \<Rightarrow> gotime" where
  "add_seconds t n = t + n * 1000000000"

definition time_unix_milli :: "int \<Rightarrow> gotime" where
  "time_unix_milli ms = ms * 1000000"

lemma unix_milli_add_seconds [simp]:
  "unix_milli (add_seconds t n) = unix_milli t + 1000 * n"
proof -
  have "t + n * 1000000000 = t + 1000000 * (1000 * n)" by simp
  then show ?thesis unfolding unix_milli_def add_seconds_def
    by simp
qed

lemma unix_milli_time [simp]: "unix_milli (time_unix_milli ms) = ms"
  by (simp add: unix_milli_def time_unix_milli_def)

lemma unix_milli_mono: "t \<le> t' \<Longrightarrow> unix_milli t \<le> unix_milli t'"
  by (simp add: unix_milli_def zdiv_mono1)

end
