(* ===== verification/Utf8.thy ===== *)
theory Utf8
  imports Prelude
begin

section \<open>Go strings: UTF-8, runes and trimming\<close>

text \<open>
  A Go string is a byte string (\<open>char list\<close>, a \<open>char\<close> being a byte). \<open>range\<close> over a string and
  \<open>utf8.DecodeRuneInString\<close> decode one rune at a time; an invalid byte decodes to
  \<open>U+FFFD\<close> with width 1. The tables below are those of \<open>unicode/utf8\<close>: the second byte of a
  three- or four-byte sequence has a narrower range after \<open>E0\<close>, \<open>ED\<close>, \<open>F0\<close> and \<open>F4\<close>, which
  excludes overlong forms, surrogates and values above \<open>U+10FFFF\<close>.
\<close>

definition byte :: "char \<Rightarrow> nat" where
  "byte c = of_char c"

definition cont :: "char \<Rightarrow> bool" where
  "cont c \<longleftrightarrow> 128 \<le> byte c \<and> byte c \<le> 191"

definition second_ok :: "nat \<Rightarrow> char \<Rightarrow> bool" where
  "second_ok b0 c =
     (let lo = (if b0 = 224 then 160 else if b0 = 240 then 144 else 128);
          hi = (if b0 = 237 then 159 else if b0 = 244 then 143 else 191)
      in lo \<le> byte c \<and> byte c \<le> hi)"

text \<open>The rune at the front of a non-empty string and its width; \<open>None\<close> marks invalid UTF-8.\<close>

fun decode_valid :: "string \<Rightarrow> (nat \<times> nat) option" where
  "decode_valid [] = None"
| "decode_valid (c0 # s) =
     (let b0 = byte c0 in
      if b0 < 128 then Some (b0, 1)
      else if 194 \<le> b0 \<and> b0 \<le> 223 then
        (case s of
           c1 # _ \<Rightarrow> if cont c1 then Some ((b0 - 192) * 64 + (byte c1 - 128), 2) else None
         | _ \<Rightarrow> None)
      else if 224 \<le> b0 \<and> b0 \<le> 239 then
        (case s of
           c1 # c2 # _ \<Rightarrow>
             if second_ok b0 c1 \<and> cont c2
             then Some ((b0 - 224) * 4096 + (byte c1 - 128) * 64 + (byte c2 - 128), 3) else None
         | _ \<Rightarrow> None)
      else if 240 \<le> b0 \<and> b0 \<le> 244 then
        (case s of
           c1 # c2 # c3 # _ \<Rightarrow>
             if second_ok b0 c1 \<and> cont c2 \<and> cont c3
             then Some ((b0 - 240) * 262144 + (byte c1 - 128) * 4096 + (byte c2 - 128) * 64 + (byte c3 - 128), 4)
             else None
         | _ \<Rightarrow> None)
      else None)"

definition rune_error :: nat where
  "rune_error = 65533"

definition decode_rune :: "string \<Rightarrow> nat \<times> nat" where
  "decode_rune s = (case decode_valid s of None \<Rightarrow> (rune_error, 1) | Some r \<Rightarrow> r)"

lemma decode_valid_width: "decode_valid s = Some (r, w) \<Longrightarrow> 0 < w \<and> w \<le> length s"
  by (cases s) (auto simp: Let_def split: if_splits list.splits)

lemma decode_rune_width: "s \<noteq> [] \<Longrightarrow> 0 < snd (decode_rune s) \<and> snd (decode_rune s) \<le> length s"
  by (cases "decode_valid s")
    (auto simp: decode_rune_def Suc_le_eq dest: decode_valid_width)

text \<open>The segmentation that \<open>for _, r := range s\<close> walks: each rune with the bytes it came from.\<close>

function segs :: "string \<Rightarrow> (nat \<times> string) list" where
  "segs s =
     (if s = [] then []
      else let (r, w) = decode_rune s in (r, take w s) # segs (drop w s))"
  by pat_completeness auto
termination
proof (relation "measure length", goal_cases)
  case 1 then show ?case by simp
next
  case (2 s x r w)
  then have "x = (r, w)" "x = decode_rune s" "s \<noteq> []" by auto
  then show ?case using decode_rune_width [of s] by (auto simp: diff_less)
qed

declare segs.simps [simp del]

lemma segs_Nil [simp]: "segs [] = []"
  by (simp add: segs.simps)

lemma segs_Cons:
  "s \<noteq> [] \<Longrightarrow> segs s = (fst (decode_rune s), take (snd (decode_rune s)) s) # segs (drop (snd (decode_rune s)) s)"
  by (subst segs.simps) (simp add: case_prod_beta Let_def)

lemma concat_segs [simp]: "concat (map snd (segs s)) = s"
proof (induction s rule: segs.induct)
  case (1 s)
  show ?case
  proof (cases "s = []")
    case False
    then have "concat (map snd (segs (drop (snd (decode_rune s)) s))) = drop (snd (decode_rune s)) s"
      using 1 by (metis prod.collapse)
    with False show ?thesis by (simp add: segs_Cons)
  qed simp
qed

definition runes :: "string \<Rightarrow> nat list" where
  "runes s = map fst (segs s)"

text \<open>\<open>utf8.ValidString\<close>.\<close>

function utf8_valid :: "string \<Rightarrow> bool" where
  "utf8_valid s =
     (if s = [] then True
      else case decode_valid s of None \<Rightarrow> False | Some (r, w) \<Rightarrow> utf8_valid (drop w s))"
  by pat_completeness auto
termination
proof (relation "measure length", goal_cases)
  case 1 then show ?case by simp
next
  case (2 s x r w)
  then show ?case using decode_valid_width [of s r w] by auto
qed

declare utf8_valid.simps [simp del]

text \<open>\<open>unicode.IsSpace\<close> (the White Space property) and \<open>unicode.IsControl\<close> (category Cc).\<close>

definition is_space :: "nat \<Rightarrow> bool" where
  "is_space r \<longleftrightarrow> (9 \<le> r \<and> r \<le> 13) \<or> r = 32 \<or> r = 133 \<or> r = 160 \<or> r = 5760
     \<or> (8192 \<le> r \<and> r \<le> 8202) \<or> r = 8232 \<or> r = 8233 \<or> r = 8239 \<or> r = 8287 \<or> r = 12288"

definition is_control :: "nat \<Rightarrow> bool" where
  "is_control r \<longleftrightarrow> r < 32 \<or> (127 \<le> r \<and> r \<le> 159)"

text \<open>\<open>strings.TrimSpace\<close>: the white space at both ends is cut off.\<close>

definition trim_space :: "string \<Rightarrow> string" where
  "trim_space s =
     concat (map snd (rev (dropWhile (\<lambda>(r, _). is_space r)
       (rev (dropWhile (\<lambda>(r, _). is_space r) (segs s))))))"

lemma segs_nonempty: "(r, b) \<in> set (segs s) \<Longrightarrow> b \<noteq> []"
proof (induction s rule: segs.induct)
  case (1 s)
  show ?case
  proof (cases "s = []")
    case False
    with "1.prems" consider "b = take (snd (decode_rune s)) s"
      | "(r, b) \<in> set (segs (drop (snd (decode_rune s)) s))"
      by (auto simp: segs_Cons)
    then show ?thesis
    proof cases
      case 1
      then show ?thesis using decode_rune_width [OF False] False by (cases s) auto
    next
      case 2
      then show ?thesis using "1.IH" False by (metis prod.collapse)
    qed
  qed (use "1.prems" in simp)
qed

lemma trim_space_Nil_iff: "trim_space s = [] \<longleftrightarrow> (\<forall>r\<in>set (runes s). is_space r)"
proof -
  let ?p = "\<lambda>(r, _ :: string). is_space r"
  let ?d = "rev (dropWhile ?p (rev (dropWhile ?p (segs s))))"
  have sub: "set ?d \<subseteq> set (segs s)"
    by (auto dest!: set_dropWhileD)
  have "trim_space s = [] \<longleftrightarrow> ?d = []"
  proof
    assume "trim_space s = []"
    then have "\<forall>x\<in>set ?d. snd x = []" by (simp add: trim_space_def)
    with sub segs_nonempty have "set ?d = {}" by (metis (no_types, lifting) equals0I prod.collapse subset_eq)
    then show "?d = []" by (simp only: set_empty)
  next
    assume "?d = []"
    then show "trim_space s = []" by (simp only: trim_space_def list.map concat.simps)
  qed
  also have "\<dots> \<longleftrightarrow> (\<forall>x\<in>set (dropWhile ?p (segs s)). ?p x)"
    by (simp add: dropWhile_eq_Nil_conv)
  also have "\<dots> \<longleftrightarrow> (\<forall>x\<in>set (segs s). ?p x)"
    by (metis (no_types, lifting) dropWhile_eq_Nil_conv dropWhile_eq_self_iff empty_iff hd_in_set
        hd_dropWhile list.set(1))
  finally show ?thesis by (auto simp: runes_def)
qed

text \<open>ASCII: a string of bytes below 128 decodes to its bytes.\<close>

lemma decode_ascii: "byte c < 128 \<Longrightarrow> decode_rune (c # s) = (byte c, 1)"
  by (simp add: decode_rune_def)

lemma segs_ascii: "\<forall>c\<in>set s. byte c < 128 \<Longrightarrow> segs s = map (\<lambda>c. (byte c, [c])) s"
  by (induction s) (simp_all add: segs_Cons decode_ascii)

lemma runes_ascii: "\<forall>c\<in>set s. byte c < 128 \<Longrightarrow> runes s = map byte s"
  by (simp add: runes_def segs_ascii)

lemma utf8_valid_ascii: "\<forall>c\<in>set s. byte c < 128 \<Longrightarrow> utf8_valid s"
proof (induction s)
  case Nil then show ?case by (simp add: utf8_valid.simps)
next
  case (Cons c s)
  then show ?case by (simp add: utf8_valid.simps [of "c # s"])
qed

text \<open>A byte above 127 never yields a rune below 128.\<close>

lemma decode_valid_high: "decode_valid (c # s) = Some (r, w) \<Longrightarrow> \<not> byte c < 128 \<Longrightarrow> 128 \<le> r"
  by (auto simp: Let_def second_ok_def cont_def split: if_splits list.splits)

lemma decode_rune_high: "\<not> byte c < 128 \<Longrightarrow> 128 \<le> fst (decode_rune (c # s))"
  by (cases "decode_valid (c # s)")
    (auto simp: decode_rune_def rune_error_def simp del: decode_valid.simps dest: decode_valid_high)

lemma runes_all_ascii:
  assumes "\<forall>r\<in>set (runes s). r < 128"
  shows "\<forall>c\<in>set s. byte c < 128"
  using assms
proof (induction s)
  case Nil then show ?case by simp
next
  case (Cons c s)
  have "fst (decode_rune (c # s)) < 128"
    using Cons.prems by (simp add: runes_def segs_Cons)
  then have c: "byte c < 128" using decode_rune_high by (meson linorder_not_le)
  with Cons show ?case by (simp add: runes_def segs_Cons decode_ascii)
qed

end
