(* ===== verification/Contract.thy ===== *)
theory Contract
  imports Prelude Utf8
begin

section \<open>The v2 wire contract: \<open>transport/v2/contract.go\<close> and \<open>gamecontract/mode.go\<close>\<close>

text \<open>
  The data of the text transition contract. A string type with a closed set of constants is
  a datatype whose last constructor carries any other string, so that the validators that
  reject unknown values stay meaningful. A pointer field is an \<open>option\<close>; a slice whose
  nil-ness a validator tests is a \<open>list option\<close>.
\<close>

subsection \<open>Identities (gamecontract)\<close>

definition ident_rune :: "nat \<Rightarrow> bool" where
  "ident_rune r \<longleftrightarrow> (97 \<le> r \<and> r \<le> 122) \<or> (65 \<le> r \<and> r \<le> 90) \<or> (48 \<le> r \<and> r \<le> 57)
     \<or> r = 45 \<or> r = 95 \<or> r = 46 \<or> r = 58"

definition ValidIdentifier :: "string \<Rightarrow> bool" where
  "ValidIdentifier value \<longleftrightarrow>
     \<not> (length value = 0 \<or> length value > 128)
     \<and> list_all (\<lambda>r. \<not> (r > 127 \<or> \<not> ident_rune r)) (runes value)"

text \<open>An identifier is exactly a short non-empty string of the permitted ASCII bytes.\<close>

lemma ident_rune_ascii: "ident_rune r \<Longrightarrow> r < 128"
  by (auto simp: ident_rune_def)

lemma ValidIdentifier_bytes:
  "ValidIdentifier s \<longleftrightarrow> 0 < length s \<and> length s \<le> 128 \<and> (\<forall>c\<in>set s. ident_rune (byte c))"
proof
  assume v: "ValidIdentifier s"
  then have r: "\<forall>r\<in>set (runes s). ident_rune r" "length s \<noteq> 0" "length s \<le> 128"
    by (auto simp: ValidIdentifier_def list_all_iff)
  then have "\<forall>c\<in>set s. byte c < 128" by (intro runes_all_ascii) (blast dest: ident_rune_ascii)
  then show "0 < length s \<and> length s \<le> 128 \<and> (\<forall>c\<in>set s. ident_rune (byte c))"
    using r by (simp add: runes_ascii)
next
  assume b: "0 < length s \<and> length s \<le> 128 \<and> (\<forall>c\<in>set s. ident_rune (byte c))"
  then have "runes s = map byte s" by (intro runes_ascii) (blast dest: ident_rune_ascii)
  with b show "ValidIdentifier s"
    by (fastforce simp: ValidIdentifier_def list_all_iff not_less dest: ident_rune_ascii)
qed

datatype mode_id = ModeMissedTheBriefing | ModeSecretScale | ModeMakeRoom | ModeBadBargains
  | ModeTopThat | ModeOther string

definition AllModes :: "mode_id list" where
  "AllModes = [ModeMissedTheBriefing, ModeSecretScale, ModeMakeRoom, ModeBadBargains, ModeTopThat]"

fun mode_valid :: "mode_id \<Rightarrow> bool" where
  "mode_valid (ModeOther _) = False"
| "mode_valid _ = True"

lemma mode_valid_AllModes: "mode_valid m \<longleftrightarrow> m \<in> set AllModes"
  by (cases m) (simp_all add: AllModes_def)

fun mode_string :: "mode_id \<Rightarrow> string" where
  "mode_string ModeMissedTheBriefing = ''missed_the_briefing''"
| "mode_string ModeSecretScale = ''secret_scale''"
| "mode_string ModeMakeRoom = ''make_room''"
| "mode_string ModeBadBargains = ''bad_bargains''"
| "mode_string ModeTopThat = ''top_that''"
| "mode_string (ModeOther s) = s"

subsection \<open>Enumerations\<close>

datatype phase = PhaseRoundStart | PhasePlay | PhaseTradeResponse | PhaseDiscussion
  | PhaseKnowoff | PhaseRunoff | PhaseResult | PhaseVerdict | PhaseOther string

datatype action_kind = ActionPass | ActionReveal | ActionViewReveal | ActionFreeCard
  | ActionShuffle | ActionRevote | ActionRespond | ActionPlace | ActionReplace | ActionOffer
  | ActionResolveOffer | ActionTop | ActionDraw | ActionVote | ActionReady | ActionPoke
  | ActionChat | ActionOther string

text \<open>The \<open>kind\<close> string of a public event: the action kinds and the system's own.\<close>

datatype event_kind = EvPass | EvFreeCard | EvReveal | EvShuffle | EvRevote | EvSeed | EvRespond
  | EvPlace | EvReplace | EvTop | EvOffer | EvResolveOffer | EvDraw | EvAutoPass | EvVote
  | EvPoke | EvReady | EvChat | EvBallotResult | EvOther string

datatype role = Nower | Donower | RoleOther string

text \<open>\<open>NoSpecialty\<close> is the empty string.\<close>

datatype specialty = NoSpecialty | SpPass | SpReveal | SpFreeCard | SpShuffle | SpRevote
  | SpOther string

datatype reason = RPlayer | RSeed | RTimeout | RDisconnect | RForcedTransition | RNoRecipient
  | ROther string

text \<open>\<open>NoResolution\<close> is the empty string of an absent field.\<close>

datatype resolution = NoResolution | ResAccept | ResRefuse | ResTimeout | ResCancel
  | ResOther string

datatype ballot_outcome = OutElimination | OutRunoff | OutMiss | OutOther string

datatype match_outcome = MatchCompleted | MatchScoredLowPopulation | MatchInterrupted
  | MatchOther string

datatype error_code = ErrMalformed | ErrVersion | ErrFrameTooLarge | ErrInvalidAction
  | ErrStaleMatch | ErrStalePhase | ErrStaleRevision | ErrDeadlineExpired | ErrRequestConflict
  | ErrRequestLimit | ErrPersistencePending | ErrRateLimited | ErrDuplicateEvent
  | ErrSequenceGap | ErrStaleStream | ErrStaleEvidence | ErrHistoryLimit | ErrHistoryIntegrity
  | ErrUnauthorized | ErrOther string

text \<open>
  Errors: \<open>ContractError\<close> of the contract, \<open>fmt.Errorf\<close> texts, failures reported by the durable
  hooks, and run-time panics.
\<close>

datatype go_error = ContractError error_code string | GoError string | HookError string
  | GoPanic string

abbreviation invalid :: "error_code \<Rightarrow> string \<Rightarrow> go_error" where
  "invalid code field \<equiv> ContractError code field"

subsection \<open>Structs\<close>

definition Version :: int where "Version = 2"

definition MaxSafeInteger :: int where "MaxSafeInteger = 2 ^ 53 - 1"

record limits =
  MaxFrameBytes :: int
  MaxHistoryEvents :: int
  MaxHistoryPageEvents :: int
  MaxTextBytes :: int
  MaxRequestsPerSeat :: int

type_synonym content_id = string
type_synonym copy_id = string

record content_ref =
  cr_ContentID :: content_id
  cr_Revision :: nat

record text_content =
  tc_Ref :: content_ref
  tc_Text :: string

record card =
  cd_CopyID :: copy_id
  cd_Content :: text_content

record pinned_tuning =
  pt_Version :: string
  pt_SHA256 :: string

record eligibility =
  el_AdmissionID :: string
  el_EntryPath :: string
  el_Rewards :: bool
  el_Leaderboard :: bool

record match_contract =
  mc_ProtocolVersion :: int
  mc_MatchID :: string
  mc_RoomID :: string
  mc_OriginalSize :: int
  mc_ModeID :: mode_id
  mc_RulesVersion :: string
  mc_ContentLanguage :: string
  mc_PackReleaseID :: string
  mc_PackSHA256 :: string
  mc_Tuning :: pinned_tuning
  mc_Eligibility :: eligibility

record lobby_settings =
  ls_ModeID :: mode_id
  ls_Size :: int
  ls_ContentLanguage :: string
  ls_PackReleaseID :: string
  ls_RulesVersion :: string

record ready_ack =
  ra_SettingsRevision :: nat
  ra_MembershipRevision :: nat

record lobby_seat =
  lb_Seat :: int
  lb_Connected :: bool
  lb_Ready :: "ready_ack option"

record lobby_state =
  lo_ProtocolVersion :: int
  lo_RoomID :: string
  lo_Settings :: lobby_settings
  lo_SettingsRevision :: nat
  lo_MembershipRevision :: nat
  lo_HostSeat :: int
  lo_Seats :: "lobby_seat list"

record action =
  a_Kind :: action_kind
  a_CopyID :: copy_id
  a_Rating :: "int option"
  a_Slot :: "int option"
  a_TargetSeat :: "int option"
  a_TargetCopyID :: copy_id
  a_OfferID :: string
  a_Resolution :: resolution
  a_Count :: "int option"
  a_PhraseID :: string
  a_Text :: string
  a_UILocale :: string

record action_request =
  r_Version :: int
  r_RequestID :: string
  r_MatchID :: string
  r_ModeID :: mode_id
  r_Round :: int
  r_Turn :: int
  r_Phase :: phase
  r_PhaseID :: string
  r_ExpectedBoardRevision :: nat
  r_Action :: action

record cursor =
  cu_StreamEpoch :: string
  cu_RecipientSeq :: nat
  cu_EvidenceSeq :: nat

datatype actor_kind = ActorSystem | ActorSeat | ActorOther string

record actor =
  ac_Kind :: actor_kind
  ac_Seat :: "int option"

record ballot_vote =
  bv_Seat :: int
  bv_TargetSeat :: int

record ballot_result =
  br_Outcome :: ballot_outcome
  br_Seat :: "int option"
  br_RevealedRole :: role

record ballot_state =
  bs_Kind :: phase
  bs_Candidates :: "int list"
  bs_Votes :: "ballot_vote list option"
  bs_Result :: "ballot_result option"

record public_action =
  e_EventID :: string
  e_EvidenceSeq :: nat
  e_Round :: int
  e_Phase :: phase
  e_PhaseID :: string
  e_Actor :: actor
  e_Kind :: event_kind
  e_Cards :: "card list option"
  e_BeforeRevision :: nat
  e_AfterRevision :: nat
  e_Reason :: reason
  e_ServerTimeMS :: int
  e_DeadlineMS :: "int option"
  e_Count :: "int option"
  e_Rating :: "int option"
  e_Slot :: "int option"
  e_TargetSeat :: "int option"
  e_OfferID :: string
  e_Resolution :: resolution
  e_PhraseID :: string
  e_Text :: string
  e_UILocale :: string
  e_Ballot :: "ballot_state option"

record board_card =
  bc_Card :: card
  bc_Actor :: actor
  bc_Rating :: "int option"
  bc_Slot :: "int option"
  bc_Seat :: "int option"

record board =
  bd_ModeID :: mode_id
  bd_Revision :: nat
  bd_Cards :: "board_card list option"

record pending_offer =
  po_OfferID :: string
  po_ProposerSeat :: int
  po_RecipientSeat :: int
  po_OfferedCopyID :: copy_id
  po_RequestedCopyID :: copy_id
  po_BoardRevision :: nat
  po_DeadlineMS :: int

record public_seat =
  ps_Seat :: int
  ps_Connected :: bool
  ps_Eliminated :: bool
  ps_RevealedRole :: role

record reveal_view =
  rv_TargetSeat :: int
  rv_ExpiresAtMS :: int
  rv_Hand :: "card list option"
  rv_Reserve :: "card list option"
  rv_Specialty :: specialty

record private_state =
  pv_Specialty :: specialty
  pv_FreeDraws :: int
  pv_Reveal :: "reveal_view option"
  pv_Points :: int
  pv_Seat :: int
  pv_Role :: role
  pv_Nown :: "text_content option"
  pv_Hand :: "card list option"
  pv_ReserveCount :: int
  pv_Capabilities :: "action_kind list option"

record history_manifest =
  hm_TotalEvents :: int
  hm_PageCount :: int
  hm_ThroughEvidenceSeq :: nat
  hm_RootSHA256 :: string

record begun_nown =
  bn_Round :: int
  bn_Content :: text_content

record seat_score =
  ss_Seat :: int
  ss_Points :: int

record match_verdict =
  mv_Outcome :: match_outcome
  mv_Winner :: role

record snapshot =
  sn_RevealTarget :: "int option"
  sn_Scores :: "seat_score list"
  sn_Verdict :: "match_verdict option"
  sn_Version :: int
  sn_SnapshotID :: string
  sn_Contract :: match_contract
  sn_Cursor :: cursor
  sn_Round :: int
  sn_Turn :: int
  sn_CurrentSeat :: "int option"
  sn_Phase :: phase
  sn_PhaseID :: string
  sn_ServerTimeMS :: int
  sn_DeadlineMS :: int
  sn_ResultRevealAtMS :: "int option"
  sn_Board :: board
  sn_Seats :: "public_seat list"
  sn_ReadySeats :: "int list option"
  sn_Ballot :: "ballot_state option"
  sn_PendingOffer :: "pending_offer option"
  sn_Private :: private_state
  sn_History :: "public_action list option"
  sn_HistoryPages :: "history_manifest option"
  sn_VerdictNowns :: "begun_nown list"

record history_page =
  hp_Version :: int
  hp_MatchID :: string
  hp_SnapshotID :: string
  hp_StreamEpoch :: string
  hp_Index :: int
  hp_FromEvidenceSeq :: nat
  hp_ThroughEvidenceSeq :: nat
  hp_Events :: "public_action list"
  hp_SHA256 :: string

record error_event =
  ee_Version :: int
  ee_Cursor :: cursor
  ee_RequestID :: string
  ee_Code :: error_code
  ee_CurrentBoardRevision :: "nat option"

text \<open>The empty string of an optional role field.\<close>

abbreviation NoRole :: role where
  "NoRole \<equiv> RoleOther []"

text \<open>\<open>string(a.Kind)\<close>, the event kind of an action.\<close>

fun kind_string :: "action_kind \<Rightarrow> event_kind" where
  "kind_string ActionPass = EvPass"
| "kind_string ActionReveal = EvReveal"
| "kind_string ActionFreeCard = EvFreeCard"
| "kind_string ActionShuffle = EvShuffle"
| "kind_string ActionRevote = EvRevote"
| "kind_string ActionRespond = EvRespond"
| "kind_string ActionPlace = EvPlace"
| "kind_string ActionReplace = EvReplace"
| "kind_string ActionOffer = EvOffer"
| "kind_string ActionResolveOffer = EvResolveOffer"
| "kind_string ActionTop = EvTop"
| "kind_string ActionDraw = EvDraw"
| "kind_string ActionVote = EvVote"
| "kind_string ActionReady = EvReady"
| "kind_string ActionPoke = EvPoke"
| "kind_string ActionChat = EvChat"
| "kind_string ActionViewReveal = EvOther ''view_reveal''"
| "kind_string (ActionOther s) = EvOther s"

end
