(* ===== verification/Validate.thy ===== *)
theory Validate
  imports Contract
begin

section \<open>Value validators: \<open>transport/v2/validate.go\<close>\<close>

text \<open>
  The validators of the contract's values. \<open>lang\<close> stands for
  \<open>gamecontract.ValidContentLanguage\<close>'s use of the external BCP 47 parser
  (golang.org/x/text/language): it is an argument of every definition that needs it.
\<close>

subsection \<open>Scalars\<close>

definition limits_Validate :: "limits \<Rightarrow> go_error option" where
  "limits_Validate l = checks
    [reject_if (MaxFrameBytes l \<le> 0 \<or> MaxHistoryEvents l \<le> 0 \<or> MaxHistoryPageEvents l \<le> 0
       \<or> MaxHistoryPageEvents l > MaxHistoryEvents l \<or> MaxTextBytes l \<le> 0
       \<or> MaxTextBytes l > MaxFrameBytes l \<or> MaxRequestsPerSeat l \<le> 0)
       (invalid ErrMalformed ''limits'')]"

definition safe :: "nat \<Rightarrow> bool" where
  "safe n \<longleftrightarrow> int n \<le> MaxSafeInteger"

definition seat_ok :: "int \<Rightarrow> int \<Rightarrow> bool" where
  "seat_ok n sz \<longleftrightarrow> 0 \<le> n \<and> n < sz"

definition ptr_seat :: "int option \<Rightarrow> int \<Rightarrow> bool" where
  "ptr_seat n sz = (case n of None \<Rightarrow> False | Some k \<Rightarrow> seat_ok k sz)"

definition size_ok :: "int \<Rightarrow> bool" where
  "size_ok n \<longleftrightarrow> n = 4 \<or> n = 6"

definition clock :: "int \<Rightarrow> bool" where
  "clock n \<longleftrightarrow> 0 < n \<and> n \<le> MaxSafeInteger"

definition role_ok :: "role \<Rightarrow> bool" where
  "role_ok r \<longleftrightarrow> r = Nower \<or> r = Donower"

text \<open>\<open>hex.DecodeString\<close> and \<open>strings.ToLower\<close> on the ASCII letters a decoded string can hold.\<close>

definition hex_val :: "char \<Rightarrow> nat option" where
  "hex_val c =
     (let b = byte c in
      if 48 \<le> b \<and> b \<le> 57 then Some (b - 48)
      else if 97 \<le> b \<and> b \<le> 102 then Some (b - 87)
      else if 65 \<le> b \<and> b \<le> 70 then Some (b - 55)
      else None)"

fun hex_decode :: "string \<Rightarrow> nat list option" where
  "hex_decode [] = Some []"
| "hex_decode [_] = None"
| "hex_decode (c # d # s) =
     (case (hex_val c, hex_val d, hex_decode s) of
        (Some x, Some y, Some bs) \<Rightarrow> Some ((16 * x + y) # bs)
      | _ \<Rightarrow> None)"

definition ascii_lower :: "char \<Rightarrow> char" where
  "ascii_lower c = (if 65 \<le> byte c \<and> byte c \<le> 90 then char_of (byte c + 32) else c)"

definition hash_ok :: "string \<Rightarrow> bool" where
  "hash_ok s = (case hex_decode s of
      None \<Rightarrow> False
    | Some b \<Rightarrow> length b = 32 \<and> map ascii_lower s = s)"

definition hex_digit :: "nat \<Rightarrow> char" where
  "hex_digit n = (if n < 10 then char_of (48 + n) else char_of (87 + n))"

definition hex_encode :: "nat list \<Rightarrow> string" where
  "hex_encode bs = concat (map (\<lambda>b. [hex_digit (b div 16), hex_digit (b mod 16)]) bs)"

lemma hex_val_digit: "n < 16 \<Longrightarrow> hex_val (hex_digit n) = Some n"
  by (auto simp: hex_val_def hex_digit_def byte_def Let_def)

lemma hex_decode_encode: "\<forall>b\<in>set bs. b < 256 \<Longrightarrow> hex_decode (hex_encode bs) = Some bs"
proof (induction bs)
  case Nil then show ?case by (simp add: hex_encode_def)
next
  case (Cons b bs)
  have "b div 16 < 16" "b mod 16 < 16" using Cons.prems by (auto simp: less_mult_imp_div_less)
  then show ?case using Cons by (simp add: hex_encode_def hex_val_digit)
qed

lemma ascii_lower_hex: "n < 16 \<Longrightarrow> ascii_lower (hex_digit n) = hex_digit n"
  by (auto simp: ascii_lower_def hex_digit_def byte_def)

lemma hash_ok_encode:
  assumes "length bs = 32" and "\<forall>b\<in>set bs. b < 256"
  shows "hash_ok (hex_encode bs)"
proof -
  have "map ascii_lower (hex_encode bs) = hex_encode bs"
    using assms(2) by (induction bs) (auto simp: hex_encode_def ascii_lower_hex less_mult_imp_div_less)
  then show ?thesis using assms by (simp add: hash_ok_def hex_decode_encode)
qed

lemma hex_encode_inj:
  "\<forall>b\<in>set bs. b < 256 \<Longrightarrow> \<forall>b\<in>set cs. b < 256 \<Longrightarrow> hex_encode bs = hex_encode cs \<Longrightarrow> bs = cs"
  by (metis hex_decode_encode option.inject)

text \<open>Displayable text: valid UTF-8, not blank, bounded, without control or bidi runes.\<close>

definition forbidden_rune :: "nat \<Rightarrow> bool" where
  "forbidden_rune r \<longleftrightarrow> is_control r \<or> r = 65533 \<or> r \<in> {8234, 8235, 8236, 8237, 8238}
     \<or> r \<in> {8294, 8295, 8296, 8297}"

definition text_ok :: "string \<Rightarrow> limits \<Rightarrow> bool" where
  "text_ok s l \<longleftrightarrow>
     \<not> (\<not> utf8_valid s \<or> trim_space s = [] \<or> int (length s) > MaxTextBytes l)
     \<and> list_all (\<lambda>r. \<not> forbidden_rune r) (runes s)"

subsection \<open>Content, cards, actors\<close>

definition text_content_validate :: "text_content \<Rightarrow> limits \<Rightarrow> go_error option" where
  "text_content_validate c l = checks
    [reject_if (\<not> ValidIdentifier (cr_ContentID (tc_Ref c)) \<or> cr_Revision (tc_Ref c) = 0
       \<or> \<not> safe (cr_Revision (tc_Ref c)) \<or> \<not> text_ok (tc_Text c) l)
       (invalid ErrMalformed ''text_content'')]"

definition card_validate :: "card \<Rightarrow> limits \<Rightarrow> go_error option" where
  "card_validate c l = checks
    [reject_if (\<not> ValidIdentifier (cd_CopyID c)) (invalid ErrMalformed ''copy_id''),
     text_content_validate (cd_Content c) l]"

definition actor_validate :: "actor \<Rightarrow> int \<Rightarrow> go_error option" where
  "actor_validate a sz =
     (if ac_Kind a = ActorSystem \<and> ac_Seat a = None then None
      else if ac_Kind a = ActorSeat \<and> ptr_seat (ac_Seat a) sz then None
      else Some (invalid ErrMalformed ''actor''))"

fun phase_valid :: "phase \<Rightarrow> bool" where
  "phase_valid (PhaseOther _) = False"
| "phase_valid _ = True"

subsection \<open>Match contract and lobby state\<close>

definition contract_Validate :: "(string \<Rightarrow> bool) \<Rightarrow> match_contract \<Rightarrow> go_error option" where
  "contract_Validate lang m = checks
    [reject_if (mc_ProtocolVersion m \<noteq> Version) (invalid ErrVersion ''protocol_version''),
     reject_if (\<not> ValidIdentifier (mc_MatchID m) \<or> \<not> ValidIdentifier (mc_RoomID m)
       \<or> mc_MatchID m = mc_RoomID m \<or> \<not> size_ok (mc_OriginalSize m) \<or> \<not> mode_valid (mc_ModeID m)
       \<or> \<not> ValidIdentifier (mc_RulesVersion m) \<or> \<not> lang (mc_ContentLanguage m)
       \<or> \<not> ValidIdentifier (mc_PackReleaseID m) \<or> \<not> hash_ok (mc_PackSHA256 m)
       \<or> \<not> ValidIdentifier (pt_Version (mc_Tuning m)) \<or> \<not> hash_ok (pt_SHA256 (mc_Tuning m)))
       (invalid ErrMalformed ''match_contract''),
     reject_if (\<not> ValidIdentifier (el_AdmissionID (mc_Eligibility m))
       \<or> (el_EntryPath (mc_Eligibility m) \<noteq> ''quick_play'' \<and> el_EntryPath (mc_Eligibility m) \<noteq> ''local'')
       \<or> el_Leaderboard (mc_Eligibility m)
          \<and> (\<not> el_Rewards (mc_Eligibility m) \<or> el_EntryPath (mc_Eligibility m) \<noteq> ''quick_play''))
       (invalid ErrMalformed ''eligibility'')]"

text \<open>The seat loop of \<open>LobbyState.Validate\<close>: seats already seen and whether a host was found.\<close>

fun lobby_seats_check :: "lobby_state \<Rightarrow> int list \<Rightarrow> bool \<Rightarrow> lobby_seat list \<Rightarrow> go_error + bool" where
  "lobby_seats_check s seen host [] = Inr host"
| "lobby_seats_check s seen host (p # ps) =
     (if \<not> seat_ok (lb_Seat p) (ls_Size (lo_Settings s)) \<or> lb_Seat p \<in> set seen
      then Inl (invalid ErrMalformed ''lobby_seat'')
      else if (case lb_Ready p of None \<Rightarrow> False
               | Some a \<Rightarrow> \<not> lb_Connected p \<or> ra_SettingsRevision a \<noteq> lo_SettingsRevision s
                   \<or> ra_MembershipRevision a \<noteq> lo_MembershipRevision s)
      then Inl (invalid ErrStaleRevision ''ready'')
      else lobby_seats_check s (lb_Seat p # seen)
             (host \<or> lb_Seat p = lo_HostSeat s \<and> lb_Connected p) ps)"

definition lobby_Validate :: "(string \<Rightarrow> bool) \<Rightarrow> lobby_state \<Rightarrow> go_error option" where
  "lobby_Validate lang s = checks
    [reject_if (lo_ProtocolVersion s \<noteq> Version) (invalid ErrVersion ''protocol_version''),
     reject_if (\<not> ValidIdentifier (lo_RoomID s) \<or> \<not> mode_valid (ls_ModeID (lo_Settings s))
       \<or> \<not> size_ok (ls_Size (lo_Settings s)) \<or> \<not> lang (ls_ContentLanguage (lo_Settings s))
       \<or> \<not> ValidIdentifier (ls_PackReleaseID (lo_Settings s))
       \<or> \<not> ValidIdentifier (ls_RulesVersion (lo_Settings s))
       \<or> lo_SettingsRevision s = 0 \<or> \<not> safe (lo_SettingsRevision s)
       \<or> lo_MembershipRevision s = 0 \<or> \<not> safe (lo_MembershipRevision s)
       \<or> lo_Seats s = [] \<or> int (length (lo_Seats s)) > ls_Size (lo_Settings s))
       (invalid ErrMalformed ''lobby''),
     (case lobby_seats_check s [] False (lo_Seats s) of
        Inl e \<Rightarrow> Some e
      | Inr host \<Rightarrow> reject_if (\<not> host) (invalid ErrMalformed ''host_seat''))]"

subsection \<open>Action requests\<close>

text \<open>
  The keys of the action union. \<open>allowed_keys\<close> is the space-separated list the code assigns to
  \<open>allowed\<close>, \<open>variant_ok\<close> its \<open>valid\<close>, \<open>present_keys\<close> the map \<open>present\<close> filtered to true.
\<close>

datatype key = KCopy | KRating | KSlot | KTargetSeat | KTargetCopy | KOffer | KResolution
  | KCount | KPhrase | KText | KLocale

fun allowed_keys :: "action_kind \<Rightarrow> key list" where
  "allowed_keys ActionReveal = [KTargetSeat]"
| "allowed_keys ActionRespond = [KCopy]"
| "allowed_keys ActionPlace = [KCopy, KRating]"
| "allowed_keys ActionReplace = [KCopy, KSlot]"
| "allowed_keys ActionOffer = [KCopy, KTargetSeat, KTargetCopy]"
| "allowed_keys ActionResolveOffer = [KOffer, KResolution]"
| "allowed_keys ActionTop = [KCopy, KTargetCopy]"
| "allowed_keys ActionDraw = [KCount]"
| "allowed_keys ActionVote = [KTargetSeat]"
| "allowed_keys ActionPoke = [KTargetSeat]"
| "allowed_keys ActionChat = [KPhrase, KText, KLocale]"
| "allowed_keys _ = []"

definition opt_in :: "int option \<Rightarrow> int \<Rightarrow> int \<Rightarrow> bool" where
  "opt_in x lo hi = (case x of None \<Rightarrow> False | Some n \<Rightarrow> lo \<le> n \<and> n \<le> hi)"

definition chat_body_ok :: "(string \<Rightarrow> bool) \<Rightarrow> string \<Rightarrow> string \<Rightarrow> string \<Rightarrow> limits \<Rightarrow> bool" where
  "chat_body_ok lang locale phrase txt l \<longleftrightarrow> lang locale
     \<and> ((ValidIdentifier phrase \<and> txt = []) \<or> (phrase = [] \<and> text_ok txt l))"

fun variant_ok :: "(string \<Rightarrow> bool) \<Rightarrow> limits \<Rightarrow> action_request \<Rightarrow> action_kind \<Rightarrow> bool" where
  "variant_ok lang l r ActionPass = (r_Phase r = PhasePlay)"
| "variant_ok lang l r ActionFreeCard = (r_Phase r = PhasePlay)"
| "variant_ok lang l r ActionReveal = (r_Phase r = PhasePlay \<and> ptr_seat (a_TargetSeat (r_Action r)) 6)"
| "variant_ok lang l r ActionViewReveal = (r_Phase r \<noteq> PhaseRoundStart \<and> r_Phase r \<noteq> PhaseVerdict)"
| "variant_ok lang l r ActionShuffle = (r_Phase r = PhasePlay \<or> r_Phase r = PhaseTradeResponse)"
| "variant_ok lang l r ActionRevote = (r_Phase r = PhaseKnowoff \<or> r_Phase r = PhaseRunoff)"
| "variant_ok lang l r ActionRespond = (r_ModeID r = ModeMissedTheBriefing \<and> r_Phase r = PhasePlay)"
| "variant_ok lang l r ActionPlace =
     (r_ModeID r = ModeSecretScale \<and> r_Phase r = PhasePlay \<and> opt_in (a_Rating (r_Action r)) 1 5)"
| "variant_ok lang l r ActionReplace =
     (r_ModeID r = ModeMakeRoom \<and> r_Phase r = PhasePlay \<and> opt_in (a_Slot (r_Action r)) 0 2)"
| "variant_ok lang l r ActionOffer =
     (r_ModeID r = ModeBadBargains \<and> r_Phase r = PhasePlay \<and> ptr_seat (a_TargetSeat (r_Action r)) 6
      \<and> ValidIdentifier (a_TargetCopyID (r_Action r))
      \<and> a_CopyID (r_Action r) \<noteq> a_TargetCopyID (r_Action r))"
| "variant_ok lang l r ActionResolveOffer =
     (r_ModeID r = ModeBadBargains \<and> r_Phase r = PhaseTradeResponse
      \<and> ValidIdentifier (a_OfferID (r_Action r))
      \<and> (a_Resolution (r_Action r) = ResAccept \<or> a_Resolution (r_Action r) = ResRefuse))"
| "variant_ok lang l r ActionTop =
     (r_ModeID r = ModeTopThat \<and> r_Phase r = PhasePlay
      \<and> ValidIdentifier (a_TargetCopyID (r_Action r))
      \<and> a_CopyID (r_Action r) \<noteq> a_TargetCopyID (r_Action r))"
| "variant_ok lang l r ActionDraw =
     (r_Phase r = PhasePlay \<and> opt_in (a_Count (r_Action r)) 1 MaxSafeInteger)"
| "variant_ok lang l r ActionVote =
     ((r_Phase r = PhaseKnowoff \<or> r_Phase r = PhaseRunoff) \<and> ptr_seat (a_TargetSeat (r_Action r)) 6)"
| "variant_ok lang l r ActionReady =
     (r_Phase r = PhaseDiscussion \<or> r_Phase r = PhaseKnowoff \<or> r_Phase r = PhaseRunoff
      \<or> r_Phase r = PhaseResult)"
| "variant_ok lang l r ActionPoke =
     ((r_Phase r = PhasePlay \<or> r_Phase r = PhaseTradeResponse \<or> r_Phase r = PhaseDiscussion
       \<or> r_Phase r = PhaseKnowoff \<or> r_Phase r = PhaseRunoff)
      \<and> ptr_seat (a_TargetSeat (r_Action r)) 6)"
| "variant_ok lang l r ActionChat =
     (r_Phase r \<noteq> PhaseVerdict \<and> r_Phase r \<noteq> PhaseRoundStart
      \<and> chat_body_ok lang (a_UILocale (r_Action r)) (a_PhraseID (r_Action r)) (a_Text (r_Action r)) l)"
| "variant_ok lang l r (ActionOther _) = False"

definition present_keys :: "action \<Rightarrow> key list" where
  "present_keys a = map fst (filter snd
    [(KCopy, a_CopyID a \<noteq> []), (KRating, a_Rating a \<noteq> None), (KSlot, a_Slot a \<noteq> None),
     (KTargetSeat, a_TargetSeat a \<noteq> None), (KTargetCopy, a_TargetCopyID a \<noteq> []),
     (KOffer, a_OfferID a \<noteq> []), (KResolution, a_Resolution a \<noteq> NoResolution),
     (KCount, a_Count a \<noteq> None), (KPhrase, a_PhraseID a \<noteq> []), (KText, a_Text a \<noteq> []),
     (KLocale, a_UILocale a \<noteq> [])])"

definition request_Validate :: "(string \<Rightarrow> bool) \<Rightarrow> limits \<Rightarrow> action_request \<Rightarrow> go_error option" where
  "request_Validate lang l r =
    (let a = r_Action r; permitted = allowed_keys (a_Kind a) in checks
    [reject_if (r_Version r \<noteq> Version) (invalid ErrVersion ''v''),
     reject_if (\<not> ValidIdentifier (r_RequestID r) \<or> \<not> ValidIdentifier (r_MatchID r)
       \<or> \<not> mode_valid (r_ModeID r) \<or> r_Round r < 1 \<or> r_Round r > 3 \<or> r_Turn r < 0 \<or> r_Turn r > 6
       \<or> \<not> phase_valid (r_Phase r) \<or> \<not> ValidIdentifier (r_PhaseID r)
       \<or> \<not> safe (r_ExpectedBoardRevision r))
       (invalid ErrMalformed ''action_identity''),
     reject_if (\<not> variant_ok lang l r (a_Kind a)) (invalid ErrInvalidAction ''variant''),
     reject_if (\<not> list_all (\<lambda>k. k \<in> set permitted) (present_keys a))
       (invalid ErrInvalidAction ''contradictory_field''),
     reject_if (KCopy \<in> set permitted \<and> \<not> ValidIdentifier (a_CopyID a))
       (invalid ErrInvalidAction ''copy_id''),
     reject_if ((r_Phase r = PhasePlay \<or> r_Phase r = PhaseTradeResponse) \<and> r_Turn r < 1)
       (invalid ErrInvalidAction ''turn'')])"

definition cursor_validate :: "cursor \<Rightarrow> go_error option" where
  "cursor_validate c = checks
    [reject_if (\<not> ValidIdentifier (cu_StreamEpoch c) \<or> cu_RecipientSeq c = 0
       \<or> \<not> safe (cu_RecipientSeq c) \<or> \<not> safe (cu_EvidenceSeq c))
       (invalid ErrMalformed ''cursor'')]"

fun error_code_known :: "error_code \<Rightarrow> bool" where
  "error_code_known (ErrOther _) = False"
| "error_code_known _ = True"

definition error_event_Validate :: "error_event \<Rightarrow> go_error option" where
  "error_event_Validate e = checks
    [reject_if (ee_Version e \<noteq> Version) (invalid ErrVersion ''v''),
     cursor_validate (ee_Cursor e),
     reject_if (\<not> ValidIdentifier (ee_RequestID e)
       \<or> (case ee_CurrentBoardRevision e of None \<Rightarrow> False | Some n \<Rightarrow> \<not> safe n))
       (invalid ErrMalformed ''error''),
     (if error_code_known (ee_Code e) then None else Some (invalid ErrMalformed ''error_code''))]"

subsection \<open>What validation guarantees\<close>

text \<open>
  The shape facts the engine relies on when it dereferences the optional fields of an
  accepted request.
\<close>

lemma request_valid_variant:
  "request_Validate lang l r = None \<Longrightarrow> variant_ok lang l r (a_Kind (r_Action r))"
  by (simp add: request_Validate_def Let_def)

lemma request_valid_keys:
  "request_Validate lang l r = None \<Longrightarrow> set (present_keys (r_Action r)) \<subseteq> set (allowed_keys (a_Kind (r_Action r)))"
  by (auto simp: request_Validate_def Let_def list_all_iff)

lemma ptr_seat_Some: "ptr_seat x sz \<longleftrightarrow> (\<exists>n. x = Some n \<and> 0 \<le> n \<and> n < sz)"
  by (cases x) (auto simp: ptr_seat_def seat_ok_def)

lemma opt_in_Some: "opt_in x lo hi \<longleftrightarrow> (\<exists>n. x = Some n \<and> lo \<le> n \<and> n \<le> hi)"
  by (cases x) (auto simp: opt_in_def)

lemma request_valid_target:
  assumes "request_Validate lang l r = None"
    and "a_Kind (r_Action r) \<in> {ActionReveal, ActionOffer, ActionVote, ActionPoke}"
  obtains t where "a_TargetSeat (r_Action r) = Some t" "0 \<le> t" "t < 6"
  using request_valid_variant [OF assms(1)] assms(2) by (auto simp: ptr_seat_Some)

lemma request_valid_count:
  assumes "request_Validate lang l r = None" and "a_Kind (r_Action r) = ActionDraw"
  obtains n where "a_Count (r_Action r) = Some n" "1 \<le> n"
  using request_valid_variant [OF assms(1)] assms(2) by (auto simp: opt_in_Some)

lemma request_valid_slot:
  assumes "request_Validate lang l r = None" and "a_Kind (r_Action r) = ActionReplace"
  obtains n where "a_Slot (r_Action r) = Some n" "0 \<le> n" "n \<le> 2"
  using request_valid_variant [OF assms(1)] assms(2) by (auto simp: opt_in_Some)

end
