(* ===== verification/Json.thy ===== *)
theory Json
  imports Contract Validate "HOL-Library.List_Lexorder" "HOL-Library.Char_ord"
begin

section \<open>JSON encodings: struct tags, \<open>json.Marshal\<close> and \<open>canonical.go\<close>\<close>

text \<open>
  The wire encoding of the contract's structs (field order, names and \<open>omitempty\<close> from the
  struct tags of \<open>contract.go\<close>), \<open>encoding/json\<close>'s compact output with HTML escaping, and the
  canonical encoding \<open>transport/v2/canonical.go\<close> hashes. A number is kept as its literal, as
  \<open>json.Number\<close> does.
\<close>

datatype json = JNull | JBool bool | JNum string | JStr string | JArr "json list"
  | JObj "(string \<times> json) list"

subsection \<open>\<open>json.Marshal\<close>\<close>

definition hex4 :: "nat \<Rightarrow> string" where
  "hex4 r = [hex_digit (r div 4096 mod 16), hex_digit (r div 256 mod 16),
             hex_digit (r div 16 mod 16), hex_digit (r mod 16)]"

definition backslash :: char where
  "backslash = char_of (92 :: nat)"

definition dquote :: char where
  "dquote = char_of (34 :: nat)"

definition unicode_escape :: "nat \<Rightarrow> string" where
  "unicode_escape r = [backslash, CHR ''u''] @ hex4 r"

text \<open>One rune of a string literal, with the bytes it was decoded from.\<close>

definition marshal_rune :: "nat \<times> string \<Rightarrow> string" where
  "marshal_rune rb = (case rb of (r, b) \<Rightarrow>
     if r = 34 \<or> r = 92 then backslash # b
     else if r = 8 then [backslash, CHR ''b'']
     else if r = 12 then [backslash, CHR ''f'']
     else if r = 10 then [backslash, CHR ''n'']
     else if r = 13 then [backslash, CHR ''r'']
     else if r = 9 then [backslash, CHR ''t'']
     else if r < 32 \<or> r = 60 \<or> r = 62 \<or> r = 38 then unicode_escape r
     else if r = rune_error \<and> length b = 1 then unicode_escape rune_error
     else if r = 8232 \<or> r = 8233 then unicode_escape r
     else b)"

definition marshal_string :: "string \<Rightarrow> string" where
  "marshal_string s = [dquote] @ concat (map marshal_rune (segs s)) @ [dquote]"

fun intersperse_comma :: "string list \<Rightarrow> string" where
  "intersperse_comma [] = []"
| "intersperse_comma [x] = x"
| "intersperse_comma (x # y # xs) = x @ '','' @ intersperse_comma (y # xs)"

fun marshal :: "json \<Rightarrow> string" where
  "marshal JNull = ''null''"
| "marshal (JBool b) = (if b then ''true'' else ''false'')"
| "marshal (JNum n) = n"
| "marshal (JStr s) = marshal_string s"
| "marshal (JArr xs) = ''['' @ intersperse_comma (map marshal xs) @ '']''"
| "marshal (JObj fs) = ''{'' @ intersperse_comma
     (map (\<lambda>kv. marshal_string (fst kv) @ '':'' @ marshal (snd kv)) fs) @ ''}''"

subsection \<open>\<open>writeCanonical\<close>\<close>

text \<open>
  \<open>canonicalJSON\<close> marshals, decodes into maps and writes the result back with sorted keys.
  Decoding replaces an invalid byte by \<open>U+FFFD\<close>, which \<open>WriteRune\<close> writes as \<open>EF BF BD\<close>.
\<close>

definition canonical_rune :: "nat \<times> string \<Rightarrow> string" where
  "canonical_rune rb = (case rb of (r, b) \<Rightarrow>
     if r = 34 \<or> r = 92 then backslash # b
     else if r = 8 then [backslash, CHR ''b'']
     else if r = 9 then [backslash, CHR ''t'']
     else if r = 10 then [backslash, CHR ''n'']
     else if r = 12 then [backslash, CHR ''f'']
     else if r = 13 then [backslash, CHR ''r'']
     else if r < 32 then unicode_escape r
     else if r = rune_error \<and> length b = 1
       then [char_of (239 :: nat), char_of (191 :: nat), char_of (189 :: nat)]
     else b)"

definition canonical_string :: "string \<Rightarrow> string" where
  "canonical_string s = [dquote] @ concat (map canonical_rune (segs s)) @ [dquote]"

definition nonintegral :: "string \<Rightarrow> bool" where
  "nonintegral n \<longleftrightarrow> (\<exists>c\<in>set n. c \<in> {CHR ''.'', CHR ''e'', CHR ''E''})"

fun write_canonical :: "json \<Rightarrow> go_error + string"
and write_items :: "json list \<Rightarrow> go_error + string list"
and write_fields :: "(string \<times> json) list \<Rightarrow> go_error + (string \<times> string) list" where
  "write_canonical JNull = Inr ''null''"
| "write_canonical (JBool b) = Inr (if b then ''true'' else ''false'')"
| "write_canonical (JNum n) =
     (if nonintegral n then Inl (invalid ErrMalformed ''nonintegral_hash_value'') else Inr n)"
| "write_canonical (JStr s) = Inr (canonical_string s)"
| "write_canonical (JArr xs) =
     (case write_items xs of Inl e \<Rightarrow> Inl e
      | Inr ys \<Rightarrow> Inr (''['' @ intersperse_comma ys @ '']''))"
| "write_canonical (JObj fs) =
     (case write_fields fs of Inl e \<Rightarrow> Inl e
      | Inr kvs \<Rightarrow> Inr (''{'' @ intersperse_comma
          (map (\<lambda>kv. canonical_string (fst kv) @ '':'' @ snd kv) (sort_key fst kvs)) @ ''}''))"
| "write_items [] = Inr []"
| "write_items (x # xs) =
     (case write_canonical x of Inl e \<Rightarrow> Inl e
      | Inr y \<Rightarrow> (case write_items xs of Inl e \<Rightarrow> Inl e | Inr ys \<Rightarrow> Inr (y # ys)))"
| "write_fields [] = Inr []"
| "write_fields ((k, x) # fs) =
     (case write_canonical x of Inl e \<Rightarrow> Inl e
      | Inr y \<Rightarrow> (case write_fields fs of Inl e \<Rightarrow> Inl e | Inr ys \<Rightarrow> Inr ((k, y) # ys)))"

subsection \<open>Field helpers\<close>

definition jint :: "int \<Rightarrow> json" where "jint i = JNum (dec_int i)"
definition jnat :: "nat \<Rightarrow> json" where "jnat n = JNum (dec n)"

definition jslice :: "('a \<Rightarrow> json) \<Rightarrow> 'a list option \<Rightarrow> json" where
  "jslice f xs = (case xs of None \<Rightarrow> JNull | Some ys \<Rightarrow> JArr (map f ys))"

definition jlist :: "('a \<Rightarrow> json) \<Rightarrow> 'a list \<Rightarrow> json" where
  "jlist f xs = JArr (map f xs)"

text \<open>\<open>omitempty\<close> fields: absent when nil, zero or empty.\<close>

definition omit_opt :: "string \<Rightarrow> ('a \<Rightarrow> json) \<Rightarrow> 'a option \<Rightarrow> (string \<times> json) list" where
  "omit_opt k f x = (case x of None \<Rightarrow> [] | Some y \<Rightarrow> [(k, f y)])"

definition omit_str :: "string \<Rightarrow> string \<Rightarrow> (string \<times> json) list" where
  "omit_str k s = (if s = [] then [] else [(k, JStr s)])"

definition omit_int :: "string \<Rightarrow> int \<Rightarrow> (string \<times> json) list" where
  "omit_int k i = (if i = 0 then [] else [(k, jint i)])"

definition omit_list :: "string \<Rightarrow> ('a \<Rightarrow> json) \<Rightarrow> 'a list \<Rightarrow> (string \<times> json) list" where
  "omit_list k f xs = (if xs = [] then [] else [(k, jlist f xs)])"

subsection \<open>The wire names of the enumerations\<close>

fun phase_string :: "phase \<Rightarrow> string" where
  "phase_string PhaseRoundStart = ''round_start''"
| "phase_string PhasePlay = ''play''"
| "phase_string PhaseTradeResponse = ''trade_response''"
| "phase_string PhaseDiscussion = ''discussion''"
| "phase_string PhaseKnowoff = ''knowoff''"
| "phase_string PhaseRunoff = ''runoff''"
| "phase_string PhaseResult = ''result''"
| "phase_string PhaseVerdict = ''verdict''"
| "phase_string (PhaseOther s) = s"

fun event_kind_string :: "event_kind \<Rightarrow> string" where
  "event_kind_string EvPass = ''pass''"
| "event_kind_string EvFreeCard = ''free_card''"
| "event_kind_string EvReveal = ''reveal''"
| "event_kind_string EvShuffle = ''shuffle''"
| "event_kind_string EvRevote = ''revote''"
| "event_kind_string EvSeed = ''seed''"
| "event_kind_string EvRespond = ''respond''"
| "event_kind_string EvPlace = ''place''"
| "event_kind_string EvReplace = ''replace''"
| "event_kind_string EvTop = ''top''"
| "event_kind_string EvOffer = ''offer''"
| "event_kind_string EvResolveOffer = ''resolve_offer''"
| "event_kind_string EvDraw = ''draw''"
| "event_kind_string EvAutoPass = ''auto_pass''"
| "event_kind_string EvVote = ''vote''"
| "event_kind_string EvPoke = ''poke''"
| "event_kind_string EvReady = ''ready''"
| "event_kind_string EvChat = ''chat''"
| "event_kind_string EvBallotResult = ''ballot_result''"
| "event_kind_string (EvOther s) = s"

definition action_kind_string :: "action_kind \<Rightarrow> string" where
  "action_kind_string k = event_kind_string (kind_string k)"

fun role_string :: "role \<Rightarrow> string" where
  "role_string Nower = ''nower''"
| "role_string Donower = ''donower''"
| "role_string (RoleOther s) = s"

fun specialty_string :: "specialty \<Rightarrow> string" where
  "specialty_string NoSpecialty = ''''"
| "specialty_string SpPass = ''pass''"
| "specialty_string SpReveal = ''reveal''"
| "specialty_string SpFreeCard = ''one_more_free_card''"
| "specialty_string SpShuffle = ''shuffle''"
| "specialty_string SpRevote = ''revote''"
| "specialty_string (SpOther s) = s"

fun reason_string :: "reason \<Rightarrow> string" where
  "reason_string RPlayer = ''player''"
| "reason_string RSeed = ''seed''"
| "reason_string RTimeout = ''timeout''"
| "reason_string RDisconnect = ''disconnect''"
| "reason_string RForcedTransition = ''forced_transition''"
| "reason_string RNoRecipient = ''no_recipient''"
| "reason_string (ROther s) = s"

fun resolution_string :: "resolution \<Rightarrow> string" where
  "resolution_string NoResolution = ''''"
| "resolution_string ResAccept = ''accept''"
| "resolution_string ResRefuse = ''refuse''"
| "resolution_string ResTimeout = ''timeout''"
| "resolution_string ResCancel = ''cancel''"
| "resolution_string (ResOther s) = s"

fun ballot_outcome_string :: "ballot_outcome \<Rightarrow> string" where
  "ballot_outcome_string OutElimination = ''elimination''"
| "ballot_outcome_string OutRunoff = ''runoff''"
| "ballot_outcome_string OutMiss = ''miss''"
| "ballot_outcome_string (OutOther s) = s"

fun match_outcome_string :: "match_outcome \<Rightarrow> string" where
  "match_outcome_string MatchCompleted = ''completed''"
| "match_outcome_string MatchScoredLowPopulation = ''scored_low_population''"
| "match_outcome_string MatchInterrupted = ''interrupted''"
| "match_outcome_string (MatchOther s) = s"

fun actor_kind_string :: "actor_kind \<Rightarrow> string" where
  "actor_kind_string ActorSystem = ''system''"
| "actor_kind_string ActorSeat = ''seat''"
| "actor_kind_string (ActorOther s) = s"

subsection \<open>Struct encodings\<close>

definition json_content :: "text_content \<Rightarrow> json" where
  "json_content c = JObj [(''content_id'', JStr (cr_ContentID (tc_Ref c))),
     (''revision'', jnat (cr_Revision (tc_Ref c))), (''text'', JStr (tc_Text c))]"

definition json_card :: "card \<Rightarrow> json" where
  "json_card c = JObj [(''copy_id'', JStr (cd_CopyID c)), (''content'', json_content (cd_Content c))]"

definition json_contract :: "match_contract \<Rightarrow> json" where
  "json_contract m = JObj
     [(''protocol_version'', jint (mc_ProtocolVersion m)), (''match_id'', JStr (mc_MatchID m)),
      (''room_id'', JStr (mc_RoomID m)), (''original_size'', jint (mc_OriginalSize m)),
      (''mode_id'', JStr (mode_string (mc_ModeID m))), (''rules_version'', JStr (mc_RulesVersion m)),
      (''content_language'', JStr (mc_ContentLanguage m)),
      (''pack_release_id'', JStr (mc_PackReleaseID m)), (''pack_sha256'', JStr (mc_PackSHA256 m)),
      (''tuning'', JObj [(''version'', JStr (pt_Version (mc_Tuning m))),
                         (''sha256'', JStr (pt_SHA256 (mc_Tuning m)))]),
      (''eligibility'', JObj [(''admission_id'', JStr (el_AdmissionID (mc_Eligibility m))),
         (''entry_path'', JStr (el_EntryPath (mc_Eligibility m))),
         (''rewards'', JBool (el_Rewards (mc_Eligibility m))),
         (''leaderboard'', JBool (el_Leaderboard (mc_Eligibility m)))])]"

definition json_action :: "action \<Rightarrow> json" where
  "json_action a = JObj ([(''kind'', JStr (action_kind_string (a_Kind a)))]
     @ omit_str ''copy_id'' (a_CopyID a) @ omit_opt ''rating'' jint (a_Rating a)
     @ omit_opt ''slot'' jint (a_Slot a) @ omit_opt ''target_seat'' jint (a_TargetSeat a)
     @ omit_str ''target_copy_id'' (a_TargetCopyID a) @ omit_str ''offer_id'' (a_OfferID a)
     @ omit_str ''resolution'' (resolution_string (a_Resolution a))
     @ omit_opt ''count'' jint (a_Count a) @ omit_str ''phrase_id'' (a_PhraseID a)
     @ omit_str ''text'' (a_Text a) @ omit_str ''ui_locale'' (a_UILocale a))"

definition json_request :: "action_request \<Rightarrow> json" where
  "json_request r = JObj
     [(''v'', jint (r_Version r)), (''request_id'', JStr (r_RequestID r)),
      (''match_id'', JStr (r_MatchID r)), (''mode_id'', JStr (mode_string (r_ModeID r))),
      (''round'', jint (r_Round r)), (''turn'', jint (r_Turn r)),
      (''phase'', JStr (phase_string (r_Phase r))), (''phase_id'', JStr (r_PhaseID r)),
      (''expected_board_revision'', jnat (r_ExpectedBoardRevision r)),
      (''action'', json_action (r_Action r))]"

definition json_cursor :: "cursor \<Rightarrow> json" where
  "json_cursor c = JObj [(''stream_epoch'', JStr (cu_StreamEpoch c)),
     (''recipient_seq'', jnat (cu_RecipientSeq c)), (''evidence_seq'', jnat (cu_EvidenceSeq c))]"

definition json_actor :: "actor \<Rightarrow> json" where
  "json_actor a = JObj ([(''kind'', JStr (actor_kind_string (ac_Kind a)))]
     @ omit_opt ''seat'' jint (ac_Seat a))"

definition json_ballot_result :: "ballot_result \<Rightarrow> json" where
  "json_ballot_result r = JObj ([(''outcome'', JStr (ballot_outcome_string (br_Outcome r)))]
     @ omit_opt ''seat'' jint (br_Seat r)
     @ omit_str ''revealed_role'' (role_string (br_RevealedRole r)))"

definition json_ballot :: "ballot_state \<Rightarrow> json" where
  "json_ballot b = JObj ([(''kind'', JStr (phase_string (bs_Kind b))),
     (''candidates'', jlist jint (bs_Candidates b)),
     (''votes'', jslice (\<lambda>v. JObj [(''seat'', jint (bv_Seat v)),
        (''target_seat'', jint (bv_TargetSeat v))]) (bs_Votes b))]
     @ omit_opt ''result'' json_ballot_result (bs_Result b))"

definition json_event :: "public_action \<Rightarrow> json" where
  "json_event e = JObj
     ([(''event_id'', JStr (e_EventID e)), (''evidence_seq'', jnat (e_EvidenceSeq e)),
       (''round'', jint (e_Round e)), (''phase'', JStr (phase_string (e_Phase e))),
       (''phase_id'', JStr (e_PhaseID e)), (''actor'', json_actor (e_Actor e)),
       (''kind'', JStr (event_kind_string (e_Kind e))), (''cards'', jslice json_card (e_Cards e)),
       (''before_revision'', jnat (e_BeforeRevision e)),
       (''after_revision'', jnat (e_AfterRevision e)), (''reason'', JStr (reason_string (e_Reason e))),
       (''server_time_ms'', jint (e_ServerTimeMS e))]
      @ omit_opt ''deadline_ms'' jint (e_DeadlineMS e) @ omit_opt ''count'' jint (e_Count e)
      @ omit_opt ''rating'' jint (e_Rating e) @ omit_opt ''slot'' jint (e_Slot e)
      @ omit_opt ''target_seat'' jint (e_TargetSeat e) @ omit_str ''offer_id'' (e_OfferID e)
      @ omit_str ''resolution'' (resolution_string (e_Resolution e))
      @ omit_str ''phrase_id'' (e_PhraseID e) @ omit_str ''text'' (e_Text e)
      @ omit_str ''ui_locale'' (e_UILocale e) @ omit_opt ''ballot'' json_ballot (e_Ballot e))"

definition json_board_card :: "board_card \<Rightarrow> json" where
  "json_board_card c = JObj ([(''card'', json_card (bc_Card c)), (''actor'', json_actor (bc_Actor c))]
     @ omit_opt ''rating'' jint (bc_Rating c) @ omit_opt ''slot'' jint (bc_Slot c)
     @ omit_opt ''seat'' jint (bc_Seat c))"

definition json_board :: "board \<Rightarrow> json" where
  "json_board b = JObj [(''mode_id'', JStr (mode_string (bd_ModeID b))),
     (''revision'', jnat (bd_Revision b)), (''cards'', jslice json_board_card (bd_Cards b))]"

definition json_offer :: "pending_offer \<Rightarrow> json" where
  "json_offer f = JObj [(''offer_id'', JStr (po_OfferID f)), (''proposer_seat'', jint (po_ProposerSeat f)),
     (''recipient_seat'', jint (po_RecipientSeat f)), (''offered_copy_id'', JStr (po_OfferedCopyID f)),
     (''requested_copy_id'', JStr (po_RequestedCopyID f)),
     (''board_revision'', jnat (po_BoardRevision f)), (''deadline_ms'', jint (po_DeadlineMS f))]"

definition json_public_seat :: "public_seat \<Rightarrow> json" where
  "json_public_seat p = JObj ([(''seat'', jint (ps_Seat p)), (''connected'', JBool (ps_Connected p)),
     (''eliminated'', JBool (ps_Eliminated p))]
     @ omit_str ''revealed_role'' (role_string (ps_RevealedRole p)))"

definition json_reveal :: "reveal_view \<Rightarrow> json" where
  "json_reveal v = JObj ([(''target_seat'', jint (rv_TargetSeat v)),
     (''expires_at_ms'', jint (rv_ExpiresAtMS v)), (''hand'', jslice json_card (rv_Hand v)),
     (''reserve'', jslice json_card (rv_Reserve v))]
     @ omit_str ''specialty'' (specialty_string (rv_Specialty v)))"

definition json_private :: "private_state \<Rightarrow> json" where
  "json_private p = JObj (omit_str ''specialty'' (specialty_string (pv_Specialty p))
     @ omit_int ''free_draws'' (pv_FreeDraws p) @ omit_opt ''reveal'' json_reveal (pv_Reveal p)
     @ [(''points'', jint (pv_Points p)), (''seat'', jint (pv_Seat p)),
        (''role'', JStr (role_string (pv_Role p)))]
     @ omit_opt ''nown'' json_content (pv_Nown p)
     @ [(''hand'', jslice json_card (pv_Hand p)), (''reserve_count'', jint (pv_ReserveCount p)),
        (''capabilities'', jslice (\<lambda>k. JStr (action_kind_string k)) (pv_Capabilities p))])"

definition json_manifest :: "history_manifest \<Rightarrow> json" where
  "json_manifest m = JObj [(''total_events'', jint (hm_TotalEvents m)),
     (''page_count'', jint (hm_PageCount m)),
     (''through_evidence_seq'', jnat (hm_ThroughEvidenceSeq m)),
     (''root_sha256'', JStr (hm_RootSHA256 m))]"

definition json_snapshot :: "snapshot \<Rightarrow> json" where
  "json_snapshot s = JObj (omit_opt ''reveal_target'' jint (sn_RevealTarget s)
     @ omit_list ''scores'' (\<lambda>x. JObj [(''seat'', jint (ss_Seat x)), (''points'', jint (ss_Points x))])
         (sn_Scores s)
     @ omit_opt ''verdict'' (\<lambda>v. JObj ([(''outcome'', JStr (match_outcome_string (mv_Outcome v)))]
         @ omit_str ''winner'' (role_string (mv_Winner v)))) (sn_Verdict s)
     @ [(''v'', jint (sn_Version s)), (''snapshot_id'', JStr (sn_SnapshotID s)),
        (''contract'', json_contract (sn_Contract s)), (''cursor'', json_cursor (sn_Cursor s)),
        (''round'', jint (sn_Round s)), (''turn'', jint (sn_Turn s))]
     @ omit_opt ''current_seat'' jint (sn_CurrentSeat s)
     @ [(''phase'', JStr (phase_string (sn_Phase s))), (''phase_id'', JStr (sn_PhaseID s)),
        (''server_time_ms'', jint (sn_ServerTimeMS s)), (''deadline_ms'', jint (sn_DeadlineMS s))]
     @ omit_opt ''result_reveal_at_ms'' jint (sn_ResultRevealAtMS s)
     @ [(''board'', json_board (sn_Board s)), (''seats'', jlist json_public_seat (sn_Seats s)),
        (''ready_seats'', jslice jint (sn_ReadySeats s))]
     @ omit_opt ''ballot'' json_ballot (sn_Ballot s)
     @ omit_opt ''pending_offer'' json_offer (sn_PendingOffer s)
     @ [(''private'', json_private (sn_Private s)), (''history'', jslice json_event (sn_History s))]
     @ omit_opt ''history_pages'' json_manifest (sn_HistoryPages s)
     @ omit_list ''verdict_nowns'' (\<lambda>n. JObj [(''round'', jint (bn_Round n)),
         (''content'', json_content (bn_Content n))]) (sn_VerdictNowns s))"

definition json_page :: "history_page \<Rightarrow> json" where
  "json_page p = JObj [(''v'', jint (hp_Version p)), (''match_id'', JStr (hp_MatchID p)),
     (''snapshot_id'', JStr (hp_SnapshotID p)), (''stream_epoch'', JStr (hp_StreamEpoch p)),
     (''index'', jint (hp_Index p)), (''from_evidence_seq'', jnat (hp_FromEvidenceSeq p)),
     (''through_evidence_seq'', jnat (hp_ThroughEvidenceSeq p)),
     (''events'', jlist json_event (hp_Events p)), (''sha256'', JStr (hp_SHA256 p))]"

text \<open>The encoded length of a snapshot and of a page, which the frame bounds test.\<close>

definition snapshot_bytes :: "snapshot \<Rightarrow> int" where
  "snapshot_bytes s = int (length (marshal (json_snapshot s)))"

definition page_bytes :: "history_page \<Rightarrow> int" where
  "page_bytes p = int (length (marshal (json_page p)))"

end
