(* ===== verification/Sequence.thy ===== *)
theory Sequence
  imports Json
begin

section \<open>Cursors, request identity and action context: \<open>transport/v2/sequence.go\<close>\<close>

text \<open>
  Stream cursors, the idempotency record of a request and the freshness check of an action.
  \<open>sha\<close> is \<open>sha256.Sum256\<close>, an argument wherever a hash is taken.
\<close>

definition CheckNext :: "cursor \<Rightarrow> cursor \<Rightarrow> go_error option" where
  "CheckNext current next = checks
    [cursor_validate current,
     cursor_validate next,
     reject_if (cu_StreamEpoch current \<noteq> cu_StreamEpoch next) (invalid ErrStaleStream ''stream_epoch''),
     reject_if (cu_RecipientSeq next \<le> cu_RecipientSeq current) (invalid ErrDuplicateEvent ''recipient_seq''),
     reject_if (cu_RecipientSeq next \<noteq> cu_RecipientSeq current + 1) (invalid ErrSequenceGap ''recipient_seq''),
     reject_if (cu_EvidenceSeq next < cu_EvidenceSeq current) (invalid ErrStaleEvidence ''evidence_seq''),
     reject_if (cu_EvidenceSeq next > cu_EvidenceSeq current + 1) (invalid ErrSequenceGap ''evidence_seq'')]"

record request_record =
  rr_MatchID :: string
  rr_Seat :: int
  rr_RequestID :: string
  rr_BodyHash :: string
  rr_ResultEventID :: string

definition RequestHash :: "(string \<Rightarrow> nat list) \<Rightarrow> action_request \<Rightarrow> string" where
  "RequestHash sha request = hex_encode (sha (marshal (json_request request)))"

definition CheckRequestReuse ::
  "(string \<Rightarrow> nat list) \<Rightarrow> request_record \<Rightarrow> action_request \<Rightarrow> int \<Rightarrow> go_error + bool" where
  "CheckRequestReuse sha previous request seat =
     (if rr_MatchID previous \<noteq> r_MatchID request \<or> rr_Seat previous \<noteq> seat
        \<or> rr_RequestID previous \<noteq> r_RequestID request then Inr False
      else if RequestHash sha request \<noteq> rr_BodyHash previous
        then Inl (invalid ErrRequestConflict ''request_id'')
      else Inr True)"

definition CheckRequestBudget :: "int \<Rightarrow> bool \<Rightarrow> limits \<Rightarrow> go_error option" where
  "CheckRequestBudget recorded duplicate l = checks
    [limits_Validate l,
     reject_if (recorded < 0) (invalid ErrMalformed ''recorded_requests''),
     reject_if (\<not> duplicate \<and> recorded \<ge> MaxRequestsPerSeat l) (invalid ErrRequestLimit ''requests'')]"

record action_context =
  ctx_MatchID :: string
  ctx_ModeID :: mode_id
  ctx_Round :: int
  ctx_Turn :: int
  ctx_Phase :: phase
  ctx_PhaseID :: string
  ctx_BoardRevision :: nat
  ctx_DeadlineMS :: int
  ctx_NowMS :: int

definition CheckActionContext :: "action_request \<Rightarrow> action_context \<Rightarrow> go_error option" where
  "CheckActionContext r current = checks
    [reject_if (r_MatchID r \<noteq> ctx_MatchID current \<or> r_ModeID r \<noteq> ctx_ModeID current)
       (invalid ErrStaleMatch ''match_id''),
     reject_if (r_Round r \<noteq> ctx_Round current \<or> r_Turn r \<noteq> ctx_Turn current
       \<or> r_Phase r \<noteq> ctx_Phase current \<or> r_PhaseID r \<noteq> ctx_PhaseID current)
       (invalid ErrStalePhase ''phase''),
     reject_if (r_ExpectedBoardRevision r \<noteq> ctx_BoardRevision current)
       (invalid ErrStaleRevision ''expected_board_revision''),
     reject_if (\<not> clock (ctx_DeadlineMS current) \<or> \<not> clock (ctx_NowMS current)
       \<or> ctx_NowMS current \<ge> ctx_DeadlineMS current)
       (invalid ErrDeadlineExpired ''deadline_ms'')]"

subsection \<open>Recipient streams\<close>

lemma CheckNext_step:
  "CheckNext c n = None \<Longrightarrow>
   cu_StreamEpoch n = cu_StreamEpoch c \<and> cu_RecipientSeq n = Suc (cu_RecipientSeq c)
   \<and> cu_EvidenceSeq n \<in> {cu_EvidenceSeq c, Suc (cu_EvidenceSeq c)}"
  by (auto simp: CheckNext_def)

text \<open>
  A client that applies \<open>CheckNext\<close> message by message from an established cursor: the messages
  it accepts, in order.
\<close>

fun accept_stream :: "cursor \<Rightarrow> cursor list \<Rightarrow> go_error + cursor" where
  "accept_stream c [] = Inr c"
| "accept_stream c (n # ns) = (case CheckNext c n of Some e \<Rightarrow> Inl e | None \<Rightarrow> accept_stream n ns)"

lemma accept_stream_seq:
  "accept_stream c ns = Inr c' \<Longrightarrow>
   map cu_RecipientSeq ns = [Suc (cu_RecipientSeq c)..<Suc (cu_RecipientSeq c + length ns)]
   \<and> cu_RecipientSeq c' = cu_RecipientSeq c + length ns"
proof (induction ns arbitrary: c)
  case Nil
  then show ?case by simp
next
  case (Cons n ns)
  then have n: "CheckNext c n = None" and rest: "accept_stream n ns = Inr c'"
    by (auto split: option.splits)
  then have "cu_RecipientSeq n = Suc (cu_RecipientSeq c)" by (simp add: CheckNext_step)
  with Cons.IH [OF rest] show ?case by (simp add: upt_rec)
qed

lemma accept_stream_epoch:
  "accept_stream c ns = Inr c' \<Longrightarrow>
   (\<forall>n\<in>set ns. cu_StreamEpoch n = cu_StreamEpoch c) \<and> cu_EvidenceSeq c \<le> cu_EvidenceSeq c'"
proof (induction ns arbitrary: c)
  case Nil
  then show ?case by simp
next
  case (Cons n ns)
  then have n: "CheckNext c n = None" and rest: "accept_stream n ns = Inr c'"
    by (auto split: option.splits)
  from CheckNext_step [OF n] Cons.IH [OF rest] show ?case by auto
qed

subsection \<open>Freshness\<close>

lemma CheckActionContext_fresh:
  "CheckActionContext r c = None \<longleftrightarrow>
   r_MatchID r = ctx_MatchID c \<and> r_ModeID r = ctx_ModeID c \<and> r_Round r = ctx_Round c
   \<and> r_Turn r = ctx_Turn c \<and> r_Phase r = ctx_Phase c \<and> r_PhaseID r = ctx_PhaseID c
   \<and> r_ExpectedBoardRevision r = ctx_BoardRevision c
   \<and> clock (ctx_DeadlineMS c) \<and> clock (ctx_NowMS c) \<and> ctx_NowMS c < ctx_DeadlineMS c"
  by (auto simp: CheckActionContext_def)

lemma CheckActionContext_stale_phase:
  "r_MatchID r = ctx_MatchID c \<Longrightarrow> r_ModeID r = ctx_ModeID c \<Longrightarrow> r_PhaseID r \<noteq> ctx_PhaseID c \<Longrightarrow>
   CheckActionContext r c = Some (invalid ErrStalePhase ''phase'')"
  by (simp add: CheckActionContext_def reject_if_def)

lemma CheckRequestReuse_cases:
  "CheckRequestReuse sha p r seat = Inr True \<Longrightarrow>
   rr_MatchID p = r_MatchID r \<and> rr_Seat p = seat \<and> rr_RequestID p = r_RequestID r
   \<and> rr_BodyHash p = RequestHash sha r"
  by (auto simp: CheckRequestReuse_def split: if_splits)

end
