(* ===== verification/History.thy ===== *)
theory History
  imports Sequence
begin

section \<open>Public evidence: \<open>transport/v2/history.go\<close>\<close>

text \<open>
  Validation of public events and counted ballots, and the paged form of a history: pages are
  cut at an event and a byte budget, hashed over the canonical JSON of their events, and
  assembled again only as the complete, ordered, untampered set.
\<close>

subsection \<open>Counted ballots\<close>

text \<open>
  The candidate and vote loops of \<open>validateEvidence\<close> return the set of candidates, and the
  tally per target in the order of first votes.
\<close>

abbreviation ballot_bad :: go_error where
  "ballot_bad \<equiv> invalid ErrMalformed ''ballot_evidence''"

fun evidence_candidates :: "int \<Rightarrow> int list \<Rightarrow> int list \<Rightarrow> go_error + int list" where
  "evidence_candidates sz seen [] = Inr seen"
| "evidence_candidates sz seen (p # ps) =
     (if \<not> seat_ok p sz \<or> p \<in> set seen then Inl ballot_bad
      else evidence_candidates sz (p # seen) ps)"

definition tget :: "(int \<times> int) list \<Rightarrow> int \<Rightarrow> int" where
  "tget t k = (case map_of t k of None \<Rightarrow> 0 | Some n \<Rightarrow> n)"

fun evidence_votes ::
  "int \<Rightarrow> int list \<Rightarrow> int list \<Rightarrow> (int \<times> int) list \<Rightarrow> ballot_vote list \<Rightarrow> go_error + (int \<times> int) list" where
  "evidence_votes sz candidates voters counts [] = Inr counts"
| "evidence_votes sz candidates voters counts (v # vs) =
     (if \<not> seat_ok (bv_Seat v) sz \<or> bv_TargetSeat v \<notin> set candidates
         \<or> bv_Seat v = bv_TargetSeat v \<or> bv_Seat v \<in> set voters
      then Inl ballot_bad
      else evidence_votes sz candidates (bv_Seat v # voters)
             (AList.update (bv_TargetSeat v) (tget counts (bv_TargetSeat v) + 1) counts) vs)"

text \<open>The running maximum, a seat that attains it and how many do.\<close>

fun leader_step :: "int \<times> int \<times> int \<Rightarrow> int \<times> int \<Rightarrow> int \<times> int \<times> int" where
  "leader_step (maximum, winner, winners) (candidate, n) =
     (if n > maximum then (n, candidate, 1)
      else if n = maximum then (maximum, winner, winners + 1)
      else (maximum, winner, winners))"

definition leader :: "(int \<times> int) list \<Rightarrow> int \<times> int \<times> int" where
  "leader counts = foldl leader_step (0, -1, 0) counts"

definition ballot_outcome_check :: "phase \<Rightarrow> ballot_result \<Rightarrow> int \<times> int \<times> int \<Rightarrow> go_error option" where
  "ballot_outcome_check kind r lead = (case lead of (maximum, winner, winners) \<Rightarrow>
     (case br_Outcome r of
        OutElimination \<Rightarrow> reject_if (winners \<noteq> 1 \<or> br_Seat r \<noteq> Some winner) ballot_bad
      | OutRunoff \<Rightarrow> reject_if (kind \<noteq> PhaseKnowoff \<or> winners < 2 \<or> br_Seat r \<noteq> None) ballot_bad
      | OutMiss \<Rightarrow> reject_if (br_Seat r \<noteq> None \<or> winners = 1 \<or> kind = PhaseKnowoff \<and> maximum > 0) ballot_bad
      | OutOther _ \<Rightarrow> Some ballot_bad))"

definition ballot_validateEvidence :: "ballot_state \<Rightarrow> int \<Rightarrow> go_error option" where
  "ballot_validateEvidence b sz =
     (case (bs_Votes b, bs_Result b) of
        (Some votes, Some r) \<Rightarrow>
          (if (bs_Kind b \<noteq> PhaseKnowoff \<and> bs_Kind b \<noteq> PhaseRunoff) \<or> length (bs_Candidates b) < 2
              \<or> int (length (bs_Candidates b)) > sz \<or> br_RevealedRole r \<noteq> NoRole
           then Some ballot_bad
           else (case evidence_candidates sz [] (bs_Candidates b) of
                   Inl e \<Rightarrow> Some e
                 | Inr candidates \<Rightarrow>
                    (case evidence_votes sz candidates [] [] votes of
                       Inl e \<Rightarrow> Some e
                     | Inr counts \<Rightarrow> ballot_outcome_check (bs_Kind b) r (leader counts))))
      | _ \<Rightarrow> Some ballot_bad)"

subsection \<open>Public events\<close>

fun reason_known :: "reason \<Rightarrow> bool" where
  "reason_known (ROther _) = False"
| "reason_known _ = True"

fun distinct_cards :: "limits \<Rightarrow> copy_id list \<Rightarrow> card list \<Rightarrow> go_error option" where
  "distinct_cards l seen [] = None"
| "distinct_cards l seen (c # cs) = checks
     [card_validate c l,
      reject_if (cd_CopyID c \<in> set seen) (invalid ErrMalformed ''duplicate_copy''),
      distinct_cards l (cd_CopyID c # seen) cs]"

datatype ekey = ERating | ESlot | EOffer | EResolution | ECount | ETarget | EPhrase | EText
  | ELocale | EBallot

fun event_allowed :: "event_kind \<Rightarrow> ekey list" where
  "event_allowed EvReveal = [ETarget]"
| "event_allowed EvPlace = [ERating]"
| "event_allowed EvReplace = [ESlot]"
| "event_allowed EvOffer = [EOffer, ETarget]"
| "event_allowed EvResolveOffer = [EOffer, EResolution]"
| "event_allowed EvDraw = [ECount]"
| "event_allowed EvVote = [ETarget]"
| "event_allowed EvPoke = [ETarget]"
| "event_allowed EvChat = [EPhrase, EText, ELocale]"
| "event_allowed EvBallotResult = [EBallot]"
| "event_allowed _ = []"

definition by_seat :: "public_action \<Rightarrow> bool" where
  "by_seat e \<longleftrightarrow> ac_Kind (e_Actor e) = ActorSeat"

definition by_system :: "public_action \<Rightarrow> bool" where
  "by_system e \<longleftrightarrow> ac_Kind (e_Actor e) = ActorSystem"

definition n_cards :: "public_action \<Rightarrow> nat" where
  "n_cards e = length (slice (e_Cards e))"

definition other_target :: "public_action \<Rightarrow> bool" where
  "other_target e \<longleftrightarrow> ptr_seat (e_TargetSeat e) 6 \<and> e_TargetSeat e \<noteq> ac_Seat (e_Actor e)"

fun event_variant_ok :: "(string \<Rightarrow> bool) \<Rightarrow> limits \<Rightarrow> public_action \<Rightarrow> event_kind \<Rightarrow> bool" where
  "event_variant_ok lang l e EvPass = (by_seat e \<and> n_cards e = 0 \<and> e_Phase e = PhasePlay)"
| "event_variant_ok lang l e EvFreeCard = (by_seat e \<and> n_cards e = 0 \<and> e_Phase e = PhasePlay)"
| "event_variant_ok lang l e EvReveal =
     (by_seat e \<and> n_cards e = 0 \<and> other_target e \<and> e_Phase e = PhasePlay)"
| "event_variant_ok lang l e EvShuffle =
     (by_system e \<and> n_cards e \<le> 6 \<and> (e_Phase e = PhasePlay \<or> e_Phase e = PhaseTradeResponse))"
| "event_variant_ok lang l e EvRevote =
     (by_seat e \<and> n_cards e = 0 \<and> (e_Phase e = PhaseKnowoff \<or> e_Phase e = PhaseRunoff))"
| "event_variant_ok lang l e EvSeed =
     (e_Phase e = PhaseRoundStart \<and> by_system e \<and> e_Reason e = RSeed \<and> n_cards e > 0 \<and> n_cards e \<le> 6)"
| "event_variant_ok lang l e EvRespond = (by_seat e \<and> n_cards e = 1)"
| "event_variant_ok lang l e EvPlace = (by_seat e \<and> n_cards e = 1 \<and> opt_in (e_Rating e) 1 5)"
| "event_variant_ok lang l e EvReplace = (by_seat e \<and> n_cards e = 2 \<and> opt_in (e_Slot e) 0 2)"
| "event_variant_ok lang l e EvTop = (by_seat e \<and> n_cards e = 2)"
| "event_variant_ok lang l e EvOffer =
     (by_seat e \<and> n_cards e = 2 \<and> ValidIdentifier (e_OfferID e) \<and> other_target e \<and> e_DeadlineMS e \<noteq> None)"
| "event_variant_ok lang l e EvResolveOffer =
     (ValidIdentifier (e_OfferID e) \<and> n_cards e = 2
      \<and> e_Resolution e \<in> {ResAccept, ResRefuse, ResTimeout, ResCancel})"
| "event_variant_ok lang l e EvDraw =
     (by_seat e \<and> n_cards e = 0 \<and> opt_in (e_Count e) 1 MaxSafeInteger)"
| "event_variant_ok lang l e EvAutoPass =
     (by_seat e \<and> n_cards e \<le> 1 \<and> (e_Reason e = RTimeout \<or> e_Reason e = RDisconnect
        \<or> e_Reason e = RNoRecipient \<and> n_cards e = 0))"
| "event_variant_ok lang l e EvVote = (by_seat e \<and> n_cards e = 0 \<and> other_target e)"
| "event_variant_ok lang l e EvPoke = (by_seat e \<and> n_cards e = 0 \<and> other_target e)"
| "event_variant_ok lang l e EvReady = (by_seat e \<and> n_cards e = 0)"
| "event_variant_ok lang l e EvChat =
     (by_seat e \<and> n_cards e = 0 \<and> e_Reason e = RPlayer \<and> e_Phase e \<noteq> PhaseRoundStart
      \<and> e_Phase e \<noteq> PhaseVerdict \<and> chat_body_ok lang (e_UILocale e) (e_PhraseID e) (e_Text e) l)"
| "event_variant_ok lang l e EvBallotResult =
     (by_system e \<and> n_cards e = 0 \<and> e_BeforeRevision e = e_AfterRevision e
      \<and> (case e_Ballot e of None \<Rightarrow> False
          | Some b \<Rightarrow> bs_Kind b = e_Phase e \<and> ballot_validateEvidence b 6 = None))"
| "event_variant_ok lang l e (EvOther _) = False"

definition event_phase_check :: "public_action \<Rightarrow> go_error option" where
  "event_phase_check e =
     (case e_Kind e of
        EvRespond \<Rightarrow> reject_if (e_Phase e \<noteq> PhasePlay) (invalid ErrMalformed ''action_phase'')
      | EvPlace \<Rightarrow> reject_if (e_Phase e \<noteq> PhasePlay) (invalid ErrMalformed ''action_phase'')
      | EvReplace \<Rightarrow> reject_if (e_Phase e \<noteq> PhasePlay) (invalid ErrMalformed ''action_phase'')
      | EvTop \<Rightarrow> reject_if (e_Phase e \<noteq> PhasePlay) (invalid ErrMalformed ''action_phase'')
      | EvOffer \<Rightarrow> reject_if (e_Phase e \<noteq> PhasePlay) (invalid ErrMalformed ''action_phase'')
      | EvDraw \<Rightarrow> reject_if (e_Phase e \<noteq> PhasePlay) (invalid ErrMalformed ''action_phase'')
      | EvAutoPass \<Rightarrow> reject_if (e_Phase e \<noteq> PhasePlay) (invalid ErrMalformed ''action_phase'')
      | EvResolveOffer \<Rightarrow> reject_if (e_Phase e \<noteq> PhaseTradeResponse) (invalid ErrMalformed ''action_phase'')
      | EvVote \<Rightarrow> reject_if (e_Phase e \<noteq> PhaseKnowoff \<and> e_Phase e \<noteq> PhaseRunoff) (invalid ErrMalformed ''action_phase'')
      | _ \<Rightarrow> None)"

definition event_present :: "public_action \<Rightarrow> ekey list" where
  "event_present e = map fst (filter snd
    [(ERating, e_Rating e \<noteq> None), (ESlot, e_Slot e \<noteq> None), (EOffer, e_OfferID e \<noteq> []),
     (EResolution, e_Resolution e \<noteq> NoResolution), (ECount, e_Count e \<noteq> None),
     (ETarget, e_TargetSeat e \<noteq> None), (EPhrase, e_PhraseID e \<noteq> []), (EText, e_Text e \<noteq> []),
     (ELocale, e_UILocale e \<noteq> []), (EBallot, e_Ballot e \<noteq> None)])"

definition event_validate :: "(string \<Rightarrow> bool) \<Rightarrow> limits \<Rightarrow> public_action \<Rightarrow> go_error option" where
  "event_validate lang l e = checks
    [reject_if (\<not> phase_valid (e_Phase e) \<or> \<not> ValidIdentifier (e_PhaseID e))
       (invalid ErrMalformed ''public_phase''),
     reject_if (\<not> ValidIdentifier (e_EventID e) \<or> e_EvidenceSeq e = 0 \<or> \<not> safe (e_EvidenceSeq e)
       \<or> e_Round e < 1 \<or> e_Round e > 3 \<or> \<not> safe (e_BeforeRevision e) \<or> \<not> safe (e_AfterRevision e)
       \<or> e_AfterRevision e < e_BeforeRevision e \<or> \<not> clock (e_ServerTimeMS e)
       \<or> (case e_DeadlineMS e of None \<Rightarrow> False | Some d \<Rightarrow> \<not> clock d))
       (invalid ErrMalformed ''public_action''),
     actor_validate (e_Actor e) 6,
     reject_if (e_Cards e = None \<or> int (n_cards e) > MaxHistoryEvents l)
       (invalid ErrMalformed ''public_cards''),
     distinct_cards l [] (slice (e_Cards e)),
     reject_if (\<not> reason_known (e_Reason e)) (invalid ErrMalformed ''reason''),
     reject_if (\<not> event_variant_ok lang l e (e_Kind e)) (invalid ErrMalformed ''public_action_variant''),
     event_phase_check e,
     reject_if (\<not> list_all (\<lambda>k. k \<in> set (event_allowed (e_Kind e))) (event_present e))
       (invalid ErrMalformed ''public_action_field'')]"

subsection \<open>Histories\<close>

fun history_from ::
  "(string \<Rightarrow> bool) \<Rightarrow> limits \<Rightarrow> nat \<Rightarrow> string list \<Rightarrow> public_action option \<Rightarrow> public_action list \<Rightarrow> go_error option" where
  "history_from lang l expected ids prev [] = None"
| "history_from lang l expected ids prev (e # es) = checks
     [event_validate lang l e,
      reject_if (e_EvidenceSeq e \<noteq> expected \<or> e_EventID e \<in> set ids)
        (invalid ErrHistoryIntegrity ''event_order''),
      reject_if (case prev of None \<Rightarrow> False
         | Some q \<Rightarrow> e_Round e < e_Round q \<or> e_ServerTimeMS e < e_ServerTimeMS q
             \<or> e_BeforeRevision e < e_AfterRevision q)
        (invalid ErrHistoryIntegrity ''event_regression''),
      history_from lang l (expected + 1) (e_EventID e # ids) (Some e) es]"

definition validateHistory :: "(string \<Rightarrow> bool) \<Rightarrow> limits \<Rightarrow> public_action list \<Rightarrow> nat \<Rightarrow> go_error option" where
  "validateHistory lang l events from = checks
    [reject_if (int (length events) > MaxHistoryEvents l) (invalid ErrHistoryLimit ''events''),
     history_from lang l from [] None events]"

subsection \<open>Hashes\<close>

text \<open>
  \<open>eventsHash\<close> ignores the error of \<open>canonicalJSON\<close>, whose data is then nil. \<open>rootHash\<close> hashes
  the concatenation of the decoded page hashes.
\<close>

definition events_canonical :: "public_action list \<Rightarrow> string" where
  "events_canonical events =
     (case write_canonical (jlist json_event events) of Inl _ \<Rightarrow> [] | Inr s \<Rightarrow> s)"

definition eventsHash :: "(string \<Rightarrow> nat list) \<Rightarrow> public_action list \<Rightarrow> string" where
  "eventsHash sha events = hex_encode (sha (events_canonical events))"

definition hex_bytes :: "string \<Rightarrow> string" where
  "hex_bytes s = (case hex_decode s of None \<Rightarrow> [] | Some bs \<Rightarrow> map char_of bs)"

definition rootHash :: "(string \<Rightarrow> nat list) \<Rightarrow> history_page list \<Rightarrow> string" where
  "rootHash sha pages = hex_encode (sha (concat (map (\<lambda>p. hex_bytes (hp_SHA256 p)) pages)))"

subsection \<open>Pages\<close>

definition page_Validate ::
  "(string \<Rightarrow> nat list) \<Rightarrow> (string \<Rightarrow> bool) \<Rightarrow> limits \<Rightarrow> history_page \<Rightarrow> go_error option" where
  "page_Validate sha lang l p = checks
    [reject_if (hp_Version p \<noteq> Version) (invalid ErrVersion ''v''),
     reject_if (\<not> ValidIdentifier (hp_MatchID p) \<or> \<not> ValidIdentifier (hp_SnapshotID p)
       \<or> \<not> ValidIdentifier (hp_StreamEpoch p) \<or> hp_Index p < 0 \<or> hp_Index p \<ge> MaxHistoryEvents l
       \<or> hp_Events p = [] \<or> int (length (hp_Events p)) > MaxHistoryPageEvents l)
       (invalid ErrHistoryLimit ''page''),
     reject_if (hp_FromEvidenceSeq p = 0 \<or> \<not> safe (hp_FromEvidenceSeq p)
       \<or> \<not> safe (hp_ThroughEvidenceSeq p)
       \<or> hp_ThroughEvidenceSeq p \<noteq> hp_FromEvidenceSeq p + length (hp_Events p) - 1
       \<or> hp_SHA256 p \<noteq> eventsHash sha (hp_Events p))
       (invalid ErrHistoryIntegrity ''page_hash_or_cursor''),
     validateHistory lang l (hp_Events p) (hp_FromEvidenceSeq p)]"

definition sha_placeholder :: string where
  "sha_placeholder = replicate 64 (CHR ''0'')"

definition new_page :: "string \<Rightarrow> string \<Rightarrow> string \<Rightarrow> nat \<Rightarrow> nat \<Rightarrow> history_page" where
  "new_page matchID snapshotID epoch index from =
     \<lparr>hp_Version = Version, hp_MatchID = matchID, hp_SnapshotID = snapshotID, hp_StreamEpoch = epoch,
      hp_Index = int index, hp_FromEvidenceSeq = from, hp_ThroughEvidenceSeq = 0, hp_Events = [],
      hp_SHA256 = []\<rparr>"

text \<open>
  The inner loop: events are taken while the event budget and, with the placeholder hash in
  place, the frame budget allow. It returns the filled page and the events left.
\<close>

fun fill_page :: "limits \<Rightarrow> history_page \<Rightarrow> public_action list \<Rightarrow> go_error + (history_page \<times> public_action list)" where
  "fill_page l page [] = Inr (page, [])"
| "fill_page l page (e # es) =
     (if int (length (hp_Events page)) < MaxHistoryPageEvents l then
        (let candidate = page\<lparr>hp_Events := hp_Events page @ [e],
               hp_ThroughEvidenceSeq := e_EvidenceSeq e, hp_SHA256 := sha_placeholder\<rparr>
         in if page_bytes candidate > MaxFrameBytes l then
              (if hp_Events page = [] then Inl (invalid ErrFrameTooLarge ''history_event'')
               else Inr (page, e # es))
            else fill_page l candidate es)
      else Inr (page, e # es))"

lemma fill_page_length: "fill_page l page es = Inr (page', rest) \<Longrightarrow> length rest \<le> length es"
  by (induction l page es rule: fill_page.induct) (auto simp: Let_def split: if_splits)

lemma fill_page_progress:
  assumes "fill_page l page (e # es) = Inr (page', rest)" and "hp_Events page = []"
    and "0 < MaxHistoryPageEvents l"
  shows "length rest < length (e # es)"
  using assms by (auto simp: Let_def dest: fill_page_length split: if_splits)

text \<open>The outer loop. It makes progress because a validated page budget is positive.\<close>

function make_pages ::
  "(string \<Rightarrow> nat list) \<Rightarrow> limits \<Rightarrow> string \<Rightarrow> string \<Rightarrow> string \<Rightarrow> nat \<Rightarrow> public_action list \<Rightarrow> go_error + history_page list" where
  "make_pages sha l matchID snapshotID epoch index events =
     (case events of
        [] \<Rightarrow> Inr []
      | e # _ \<Rightarrow>
         (if MaxHistoryPageEvents l \<le> 0 then Inl (invalid ErrMalformed ''limits'')
          else case fill_page l (new_page matchID snapshotID epoch index (e_EvidenceSeq e)) events of
             Inl err \<Rightarrow> Inl err
           | Inr (page, rest) \<Rightarrow>
              (case make_pages sha l matchID snapshotID epoch (index + 1) rest of
                 Inl err \<Rightarrow> Inl err
               | Inr ps \<Rightarrow> Inr (page\<lparr>hp_SHA256 := eventsHash sha (hp_Events page)\<rparr> # ps))))"
  by pat_completeness auto
termination
proof (relation "measure (\<lambda>(sha, l, matchID, snapshotID, epoch, index, events). length events)", goal_cases)
  case 1
  then show ?case by simp
next
  case (2 sha l matchID snapshotID epoch index events e es x page rest)
  then have "length rest < length (e # es)"
    by (intro fill_page_progress [of l "new_page matchID snapshotID epoch index (e_EvidenceSeq e)" e es page])
       (auto simp: new_page_def)
  with 2 show ?case by simp
qed

declare make_pages.simps [simp del]

text \<open>
  \<open>PaginateHistory\<close>. The final JSON round trip only detaches the pages from the caller's memory.
\<close>

definition PaginateHistory ::
  "(string \<Rightarrow> nat list) \<Rightarrow> (string \<Rightarrow> bool) \<Rightarrow> limits \<Rightarrow> string \<Rightarrow> string \<Rightarrow> string \<Rightarrow> public_action list
    \<Rightarrow> go_error + (history_manifest \<times> history_page list)" where
  "PaginateHistory sha lang l matchID snapshotID epoch events =
     (case checks
        [limits_Validate l,
         reject_if (\<not> ValidIdentifier matchID \<or> \<not> ValidIdentifier snapshotID \<or> \<not> ValidIdentifier epoch)
           (invalid ErrMalformed ''history_identity''),
         reject_if (events = []) (invalid ErrHistoryIntegrity ''empty_history''),
         validateHistory lang l events 1] of
        Some e \<Rightarrow> Inl e
      | None \<Rightarrow>
         (case make_pages sha l matchID snapshotID epoch 0 events of
            Inl e \<Rightarrow> Inl e
          | Inr pages \<Rightarrow> Inr (\<lparr>hm_TotalEvents = int (length events), hm_PageCount = int (length pages),
               hm_ThroughEvidenceSeq = length events, hm_RootSHA256 = rootHash sha pages\<rparr>, pages)))"

fun assemble_pages ::
  "(string \<Rightarrow> nat list) \<Rightarrow> (string \<Rightarrow> bool) \<Rightarrow> limits \<Rightarrow> history_manifest \<Rightarrow> string \<Rightarrow> string \<Rightarrow> string
    \<Rightarrow> nat \<Rightarrow> public_action list \<Rightarrow> history_page list \<Rightarrow> go_error + public_action list" where
  "assemble_pages sha lang l m matchID snapshotID epoch i events [] = Inr events"
| "assemble_pages sha lang l m matchID snapshotID epoch i events (page # pages) =
     (case checks
        [reject_if (hp_MatchID page \<noteq> matchID \<or> hp_SnapshotID page \<noteq> snapshotID
           \<or> hp_StreamEpoch page \<noteq> epoch \<or> hp_Index page \<noteq> int i)
           (invalid ErrHistoryIntegrity ''page_identity''),
         page_Validate sha lang l page,
         reject_if (page_bytes page > MaxFrameBytes l) (invalid ErrFrameTooLarge ''history_page''),
         reject_if (int (length events + length (hp_Events page)) > hm_TotalEvents m)
           (invalid ErrHistoryIntegrity ''total_events'')] of
        Some e \<Rightarrow> Inl e
      | None \<Rightarrow> assemble_pages sha lang l m matchID snapshotID epoch (i + 1) (events @ hp_Events page) pages)"

definition AssembleHistory ::
  "(string \<Rightarrow> nat list) \<Rightarrow> (string \<Rightarrow> bool) \<Rightarrow> limits \<Rightarrow> history_manifest \<Rightarrow> history_page list \<Rightarrow> string \<Rightarrow> string
    \<Rightarrow> string \<Rightarrow> go_error + public_action list" where
  "AssembleHistory sha lang l m pages matchID snapshotID epoch =
     (case checks
        [limits_Validate l,
         reject_if (hm_TotalEvents m \<le> 0 \<or> hm_TotalEvents m > MaxHistoryEvents l \<or> hm_PageCount m \<le> 0
           \<or> hm_PageCount m > hm_TotalEvents m \<or> int (length pages) \<noteq> hm_PageCount m
           \<or> int (hm_ThroughEvidenceSeq m) \<noteq> hm_TotalEvents m \<or> \<not> hash_ok (hm_RootSHA256 m))
           (invalid ErrHistoryIntegrity ''manifest'')] of
        Some e \<Rightarrow> Inl e
      | None \<Rightarrow>
         (case assemble_pages sha lang l m matchID snapshotID epoch 0 [] pages of
            Inl e \<Rightarrow> Inl e
          | Inr events \<Rightarrow>
             (case checks
                [reject_if (int (length events) \<noteq> hm_TotalEvents m \<or> rootHash sha pages \<noteq> hm_RootSHA256 m)
                   (invalid ErrHistoryIntegrity ''root_hash''),
                 validateHistory lang l events 1] of
                Some e \<Rightarrow> Inl e
              | None \<Rightarrow> Inr events)))"

end
