(* ===== verification/Snapshots.thy ===== *)
theory Snapshots
  imports History
begin

section \<open>Snapshot validation: \<open>transport/v2/snapshot.go\<close>\<close>

text \<open>
  The validator of a recipient's complete snapshot. It is written as the code has it, as a
  sequence of early returns; the loops over board cards, seats, scores, capabilities and
  history are the auxiliary functions before it.
\<close>

subsection \<open>Boards\<close>

fun board_variant_check :: "mode_id \<Rightarrow> int \<Rightarrow> int list \<Rightarrow> int list \<Rightarrow> board_card \<Rightarrow> go_error option" where
  "board_variant_check ModeMissedTheBriefing sz slots seats c =
     reject_if (bc_Rating c \<noteq> None \<or> bc_Slot c \<noteq> None \<or> bc_Seat c \<noteq> None)
       (invalid ErrMalformed ''board_variant'')"
| "board_variant_check ModeTopThat sz slots seats c =
     reject_if (bc_Rating c \<noteq> None \<or> bc_Slot c \<noteq> None \<or> bc_Seat c \<noteq> None)
       (invalid ErrMalformed ''board_variant'')"
| "board_variant_check ModeSecretScale sz slots seats c =
     reject_if (\<not> opt_in (bc_Rating c) 1 5 \<or> bc_Slot c \<noteq> None \<or> bc_Seat c \<noteq> None)
       (invalid ErrMalformed ''board_rating'')"
| "board_variant_check ModeMakeRoom sz slots seats c =
     reject_if (\<not> opt_in (bc_Slot c) 0 2 \<or> the (bc_Slot c) \<in> set slots
         \<or> bc_Rating c \<noteq> None \<or> bc_Seat c \<noteq> None)
       (invalid ErrMalformed ''board_slot'')"
| "board_variant_check ModeBadBargains sz slots seats c =
     reject_if (\<not> ptr_seat (bc_Seat c) sz \<or> the (bc_Seat c) \<in> set seats
         \<or> bc_Rating c \<noteq> None \<or> bc_Slot c \<noteq> None)
       (invalid ErrMalformed ''display_seat'')"
| "board_variant_check (ModeOther _) sz slots seats c = None"

fun board_cards_check ::
  "mode_id \<Rightarrow> int \<Rightarrow> limits \<Rightarrow> copy_id list \<Rightarrow> int list \<Rightarrow> int list \<Rightarrow> board_card list \<Rightarrow> go_error option" where
  "board_cards_check mode sz l copies slots seats [] = None"
| "board_cards_check mode sz l copies slots seats (c # cs) = checks
     [card_validate (bc_Card c) l,
      actor_validate (bc_Actor c) sz,
      reject_if (cd_CopyID (bc_Card c) \<in> set copies) (invalid ErrMalformed ''duplicate_board_copy''),
      board_variant_check mode sz slots seats c,
      board_cards_check mode sz l (cd_CopyID (bc_Card c) # copies)
        (if mode = ModeMakeRoom then the (bc_Slot c) # slots else slots)
        (if mode = ModeBadBargains then the (bc_Seat c) # seats else seats) cs]"

definition board_validate :: "board \<Rightarrow> int \<Rightarrow> limits \<Rightarrow> go_error option" where
  "board_validate b sz l =
    (let n = int (length (slice (bd_Cards b))) in checks
    [reject_if (\<not> mode_valid (bd_ModeID b) \<or> \<not> safe (bd_Revision b) \<or> bd_Cards b = None
       \<or> n > MaxHistoryEvents l) (invalid ErrMalformed ''board''),
     reject_if (bd_ModeID b = ModeMakeRoom \<and> n \<noteq> 3 \<or> bd_ModeID b = ModeTopThat \<and> n = 0
       \<or> bd_ModeID b = ModeBadBargains \<and> (n = 0 \<or> n > sz)) (invalid ErrMalformed ''board_size''),
     board_cards_check (bd_ModeID b) sz l [] [] [] (slice (bd_Cards b))])"

subsection \<open>Capabilities\<close>

fun capability :: "action_kind \<Rightarrow> mode_id \<Rightarrow> phase \<Rightarrow> bool" where
  "capability ActionPass mode ph = (ph = PhasePlay)"
| "capability ActionReveal mode ph = (ph = PhasePlay)"
| "capability ActionFreeCard mode ph = (ph = PhasePlay)"
| "capability ActionViewReveal mode ph = (ph \<noteq> PhaseRoundStart \<and> ph \<noteq> PhaseVerdict)"
| "capability ActionShuffle mode ph = (ph = PhasePlay \<or> ph = PhaseTradeResponse)"
| "capability ActionRevote mode ph = (ph = PhaseKnowoff \<or> ph = PhaseRunoff)"
| "capability ActionRespond mode ph = (mode = ModeMissedTheBriefing \<and> ph = PhasePlay)"
| "capability ActionPlace mode ph = (mode = ModeSecretScale \<and> ph = PhasePlay)"
| "capability ActionReplace mode ph = (mode = ModeMakeRoom \<and> ph = PhasePlay)"
| "capability ActionOffer mode ph = (mode = ModeBadBargains \<and> ph = PhasePlay)"
| "capability ActionTop mode ph = (mode = ModeTopThat \<and> ph = PhasePlay)"
| "capability ActionResolveOffer mode ph = (mode = ModeBadBargains \<and> ph = PhaseTradeResponse)"
| "capability ActionDraw mode ph = (ph = PhasePlay)"
| "capability ActionVote mode ph = (ph = PhaseKnowoff \<or> ph = PhaseRunoff)"
| "capability ActionReady mode ph =
     (ph = PhaseDiscussion \<or> ph = PhaseKnowoff \<or> ph = PhaseRunoff \<or> ph = PhaseResult)"
| "capability ActionPoke mode ph =
     (ph = PhasePlay \<or> ph = PhaseTradeResponse \<or> ph = PhaseDiscussion \<or> ph = PhaseKnowoff
      \<or> ph = PhaseRunoff)"
| "capability ActionChat mode ph = (ph \<noteq> PhaseVerdict \<and> ph \<noteq> PhaseRoundStart)"
| "capability (ActionOther _) mode ph = False"

fun held_for :: "action_kind \<Rightarrow> specialty option" where
  "held_for ActionPass = Some SpPass"
| "held_for ActionReveal = Some SpReveal"
| "held_for ActionShuffle = Some SpShuffle"
| "held_for ActionRevote = Some SpRevote"
| "held_for ActionFreeCard = Some SpFreeCard"
| "held_for _ = None"

definition card_action :: "action_kind \<Rightarrow> bool" where
  "card_action k \<longleftrightarrow> k \<in> {ActionRespond, ActionPlace, ActionReplace, ActionOffer, ActionTop}"

definition turn_action :: "action_kind \<Rightarrow> bool" where
  "turn_action k \<longleftrightarrow> k \<in> {ActionPass, ActionReveal, ActionFreeCard, ActionRespond, ActionPlace,
     ActionReplace, ActionOffer, ActionTop, ActionDraw}"

fun capabilities_check :: "snapshot \<Rightarrow> public_seat \<Rightarrow> action_kind list \<Rightarrow> action_kind list \<Rightarrow> go_error option" where
  "capabilities_check s recipient seen [] = None"
| "capabilities_check s recipient seen (a # as) = checks
     [reject_if (ps_Eliminated recipient \<or> \<not> ps_Connected recipient
        \<or> \<not> capability a (mc_ModeID (sn_Contract s)) (sn_Phase s) \<or> a \<in> set seen)
        (invalid ErrUnauthorized ''capabilities''),
      reject_if (case held_for a of None \<Rightarrow> False | Some h \<Rightarrow> pv_Specialty (sn_Private s) \<noteq> h)
        (invalid ErrUnauthorized ''specialty_capability''),
      reject_if (a = ActionShuffle \<and> pv_Role (sn_Private s) \<noteq> Donower
        \<or> a = ActionRevote \<and> pv_Role (sn_Private s) \<noteq> Nower)
        (invalid ErrUnauthorized ''specialty_role''),
      reject_if (a = ActionFreeCard \<and> (pv_ReserveCount (sn_Private s) = 0 \<or> pv_FreeDraws (sn_Private s) \<noteq> 0))
        (invalid ErrUnauthorized ''free_draw''),
      reject_if (a = ActionViewReveal \<and> sn_RevealTarget s = None)
        (invalid ErrUnauthorized ''reveal_target''),
      reject_if (card_action a \<and> pv_FreeDraws (sn_Private s) > 0)
        (invalid ErrUnauthorized ''free_draw_required''),
      reject_if (turn_action a \<and> sn_CurrentSeat s \<noteq> Some (pv_Seat (sn_Private s)))
        (invalid ErrUnauthorized ''current_actor''),
      capabilities_check s recipient (a # seen) as]"

fun validSpecialty :: "specialty \<Rightarrow> bool" where
  "validSpecialty (SpOther _) = False"
| "validSpecialty _ = True"

subsection \<open>Ballots in a snapshot\<close>

text \<open>
  \<open>active\<close> and \<open>connected\<close> are Go maps filled from the public seats; a missing seat reads as
  false.
\<close>

definition active_of :: "public_seat list \<Rightarrow> int \<Rightarrow> bool" where
  "active_of seats k = (map_of (rev (map (\<lambda>p. (ps_Seat p, \<not> ps_Eliminated p)) seats)) k = Some True)"

definition connected_of :: "public_seat list \<Rightarrow> int \<Rightarrow> bool" where
  "connected_of seats k = (map_of (rev (map (\<lambda>p. (ps_Seat p, ps_Connected p)) seats)) k = Some True)"

fun distinct_ok :: "(int \<Rightarrow> bool) \<Rightarrow> go_error \<Rightarrow> int list \<Rightarrow> int list \<Rightarrow> go_error option" where
  "distinct_ok ok err seen [] = None"
| "distinct_ok ok err seen (p # ps) =
     (if \<not> ok p \<or> p \<in> set seen then Some err else distinct_ok ok err (p # seen) ps)"

fun ballot_votes_check ::
  "(int \<Rightarrow> bool) \<Rightarrow> int list \<Rightarrow> int list \<Rightarrow> ballot_vote list \<Rightarrow> go_error option" where
  "ballot_votes_check active candidates voters [] = None"
| "ballot_votes_check active candidates voters (v # vs) =
     (if \<not> active (bv_Seat v) \<or> bv_TargetSeat v \<notin> set candidates \<or> bv_Seat v = bv_TargetSeat v
         \<or> bv_Seat v \<in> set voters
      then Some (invalid ErrMalformed ''ballot_vote'')
      else ballot_votes_check active candidates (bv_Seat v # voters) vs)"

definition ballot_result_check :: "snapshot \<Rightarrow> ballot_state \<Rightarrow> go_error option" where
  "ballot_result_check s b =
     (if sn_Phase s = PhaseResult then
        (case bs_Result b of
           None \<Rightarrow> Some (invalid ErrMalformed ''missing_ballot_result'')
         | Some r \<Rightarrow>
            (case br_Outcome r of
               OutElimination \<Rightarrow> checks
                 [reject_if ((case br_Seat r of None \<Rightarrow> True | Some k \<Rightarrow> k \<notin> set (bs_Candidates b))
                    \<or> br_RevealedRole r \<noteq> NoRole \<and> \<not> role_ok (br_RevealedRole r))
                    (invalid ErrMalformed ''ballot_result''),
                  reject_if (sn_ServerTimeMS s < the (sn_ResultRevealAtMS s) \<and> br_RevealedRole r \<noteq> NoRole
                    \<or> sn_ServerTimeMS s \<ge> the (sn_ResultRevealAtMS s) \<and> br_RevealedRole r = NoRole)
                    (invalid ErrUnauthorized ''result_reveal_role'')]
             | OutMiss \<Rightarrow> reject_if (br_Seat r \<noteq> None \<or> br_RevealedRole r \<noteq> NoRole)
                 (invalid ErrMalformed ''ballot_result'')
             | _ \<Rightarrow> Some (invalid ErrMalformed ''ballot_result'')))
      else reject_if (bs_Result b \<noteq> None) (invalid ErrMalformed ''premature_ballot_result''))"

definition voting_phase :: "phase \<Rightarrow> bool" where
  "voting_phase ph \<longleftrightarrow> ph = PhaseKnowoff \<or> ph = PhaseRunoff \<or> ph = PhaseResult"

definition validateBallot :: "snapshot \<Rightarrow> go_error option" where
  "validateBallot s =
    (let active = active_of (sn_Seats s); connected = connected_of (sn_Seats s) in checks
    [reject_if (case sn_CurrentSeat s of None \<Rightarrow> False | Some c \<Rightarrow> \<not> active c \<or> \<not> connected c)
       (invalid ErrMalformed ''inactive_current_seat''),
     reject_if (sn_ReadySeats s = None) (invalid ErrMalformed ''ready_seats''),
     distinct_ok (\<lambda>p. active p \<and> (sn_Phase s = PhaseDiscussion \<or> voting_phase (sn_Phase s)))
       (invalid ErrMalformed ''ready_seat'') [] (slice (sn_ReadySeats s)),
     (case sn_Ballot s of
        None \<Rightarrow> reject_if (voting_phase (sn_Phase s)) (invalid ErrMalformed ''missing_ballot'')
      | Some b \<Rightarrow> checks
          [reject_if (\<not> voting_phase (sn_Phase s) \<or> (bs_Kind b \<noteq> PhaseKnowoff \<and> bs_Kind b \<noteq> PhaseRunoff)
             \<or> (sn_Phase s \<noteq> PhaseResult \<and> bs_Kind b \<noteq> sn_Phase s) \<or> length (bs_Candidates b) < 2
             \<or> bs_Votes b = None) (invalid ErrMalformed ''ballot''),
           distinct_ok active (invalid ErrMalformed ''ballot_candidate'') [] (bs_Candidates b),
           reject_if (bs_Kind b = PhaseKnowoff
             \<and> \<not> list_all (\<lambda>p. active (ps_Seat p) \<longrightarrow> ps_Seat p \<in> set (bs_Candidates b)) (sn_Seats s))
             (invalid ErrMalformed ''missing_ballot_candidate''),
           ballot_votes_check active (bs_Candidates b) [] (slice (bs_Votes b)),
           ballot_result_check s b])])"

subsection \<open>Seats, scores, reveal, offer, history\<close>

fun public_seats_check :: "int \<Rightarrow> int list \<Rightarrow> public_seat list \<Rightarrow> go_error option" where
  "public_seats_check sz seen [] = None"
| "public_seats_check sz seen (p # ps) =
     (if \<not> seat_ok (ps_Seat p) sz \<or> ps_Seat p \<in> set seen
         \<or> ps_RevealedRole p \<noteq> NoRole \<and> \<not> role_ok (ps_RevealedRole p)
         \<or> ps_Eliminated p \<and> ps_RevealedRole p = NoRole
         \<or> \<not> ps_Eliminated p \<and> ps_RevealedRole p \<noteq> NoRole
      then Some (invalid ErrMalformed ''public_seat'')
      else public_seats_check sz (ps_Seat p # seen) ps)"

text \<open>\<open>recipient\<close> is the last public seat with the private seat's number, else a zero struct.\<close>

definition zero_public_seat :: public_seat where
  "zero_public_seat = \<lparr>ps_Seat = 0, ps_Connected = False, ps_Eliminated = False, ps_RevealedRole = NoRole\<rparr>"

definition recipient_of :: "snapshot \<Rightarrow> public_seat" where
  "recipient_of s =
     (case filter (\<lambda>p. ps_Seat p = pv_Seat (sn_Private s)) (rev (sn_Seats s)) of
        [] \<Rightarrow> zero_public_seat | p # _ \<Rightarrow> p)"

fun scores_check :: "snapshot \<Rightarrow> match_outcome \<Rightarrow> int list \<Rightarrow> seat_score list \<Rightarrow> go_error option" where
  "scores_check s outcome seen [] = None"
| "scores_check s outcome seen (v # vs) = checks
     [reject_if (\<not> seat_ok (ss_Seat v) (mc_OriginalSize (sn_Contract s)) \<or> ss_Seat v \<in> set seen
        \<or> ss_Points v < 0 \<or> ss_Points v > MaxSafeInteger
        \<or> outcome = MatchInterrupted \<and> ss_Points v \<noteq> 0) (invalid ErrMalformed ''scores''),
      reject_if (ss_Seat v = pv_Seat (sn_Private s) \<and> ss_Points v \<noteq> pv_Points (sn_Private s))
        (invalid ErrMalformed ''private_score_mismatch''),
      scores_check s outcome (ss_Seat v # seen) vs]"

definition verdict_check :: "snapshot \<Rightarrow> go_error option" where
  "verdict_check s =
     (if sn_Phase s \<noteq> PhaseVerdict then
        reject_if (sn_Scores s \<noteq> [] \<or> sn_Verdict s \<noteq> None) (invalid ErrUnauthorized ''premature_scores'')
      else (case sn_Verdict s of
          None \<Rightarrow> Some (invalid ErrMalformed ''missing_verdict'')
        | Some v \<Rightarrow> checks
            [reject_if (int (length (sn_Scores s)) \<noteq> mc_OriginalSize (sn_Contract s))
               (invalid ErrMalformed ''missing_verdict''),
             (case mv_Outcome v of
                MatchCompleted \<Rightarrow> reject_if (\<not> role_ok (mv_Winner v)) (invalid ErrMalformed ''winner'')
              | MatchScoredLowPopulation \<Rightarrow> reject_if (mv_Winner v \<noteq> NoRole) (invalid ErrMalformed ''winner'')
              | MatchInterrupted \<Rightarrow> reject_if (mv_Winner v \<noteq> NoRole) (invalid ErrMalformed ''winner'')
              | MatchOther _ \<Rightarrow> Some (invalid ErrMalformed ''outcome'')),
             scores_check s (mv_Outcome v) [] (sn_Scores s)]))"

fun hand_check :: "limits \<Rightarrow> copy_id list \<Rightarrow> card list \<Rightarrow> go_error option" where
  "hand_check l owned [] = None"
| "hand_check l owned (c # cs) = checks
     [card_validate c l,
      reject_if (cd_CopyID c \<in> set owned) (invalid ErrMalformed ''copy_location''),
      hand_check l (cd_CopyID c # owned) cs]"

fun reveal_cards_check :: "limits \<Rightarrow> copy_id list \<Rightarrow> card list \<Rightarrow> go_error option" where
  "reveal_cards_check l seen [] = None"
| "reveal_cards_check l seen (c # cs) = checks
     [card_validate c l,
      reject_if (cd_CopyID c \<in> set seen) (invalid ErrMalformed ''reveal_copy''),
      reveal_cards_check l (cd_CopyID c # seen) cs]"

definition reveal_check :: "limits \<Rightarrow> snapshot \<Rightarrow> public_seat \<Rightarrow> go_error option" where
  "reveal_check l s recipient =
     (case pv_Reveal (sn_Private s) of
        None \<Rightarrow> None
      | Some r \<Rightarrow> checks
          [reject_if (ps_Eliminated recipient \<or> \<not> ps_Connected recipient
             \<or> sn_RevealTarget s \<noteq> Some (rv_TargetSeat r)
             \<or> \<not> clock (rv_ExpiresAtMS r) \<or> rv_ExpiresAtMS r \<le> sn_ServerTimeMS s
             \<or> \<not> validSpecialty (rv_Specialty r) \<or> rv_Hand r = None \<or> rv_Reserve r = None
             \<or> int (length (slice (rv_Hand r)) + length (slice (rv_Reserve r))) > MaxHistoryEvents l)
             (invalid ErrUnauthorized ''reveal''),
           reject_if (list_ex (\<lambda>p. ps_Seat p = rv_TargetSeat r \<and> ps_Eliminated p) (sn_Seats s))
             (invalid ErrUnauthorized ''reveal_eliminated''),
           reveal_cards_check l [] (slice (rv_Hand r) @ slice (rv_Reserve r))])"

definition offer_check :: "snapshot \<Rightarrow> go_error option" where
  "offer_check s =
     (case sn_PendingOffer s of
        None \<Rightarrow> reject_if (sn_Phase s = PhaseTradeResponse) (invalid ErrMalformed ''missing_offer'')
      | Some f \<Rightarrow>
         (let sz = mc_OriginalSize (sn_Contract s) in checks
          [reject_if (sn_CurrentSeat s \<noteq> Some (po_ProposerSeat f)) (invalid ErrMalformed ''offer_proposer_turn''),
           reject_if (mc_ModeID (sn_Contract s) \<noteq> ModeBadBargains \<or> sn_Phase s \<noteq> PhaseTradeResponse
             \<or> \<not> ValidIdentifier (po_OfferID f) \<or> \<not> seat_ok (po_ProposerSeat f) sz
             \<or> \<not> seat_ok (po_RecipientSeat f) sz \<or> po_ProposerSeat f = po_RecipientSeat f
             \<or> \<not> ValidIdentifier (po_OfferedCopyID f) \<or> \<not> ValidIdentifier (po_RequestedCopyID f)
             \<or> po_OfferedCopyID f = po_RequestedCopyID f
             \<or> po_BoardRevision f \<noteq> bd_Revision (sn_Board s) \<or> \<not> clock (po_DeadlineMS f)
             \<or> po_DeadlineMS f \<noteq> sn_DeadlineMS s) (invalid ErrMalformed ''pending_offer''),
           reject_if (\<not> list_ex (\<lambda>c. bc_Seat c = Some (po_RecipientSeat f)
               \<and> cd_CopyID (bc_Card c) = po_RequestedCopyID f) (slice (bd_Cards (sn_Board s))))
             (invalid ErrMalformed ''requested_display''),
           reject_if (list_ex (\<lambda>p. (ps_Seat p = po_RecipientSeat f \<or> ps_Seat p = po_ProposerSeat f)
               \<and> (\<not> ps_Connected p \<or> ps_Eliminated p)) (sn_Seats s))
             (invalid ErrMalformed ''offer_participant''),
           reject_if (pv_Seat (sn_Private s) = po_ProposerSeat f
             \<and> \<not> list_ex (\<lambda>c. cd_CopyID c = po_OfferedCopyID f) (slice (pv_Hand (sn_Private s))))
             (invalid ErrMalformed ''offered_hand_copy''),
           reject_if (ActionResolveOffer \<in> set (slice (pv_Capabilities (sn_Private s)))
             \<and> pv_Seat (sn_Private s) \<noteq> po_RecipientSeat f) (invalid ErrUnauthorized ''offer_recipient'')]))"

definition history_event_check :: "snapshot \<Rightarrow> public_action \<Rightarrow> go_error option" where
  "history_event_check s e = checks
    [(case e_Ballot e of None \<Rightarrow> None
      | Some b \<Rightarrow> ballot_validateEvidence b (mc_OriginalSize (sn_Contract s))),
     reject_if (e_Round e > sn_Round s \<or> e_AfterRevision e > bd_Revision (sn_Board s)
       \<or> (case ac_Seat (e_Actor e) of None \<Rightarrow> False | Some k \<Rightarrow> \<not> seat_ok k (mc_OriginalSize (sn_Contract s)))
       \<or> (case e_TargetSeat e of None \<Rightarrow> False | Some k \<Rightarrow> \<not> seat_ok k (mc_OriginalSize (sn_Contract s))))
       (invalid ErrHistoryIntegrity ''history_snapshot'')]"

text \<open>The evidence of a pending offer: exactly one matching event carries its identity.\<close>

definition offer_event_ok :: "snapshot \<Rightarrow> pending_offer \<Rightarrow> public_action \<Rightarrow> bool" where
  "offer_event_ok s f e \<longleftrightarrow>
     e_Kind e = EvOffer \<and> e_Round e = sn_Round s \<and> ac_Seat (e_Actor e) = Some (po_ProposerSeat f)
     \<and> e_TargetSeat e = Some (po_RecipientSeat f)
     \<and> map cd_CopyID (slice (e_Cards e)) = [po_OfferedCopyID f, po_RequestedCopyID f]
     \<and> e_AfterRevision e = po_BoardRevision f \<and> e_DeadlineMS e = Some (po_DeadlineMS f)"

fun offer_evidence_check :: "snapshot \<Rightarrow> pending_offer \<Rightarrow> bool \<Rightarrow> public_action list \<Rightarrow> go_error option" where
  "offer_evidence_check s f found [] =
     reject_if (\<not> found) (invalid ErrHistoryIntegrity ''missing_offer_evidence'')"
| "offer_evidence_check s f found (e # es) =
     (if e_OfferID e \<noteq> po_OfferID f then offer_evidence_check s f found es
      else if \<not> offer_event_ok s f e \<or> found
        then Some (invalid ErrHistoryIntegrity ''pending_offer_evidence'')
      else offer_evidence_check s f True es)"

definition history_check :: "(string \<Rightarrow> bool) \<Rightarrow> limits \<Rightarrow> snapshot \<Rightarrow> go_error option" where
  "history_check lang l s =
     (case sn_HistoryPages s of
        Some m \<Rightarrow> reject_if (slice (sn_History s) \<noteq> [] \<or> hm_TotalEvents m \<le> 0
            \<or> hm_TotalEvents m > MaxHistoryEvents l \<or> hm_PageCount m \<le> 0
            \<or> hm_PageCount m > hm_TotalEvents m
            \<or> hm_ThroughEvidenceSeq m \<noteq> cu_EvidenceSeq (sn_Cursor s)
            \<or> int (hm_ThroughEvidenceSeq m) \<noteq> hm_TotalEvents m \<or> \<not> hash_ok (hm_RootSHA256 m))
            (invalid ErrHistoryIntegrity ''history_manifest'')
      | None \<Rightarrow> checks
          [validateHistory lang l (slice (sn_History s)) 1,
           reject_if (length (slice (sn_History s)) \<noteq> cu_EvidenceSeq (sn_Cursor s))
             (invalid ErrHistoryIntegrity ''snapshot_cursor''),
           each (history_event_check s) (slice (sn_History s)),
           (case sn_PendingOffer s of None \<Rightarrow> None
            | Some f \<Rightarrow> offer_evidence_check s f False (slice (sn_History s)))])"

fun begun_nowns_check :: "limits \<Rightarrow> int \<Rightarrow> begun_nown list \<Rightarrow> go_error option" where
  "begun_nowns_check l i [] = None"
| "begun_nowns_check l i (n # ns) = checks
     [reject_if (bn_Round n \<noteq> i + 1) (invalid ErrMalformed ''begun_round''),
      text_content_validate (bn_Content n) l,
      begun_nowns_check l (i + 1) ns]"

subsection \<open>The snapshot\<close>

text \<open>The head of the validator, up to the score rules: identity, clocks, current seat, board.\<close>

definition snapshot_head_check :: "(string \<Rightarrow> bool) \<Rightarrow> limits \<Rightarrow> snapshot \<Rightarrow> go_error option" where
  "snapshot_head_check lang l s =
    (let sz = mc_OriginalSize (sn_Contract s);
         on_turn = (sn_Phase s = PhasePlay \<or> sn_Phase s = PhaseTradeResponse) in checks
    [reject_if (sn_Version s \<noteq> Version) (invalid ErrVersion ''v''),
     contract_Validate lang (sn_Contract s),
     cursor_validate (sn_Cursor s),
     reject_if (\<not> ValidIdentifier (sn_SnapshotID s) \<or> sn_Round s < 1 \<or> sn_Round s > sz div 2
       \<or> sn_Turn s < 0 \<or> sn_Turn s > sz \<or> \<not> phase_valid (sn_Phase s)
       \<or> \<not> ValidIdentifier (sn_PhaseID s) \<or> \<not> clock (sn_ServerTimeMS s) \<or> \<not> clock (sn_DeadlineMS s)
       \<or> bd_ModeID (sn_Board s) \<noteq> mc_ModeID (sn_Contract s)) (invalid ErrMalformed ''snapshot''),
     reject_if (on_turn \<and> sn_Turn s = 0) (invalid ErrMalformed ''turn''),
     (if sn_Phase s = PhaseResult
      then reject_if (case sn_ResultRevealAtMS s of None \<Rightarrow> True
             | Some t \<Rightarrow> \<not> clock t \<or> t \<le> 0 \<or> t \<ge> sn_DeadlineMS s)
             (invalid ErrMalformed ''result_reveal_at_ms'')
      else reject_if (sn_ResultRevealAtMS s \<noteq> None) (invalid ErrMalformed ''premature_result_reveal'')),
     (if on_turn then reject_if (\<not> ptr_seat (sn_CurrentSeat s) sz) (invalid ErrMalformed ''current_seat'')
      else reject_if (sn_CurrentSeat s \<noteq> None) (invalid ErrMalformed ''current_seat'')),
     board_validate (sn_Board s) sz l,
     reject_if (int (length (sn_Seats s)) \<noteq> sz \<or> \<not> seat_ok (pv_Seat (sn_Private s)) sz
       \<or> \<not> role_ok (pv_Role (sn_Private s))) (invalid ErrUnauthorized ''recipient''),
     reject_if (pv_Points (sn_Private s) < 0 \<or> pv_Points (sn_Private s) > MaxSafeInteger)
       (invalid ErrMalformed ''private_points'')])"

text \<open>The secrecy rules of the private part.\<close>

definition private_check :: "limits \<Rightarrow> snapshot \<Rightarrow> public_seat \<Rightarrow> go_error option" where
  "private_check l s recipient =
    (let p = sn_Private s in checks
    [(case pv_Nown p of
        Some n \<Rightarrow> checks
          [reject_if (ps_Eliminated recipient \<or> pv_Role p \<noteq> Nower \<or> sn_Phase s = PhaseVerdict)
             (invalid ErrUnauthorized ''nown''),
           text_content_validate n l]
      | None \<Rightarrow> reject_if (\<not> ps_Eliminated recipient \<and> pv_Role p = Nower \<and> sn_Phase s \<noteq> PhaseVerdict)
          (invalid ErrUnauthorized ''missing_nown'')),
     reject_if (pv_Hand p = None \<or> pv_Capabilities p = None \<or> pv_ReserveCount p < 0
       \<or> pv_ReserveCount p > MaxSafeInteger \<or> int (length (slice (pv_Hand p))) > MaxHistoryEvents l)
       (invalid ErrMalformed ''private_state''),
     reject_if (ps_Eliminated recipient \<and> (slice (pv_Hand p) \<noteq> [] \<or> pv_ReserveCount p \<noteq> 0))
       (invalid ErrUnauthorized ''eliminated_private_cards''),
     hand_check l (map (\<lambda>c. cd_CopyID (bc_Card c)) (slice (bd_Cards (sn_Board s)))) (slice (pv_Hand p)),
     reject_if (\<not> validSpecialty (pv_Specialty p) \<or> pv_FreeDraws p < 0 \<or> pv_FreeDraws p > 1)
       (invalid ErrMalformed ''specialty''),
     reject_if (sn_RevealTarget s \<noteq> None \<and> (\<not> ptr_seat (sn_RevealTarget s) (mc_OriginalSize (sn_Contract s))
       \<or> sn_Phase s = PhaseRoundStart \<or> sn_Phase s = PhaseVerdict))
       (invalid ErrMalformed ''reveal_target''),
     reject_if (ps_Eliminated recipient \<and> (pv_Specialty p \<noteq> NoSpecialty \<or> pv_FreeDraws p \<noteq> 0
       \<or> pv_Reveal p \<noteq> None)) (invalid ErrUnauthorized ''eliminated_specialty''),
     reveal_check l s recipient,
     capabilities_check s recipient [] (slice (pv_Capabilities p))])"

definition snapshot_Validate :: "(string \<Rightarrow> bool) \<Rightarrow> limits \<Rightarrow> snapshot \<Rightarrow> go_error option" where
  "snapshot_Validate lang l s =
    (let recipient = recipient_of s in checks
    [snapshot_head_check lang l s,
     verdict_check s,
     public_seats_check (mc_OriginalSize (sn_Contract s)) [] (sn_Seats s),
     reject_if (ps_Eliminated recipient \<and> ps_RevealedRole recipient \<noteq> pv_Role (sn_Private s))
       (invalid ErrUnauthorized ''role''),
     validateBallot s,
     private_check l s recipient,
     offer_check s,
     reject_if (sn_History s = None) (invalid ErrHistoryIntegrity ''history''),
     history_check lang l s,
     (if sn_Phase s = PhaseVerdict then checks
        [reject_if (int (length (sn_VerdictNowns s)) \<noteq> sn_Round s) (invalid ErrMalformed ''begun_nowns''),
         begun_nowns_check l 0 (sn_VerdictNowns s)]
      else reject_if (sn_VerdictNowns s \<noteq> []) (invalid ErrUnauthorized ''premature_verdict_nowns''))])"

text \<open>\<open>ResolveHistory\<close>: a paged snapshot becomes applicable only with its assembled pages.\<close>

definition ResolveHistory ::
  "(string \<Rightarrow> nat list) \<Rightarrow> (string \<Rightarrow> bool) \<Rightarrow> limits \<Rightarrow> snapshot \<Rightarrow> history_page list \<Rightarrow> go_error + snapshot" where
  "ResolveHistory sha lang l s pages =
     (case snapshot_Validate lang l s of
        Some e \<Rightarrow> Inl e
      | None \<Rightarrow>
         (case sn_HistoryPages s of
            None \<Rightarrow> (if pages \<noteq> [] then Inl (invalid ErrHistoryIntegrity ''unexpected_pages'') else Inr s)
          | Some m \<Rightarrow>
             (case AssembleHistory sha lang l m pages (mc_MatchID (sn_Contract s)) (sn_SnapshotID s)
                     (cu_StreamEpoch (sn_Cursor s)) of
                Inl e \<Rightarrow> Inl e
              | Inr events \<Rightarrow>
                 (let s' = s\<lparr>sn_HistoryPages := None, sn_History := Some events\<rparr> in
                  case snapshot_Validate lang l s' of Some e \<Rightarrow> Inl e | None \<Rightarrow> Inr s'))))"

end
