(* ===== verification/Rng.thy ===== *)
theory Rng
  imports Prelude
begin

section \<open>Seeded randomness: \<open>math/rand\<close>\<close>

text \<open>
  The engine draws every random choice from \<open>rand.New(rand.NewSource(seed))\<close>. A source is
  a stream \<open>d\<close> of raw values, and the \<open>k\<close>-th bounded draw with bound \<open>n\<close> is \<open>d k mod n\<close>:
  every sequence of in-range draws is the stream of some source, so nothing proved here
  depends on the generator's quality. \<open>Shuffle\<close> and \<open>Perm\<close> are the library's own loops over
  those draws, so that they permute is a theorem.
\<close>

type_synonym draws = "nat \<Rightarrow> nat"
type_synonym rng_source = "int \<Rightarrow> draws"

definition rand_intn :: "draws \<Rightarrow> nat \<Rightarrow> nat \<Rightarrow> nat" where
  "rand_intn d k n = d k mod n"

lemma rand_intn_less: "0 < n \<Longrightarrow> rand_intn d k n < n"
  by (simp add: rand_intn_def)

subsection \<open>Shuffle\<close>

definition swap :: "nat \<Rightarrow> nat \<Rightarrow> 'a list \<Rightarrow> 'a list" where
  "swap i j xs = xs[i := xs ! j, j := xs ! i]"

lemma length_swap [simp]: "length (swap i j xs) = length xs"
  by (simp add: swap_def)

lemma mset_swap_indices:
  "i < length xs \<Longrightarrow> j < length xs \<Longrightarrow> mset (swap i j xs) = mset xs"
  by (simp add: swap_def Multiset.mset_swap)

text \<open>\<open>for i := n - 1; i > 0; i-- { swap(i, Intn(i + 1)) }\<close>, from draw \<open>k\<close> on.\<close>

fun shuffle_down :: "draws \<Rightarrow> nat \<Rightarrow> nat \<Rightarrow> 'a list \<Rightarrow> 'a list" where
  "shuffle_down d k 0 xs = xs"
| "shuffle_down d k (Suc i) xs =
     shuffle_down d (Suc k) i (swap (Suc i) (rand_intn d k (Suc i + 1)) xs)"

definition go_shuffle :: "draws \<Rightarrow> nat \<Rightarrow> 'a list \<Rightarrow> 'a list" where
  "go_shuffle d k xs = shuffle_down d k (length xs - 1) xs"

text \<open>How many draws a shuffle of a slice of length \<open>n\<close> consumes.\<close>

definition shuffle_draws :: "nat \<Rightarrow> nat" where
  "shuffle_draws n = n - 1"

lemma mset_shuffle_down: "i < length xs \<or> i = 0 \<Longrightarrow> mset (shuffle_down d k i xs) = mset xs"
proof (induction i arbitrary: k xs)
  case 0
  then show ?case by simp
next
  case (Suc i)
  have j: "rand_intn d k (Suc i + 1) < length xs"
    using Suc.prems rand_intn_less [of "Suc i + 1" d k] by simp
  have "mset (shuffle_down d (Suc k) i (swap (Suc i) (rand_intn d k (Suc i + 1)) xs))
      = mset (swap (Suc i) (rand_intn d k (Suc i + 1)) xs)"
    using Suc.prems by (intro Suc.IH) simp
  also have "\<dots> = mset xs" using Suc.prems j by (intro mset_swap_indices) auto
  finally show ?case by simp
qed

lemma mset_go_shuffle [simp]: "mset (go_shuffle d k xs) = mset xs"
  unfolding go_shuffle_def by (rule mset_shuffle_down) (cases xs; simp)

lemma set_go_shuffle [simp]: "set (go_shuffle d k xs) = set xs"
  using mset_go_shuffle by (rule mset_eq_setD)

lemma length_go_shuffle [simp]: "length (go_shuffle d k xs) = length xs"
  using mset_go_shuffle by (rule mset_eq_length)

lemma distinct_go_shuffle [simp]: "distinct (go_shuffle d k xs) = distinct xs"
  using mset_go_shuffle by (rule mset_eq_imp_distinct_iff)

subsection \<open>Perm\<close>

text \<open>\<open>for i := 0; i < n; i++ { j := Intn(i + 1); m[i] = m[j]; m[j] = i }\<close>.\<close>

fun perm_step :: "draws \<Rightarrow> nat \<Rightarrow> nat list \<Rightarrow> nat list" where
  "perm_step d i m =
     (let j = rand_intn d i (i + 1)
      in if j = i then m @ [i] else m[j := i] @ [m ! j])"

fun perm_up :: "draws \<Rightarrow> nat \<Rightarrow> nat list" where
  "perm_up d 0 = []"
| "perm_up d (Suc i) = perm_step d i (perm_up d i)"

definition go_perm :: "draws \<Rightarrow> nat \<Rightarrow> nat list" where
  "go_perm d n = perm_up d n"

lemma mset_perm_up: "mset (perm_up d n) = mset [0..<n]"
proof (induction n)
  case 0
  then show ?case by simp
next
  case (Suc n)
  have len: "length (perm_up d n) = n"
    using Suc.IH by (metis diff_zero length_upt mset_eq_length)
  define j where "j = rand_intn d n (n + 1)"
  have step: "perm_up d (Suc n) = (if j = n then perm_up d n @ [n]
      else (perm_up d n)[j := n] @ [perm_up d n ! j])"
    by (simp add: j_def Let_def)
  have "j < n + 1" unfolding j_def by (rule rand_intn_less) simp
  then have "mset (perm_up d (Suc n)) = add_mset n (mset (perm_up d n))"
    using len unfolding step by (auto simp: mset_update)
  also have "\<dots> = mset [0..<Suc n]" by (simp only: Suc.IH) simp
  finally show ?case .
qed

lemma mset_go_perm: "mset (go_perm d n) = mset [0..<n]"
  by (simp add: go_perm_def mset_perm_up)

lemma set_go_perm [simp]: "set (go_perm d n) = {0..<n}"
  using mset_go_perm [THEN mset_eq_setD] by simp

lemma distinct_go_perm [simp]: "distinct (go_perm d n)"
  using mset_go_perm [THEN mset_eq_imp_distinct_iff] by simp

lemma length_go_perm [simp]: "length (go_perm d n) = n"
  using mset_go_perm [THEN mset_eq_length] by simp

subsection \<open>The shuffler interface\<close>

text \<open>
  What the dealing search, the turn order and the specialty shuffle rely on: a shuffle of a
  slice rearranges it. The client facts below are about any such shuffler.
\<close>

locale shuffler =
  fixes shuf :: "nat \<Rightarrow> 'a list \<Rightarrow> 'a list"
  assumes shuf_mset: "mset (shuf k xs) = mset xs"
begin

lemma shuf_set: "set (shuf k xs) = set xs"
  using shuf_mset by (rule mset_eq_setD)

lemma shuf_length: "length (shuf k xs) = length xs"
  using shuf_mset by (rule mset_eq_length)

lemma shuf_distinct: "distinct (map f (shuf k xs)) = distinct (map f xs)"
  using shuf_mset by (metis mset_eq_imp_distinct_iff mset_map)

lemma shuf_take_distinct: "distinct (map f xs) \<Longrightarrow> distinct (map f (take n (shuf k xs)))"
  by (metis distinct_take shuf_distinct take_map)

lemma shuf_take_subset: "set (take n (shuf k xs)) \<subseteq> set xs"
  using set_take_subset shuf_set by metis

end

interpretation rand_shuffle: shuffler "go_shuffle d"
  by unfold_locales simp

end
