(* ===== verification/MatchState.thy ===== *)
theory MatchState
  imports Snapshots Rng
begin

section \<open>The state of a match: \<open>game/text_match.go\<close>\<close>

text \<open>
  The engine's records: copies and their locations, players, the match state that is cloned
  for every candidate and committed whole, the pending candidate, and the match itself with
  its pinned tuning. The last fields of \<open>text_match\<close> stand for the code's surroundings: the
  random source (\<open>math/rand\<close>; the real source reads the seed modulo \<open>2^64\<close>), SHA-256, the
  language-tag parser, and the durable hooks, whose results during one call are given by the
  functions of \<open>text_hooks\<close>.
\<close>

subsection \<open>Tuning\<close>

record timers =
  ti_RevealLockout :: int
  ti_RevealView :: int
  ti_ShuffleBonusSeconds :: int
  ti_TradeResponseS :: int
  ti_RoundStartCountdown :: int
  ti_PlayTurn :: int
  ti_DiscussionPerPlayer :: int
  ti_KnowoffBallot :: int
  ti_KnowoffRunoff :: int
  ti_VoteResultWindow :: int
  ti_VoteResultFalling :: int

record points_tuning =
  pn_CorrectVote :: int
  pn_NowerWinBonus :: int
  pn_DonowerTeamWin :: int
  pn_DrawPenalty :: int

record noin_tuning =
  no_CorrectVote :: int
  no_DonowerVoteSurvived :: int

subsection \<open>Events for the durable hooks\<close>

datatype award_kind = AwardCorrectVote | AwardDonowerVoteSurvived

record award_event =
  aw_MatchID :: string
  aw_Seat :: int
  aw_Kind :: award_kind
  aw_Ordinal :: int
  aw_OccurredAt :: gotime
  aw_Amount :: int
  aw_Discreet :: bool

record abandon_event =
  ab_MatchID :: string
  ab_Seat :: int
  ab_OccurredAt :: gotime

record player_result =
  pr_Seat :: int
  pr_Role :: role
  pr_Points :: int
  pr_CorrectVotes :: int
  pr_VotesCast :: int
  pr_Survivals :: int
  pr_Pokes :: int
  pr_Won :: bool
  pr_Connected :: bool
  pr_Absent :: bool
  pr_Eliminated :: bool

record text_result =
  re_Contract :: match_contract
  re_Outcome :: match_outcome
  re_Winner :: role
  re_OccurredAt :: gotime
  re_OriginalHumanCount :: int
  re_Players :: "player_result list"

text \<open>The winner \<open>"none"\<close> of a match without one.\<close>

abbreviation NoWinner :: role where
  "NoWinner \<equiv> RoleOther ''none''"

record text_hooks =
  hk_ModerateChat :: "(int \<Rightarrow> action \<Rightarrow> go_error + action) option"
  hk_Abandon :: "(abandon_event \<Rightarrow> go_error option) option"
  hk_Award :: "(award_event \<Rightarrow> go_error option) option"
  hk_Finish :: "(text_result \<Rightarrow> go_error option) option"

subsection \<open>State\<close>

datatype zone = ZHand | ZReserve | ZBoard | ZSpent | ZNone

record text_copy =
  cp_Card :: card
  cp_Zone :: zone
  cp_Owner :: int
  cp_Reserved :: bool

record text_player =
  tp_Specialty :: specialty
  tp_FreeDraws :: int
  tp_RevealUntil :: int
  tp_RevealUsed :: bool
  tp_Role :: role
  tp_Connected :: bool
  tp_Eliminated :: bool
  tp_Absent :: bool
  tp_GraceDeadline :: int
  tp_AbandonRecorded :: bool
  tp_PointsBeforeResult :: int
  tp_Hand :: "copy_id list"
  tp_Reserve :: "copy_id list"
  tp_Points :: int
  tp_CorrectVotes :: int
  tp_VotesCast :: int
  tp_Survivals :: int
  tp_Pokes :: int

record text_state =
  st_RevealCards :: "reveal_view option"
  st_RevealTarget :: "int option"
  st_ShuffleUsed :: bool
  st_RevoteUsed :: bool
  st_Round :: int
  st_Turn :: int
  st_Phase :: phase
  st_PhaseID :: string
  st_PhaseSerial :: nat
  st_Deadline :: int
  st_ResultRevealAt :: int
  st_ResultRevealed :: bool
  st_Board :: board
  st_Players :: "text_player list"
  st_Copies :: "(copy_id \<times> text_copy) list"
  st_Order :: "int list"
  st_RemainingVotes :: int
  st_Ready :: "(int \<times> bool) list"
  st_Pokes :: "(string \<times> bool) list"
  st_Votes :: "(int \<times> int) list"
  st_BallotKind :: phase
  st_Candidates :: "int list"
  st_BallotResult :: "ballot_result option"
  st_Offer :: "pending_offer option"
  st_History :: "public_action list"
  st_Requests :: "(string \<times> request_record) list"
  st_Result :: "text_result option"

record text_pending =
  pd_State :: text_state
  pd_Key :: string
  pd_Hash :: string
  pd_Awards :: "award_event list"
  pd_Abandons :: "abandon_event list"
  pd_Result :: "text_result option"
  pd_Events :: "public_action list"

record text_match =
  tm_devEnabled :: bool
  tm_state :: text_state
  tm_contract :: match_contract
  tm_limits :: limits
  tm_timers :: timers
  tm_points :: points_tuning
  tm_noin :: noin_tuning
  tm_minRewardHumans :: int
  tm_grace :: int
  tm_penalizeAbandon :: bool
  tm_seed :: int
  tm_hooks :: text_hooks
  tm_nowns :: "text_content list"
  tm_seeds :: "card list list"
  tm_allCopies :: "(copy_id \<times> card) list"
  tm_initialCopies :: int
  tm_seq :: "nat list"
  tm_epoch :: "string list"
  tm_pending :: "text_pending option"
  tm_rng :: rng_source
  tm_sha :: "string \<Rightarrow> nat list"
  tm_lang :: "string \<Rightarrow> bool"

record action_result =
  ar_Duplicate :: bool
  ar_Changed :: bool
  ar_Public :: "public_action list"

subsection \<open>Reading the state\<close>

text \<open>The zero \<open>textCopy\<close> a missing map key reads as.\<close>

definition zero_card :: card where
  "zero_card = \<lparr>cd_CopyID = [], cd_Content = \<lparr>tc_Ref = \<lparr>cr_ContentID = [], cr_Revision = 0\<rparr>, tc_Text = []\<rparr>\<rparr>"

definition zero_copy :: text_copy where
  "zero_copy = \<lparr>cp_Card = zero_card, cp_Zone = ZNone, cp_Owner = 0, cp_Reserved = False\<rparr>"

definition copy_at :: "(copy_id \<times> text_copy) list \<Rightarrow> copy_id \<Rightarrow> text_copy" where
  "copy_at cs k = (case map_of cs k of None \<Rightarrow> zero_copy | Some c \<Rightarrow> c)"

definition player :: "text_state \<Rightarrow> int \<Rightarrow> text_player" where
  "player s i = at (st_Players s) i"

definition upd_player :: "int \<Rightarrow> (text_player \<Rightarrow> text_player) \<Rightarrow> text_state \<Rightarrow> text_state" where
  "upd_player i f s = s\<lparr>st_Players := upd i f (st_Players s)\<rparr>"

definition board_cards :: "text_state \<Rightarrow> board_card list" where
  "board_cards s = slice (bd_Cards (st_Board s))"

definition set_board_cards :: "board_card list \<Rightarrow> text_state \<Rightarrow> text_state" where
  "set_board_cards cs s = s\<lparr>st_Board := (st_Board s)\<lparr>bd_Cards := Some cs\<rparr>\<rparr>"

definition revision :: "text_state \<Rightarrow> nat" where
  "revision s = bd_Revision (st_Board s)"

definition bump_revision :: "text_state \<Rightarrow> text_state" where
  "bump_revision s = s\<lparr>st_Board := (st_Board s)\<lparr>bd_Revision := bd_Revision (st_Board s) + 1\<rparr>\<rparr>"

definition put_copy :: "copy_id \<Rightarrow> text_copy \<Rightarrow> text_state \<Rightarrow> text_state" where
  "put_copy k c s = s\<lparr>st_Copies := AList.update k c (st_Copies s)\<rparr>"

definition is_ready :: "text_state \<Rightarrow> int \<Rightarrow> bool" where
  "is_ready s i \<longleftrightarrow> map_of (st_Ready s) i = Some True"

definition active_connected :: "text_player \<Rightarrow> bool" where
  "active_connected p \<longleftrightarrow> \<not> tp_Eliminated p \<and> tp_Connected p"

abbreviation mode :: "text_match \<Rightarrow> mode_id" where
  "mode m \<equiv> mc_ModeID (tm_contract m)"

subsection \<open>Phases, actors, events\<close>

definition set_phase :: "text_match \<Rightarrow> text_state \<Rightarrow> phase \<Rightarrow> gotime \<Rightarrow> int \<Rightarrow> text_state" where
  "set_phase m s ph now seconds = s\<lparr>
     st_Phase := ph,
     st_PhaseSerial := st_PhaseSerial s + 1,
     st_PhaseID := mc_MatchID (tm_contract m) @ ''.p'' @ dec (st_PhaseSerial s + 1),
     st_Deadline := unix_milli (add_seconds now seconds),
     st_Ready := [],
     st_ResultRevealAt := 0,
     st_ResultRevealed := False\<rparr>"

definition current :: "text_state \<Rightarrow> int" where
  "current s = (if st_Turn s < 1 \<or> st_Turn s > int (length (st_Order s)) then -1
     else at (st_Order s) (st_Turn s - 1))"

definition mk_actor :: "int \<Rightarrow> actor" where
  "mk_actor seat = (if seat < 0 then \<lparr>ac_Kind = ActorSystem, ac_Seat = None\<rparr>
     else \<lparr>ac_Kind = ActorSeat, ac_Seat = Some seat\<rparr>)"

definition new_event ::
  "text_match \<Rightarrow> text_state \<Rightarrow> int \<Rightarrow> event_kind \<Rightarrow> reason \<Rightarrow> gotime \<Rightarrow> nat \<Rightarrow> card list \<Rightarrow> public_action" where
  "new_event m s seat kind why now prior cards = \<lparr>
     e_EventID = mc_MatchID (tm_contract m) @ ''.e'' @ dec (length (st_History s) + 1),
     e_EvidenceSeq = length (st_History s) + 1,
     e_Round = st_Round s, e_Phase = st_Phase s, e_PhaseID = st_PhaseID s,
     e_Actor = mk_actor seat, e_Kind = kind, e_Cards = Some cards,
     e_BeforeRevision = prior, e_AfterRevision = revision s, e_Reason = why,
     e_ServerTimeMS = unix_milli now,
     e_DeadlineMS = None, e_Count = None, e_Rating = None, e_Slot = None, e_TargetSeat = None,
     e_OfferID = [], e_Resolution = NoResolution, e_PhraseID = [], e_Text = [], e_UILocale = [],
     e_Ballot = None\<rparr>"

text \<open>
  \<open>m.event\<close> appends the event and returns a pointer to it; the caller's assignments through
  that pointer are the function \<open>f\<close>.
\<close>

definition add_event ::
  "text_match \<Rightarrow> text_state \<Rightarrow> int \<Rightarrow> event_kind \<Rightarrow> reason \<Rightarrow> gotime \<Rightarrow> nat \<Rightarrow> card list
    \<Rightarrow> (public_action \<Rightarrow> public_action) \<Rightarrow> text_state" where
  "add_event m s seat kind why now prior cards f =
     s\<lparr>st_History := st_History s @ [f (new_event m s seat kind why now prior cards)]\<rparr>"

subsection \<open>Cards\<close>

fun removeCopy :: "copy_id list \<Rightarrow> copy_id \<Rightarrow> copy_id list" where
  "removeCopy [] k = []"
| "removeCopy (v # ids) k = (if v = k then ids else v # removeCopy ids k)"

lemma removeCopy_remove1: "removeCopy ids k = remove1 k ids"
  by (induction ids) auto

definition owned :: "text_state \<Rightarrow> int \<Rightarrow> copy_id \<Rightarrow> go_error + text_copy" where
  "owned s seat k = (case map_of (st_Copies s) k of
      None \<Rightarrow> Inl (invalid ErrUnauthorized ''copy_id'')
    | Some c \<Rightarrow> if cp_Zone c \<noteq> ZHand \<or> cp_Owner c \<noteq> seat \<or> cp_Reserved c
        then Inl (invalid ErrUnauthorized ''copy_id'') else Inr c)"

definition spend :: "text_state \<Rightarrow> int \<Rightarrow> text_copy \<Rightarrow> int \<Rightarrow> text_state" where
  "spend s seat c owner =
     (let k = cd_CopyID (cp_Card c);
          s1 = upd_player seat (\<lambda>p. p\<lparr>tp_Hand := removeCopy (tp_Hand p) k\<rparr>) s
      in put_copy k (c\<lparr>cp_Zone := ZBoard, cp_Owner := owner\<rparr>) s1)"

definition specialtyTimer :: "int \<Rightarrow> int \<Rightarrow> int" where
  "specialtyTimer configured fallback = (if configured > 0 then configured else fallback)"

subsection \<open>Frames\<close>

text \<open>What the elementary updates leave alone; the collection \<open>frame\<close> carries the operations.\<close>

lemma upd_player_frame [simp]:
  "st_Copies (upd_player i f s) = st_Copies s" "st_Board (upd_player i f s) = st_Board s"
  "st_Turn (upd_player i f s) = st_Turn s" "st_Order (upd_player i f s) = st_Order s"
  "st_Phase (upd_player i f s) = st_Phase s" "st_History (upd_player i f s) = st_History s"
  "st_Offer (upd_player i f s) = st_Offer s" "st_Round (upd_player i f s) = st_Round s"
  "st_Result (upd_player i f s) = st_Result s" "st_Votes (upd_player i f s) = st_Votes s"
  "st_Ready (upd_player i f s) = st_Ready s" "st_PhaseSerial (upd_player i f s) = st_PhaseSerial s"
  "st_PhaseID (upd_player i f s) = st_PhaseID s" "st_Deadline (upd_player i f s) = st_Deadline s"
  "st_Requests (upd_player i f s) = st_Requests s" "st_RemainingVotes (upd_player i f s) = st_RemainingVotes s"
  "st_Players (upd_player i f s) = upd i f (st_Players s)"
  "st_Candidates (upd_player i f s) = st_Candidates s" "st_BallotResult (upd_player i f s) = st_BallotResult s"
  "st_RevealTarget (upd_player i f s) = st_RevealTarget s" "st_RevealCards (upd_player i f s) = st_RevealCards s"
  by (simp_all add: upd_player_def)

lemma put_copy_frame [simp]:
  "st_Players (put_copy k c s) = st_Players s" "st_Board (put_copy k c s) = st_Board s"
  "st_Turn (put_copy k c s) = st_Turn s" "st_Order (put_copy k c s) = st_Order s"
  "st_Phase (put_copy k c s) = st_Phase s" "st_History (put_copy k c s) = st_History s"
  "st_Offer (put_copy k c s) = st_Offer s" "st_Round (put_copy k c s) = st_Round s"
  "st_Result (put_copy k c s) = st_Result s" "st_Votes (put_copy k c s) = st_Votes s"
  "st_Ready (put_copy k c s) = st_Ready s" "st_PhaseSerial (put_copy k c s) = st_PhaseSerial s"
  "st_PhaseID (put_copy k c s) = st_PhaseID s" "st_Deadline (put_copy k c s) = st_Deadline s"
  "st_Requests (put_copy k c s) = st_Requests s" "st_RemainingVotes (put_copy k c s) = st_RemainingVotes s"
  "st_Copies (put_copy k c s) = AList.update k c (st_Copies s)"
  "st_Candidates (put_copy k c s) = st_Candidates s" "st_BallotResult (put_copy k c s) = st_BallotResult s"
  "st_RevealTarget (put_copy k c s) = st_RevealTarget s" "st_RevealCards (put_copy k c s) = st_RevealCards s"
  by (simp_all add: put_copy_def)

lemma add_event_frame [simp]:
  "st_Players (add_event m s i k w now b cs f) = st_Players s"
  "st_Copies (add_event m s i k w now b cs f) = st_Copies s"
  "st_Board (add_event m s i k w now b cs f) = st_Board s"
  "st_Turn (add_event m s i k w now b cs f) = st_Turn s"
  "st_Order (add_event m s i k w now b cs f) = st_Order s"
  "st_Phase (add_event m s i k w now b cs f) = st_Phase s"
  "st_Offer (add_event m s i k w now b cs f) = st_Offer s"
  "st_Round (add_event m s i k w now b cs f) = st_Round s"
  "st_Result (add_event m s i k w now b cs f) = st_Result s"
  "st_Votes (add_event m s i k w now b cs f) = st_Votes s"
  "st_Ready (add_event m s i k w now b cs f) = st_Ready s"
  "st_PhaseSerial (add_event m s i k w now b cs f) = st_PhaseSerial s"
  "st_PhaseID (add_event m s i k w now b cs f) = st_PhaseID s"
  "st_Deadline (add_event m s i k w now b cs f) = st_Deadline s"
  "st_Requests (add_event m s i k w now b cs f) = st_Requests s"
  "st_RemainingVotes (add_event m s i k w now b cs f) = st_RemainingVotes s"
  "st_Candidates (add_event m s i k w now b cs f) = st_Candidates s"
  "st_BallotResult (add_event m s i k w now b cs f) = st_BallotResult s"
  "st_RevealTarget (add_event m s i k w now b cs f) = st_RevealTarget s"
  "st_RevealCards (add_event m s i k w now b cs f) = st_RevealCards s"
  by (simp_all add: add_event_def)

lemma set_phase_frame [simp]:
  "st_Players (set_phase m s ph now n) = st_Players s"
  "st_Copies (set_phase m s ph now n) = st_Copies s"
  "st_Board (set_phase m s ph now n) = st_Board s"
  "st_Turn (set_phase m s ph now n) = st_Turn s"
  "st_Order (set_phase m s ph now n) = st_Order s"
  "st_Phase (set_phase m s ph now n) = ph"
  "st_Offer (set_phase m s ph now n) = st_Offer s"
  "st_Round (set_phase m s ph now n) = st_Round s"
  "st_Result (set_phase m s ph now n) = st_Result s"
  "st_Votes (set_phase m s ph now n) = st_Votes s"
  "st_Ready (set_phase m s ph now n) = []"
  "st_PhaseSerial (set_phase m s ph now n) = Suc (st_PhaseSerial s)"
  "st_PhaseID (set_phase m s ph now n) = mc_MatchID (tm_contract m) @ ''.p'' @ dec (Suc (st_PhaseSerial s))"
  "st_Deadline (set_phase m s ph now n) = unix_milli now + 1000 * n"
  "st_History (set_phase m s ph now n) = st_History s"
  "st_Requests (set_phase m s ph now n) = st_Requests s"
  "st_RemainingVotes (set_phase m s ph now n) = st_RemainingVotes s"
  "st_Candidates (set_phase m s ph now n) = st_Candidates s"
  "st_BallotResult (set_phase m s ph now n) = st_BallotResult s"
  "st_RevealTarget (set_phase m s ph now n) = st_RevealTarget s"
  "st_RevealCards (set_phase m s ph now n) = st_RevealCards s"
  by (simp_all add: set_phase_def)

lemma bump_revision_frame [simp]:
  "st_Players (bump_revision s) = st_Players s" "st_Copies (bump_revision s) = st_Copies s"
  "st_Turn (bump_revision s) = st_Turn s" "st_Order (bump_revision s) = st_Order s"
  "st_Phase (bump_revision s) = st_Phase s" "st_History (bump_revision s) = st_History s"
  "st_Offer (bump_revision s) = st_Offer s" "st_Round (bump_revision s) = st_Round s"
  "st_Result (bump_revision s) = st_Result s" "st_Votes (bump_revision s) = st_Votes s"
  "st_Ready (bump_revision s) = st_Ready s" "st_PhaseSerial (bump_revision s) = st_PhaseSerial s"
  "st_PhaseID (bump_revision s) = st_PhaseID s" "st_Deadline (bump_revision s) = st_Deadline s"
  "st_Requests (bump_revision s) = st_Requests s" "st_RemainingVotes (bump_revision s) = st_RemainingVotes s"
  "st_Candidates (bump_revision s) = st_Candidates s" "st_BallotResult (bump_revision s) = st_BallotResult s"
  "st_RevealTarget (bump_revision s) = st_RevealTarget s" "st_RevealCards (bump_revision s) = st_RevealCards s"
  "board_cards (bump_revision s) = board_cards s" "revision (bump_revision s) = Suc (revision s)"
  by (simp_all add: bump_revision_def board_cards_def revision_def)

lemma set_board_cards_frame [simp]:
  "st_Players (set_board_cards cs s) = st_Players s" "st_Copies (set_board_cards cs s) = st_Copies s"
  "st_Turn (set_board_cards cs s) = st_Turn s" "st_Order (set_board_cards cs s) = st_Order s"
  "st_Phase (set_board_cards cs s) = st_Phase s" "st_History (set_board_cards cs s) = st_History s"
  "st_Offer (set_board_cards cs s) = st_Offer s" "st_Round (set_board_cards cs s) = st_Round s"
  "st_Result (set_board_cards cs s) = st_Result s" "st_Votes (set_board_cards cs s) = st_Votes s"
  "st_Ready (set_board_cards cs s) = st_Ready s" "st_PhaseSerial (set_board_cards cs s) = st_PhaseSerial s"
  "st_PhaseID (set_board_cards cs s) = st_PhaseID s" "st_Deadline (set_board_cards cs s) = st_Deadline s"
  "st_Requests (set_board_cards cs s) = st_Requests s" "st_RemainingVotes (set_board_cards cs s) = st_RemainingVotes s"
  "st_Candidates (set_board_cards cs s) = st_Candidates s" "st_BallotResult (set_board_cards cs s) = st_BallotResult s"
  "st_RevealTarget (set_board_cards cs s) = st_RevealTarget s" "st_RevealCards (set_board_cards cs s) = st_RevealCards s"
  "board_cards (set_board_cards cs s) = cs" "revision (set_board_cards cs s) = revision s"
  by (simp_all add: set_board_cards_def board_cards_def revision_def)

text \<open>The board read through updates that do not touch it.\<close>

lemma board_reads [simp]:
  "board_cards (upd_player i f s) = board_cards s" "revision (upd_player i f s) = revision s"
  "board_cards (put_copy k c s) = board_cards s" "revision (put_copy k c s) = revision s"
  "board_cards (add_event m s i' kk w now b cs g) = board_cards s"
  "revision (add_event m s i' kk w now b cs g) = revision s"
  "board_cards (set_phase m s ph now n) = board_cards s" "revision (set_phase m s ph now n) = revision s"
  by (simp_all add: board_cards_def revision_def)

lemma current_reads [simp]:
  "current (upd_player i f s) = current s" "current (put_copy k c s) = current s"
  "current (add_event m s i' kk w now b cs g) = current s"
  "current (set_phase m s ph now n) = current s"
  by (simp_all add: current_def)

text \<open>Phase identities never repeat: they render a serial that only grows.\<close>

lemma set_phase_id_fresh:
  "st_PhaseID s = mc_MatchID (tm_contract m) @ ''.p'' @ dec (st_PhaseSerial s) \<Longrightarrow>
   st_PhaseID (set_phase m s ph now n) \<noteq> st_PhaseID s"
  by simp

end
