(* ===== verification/Turns.thy ===== *)
theory Turns
  imports MatchState
begin

section \<open>Rounds and turns: \<open>beginRound\<close>, \<open>nextTurn\<close>, \<open>autoPass\<close> (\<open>game/text_actions.go\<close>)\<close>

text \<open>
  A round starts by retiring the board, drawing the turn order and laying out the mode's seed
  cards; a turn passes to the next seat of the order, and seats that cannot play are passed
  over until one can or the round reaches its discussion.
\<close>

subsection \<open>\<open>beginRound\<close>\<close>

definition clear_round_player :: "text_player \<Rightarrow> text_player" where
  "clear_round_player p = p\<lparr>tp_FreeDraws := 0, tp_RevealUntil := 0, tp_RevealUsed := False\<rparr>"

definition retire_copy :: "copy_id \<Rightarrow> (copy_id \<times> text_copy) list \<Rightarrow> (copy_id \<times> text_copy) list" where
  "retire_copy k cs = AList.update k ((copy_at cs k)\<lparr>cp_Zone := ZSpent, cp_Owner := -1\<rparr>) cs"

definition retire_board :: "text_state \<Rightarrow> text_state" where
  "retire_board s = set_board_cards []
     (s\<lparr>st_Copies := fold (\<lambda>b. retire_copy (cd_CopyID (bc_Card b))) (board_cards s) (st_Copies s)\<rparr>)"

fun seed_want :: "mode_id \<Rightarrow> int \<Rightarrow> int" where
  "seed_want ModeMakeRoom sz = 3"
| "seed_want ModeBadBargains sz = sz"
| "seed_want ModeTopThat sz = 1"
| "seed_want _ sz = 0"

definition seed_board_card :: "mode_id \<Rightarrow> int \<Rightarrow> card \<Rightarrow> board_card" where
  "seed_board_card md i c = \<lparr>bc_Card = c, bc_Actor = mk_actor (-1), bc_Rating = None,
     bc_Slot = (if md = ModeMakeRoom then Some i else None),
     bc_Seat = (if md = ModeBadBargains then Some i else None)\<rparr>"

definition seed_copy :: "mode_id \<Rightarrow> int \<Rightarrow> card \<Rightarrow> text_copy" where
  "seed_copy md i c = \<lparr>cp_Card = c, cp_Zone = ZBoard,
     cp_Owner = (if md = ModeBadBargains then i else -1), cp_Reserved = False\<rparr>"

text \<open>The seed loop: the texts already seen, the cards emitted so far and the state.\<close>

fun seed_loop ::
  "mode_id \<Rightarrow> string list \<Rightarrow> card list \<Rightarrow> text_state \<Rightarrow> (int \<times> card) list \<Rightarrow> go_error + (text_state \<times> card list)" where
  "seed_loop md texts emitted s [] = Inr (s, emitted)"
| "seed_loop md texts emitted s ((i, c) # rest) =
     (if tc_Text (cd_Content c) \<in> set texts then Inl (GoError ''system seeds need distinct text'')
      else if md = ModeBadBargains \<and> tp_Eliminated (player s i)
        then seed_loop md (tc_Text (cd_Content c) # texts) emitted s rest
      else seed_loop md (tc_Text (cd_Content c) # texts) (emitted @ [c])
             (set_board_cards (board_cards s @ [seed_board_card md i c])
                (put_copy (cd_CopyID c) (seed_copy md i c) s)) rest)"

text \<open>The fields \<open>beginRound\<close> resets and the turn order it draws.\<close>

definition open_round :: "text_match \<Rightarrow> text_state \<Rightarrow> gotime \<Rightarrow> text_state" where
  "open_round m s now =
    (let s1 = retire_board (s\<lparr>st_RevealTarget := None, st_RevealCards := None,
                st_Players := map clear_round_player (st_Players s)\<rparr>);
         order = go_shuffle (tm_rng m (tm_seed m + st_Round s * 7919)) 0
                   (seats_where (\<lambda>p. \<not> tp_Eliminated p) (st_Players s1));
         s2 = s1\<lparr>st_Turn := 0, st_Votes := [], st_Candidates := [], st_BallotResult := None,
                st_BallotKind := PhaseOther [], st_Pokes := [], st_Order := order\<rparr>
     in set_phase m s2 PhaseRoundStart now (ti_RoundStartCountdown (tm_timers m)))"

definition beginRound :: "text_match \<Rightarrow> text_state \<Rightarrow> gotime \<Rightarrow> go_error + text_state" where
  "beginRound m s now =
    (let s1 = open_round m s now in
     if \<not> in_range (st_Round s - 1) (tm_seeds m) then Inl (GoPanic ''seeds'')
     else
      (let seeds = at (tm_seeds m) (st_Round s - 1) in
       if int (length seeds) \<noteq> seed_want (mode m) (mc_OriginalSize (tm_contract m))
         then Inl (GoError ''invalid mode seed budget'')
       else
        (case seed_loop (mode m) [] [] (bump_revision s1) (indexed seeds) of
           Inl e \<Rightarrow> Inl e
         | Inr (s2, emitted) \<Rightarrow>
             Inr (if emitted = [] then s2
                  else add_event m s2 (-1) EvSeed RSeed now (revision s1) emitted (\<lambda>e. e)))))"

subsection \<open>\<open>nextTurn\<close> and \<open>autoPass\<close>\<close>

text \<open>
  \<open>autoPass\<close> is \<open>pass_current\<close> (discard a random card of the current seat unless there was no
  possible recipient, and record the pass) followed by \<open>nextTurn\<close>; it returns at once when no
  seat is current.
\<close>

definition discard_index :: "text_match \<Rightarrow> text_state \<Rightarrow> int \<Rightarrow> nat" where
  "discard_index m s seat = rand_intn
     (tm_rng m (tm_seed m + int (length (st_History s)) * 104729 + seat)) 0
     (length (tp_Hand (player s seat)))"

definition discard :: "text_state \<Rightarrow> int \<Rightarrow> copy_id \<Rightarrow> text_state" where
  "discard s seat k =
     (let c = copy_at (st_Copies s) k
      in upd_player seat (\<lambda>p. p\<lparr>tp_Hand := removeCopy (tp_Hand p) k\<rparr>)
           (put_copy k (c\<lparr>cp_Zone := ZSpent, cp_Owner := -1\<rparr>) s))"

definition pass_current :: "text_match \<Rightarrow> text_state \<Rightarrow> reason \<Rightarrow> gotime \<Rightarrow> text_state" where
  "pass_current m s why now =
     (let seat = current s; hand = tp_Hand (player s seat) in
      if why \<noteq> RNoRecipient \<and> hand \<noteq> [] then
        (let k = hand ! discard_index m s seat; c = copy_at (st_Copies s) k
         in add_event m (discard s seat k) seat EvAutoPass why now (revision s) [cp_Card c] (\<lambda>e. e))
      else add_event m s seat EvAutoPass why now (revision s) [] (\<lambda>e. e))"

definition has_recipient :: "text_state \<Rightarrow> int \<Rightarrow> bool" where
  "has_recipient s seat \<longleftrightarrow> list_ex (\<lambda>(i, p). i \<noteq> seat \<and> active_connected p) (indexed (st_Players s))"

lemma discard_frame [simp]:
  "st_Turn (discard s i k) = st_Turn s" "st_Order (discard s i k) = st_Order s"
  "current (discard s i k) = current s" "st_Board (discard s i k) = st_Board s"
  "st_Phase (discard s i k) = st_Phase s" "st_Offer (discard s i k) = st_Offer s"
  "st_Round (discard s i k) = st_Round s" "st_Result (discard s i k) = st_Result s"
  "st_History (discard s i k) = st_History s" "st_Requests (discard s i k) = st_Requests s"
  "st_PhaseSerial (discard s i k) = st_PhaseSerial s" "st_PhaseID (discard s i k) = st_PhaseID s"
  "st_Votes (discard s i k) = st_Votes s" "st_Ready (discard s i k) = st_Ready s"
  "st_RemainingVotes (discard s i k) = st_RemainingVotes s" "st_Deadline (discard s i k) = st_Deadline s"
  "st_Candidates (discard s i k) = st_Candidates s" "st_BallotResult (discard s i k) = st_BallotResult s"
  "board_cards (discard s i k) = board_cards s" "revision (discard s i k) = revision s"
  by (simp_all add: discard_def Let_def)

lemma pass_current_frame [simp]:
  "st_Turn (pass_current m s why now) = st_Turn s" "st_Order (pass_current m s why now) = st_Order s"
  "st_Board (pass_current m s why now) = st_Board s" "st_Phase (pass_current m s why now) = st_Phase s"
  "st_Offer (pass_current m s why now) = st_Offer s" "st_Round (pass_current m s why now) = st_Round s"
  "st_Result (pass_current m s why now) = st_Result s"
  "st_Requests (pass_current m s why now) = st_Requests s"
  "st_PhaseSerial (pass_current m s why now) = st_PhaseSerial s"
  "st_PhaseID (pass_current m s why now) = st_PhaseID s"
  "st_Votes (pass_current m s why now) = st_Votes s" "st_Ready (pass_current m s why now) = st_Ready s"
  "st_RemainingVotes (pass_current m s why now) = st_RemainingVotes s"
  "st_Deadline (pass_current m s why now) = st_Deadline s"
  "st_Candidates (pass_current m s why now) = st_Candidates s"
  "st_BallotResult (pass_current m s why now) = st_BallotResult s"
  "board_cards (pass_current m s why now) = board_cards s"
  "revision (pass_current m s why now) = revision s"
  "current (pass_current m s why now) = current s"
  by (simp_all add: pass_current_def Let_def)

text \<open>
  The mutual recursion of \<open>nextTurn\<close> and \<open>autoPass\<close> ends because every call advances \<open>Turn\<close>
  along the order.
\<close>

function nextTurn :: "text_match \<Rightarrow> text_state \<Rightarrow> gotime \<Rightarrow> text_state"
  and autoPass :: "text_match \<Rightarrow> text_state \<Rightarrow> reason \<Rightarrow> gotime \<Rightarrow> text_state" where
  "nextTurn m s now =
    (let s1 = s\<lparr>st_Turn := st_Turn s + 1\<rparr> in
     if st_Turn s1 > int (length (st_Order s1)) then
       set_phase m (s1\<lparr>st_Turn := int (length (st_Order s1))\<rparr>) PhaseDiscussion now
         (ti_DiscussionPerPlayer (tm_timers m) * mc_OriginalSize (tm_contract m))
     else
      (let s2 = set_phase m s1 PhasePlay now (ti_PlayTurn (tm_timers m)); seat = current s2 in
       if \<not> tp_Connected (player s2 seat) then autoPass m s2 RDisconnect now
       else if mode m = ModeBadBargains \<and> \<not> has_recipient s2 seat
         then autoPass m s2 RNoRecipient now
       else s2))"
| "autoPass m s why now =
    (if current s < 0 then s else nextTurn m (pass_current m s why now) now)"
  by pat_completeness auto
termination
proof (relation "measure (\<lambda>x. case x of
      Inl (m, s, now) \<Rightarrow> nat (2 * (int (length (st_Order s)) - st_Turn s))
    | Inr (m, s, why, now) \<Rightarrow> nat (2 * (int (length (st_Order s)) - st_Turn s) + 1))", goal_cases)
  case 1
  then show ?case by simp
next
  case (2 m s now x xa xb)
  then show ?case by (auto simp: not_less)
next
  case (3 m s now x xa xb)
  then show ?case by (auto simp: not_less)
next
  case (4 m s why now)
  then have "st_Turn s \<le> int (length (st_Order s))" by (simp add: current_def split: if_splits)
  then show ?case by simp
qed

declare nextTurn.simps [simp del] autoPass.simps [simp del]

subsection \<open>What turning over leaves alone\<close>

text \<open>
  A relation that holds of one elementary pass and one phase change and is transitive holds of
  \<open>nextTurn\<close> and \<open>autoPass\<close>: most facts about them are instances of this scheme.
\<close>

locale turn_relation =
  fixes R :: "text_match \<Rightarrow> text_state \<Rightarrow> text_state \<Rightarrow> bool"
  assumes R_refl: "R m s s"
    and R_trans: "R m s t \<Longrightarrow> R m t u \<Longrightarrow> R m s u"
    and R_turn: "R m s (s\<lparr>st_Turn := n\<rparr>)"
    and R_phase: "ph = PhasePlay \<or> ph = PhaseDiscussion \<Longrightarrow> R m s (set_phase m s ph now secs)"
    and R_pass: "0 \<le> current s \<Longrightarrow> R m s (pass_current m s why now)"
begin

lemma R_nextTurn: "R m s (nextTurn m s now)"
  and R_autoPass: "R m s (autoPass m s why now)"
proof (induction m s now and m s why now rule: nextTurn_autoPass.induct)
  case (1 m s now)
  define s1 where "s1 = s\<lparr>st_Turn := st_Turn s + 1\<rparr>"
  define s2 where "s2 = set_phase m s1 PhasePlay now (ti_PlayTurn (tm_timers m))"
  have s1: "R m s s1" unfolding s1_def by (rule R_turn)
  have s2: "R m s s2" unfolding s2_def by (rule R_trans [OF s1 R_phase]) simp
  show ?case
  proof (cases "st_Turn s1 > int (length (st_Order s1))")
    case True
    have "R m s (set_phase m (s1\<lparr>st_Turn := int (length (st_Order s1))\<rparr>) PhaseDiscussion now
         (ti_DiscussionPerPlayer (tm_timers m) * mc_OriginalSize (tm_contract m)))"
      by (rule R_trans [OF R_trans [OF s1 R_turn] R_phase]) simp
    then show ?thesis using True by (subst nextTurn.simps) (simp add: s1_def Let_def)
  next
    case False
    note f = False [unfolded s1_def]
    consider (d) "\<not> tp_Connected (player s2 (current s2))"
      | (n) "tp_Connected (player s2 (current s2))" "mode m = ModeBadBargains"
          "\<not> has_recipient s2 (current s2)"
      | (s) "tp_Connected (player s2 (current s2))"
          "\<not> (mode m = ModeBadBargains \<and> \<not> has_recipient s2 (current s2))"
      by blast
    then show ?thesis
    proof cases
      case d
      then have "R m s2 (autoPass m s2 RDisconnect now)"
        using "1.IH"(1) f by (simp add: s2_def s1_def)
      then show ?thesis using R_trans [OF s2] d False
        by (subst nextTurn.simps) (simp add: s1_def s2_def Let_def)
    next
      case n
      then have "R m s2 (autoPass m s2 RNoRecipient now)"
        using "1.IH"(2) f by (simp add: s2_def s1_def)
      then show ?thesis using R_trans [OF s2] n False
        by (subst nextTurn.simps) (simp add: s1_def s2_def Let_def)
    next
      case s
      then show ?thesis using s2 False
        by (subst nextTurn.simps) (auto simp: s1_def s2_def Let_def)
    qed
  qed
next
  case (2 m s why now)
  show ?case
  proof (cases "current s < 0")
    case True
    then show ?thesis by (simp add: autoPass.simps R_refl)
  next
    case False
    then have "R m s (pass_current m s why now)" by (intro R_pass) simp
    with "2.IH" False show ?thesis by (subst autoPass.simps) (auto intro: R_trans)
  qed
qed

end

end
