(* ===== verification/Trades.thy ===== *)
theory Trades
  imports Turns
begin

section \<open>Offers and pokes: \<open>resolveOffer\<close>, \<open>poke\<close> (\<open>game/text_actions.go\<close>)\<close>

subsection \<open>\<open>resolveOffer\<close>\<close>

text \<open>
  The body up to \<open>s.Offer = nil\<close> is \<open>settle_offer\<close>; unless the transition is forced the turn
  then passes on. An accepted offer puts the offered copy on the board in the recipient's
  place and the requested copy in the proposer's hand.
\<close>

definition display_card :: "card \<Rightarrow> pending_offer \<Rightarrow> board_card \<Rightarrow> board_card" where
  "display_card c po b =
     (if cd_CopyID (bc_Card b) = po_RequestedCopyID po
      then \<lparr>bc_Card = c, bc_Actor = mk_actor (po_ProposerSeat po), bc_Rating = None, bc_Slot = None,
            bc_Seat = Some (po_RecipientSeat po)\<rparr>
      else b)"

definition trade_hand :: "pending_offer \<Rightarrow> copy_id list \<Rightarrow> copy_id list" where
  "trade_hand po hand = removeCopy hand (po_OfferedCopyID po) @ [po_RequestedCopyID po]"

definition release :: "text_copy \<Rightarrow> text_copy" where
  "release c = c\<lparr>cp_Reserved := False\<rparr>"

definition settle_offer :: "text_match \<Rightarrow> text_state \<Rightarrow> pending_offer \<Rightarrow> int \<Rightarrow> resolution \<Rightarrow> reason \<Rightarrow> gotime \<Rightarrow> text_state" where
  "settle_offer m s po seat res why now =
    (let offered = release (copy_at (st_Copies s) (po_OfferedCopyID po));
         requested = release (copy_at (st_Copies s) (po_RequestedCopyID po));
         accept = (res = ResAccept);
         s1 = (if accept then
                 set_board_cards (map (display_card (cp_Card offered) po) (board_cards s))
                   (upd_player (po_ProposerSeat po) (\<lambda>p. p\<lparr>tp_Hand := trade_hand po (tp_Hand p)\<rparr>) s)
               else s);
         offered' = (if accept then offered\<lparr>cp_Zone := ZBoard, cp_Owner := po_RecipientSeat po\<rparr> else offered);
         requested' = (if accept then requested\<lparr>cp_Zone := ZHand, cp_Owner := po_ProposerSeat po\<rparr> else requested);
         s2 = put_copy (po_RequestedCopyID po) requested' (put_copy (po_OfferedCopyID po) offered' s1);
         s3 = add_event m (bump_revision s2) seat EvResolveOffer why now (revision s)
                [cp_Card offered, cp_Card requested]
                (\<lambda>e. e\<lparr>e_OfferID := po_OfferID po, e_Resolution := res\<rparr>)
     in s3\<lparr>st_Offer := None\<rparr>)"

definition resolveOffer :: "text_match \<Rightarrow> text_state \<Rightarrow> int \<Rightarrow> resolution \<Rightarrow> reason \<Rightarrow> gotime \<Rightarrow> text_state" where
  "resolveOffer m s seat res why now =
    (case st_Offer s of
       None \<Rightarrow> s
     | Some po \<Rightarrow>
        (let s1 = settle_offer m s po seat res why now in
         if why \<noteq> RForcedTransition then nextTurn m s1 now else s1))"

subsection \<open>\<open>poke\<close>\<close>

text \<open>
  A poke is allowed once per phase group, poker and target, at a target who is being waited
  for. \<open>poke_check\<close> is the phase switch with its early returns.
\<close>

definition poke_group :: "phase \<Rightarrow> string" where
  "poke_group ph = (if ph = PhasePlay \<or> ph = PhaseTradeResponse then ''play''
     else if ph = PhaseDiscussion then ''discussion'' else ''voting'')"

definition poke_key :: "phase \<Rightarrow> int \<Rightarrow> int \<Rightarrow> string" where
  "poke_key ph seat target = poke_group ph @ '':'' @ dec_int seat @ '':'' @ dec_int target"

fun poke_check :: "text_state \<Rightarrow> int \<Rightarrow> phase \<Rightarrow> go_error option" where
  "poke_check s target PhasePlay =
     reject_if (current s \<noteq> target) (invalid ErrUnauthorized ''poke_target'')"
| "poke_check s target PhaseTradeResponse =
     reject_if (case st_Offer s of None \<Rightarrow> True | Some po \<Rightarrow> po_RecipientSeat po \<noteq> target)
       (invalid ErrUnauthorized ''poke_target'')"
| "poke_check s target PhaseDiscussion =
     reject_if (is_ready s target) (invalid ErrUnauthorized ''poke_target'')"
| "poke_check s target PhaseKnowoff = None"
| "poke_check s target PhaseRunoff = None"
| "poke_check s target _ = Some (invalid ErrInvalidAction ''poke_phase'')"

definition poke :: "text_match \<Rightarrow> text_state \<Rightarrow> int \<Rightarrow> int \<Rightarrow> gotime \<Rightarrow> go_error + text_state" where
  "poke m s seat target now =
    (case checks
       [reject_if (\<not> in_range target (st_Players s) \<or> target = seat
          \<or> \<not> active_connected (player s target)) (invalid ErrUnauthorized ''poke_target''),
        poke_check s target (st_Phase s),
        reject_if (map_of (st_Pokes s) (poke_key (st_Phase s) seat target) = Some True)
          (invalid ErrInvalidAction ''poke_used'')] of
       Some e \<Rightarrow> Inl e
     | None \<Rightarrow>
        if \<not> in_range seat (st_Players s) then Inl (GoPanic ''index out of range'')
        else
        (let s1 = upd_player seat (\<lambda>p. p\<lparr>tp_Pokes := tp_Pokes p + 1\<rparr>)
                    (s\<lparr>st_Pokes := AList.update (poke_key (st_Phase s) seat target) True (st_Pokes s)\<rparr>)
         in Inr (add_event m s1 seat EvPoke RPlayer now (revision s) []
                  (\<lambda>e. e\<lparr>e_TargetSeat := Some target\<rparr>))))"

end
