(* ===== verification/Projection.thy ===== *)
theory Projection
  imports MatchState
begin

section \<open>The role-scoped projection: \<open>project\<close> (\<open>game/text_snapshot.go\<close>)\<close>

text \<open>
  What one seat is shown of the match state. The source fills one \<open>v2.Snapshot\<close> literal and
  then amends it field by field; the fields are grouped here into the public roll of seats,
  the ballot, the verdict, the private view and its capabilities. The indices the source
  uses without a test (the own seat, the reveal target, the prompt of the round) are in range
  in every state of a match; \<open>RevealCards\<close> is set whenever \<open>RevealTarget\<close> is.
\<close>

definition public_seats :: "text_state \<Rightarrow> public_seat list" where
  "public_seats s = map (\<lambda>(i, v). \<lparr>ps_Seat = i, ps_Connected = tp_Connected v,
      ps_Eliminated = tp_Eliminated v,
      ps_RevealedRole = (if tp_Eliminated v then tp_Role v else NoRole)\<rparr>) (indexed (st_Players s))"

definition ready_seats :: "text_state \<Rightarrow> int list" where
  "ready_seats s = map fst (filter (\<lambda>(i, v). is_ready s i \<and> \<not> tp_Eliminated v \<and> tp_Connected v)
      (indexed (st_Players s)))"

definition result_hidden :: "text_state \<Rightarrow> gotime \<Rightarrow> bool" where
  "result_hidden s now \<longleftrightarrow> st_Phase s = PhaseResult \<and> unix_milli now < st_ResultRevealAt s"

text \<open>The votes cast so far, by seat.\<close>

definition ballot_votes :: "text_state \<Rightarrow> (text_player \<Rightarrow> bool) \<Rightarrow> ballot_vote list" where
  "ballot_votes s ok = concat (map (\<lambda>(i, v). case map_of (st_Votes s) i of
        None \<Rightarrow> [] | Some t \<Rightarrow> if ok v then [\<lparr>bv_Seat = i, bv_TargetSeat = t\<rparr>] else [])
      (indexed (st_Players s)))"

definition ballot_phase :: "phase \<Rightarrow> bool" where
  "ballot_phase ph \<longleftrightarrow> ph = PhaseKnowoff \<or> ph = PhaseRunoff"

definition project_ballot :: "text_state \<Rightarrow> gotime \<Rightarrow> ballot_state option" where
  "project_ballot s now =
    (if ballot_phase (st_Phase s) \<or> st_Phase s = PhaseResult then
       Some \<lparr>bs_Kind = st_BallotKind s, bs_Candidates = st_Candidates s,
         bs_Votes = Some (ballot_votes s (\<lambda>_. True)),
         bs_Result = map_option (\<lambda>r. if result_hidden s now then r\<lparr>br_RevealedRole := NoRole\<rparr> else r)
            (st_BallotResult s)\<rparr>
     else None)"

definition verdict_of :: "text_result \<Rightarrow> match_verdict" where
  "verdict_of r = \<lparr>mv_Outcome = re_Outcome r,
     mv_Winner = (if re_Winner r = NoWinner then NoRole else re_Winner r)\<rparr>"

definition shown_result :: "text_state \<Rightarrow> text_result option" where
  "shown_result s = (if st_Phase s = PhaseVerdict then st_Result s else None)"

definition project_scores :: "text_state \<Rightarrow> seat_score list" where
  "project_scores s = (case shown_result s of None \<Rightarrow> []
     | Some r \<Rightarrow> map (\<lambda>p. \<lparr>ss_Seat = pr_Seat p, ss_Points = pr_Points p\<rparr>) (re_Players r))"

definition project_nowns :: "text_match \<Rightarrow> text_state \<Rightarrow> begun_nown list" where
  "project_nowns m s = (case shown_result s of None \<Rightarrow> []
     | Some r \<Rightarrow> map (\<lambda>(i, n). \<lparr>bn_Round = i + 1, bn_Content = n\<rparr>)
         (indexed (take (nat (st_Round s)) (tm_nowns m))))"

subsection \<open>The private view\<close>

definition reveal_shown :: "text_state \<Rightarrow> int option" where
  "reveal_shown s = (if st_Phase s \<noteq> PhaseVerdict \<and> st_Phase s \<noteq> PhaseRoundStart
     then st_RevealTarget s else None)"

definition project_reveal :: "text_state \<Rightarrow> int \<Rightarrow> gotime \<Rightarrow> reveal_view option" where
  "project_reveal s seat now = (let p = player s seat in
     case reveal_shown s of None \<Rightarrow> None
     | Some target \<Rightarrow>
        if \<not> tp_Eliminated p \<and> tp_Connected p \<and> \<not> tp_Eliminated (player s target)
          \<and> tp_RevealUntil p > unix_milli now
        then map_option (\<lambda>v. v\<lparr>rv_ExpiresAtMS := tp_RevealUntil p\<rparr>) (st_RevealCards s)
        else None)"

fun mode_action :: "mode_id \<Rightarrow> action_kind" where
  "mode_action ModeMissedTheBriefing = ActionRespond"
| "mode_action ModeSecretScale = ActionPlace"
| "mode_action ModeMakeRoom = ActionReplace"
| "mode_action ModeBadBargains = ActionOffer"
| "mode_action ModeTopThat = ActionTop"
| "mode_action (ModeOther _) = ActionOther []"

definition only_if :: "bool \<Rightarrow> 'a \<Rightarrow> 'a list" where
  "only_if b x = (if b then [x] else [])"

definition general_capabilities :: "text_match \<Rightarrow> text_state \<Rightarrow> text_player \<Rightarrow> action_kind list" where
  "general_capabilities m s p =
     only_if (hk_ModerateChat (tm_hooks m) \<noteq> None \<and> st_Phase s \<noteq> PhaseRoundStart
        \<and> st_Phase s \<noteq> PhaseVerdict) ActionChat
   @ only_if ((case st_RevealTarget s of None \<Rightarrow> False | Some t \<Rightarrow> \<not> tp_Eliminated (player s t))
        \<and> \<not> tp_RevealUsed p \<and> st_Phase s \<noteq> PhaseRoundStart \<and> st_Phase s \<noteq> PhaseVerdict) ActionViewReveal
   @ only_if (tp_Specialty p = SpShuffle \<and> tp_Role p = Donower \<and> \<not> st_ShuffleUsed s
        \<and> (st_Phase s = PhasePlay \<or> st_Phase s = PhaseTradeResponse)) ActionShuffle
   @ only_if (tp_Specialty p = SpRevote \<and> tp_Role p = Nower \<and> \<not> st_RevoteUsed s
        \<and> ballot_phase (st_Phase s)) ActionRevote"

fun turn_specialty :: "text_match \<Rightarrow> text_state \<Rightarrow> text_player \<Rightarrow> gotime \<Rightarrow> specialty \<Rightarrow> action_kind list" where
  "turn_specialty m s p now SpPass = [ActionPass]"
| "turn_specialty m s p now SpReveal =
     only_if (st_Deadline s - unix_milli now > specialtyTimer (ti_RevealLockout (tm_timers m)) 5 * 1000)
       ActionReveal"
| "turn_specialty m s p now SpFreeCard =
     only_if (tp_Reserve p \<noteq> [] \<and> tp_FreeDraws p = 0) ActionFreeCard"
| "turn_specialty m s p now _ = []"

fun phase_capabilities :: "text_match \<Rightarrow> text_state \<Rightarrow> int \<Rightarrow> text_player \<Rightarrow> phase \<Rightarrow> action_kind list" where
  "phase_capabilities m s seat p PhasePlay = ActionPoke #
     (if current s = seat then only_if (tp_Reserve p \<noteq> []) ActionDraw
        @ only_if (tp_Hand p \<noteq> [] \<and> tp_FreeDraws p = 0) (mode_action (mode m)) else [])"
| "phase_capabilities m s seat p PhaseTradeResponse = ActionPoke #
     only_if (case st_Offer s of None \<Rightarrow> False | Some po \<Rightarrow> po_RecipientSeat po = seat) ActionResolveOffer"
| "phase_capabilities m s seat p PhaseDiscussion = [ActionReady, ActionPoke]"
| "phase_capabilities m s seat p PhaseKnowoff = [ActionVote, ActionReady, ActionPoke]"
| "phase_capabilities m s seat p PhaseRunoff = [ActionVote, ActionReady, ActionPoke]"
| "phase_capabilities m s seat p PhaseResult = [ActionReady]"
| "phase_capabilities m s seat p _ = []"

definition project_capabilities :: "text_match \<Rightarrow> text_state \<Rightarrow> int \<Rightarrow> gotime \<Rightarrow> action_kind list" where
  "project_capabilities m s seat now = (let p = player s seat in
     if tp_Connected p \<and> \<not> tp_Eliminated p then
       general_capabilities m s p
       @ (if st_Phase s = PhasePlay \<and> current s = seat
          then turn_specialty m s p now (tp_Specialty p) else [])
       @ phase_capabilities m s seat p (st_Phase s)
     else [])"

definition project_private :: "text_match \<Rightarrow> text_state \<Rightarrow> int \<Rightarrow> gotime \<Rightarrow> private_state" where
  "project_private m s seat now = (let p = player s seat in
    \<lparr>pv_Specialty = (if \<not> tp_Eliminated p \<and> st_Phase s \<noteq> PhaseVerdict then tp_Specialty p else NoSpecialty),
     pv_FreeDraws = (if \<not> tp_Eliminated p \<and> st_Phase s \<noteq> PhaseVerdict then tp_FreeDraws p else 0),
     pv_Reveal = project_reveal s seat now,
     pv_Points = max (if result_hidden s now then tp_PointsBeforeResult p else tp_Points p) 0,
     pv_Seat = seat, pv_Role = tp_Role p,
     pv_Nown = (if tp_Role p = Nower \<and> \<not> tp_Eliminated p \<and> st_Phase s \<noteq> PhaseVerdict
        then Some (at (tm_nowns m) (st_Round s - 1)) else None),
     pv_Hand = Some (if tp_Eliminated p then [] else map (\<lambda>k. cp_Card (copy_at (st_Copies s) k)) (tp_Hand p)),
     pv_ReserveCount = (if tp_Eliminated p then 0 else int (length (tp_Reserve p))),
     pv_Capabilities = Some (project_capabilities m s seat now)\<rparr>)"

definition project :: "text_match \<Rightarrow> text_state \<Rightarrow> int \<Rightarrow> gotime \<Rightarrow> snapshot" where
  "project m s seat now =
    \<lparr>sn_RevealTarget = reveal_shown s,
     sn_Scores = project_scores s,
     sn_Verdict = map_option verdict_of (shown_result s),
     sn_Version = Version,
     sn_SnapshotID = mc_MatchID (tm_contract m) @ ''.s'' @ dec_int seat @ ''.'' @ dec (st_PhaseSerial s)
        @ ''.'' @ dec (length (st_History s)),
     sn_Contract = tm_contract m,
     sn_Cursor = \<lparr>cu_StreamEpoch = ''projection'', cu_RecipientSeq = 1,
        cu_EvidenceSeq = length (st_History s)\<rparr>,
     sn_Round = st_Round s, sn_Turn = st_Turn s,
     sn_CurrentSeat = (if st_Phase s = PhasePlay \<or> st_Phase s = PhaseTradeResponse
        then Some (current s) else None),
     sn_Phase = st_Phase s, sn_PhaseID = st_PhaseID s, sn_ServerTimeMS = unix_milli now,
     sn_DeadlineMS = st_Deadline s,
     sn_ResultRevealAtMS = (if st_Phase s = PhaseResult then Some (st_ResultRevealAt s) else None),
     sn_Board = st_Board s, sn_Seats = public_seats s, sn_ReadySeats = Some (ready_seats s),
     sn_Ballot = project_ballot s now, sn_PendingOffer = st_Offer s,
     sn_Private = project_private m s seat now,
     sn_History = Some (st_History s), sn_HistoryPages = None,
     sn_VerdictNowns = project_nowns m s\<rparr>"

subsection \<open>What a seat may learn\<close>

text \<open>
  Two states look the same to a seat when they agree on what is public at that moment and on
  what is the seat's own. They may differ in the other players' roles (unless eliminated),
  hands, reserves, specialties and scores, in the identities of the seat's own reserve, in
  the location of every copy outside the seat's hand, in the order of the turns to come, in
  the cards of a reveal the seat is not viewing, and, while the result of a ballot is still
  falling, in the role it reveals and in the points it brought.
\<close>

definition views_reveal :: "text_state \<Rightarrow> int \<Rightarrow> gotime \<Rightarrow> bool" where
  "views_reveal s seat now = (project_reveal s seat now \<noteq> None)"

definition public_player :: "text_player \<Rightarrow> bool \<times> bool \<times> role" where
  "public_player p = (tp_Connected p, tp_Eliminated p, if tp_Eliminated p then tp_Role p else NoRole)"

definition own_player :: "bool \<Rightarrow> text_player \<Rightarrow> text_player" where
  "own_player hidden p = p\<lparr>
     tp_Absent := False, tp_GraceDeadline := 0, tp_AbandonRecorded := False,
     tp_Points := (if hidden then 0 else tp_Points p),
     tp_PointsBeforeResult := (if hidden then tp_PointsBeforeResult p else 0),
     tp_Hand := (if tp_Eliminated p then [] else tp_Hand p),
     tp_Reserve := map (\<lambda>_. []) (tp_Reserve p),
     tp_CorrectVotes := 0, tp_VotesCast := 0, tp_Survivals := 0, tp_Pokes := 0\<rparr>"

definition public_state :: "bool \<Rightarrow> text_state \<Rightarrow> text_state" where
  "public_state hidden s = s\<lparr>st_Players := [], st_Copies := [], st_Requests := [], st_Pokes := [],
     st_Order := [], st_RevealCards := None, st_ResultRevealed := False, st_RemainingVotes := 0,
     st_Result := shown_result s,
     st_BallotResult := map_option (\<lambda>r. if hidden then r\<lparr>br_RevealedRole := NoRole\<rparr> else r) (st_BallotResult s)\<rparr>"

definition same_view :: "int \<Rightarrow> gotime \<Rightarrow> text_state \<Rightarrow> text_state \<Rightarrow> bool" where
  "same_view seat now s t \<longleftrightarrow>
     public_state (result_hidden s now) s = public_state (result_hidden t now) t
   \<and> current s = current t
   \<and> map public_player (st_Players s) = map public_player (st_Players t)
   \<and> own_player (result_hidden s now) (player s seat) = own_player (result_hidden t now) (player t seat)
   \<and> (tp_Eliminated (player s seat)
       \<or> map (\<lambda>k. cp_Card (copy_at (st_Copies s) k)) (tp_Hand (player s seat))
          = map (\<lambda>k. cp_Card (copy_at (st_Copies t) k)) (tp_Hand (player t seat)))
   \<and> (case st_RevealTarget s of None \<Rightarrow> True | Some r \<Rightarrow> in_range r (st_Players s))
   \<and> (views_reveal s seat now \<longrightarrow> st_RevealCards s = st_RevealCards t)
   \<and> (st_RevealCards s = None \<longleftrightarrow> st_RevealCards t = None)"

lemma public_state_sel [simp]:
  "st_Phase (public_state h s) = st_Phase s"
  "st_History (public_state h s) = st_History s"
  "st_Offer (public_state h s) = st_Offer s"
  "st_Round (public_state h s) = st_Round s"
  "st_Turn (public_state h s) = st_Turn s"
  "st_PhaseID (public_state h s) = st_PhaseID s"
  "st_PhaseSerial (public_state h s) = st_PhaseSerial s"
  "st_Deadline (public_state h s) = st_Deadline s"
  "st_Board (public_state h s) = st_Board s"
  "st_Ready (public_state h s) = st_Ready s"
  "st_Votes (public_state h s) = st_Votes s"
  "st_RevealTarget (public_state h s) = st_RevealTarget s"
  "st_BallotKind (public_state h s) = st_BallotKind s"
  "st_Candidates (public_state h s) = st_Candidates s"
  "st_ResultRevealAt (public_state h s) = st_ResultRevealAt s"
  "st_ShuffleUsed (public_state h s) = st_ShuffleUsed s"
  "st_RevoteUsed (public_state h s) = st_RevoteUsed s"
  "st_Result (public_state h s) = shown_result s"
  "st_BallotResult (public_state h s)
    = map_option (\<lambda>r. if h then r\<lparr>br_RevealedRole := NoRole\<rparr> else r) (st_BallotResult s)"
  by (simp_all add: public_state_def)

lemma public_state_fields:
  assumes "public_state h s = public_state h' t"
  shows "st_Phase s = st_Phase t"
    "st_History s = st_History t"
    "st_Offer s = st_Offer t"
    "st_Round s = st_Round t"
    "st_Turn s = st_Turn t"
    "st_PhaseID s = st_PhaseID t"
    "st_PhaseSerial s = st_PhaseSerial t"
    "st_Deadline s = st_Deadline t"
    "st_Board s = st_Board t"
    "st_Ready s = st_Ready t"
    "st_Votes s = st_Votes t"
    "st_RevealTarget s = st_RevealTarget t"
    "st_BallotKind s = st_BallotKind t"
    "st_Candidates s = st_Candidates t"
    "st_ResultRevealAt s = st_ResultRevealAt t"
    "st_ShuffleUsed s = st_ShuffleUsed t"
    "st_RevoteUsed s = st_RevoteUsed t"
    "shown_result s = shown_result t"
    "map_option (\<lambda>r. if h then r\<lparr>br_RevealedRole := NoRole\<rparr> else r) (st_BallotResult s)
      = map_option (\<lambda>r. if h' then r\<lparr>br_RevealedRole := NoRole\<rparr> else r) (st_BallotResult t)"
  using arg_cong [where f = st_Phase, OF assms]
    arg_cong [where f = st_History, OF assms]
    arg_cong [where f = st_Offer, OF assms]
    arg_cong [where f = st_Round, OF assms]
    arg_cong [where f = st_Turn, OF assms]
    arg_cong [where f = st_PhaseID, OF assms]
    arg_cong [where f = st_PhaseSerial, OF assms]
    arg_cong [where f = st_Deadline, OF assms]
    arg_cong [where f = st_Board, OF assms]
    arg_cong [where f = st_Ready, OF assms]
    arg_cong [where f = st_Votes, OF assms]
    arg_cong [where f = st_RevealTarget, OF assms]
    arg_cong [where f = st_BallotKind, OF assms]
    arg_cong [where f = st_Candidates, OF assms]
    arg_cong [where f = st_ResultRevealAt, OF assms]
    arg_cong [where f = st_ShuffleUsed, OF assms]
    arg_cong [where f = st_RevoteUsed, OF assms]
    arg_cong [where f = st_Result, OF assms]
    arg_cong [where f = st_BallotResult, OF assms]
  by (simp_all only: public_state_sel)

lemma map_indexed_cong:
  assumes "map g xs = map g ys" and "\<And>i x y. g x = g y \<Longrightarrow> f (i, x) = f (i, y)"
  shows "map f (indexed xs) = map f (indexed ys)"
proof (rule nth_equalityI)
  have len: "length xs = length ys" using assms(1) by (metis length_map)
  then show "length (map f (indexed xs)) = length (map f (indexed ys))" by simp
  fix k assume "k < length (map f (indexed xs))"
  then have k: "k < length xs" "k < length ys" using len by auto
  then have "g (xs ! k) = g (ys ! k)" by (metis assms(1) nth_map)
  then have "f (int k, xs ! k) = f (int k, ys ! k)" by (rule assms(2))
  then show "map f (indexed xs) ! k = map f (indexed ys) ! k"
    using k by (simp add: indexed_def)
qed

lemma filter_as_concat: "map fst (filter p l) = concat (map (\<lambda>z. if p z then [fst z] else []) l)"
  by (induction l) auto

lemma filter_indexed_cong:
  assumes "map g xs = map g ys" and "\<And>i x y. g x = g y \<Longrightarrow> p (i, x) = p (i, y)"
  shows "map fst (filter p (indexed xs)) = map fst (filter p (indexed ys))"
proof -
  have "map (\<lambda>z. if p z then [fst z] else []) (indexed xs)
      = map (\<lambda>z. if p z then [fst z] else []) (indexed ys)"
  proof (rule map_indexed_cong [OF assms(1)])
    fix i x y assume "g x = g y"
    then have "p (i, x) = p (i, y)" by (rule assms(2))
    then show "(if p (i, x) then [fst (i, x)] else []) = (if p (i, y) then [fst (i, y)] else [])" by simp
  qed
  then show ?thesis by (simp only: filter_as_concat)
qed

lemma own_player_fields:
  assumes "own_player h p = own_player h q"
  shows "tp_Specialty p = tp_Specialty q" "tp_FreeDraws p = tp_FreeDraws q"
    "tp_RevealUntil p = tp_RevealUntil q" "tp_RevealUsed p = tp_RevealUsed q" "tp_Role p = tp_Role q"
    "tp_Connected p = tp_Connected q" "tp_Eliminated p = tp_Eliminated q"
    "length (tp_Reserve p) = length (tp_Reserve q)"
    "(if h then tp_PointsBeforeResult p else tp_Points p) = (if h then tp_PointsBeforeResult q else tp_Points q)"
    "\<not> tp_Eliminated p \<Longrightarrow> tp_Hand p = tp_Hand q"
  using arg_cong [where f = tp_Specialty, OF assms] arg_cong [where f = tp_FreeDraws, OF assms]
    arg_cong [where f = tp_RevealUntil, OF assms] arg_cong [where f = tp_RevealUsed, OF assms]
    arg_cong [where f = tp_Role, OF assms] arg_cong [where f = tp_Connected, OF assms]
    arg_cong [where f = tp_Eliminated, OF assms]
    arg_cong [where f = "\<lambda>p. length (tp_Reserve p)", OF assms]
    arg_cong [where f = tp_PointsBeforeResult, OF assms] arg_cong [where f = tp_Points, OF assms]
    arg_cong [where f = tp_Hand, OF assms]
  by (simp_all add: own_player_def split: if_splits)

lemma public_player_fields:
  assumes "public_player p = public_player q"
  shows "tp_Connected p = tp_Connected q" "tp_Eliminated p = tp_Eliminated q"
    "tp_Eliminated p \<Longrightarrow> tp_Role p = tp_Role q"
  using assms by (auto simp: public_player_def split: if_splits)

lemma public_players_at:
  assumes "map public_player xs = map public_player ys" and "in_range r xs"
  shows "public_player (at xs r) = public_player (at ys r)"
proof -
  have "length xs = length ys" using assms(1) by (metis length_map)
  then show ?thesis using assms by (metis at_def in_range_def nat_less_iff nth_map)
qed

text \<open>Each part of the projection depends on the common view only.\<close>

lemma view_public_seats:
  assumes "map public_player (st_Players s) = map public_player (st_Players t)"
  shows "public_seats s = public_seats t"
  unfolding public_seats_def
  by (rule map_indexed_cong [OF assms]) (auto simp: public_player_def split: if_splits)

lemma view_ready_seats:
  assumes "map public_player (st_Players s) = map public_player (st_Players t)"
    and "st_Ready s = st_Ready t"
  shows "ready_seats s = ready_seats t"
  unfolding ready_seats_def is_ready_def assms(2)
  by (rule filter_indexed_cong [OF assms(1)]) (auto simp: public_player_def split: if_splits)

lemma view_ballot_votes:
  assumes "map public_player (st_Players s) = map public_player (st_Players t)"
    and "st_Votes s = st_Votes t"
  shows "ballot_votes s (\<lambda>_. True) = ballot_votes t (\<lambda>_. True)"
  unfolding ballot_votes_def assms(2)
  by (rule arg_cong [where f = concat], rule map_indexed_cong [OF assms(1)]) simp

lemma same_view_hidden: "same_view seat now s t \<Longrightarrow> result_hidden s now = result_hidden t now"
  unfolding same_view_def result_hidden_def by (metis public_state_fields)

lemma same_view_target:
  assumes "same_view seat now s t" "st_RevealTarget s = Some r"
  shows "tp_Eliminated (player s r) = tp_Eliminated (player t r)"
  using assms public_player_fields(2) [OF public_players_at]
  unfolding same_view_def player_def by fastforce

lemma view_ballot:
  assumes "same_view seat now s t"
  shows "project_ballot s now = project_ballot t now"
proof -
  note v = assms [unfolded same_view_def, THEN conjunct1]
  note f = public_state_fields [OF v]
  have "ballot_votes s (\<lambda>_. True) = ballot_votes t (\<lambda>_. True)"
    using assms f(11) by (intro view_ballot_votes) (simp_all add: same_view_def)
  then show ?thesis
    using f same_view_hidden [OF assms] by (simp add: project_ballot_def)
qed

lemma view_reveal:
  assumes "same_view seat now s t"
  shows "project_reveal s seat now = project_reveal t seat now"
proof -
  note v = assms [unfolded same_view_def]
  note f = public_state_fields [OF v [THEN conjunct1]]
  have o: "own_player (result_hidden s now) (player s seat) = own_player (result_hidden s now) (player t seat)"
    using v same_view_hidden [OF assms] by simp
  note q = own_player_fields [OF o]
  have sh: "reveal_shown s = reveal_shown t" using f by (simp add: reveal_shown_def)
  show ?thesis
  proof (cases "reveal_shown s")
    case None
    then show ?thesis using sh by (simp add: project_reveal_def Let_def)
  next
    case (Some r)
    then have "st_RevealTarget s = Some r" by (simp add: reveal_shown_def split: if_splits)
    from same_view_target [OF assms this] have e: "tp_Eliminated (player s r) = tp_Eliminated (player t r)" .
    have "views_reveal s seat now \<longrightarrow> st_RevealCards s = st_RevealCards t"
      "(st_RevealCards s = None) = (st_RevealCards t = None)" using v by simp_all
    then show ?thesis using Some sh e q unfolding views_reveal_def
      by (auto simp: project_reveal_def Let_def)
  qed
qed

lemma view_capabilities:
  assumes "same_view seat now s t"
  shows "project_capabilities m s seat now = project_capabilities m t seat now"
proof -
  note v = assms [unfolded same_view_def]
  note f = public_state_fields [OF v [THEN conjunct1]]
  have o: "own_player (result_hidden s now) (player s seat) = own_player (result_hidden s now) (player t seat)"
    using v same_view_hidden [OF assms] by simp
  note q = own_player_fields [OF o]
  have r: "(tp_Reserve (player s seat) = []) = (tp_Reserve (player t seat) = [])"
    using q(8) by (metis length_0_conv)
  have c: "current s = current t" using v by simp
  have g: "general_capabilities m s (player s seat) = general_capabilities m t (player t seat)"
    using same_view_target [OF assms] f q
    by (simp add: general_capabilities_def split: option.splits) 
  have u: "turn_specialty m s (player s seat) now k = turn_specialty m t (player t seat) now k" for k
    using f q r by (cases k) simp_all
  have w: "\<not> tp_Eliminated (player s seat) \<Longrightarrow>
      phase_capabilities m s seat (player s seat) k = phase_capabilities m t seat (player t seat) k" for k
    using f q r c by (cases k) simp_all
  show ?thesis using f q c g u w by (simp add: project_capabilities_def Let_def)
qed

lemma view_private:
  assumes "same_view seat now s t"
  shows "project_private m s seat now = project_private m t seat now"
proof -
  note v = assms [unfolded same_view_def]
  note f = public_state_fields [OF v [THEN conjunct1]]
  have o: "own_player (result_hidden s now) (player s seat) = own_player (result_hidden s now) (player t seat)"
    using v same_view_hidden [OF assms] by simp
  note q = own_player_fields [OF o]
  have h: "\<not> tp_Eliminated (player t seat) \<Longrightarrow>
      map (\<lambda>k. cp_Card (copy_at (st_Copies s) k)) (tp_Hand (player s seat))
      = map (\<lambda>k. cp_Card (copy_at (st_Copies t) k)) (tp_Hand (player t seat))"
    using v q(7) by blast
  show ?thesis
    using f q h view_capabilities [OF assms] view_reveal [OF assms] same_view_hidden [OF assms]
    by (auto simp: project_private_def Let_def)
qed

end
