(* ===== verification/Ballot.thy ===== *)
theory Ballot
  imports Trades Projection
begin

section \<open>Ballots and the end of a match (\<open>game/text_actions.go\<close>)\<close>

text \<open>
  Counting a ballot, applying its result, ending the match. The functions thread the pending
  candidate \<open>p\<close>, whose lists of awards and abandons they extend.
\<close>

definition add_award :: "text_match \<Rightarrow> text_pending \<Rightarrow> int \<Rightarrow> award_kind \<Rightarrow> int \<Rightarrow> int \<Rightarrow> bool \<Rightarrow> gotime \<Rightarrow> text_pending" where
  "add_award m p seat kind ordinal amount discreet now =
     p\<lparr>pd_Awards := pd_Awards p @
        [\<lparr>aw_MatchID = mc_MatchID (tm_contract m), aw_Seat = seat, aw_Kind = kind, aw_Ordinal = ordinal,
          aw_OccurredAt = now,
          aw_Amount = (if el_Rewards (mc_Eligibility (tm_contract m)) then amount else 0),
          aw_Discreet = discreet\<rparr>]\<rparr>"

subsection \<open>\<open>recordBallot\<close>\<close>

definition counted_ballot :: "text_state \<Rightarrow> ballot_result \<Rightarrow> ballot_state" where
  "counted_ballot s result =
     \<lparr>bs_Kind = st_Phase s, bs_Candidates = st_Candidates s,
      bs_Votes = Some (ballot_votes s active_connected),
      bs_Result = Some (result\<lparr>br_RevealedRole := NoRole\<rparr>)\<rparr>"

definition recordBallot :: "text_match \<Rightarrow> text_state \<Rightarrow> ballot_result \<Rightarrow> gotime \<Rightarrow> text_state" where
  "recordBallot m s result now =
     add_event m s (-1) EvBallotResult (if unix_milli now \<ge> st_Deadline s then RTimeout else RPlayer)
       now (revision s) [] (\<lambda>e. e\<lparr>e_Ballot := Some (counted_ballot s result)\<rparr>)"

subsection \<open>\<open>resolveVote\<close>\<close>

text \<open>The tally of the votes whose voters still count, and its maximum.\<close>

fun tally_step :: "text_state \<Rightarrow> int \<times> int \<Rightarrow> (int \<times> int) list \<times> int \<Rightarrow> (int \<times> int) list \<times> int" where
  "tally_step s (seat, target) (tally, maximum) =
     (if active_connected (player s seat)
      then (AList.update target (tget tally target + 1) tally, max maximum (tget tally target + 1))
      else (tally, maximum))"

definition tally_votes :: "text_state \<Rightarrow> (int \<times> int) list \<times> int" where
  "tally_votes s = fold (tally_step s) (st_Votes s) ([], 0)"

definition all_seats :: "text_state \<Rightarrow> int list" where
  "all_seats s = map int [0..<length (st_Players s)]"

definition tied_seats :: "text_state \<Rightarrow> int list" where
  "tied_seats s = (case tally_votes s of (tally, maximum) \<Rightarrow>
     filter (\<lambda>i. tget tally i > 0 \<and> tget tally i = maximum) (all_seats s))"

definition no_result :: "ballot_outcome \<Rightarrow> ballot_result" where
  "no_result o' = \<lparr>br_Outcome = o', br_Seat = None, br_RevealedRole = NoRole\<rparr>"

definition final_result :: "text_state \<Rightarrow> int list \<Rightarrow> ballot_result" where
  "final_result s tied =
     (case tied of
        [target] \<Rightarrow> \<lparr>br_Outcome = OutElimination, br_Seat = Some target, br_RevealedRole = tp_Role (player s target)\<rparr>
      | _ \<Rightarrow> no_result OutMiss)"

text \<open>The loop over voters: points, counters and awards of one seat.\<close>

definition score_vote :: "text_match \<Rightarrow> gotime \<Rightarrow> int \<Rightarrow> text_state \<times> text_pending \<Rightarrow> text_state \<times> text_pending" where
  "score_vote m now seat sp =
    (let s1 = upd_player seat (\<lambda>v. v\<lparr>tp_PointsBeforeResult := tp_Points v\<rparr>) (fst sp) in
     case map_of (st_Votes s1) seat of
       None \<Rightarrow> (s1, snd sp)
     | Some target \<Rightarrow>
        (if active_connected (player s1 seat) then
          (let s2 = upd_player seat (\<lambda>v. v\<lparr>tp_VotesCast := tp_VotesCast v + 1\<rparr>) s1 in
           if tp_Role (player s2 target) = Donower then
             (upd_player seat (\<lambda>v. v\<lparr>tp_CorrectVotes := tp_CorrectVotes v + 1,
                tp_Points := tp_Points v + pn_CorrectVote (tm_points m)\<rparr>) s2,
              add_award m (snd sp) seat AwardCorrectVote (st_Round s2) (no_CorrectVote (tm_noin m)) False now)
           else (s2, snd sp))
         else (s1, snd sp)))"

definition score_survival :: "text_match \<Rightarrow> gotime \<Rightarrow> int list \<Rightarrow> int \<Rightarrow> text_state \<times> text_pending \<Rightarrow> text_state \<times> text_pending" where
  "score_survival m now tied seat sp =
    (let v = player (fst sp) seat in
     if \<not> tp_Eliminated v \<and> tp_Role v = Donower \<and> tied \<noteq> [seat] then
       (upd_player seat (\<lambda>v. v\<lparr>tp_Survivals := tp_Survivals v + 1\<rparr>) (fst sp),
        add_award m (snd sp) seat AwardDonowerVoteSurvived (st_Round (fst sp))
          (no_DonowerVoteSurvived (tm_noin m)) True now)
     else sp)"

definition open_runoff :: "text_match \<Rightarrow> text_state \<Rightarrow> int list \<Rightarrow> gotime \<Rightarrow> text_state" where
  "open_runoff m s tied now =
     set_phase m ((recordBallot m s (no_result OutRunoff) now)
        \<lparr>st_Candidates := tied, st_Votes := [], st_BallotKind := PhaseRunoff\<rparr>)
       PhaseRunoff now (ti_KnowoffRunoff (tm_timers m))"

definition close_ballot :: "text_match \<Rightarrow> text_state \<Rightarrow> int list \<Rightarrow> gotime \<Rightarrow> text_pending \<Rightarrow> text_state \<times> text_pending" where
  "close_ballot m s tied now p =
    (let r = final_result s tied;
         s1 = recordBallot m (s\<lparr>st_BallotResult := Some r\<rparr>) r now;
         sp2 = fold (score_vote m now) (all_seats s1) (s1, p);
         sp3 = fold (score_survival m now tied) (all_seats s1) sp2;
         s4 = set_phase m (fst sp3) PhaseResult now (ti_VoteResultWindow (tm_timers m))
     in (s4\<lparr>st_ResultRevealAt := unix_milli (add_seconds now (ti_VoteResultFalling (tm_timers m)))\<rparr>, snd sp3))"

definition resolveVote :: "text_match \<Rightarrow> text_state \<Rightarrow> gotime \<Rightarrow> text_pending \<Rightarrow> text_state \<times> text_pending" where
  "resolveVote m s now p =
    (let tied = tied_seats s in
     if length tied > 1 \<and> st_Phase s = PhaseKnowoff then (open_runoff m s tied now, p)
     else close_ballot m s tied now p)"

subsection \<open>\<open>finish\<close>\<close>

definition final_points :: "text_match \<Rightarrow> match_outcome \<Rightarrow> role \<Rightarrow> text_player \<Rightarrow> int" where
  "final_points m outcome winner v =
    (let bonus = (if outcome = MatchCompleted \<and> tp_Role v = winner then
                    (if winner = Nower then pn_NowerWinBonus (tm_points m) else pn_DonowerTeamWin (tm_points m))
                  else 0);
         n = (if tp_Points v + bonus < 0 then 0 else tp_Points v + bonus);
         n' = (if outcome = MatchInterrupted \<or> (outcome = MatchCompleted \<and> tp_Absent v) then 0 else n)
     in if \<not> el_Rewards (mc_Eligibility (tm_contract m)) then 0 else n')"

definition player_result_of :: "text_match \<Rightarrow> match_outcome \<Rightarrow> role \<Rightarrow> int \<Rightarrow> text_player \<Rightarrow> player_result" where
  "player_result_of m outcome winner seat v =
     \<lparr>pr_Seat = seat, pr_Role = tp_Role v, pr_Points = final_points m outcome winner v,
      pr_CorrectVotes = tp_CorrectVotes v, pr_VotesCast = tp_VotesCast v, pr_Survivals = tp_Survivals v,
      pr_Pokes = tp_Pokes v, pr_Won = (tp_Role v = winner), pr_Connected = tp_Connected v,
      pr_Absent = tp_Absent v, pr_Eliminated = tp_Eliminated v\<rparr>"

definition match_result :: "text_match \<Rightarrow> text_state \<Rightarrow> match_outcome \<Rightarrow> role \<Rightarrow> gotime \<Rightarrow> text_result" where
  "match_result m s outcome winner now =
     \<lparr>re_Contract = tm_contract m, re_Outcome = outcome, re_Winner = winner, re_OccurredAt = now,
      re_OriginalHumanCount = mc_OriginalSize (tm_contract m),
      re_Players = map (\<lambda>(i, v). player_result_of m outcome winner i v) (indexed (st_Players s))\<rparr>"

definition finish :: "text_match \<Rightarrow> text_state \<Rightarrow> match_outcome \<Rightarrow> role \<Rightarrow> gotime \<Rightarrow> text_pending \<Rightarrow> text_state \<times> text_pending" where
  "finish m s outcome winner now p =
    (if st_Result s \<noteq> None then (s, p)
     else
      (let s1 = (if st_Offer s \<noteq> None then resolveOffer m s (-1) ResCancel RForcedTransition now else s);
           r = match_result m s1 outcome winner now;
           s2 = s1\<lparr>st_Players := map (\<lambda>v. v\<lparr>tp_Points := final_points m outcome winner v\<rparr>) (st_Players s1),
                    st_Result := Some r\<rparr>
       in ((set_phase m s2 PhaseVerdict now 0)\<lparr>st_Turn := 0\<rparr>, p\<lparr>pd_Result := Some r\<rparr>)))"

subsection \<open>\<open>finalizeVote\<close> and \<open>absenceEnd\<close>\<close>

definition eliminate_voted :: "text_state \<Rightarrow> text_state" where
  "eliminate_voted s =
     (case st_BallotResult s of
        None \<Rightarrow> s
      | Some r \<Rightarrow> (case br_Seat r of None \<Rightarrow> s | Some k \<Rightarrow> upd_player k (\<lambda>v. v\<lparr>tp_Eliminated := True\<rparr>) s))"

definition uncaught :: "text_state \<Rightarrow> int" where
  "uncaught s = int (length (filter (\<lambda>v. \<not> tp_Eliminated v \<and> tp_Role v = Donower) (st_Players s)))"

definition finalizeVote :: "text_match \<Rightarrow> text_state \<Rightarrow> gotime \<Rightarrow> text_pending \<Rightarrow> go_error + (text_state \<times> text_pending)" where
  "finalizeVote m s now p =
    (let s1 = eliminate_voted s; s2 = s1\<lparr>st_RemainingVotes := st_RemainingVotes s1 - 1\<rparr> in
     if uncaught s2 = 0 then Inr (finish m s2 MatchCompleted Nower now p)
     else if st_RemainingVotes s2 < uncaught s2 then Inr (finish m s2 MatchCompleted Donower now p)
     else (case beginRound m (s2\<lparr>st_Round := st_Round s2 + 1\<rparr>) now of
             Inl e \<Rightarrow> Inl e | Inr s3 \<Rightarrow> Inr (s3, p)))"

definition count_players :: "(text_player \<Rightarrow> bool) \<Rightarrow> text_state \<Rightarrow> int" where
  "count_players ok s = int (length (filter ok (st_Players s)))"

definition absence_outcome :: "text_state \<Rightarrow> (match_outcome \<times> role) option" where
  "absence_outcome s =
    (let activeD = count_players (\<lambda>v. \<not> tp_Eliminated v \<and> tp_Role v = Donower) s;
         absentD = count_players (\<lambda>v. \<not> tp_Eliminated v \<and> tp_Role v = Donower \<and> tp_Absent v) s;
         activeN = count_players (\<lambda>v. \<not> tp_Eliminated v \<and> tp_Role v \<noteq> Donower) s;
         absentN = count_players (\<lambda>v. \<not> tp_Eliminated v \<and> tp_Role v \<noteq> Donower \<and> tp_Absent v) s;
         connected = count_players tp_Connected s;
         gracesDone = list_all (\<lambda>v. tp_Connected v \<or> tp_Absent v) (st_Players s)
     in if activeD > 0 \<and> activeD = absentD then Some (MatchCompleted, Nower)
        else if activeN > 0 \<and> activeN = absentN then Some (MatchCompleted, Donower)
        else if connected < 3 \<and> gracesDone then Some (MatchScoredLowPopulation, NoWinner)
        else None)"

definition absenceEnd :: "text_match \<Rightarrow> text_state \<Rightarrow> gotime \<Rightarrow> text_pending \<Rightarrow> (text_state \<times> text_pending) option" where
  "absenceEnd m s now p =
     (case absence_outcome s of
        None \<Rightarrow> None | Some (outcome, winner) \<Rightarrow> Some (finish m s outcome winner now p))"

end
