(* ===== verification/Advance.thy ===== *)
theory Advance
  imports Ballot
begin

section \<open>The clock: \<open>advance\<close> (\<open>game/text_actions.go\<close>)\<close>

text \<open>
  \<open>advance\<close> marks expired graces, ends the match when a side is absent, and then makes the
  phase transitions that are due, at most twelve of them; the thirteenth would be an error.
\<close>

definition allReady :: "text_state \<Rightarrow> bool" where
  "allReady s \<longleftrightarrow> list_all (\<lambda>(i, v). \<not> tp_Eliminated v \<and> tp_Connected v \<longrightarrow> is_ready s i) (indexed (st_Players s))"

subsection \<open>Expired graces\<close>

definition grace_due :: "gotime \<Rightarrow> text_player \<Rightarrow> bool" where
  "grace_due now v \<longleftrightarrow> \<not> tp_Connected v \<and> \<not> tp_Absent v \<and> tp_GraceDeadline v > 0
     \<and> unix_milli now \<ge> tp_GraceDeadline v"

definition expire_grace :: "text_match \<Rightarrow> gotime \<Rightarrow> int \<Rightarrow> text_state \<times> text_pending \<Rightarrow> text_state \<times> text_pending" where
  "expire_grace m now i sp =
    (let v = player (fst sp) i in
     if grace_due now v then
       (if tm_penalizeAbandon m \<and> \<not> tp_AbandonRecorded v then
          (upd_player i (\<lambda>v. v\<lparr>tp_Absent := True, tp_AbandonRecorded := True\<rparr>) (fst sp),
           (snd sp)\<lparr>pd_Abandons := pd_Abandons (snd sp) @
             [\<lparr>ab_MatchID = mc_MatchID (tm_contract m), ab_Seat = i,
               ab_OccurredAt = time_unix_milli (tp_GraceDeadline v)\<rparr>]\<rparr>)
        else (upd_player i (\<lambda>v. v\<lparr>tp_Absent := True\<rparr>) (fst sp), snd sp))
     else sp)"

definition expire_graces :: "text_match \<Rightarrow> gotime \<Rightarrow> text_state \<times> text_pending \<Rightarrow> text_state \<times> text_pending" where
  "expire_graces m now sp = fold (expire_grace m now) (all_seats (fst sp)) sp"

subsection \<open>One transition\<close>

text \<open>
  An iteration of the loop returns (\<open>Halt\<close>), reaches the test of \<open>s.Result\<close> at the end of the
  body (\<open>Fall\<close>), or jumps over that test (\<open>Continue\<close>).
\<close>

datatype step_result = Halt text_state text_pending | Fall text_state text_pending
  | Continue text_state text_pending | Fail go_error

definition start_knowoff :: "text_match \<Rightarrow> text_state \<Rightarrow> gotime \<Rightarrow> text_state" where
  "start_knowoff m s now =
     set_phase m (s\<lparr>st_Votes := [], st_BallotKind := PhaseKnowoff,
        st_Candidates := seats_where (\<lambda>v. \<not> tp_Eliminated v) (st_Players s)\<rparr>)
       PhaseKnowoff now (ti_KnowoffBallot (tm_timers m))"

fun advance_phase :: "text_match \<Rightarrow> text_state \<Rightarrow> gotime \<Rightarrow> text_pending \<Rightarrow> bool \<Rightarrow> phase \<Rightarrow> step_result" where
  "advance_phase m s now p expired PhaseRoundStart =
     (if \<not> expired then Halt s p else Fall (nextTurn m s now) p)"
| "advance_phase m s now p expired PhasePlay =
     (if mode m = ModeBadBargains \<and> \<not> has_recipient s (current s)
        then Continue (autoPass m s RNoRecipient now) p
      else if \<not> expired then Halt s p
      else Fall (autoPass m s RTimeout now) p)"
| "advance_phase m s now p expired PhaseTradeResponse =
     (if \<not> expired then Halt s p else Fall (resolveOffer m s (-1) ResTimeout RTimeout now) p)"
| "advance_phase m s now p expired PhaseDiscussion =
     (if \<not> expired \<and> \<not> allReady s then Halt s p else Fall (start_knowoff m s now) p)"
| "advance_phase m s now p expired PhaseKnowoff =
     (if \<not> expired \<and> \<not> allReady s then Halt s p
      else case resolveVote m s now p of (s', p') \<Rightarrow> Fall s' p')"
| "advance_phase m s now p expired PhaseRunoff =
     (if \<not> expired \<and> \<not> allReady s then Halt s p
      else case resolveVote m s now p of (s', p') \<Rightarrow> Fall s' p')"
| "advance_phase m s now p expired PhaseResult =
     (let s1 = (if unix_milli now \<ge> st_ResultRevealAt s then s\<lparr>st_ResultRevealed := True\<rparr> else s) in
      if \<not> expired \<and> \<not> allReady s1 then Halt s1 p
      else case finalizeVote m s1 now p of Inl e \<Rightarrow> Fail e | Inr (s', p') \<Rightarrow> Fall s' p')"
| "advance_phase m s now p expired PhaseVerdict = Halt s p"
| "advance_phase m s now p expired (PhaseOther _) = Halt s p"

definition advance_step :: "text_match \<Rightarrow> text_state \<Rightarrow> gotime \<Rightarrow> text_pending \<Rightarrow> step_result" where
  "advance_step m s now p = advance_phase m s now p (unix_milli now \<ge> st_Deadline s) (st_Phase s)"

subsection \<open>The loop\<close>

definition bound_exceeded :: go_error where
  "bound_exceeded = GoError ''text phase transition bound exceeded''"

fun advance_loop :: "nat \<Rightarrow> text_match \<Rightarrow> text_state \<Rightarrow> gotime \<Rightarrow> text_pending \<Rightarrow> go_error + (text_state \<times> text_pending)" where
  "advance_loop 0 m s now p = Inl bound_exceeded"
| "advance_loop (Suc n) m s now p =
     (case advance_step m s now p of
        Fail e \<Rightarrow> Inl e
      | Halt s' p' \<Rightarrow> Inr (s', p')
      | Continue s' p' \<Rightarrow> advance_loop n m s' now p'
      | Fall s' p' \<Rightarrow> if st_Result s' \<noteq> None then Inr (s', p') else advance_loop n m s' now p')"

definition advance :: "text_match \<Rightarrow> text_state \<Rightarrow> gotime \<Rightarrow> text_pending \<Rightarrow> go_error + (text_state \<times> text_pending)" where
  "advance m s now p =
     (if st_Result s \<noteq> None then Inr (s, p)
      else case expire_graces m now (s, p) of
        (s1, p1) \<Rightarrow> (case absenceEnd m s1 now p1 of
            Some r \<Rightarrow> Inr r
          | None \<Rightarrow> advance_loop 12 m s1 now p1))"

end
