(* ===== verification/Specialties.thy ===== *)
theory Specialties
  imports Advance
begin

section \<open>Specialty cards (\<open>game/text_specialty.go\<close>)\<close>

subsection \<open>\<open>dealTextSpecialty\<close>\<close>

text \<open>
  The weighted draw of a seat's specialty. The weights and the uniform draw are \<open>float64\<close> in the
  source; the definition is over any linearly ordered field, and the claims about it are for
  exact arithmetic. \<open>rnd\<close> is \<open>rand.New(rand.NewSource(seed + (seat+1)*15485863)).Float64()\<close>.
\<close>

definition specialty_order :: "specialty list" where
  "specialty_order = [SpPass, SpReveal, SpFreeCard, SpShuffle, SpRevote]"

fun pick_specialty :: "(specialty \<Rightarrow> 'a::linordered_field) \<Rightarrow> 'a \<Rightarrow> specialty list \<Rightarrow> specialty" where
  "pick_specialty w draw [] = NoSpecialty"
| "pick_specialty w draw (k # ks) = (if draw - w k < 0 then k else pick_specialty w (draw - w k) ks)"

definition dealTextSpecialty :: "'a \<Rightarrow> (specialty \<Rightarrow> 'a::linordered_field) \<Rightarrow> specialty" where
  "dealTextSpecialty rnd w =
     (let total = foldl (\<lambda>t k. t + w k) 0 specialty_order in
      if total \<le> 0 then NoSpecialty else pick_specialty w (rnd * total) specialty_order)"

fun isSpecialtyAction :: "action_kind \<Rightarrow> bool" where
  "isSpecialtyAction ActionPass = True"
| "isSpecialtyAction ActionReveal = True"
| "isSpecialtyAction ActionFreeCard = True"
| "isSpecialtyAction ActionShuffle = True"
| "isSpecialtyAction ActionRevote = True"
| "isSpecialtyAction ActionViewReveal = True"
| "isSpecialtyAction _ = False"

fun specialtyID :: "action_kind \<Rightarrow> specialty" where
  "specialtyID ActionFreeCard = SpFreeCard"
| "specialtyID ActionPass = SpPass"
| "specialtyID ActionReveal = SpReveal"
| "specialtyID ActionShuffle = SpShuffle"
| "specialtyID ActionRevote = SpRevote"
| "specialtyID k = SpOther (action_kind_string k)"

fun specialtyIDValid :: "specialty \<Rightarrow> bool" where
  "specialtyIDValid (SpOther _) = False"
| "specialtyIDValid _ = True"

subsection \<open>\<open>shuffleSpecialty\<close>\<close>

text \<open>
  All cards in active hands and on the board are pooled and shuffled; the first ones are laid
  out again, the rest dealt round the active seats.
\<close>

definition shuffle_pool :: "text_state \<Rightarrow> copy_id list" where
  "shuffle_pool s = concat (map tp_Hand (filter (\<lambda>v. \<not> tp_Eliminated v) (st_Players s)))
     @ map (\<lambda>b. cd_CopyID (bc_Card b)) (board_cards s)"

definition clear_hands :: "text_state \<Rightarrow> text_state" where
  "clear_hands s = s\<lparr>st_Players := map (\<lambda>v. if tp_Eliminated v then v else v\<lparr>tp_Hand := []\<rparr>) (st_Players s)\<rparr>"

fun shuffle_layout :: "mode_id \<Rightarrow> int list \<Rightarrow> nat" where
  "shuffle_layout ModeMakeRoom active = 3"
| "shuffle_layout ModeTopThat active = 1"
| "shuffle_layout ModeBadBargains active = length active"
| "shuffle_layout _ active = 0"

definition active_seats :: "text_state \<Rightarrow> int list" where
  "active_seats s = seats_where (\<lambda>v. \<not> tp_Eliminated v) (st_Players s)"

definition lay_out :: "mode_id \<Rightarrow> int list \<Rightarrow> nat \<Rightarrow> copy_id \<Rightarrow> text_copy \<Rightarrow> text_state \<Rightarrow> text_state" where
  "lay_out md active i k c s =
     put_copy k (c\<lparr>cp_Zone := ZBoard, cp_Owner := (if md = ModeBadBargains then active ! i else -1)\<rparr>)
      (set_board_cards (board_cards s @
       [\<lparr>bc_Card = cp_Card c, bc_Actor = mk_actor (-1), bc_Rating = None,
         bc_Slot = (if md = ModeMakeRoom then Some (int i) else None),
         bc_Seat = (if md = ModeBadBargains then Some (active ! i) else None)\<rparr>]) s)"

definition deal_back :: "int \<Rightarrow> copy_id \<Rightarrow> text_copy \<Rightarrow> text_state \<Rightarrow> text_state" where
  "deal_back owner k c s =
     put_copy k (c\<lparr>cp_Zone := ZHand, cp_Owner := owner\<rparr>)
       (upd_player owner (\<lambda>v. v\<lparr>tp_Hand := tp_Hand v @ [k]\<rparr>) s)"

fun redeal :: "mode_id \<Rightarrow> int list \<Rightarrow> nat \<Rightarrow> nat \<Rightarrow> copy_id list \<Rightarrow> text_state \<Rightarrow> card list \<Rightarrow> text_state \<times> card list" where
  "redeal md active n i [] s cards = (s, cards)"
| "redeal md active n i (k # ks) s cards =
     (let c = release (copy_at (st_Copies s) k) in
      if i < n then redeal md active n (Suc i) ks (lay_out md active i k c s) (cards @ [cp_Card c])
      else redeal md active n (Suc i) ks (deal_back (active ! ((i - n) mod length active)) k c s) cards)"

definition shuffleSpecialty :: "text_match \<Rightarrow> text_state \<Rightarrow> gotime \<Rightarrow> go_error + text_state" where
  "shuffleSpecialty m s now =
    (let pool = go_shuffle (tm_rng m (tm_seed m + int (length (st_History s)) * 32452843)) 0 (shuffle_pool s);
         active = active_seats s; n = shuffle_layout (mode m) active in
     if length pool < n then Inl (invalid ErrInvalidAction ''shuffle_pool'')
     else if active = [] \<and> n < length pool then Inl (GoPanic ''integer divide by zero'')
     else
      (case redeal (mode m) active n 0 pool (set_board_cards [] (bump_revision (clear_hands s))) [] of
        (s1, cards) \<Rightarrow>
          (let s2 = add_event m s1 (-1) EvShuffle RPlayer now (revision s) cards (\<lambda>e. e);
               s3 = nextTurn m (s2\<lparr>st_Turn := 0\<rparr>) now
           in Inr (if st_Phase s3 = PhasePlay
                   then s3\<lparr>st_Deadline := st_Deadline s3 + specialtyTimer (ti_ShuffleBonusSeconds (tm_timers m)) 10 * 1000\<rparr>
                   else s3))))"

subsection \<open>\<open>specialty\<close>\<close>

text \<open>
  One function per card; \<open>specialty\<close> dispatches in the order of the source. Where the source
  indexes \<open>s.Players\<close> by a seat it was given (the acting seat, the target of the request, the
  target of the reveal), a seat out of range is a panic here, tested where the source evaluates
  the index; an absent \<open>TargetSeat\<close> is a nil dereference.
\<close>

definition view_reveal :: "text_match \<Rightarrow> text_state \<Rightarrow> int \<Rightarrow> gotime \<Rightarrow> go_error + text_state" where
  "view_reveal m s seat now =
    (case st_RevealTarget s of
       None \<Rightarrow> Inl (invalid ErrUnauthorized ''reveal_view'')
     | Some t \<Rightarrow>
     if tp_RevealUsed (player s seat) then Inl (invalid ErrUnauthorized ''reveal_view'')
     else if \<not> in_range t (st_Players s) then Inl (GoPanic ''index out of range'')
     else if tp_Eliminated (player s t) then Inl (invalid ErrUnauthorized ''reveal_view'')
     else
      (let s1 = upd_player seat (\<lambda>v. v\<lparr>tp_RevealUsed := True,
                  tp_RevealUntil := unix_milli (add_seconds now (specialtyTimer (ti_RevealView (tm_timers m)) 3))\<rparr>) s
       in if snapshot_bytes (project m s1 seat now) + 128 > MaxFrameBytes (tm_limits m)
          then Inl (invalid ErrFrameTooLarge ''reveal'') else Inr s1))"

definition use_shuffle :: "text_match \<Rightarrow> text_state \<Rightarrow> int \<Rightarrow> gotime \<Rightarrow> go_error + text_state" where
  "use_shuffle m s seat now =
    (if tp_Role (player s seat) \<noteq> Donower \<or> st_ShuffleUsed s then Inl (invalid ErrUnauthorized ''shuffle'')
     else
      (let s1 = (if st_Offer s \<noteq> None then resolveOffer m s (-1) ResCancel RForcedTransition now else s);
           s2 = (upd_player seat (\<lambda>v. v\<lparr>tp_Specialty := NoSpecialty\<rparr>) s1)\<lparr>st_ShuffleUsed := True\<rparr>
       in shuffleSpecialty m s2 now))"

definition use_revote :: "text_match \<Rightarrow> text_state \<Rightarrow> int \<Rightarrow> gotime \<Rightarrow> go_error + text_state" where
  "use_revote m s seat now =
    (if tp_Role (player s seat) \<noteq> Nower \<or> st_RevoteUsed s then Inl (invalid ErrUnauthorized ''revote'')
     else
      (let s1 = (upd_player seat (\<lambda>v. v\<lparr>tp_Specialty := NoSpecialty\<rparr>) s)\<lparr>st_RevoteUsed := True\<rparr>;
           s2 = add_event m s1 seat EvRevote RPlayer now (revision s) [] (\<lambda>e. e);
           s3 = s2\<lparr>st_Votes := [], st_BallotResult := None, st_BallotKind := PhaseKnowoff,
                  st_Candidates := active_seats s2\<rparr>
       in Inr (set_phase m s3 PhaseKnowoff now (ti_KnowoffBallot (tm_timers m)))))"

definition drop_specialty :: "int \<Rightarrow> text_state \<Rightarrow> text_state" where
  "drop_specialty seat = upd_player seat (\<lambda>v. v\<lparr>tp_Specialty := NoSpecialty\<rparr>)"

definition use_pass :: "text_match \<Rightarrow> text_state \<Rightarrow> int \<Rightarrow> gotime \<Rightarrow> go_error + text_state" where
  "use_pass m s seat now =
     Inr (nextTurn m (add_event m (drop_specialty seat s) seat EvPass RPlayer now (revision s) [] (\<lambda>e. e)) now)"

definition reveal_of :: "text_state \<Rightarrow> int \<Rightarrow> reveal_view" where
  "reveal_of s target = \<lparr>rv_TargetSeat = target, rv_ExpiresAtMS = 0,
     rv_Hand = Some (map (\<lambda>k. cp_Card (copy_at (st_Copies s) k)) (tp_Hand (player s target))),
     rv_Reserve = Some (map (\<lambda>k. cp_Card (copy_at (st_Copies s) k)) (tp_Reserve (player s target))),
     rv_Specialty = tp_Specialty (player s target)\<rparr>"

definition use_reveal :: "text_match \<Rightarrow> text_state \<Rightarrow> int \<Rightarrow> int \<Rightarrow> gotime \<Rightarrow> go_error + text_state" where
  "use_reveal m s seat target now =
    (if target \<ge> int (length (st_Players s)) \<or> target = seat
       then Inl (invalid ErrUnauthorized ''reveal_target'')
     else if \<not> in_range target (st_Players s) then Inl (GoPanic ''index out of range'')
     else if tp_Eliminated (player s target)
        \<or> st_Deadline s - unix_milli now \<le> specialtyTimer (ti_RevealLockout (tm_timers m)) 5 * 1000
     then Inl (invalid ErrUnauthorized ''reveal_target'')
     else
      (let s1 = drop_specialty seat s;
           s2 = s1\<lparr>st_Players := map (\<lambda>v. v\<lparr>tp_RevealUsed := False, tp_RevealUntil := 0\<rparr>) (st_Players s1),
                  st_RevealTarget := Some target\<rparr>;
           s3 = s2\<lparr>st_RevealCards := Some (reveal_of s2 target)\<rparr>
       in Inr (add_event m s3 seat EvReveal RPlayer now (revision s) [] (\<lambda>e. e\<lparr>e_TargetSeat := Some target\<rparr>))))"

definition use_free_card :: "text_match \<Rightarrow> text_state \<Rightarrow> int \<Rightarrow> gotime \<Rightarrow> go_error + text_state" where
  "use_free_card m s seat now =
    (if tp_Reserve (player s seat) = [] \<or> tp_FreeDraws (player s seat) > 0
     then Inl (invalid ErrInvalidAction ''free_draw'')
     else Inr (add_event m (upd_player seat (\<lambda>v. v\<lparr>tp_FreeDraws := 1\<rparr>) (drop_specialty seat s))
                 seat EvFreeCard RPlayer now (revision s) [] (\<lambda>e. e)))"

fun turn_card :: "text_match \<Rightarrow> text_state \<Rightarrow> int \<Rightarrow> action \<Rightarrow> gotime \<Rightarrow> action_kind \<Rightarrow> go_error + text_state" where
  "turn_card m s seat a now ActionPass = use_pass m s seat now"
| "turn_card m s seat a now ActionReveal =
     (case a_TargetSeat a of None \<Rightarrow> Inl (GoPanic ''target_seat'') | Some t \<Rightarrow> use_reveal m s seat t now)"
| "turn_card m s seat a now ActionFreeCard = use_free_card m s seat now"
| "turn_card m s seat a now _ = Inl (invalid ErrInvalidAction ''specialty'')"

definition specialty :: "text_match \<Rightarrow> text_state \<Rightarrow> int \<Rightarrow> action \<Rightarrow> gotime \<Rightarrow> go_error + text_state" where
  "specialty m s seat a now =
    (if \<not> in_range seat (st_Players s) then Inl (GoPanic ''index out of range'')
     else if a_Kind a = ActionViewReveal then view_reveal m s seat now
     else if tp_Specialty (player s seat) \<noteq> specialtyID (a_Kind a) then Inl (invalid ErrUnauthorized ''specialty'')
     else if a_Kind a = ActionShuffle then use_shuffle m s seat now
     else if a_Kind a = ActionRevote then use_revote m s seat now
     else if st_Phase s \<noteq> PhasePlay \<or> current s \<noteq> seat then Inl (invalid ErrUnauthorized ''current_turn'')
     else turn_card m s seat a now (a_Kind a))"

end
