(* ===== verification/Actions.thy ===== *)
theory Actions
  imports Specialties
begin

section \<open>Player actions: \<open>act\<close> (\<open>game/text_actions.go\<close>)\<close>

text \<open>
  One function per action kind and \<open>act\<close>, which dispatches in the order of the source. A missing
  optional field the code dereferences without a test (\<open>TargetSeat\<close>, \<open>Count\<close>, \<open>Slot\<close>) is a panic,
  and so is an index that a caller or a request supplies and that the slice does not have: the
  acting seat, a target seat, the proposer of the pending offer, a count of reserve cards. The
  panic stands where the source evaluates the index, so a dropped guard reaches it.
\<close>

definition act_resolve_offer :: "text_match \<Rightarrow> text_state \<Rightarrow> int \<Rightarrow> action \<Rightarrow> gotime \<Rightarrow> go_error + text_state" where
  "act_resolve_offer m s seat a now =
    (case st_Offer s of
       None \<Rightarrow> Inl (invalid ErrUnauthorized ''offer_id'')
     | Some po \<Rightarrow>
        if po_OfferID po \<noteq> a_OfferID a \<or> po_RecipientSeat po \<noteq> seat then Inl (invalid ErrUnauthorized ''offer_id'')
        else if a_Resolution a = ResAccept \<and> \<not> in_range (po_ProposerSeat po) (st_Players s)
          then Inl (GoPanic ''index out of range'')
        else Inr (resolveOffer m s seat (a_Resolution a) RPlayer now))"

definition act_ready :: "text_match \<Rightarrow> text_state \<Rightarrow> int \<Rightarrow> gotime \<Rightarrow> text_pending \<Rightarrow> go_error + (text_state \<times> text_pending)" where
  "act_ready m s seat now p =
    (if st_Phase s \<noteq> PhaseDiscussion \<and> st_Phase s \<noteq> PhaseKnowoff \<and> st_Phase s \<noteq> PhaseRunoff \<and> st_Phase s \<noteq> PhaseResult
     then Inl (invalid ErrInvalidAction ''ready'')
     else advance m (add_event m (s\<lparr>st_Ready := AList.update seat True (st_Ready s)\<rparr>)
                       seat EvReady RPlayer now (revision s) [] (\<lambda>e. e)) now p)"

definition act_vote :: "text_match \<Rightarrow> text_state \<Rightarrow> int \<Rightarrow> action \<Rightarrow> gotime \<Rightarrow> go_error + text_state" where
  "act_vote m s seat a now =
    (if \<not> ballot_phase (st_Phase s) then Inl (invalid ErrInvalidAction ''vote'')
     else case a_TargetSeat a of
       None \<Rightarrow> Inl (GoPanic ''target_seat'')
     | Some target \<Rightarrow>
        if target \<ge> int (length (st_Players s)) \<or> target = seat
          then Inl (invalid ErrUnauthorized ''target_seat'')
        else if \<not> in_range target (st_Players s) then Inl (GoPanic ''index out of range'')
        else if tp_Eliminated (player s target) then Inl (invalid ErrUnauthorized ''target_seat'')
        else if st_Phase s = PhaseRunoff \<and> target \<notin> set (st_Candidates s)
          then Inl (invalid ErrInvalidAction ''runoff_target'')
        else Inr (add_event m (s\<lparr>st_Votes := AList.update seat target (st_Votes s)\<rparr>)
                    seat EvVote RPlayer now (revision s) [] (\<lambda>e. e\<lparr>e_TargetSeat := a_TargetSeat a\<rparr>)))"

definition act_chat :: "text_match \<Rightarrow> text_state \<Rightarrow> int \<Rightarrow> action \<Rightarrow> gotime \<Rightarrow> text_state" where
  "act_chat m s seat a now = add_event m s seat EvChat RPlayer now (revision s) []
     (\<lambda>e. e\<lparr>e_Text := a_Text a, e_PhraseID := a_PhraseID a, e_UILocale := a_UILocale a\<rparr>)"

subsection \<open>Drawing from the reserve\<close>

definition draw_copy :: "copy_id \<Rightarrow> (copy_id \<times> text_copy) list \<Rightarrow> (copy_id \<times> text_copy) list" where
  "draw_copy k cs = AList.update k ((copy_at cs k)\<lparr>cp_Zone := ZHand\<rparr>) cs"

definition act_draw :: "text_match \<Rightarrow> text_state \<Rightarrow> int \<Rightarrow> action \<Rightarrow> gotime \<Rightarrow> go_error + text_state" where
  "act_draw m s seat a now =
    (case a_Count a of
       None \<Rightarrow> Inl (GoPanic ''count'')
     | Some n \<Rightarrow>
        if \<not> in_range seat (st_Players s) then Inl (GoPanic ''index out of range'')
        else
        (let v = player s seat in
         if n > int (length (tp_Reserve v)) then Inl (invalid ErrInvalidAction ''reserve_count'')
         else if n < 0 then Inl (GoPanic ''slice bounds out of range'')
         else
          (let drawn = take (nat n) (tp_Reserve v);
               free = min n (tp_FreeDraws v);
               s1 = s\<lparr>st_Copies := fold draw_copy drawn (st_Copies s)\<rparr>;
               s2 = upd_player seat (\<lambda>v. v\<lparr>tp_Hand := tp_Hand v @ drawn,
                       tp_Reserve := drop (nat n) (tp_Reserve v),
                       tp_FreeDraws := tp_FreeDraws v - free,
                       tp_Points := tp_Points v - (n - free) * pn_DrawPenalty (tm_points m)\<rparr>) s1
           in Inr (add_event m s2 seat EvDraw RPlayer now (revision s) [] (\<lambda>e. e\<lparr>e_Count := a_Count a\<rparr>)))))"

subsection \<open>Playing a card\<close>

definition put_down :: "int \<Rightarrow> card \<Rightarrow> board_card" where
  "put_down seat c = \<lparr>bc_Card = c, bc_Actor = mk_actor seat, bc_Rating = None, bc_Slot = None, bc_Seat = None\<rparr>"

text \<open>\<open>respond\<close> and \<open>place\<close>.\<close>

definition play_new :: "text_match \<Rightarrow> text_state \<Rightarrow> int \<Rightarrow> action \<Rightarrow> text_copy \<Rightarrow> gotime \<Rightarrow> go_error + text_state" where
  "play_new m s seat a c now =
    (let s1 = bump_revision (spend s seat c (-1));
         s2 = set_board_cards (board_cards s1 @ [(put_down seat (cp_Card c))\<lparr>bc_Rating := a_Rating a\<rparr>]) s1
     in Inr (add_event m s2 seat (kind_string (a_Kind a)) RPlayer now (revision s) [cp_Card c]
               (\<lambda>e. e\<lparr>e_Rating := a_Rating a\<rparr>)))"

text \<open>The last board card of a slot.\<close>

definition slot_index :: "int \<Rightarrow> board_card list \<Rightarrow> nat option" where
  "slot_index slot cs = (case filter (\<lambda>i. bc_Slot (cs ! i) = Some slot) (rev [0..<length cs]) of
     [] \<Rightarrow> None | i # _ \<Rightarrow> Some i)"

definition play_replace :: "text_match \<Rightarrow> text_state \<Rightarrow> int \<Rightarrow> action \<Rightarrow> text_copy \<Rightarrow> gotime \<Rightarrow> go_error + text_state" where
  "play_replace m s seat a c now =
    (case a_Slot a of
       None \<Rightarrow> Inl (GoPanic ''slot'')
     | Some slot \<Rightarrow>
        (case slot_index slot (board_cards s) of
           None \<Rightarrow> Inl (invalid ErrInvalidAction ''slot'')
         | Some i \<Rightarrow>
            (let old = bc_Card (board_cards s ! i);
                 s1 = s\<lparr>st_Copies := retire_copy (cd_CopyID old) (st_Copies s)\<rparr>;
                 s2 = spend s1 seat c (-1);
                 s3 = bump_revision (set_board_cards
                        ((board_cards s2)[i := (put_down seat (cp_Card c))\<lparr>bc_Slot := a_Slot a\<rparr>]) s2)
             in Inr (add_event m s3 seat EvReplace RPlayer now (revision s) [cp_Card c, old]
                       (\<lambda>e. e\<lparr>e_Slot := a_Slot a\<rparr>)))))"

definition play_top :: "text_match \<Rightarrow> text_state \<Rightarrow> int \<Rightarrow> action \<Rightarrow> text_copy \<Rightarrow> gotime \<Rightarrow> go_error + text_state" where
  "play_top m s seat a c now =
    (if board_cards s = [] \<or> cd_CopyID (bc_Card (last (board_cards s))) \<noteq> a_TargetCopyID a
     then Inl (invalid ErrStaleRevision ''target_copy_id'')
     else
      (let old = bc_Card (last (board_cards s));
           s1 = spend s seat c (-1);
           s2 = bump_revision (set_board_cards (board_cards s1 @ [put_down seat (cp_Card c)]) s1)
       in Inr (add_event m s2 seat EvTop RPlayer now (revision s) [cp_Card c, old] (\<lambda>e. e))))"

definition play_offer :: "text_match \<Rightarrow> text_state \<Rightarrow> int \<Rightarrow> action \<Rightarrow> text_copy \<Rightarrow> gotime \<Rightarrow> go_error + text_state" where
  "play_offer m s seat a c now =
    (case a_TargetSeat a of
       None \<Rightarrow> Inl (GoPanic ''target_seat'')
     | Some target \<Rightarrow>
        if target \<ge> int (length (st_Players s)) \<or> target = seat
          then Inl (invalid ErrUnauthorized ''target_seat'')
        else if \<not> in_range target (st_Players s) then Inl (GoPanic ''index out of range'')
        else if \<not> tp_Connected (player s target)
           \<or> tp_Eliminated (player s target) then Inl (invalid ErrUnauthorized ''target_seat'')
        else
         (case map_of (st_Copies s) (a_TargetCopyID a) of
            None \<Rightarrow> Inl (invalid ErrStaleRevision ''target_copy_id'')
          | Some requested \<Rightarrow>
             if cp_Zone requested \<noteq> ZBoard \<or> cp_Owner requested \<noteq> target \<or> cp_Reserved requested
               then Inl (invalid ErrStaleRevision ''target_copy_id'')
             else
              (let s1 = bump_revision
                     (put_copy (cd_CopyID (cp_Card requested)) (requested\<lparr>cp_Reserved := True\<rparr>)
                     (put_copy (cd_CopyID (cp_Card c)) (c\<lparr>cp_Reserved := True\<rparr>) s));
                   po = \<lparr>po_OfferID = mc_MatchID (tm_contract m) @ ''.o'' @ dec (length (st_History s) + 1),
                         po_ProposerSeat = seat, po_RecipientSeat = target,
                         po_OfferedCopyID = cd_CopyID (cp_Card c),
                         po_RequestedCopyID = cd_CopyID (cp_Card requested),
                         po_BoardRevision = revision s1,
                         po_DeadlineMS = unix_milli (add_seconds now (ti_TradeResponseS (tm_timers m)))\<rparr>;
                   s2 = add_event m s1 seat EvOffer RPlayer now (revision s) [cp_Card c, cp_Card requested]
                          (\<lambda>e. e\<lparr>e_OfferID := po_OfferID po, e_TargetSeat := a_TargetSeat a,
                                 e_DeadlineMS := Some (po_DeadlineMS po)\<rparr>)
               in Inr (set_phase m (s2\<lparr>st_Offer := Some po\<rparr>) PhaseTradeResponse now
                        (ti_TradeResponseS (tm_timers m))))))"

fun play_card :: "text_match \<Rightarrow> text_state \<Rightarrow> int \<Rightarrow> action \<Rightarrow> text_copy \<Rightarrow> gotime \<Rightarrow> action_kind \<Rightarrow> go_error + text_state" where
  "play_card m s seat a c now ActionRespond = play_new m s seat a c now"
| "play_card m s seat a c now ActionPlace = play_new m s seat a c now"
| "play_card m s seat a c now ActionReplace = play_replace m s seat a c now"
| "play_card m s seat a c now ActionTop = play_top m s seat a c now"
| "play_card m s seat a c now ActionOffer = play_offer m s seat a c now"
| "play_card m s seat a c now _ = Inl (invalid ErrInvalidAction ''kind'')"

text \<open>A card action of the current seat: the guards, the card, and (except for an offer) the turn.\<close>

definition act_card :: "text_match \<Rightarrow> text_state \<Rightarrow> int \<Rightarrow> action \<Rightarrow> gotime \<Rightarrow> go_error + text_state" where
  "act_card m s seat a now =
    (if \<not> in_range seat (st_Players s) then Inl (GoPanic ''index out of range'')
     else if tp_FreeDraws (player s seat) > 0 then Inl (invalid ErrInvalidAction ''free_draw_required'')
     else case owned s seat (a_CopyID a) of
       Inl e \<Rightarrow> Inl e
     | Inr c \<Rightarrow>
        (case play_card m s seat a c now (a_Kind a) of
           Inl e \<Rightarrow> Inl e
         | Inr s1 \<Rightarrow> Inr (if a_Kind a = ActionOffer then s1 else nextTurn m s1 now)))"

subsection \<open>\<open>act\<close>\<close>

definition with_pending :: "text_pending \<Rightarrow> go_error + text_state \<Rightarrow> go_error + (text_state \<times> text_pending)" where
  "with_pending p r = (case r of Inl e \<Rightarrow> Inl e | Inr s \<Rightarrow> Inr (s, p))"

definition act :: "text_match \<Rightarrow> text_state \<Rightarrow> int \<Rightarrow> action \<Rightarrow> gotime \<Rightarrow> text_pending \<Rightarrow> go_error + (text_state \<times> text_pending)" where
  "act m s seat a now p =
    (if isSpecialtyAction (a_Kind a) then with_pending p (specialty m s seat a now)
     else if a_Kind a = ActionResolveOffer then with_pending p (act_resolve_offer m s seat a now)
     else if a_Kind a = ActionReady then act_ready m s seat now p
     else if a_Kind a = ActionVote then with_pending p (act_vote m s seat a now)
     else if a_Kind a = ActionPoke then with_pending p
       (case a_TargetSeat a of None \<Rightarrow> Inl (GoPanic ''target_seat'') | Some t \<Rightarrow> poke m s seat t now)
     else if a_Kind a = ActionChat then Inr (act_chat m s seat a now, p)
     else if st_Phase s \<noteq> PhasePlay \<or> current s \<noteq> seat then Inl (invalid ErrUnauthorized ''current_turn'')
     else if a_Kind a = ActionDraw then with_pending p (act_draw m s seat a now)
     else with_pending p (act_card m s seat a now))"

end
