(* ===== verification/MatchOps.thy ===== *)
theory MatchOps
  imports Actions
begin

section \<open>Serialized mutations (\<open>game/text_match.go\<close>, \<open>game/text_snapshot.go\<close>)\<close>

text \<open>
  Every mutation builds a candidate from a deep copy of the committed state (a value here),
  checks it with \<open>validateState\<close>, and commits it in \<open>persist\<close> after the durable hooks took
  its awards, abandons and result; until then the candidate stays pending. An operation
  returns its result, the match and the hook calls it made. The clock \<open>m.now()\<close> is a function
  from the number of the reading within the call to a time.
\<close>

type_synonym clock_reads = "nat \<Rightarrow> gotime"

subsection \<open>\<open>validateState\<close>\<close>

definition expected_copies :: "text_match \<Rightarrow> text_state \<Rightarrow> int" where
  "expected_copies m s = fold (\<lambda>e n. if e_Kind e = EvSeed then n + int (length (slice (e_Cards e))) else n)
     (st_History s) (tm_initialCopies m)"

text \<open>The places the state says copies are in: hands, reserves and board.\<close>

definition board_place :: "mode_id \<Rightarrow> board_card \<Rightarrow> copy_id \<times> zone \<times> int" where
  "board_place md b = (cd_CopyID (bc_Card b), ZBoard,
     if md = ModeBadBargains then (case bc_Seat b of None \<Rightarrow> -1 | Some k \<Rightarrow> k) else -1)"

definition player_places :: "int \<times> text_player \<Rightarrow> (copy_id \<times> zone \<times> int) list" where
  "player_places = (\<lambda>(i, v). map (\<lambda>k. (k, ZHand, i)) (tp_Hand v) @ map (\<lambda>k. (k, ZReserve, i)) (tp_Reserve v))"

definition places :: "mode_id \<Rightarrow> text_state \<Rightarrow> (copy_id \<times> zone \<times> int) list" where
  "places md s = concat (map player_places (indexed (st_Players s))) @ map (board_place md) (board_cards s)"

fun check_places :: "(copy_id \<times> text_copy) list \<Rightarrow> copy_id list \<Rightarrow> (copy_id \<times> zone \<times> int) list \<Rightarrow> go_error + copy_id list" where
  "check_places cs seen [] = Inr seen"
| "check_places cs seen ((k, z, owner) # rest) =
     (case map_of cs k of
        None \<Rightarrow> Inl (GoError ''copy location invariant'')
      | Some c \<Rightarrow> if k \<in> set seen \<or> cp_Zone c \<noteq> z \<or> cp_Owner c \<noteq> owner
          then Inl (GoError ''copy location invariant'')
          else check_places cs (k # seen) rest)"

definition check_copy :: "text_match \<Rightarrow> text_state \<Rightarrow> copy_id list \<Rightarrow> copy_id \<times> text_copy \<Rightarrow> go_error option" where
  "check_copy m s seen = (\<lambda>(k, c). checks
     [reject_if (map_of (tm_allCopies m) k \<noteq> Some (cp_Card c)) (GoError ''copy identity invariant''),
      (if cp_Zone c = ZSpent
       then reject_if (k \<in> set seen \<or> cp_Owner c \<noteq> -1 \<or> cp_Reserved c) (GoError ''spent copy invariant'')
       else reject_if (k \<notin> set seen) (GoError ''orphan copy invariant'')),
      reject_if (cp_Reserved c \<and> (case st_Offer s of None \<Rightarrow> True
          | Some po \<Rightarrow> k \<noteq> po_OfferedCopyID po \<and> k \<noteq> po_RequestedCopyID po))
        (GoError ''reservation invariant'')])"

definition reserved_count :: "text_state \<Rightarrow> nat" where
  "reserved_count s = length (filter (\<lambda>(k, c). cp_Reserved c) (st_Copies s))"

definition conservation :: "text_match \<Rightarrow> text_state \<Rightarrow> go_error option" where
  "conservation m s = checks
     [reject_if (int (length (st_History s)) > MaxHistoryEvents (tm_limits m)) (invalid ErrHistoryLimit ''history''),
      reject_if (int (length (st_Copies s)) \<noteq> expected_copies m s) (GoError ''copy count invariant''),
      (case check_places (st_Copies s) [] (places (mode m) s) of
         Inl e \<Rightarrow> Some e
       | Inr seen \<Rightarrow> checks
          [each (check_copy m s seen) (st_Copies s),
           reject_if (case st_Offer s of None \<Rightarrow> reserved_count s \<noteq> 0 | Some _ \<Rightarrow> reserved_count s \<noteq> 2)
             (GoError ''reservation cardinality invariant'')])]"

definition validateState :: "text_match \<Rightarrow> text_state \<Rightarrow> clock_reads \<Rightarrow> go_error option" where
  "validateState m s clk = checks
     [conservation m s,
      each (\<lambda>i. snapshot_Validate (tm_lang m) (tm_limits m) (project m s (int i) (clk i)))
        [0..<length (st_Players s)]]"

definition CheckConservation :: "text_match \<Rightarrow> clock_reads \<Rightarrow> go_error option" where
  "CheckConservation m clk = validateState m (tm_state m) clk"

subsection \<open>\<open>persist\<close>\<close>

datatype hook_call = CallAbandon abandon_event | CallAward award_event | CallFinish text_result

fun call_each :: "('e \<Rightarrow> go_error option) option \<Rightarrow> ('e \<Rightarrow> hook_call) \<Rightarrow> 'e list \<Rightarrow> go_error option \<times> hook_call list" where
  "call_each None tag es = (None, [])"
| "call_each (Some h) tag [] = (None, [])"
| "call_each (Some h) tag (e # es) =
     (case h e of
        Some err \<Rightarrow> (Some err, [tag e])
      | None \<Rightarrow> (case call_each (Some h) tag es of (r, calls) \<Rightarrow> (r, tag e # calls)))"

definition then_call :: "go_error option \<times> hook_call list \<Rightarrow> go_error option \<times> hook_call list \<Rightarrow> go_error option \<times> hook_call list" where
  "then_call a b = (case fst a of Some e \<Rightarrow> a | None \<Rightarrow> (fst b, snd a @ snd b))"

definition run_hooks :: "text_hooks \<Rightarrow> text_pending \<Rightarrow> go_error option \<times> hook_call list" where
  "run_hooks h p = then_call (call_each (hk_Abandon h) CallAbandon (pd_Abandons p))
     (then_call (call_each (hk_Award h) CallAward (pd_Awards p))
       (call_each (hk_Finish h) CallFinish (case pd_Result p of None \<Rightarrow> [] | Some r \<Rightarrow> [r])))"

type_synonym outcome = "(go_error + action_result) \<times> text_match \<times> hook_call list"

definition no_result_of :: "go_error \<Rightarrow> text_match \<Rightarrow> outcome" where
  "no_result_of e m = (Inl e, m, [])"

definition persist :: "text_match \<Rightarrow> text_pending \<Rightarrow> outcome" where
  "persist m p =
     (case run_hooks (tm_hooks m) p of
        (Some e, calls) \<Rightarrow> (Inl e, m\<lparr>tm_pending := Some p\<rparr>, calls)
      | (None, calls) \<Rightarrow>
          (Inr \<lparr>ar_Duplicate = False, ar_Changed = True, ar_Public = pd_Events p\<rparr>,
           m\<lparr>tm_state := pd_State p, tm_pending := None\<rparr>, calls))"

subsection \<open>\<open>Apply\<close>\<close>

definition request_key :: "int \<Rightarrow> string \<Rightarrow> string" where
  "request_key seat rid = dec_int seat @ '':'' @ rid"

definition empty_pending :: "text_state \<Rightarrow> string \<Rightarrow> string \<Rightarrow> text_pending" where
  "empty_pending s key hash = \<lparr>pd_State = s, pd_Key = key, pd_Hash = hash, pd_Awards = [], pd_Abandons = [],
     pd_Result = None, pd_Events = []\<rparr>"

definition context_of :: "text_match \<Rightarrow> text_state \<Rightarrow> gotime \<Rightarrow> action_context" where
  "context_of m s now = \<lparr>ctx_MatchID = mc_MatchID (tm_contract m), ctx_ModeID = mode m,
     ctx_Round = st_Round s, ctx_Turn = st_Turn s, ctx_Phase = st_Phase s, ctx_PhaseID = st_PhaseID s,
     ctx_BoardRevision = revision s, ctx_DeadlineMS = st_Deadline s, ctx_NowMS = unix_milli now\<rparr>"

definition recorded_requests :: "text_state \<Rightarrow> int \<Rightarrow> int" where
  "recorded_requests s seat = int (length (filter (\<lambda>(k, r). rr_Seat r = seat) (st_Requests s)))"

text \<open>The moderation of chat, with the second validation of the moderated request.\<close>

definition moderate :: "text_match \<Rightarrow> int \<Rightarrow> action_request \<Rightarrow> go_error + action" where
  "moderate m seat r =
    (if a_Kind (r_Action r) \<noteq> ActionChat then Inr (r_Action r)
     else case hk_ModerateChat (tm_hooks m) of
       None \<Rightarrow> Inl (invalid ErrUnauthorized ''chat_policy'')
     | Some h \<Rightarrow>
        (case h seat (r_Action r) of
           Inl e \<Rightarrow> Inl e
         | Inr a \<Rightarrow>
            if a_Kind a \<noteq> ActionChat then Inl (invalid ErrInvalidAction ''chat_policy'')
            else case request_Validate (tm_lang m) (tm_limits m) (r\<lparr>r_Action := a\<rparr>) of
              Some e \<Rightarrow> Inl e | None \<Rightarrow> Inr a))"

definition record_of :: "int \<Rightarrow> action_request \<Rightarrow> string \<Rightarrow> request_record" where
  "record_of seat r hash = \<lparr>rr_MatchID = r_MatchID r, rr_Seat = seat, rr_RequestID = r_RequestID r,
     rr_BodyHash = hash, rr_ResultEventID = []\<rparr>"

text \<open>
  \<open>Apply\<close> from the idempotency check on: the guards, the action, the record of the request and
  the validation of the candidate.
\<close>

definition apply_guards :: "text_match \<Rightarrow> int \<Rightarrow> action_request \<Rightarrow> text_state \<Rightarrow> gotime \<Rightarrow> go_error option" where
  "apply_guards m seat r s now = checks
     [CheckRequestBudget (recorded_requests s seat) False (tm_limits m),
      CheckActionContext r (context_of m s now),
      reject_if (\<not> tp_Connected (player s seat) \<or> tp_Eliminated (player s seat)) (invalid ErrUnauthorized ''actor'')]"

definition apply_new :: "text_match \<Rightarrow> int \<Rightarrow> action_request \<Rightarrow> string \<Rightarrow> string \<Rightarrow> clock_reads \<Rightarrow> outcome" where
  "apply_new m seat r key hash clk =
    (let s = tm_state m; now = clk 0 in
     case apply_guards m seat r s now of
       Some e \<Rightarrow> no_result_of e m
     | None \<Rightarrow>
        (case moderate m seat r of
           Inl e \<Rightarrow> no_result_of e m
         | Inr a \<Rightarrow>
            (case act m s seat a now (empty_pending s key hash) of
               Inl e \<Rightarrow> no_result_of e m
             | Inr (s1, p) \<Rightarrow>
                (let s2 = s1\<lparr>st_Requests := AList.update key (record_of seat r hash) (st_Requests s1)\<rparr> in
                 case validateState m s2 (\<lambda>i. clk (Suc i)) of
                   Some e \<Rightarrow> no_result_of e m
                 | None \<Rightarrow> persist m (p\<lparr>pd_State := s2,
                     pd_Events := drop (length (st_History s)) (st_History s2)\<rparr>)))))"

definition Apply :: "text_match \<Rightarrow> int \<Rightarrow> action_request \<Rightarrow> clock_reads \<Rightarrow> outcome" where
  "Apply m seat r clk =
    (case request_Validate (tm_lang m) (tm_limits m) r of
       Some e \<Rightarrow> no_result_of e m
     | None \<Rightarrow>
       if seat < 0 \<or> seat \<ge> mc_OriginalSize (tm_contract m) then no_result_of (invalid ErrUnauthorized ''seat'') m
       else
        (let key = request_key seat (r_RequestID r); hash = RequestHash (tm_sha m) r in
         case tm_pending m of
           Some p \<Rightarrow> if pd_Key p \<noteq> key \<or> pd_Hash p \<noteq> hash
               then no_result_of (GoError ''match persistence pending'') m else persist m p
         | None \<Rightarrow>
            (case map_of (st_Requests (tm_state m)) key of
               None \<Rightarrow> apply_new m seat r key hash clk
             | Some old \<Rightarrow>
                (case CheckRequestReuse (tm_sha m) old r seat of
                   Inl e \<Rightarrow> no_result_of e m
                 | Inr same \<Rightarrow>
                    if same then (Inr \<lparr>ar_Duplicate = True, ar_Changed = False, ar_Public = []\<rparr>, m, [])
                    else apply_new m seat r key hash clk))))"

subsection \<open>\<open>system\<close> and its clients\<close>

type_synonym step_fun = "text_state \<Rightarrow> text_pending \<Rightarrow> go_error + (text_state \<times> text_pending)"

definition system_step :: "text_match \<Rightarrow> step_fun \<Rightarrow> public_action list \<Rightarrow> clock_reads \<Rightarrow> outcome" where
  "system_step m fn prefix clk =
    (let s = tm_state m in
     case fn s (empty_pending s [] []) of
       Inl e \<Rightarrow> no_result_of e m
     | Inr (s1, p) \<Rightarrow>
        (case validateState m s1 clk of
           Some e \<Rightarrow> no_result_of e m
         | None \<Rightarrow> persist m (p\<lparr>pd_State := s1,
             pd_Events := prefix @ drop (length (st_History s)) (st_History s1)\<rparr>)))"

definition system :: "text_match \<Rightarrow> step_fun \<Rightarrow> clock_reads \<Rightarrow> outcome" where
  "system m fn clk =
    (case tm_pending m of
       None \<Rightarrow> system_step m fn [] clk
     | Some p \<Rightarrow>
        (case persist m p of
           (Inl e, m1, calls) \<Rightarrow> (Inl e, m1, calls)
         | (Inr res, m1, calls) \<Rightarrow>
            (case system_step m1 fn (ar_Public res) clk of (r, m2, calls2) \<Rightarrow> (r, m2, calls @ calls2))))"

definition Advance_match :: "text_match \<Rightarrow> gotime \<Rightarrow> clock_reads \<Rightarrow> outcome" where
  "Advance_match m now clk = system m (\<lambda>s p. advance m s now p) clk"

definition Close_match :: "text_match \<Rightarrow> clock_reads \<Rightarrow> outcome" where
  "Close_match m clk = system m (\<lambda>s p. Inr (finish m s MatchInterrupted NoWinner (clk 0) p)) (\<lambda>i. clk (Suc i))"

subsection \<open>\<open>SetConnected\<close>\<close>

definition flip_connected :: "text_match \<Rightarrow> int \<Rightarrow> bool \<Rightarrow> gotime \<Rightarrow> text_state \<Rightarrow> text_state" where
  "flip_connected m seat connected now = upd_player seat (\<lambda>v.
     if connected then v\<lparr>tp_Connected := True, tp_Absent := False, tp_GraceDeadline := 0\<rparr>
     else v\<lparr>tp_Connected := False, tp_GraceDeadline := unix_milli (add_seconds now (tm_grace m))\<rparr>)"

definition offer_party :: "text_state \<Rightarrow> int \<Rightarrow> bool" where
  "offer_party s seat = (case st_Offer s of None \<Rightarrow> False
     | Some po \<Rightarrow> seat = po_ProposerSeat po \<or> seat = po_RecipientSeat po)"

definition drop_votes :: "int \<Rightarrow> text_state \<Rightarrow> text_state" where
  "drop_votes seat s =
    (let s1 = (if ballot_phase (st_Phase s) then s\<lparr>st_Votes := AList.delete seat (st_Votes s)\<rparr> else s)
     in if st_Phase s \<in> {PhaseDiscussion, PhaseKnowoff, PhaseRunoff, PhaseResult}
        then s1\<lparr>st_Ready := AList.update seat True (st_Ready s1)\<rparr> else s1)"

definition rebind :: "text_match \<Rightarrow> int \<Rightarrow> bool \<Rightarrow> gotime \<Rightarrow> text_state \<Rightarrow> text_state" where
  "rebind m seat connected now s =
    (let s1 = flip_connected m seat connected now s;
         s2 = (if offer_party s1 seat then resolveOffer m s1 (-1) ResCancel RDisconnect now else s1);
         s3 = (if \<not> connected \<and> st_Phase s2 = PhasePlay \<and> current s2 = seat
               then autoPass m s2 RDisconnect now else s2)
     in if \<not> connected \<and> \<not> tp_Eliminated (player s3 seat) then drop_votes seat s3 else s3)"

definition set_connected_step :: "text_match \<Rightarrow> int \<Rightarrow> bool \<Rightarrow> gotime \<Rightarrow> step_fun" where
  "set_connected_step m seat connected now s p =
    (if \<not> in_range seat (st_Players s) then Inl (invalid ErrUnauthorized ''seat'')
     else
      (let v = player s seat in
       case (if connected \<and> \<not> tp_Connected v \<and> tp_GraceDeadline v > 0 \<and> unix_milli now \<ge> tp_GraceDeadline v
             then advance m s now p else Inr (s, p)) of
         Inl e \<Rightarrow> Inl e
       | Inr (s1, p1) \<Rightarrow>
          if tp_Connected (player s1 seat) = connected then Inr (s1, p1)
          else advance m (rebind m seat connected now s1) now p1))"

definition SetConnected :: "text_match \<Rightarrow> int \<Rightarrow> bool \<Rightarrow> clock_reads \<Rightarrow> outcome" where
  "SetConnected m seat connected clk =
     system m (set_connected_step m seat connected (clk 0)) (\<lambda>i. clk (Suc i))"

subsection \<open>\<open>DevGrantSpecialty\<close>\<close>

definition DevGrantSpecialty :: "text_match \<Rightarrow> go_error option \<Rightarrow> int \<Rightarrow> specialty \<Rightarrow> clock_reads \<Rightarrow> outcome" where
  "DevGrantSpecialty m ctx_err seat kind clk =
    (let s = tm_state m; s1 = upd_player seat (\<lambda>v. v\<lparr>tp_Specialty := kind\<rparr>) s in
     case checks
       [ctx_err,
        reject_if (\<not> tm_devEnabled m \<or> seat < 0 \<or> seat \<ge> mc_OriginalSize (tm_contract m))
          (invalid ErrUnauthorized ''dev_specialty''),
        reject_if (\<not> specialtyIDValid kind) (invalid ErrInvalidAction ''specialty''),
        reject_if (tm_pending m \<noteq> None) (invalid ErrInvalidAction ''persistence_pending''),
        reject_if (st_Phase s = PhaseVerdict \<or> tp_Eliminated (player s seat) \<or> \<not> tp_Connected (player s seat))
          (invalid ErrUnauthorized ''actor''),
        validateState m s1 clk] of
       Some e \<Rightarrow> no_result_of e m
     | None \<Rightarrow> persist m (empty_pending s1 [] []))"

end
