(* ===== verification/Conservation.thy ===== *)
theory Conservation
  imports MatchOps
begin

section \<open>One location for every copy\<close>

text \<open>
  The declarative form of the engine's conservation rule: the hands, reserves and board of a
  state list exactly the copies that are not spent, each in the zone and with the owner its
  registry entry names. It is an equation of multisets, so every move of a card changes both
  sides by the same elements.
\<close>

subsection \<open>The registry\<close>

definition one :: "copy_id \<Rightarrow> text_copy \<Rightarrow> (copy_id \<times> zone \<times> int) multiset" where
  "one k c = (if cp_Zone c = ZSpent then {#} else {#(k, cp_Zone c, cp_Owner c)#})"

definition live :: "(copy_id \<times> text_copy) list \<Rightarrow> (copy_id \<times> zone \<times> int) multiset" where
  "live cs = \<Sum>\<^sub># (image_mset (\<lambda>(k, c). one k c) (mset cs))"

lemma live_simps [simp]: "live [] = {#}" "live ((k, c) # cs) = one k c + live cs"
  by (simp_all add: live_def)

lemma live_update_new: "map_of cs k = None \<Longrightarrow> live (AList.update k c cs) = live cs + one k c"
  by (induction cs) (auto split: if_splits)

lemma live_update:
  "map_of cs k = Some c0 \<Longrightarrow> live (AList.update k c cs) + one k c0 = live cs + one k c"
proof (induction cs)
  case Nil
  then show ?case by simp
next
  case (Cons x cs)
  then show ?case by (cases x) (auto simp: ac_simps union_assoc split: if_splits)
qed

lemma live_mem_gen:
  "e \<in># live cs \<Longrightarrow> \<exists>k c. (k, c) \<in> set cs \<and> cp_Zone c \<noteq> ZSpent \<and> e = (k, cp_Zone c, cp_Owner c)"
  by (auto simp: live_def one_def split: if_splits)

lemma live_mem:
  assumes "distinct (map fst cs)"
  shows "(k, z, i) \<in># live cs \<longleftrightarrow>
    (\<exists>c. map_of cs k = Some c \<and> cp_Zone c = z \<and> cp_Owner c = i \<and> z \<noteq> ZSpent)"
proof
  assume "(k, z, i) \<in># live cs"
  with live_mem_gen [OF this] show "\<exists>c. map_of cs k = Some c \<and> cp_Zone c = z \<and> cp_Owner c = i \<and> z \<noteq> ZSpent"
    using assms by (auto simp: map_of_eq_Some_iff)
next
  assume "\<exists>c. map_of cs k = Some c \<and> cp_Zone c = z \<and> cp_Owner c = i \<and> z \<noteq> ZSpent"
  then obtain c where "(k, c) \<in> set cs" "cp_Zone c = z" "cp_Owner c = i" "z \<noteq> ZSpent"
    using map_of_SomeD by fastforce
  then show "(k, z, i) \<in># live cs" by (force simp: live_def one_def)
qed

lemma live_keys: "image_mset fst (live cs) \<subseteq># mset (map fst cs)"
proof (induction cs)
  case Nil
  then show ?case by simp
next
  case (Cons x cs)
  obtain k c where x: "x = (k, c)" by (cases x)
  have "image_mset fst (one k c) \<subseteq># {#k#}" by (simp add: one_def)
  from subset_mset.add_mono [OF this Cons.IH] show ?case by (simp add: x)
qed

lemma one_moved [simp]:
  "one k (c\<lparr>cp_Zone := z, cp_Owner := i\<rparr>) = (if z = ZSpent then {#} else {#(k, z, i)#})"
  "one k (c\<lparr>cp_Reserved := r\<rparr>) = one k c"
  by (simp_all add: one_def)

subsection \<open>The holders\<close>

definition held :: "text_player list \<Rightarrow> (copy_id \<times> zone \<times> int) multiset" where
  "held ps = mset (concat (map player_places (indexed ps)))"

definition on_board :: "mode_id \<Rightarrow> board_card list \<Rightarrow> (copy_id \<times> zone \<times> int) multiset" where
  "on_board md bs = mset (map (board_place md) bs)"

lemma mset_places: "mset (places md s) = held (st_Players s) + on_board md (board_cards s)"
  by (simp add: places_def held_def on_board_def)

lemma on_board_simps [simp]:
  "on_board md [] = {#}" "on_board md (bs @ cs) = on_board md bs + on_board md cs"
  "on_board md (b # bs) = add_mset (board_place md b) (on_board md bs)"
  by (simp_all add: on_board_def)

lemma on_board_update:
  "i < length bs \<Longrightarrow>
   on_board md (bs[i := b]) + {#board_place md (bs ! i)#} = on_board md bs + {#board_place md b#}"
  by (simp add: on_board_def map_update mset_update)

definition holding :: "int \<Rightarrow> text_player \<Rightarrow> (copy_id \<times> zone \<times> int) multiset" where
  "holding i p = image_mset (\<lambda>k. (k, ZHand, i)) (mset (tp_Hand p))
     + image_mset (\<lambda>k. (k, ZReserve, i)) (mset (tp_Reserve p))"

lemma mset_player_places: "mset (player_places (i, p)) = holding i p"
  by (simp add: player_places_def holding_def)

lemma held_sum: "held ps = (\<Sum>i<length ps. holding (int i) (ps ! i))"
proof -
  have "held ps = sum_list (map (\<lambda>x. mset (player_places x)) (indexed ps))"
    by (simp add: held_def mset_concat comp_def)
  also have "\<dots> = (\<Sum>i<length ps. holding (int i) (ps ! i))"
    by (simp add: sum_list_sum_nth indexed_def mset_player_places atLeast0LessThan)
  finally show ?thesis .
qed

lemma held_cong:
  assumes "length ps = length qs"
    and "\<And>i. i < length ps \<Longrightarrow> tp_Hand (qs ! i) = tp_Hand (ps ! i) \<and> tp_Reserve (qs ! i) = tp_Reserve (ps ! i)"
  shows "held qs = held ps"
  using assms by (auto simp: held_sum holding_def intro!: sum.cong)

lemma held_upd:
  assumes "in_range i ps"
  shows "held (upd i f ps) + holding i (at ps i) = held ps + holding i (f (at ps i))"
proof -
  define n where "n = nat i"
  have n: "n < length ps" "int n = i" using assms by (auto simp: n_def in_range_def)
  have "(\<Sum>j\<in>{..<length ps} - {n}. holding (int j) (upd i f ps ! j))
      = (\<Sum>j\<in>{..<length ps} - {n}. holding (int j) (ps ! j))"
    by (rule sum.cong) (auto simp: nth_upd n_def)
  moreover have "held ps = holding i (at ps i) + (\<Sum>j\<in>{..<length ps} - {n}. holding (int j) (ps ! j))"
    using n sum.remove [of "{..<length ps}" n "\<lambda>j. holding (int j) (ps ! j)"] n_def
    by (simp add: held_sum at_def)
  moreover have "held (upd i f ps) = holding i (f (at ps i))
      + (\<Sum>j\<in>{..<length ps} - {n}. holding (int j) (upd i f ps ! j))"
    using n sum.remove [of "{..<length ps}" n "\<lambda>j. holding (int j) (upd i f ps ! j)"] n_def
    by (simp add: held_sum at_def nth_upd)
  ultimately show ?thesis by (simp add: ac_simps)
qed

lemma held_mem:
  "in_range i ps \<Longrightarrow> k \<in> set (tp_Hand (at ps i)) \<Longrightarrow> (k, ZHand, i) \<in># held ps"
  "in_range i ps \<Longrightarrow> k \<in> set (tp_Reserve (at ps i)) \<Longrightarrow> (k, ZReserve, i) \<in># held ps"
  unfolding held_def set_mset_mset
  by (auto simp: player_places_def set_indexed intro!: bexI [of _ "(i, at ps i)"])

lemma held_memD:
  "(k, z, i) \<in># held ps \<Longrightarrow> in_range i ps \<and>
     (z = ZHand \<and> k \<in> set (tp_Hand (at ps i)) \<or> z = ZReserve \<and> k \<in> set (tp_Reserve (at ps i)))"
  unfolding held_def set_mset_mset by (auto simp: player_places_def set_indexed)

subsection \<open>Balance\<close>

text \<open>
  \<open>F\<close> are entries in flight: copies taken from a hand or the board and not yet put down. A
  state at rest is balanced with nothing in flight.
\<close>

definition copy_good :: "copy_id \<Rightarrow> text_copy \<Rightarrow> bool" where
  "copy_good k c \<longleftrightarrow> cd_CopyID (cp_Card c) = k \<and> (cp_Zone c = ZSpent \<longrightarrow> cp_Owner c = -1)"

definition balanced :: "mode_id \<Rightarrow> (copy_id \<times> zone \<times> int) multiset \<Rightarrow> text_state \<Rightarrow> bool" where
  "balanced md F s \<longleftrightarrow> distinct (map fst (st_Copies s))
     \<and> held (st_Players s) + on_board md (board_cards s) + F = live (st_Copies s)
     \<and> (\<forall>k c. map_of (st_Copies s) k = Some c \<longrightarrow> copy_good k c)
     \<and> (\<forall>b\<in>set (board_cards s). map_option cp_Card (map_of (st_Copies s) (cd_CopyID (bc_Card b))) = Some (bc_Card b))"

abbreviation located :: "mode_id \<Rightarrow> text_state \<Rightarrow> bool" where
  "located md s \<equiv> balanced md {#} s"

lemma balancedI:
  assumes "distinct (map fst (st_Copies s))"
    and "held (st_Players s) + on_board md (board_cards s) + F = live (st_Copies s)"
    and "\<And>k c. map_of (st_Copies s) k = Some c \<Longrightarrow> copy_good k c"
    and "\<And>b. b \<in> set (board_cards s) \<Longrightarrow>
      map_option cp_Card (map_of (st_Copies s) (cd_CopyID (bc_Card b))) = Some (bc_Card b)"
  shows "balanced md F s"
  using assms by (auto simp: balanced_def)

lemma balancedD:
  assumes "balanced md F s"
  shows "distinct (map fst (st_Copies s))"
    and "held (st_Players s) + on_board md (board_cards s) + F = live (st_Copies s)"
    and "map_of (st_Copies s) k = Some c \<Longrightarrow> copy_good k c"
    and "b \<in> set (board_cards s) \<Longrightarrow>
      map_option cp_Card (map_of (st_Copies s) (cd_CopyID (bc_Card b))) = Some (bc_Card b)"
  using assms by (auto simp: balanced_def)

text \<open>What is held, shown or in flight is registered there.\<close>

lemma balanced_entry:
  assumes "balanced md F s" and "(k, z, i) \<in># held (st_Players s) + on_board md (board_cards s) + F"
  obtains c where "map_of (st_Copies s) k = Some c" "cp_Zone c = z" "cp_Owner c = i" "z \<noteq> ZSpent"
proof -
  have "(k, z, i) \<in># live (st_Copies s)" using assms(2) unfolding balancedD(2) [OF assms(1)] .
  then show thesis using live_mem [OF balancedD(1) [OF assms(1)]] that by blast
qed

lemma hand_entry:
  assumes "balanced md F s" "in_range i (st_Players s)" "k \<in> set (tp_Hand (player s i))"
  obtains c where "map_of (st_Copies s) k = Some c" "cp_Zone c = ZHand" "cp_Owner c = i" "copy_good k c"
proof -
  have "(k, ZHand, i) \<in># held (st_Players s) + on_board md (board_cards s) + F"
    using held_mem(1) [OF assms(2)] assms(3) by (simp add: player_def)
  from balanced_entry [OF assms(1) this] show thesis using that balancedD(3) [OF assms(1)] by metis
qed

lemma reserve_entry:
  assumes "balanced md F s" "in_range i (st_Players s)" "k \<in> set (tp_Reserve (player s i))"
  obtains c where "map_of (st_Copies s) k = Some c" "cp_Zone c = ZReserve" "cp_Owner c = i" "copy_good k c"
proof -
  have "(k, ZReserve, i) \<in># held (st_Players s) + on_board md (board_cards s) + F"
    using held_mem(2) [OF assms(2)] assms(3) by (simp add: player_def)
  from balanced_entry [OF assms(1) this] show thesis using that balancedD(3) [OF assms(1)] by metis
qed

lemma board_entry:
  assumes "balanced md F s" "b \<in> set (board_cards s)"
  obtains c where "map_of (st_Copies s) (cd_CopyID (bc_Card b)) = Some c" "cp_Zone c = ZBoard"
    "cp_Owner c = snd (snd (board_place md b))" "cp_Card c = bc_Card b"
proof -
  have "board_place md b \<in># held (st_Players s) + on_board md (board_cards s) + F"
    using assms(2) by (auto simp: on_board_def)
  moreover have "board_place md b = (cd_CopyID (bc_Card b), ZBoard, snd (snd (board_place md b)))"
    by (simp add: board_place_def)
  ultimately obtain c where "map_of (st_Copies s) (cd_CopyID (bc_Card b)) = Some c" "cp_Zone c = ZBoard"
    "cp_Owner c = snd (snd (board_place md b))" using balanced_entry [OF assms(1)] by metis
  then show thesis using that balancedD(4) [OF assms] by simp
qed

text \<open>A registered live copy is where the registry says.\<close>

lemma registered:
  assumes "located md s" "map_of (st_Copies s) k = Some c" "cp_Zone c \<noteq> ZSpent"
  shows "(k, cp_Zone c, cp_Owner c) \<in># held (st_Players s) + on_board md (board_cards s)"
  using assms live_mem [OF balancedD(1) [OF assms(1)]] balancedD(2) [OF assms(1)] by simp

lemma registered_hand:
  assumes "located md s" "map_of (st_Copies s) k = Some c" "cp_Zone c = ZHand" "cp_Owner c = i"
  shows "in_range i (st_Players s)" "k \<in> set (tp_Hand (player s i))"
proof -
  have "(k, ZHand, i) \<in># held (st_Players s) + on_board md (board_cards s)"
    using registered [OF assms(1,2)] assms(3,4) by simp
  then have "(k, ZHand, i) \<in># held (st_Players s)" by (auto simp: on_board_def board_place_def)
  from held_memD [OF this] show "in_range i (st_Players s)" "k \<in> set (tp_Hand (player s i))"
    by (simp_all add: player_def)
qed

lemma registered_board:
  assumes "located md s" "map_of (st_Copies s) k = Some c" "cp_Zone c = ZBoard"
  obtains b where "b \<in> set (board_cards s)" "cd_CopyID (bc_Card b) = k" "bc_Card b = cp_Card c"
    "board_place md b = (k, ZBoard, cp_Owner c)"
proof -
  have "(k, ZBoard, cp_Owner c) \<in># held (st_Players s) + on_board md (board_cards s)"
    using registered [OF assms(1,2)] assms(3) by simp
  then have "(k, ZBoard, cp_Owner c) \<in># on_board md (board_cards s)" using held_memD by fastforce
  then obtain b where b: "b \<in> set (board_cards s)" "board_place md b = (k, ZBoard, cp_Owner c)"
    by (auto simp: on_board_def)
  then have k: "cd_CopyID (bc_Card b) = k" by (simp add: board_place_def)
  have "bc_Card b = cp_Card c" using balancedD(4) [OF assms(1) b(1)] assms(2) k by simp
  then show thesis using that b k by blast
qed

text \<open>No copy is listed twice.\<close>

lemma listed_once:
  assumes "balanced md F s"
  shows "image_mset fst (held (st_Players s)) + mset (map (\<lambda>b. cd_CopyID (bc_Card b)) (board_cards s))
      + image_mset fst F \<subseteq># mset (map fst (st_Copies s))"
proof -
  have b: "image_mset fst (on_board md (board_cards s)) = mset (map (\<lambda>b. cd_CopyID (bc_Card b)) (board_cards s))"
    by (simp add: on_board_def board_place_def image_mset.compositionality comp_def flip: mset_map)
  have "image_mset fst (held (st_Players s) + on_board md (board_cards s) + F) \<subseteq># mset (map fst (st_Copies s))"
    unfolding balancedD(2) [OF assms] by (rule live_keys)
  then show ?thesis by (simp add: b)
qed

lemma distinct_mset_part:
  assumes "distinct xs" "mset ys \<subseteq># mset xs"
  shows "distinct ys"
proof -
  obtain zs where "mset xs = mset ys + mset zs"
    using assms(2) by (metis ex_mset mset_subset_eq_exists_conv)
  then have "mset xs = mset (ys @ zs)" by simp
  then have "distinct (ys @ zs)" using assms(1) by (metis mset_eq_imp_distinct_iff)
  then show ?thesis by simp
qed

lemma board_distinct:
  assumes "balanced md F s"
  shows "distinct (map (\<lambda>b. cd_CopyID (bc_Card b)) (board_cards s))"
proof (rule distinct_mset_part)
  show "distinct (map fst (st_Copies s))" by (rule balancedD(1) [OF assms])
  show "mset (map (\<lambda>b. cd_CopyID (bc_Card b)) (board_cards s)) \<subseteq># mset (map fst (st_Copies s))"
    using listed_once [OF assms] by (meson mset_subset_eq_add_left mset_subset_eq_add_right subset_mset.order_trans)
qed

end
