(* ===== verification/Moves.thy ===== *)
theory Moves
  imports Conservation
begin

section \<open>Every move of a card keeps the balance\<close>

text \<open>
  One lemma for the update of a registered copy and one for a new copy carry all operations:
  what remains per operation is how the holders change.
\<close>

lemma balanced_put:
  assumes s: "balanced md F s" and k: "map_of (st_Copies s) k = Some old"
    and t: "st_Copies t = AList.update k new (st_Copies s)"
    and bal: "held (st_Players t) + on_board md (board_cards t) + F' + one k old
      = held (st_Players s) + on_board md (board_cards s) + F + one k new"
    and good: "copy_good k new" and same: "cp_Card new = cp_Card old"
    and board: "\<And>b. b \<in> set (board_cards t) \<Longrightarrow>
      map_option cp_Card (map_of (st_Copies s) (cd_CopyID (bc_Card b))) = Some (bc_Card b)"
  shows "balanced md F' t"
proof (rule balancedI)
  show "distinct (map fst (st_Copies t))" using balancedD(1) [OF s] by (simp add: t distinct_update)
  have "live (st_Copies t) + one k old = live (st_Copies s) + one k new"
    unfolding t by (rule live_update [OF k])
  with bal show "held (st_Players t) + on_board md (board_cards t) + F' = live (st_Copies t)"
    using balancedD(2) [OF s] by (metis add_right_cancel)
  show "copy_good j c" if "map_of (st_Copies t) j = Some c" for j c
    using that good balancedD(3) [OF s] by (auto simp: t map_of_update split: if_splits)
  show "map_option cp_Card (map_of (st_Copies t) (cd_CopyID (bc_Card b))) = Some (bc_Card b)"
    if "b \<in> set (board_cards t)" for b
    using board [OF that] k same by (auto simp: t map_of_update)
qed

lemma balanced_new:
  assumes s: "balanced md F s" and k: "map_of (st_Copies s) k = None"
    and t: "st_Copies t = AList.update k new (st_Copies s)"
    and bal: "held (st_Players t) + on_board md (board_cards t) + F'
      = held (st_Players s) + on_board md (board_cards s) + F + one k new"
    and good: "copy_good k new"
    and board: "\<And>b. b \<in> set (board_cards t) \<Longrightarrow>
      b \<in> set (board_cards s) \<or> cd_CopyID (bc_Card b) = k \<and> bc_Card b = cp_Card new"
  shows "balanced md F' t"
proof (rule balancedI)
  show "distinct (map fst (st_Copies t))" using balancedD(1) [OF s] by (simp add: t distinct_update)
  show "held (st_Players t) + on_board md (board_cards t) + F' = live (st_Copies t)"
    using bal balancedD(2) [OF s] by (simp add: t live_update_new [OF k])
  show "copy_good j c" if "map_of (st_Copies t) j = Some c" for j c
    using that good balancedD(3) [OF s] by (auto simp: t map_of_update split: if_splits)
  show "map_option cp_Card (map_of (st_Copies t) (cd_CopyID (bc_Card b))) = Some (bc_Card b)"
    if "b \<in> set (board_cards t)" for b
    using board [OF that] balancedD(4) [OF s, of b] k by (auto simp: t map_of_update)
qed

text \<open>Only the registry, the hands, the reserves and the board matter.\<close>

definition same_cards :: "text_state \<Rightarrow> text_state \<Rightarrow> bool" where
  "same_cards s t \<longleftrightarrow> st_Copies t = st_Copies s \<and> board_cards t = board_cards s
     \<and> map (\<lambda>p. (tp_Hand p, tp_Reserve p)) (st_Players t) = map (\<lambda>p. (tp_Hand p, tp_Reserve p)) (st_Players s)"

lemma same_cards_refl [simp]: "same_cards s s"
  by (simp add: same_cards_def)

lemma same_cards_trans: "same_cards s t \<Longrightarrow> same_cards t u \<Longrightarrow> same_cards s u"
  by (simp add: same_cards_def)

lemma same_cards_held:
  assumes "same_cards s t"
  shows "held (st_Players t) = held (st_Players s)"
proof (rule held_cong)
  have m: "map (\<lambda>p. (tp_Hand p, tp_Reserve p)) (st_Players t) = map (\<lambda>p. (tp_Hand p, tp_Reserve p)) (st_Players s)"
    using assms by (simp add: same_cards_def)
  then show l: "length (st_Players s) = length (st_Players t)" by (metis length_map)
  fix i assume i: "i < length (st_Players s)"
  have "map (\<lambda>p. (tp_Hand p, tp_Reserve p)) (st_Players t) ! i = map (\<lambda>p. (tp_Hand p, tp_Reserve p)) (st_Players s) ! i"
    by (simp only: m)
  then show "tp_Hand (st_Players t ! i) = tp_Hand (st_Players s ! i)
      \<and> tp_Reserve (st_Players t ! i) = tp_Reserve (st_Players s ! i)"
    using i l by simp
qed

lemma balanced_same: "same_cards s t \<Longrightarrow> balanced md F s \<Longrightarrow> balanced md F t"
  unfolding balanced_def
  by (frule same_cards_held) (auto simp only: same_cards_def)

text \<open>Updates of other fields.\<close>

lemma map_upd_same: "(\<And>p. g (f p) = g p) \<Longrightarrow> map g (upd i f ps) = map g ps"
  by (rule map_upd)

lemma same_cards_ops [simp]:
  "same_cards s (add_event m t i k w now b cs f) = same_cards s t"
  "same_cards s (set_phase m t ph now n) = same_cards s t"
  "same_cards s (bump_revision t) = same_cards s t"
  by (simp_all add: same_cards_def)

lemma same_cards_upd [simp]:
  "(\<And>p. tp_Hand (f p) = tp_Hand p) \<Longrightarrow> (\<And>p. tp_Reserve (f p) = tp_Reserve p) \<Longrightarrow>
   same_cards s (upd_player i f t) = same_cards s t"
  by (simp add: same_cards_def map_upd_same)

lemma same_cards_fields [simp]:
  "same_cards s (t\<lparr>st_Turn := x0\<rparr>) = same_cards s t"
  "same_cards s (t\<lparr>st_Offer := x1\<rparr>) = same_cards s t"
  "same_cards s (t\<lparr>st_Ready := x2\<rparr>) = same_cards s t"
  "same_cards s (t\<lparr>st_Votes := x3\<rparr>) = same_cards s t"
  "same_cards s (t\<lparr>st_Pokes := x4\<rparr>) = same_cards s t"
  "same_cards s (t\<lparr>st_Deadline := x5\<rparr>) = same_cards s t"
  "same_cards s (t\<lparr>st_ResultRevealed := x6\<rparr>) = same_cards s t"
  "same_cards s (t\<lparr>st_ResultRevealAt := x7\<rparr>) = same_cards s t"
  "same_cards s (t\<lparr>st_BallotResult := x8\<rparr>) = same_cards s t"
  "same_cards s (t\<lparr>st_RemainingVotes := x9\<rparr>) = same_cards s t"
  "same_cards s (t\<lparr>st_Round := x10\<rparr>) = same_cards s t"
  "same_cards s (t\<lparr>st_Requests := x11\<rparr>) = same_cards s t"
  "same_cards s (t\<lparr>st_ShuffleUsed := x12\<rparr>) = same_cards s t"
  "same_cards s (t\<lparr>st_RevoteUsed := x13\<rparr>) = same_cards s t"
  "same_cards s (t\<lparr>st_RevealCards := x14\<rparr>) = same_cards s t"
  "same_cards s (t\<lparr>st_RevealTarget := x15\<rparr>) = same_cards s t"
  "same_cards s (t\<lparr>st_BallotKind := x16\<rparr>) = same_cards s t"
  "same_cards s (t\<lparr>st_Candidates := x17\<rparr>) = same_cards s t"
  "same_cards s (t\<lparr>st_Result := x18\<rparr>) = same_cards s t"
  by (simp_all add: same_cards_def board_cards_def)

lemma set_board_cards_id: "set_board_cards (board_cards s) s = s \<or> bd_Cards (st_Board s) = None"
  by (cases "bd_Cards (st_Board s)") (simp_all add: set_board_cards_def board_cards_def)

subsection \<open>Hands\<close>

lemma holding_take:
  "k \<in> set (tp_Hand p) \<Longrightarrow>
   holding i (p\<lparr>tp_Hand := removeCopy (tp_Hand p) k\<rparr>) + {#(k, ZHand, i)#} = holding i p"
  by (simp add: holding_def removeCopy_remove1 image_mset_Diff flip: add_mset_add_single)

lemma held_take:
  assumes "in_range i ps" "k \<in> set (tp_Hand (at ps i))"
  shows "held (upd i (\<lambda>p. p\<lparr>tp_Hand := removeCopy (tp_Hand p) k\<rparr>) ps) + {#(k, ZHand, i)#} = held ps"
proof -
  have "held (upd i (\<lambda>p. p\<lparr>tp_Hand := removeCopy (tp_Hand p) k\<rparr>) ps) + holding i (at ps i)
      = held ps + holding i ((at ps i)\<lparr>tp_Hand := removeCopy (tp_Hand (at ps i)) k\<rparr>)"
    by (rule held_upd [OF assms(1)])
  also have "holding i (at ps i)
      = holding i ((at ps i)\<lparr>tp_Hand := removeCopy (tp_Hand (at ps i)) k\<rparr>) + {#(k, ZHand, i)#}"
    using holding_take [OF assms(2)] by simp
  finally show ?thesis by (simp add: ac_simps)
qed

lemma held_give:
  assumes "in_range i ps"
  shows "held (upd i (\<lambda>p. p\<lparr>tp_Hand := tp_Hand p @ ks\<rparr>) ps) = held ps + image_mset (\<lambda>k. (k, ZHand, i)) (mset ks)"
  using held_upd [OF assms, of "\<lambda>p. p\<lparr>tp_Hand := tp_Hand p @ ks\<rparr>"]
  by (simp add: holding_def ac_simps)

text \<open>A discarded card is spent.\<close>

lemma balanced_discard:
  assumes "balanced md F s" "in_range i (st_Players s)" "k \<in> set (tp_Hand (player s i))"
  shows "balanced md F (discard s i k)"
proof -
  obtain c where c: "map_of (st_Copies s) k = Some c" "cp_Zone c = ZHand" "cp_Owner c = i" "copy_good k c"
    using hand_entry [OF assms] .
  have h: "held (st_Players (discard s i k)) + {#(k, ZHand, i)#} = held (st_Players s)"
    using held_take [OF assms(2)] assms(3) by (simp add: discard_def player_def Let_def)
  show ?thesis
  proof (rule balanced_put [OF assms(1) c(1), where new = "c\<lparr>cp_Zone := ZSpent, cp_Owner := -1\<rparr>"])
    show "st_Copies (discard s i k) = AList.update k (c\<lparr>cp_Zone := ZSpent, cp_Owner := -1\<rparr>) (st_Copies s)"
      by (simp add: discard_def Let_def copy_at_def c(1))
    show "held (st_Players (discard s i k)) + on_board md (board_cards (discard s i k)) + F + one k c
        = held (st_Players s) + on_board md (board_cards s) + F + one k (c\<lparr>cp_Zone := ZSpent, cp_Owner := -1\<rparr>)"
      using h [symmetric] c by (simp add: one_def)
    show "copy_good k (c\<lparr>cp_Zone := ZSpent, cp_Owner := -1\<rparr>)" using c(4) by (simp add: copy_good_def)
  qed (simp_all add: balancedD(4) [OF assms(1)])
qed

subsection \<open>Playing a card\<close>

text \<open>A card taken from the hand is in flight until a board card shows it.\<close>

lemma balanced_spend:
  assumes "balanced md F s" "in_range i (st_Players s)" "k \<in> set (tp_Hand (player s i))"
    and c: "map_of (st_Copies s) k = Some c"
  shows "balanced md (F + {#(k, ZBoard, j)#}) (spend s i c j)"
proof -
  have z: "cp_Zone c = ZHand" "cp_Owner c = i" "copy_good k c"
    using hand_entry [OF assms(1-3)] c by auto
  then have id: "cd_CopyID (cp_Card c) = k" by (simp add: copy_good_def)
  have h: "held (st_Players (spend s i c j)) + {#(k, ZHand, i)#} = held (st_Players s)"
    using held_take [OF assms(2)] assms(3) by (simp add: spend_def player_def Let_def id)
  show ?thesis
  proof (rule balanced_put [OF assms(1) c, where new = "c\<lparr>cp_Zone := ZBoard, cp_Owner := j\<rparr>"])
    show "st_Copies (spend s i c j) = AList.update k (c\<lparr>cp_Zone := ZBoard, cp_Owner := j\<rparr>) (st_Copies s)"
      by (simp add: spend_def Let_def id)
    show "held (st_Players (spend s i c j)) + on_board md (board_cards (spend s i c j))
          + (F + {#(k, ZBoard, j)#}) + one k c
        = held (st_Players s) + on_board md (board_cards s) + F + one k (c\<lparr>cp_Zone := ZBoard, cp_Owner := j\<rparr>)"
      using h [symmetric] z by (simp add: one_def spend_def Let_def)
    show "copy_good k (c\<lparr>cp_Zone := ZBoard, cp_Owner := j\<rparr>)" using z by (simp add: copy_good_def)
  qed (simp_all add: balancedD(4) [OF assms(1)] spend_def Let_def)
qed

lemma spend_reads [simp]:
  "board_cards (spend s i c j) = board_cards s" "revision (spend s i c j) = revision s"
  "st_History (spend s i c j) = st_History s" "st_Order (spend s i c j) = st_Order s"
  "st_Offer (spend s i c j) = st_Offer s" "st_Round (spend s i c j) = st_Round s"
  "length (st_Players (spend s i c j)) = length (st_Players s)"
  "st_Copies (spend s i c j) = AList.update (cd_CopyID (cp_Card c)) (c\<lparr>cp_Zone := ZBoard, cp_Owner := j\<rparr>) (st_Copies s)"
  by (simp_all add: spend_def Let_def)

text \<open>Putting a board card down lands the copy it shows.\<close>

lemma balanced_show:
  assumes s: "balanced md (F + {#board_place md b#}) s"
    and b: "map_option cp_Card (map_of (st_Copies s) (cd_CopyID (bc_Card b))) = Some (bc_Card b)"
    and t: "st_Copies t = st_Copies s" "st_Players t = st_Players s" "board_cards t = board_cards s @ [b]"
  shows "balanced md F t"
proof (rule balancedI)
  show "distinct (map fst (st_Copies t))" using balancedD(1) [OF s] by (simp add: t)
  show "held (st_Players t) + on_board md (board_cards t) + F = live (st_Copies t)"
    using balancedD(2) [OF s] by (simp add: t)
  show "copy_good k c" if "map_of (st_Copies t) k = Some c" for k c
    using that balancedD(3) [OF s] by (simp only: t)
  show "map_option cp_Card (map_of (st_Copies t) (cd_CopyID (bc_Card x))) = Some (bc_Card x)"
    if "x \<in> set (board_cards t)" for x
  proof -
    from that have "x \<in> set (board_cards s) \<or> x = b" by (auto simp: t(3))
    then show ?thesis unfolding t(1) using b balancedD(4) [OF s, of x] by blast
  qed
qed

lemma mset_exchange:
  fixes A :: "'a multiset"
  assumes "A' + x = A + y" and "H + A + (F + y) = L"
  shows "H + A' + (F + x) = L"
proof -
  have "H + A' + (F + x) = H + F + (A' + x)" by (simp add: ac_simps)
  also have "\<dots> = H + A + (F + y)" unfolding assms(1) by (simp add: ac_simps)
  finally show ?thesis using assms(2) by simp
qed

lemma mset_shift:
  fixes H :: "'a multiset"
  assumes "H' + x = H + y" and "L' + x = L + y" and "H + B + F = L"
  shows "H' + B + F = L'"
proof -
  have "H' + B + F + x = H' + x + B + F" by (simp add: ac_simps)
  also have "\<dots> = L + y" unfolding assms(1) assms(3) [symmetric] by (simp add: ac_simps)
  finally show ?thesis using assms(2) by (metis add_right_cancel)
qed

text \<open>Replacing a board card lands the new copy and lifts the old one.\<close>

lemma balanced_swap_board:
  assumes s: "balanced md (F + {#board_place md b#}) s" and i: "i < length (board_cards s)"
    and b: "map_option cp_Card (map_of (st_Copies s) (cd_CopyID (bc_Card b))) = Some (bc_Card b)"
    and t: "st_Copies t = st_Copies s" "st_Players t = st_Players s" "board_cards t = (board_cards s)[i := b]"
  shows "balanced md (F + {#board_place md (board_cards s ! i)#}) t"
proof (rule balancedI)
  show "distinct (map fst (st_Copies t))" using balancedD(1) [OF s] by (simp add: t)
  have "on_board md (board_cards t) + {#board_place md (board_cards s ! i)#}
      = on_board md (board_cards s) + {#board_place md b#}"
    unfolding t by (rule on_board_update [OF i])
  then show "held (st_Players t) + on_board md (board_cards t) + (F + {#board_place md (board_cards s ! i)#})
      = live (st_Copies t)"
    using mset_exchange balancedD(2) [OF s] unfolding t(1,2) by blast
  show "copy_good k c" if "map_of (st_Copies t) k = Some c" for k c
    using that balancedD(3) [OF s] by (simp only: t)
  show "map_option cp_Card (map_of (st_Copies t) (cd_CopyID (bc_Card x))) = Some (bc_Card x)"
    if "x \<in> set (board_cards t)" for x
  proof -
    from that set_update_subset_insert [of "board_cards s" i b] have "x \<in> set (board_cards s) \<or> x = b"
      by (auto simp: t(3))
    then show ?thesis unfolding t(1) using b balancedD(4) [OF s, of x] by blast
  qed
qed

text \<open>Retiring a lifted copy.\<close>

lemma balanced_retire:
  assumes s: "balanced md (F + {#(k, z, i)#}) s"
    and t: "st_Copies t = retire_copy k (st_Copies s)" "st_Players t = st_Players s" "board_cards t = board_cards s"
  shows "balanced md F t"
proof -
  have "(k, z, i) \<in># held (st_Players s) + on_board md (board_cards s) + (F + {#(k, z, i)#})" by simp
  then obtain c where c: "map_of (st_Copies s) k = Some c" "cp_Zone c = z" "cp_Owner c = i" "z \<noteq> ZSpent"
    using balanced_entry [OF s] by metis
  have g: "copy_good k c" by (rule balancedD(3) [OF s c(1)])
  show ?thesis
  proof (rule balanced_put [OF s c(1), where new = "c\<lparr>cp_Zone := ZSpent, cp_Owner := -1\<rparr>"])
    show "st_Copies t = AList.update k (c\<lparr>cp_Zone := ZSpent, cp_Owner := -1\<rparr>) (st_Copies s)"
      by (simp add: t retire_copy_def copy_at_def c(1))
    show "held (st_Players t) + on_board md (board_cards t) + F + one k c
        = held (st_Players s) + on_board md (board_cards s) + (F + {#(k, z, i)#})
          + one k (c\<lparr>cp_Zone := ZSpent, cp_Owner := -1\<rparr>)"
      using c by (simp add: t one_def)
    show "copy_good k (c\<lparr>cp_Zone := ZSpent, cp_Owner := -1\<rparr>)" using g by (simp add: copy_good_def)
  qed (simp_all add: t balancedD(4) [OF s])
qed

lemma update_commute_present:
  "k \<noteq> j \<Longrightarrow> k \<in> fst ` set cs \<Longrightarrow> AList.update k v (AList.update j w cs) = AList.update j w (AList.update k v cs)"
  by (induction cs) auto

text \<open>Setting the reservation flag moves nothing.\<close>

lemma balanced_flag:
  assumes s: "balanced md F s" and k: "map_of (st_Copies s) k = Some c"
  shows "balanced md F (put_copy k (c\<lparr>cp_Reserved := r\<rparr>) s)"
proof (rule balanced_put [OF s k, where new = "c\<lparr>cp_Reserved := r\<rparr>"])
  show "copy_good k (c\<lparr>cp_Reserved := r\<rparr>)" using balancedD(3) [OF s k] by (simp add: copy_good_def)
qed (simp_all add: balancedD(4) [OF s])

subsection \<open>Runs of updates\<close>

text \<open>\<open>retire_copy\<close> and \<open>draw_copy\<close> restamp one registry entry; so do folds of them.\<close>

definition restamp :: "(text_copy \<Rightarrow> text_copy) \<Rightarrow> copy_id \<Rightarrow> (copy_id \<times> text_copy) list \<Rightarrow> (copy_id \<times> text_copy) list" where
  "restamp g k cs = AList.update k (g (copy_at cs k)) cs"

lemma retire_restamp: "retire_copy = restamp (\<lambda>c. c\<lparr>cp_Zone := ZSpent, cp_Owner := -1\<rparr>)"
  by (intro ext) (simp add: retire_copy_def restamp_def)

lemma draw_restamp: "draw_copy = restamp (\<lambda>c. c\<lparr>cp_Zone := ZHand\<rparr>)"
  by (intro ext) (simp add: draw_copy_def restamp_def)

definition stamps :: "(text_copy \<Rightarrow> text_copy) \<Rightarrow> copy_id list \<Rightarrow> (copy_id \<times> text_copy) list \<Rightarrow> (copy_id \<times> zone \<times> int) multiset" where
  "stamps g ks cs = sum_list (map (\<lambda>k. one k (g (copy_at cs k))) ks)"

lemma restamp_fold_all:
  assumes "distinct ks" "\<forall>k\<in>set ks. map_of cs k \<noteq> None"
  shows "(\<forall>j. map_of (fold (restamp g) ks cs) j = (if j \<in> set ks then map_option g (map_of cs j) else map_of cs j))
    \<and> live (fold (restamp g) ks cs) + stamps (\<lambda>c. c) ks cs = live cs + stamps g ks cs
    \<and> map fst (fold (restamp g) ks cs) = map fst cs"
  using assms
proof (induction ks arbitrary: cs)
  case Nil
  then show ?case by (simp add: stamps_def)
next
  case (Cons k ks)
  define cs' where "cs' = restamp g k cs"
  obtain c where c: "map_of cs k = Some c" using Cons.prems(2) by auto
  have m: "map_of cs' j = (if j = k then Some (g c) else map_of cs j)" for j
    by (simp add: cs'_def restamp_def map_of_update copy_at_def c)
  have nk: "k \<notin> set ks" using Cons.prems(1) by simp
  have same: "stamps h ks cs' = stamps h ks cs" for h
    unfolding stamps_def using nk
    by (intro arg_cong [where f = sum_list] map_cong refl) (auto simp: copy_at_def m)
  have l: "live cs' + one k c = live cs + one k (g c)"
    using live_update [OF c, of "g c"] by (simp add: cs'_def restamp_def copy_at_def c)
  have IH: "\<forall>j. map_of (fold (restamp g) ks cs') j = (if j \<in> set ks then map_option g (map_of cs' j) else map_of cs' j)"
    "live (fold (restamp g) ks cs') + stamps (\<lambda>c. c) ks cs = live cs' + stamps g ks cs"
    "map fst (fold (restamp g) ks cs') = map fst cs'"
    using Cons.IH [of cs'] Cons.prems same by (simp_all add: m)
  have "live (fold (restamp g) ks cs') + (one k c + stamps (\<lambda>c. c) ks cs) = (live cs' + one k c) + stamps g ks cs"
    using IH(2) by (simp add: ac_simps)
  then have "live (fold (restamp g) ks cs') + (one k c + stamps (\<lambda>c. c) ks cs)
      = live cs + (one k (g c) + stamps g ks cs)" unfolding l by (simp add: ac_simps)
  moreover have "k \<in> fst ` set cs" using map_of_SomeD [OF c] by force
  then have "map fst cs' = map fst cs" by (simp add: cs'_def restamp_def update_keys)
  ultimately show ?case
    using IH(1,3) nk by (simp add: m stamps_def copy_at_def c flip: cs'_def)
qed

lemmas restamp_fold = restamp_fold_all [THEN conjunct1, THEN spec]
  restamp_fold_all [THEN conjunct2, THEN conjunct1] restamp_fold_all [THEN conjunct2, THEN conjunct2]

text \<open>The board is retired at the start of a round.\<close>

lemma on_board_sum: "sum_list (map (\<lambda>b. {#board_place md b#}) bs) = on_board md bs"
  by (induction bs) simp_all

lemma balanced_retire_board:
  assumes s: "balanced md F s"
  shows "balanced md F (retire_board s)"
proof -
  define ks where "ks = map (\<lambda>b. cd_CopyID (bc_Card b)) (board_cards s)"
  define g where "g = (\<lambda>c::text_copy. c\<lparr>cp_Zone := ZSpent, cp_Owner := -1\<rparr>)"
  have d: "distinct ks" unfolding ks_def by (rule board_distinct [OF s])
  have p: "\<forall>k\<in>set ks. map_of (st_Copies s) k \<noteq> None"
    using balancedD(4) [OF s] by (fastforce simp: ks_def)
  note f = restamp_fold [OF d p, of g]
  have copies: "st_Copies (retire_board s) = fold (restamp g) ks (st_Copies s)"
    by (simp add: retire_board_def ks_def g_def retire_restamp fold_map comp_def)
  have out: "stamps g ks (st_Copies s) = {#}"
    by (induction ks) (simp_all add: stamps_def g_def)
  have "one (cd_CopyID (bc_Card b)) (copy_at (st_Copies s) (cd_CopyID (bc_Card b))) = {#board_place md b#}"
    if b: "b \<in> set (board_cards s)" for b
  proof -
    obtain c where "map_of (st_Copies s) (cd_CopyID (bc_Card b)) = Some c" "cp_Zone c = ZBoard"
      "cp_Owner c = snd (snd (board_place md b))" using board_entry [OF s b] by metis
    then show ?thesis by (simp add: one_def copy_at_def board_place_def)
  qed
  then have "map (\<lambda>b. one (cd_CopyID (bc_Card b)) (copy_at (st_Copies s) (cd_CopyID (bc_Card b)))) (board_cards s)
      = map (\<lambda>b. {#board_place md b#}) (board_cards s)" by simp
  then have "stamps (\<lambda>c. c) ks (st_Copies s) = sum_list (map (\<lambda>b. {#board_place md b#}) (board_cards s))"
    by (simp only: stamps_def ks_def map_map comp_def)
  also have "\<dots> = on_board md (board_cards s)"
    by (rule on_board_sum)
  finally have "stamps (\<lambda>c. c) ks (st_Copies s) = on_board md (board_cards s)" .
  with f(2) out have l: "live (st_Copies (retire_board s)) + on_board md (board_cards s) = live (st_Copies s)"
    by (simp add: copies)
  show ?thesis
  proof (rule balancedI)
    show "distinct (map fst (st_Copies (retire_board s)))"
      using f(3) balancedD(1) [OF s] by (simp add: copies)
    have "held (st_Players s) + F + on_board md (board_cards s)
        = live (st_Copies (retire_board s)) + on_board md (board_cards s)"
      unfolding l balancedD(2) [OF s, symmetric] by (simp add: ac_simps)
    then show "held (st_Players (retire_board s)) + on_board md (board_cards (retire_board s)) + F
        = live (st_Copies (retire_board s))"
      by (simp add: retire_board_def)
    show "copy_good k c" if "map_of (st_Copies (retire_board s)) k = Some c" for k c
    proof -
      have g: "copy_good k c' \<Longrightarrow> copy_good k (g c')" for c' by (simp add: copy_good_def g_def)
      show ?thesis using that balancedD(3) [OF s] g by (auto simp: copies f(1) split: if_splits)
    qed
  qed (simp add: retire_board_def)
qed

subsection \<open>Drawing\<close>

lemma held_part: "in_range i ps \<Longrightarrow> holding i (at ps i) \<subseteq># held ps"
proof -
  assume "in_range i ps"
  then have n: "nat i < length ps" "int (nat i) = i" by (auto simp: in_range_def)
  then show ?thesis
    using sum.remove [of "{..<length ps}" "nat i" "\<lambda>j. holding (int j) (ps ! j)"]
    by (simp add: held_sum at_def)
qed

lemma own_distinct:
  assumes s: "balanced md F s" and i: "in_range i (st_Players s)"
  shows "distinct (tp_Hand (player s i) @ tp_Reserve (player s i))"
proof (rule distinct_mset_part)
  show "distinct (map fst (st_Copies s))" by (rule balancedD(1) [OF s])
  have "image_mset fst (holding i (player s i)) \<subseteq># image_mset fst (held (st_Players s))"
    unfolding player_def by (rule image_mset_subseteq_mono [OF held_part [OF i]])
  moreover have "image_mset fst (holding i (player s i)) = mset (tp_Hand (player s i) @ tp_Reserve (player s i))"
    by (simp add: holding_def image_mset.compositionality comp_def)
  ultimately show "mset (tp_Hand (player s i) @ tp_Reserve (player s i)) \<subseteq># mset (map fst (st_Copies s))"
    using listed_once [OF s] by (metis mset_subset_eq_add_left subset_mset.order_trans add.assoc)
qed

lemma stamps_const:
  assumes "\<And>k. k \<in> set ks \<Longrightarrow> one k (g (copy_at cs k)) = {#(k, z, i)#}"
  shows "stamps g ks cs = image_mset (\<lambda>k. (k, z, i)) (mset ks)"
  using assms by (induction ks) (simp_all add: stamps_def)

lemma balanced_draw:
  assumes s: "balanced md F s" and i: "in_range i (st_Players s)"
    and ks: "ks = take n (tp_Reserve (player s i))"
    and t: "st_Copies t = fold draw_copy ks (st_Copies s)" "board_cards t = board_cards s"
      "st_Players t = upd i f (st_Players s)"
    and f: "tp_Hand (f (player s i)) = tp_Hand (player s i) @ ks"
      "tp_Reserve (f (player s i)) = drop n (tp_Reserve (player s i))"
  shows "balanced md F t"
proof -
  define g where "g = (\<lambda>c::text_copy. c\<lparr>cp_Zone := ZHand\<rparr>)"
  have sub: "set ks \<subseteq> set (tp_Reserve (player s i))" by (simp add: ks set_take_subset)
  have d: "distinct ks" using own_distinct [OF s i] by (simp add: ks)
  have c: "\<exists>c. map_of (st_Copies s) k = Some c \<and> cp_Zone c = ZReserve \<and> cp_Owner c = i" if "k \<in> set ks" for k
    using reserve_entry [OF s i] sub that by (metis subset_iff)
  then have p: "\<forall>k\<in>set ks. map_of (st_Copies s) k \<noteq> None" by fastforce
  note r = restamp_fold [OF d p, of g]
  have copies: "st_Copies t = fold (restamp g) ks (st_Copies s)" by (simp add: t draw_restamp g_def)
  have o1: "stamps (\<lambda>c. c) ks (st_Copies s) = image_mset (\<lambda>k. (k, ZReserve, i)) (mset ks)"
    by (rule stamps_const) (use c in \<open>fastforce simp: one_def copy_at_def\<close>)
  have o2: "stamps g ks (st_Copies s) = image_mset (\<lambda>k. (k, ZHand, i)) (mset ks)"
    by (rule stamps_const) (use c in \<open>fastforce simp: one_def copy_at_def g_def\<close>)
  have split: "mset (tp_Reserve (player s i)) = mset ks + mset (drop n (tp_Reserve (player s i)))"
    unfolding ks mset_append [symmetric] append_take_drop_id ..
  have "held (st_Players t) + holding i (player s i) = held (st_Players s) + holding i (f (player s i))"
    unfolding t(3) player_def by (rule held_upd [OF i])
  then have "held (st_Players t) + image_mset (\<lambda>k. (k, ZReserve, i)) (mset ks)
      = held (st_Players s) + image_mset (\<lambda>k. (k, ZHand, i)) (mset ks)"
    by (simp add: holding_def f split ac_simps)
  moreover have "live (st_Copies t) + image_mset (\<lambda>k. (k, ZReserve, i)) (mset ks)
      = live (st_Copies s) + image_mset (\<lambda>k. (k, ZHand, i)) (mset ks)"
    using r(2) by (simp add: copies o1 o2)
  ultimately have "held (st_Players t) + on_board md (board_cards s) + F = live (st_Copies t)"
    using balancedD(2) [OF s] by (rule mset_shift)
  then show ?thesis
  proof (intro balancedI)
    show "distinct (map fst (st_Copies t))" using r(3) balancedD(1) [OF s] by (simp add: copies)
    show "copy_good k c" if "map_of (st_Copies t) k = Some c" for k c
    proof -
      have g: "copy_good k c' \<Longrightarrow> copy_good k (g c')" for c' by (simp add: copy_good_def g_def)
      show ?thesis using that balancedD(3) [OF s] g by (auto simp: copies r(1) split: if_splits)
    qed
    have gc: "cp_Card (g c) = cp_Card c" for c by (simp add: g_def)
    show "map_option cp_Card (map_of (st_Copies t) (cd_CopyID (bc_Card b))) = Some (bc_Card b)"
      if "b \<in> set (board_cards t)" for b
      using balancedD(4) [OF s, of b] that by (auto simp: copies r(1) t(2) gc)
  qed (simp_all add: t(2))
qed

subsection \<open>Trades\<close>

text \<open>
  An accepted offer in two steps: the offered copy leaves the proposer's hand for the board,
  then the requested copy leaves the board for the hand.
\<close>

lemma display_mset:
  assumes "distinct (map (\<lambda>b. cd_CopyID (bc_Card b)) bs)" "b0 \<in> set bs" "cd_CopyID (bc_Card b0) = po_RequestedCopyID po"
  shows "on_board md (map (display_card c po) bs) + {#board_place md b0#}
    = on_board md bs + {#board_place md (display_card c po b0)#}"
  using assms
proof (induction bs)
  case Nil
  then show ?case by simp
next
  case (Cons b bs)
  show ?case
  proof (cases "b = b0")
    case True
    then have "\<forall>x\<in>set bs. cd_CopyID (bc_Card x) \<noteq> po_RequestedCopyID po"
      using Cons.prems(1,3) by (auto simp: image_iff)
    then have "map (display_card c po) bs = bs" by (intro map_idI) (simp add: display_card_def)
    then show ?thesis using True by simp
  next
    case False
    then have "cd_CopyID (bc_Card b) \<noteq> po_RequestedCopyID po" using Cons.prems by (force simp: image_iff)
    then have "display_card c po b = b" by (simp add: display_card_def)
    then show ?thesis using Cons False by simp
  qed
qed

lemma balanced_accept:
  assumes s: "located ModeBadBargains s" and i: "in_range i (st_Players s)"
    and po: "po_ProposerSeat po = i"
    and off: "map_of (st_Copies s) (po_OfferedCopyID po) = Some co" "cp_Zone co = ZHand" "cp_Owner co = i"
    and req: "map_of (st_Copies s) (po_RequestedCopyID po) = Some cr" "cp_Zone cr = ZBoard"
      "cp_Owner cr = po_RecipientSeat po"
    and t: "st_Copies t = AList.update (po_RequestedCopyID po) (cr\<lparr>cp_Zone := ZHand, cp_Owner := i, cp_Reserved := b1\<rparr>)
        (AList.update (po_OfferedCopyID po) (co\<lparr>cp_Zone := ZBoard, cp_Owner := po_RecipientSeat po, cp_Reserved := b2\<rparr>)
          (st_Copies s))"
      "st_Players t = upd i (\<lambda>p. p\<lparr>tp_Hand := trade_hand po (tp_Hand p)\<rparr>) (st_Players s)"
      "board_cards t = map (display_card (cp_Card co) po) (board_cards s)"
  shows "located ModeBadBargains t"
proof -
  let ?md = ModeBadBargains and ?off = "po_OfferedCopyID po" and ?req = "po_RequestedCopyID po"
  let ?j = "po_RecipientSeat po"
  define take_off where "take_off = (\<lambda>p::text_player. p\<lparr>tp_Hand := removeCopy (tp_Hand p) ?off\<rparr>)"
  define s1 where "s1 = put_copy ?off (co\<lparr>cp_Zone := ZBoard, cp_Owner := ?j, cp_Reserved := b2\<rparr>) (upd_player i take_off s)"
  have hand: "?off \<in> set (tp_Hand (player s i))" using registered_hand(2) [OF s off] .
  have go: "copy_good ?off co" and gr: "copy_good ?req cr"
    using balancedD(3) [OF s] off(1) req(1) by blast+
  have ne: "?off \<noteq> ?req" using off req by auto
  have s1: "balanced ?md {#(?off, ZBoard, ?j)#} s1"
  proof (rule balanced_put [OF s off(1)])
    show "st_Copies s1 = AList.update ?off (co\<lparr>cp_Zone := ZBoard, cp_Owner := ?j, cp_Reserved := b2\<rparr>) (st_Copies s)"
      by (simp add: s1_def)
    have "held (st_Players s1) + {#(?off, ZHand, i)#} = held (st_Players s)"
      using held_take [OF i] hand by (simp add: s1_def take_off_def player_def)
    from this [symmetric]
    show "held (st_Players s1) + on_board ?md (board_cards s1) + {#(?off, ZBoard, ?j)#} + one ?off co
        = held (st_Players s) + on_board ?md (board_cards s) + {#}
          + one ?off (co\<lparr>cp_Zone := ZBoard, cp_Owner := ?j, cp_Reserved := b2\<rparr>)"
      using off by (simp add: one_def s1_def)
    show "copy_good ?off (co\<lparr>cp_Zone := ZBoard, cp_Owner := ?j, cp_Reserved := b2\<rparr>)"
      using go by (simp add: copy_good_def)
  qed (simp_all add: balancedD(4) [OF s] s1_def)
  have req1: "map_of (st_Copies s1) ?req = Some cr" using req ne by (simp add: s1_def map_of_update)
  obtain b0 where b0: "b0 \<in> set (board_cards s)" "cd_CopyID (bc_Card b0) = ?req" "board_place ?md b0 = (?req, ZBoard, ?j)"
    using registered_board [OF s req(1,2)] req(3) by metis
  have new: "board_place ?md (display_card (cp_Card co) po b0) = (?off, ZBoard, ?j)"
    using b0(2) go by (simp add: display_card_def board_place_def copy_good_def)
  have disp: "on_board ?md (board_cards t) + {#(?req, ZBoard, ?j)#} = on_board ?md (board_cards s) + {#(?off, ZBoard, ?j)#}"
    using display_mset [OF board_distinct [OF s] b0(1,2), of ?md "cp_Card co"] by (simp add: t b0(3) new)
  have pl: "st_Players t = upd i (\<lambda>p. p\<lparr>tp_Hand := tp_Hand p @ [?req]\<rparr>) (st_Players s1)"
    using i by (simp add: t s1_def take_off_def trade_hand_def upd_def in_range_def nat_less_iff)
  have h: "held (st_Players t) = held (st_Players s1) + {#(?req, ZHand, i)#}"
    using held_give [of i "st_Players s1" "[?req]"] i by (simp add: pl s1_def)
  show ?thesis
  proof (rule balanced_put [OF s1 req1])
    show "st_Copies t = AList.update ?req (cr\<lparr>cp_Zone := ZHand, cp_Owner := i, cp_Reserved := b1\<rparr>) (st_Copies s1)"
      by (simp add: t s1_def)
    have "held (st_Players s1) + on_board ?md (board_cards t) + {#(?req, ZBoard, ?j)#}
        = held (st_Players s1) + on_board ?md (board_cards s) + {#(?off, ZBoard, ?j)#}"
      unfolding add.assoc disp ..
    then show "held (st_Players t) + on_board ?md (board_cards t) + {#} + one ?req cr
        = held (st_Players s1) + on_board ?md (board_cards s1) + {#(?off, ZBoard, ?j)#}
          + one ?req (cr\<lparr>cp_Zone := ZHand, cp_Owner := i, cp_Reserved := b1\<rparr>)"
      using req by (simp add: one_def h s1_def)
    show "copy_good ?req (cr\<lparr>cp_Zone := ZHand, cp_Owner := i, cp_Reserved := b1\<rparr>)"
      using gr by (simp add: copy_good_def)
    show "map_option cp_Card (map_of (st_Copies s1) (cd_CopyID (bc_Card b))) = Some (bc_Card b)"
      if b: "b \<in> set (board_cards t)" for b
    proof -
      obtain x where x: "x \<in> set (board_cards s)" "b = display_card (cp_Card co) po x"
        using b by (auto simp: t)
      show ?thesis
      proof (cases "cd_CopyID (bc_Card x) = ?req")
        case True
        then show ?thesis using x(2) go by (simp add: display_card_def copy_good_def s1_def map_of_update)
      next
        case False
        then have bx: "b = x" using x(2) by (simp add: display_card_def)
        show ?thesis using balancedD(4) [OF s1, of x] x(1) by (simp add: bx s1_def)
      qed
    qed
  qed simp
qed

end
