(* ===== verification/Layouts.thy ===== *)
theory Layouts
  imports Moves
begin

section \<open>Laying out seeds and redealing\<close>

subsection \<open>Seeds\<close>

lemma set_board_mode [simp]: "bd_ModeID (st_Board (set_board_cards cs s)) = bd_ModeID (st_Board s)"
  by (simp add: set_board_cards_def)

lemma seed_loop_frame:
  "seed_loop md texts em s cs = Inr (s', em') \<Longrightarrow>
   st_Players s' = st_Players s \<and> revision s' = revision s \<and> st_History s' = st_History s
   \<and> st_Order s' = st_Order s \<and> st_Phase s' = st_Phase s \<and> st_Round s' = st_Round s \<and> st_Offer s' = st_Offer s
   \<and> st_Turn s' = st_Turn s \<and> st_RemainingVotes s' = st_RemainingVotes s \<and> st_Result s' = st_Result s
   \<and> st_Deadline s' = st_Deadline s \<and> st_PhaseID s' = st_PhaseID s \<and> st_PhaseSerial s' = st_PhaseSerial s
   \<and> st_Votes s' = st_Votes s \<and> st_Requests s' = st_Requests s \<and> st_BallotResult s' = st_BallotResult s
   \<and> st_Candidates s' = st_Candidates s \<and> st_Ready s' = st_Ready s
   \<and> bd_ModeID (st_Board s') = bd_ModeID (st_Board s)"
proof (induction md texts em s cs rule: seed_loop.induct)
  case (1 md texts emitted s)
  then show ?case by simp
next
  case (2 md texts emitted s i c rest)
  then show ?case by (auto split: if_splits)
qed

lemma balanced_seed:
  assumes s: "balanced md F s" and k: "map_of (st_Copies s) (cd_CopyID c) = None"
  shows "balanced md F (set_board_cards (board_cards s @ [seed_board_card md i c])
    (put_copy (cd_CopyID c) (seed_copy md i c) s))"
proof (rule balanced_new [OF s k])
  show "held (st_Players (set_board_cards (board_cards s @ [seed_board_card md i c])
        (put_copy (cd_CopyID c) (seed_copy md i c) s)))
      + on_board md (board_cards (set_board_cards (board_cards s @ [seed_board_card md i c])
          (put_copy (cd_CopyID c) (seed_copy md i c) s))) + F
      = held (st_Players s) + on_board md (board_cards s) + F + one (cd_CopyID c) (seed_copy md i c)"
    by (simp add: one_def seed_copy_def seed_board_card_def board_place_def)
  show "copy_good (cd_CopyID c) (seed_copy md i c)" by (simp add: copy_good_def seed_copy_def)
qed (auto simp: seed_copy_def seed_board_card_def)

lemma seed_loop_balanced:
  assumes "seed_loop md texts em s cs = Inr (s', em')" "balanced md F s"
    and "distinct (map (\<lambda>x. cd_CopyID (snd x)) cs)"
    and "\<forall>x\<in>set cs. map_of (st_Copies s) (cd_CopyID (snd x)) = None"
  shows "balanced md F s'"
  using assms
proof (induction md texts em s cs rule: seed_loop.induct)
  case (1 md texts emitted s)
  then show ?case by simp
next
  case (2 md texts emitted s i c rest)
  show ?case
  proof (cases "md = ModeBadBargains \<and> tp_Eliminated (player s i)")
    case True
    with 2 show ?thesis by (simp split: if_splits)
  next
    case False
    define s1 where "s1 = set_board_cards (board_cards s @ [seed_board_card md i c])
      (put_copy (cd_CopyID c) (seed_copy md i c) s)"
    have b: "balanced md F s1" unfolding s1_def using "2.prems" by (intro balanced_seed) simp_all
    have n: "\<forall>x\<in>set rest. map_of (st_Copies s1) (cd_CopyID (snd x)) = None"
      using "2.prems"(3,4) by (auto simp: s1_def map_of_update image_iff)
    have t: "tc_Text (cd_Content c) \<notin> set texts" using "2.prems"(1) by (auto split: if_splits)
    show ?thesis
      using "2.IH"(2) [OF t False] "2.prems"(1,3) b n t False by (auto simp: s1_def split: if_splits)
  qed
qed

text \<open>The registry grows by exactly the emitted cards, which are among the seeds.\<close>

lemma seed_loop_copies:
  assumes "seed_loop md texts em s cs = Inr (s', em')"
    and "distinct (map (\<lambda>x. cd_CopyID (snd x)) cs)"
    and "\<forall>x\<in>set cs. map_of (st_Copies s) (cd_CopyID (snd x)) = None"
  shows "length (st_Copies s') + length em = length (st_Copies s) + length em'
    \<and> set em' \<subseteq> set em \<union> snd ` set cs
    \<and> fst ` set (st_Copies s') \<subseteq> fst ` set (st_Copies s) \<union> (\<lambda>x. cd_CopyID (snd x)) ` set cs
    \<and> (\<forall>k c. map_of (st_Copies s') k = Some c \<longrightarrow> map_of (st_Copies s) k = Some c
        \<or> (\<exists>x\<in>set cs. cp_Card c = snd x \<and> \<not> cp_Reserved c \<and> k = cd_CopyID (snd x)))
    \<and> (\<forall>k c. map_of (st_Copies s) k = Some c \<longrightarrow> map_of (st_Copies s') k = Some c)"
  using assms
proof (induction md texts em s cs rule: seed_loop.induct)
  case (1 md texts emitted s)
  then show ?case by simp
next
  case (2 md texts emitted s i c rest)
  have t: "tc_Text (cd_Content c) \<notin> set texts" using "2.prems"(1) by (auto split: if_splits)
  show ?case
  proof (cases "md = ModeBadBargains \<and> tp_Eliminated (player s i)")
    case True
    with "2.IH"(1) [OF t True] "2.prems" t show ?thesis by (auto split: if_splits)
  next
    case False
    define s1 where "s1 = set_board_cards (board_cards s @ [seed_board_card md i c])
      (put_copy (cd_CopyID c) (seed_copy md i c) s)"
    have n: "\<forall>x\<in>set rest. map_of (st_Copies s1) (cd_CopyID (snd x)) = None"
      using "2.prems"(2,3) by (auto simp: s1_def map_of_update image_iff)
    have l: "length (st_Copies s1) = Suc (length (st_Copies s))"
      using "2.prems"(3) by (simp add: s1_def length_update)
    have f: "fst ` set (st_Copies s1) = insert (cd_CopyID c) (fst ` set (st_Copies s))"
      by (simp add: s1_def dom_update)
    have m: "map_of (st_Copies s1) k = (if k = cd_CopyID c then Some (seed_copy md i c) else map_of (st_Copies s) k)" for k
      by (simp add: s1_def map_of_update)
    have r: "seed_loop md (tc_Text (cd_Content c) # texts) (emitted @ [c]) s1 rest = Inr (s', em')"
      using "2.prems"(1) t False by (auto simp: s1_def split: if_splits)
    have d: "distinct (map (\<lambda>x. cd_CopyID (snd x)) rest)" using "2.prems"(2) by simp
    note IH = "2.IH"(2) [OF t False, folded s1_def, OF r d n]
    have new: "cp_Card (seed_copy md i c) = c" "\<not> cp_Reserved (seed_copy md i c)" by (simp_all add: seed_copy_def)
    have k0: "map_of (st_Copies s) (cd_CopyID c) = None" using "2.prems"(3) by simp
    have "\<forall>k c'. map_of (st_Copies s') k = Some c' \<longrightarrow> map_of (st_Copies s) k = Some c'
        \<or> (\<exists>x\<in>set ((i, c) # rest). cp_Card c' = snd x \<and> \<not> cp_Reserved c' \<and> k = cd_CopyID (snd x))"
    proof (intro allI impI)
      fix k c' assume "map_of (st_Copies s') k = Some c'"
      then consider "map_of (st_Copies s1) k = Some c'"
        | "\<exists>x\<in>set rest. cp_Card c' = snd x \<and> \<not> cp_Reserved c' \<and> k = cd_CopyID (snd x)"
        using IH by blast
      then show "map_of (st_Copies s) k = Some c'
        \<or> (\<exists>x\<in>set ((i, c) # rest). cp_Card c' = snd x \<and> \<not> cp_Reserved c' \<and> k = cd_CopyID (snd x))"
        using new by cases (auto simp: m split: if_splits)
    qed
    moreover have "\<forall>k c'. map_of (st_Copies s) k = Some c' \<longrightarrow> map_of (st_Copies s') k = Some c'"
      using IH k0 by (metis m option.distinct(1))
    ultimately show ?thesis using IH l f by auto
  qed
qed

lemma seed_loop_ok:
  "distinct (texts @ map (\<lambda>x. tc_Text (cd_Content (snd x))) cs) \<Longrightarrow> \<exists>r. seed_loop md texts em s cs = Inr r"
proof (induction md texts em s cs rule: seed_loop.induct)
  case (1 md texts emitted s)
  then show ?case by simp
next
  case (2 md texts emitted s i c rest)
  then show ?case by auto
qed

subsection \<open>The specialty shuffle\<close>

text \<open>
  The pooled copies are in flight under the entries they had; every step of \<open>redeal\<close> lands one.
\<close>

definition in_flight :: "copy_id list \<Rightarrow> text_state \<Rightarrow> (copy_id \<times> zone \<times> int) multiset" where
  "in_flight ks s = stamps (\<lambda>c. c) ks (st_Copies s)"

lemma in_flight_other:
  assumes "\<And>k. k \<in> set ks \<Longrightarrow> map_of (st_Copies t) k = map_of (st_Copies s) k"
  shows "in_flight ks t = in_flight ks s"
  unfolding in_flight_def stamps_def using assms
  by (intro arg_cong [where f = sum_list] map_cong refl) (simp add: copy_at_def)

lemma release_simps [simp]:
  "cp_Card (release c) = cp_Card c" "cp_Zone (release c) = cp_Zone c" "cp_Owner (release c) = cp_Owner c"
  "\<not> cp_Reserved (release c)"
  by (simp_all add: release_def)

lemma balanced_lay_out:
  assumes s: "balanced md (one k c0 + F) s" and k: "map_of (st_Copies s) k = Some c0"
  shows "balanced md F (lay_out md active i k (release c0) s)"
proof (rule balanced_put [OF s k])
  define t where "t = lay_out md active i k (release c0) s"
  have g: "copy_good k c0" by (rule balancedD(3) [OF s k])
  show "st_Copies (lay_out md active i k (release c0) s) = AList.update k ((release c0)\<lparr>cp_Zone := ZBoard,
      cp_Owner := (if md = ModeBadBargains then active ! i else -1)\<rparr>) (st_Copies s)"
    by (simp add: lay_out_def)
  show "held (st_Players (lay_out md active i k (release c0) s))
      + on_board md (board_cards (lay_out md active i k (release c0) s)) + F + one k c0
    = held (st_Players s) + on_board md (board_cards s) + (one k c0 + F) + one k ((release c0)\<lparr>cp_Zone := ZBoard,
      cp_Owner := (if md = ModeBadBargains then active ! i else -1)\<rparr>)"
    using g by (simp add: lay_out_def board_place_def copy_good_def one_def)
  show "copy_good k ((release c0)\<lparr>cp_Zone := ZBoard, cp_Owner := (if md = ModeBadBargains then active ! i else -1)\<rparr>)"
    using g by (simp add: copy_good_def)
  show "map_option cp_Card (map_of (st_Copies s) (cd_CopyID (bc_Card b))) = Some (bc_Card b)"
    if "b \<in> set (board_cards (lay_out md active i k (release c0) s))" for b
    using that balancedD(4) [OF s, of b] g k by (auto simp: lay_out_def copy_good_def)
qed simp

lemma balanced_deal_back:
  assumes s: "balanced md (one k c0 + F) s" and k: "map_of (st_Copies s) k = Some c0"
    and i: "in_range owner (st_Players s)"
  shows "balanced md F (deal_back owner k (release c0) s)"
proof (rule balanced_put [OF s k])
  have g: "copy_good k c0" by (rule balancedD(3) [OF s k])
  show "st_Copies (deal_back owner k (release c0) s)
      = AList.update k ((release c0)\<lparr>cp_Zone := ZHand, cp_Owner := owner\<rparr>) (st_Copies s)"
    by (simp add: deal_back_def)
  have "held (st_Players (deal_back owner k (release c0) s)) = held (st_Players s) + {#(k, ZHand, owner)#}"
    using held_give [OF i, of "[k]"] by (simp add: deal_back_def)
  then show "held (st_Players (deal_back owner k (release c0) s)) + on_board md (board_cards (deal_back owner k (release c0) s))
      + F + one k c0 = held (st_Players s) + on_board md (board_cards s) + (one k c0 + F)
      + one k ((release c0)\<lparr>cp_Zone := ZHand, cp_Owner := owner\<rparr>)"
    by (simp add: deal_back_def one_def)
  show "copy_good k ((release c0)\<lparr>cp_Zone := ZHand, cp_Owner := owner\<rparr>)" using g by (simp add: copy_good_def)
qed (simp_all add: deal_back_def balancedD(4) [OF s])

lemma redeal_balanced:
  assumes "redeal md active n i ks s cards = (s', cards')"
    and "balanced md (in_flight ks s + F) s" and "distinct ks"
    and "\<forall>k\<in>set ks. map_of (st_Copies s) k \<noteq> None"
    and "active \<noteq> []" and "\<forall>a\<in>set active. in_range a (st_Players s)"
  shows "balanced md F s'"
  using assms
proof (induction md active n i ks s cards rule: redeal.induct)
  case (1 md active n i s cards)
  then show ?case by (simp add: in_flight_def stamps_def)
next
  case (2 md active n i k ks s cards)
  obtain c0 where k: "map_of (st_Copies s) k = Some c0" using "2.prems"(4) by auto
  then have ca: "copy_at (st_Copies s) k = c0" by (simp add: copy_at_def)
  define o' where "o' = active ! ((i - n) mod length active)"
  define s1 where "s1 = (if i < n then lay_out md active i k (release c0) s else deal_back o' k (release c0) s)"
  have o': "in_range o' (st_Players s)" using "2.prems"(5,6) by (simp add: o'_def)
  have b: "balanced md (one k c0 + (in_flight ks s + F)) s"
    using "2.prems"(2) by (simp add: in_flight_def stamps_def ca ac_simps)
  have "balanced md (in_flight ks s + F) s1"
    using balanced_lay_out [OF b k] balanced_deal_back [OF b k o'] by (simp add: s1_def)
  moreover have m: "map_of (st_Copies s1) j = map_of (st_Copies s) j" if "j \<noteq> k" for j
    using that by (simp add: s1_def lay_out_def deal_back_def map_of_update)
  then have "in_flight ks s1 = in_flight ks s"
    using "2.prems"(3) by (intro in_flight_other m) auto
  ultimately have b1: "balanced md (in_flight ks s1 + F) s1" by simp
  have d: "distinct ks" using "2.prems"(3) by simp
  have r: "\<forall>j\<in>set ks. map_of (st_Copies s1) j \<noteq> None" using "2.prems"(3,4) m
    by (metis distinct.simps(2) list.set_intros(2))
  have p: "\<forall>a\<in>set active. in_range a (st_Players s1)"
    using "2.prems"(6) by (simp add: s1_def lay_out_def deal_back_def)
  show ?case
  proof (cases "i < n")
    case True
    then have "redeal md active n (Suc i) ks s1 (cards @ [cp_Card (release c0)]) = (s', cards')"
      using "2.prems"(1) by (simp add: s1_def ca Let_def)
    then show ?thesis
      using "2.IH"(1) [OF refl True] b1 d r p "2.prems"(5) by (simp add: ca s1_def True Let_def)
  next
    case False
    then have "redeal md active n (Suc i) ks s1 cards = (s', cards')"
      using "2.prems"(1) by (simp add: s1_def ca Let_def o'_def)
    then show ?thesis
      using "2.IH"(2) [OF refl False] b1 d r p "2.prems"(5) by (simp add: ca s1_def False Let_def o'_def)
  qed
qed

text \<open>The pool holds exactly what clearing the hands and the board takes away.\<close>

lemma stamps_append [simp]: "stamps g (xs @ ys) cs = stamps g xs cs + stamps g ys cs"
  by (simp add: stamps_def)

lemma stamps_concat: "stamps g (concat kss) cs = sum_list (map (\<lambda>ks. stamps g ks cs) kss)"
  by (induction kss) (simp_all add: stamps_def)

lemma stamps_mset: "mset ks = mset js \<Longrightarrow> stamps g ks cs = stamps g js cs"
proof -
  have e: "stamps g xs cs = \<Sum>\<^sub># (image_mset (\<lambda>k. one k (g (copy_at cs k))) (mset xs))" for xs
    by (induction xs) (simp_all add: stamps_def)
  assume "mset ks = mset js"
  then show "stamps g ks cs = stamps g js cs" by (simp add: e)
qed

lemma sum_list_filter:
  fixes f :: "'a \<Rightarrow> 'b::comm_monoid_add"
  shows "sum_list (map f (filter p xs)) = sum_list (map (\<lambda>x. if p x then f x else 0) xs)"
  by (induction xs) simp_all

definition emptied :: "text_player \<Rightarrow> text_player" where
  "emptied v = (if tp_Eliminated v then v else v\<lparr>tp_Hand := []\<rparr>)"

lemma pool_hands:
  assumes s: "balanced md F s"
  shows "held (map emptied (st_Players s))
      + stamps (\<lambda>c. c) (concat (map tp_Hand (filter (\<lambda>v. \<not> tp_Eliminated v) (st_Players s)))) (st_Copies s)
    = held (st_Players s)"
proof -
  let ?ps = "st_Players s" and ?cs = "st_Copies s"
  have hand: "stamps (\<lambda>c. c) (tp_Hand (?ps ! i)) ?cs = image_mset (\<lambda>k. (k, ZHand, int i)) (mset (tp_Hand (?ps ! i)))"
    if i: "i < length ?ps" for i
  proof (rule stamps_const)
    fix k assume k: "k \<in> set (tp_Hand (?ps ! i))"
    have "in_range (int i) ?ps" using i by (simp add: in_range_def)
    moreover have "k \<in> set (tp_Hand (player s (int i)))" using k by (simp add: player_def at_def)
    ultimately obtain c where "map_of ?cs k = Some c" "cp_Zone c = ZHand" "cp_Owner c = int i"
      using hand_entry [OF s] by metis
    then show "one k (copy_at ?cs k) = {#(k, ZHand, int i)#}" by (simp add: one_def copy_at_def)
  qed
  have "stamps (\<lambda>c. c) (concat (map tp_Hand (filter (\<lambda>v. \<not> tp_Eliminated v) ?ps))) ?cs
      = sum_list (map (\<lambda>v. stamps (\<lambda>c. c) (tp_Hand v) ?cs) (filter (\<lambda>v. \<not> tp_Eliminated v) ?ps))"
    by (simp add: stamps_concat comp_def)
  also have "\<dots> = sum_list (map (\<lambda>v. if \<not> tp_Eliminated v then stamps (\<lambda>c. c) (tp_Hand v) ?cs else 0) ?ps)"
    by (rule sum_list_filter)
  also have "\<dots> = (\<Sum>i<length ?ps. if \<not> tp_Eliminated (?ps ! i) then stamps (\<lambda>c. c) (tp_Hand (?ps ! i)) ?cs else {#})"
    by (simp add: sum_list_sum_nth atLeast0LessThan)
  finally have "held (map emptied ?ps)
      + stamps (\<lambda>c. c) (concat (map tp_Hand (filter (\<lambda>v. \<not> tp_Eliminated v) ?ps))) ?cs
    = held (map emptied ?ps)
      + (\<Sum>i<length ?ps. if \<not> tp_Eliminated (?ps ! i) then stamps (\<lambda>c. c) (tp_Hand (?ps ! i)) ?cs else {#})"
    by (rule arg_cong)
  also have "\<dots> = (\<Sum>i<length ?ps. holding (int i) (emptied (?ps ! i))
      + (if \<not> tp_Eliminated (?ps ! i) then stamps (\<lambda>c. c) (tp_Hand (?ps ! i)) ?cs else {#}))"
    by (simp add: held_sum sum.distrib)
  also have "\<dots> = held ?ps"
    unfolding held_sum by (rule sum.cong) (auto simp: hand holding_def emptied_def)
  finally show ?thesis .
qed

lemma pool_board:
  assumes s: "balanced md F s"
  shows "stamps (\<lambda>c. c) (map (\<lambda>b. cd_CopyID (bc_Card b)) (board_cards s)) (st_Copies s) = on_board md (board_cards s)"
proof -
  have "one (cd_CopyID (bc_Card b)) (copy_at (st_Copies s) (cd_CopyID (bc_Card b))) = {#board_place md b#}"
    if b: "b \<in> set (board_cards s)" for b
  proof -
    obtain c where "map_of (st_Copies s) (cd_CopyID (bc_Card b)) = Some c" "cp_Zone c = ZBoard"
      "cp_Owner c = snd (snd (board_place md b))" using board_entry [OF s b] by metis
    then show ?thesis by (simp add: one_def copy_at_def board_place_def)
  qed
  then have "map (\<lambda>b. one (cd_CopyID (bc_Card b)) (copy_at (st_Copies s) (cd_CopyID (bc_Card b)))) (board_cards s)
      = map (\<lambda>b. {#board_place md b#}) (board_cards s)" by simp
  then show ?thesis unfolding stamps_def map_map comp_def on_board_sum [symmetric] by (rule arg_cong)
qed

lemma shuffle_pool_in_flight:
  assumes s: "located md s" and ks: "mset ks = mset (shuffle_pool s)"
  shows "balanced md (in_flight ks (set_board_cards [] (bump_revision (clear_hands s))))
      (set_board_cards [] (bump_revision (clear_hands s)))"
proof -
  define t where "t = set_board_cards [] (bump_revision (clear_hands s))"
  have c: "st_Copies t = st_Copies s" by (simp add: t_def clear_hands_def)
  have p: "st_Players t = map emptied (st_Players s)"
    by (simp add: t_def clear_hands_def emptied_def [abs_def])
  have f: "in_flight ks t = stamps (\<lambda>c. c) (shuffle_pool s) (st_Copies s)"
    unfolding in_flight_def c by (rule stamps_mset [OF ks])
  have "held (st_Players t) + in_flight ks t = held (st_Players s) + on_board md (board_cards s)"
    unfolding f p shuffle_pool_def stamps_append pool_board [OF s]
    by (simp add: pool_hands [OF s] flip: add.assoc)
  then have "balanced md (in_flight ks t) t"
    using balancedD(1-3) [OF s] by (intro balancedI) (simp_all add: c, simp_all add: t_def)
  then show ?thesis by (simp only: t_def)
qed

lemma shuffle_pool_listed:
  assumes s: "located md s"
  shows "distinct (shuffle_pool s)" and "\<forall>k\<in>set (shuffle_pool s). map_of (st_Copies s) k \<noteq> None"
proof -
  have "image_mset fst (stamps (\<lambda>c. c) ks cs) = mset ks"
    if "\<forall>k\<in>set ks. one k (copy_at cs k) \<noteq> {#}" for ks cs
    using that by (induction ks) (auto simp: stamps_def one_def split: if_splits)
  note keys = this
  have active: "\<exists>c. map_of (st_Copies s) k = Some c \<and> cp_Zone c \<noteq> ZSpent" if "k \<in> set (shuffle_pool s)" for k
  proof -
    have "(\<exists>v\<in>set (st_Players s). k \<in> set (tp_Hand v)) \<or> (\<exists>b\<in>set (board_cards s). k = cd_CopyID (bc_Card b))"
      using that by (auto simp: shuffle_pool_def)
    then consider v where "v \<in> set (st_Players s)" "k \<in> set (tp_Hand v)"
      | b where "b \<in> set (board_cards s)" "k = cd_CopyID (bc_Card b)" by blast
    then show ?thesis
    proof cases
      case 1
      then obtain i where "i < length (st_Players s)" "st_Players s ! i = v" by (auto simp: in_set_conv_nth)
      then have "in_range (int i) (st_Players s)" "k \<in> set (tp_Hand (player s (int i)))"
        using 1 by (auto simp: in_range_def player_def at_def)
      from hand_entry [OF s this] obtain c where "map_of (st_Copies s) k = Some c" "cp_Zone c = ZHand" .
      then show ?thesis by auto
    next
      case 2
      from board_entry [OF s 2(1)] obtain c
        where "map_of (st_Copies s) k = Some c" "cp_Zone c = ZBoard" unfolding 2(2) .
      then show ?thesis by auto
    qed
  qed
  then show "\<forall>k\<in>set (shuffle_pool s). map_of (st_Copies s) k \<noteq> None" by fastforce
  have "\<forall>k\<in>set (shuffle_pool s). one k (copy_at (st_Copies s) k) \<noteq> {#}"
    using active by (fastforce simp: one_def copy_at_def)
  then have "image_mset fst (stamps (\<lambda>c. c) (shuffle_pool s) (st_Copies s)) = mset (shuffle_pool s)" by (rule keys)
  moreover have "stamps (\<lambda>c. c) (shuffle_pool s) (st_Copies s) \<subseteq># live (st_Copies s)"
    unfolding shuffle_pool_def stamps_append pool_board [OF s] balancedD(2) [OF s, symmetric]
    using pool_hands [OF s] by (metis add.right_neutral mset_subset_eq_add_right mset_subset_eq_mono_add subset_mset.order_refl)
  ultimately have "mset (shuffle_pool s) \<subseteq># mset (map fst (st_Copies s))"
    using live_keys image_mset_subseteq_mono by (metis subset_mset.order_trans)
  then show "distinct (shuffle_pool s)" by (rule distinct_mset_part [OF balancedD(1) [OF s]])
qed

end
