(* ===== verification/Stock.thy ===== *)
theory Stock
  imports Layouts
begin

section \<open>The stock of a match\<close>

text \<open>
  What the location rule needs beside itself: seats and turn order in range, registry entries
  that show the cards they were created with, seeds of later rounds not yet in play, and a
  registry as large as the seed events say.
\<close>

definition seats_ok :: "text_match \<Rightarrow> text_state \<Rightarrow> bool" where
  "seats_ok m s \<longleftrightarrow> int (length (st_Players s)) = mc_OriginalSize (tm_contract m)
     \<and> (\<forall>i\<in>set (st_Order s). in_range i (st_Players s)) \<and> 0 \<le> st_Round s"

definition registered_cards :: "text_match \<Rightarrow> text_state \<Rightarrow> bool" where
  "registered_cards m s \<longleftrightarrow>
     (\<forall>k c. map_of (st_Copies s) k = Some c \<longrightarrow> map_of (tm_allCopies m) k = Some (cp_Card c))"

definition fresh_seeds :: "text_match \<Rightarrow> text_state \<Rightarrow> nat \<Rightarrow> bool" where
  "fresh_seeds m s n \<longleftrightarrow> distinct (map cd_CopyID (concat (drop n (tm_seeds m))))
     \<and> (\<forall>c\<in>set (concat (drop n (tm_seeds m))). map_of (st_Copies s) (cd_CopyID c) = None)"

definition seed_total :: "public_action list \<Rightarrow> int" where
  "seed_total es = sum_list (map (\<lambda>e. if e_Kind e = EvSeed then int (length (slice (e_Cards e))) else 0) es)"

lemma seed_total_simps [simp]:
  "seed_total [] = 0" "seed_total (es @ fs) = seed_total es + seed_total fs"
  "seed_total [e] = (if e_Kind e = EvSeed then int (length (slice (e_Cards e))) else 0)"
  by (simp_all add: seed_total_def)

lemma expected_total: "expected_copies m s = tm_initialCopies m + seed_total (st_History s)"
proof -
  have "fold (\<lambda>e n. if e_Kind e = EvSeed then n + int (length (slice (e_Cards e))) else n) es n = n + seed_total es" for es n
    by (induction es arbitrary: n) (simp_all add: seed_total_def)
  then show ?thesis by (simp add: expected_copies_def)
qed

definition stocked :: "text_match \<Rightarrow> text_state \<Rightarrow> bool" where
  "stocked m s \<longleftrightarrow> located (mode m) s \<and> seats_ok m s \<and> registered_cards m s
     \<and> fresh_seeds m s (nat (st_Round s)) \<and> int (length (st_Copies s)) = expected_copies m s"

subsection \<open>Steps that keep the registry\<close>

definition keeps_registry :: "text_state \<Rightarrow> text_state \<Rightarrow> bool" where
  "keeps_registry s t \<longleftrightarrow> map fst (st_Copies t) = map fst (st_Copies s)
     \<and> (\<forall>k. map_option cp_Card (map_of (st_Copies t) k) = map_option cp_Card (map_of (st_Copies s) k))"

lemma keeps_registry_refl [simp]: "keeps_registry s s"
  by (simp add: keeps_registry_def)

lemma keeps_registry_trans: "keeps_registry s t \<Longrightarrow> keeps_registry t u \<Longrightarrow> keeps_registry s u"
  by (simp add: keeps_registry_def)

lemma keeps_registry_same: "st_Copies t = st_Copies s \<Longrightarrow> keeps_registry s t"
  by (simp add: keeps_registry_def)

lemma keeps_registry_put:
  assumes "map_of (st_Copies s) k = Some old" "cp_Card new = cp_Card old"
    and "st_Copies t = AList.update k new (st_Copies s)"
  shows "keeps_registry s t"
proof -
  have "k \<in> fst ` set (st_Copies s)" using map_of_SomeD [OF assms(1)] by force
  then show ?thesis using assms by (auto simp: keeps_registry_def update_keys map_of_update)
qed

lemma keeps_registry_length: "keeps_registry s t \<Longrightarrow> length (st_Copies t) = length (st_Copies s)"
  unfolding keeps_registry_def by (metis length_map)

text \<open>The side conditions under which a step keeps the stock.\<close>

definition quiet :: "text_state \<Rightarrow> text_state \<Rightarrow> bool" where
  "quiet s t \<longleftrightarrow> length (st_Players t) = length (st_Players s) \<and> st_Order t = st_Order s
     \<and> st_Round t = st_Round s \<and> seed_total (st_History t) = seed_total (st_History s)"

lemma stocked_step:
  assumes s: "stocked m s" and loc: "located (mode m) t" and reg: "keeps_registry s t" and q: "quiet s t"
  shows "stocked m t"
proof -
  have "registered_cards m t"
    unfolding registered_cards_def
  proof (intro allI impI)
    fix k c assume c: "map_of (st_Copies t) k = Some c"
    then obtain c' where "map_of (st_Copies s) k = Some c'" "cp_Card c' = cp_Card c"
      using reg unfolding keeps_registry_def by (metis (no_types, lifting) map_option_eq_Some option.map(2))
    then show "map_of (tm_allCopies m) k = Some (cp_Card c)"
      using s unfolding stocked_def registered_cards_def by metis
  qed
  moreover have "(map_of (st_Copies t) k = None) = (map_of (st_Copies s) k = None)" for k
    using reg unfolding keeps_registry_def by (metis option.map_disc_iff)
  then have "fresh_seeds m t (nat (st_Round t))"
    using s q by (simp add: stocked_def fresh_seeds_def quiet_def)
  ultimately show ?thesis
    using s loc q keeps_registry_length [OF reg]
    by (auto simp: stocked_def seats_ok_def quiet_def expected_total in_range_def)
qed

lemma quiet_refl [simp]: "quiet s s"
  by (simp add: quiet_def)

lemma quiet_trans: "quiet s t \<Longrightarrow> quiet t u \<Longrightarrow> quiet s u"
  by (simp add: quiet_def)

lemma stocked_same:
  assumes "stocked m s" "same_cards s t" "quiet s t"
  shows "stocked m t"
proof (rule stocked_step [OF assms(1) _ _ assms(3)])
  show "located (mode m) t" using balanced_same [OF assms(2)] assms(1) by (simp add: stocked_def)
  show "keeps_registry s t" using assms(2) by (simp add: keeps_registry_same same_cards_def)
qed

text \<open>Events other than seeds are quiet.\<close>

lemma new_event_kind [simp]: "e_Kind (new_event m s i k w now b cs) = k"
  "e_Cards (new_event m s i k w now b cs) = Some cs"
  by (simp_all add: new_event_def)

lemma quiet_event [simp]:
  "e_Kind (f (new_event m t i k w now b cs)) \<noteq> EvSeed \<Longrightarrow> quiet s (add_event m t i k w now b cs f) = quiet s t"
  by (simp add: quiet_def add_event_def)

lemma quiet_ops [simp]: "quiet s (upd_player i f t) = quiet s t" "quiet s (put_copy k c t) = quiet s t"
  "quiet s (bump_revision t) = quiet s t" "quiet s (set_board_cards bs t) = quiet s t"
  "quiet s (set_phase m t ph now n) = quiet s t"
  by (simp_all add: quiet_def)

lemma quiet_fields [simp]:
  "quiet s (t\<lparr>st_Copies := cs\<rparr>) = quiet s t"
  "quiet s (t\<lparr>st_Turn := x0\<rparr>) = quiet s t"
  "quiet s (t\<lparr>st_Offer := x1\<rparr>) = quiet s t"
  "quiet s (t\<lparr>st_Ready := x2\<rparr>) = quiet s t"
  "quiet s (t\<lparr>st_Votes := x3\<rparr>) = quiet s t"
  "quiet s (t\<lparr>st_Pokes := x4\<rparr>) = quiet s t"
  "quiet s (t\<lparr>st_Deadline := x5\<rparr>) = quiet s t"
  "quiet s (t\<lparr>st_ResultRevealed := x6\<rparr>) = quiet s t"
  "quiet s (t\<lparr>st_ResultRevealAt := x7\<rparr>) = quiet s t"
  "quiet s (t\<lparr>st_BallotResult := x8\<rparr>) = quiet s t"
  "quiet s (t\<lparr>st_RemainingVotes := x9\<rparr>) = quiet s t"
  "quiet s (t\<lparr>st_Requests := x11\<rparr>) = quiet s t"
  "quiet s (t\<lparr>st_ShuffleUsed := x12\<rparr>) = quiet s t"
  "quiet s (t\<lparr>st_RevoteUsed := x13\<rparr>) = quiet s t"
  "quiet s (t\<lparr>st_RevealCards := x14\<rparr>) = quiet s t"
  "quiet s (t\<lparr>st_RevealTarget := x15\<rparr>) = quiet s t"
  "quiet s (t\<lparr>st_BallotKind := x16\<rparr>) = quiet s t"
  "quiet s (t\<lparr>st_Candidates := x17\<rparr>) = quiet s t"
  "quiet s (t\<lparr>st_Result := x18\<rparr>) = quiet s t"
  by (simp_all add: quiet_def)

lemma quiet_discard: "quiet s (discard s i k)"
  by (simp add: quiet_def discard_def Let_def)

subsection \<open>Reservations\<close>

definition reserved_only :: "copy_id set \<Rightarrow> text_state \<Rightarrow> bool" where
  "reserved_only ks s \<longleftrightarrow> (\<forall>k c. map_of (st_Copies s) k = Some c \<longrightarrow> (cp_Reserved c \<longleftrightarrow> k \<in> ks))"

text \<open>A state without a pending offer.\<close>

definition calm :: "text_match \<Rightarrow> text_state \<Rightarrow> bool" where
  "calm m s \<longleftrightarrow> stocked m s \<and> st_Offer s = None \<and> reserved_only {} s"

lemma calm_same:
  "calm m s \<Longrightarrow> same_cards s t \<Longrightarrow> quiet s t \<Longrightarrow> st_Offer t = st_Offer s \<Longrightarrow> calm m t"
  using stocked_same by (auto simp: calm_def reserved_only_def same_cards_def)

lemma calm_discard:
  assumes "calm m s" "in_range i (st_Players s)" "k \<in> set (tp_Hand (player s i))"
  shows "calm m (discard s i k)"
proof -
  have s: "stocked m s" "located (mode m) s" using assms(1) by (simp_all add: calm_def stocked_def)
  obtain c where c: "map_of (st_Copies s) k = Some c" "cp_Zone c = ZHand" "cp_Owner c = i" "copy_good k c"
    using hand_entry [OF s(2) assms(2,3)] .
  have e: "st_Copies (discard s i k) = AList.update k (c\<lparr>cp_Zone := ZSpent, cp_Owner := -1\<rparr>) (st_Copies s)"
    by (simp add: discard_def Let_def copy_at_def c(1))
  have "keeps_registry s (discard s i k)" by (rule keeps_registry_put [OF c(1) _ e]) simp
  from stocked_step [OF s(1) balanced_discard [OF s(2) assms(2,3)] this quiet_discard]
  have "stocked m (discard s i k)" .
  moreover have "reserved_only {} (discard s i k)"
    using assms(1) c(1) by (auto simp: calm_def reserved_only_def e map_of_update)
  ultimately show ?thesis using assms(1) by (simp add: calm_def)
qed

lemma current_in_order: "0 \<le> current s \<Longrightarrow> current s \<in> set (st_Order s) \<or> st_Turn s < 1 \<or> st_Turn s > int (length (st_Order s))"
  by (auto simp: current_def at_def split: if_splits)

lemma current_range: "seats_ok m s \<Longrightarrow> 0 \<le> current s \<Longrightarrow> in_range (current s) (st_Players s)"
  using current_in_order [of s] by (auto simp: seats_ok_def current_def split: if_splits)

lemma calm_pass_current:
  assumes "calm m s" "0 \<le> current s"
  shows "calm m (pass_current m s why now)"
proof -
  let ?i = "current s"
  have r: "in_range ?i (st_Players s)" using assms current_range [of m s] by (simp add: calm_def stocked_def)
  show ?thesis
  proof (cases "why \<noteq> RNoRecipient \<and> tp_Hand (player s ?i) \<noteq> []")
    case True
    define k where "k = tp_Hand (player s ?i) ! discard_index m s ?i"
    have "discard_index m s ?i < length (tp_Hand (player s ?i))"
      unfolding discard_index_def using True by (intro rand_intn_less) simp
    then have k: "k \<in> set (tp_Hand (player s ?i))" by (simp add: k_def)
    have d: "calm m (discard s ?i k)" by (rule calm_discard [OF assms(1) r k])
    have "calm m (add_event m (discard s ?i k) ?i EvAutoPass why now (revision s)
        [cp_Card (copy_at (st_Copies s) k)] (\<lambda>e. e))"
      by (rule calm_same [OF d]) simp_all
    then show ?thesis using True by (simp add: pass_current_def Let_def k_def)
  next
    case False
    have "calm m (add_event m s ?i EvAutoPass why now (revision s) [] (\<lambda>e. e))"
      by (rule calm_same [OF assms(1)]) simp_all
    then show ?thesis using False by (auto simp: pass_current_def Let_def)
  qed
qed

interpretation calm_turns: turn_relation "\<lambda>m s t. calm m s \<longrightarrow> calm m t"
proof unfold_locales
  fix m s t u n ph now secs why
  show "calm m s \<longrightarrow> calm m s" by simp
  show "calm m s \<longrightarrow> calm m u" if "calm m s \<longrightarrow> calm m t" "calm m t \<longrightarrow> calm m u" using that by simp
  show "calm m s \<longrightarrow> calm m (s\<lparr>st_Turn := n\<rparr>)" using calm_same [of m s "s\<lparr>st_Turn := n\<rparr>"] by simp
  show "calm m s \<longrightarrow> calm m (set_phase m s ph now secs)" if "ph = PhasePlay \<or> ph = PhaseDiscussion"
    using calm_same [of m s "set_phase m s ph now secs"] by simp
  show "calm m s \<longrightarrow> calm m (pass_current m s why now)" if "0 \<le> current s"
    using calm_pass_current that by blast
qed

lemmas calm_nextTurn = calm_turns.R_nextTurn [rule_format]
  and calm_autoPass = calm_turns.R_autoPass [rule_format]

end
