(* ===== verification/Keeping.thy ===== *)
theory Keeping
  imports Stock
begin

section \<open>Every operation keeps the stock\<close>

text \<open>
  \<open>kept\<close> is the card invariant of a match: the stock is right and the reserved copies are
  exactly the two of the pending offer, which exists only while a trade response is awaited.
\<close>

definition pledged :: "text_match \<Rightarrow> text_state \<Rightarrow> pending_offer \<Rightarrow> bool" where
  "pledged m s po \<longleftrightarrow> mode m = ModeBadBargains \<and> in_range (po_ProposerSeat po) (st_Players s)
     \<and> in_range (po_RecipientSeat po) (st_Players s) \<and> po_ProposerSeat po \<noteq> po_RecipientSeat po
     \<and> (\<exists>co. map_of (st_Copies s) (po_OfferedCopyID po) = Some co \<and> cp_Zone co = ZHand
          \<and> cp_Owner co = po_ProposerSeat po)
     \<and> (\<exists>cr. map_of (st_Copies s) (po_RequestedCopyID po) = Some cr \<and> cp_Zone cr = ZBoard
          \<and> cp_Owner cr = po_RecipientSeat po)
     \<and> reserved_only {po_OfferedCopyID po, po_RequestedCopyID po} s"

definition kept :: "text_match \<Rightarrow> text_state \<Rightarrow> bool" where
  "kept m s \<longleftrightarrow> stocked m s \<and> (st_Offer s \<noteq> None \<longrightarrow> st_Phase s = PhaseTradeResponse)
     \<and> (case st_Offer s of None \<Rightarrow> reserved_only {} s | Some po \<Rightarrow> pledged m s po)"

lemma calm_kept: "calm m s \<Longrightarrow> kept m s"
  by (simp add: calm_def kept_def)

lemma kept_calm: "kept m s \<Longrightarrow> st_Phase s \<noteq> PhaseTradeResponse \<Longrightarrow> calm m s"
  by (cases "st_Offer s") (auto simp: calm_def kept_def)

lemma kept_calm_offer: "kept m s \<Longrightarrow> st_Offer s = None \<Longrightarrow> calm m s"
  by (simp add: calm_def kept_def)

lemma kept_same:
  "kept m s \<Longrightarrow> same_cards s t \<Longrightarrow> quiet s t \<Longrightarrow> st_Offer t = st_Offer s \<Longrightarrow> st_Phase t = st_Phase s \<Longrightarrow> kept m t"
  using stocked_same [of m s t]
  by (cases "st_Offer s") (auto simp: kept_def pledged_def reserved_only_def same_cards_def quiet_def in_range_def)

subsection \<open>Offers\<close>

lemma settle_copies:
  "st_Copies (settle_offer m s po seat res why now) =
    (let co = copy_at (st_Copies s) (po_OfferedCopyID po); cr = copy_at (st_Copies s) (po_RequestedCopyID po) in
     AList.update (po_RequestedCopyID po)
       (if res = ResAccept then cr\<lparr>cp_Zone := ZHand, cp_Owner := po_ProposerSeat po, cp_Reserved := False\<rparr>
        else cr\<lparr>cp_Reserved := False\<rparr>)
     (AList.update (po_OfferedCopyID po)
       (if res = ResAccept then co\<lparr>cp_Zone := ZBoard, cp_Owner := po_RecipientSeat po, cp_Reserved := False\<rparr>
        else co\<lparr>cp_Reserved := False\<rparr>) (st_Copies s)))"
  by (cases "copy_at (st_Copies s) (po_OfferedCopyID po)"; cases "copy_at (st_Copies s) (po_RequestedCopyID po)")
    (simp add: settle_offer_def Let_def release_def)

lemma settle_players:
  "st_Players (settle_offer m s po seat res why now) =
     (if res = ResAccept then upd (po_ProposerSeat po) (\<lambda>p. p\<lparr>tp_Hand := trade_hand po (tp_Hand p)\<rparr>) (st_Players s)
      else st_Players s)"
  by (simp add: settle_offer_def Let_def)

lemma settle_board:
  "board_cards (settle_offer m s po seat res why now) =
     (if res = ResAccept
      then map (display_card (cp_Card (copy_at (st_Copies s) (po_OfferedCopyID po))) po) (board_cards s)
      else board_cards s)"
proof -
  have [simp]: "board_cards (s\<lparr>st_Offer := x\<rparr>) = board_cards s" for s x by (simp add: board_cards_def)
  show ?thesis by (simp add: settle_offer_def Let_def release_def)
qed

lemma settle_frame [simp]:
  "st_Offer (settle_offer m s po seat res why now) = None"
  "st_Phase (settle_offer m s po seat res why now) = st_Phase s"
  "st_Order (settle_offer m s po seat res why now) = st_Order s"
  "st_Turn (settle_offer m s po seat res why now) = st_Turn s"
  "st_Round (settle_offer m s po seat res why now) = st_Round s"
  "st_Result (settle_offer m s po seat res why now) = st_Result s"
  "st_RemainingVotes (settle_offer m s po seat res why now) = st_RemainingVotes s"
  "st_Votes (settle_offer m s po seat res why now) = st_Votes s"
  "st_Candidates (settle_offer m s po seat res why now) = st_Candidates s"
  "st_BallotResult (settle_offer m s po seat res why now) = st_BallotResult s"
  "st_Deadline (settle_offer m s po seat res why now) = st_Deadline s"
  "st_PhaseID (settle_offer m s po seat res why now) = st_PhaseID s"
  "st_PhaseSerial (settle_offer m s po seat res why now) = st_PhaseSerial s"
  "st_Requests (settle_offer m s po seat res why now) = st_Requests s"
  "st_Ready (settle_offer m s po seat res why now) = st_Ready s"
  "length (st_Players (settle_offer m s po seat res why now)) = length (st_Players s)"
  by (simp_all add: settle_offer_def Let_def)

lemma quiet_settle: "quiet s (settle_offer m s po seat res why now)"
  by (simp add: quiet_def) (simp add: settle_offer_def Let_def add_event_def)

lemma calm_settle:
  assumes k: "kept m s" and po: "st_Offer s = Some po"
  shows "calm m (settle_offer m s po seat res why now)"
proof -
  define t where "t = settle_offer m s po seat res why now"
  have st: "stocked m s" and pl: "pledged m s po" using k po by (simp_all add: kept_def)
  have loc: "located (mode m) s" using st by (simp add: stocked_def)
  have md: "mode m = ModeBadBargains" and i: "in_range (po_ProposerSeat po) (st_Players s)"
    using pl by (simp_all add: pledged_def)
  obtain co where co: "map_of (st_Copies s) (po_OfferedCopyID po) = Some co" "cp_Zone co = ZHand"
    "cp_Owner co = po_ProposerSeat po" using pl by (auto simp: pledged_def)
  obtain cr where cr: "map_of (st_Copies s) (po_RequestedCopyID po) = Some cr" "cp_Zone cr = ZBoard"
    "cp_Owner cr = po_RecipientSeat po" using pl by (auto simp: pledged_def)
  have ne: "po_OfferedCopyID po \<noteq> po_RequestedCopyID po" using co cr by auto
  define co' where "co' = (if res = ResAccept
    then co\<lparr>cp_Zone := ZBoard, cp_Owner := po_RecipientSeat po, cp_Reserved := False\<rparr> else co\<lparr>cp_Reserved := False\<rparr>)"
  define cr' where "cr' = (if res = ResAccept
    then cr\<lparr>cp_Zone := ZHand, cp_Owner := po_ProposerSeat po, cp_Reserved := False\<rparr> else cr\<lparr>cp_Reserved := False\<rparr>)"
  define s1 where "s1 = put_copy (po_OfferedCopyID po) co' s"
  have copies: "st_Copies t = AList.update (po_RequestedCopyID po) cr' (st_Copies s1)"
    by (simp add: t_def settle_copies s1_def co'_def cr'_def copy_at_def co cr Let_def)
  have loc': "located (mode m) t"
  proof (cases "res = ResAccept")
    case True
    show ?thesis unfolding md
    proof (rule balanced_accept [OF loc [unfolded md] i refl co cr])
      show "st_Copies t = AList.update (po_RequestedCopyID po)
          (cr\<lparr>cp_Zone := ZHand, cp_Owner := po_ProposerSeat po, cp_Reserved := False\<rparr>)
          (AList.update (po_OfferedCopyID po)
            (co\<lparr>cp_Zone := ZBoard, cp_Owner := po_RecipientSeat po, cp_Reserved := False\<rparr>) (st_Copies s))"
        using True by (simp add: copies s1_def co'_def cr'_def)
    qed (simp_all add: t_def settle_players settle_board True copy_at_def co)
  next
    case False
    have b1: "located (mode m) s1" unfolding s1_def co'_def using False balanced_flag [OF loc co(1)] by simp
    have cr1: "map_of (st_Copies s1) (po_RequestedCopyID po) = Some cr" using cr ne by (simp add: s1_def map_of_update)
    have "located (mode m) (put_copy (po_RequestedCopyID po) cr' s1)"
      unfolding cr'_def using False balanced_flag [OF b1 cr1] by simp
    then show ?thesis
      by (rule balanced_same [rotated])
        (simp add: same_cards_def copies, simp add: t_def s1_def settle_players settle_board False)
  qed
  have "keeps_registry s s1" by (rule keeps_registry_put [OF co(1), of co']) (simp_all add: co'_def s1_def)
  moreover have "map_of (st_Copies s1) (po_RequestedCopyID po) = Some cr" using cr ne by (simp add: s1_def map_of_update)
  then have "keeps_registry s1 t" by (rule keeps_registry_put [OF _ _ copies]) (simp add: cr'_def)
  ultimately have reg: "keeps_registry s t" by (rule keeps_registry_trans)
  have "reserved_only {} t"
    using pl by (auto simp: reserved_only_def pledged_def copies s1_def map_of_update co'_def cr'_def)
  then show ?thesis
    using stocked_step [OF st loc' reg] quiet_settle by (simp add: calm_def t_def)
qed

lemma calm_resolveOffer:
  assumes "kept m s"
  shows "calm m (resolveOffer m s seat res why now)"
proof (cases "st_Offer s")
  case None
  then show ?thesis using assms kept_calm_offer by (simp add: resolveOffer_def)
next
  case (Some po)
  then show ?thesis using calm_settle [OF assms Some] calm_nextTurn by (simp add: resolveOffer_def Let_def)
qed

lemma kept_poke: "poke m s seat target now = Inr t \<Longrightarrow> kept m s \<Longrightarrow> kept m t"
  by (erule kept_same) (auto simp: poke_def Let_def split: option.splits if_splits)

subsection \<open>Rounds\<close>

definition seeds_registered :: "text_match \<Rightarrow> bool" where
  "seeds_registered m \<longleftrightarrow> (\<forall>c\<in>set (concat (tm_seeds m)). map_of (tm_allCopies m) (cd_CopyID c) = Some c)"

lemma same_cards_map:
  "(\<And>p. tp_Hand (f p) = tp_Hand p) \<Longrightarrow> (\<And>p. tp_Reserve (f p) = tp_Reserve p) \<Longrightarrow>
   same_cards s (t\<lparr>st_Players := map f (st_Players t)\<rparr>) = same_cards s t"
  by (simp add: same_cards_def board_cards_def comp_def)

lemma map_indexed_snd: "map (\<lambda>x. f (snd x)) (indexed xs) = map f xs"
proof -
  have "map (\<lambda>x. f (snd x)) (indexed xs) = map f (map snd (indexed xs))" by (simp only: map_map comp_def)
  then show ?thesis by simp
qed

lemma snd_indexed: "snd ` set (indexed xs) = set xs"
  by (simp only: set_map [symmetric] map_snd_indexed)

lemma calm_map_players:
  assumes "calm m s" "\<And>p. tp_Hand (f p) = tp_Hand p" "\<And>p. tp_Reserve (f p) = tp_Reserve p"
  shows "calm m (s\<lparr>st_Players := map f (st_Players s)\<rparr>)"
  using assms by (intro calm_same [OF assms(1)]) (simp_all add: same_cards_map, simp add: quiet_def)

lemma retire_board_frame [simp]:
  "st_Players (retire_board s) = st_Players s" "board_cards (retire_board s) = []"
  "st_Order (retire_board s) = st_Order s" "st_Round (retire_board s) = st_Round s"
  "st_History (retire_board s) = st_History s" "st_Offer (retire_board s) = st_Offer s"
  "quiet s (retire_board s)"
  by (simp_all add: retire_board_def quiet_def)

lemma calm_retire_board:
  assumes "calm m s"
  shows "calm m (retire_board s)"
proof -
  have s: "stocked m s" "located (mode m) s" using assms by (simp_all add: calm_def stocked_def)
  define ks where "ks = map (\<lambda>b. cd_CopyID (bc_Card b)) (board_cards s)"
  define g where "g = (\<lambda>c::text_copy. c\<lparr>cp_Zone := ZSpent, cp_Owner := -1\<rparr>)"
  have d: "distinct ks" unfolding ks_def by (rule board_distinct [OF s(2)])
  have p: "\<forall>k\<in>set ks. map_of (st_Copies s) k \<noteq> None"
    using balancedD(4) [OF s(2)] by (fastforce simp: ks_def)
  note r = restamp_fold [OF d p, of g]
  have copies: "st_Copies (retire_board s) = fold (restamp g) ks (st_Copies s)"
    by (simp add: retire_board_def ks_def g_def retire_restamp fold_map comp_def)
  have gc: "cp_Card (g c) = cp_Card c" "cp_Reserved (g c) = cp_Reserved c" for c by (simp_all add: g_def)
  have "map_option cp_Card (map_option g x) = map_option cp_Card x" for x by (cases x) (simp_all add: gc)
  then have "keeps_registry s (retire_board s)"
    by (auto simp: keeps_registry_def copies r(1,3) simp del: option.map_comp)
  from stocked_step [OF s(1) balanced_retire_board [OF s(2)] this] have "stocked m (retire_board s)" by simp
  moreover have "reserved_only {} (retire_board s)"
    using assms by (auto simp: calm_def reserved_only_def copies r(1) gc split: if_splits)
  ultimately show ?thesis using assms by (simp add: calm_def)
qed

text \<open>The seed loop over a whole round, in terms of the seeds.\<close>

lemma seeds_laid:
  assumes loop: "seed_loop md [] [] s (indexed seeds) = Inr (s', em)" and b: "balanced md F s"
    and d: "distinct (map cd_CopyID seeds)" and none: "\<forall>c\<in>set seeds. map_of (st_Copies s) (cd_CopyID c) = None"
  shows "balanced md F s'" and "length (st_Copies s') = length (st_Copies s) + length em"
    and "map_of (st_Copies s') k = Some c \<Longrightarrow>
      map_of (st_Copies s) k = Some c \<or> cp_Card c \<in> set seeds \<and> \<not> cp_Reserved c \<and> k = cd_CopyID (cp_Card c)"
    and "map_of (st_Copies s) k = None \<Longrightarrow> k \<notin> cd_CopyID ` set seeds \<Longrightarrow> map_of (st_Copies s') k = None"
proof -
  have dist: "distinct (map (\<lambda>x. cd_CopyID (snd x)) (indexed seeds))" using d by (simp only: map_indexed_snd)
  have "\<forall>x\<in>set (indexed seeds). map_of (st_Copies s) (cd_CopyID (snd x)) = None"
    using none snd_indexed [of seeds] by blast
  note f = seed_loop_balanced [OF loop b dist this] seed_loop_copies [OF loop dist this]
  show "balanced md F s'" by (rule f(1))
  show "length (st_Copies s') = length (st_Copies s) + length em" using f(2) by simp
  have img: "(\<lambda>x. cd_CopyID (snd x)) ` set (indexed seeds) = cd_CopyID ` set seeds"
  proof -
    have "(\<lambda>x. cd_CopyID (snd x)) ` set (indexed seeds) = cd_CopyID ` (snd ` set (indexed seeds))"
      by (simp only: image_image)
    then show ?thesis by (simp only: snd_indexed)
  qed
  { assume k: "map_of (st_Copies s') k = Some c"
    have "map_of (st_Copies s) k = Some c
        \<or> (\<exists>x\<in>set (indexed seeds). cp_Card c = snd x \<and> \<not> cp_Reserved c \<and> k = cd_CopyID (snd x))"
      using f(2) k by blast
    moreover have "snd x \<in> set seeds" if "x \<in> set (indexed seeds)" for x
      using that snd_indexed [of seeds] by blast
    ultimately show "map_of (st_Copies s) k = Some c \<or> cp_Card c \<in> set seeds \<and> \<not> cp_Reserved c \<and> k = cd_CopyID (cp_Card c)"
      by metis }
  { assume k: "map_of (st_Copies s) k = None" "k \<notin> cd_CopyID ` set seeds"
    have "fst ` set (st_Copies s') \<subseteq> fst ` set (st_Copies s) \<union> cd_CopyID ` set seeds"
      using f(2) unfolding img by blast
    then show "map_of (st_Copies s') k = None" using k by (auto simp: map_of_eq_None_iff) }
qed

text \<open>The opening of a round, before its seeds.\<close>

lemma open_round_stock:
  fixes now :: gotime
  assumes c: "calm m s"
  defines "s1 \<equiv> open_round m (s\<lparr>st_Round := st_Round s + 1\<rparr>) now"
  shows "located (mode m) s1" "seats_ok m s1" "registered_cards m s1" "fresh_seeds m s1 (nat (st_Round s))"
    "int (length (st_Copies s1)) = expected_copies m s1" "reserved_only {} s1"
    "st_Round s1 = st_Round s + 1" "st_Offer s1 = None" "board_cards s1 = []"
proof -
  define u where "u = retire_board (s\<lparr>st_RevealTarget := None, st_RevealCards := None,
      st_Players := map clear_round_player (st_Players s)\<rparr>)"
  have "calm m (s\<lparr>st_RevealTarget := None, st_RevealCards := None\<rparr>)" by (rule calm_same [OF c]) simp_all
  from calm_map_players [OF this, of clear_round_player]
  have "calm m (s\<lparr>st_RevealTarget := None, st_RevealCards := None, st_Players := map clear_round_player (st_Players s)\<rparr>)"
    by (simp add: clear_round_player_def)
  from calm_retire_board [OF this] have u: "calm m u" by (simp add: u_def)
  have f: "st_Copies s1 = st_Copies u" "st_Players s1 = st_Players u" "board_cards s1 = []"
    "st_Round s1 = st_Round s + 1" "st_History s1 = st_History u" "st_Offer s1 = None" "st_Round u = st_Round s"
    using c by (simp_all add: s1_def u_def open_round_def Let_def calm_def)
      (simp_all add: retire_board_def board_cards_def set_board_cards_def)
  show "st_Round s1 = st_Round s + 1" "st_Offer s1 = None" "board_cards s1 = []" by (rule f)+
  have "set (st_Order s1) \<subseteq> {i. in_range i (st_Players s1)}"
    by (auto simp: s1_def open_round_def Let_def set_seats_where)
  then show "seats_ok m s1" using u by (auto simp: calm_def stocked_def seats_ok_def f)
  have "board_cards u = []" by (simp add: u_def)
  then show "located (mode m) s1" using u by (simp add: calm_def stocked_def balanced_def f)
  show "registered_cards m s1" "int (length (st_Copies s1)) = expected_copies m s1" "reserved_only {} s1"
    "fresh_seeds m s1 (nat (st_Round s))"
    using u by (simp_all add: calm_def stocked_def registered_cards_def expected_total reserved_only_def fresh_seeds_def f)
qed

lemma beginRound_cases:
  assumes "beginRound m (s\<lparr>st_Round := st_Round s + 1\<rparr>) now = Inr t" and "0 \<le> st_Round s"
  obtains s2 em where "nat (st_Round s) < length (tm_seeds m)"
    and "seed_loop (mode m) [] [] (bump_revision (open_round m (s\<lparr>st_Round := st_Round s + 1\<rparr>) now))
      (indexed (tm_seeds m ! nat (st_Round s))) = Inr (s2, em)"
    and "t = (if em = [] then s2 else add_event m s2 (-1) EvSeed RSeed now
      (revision (open_round m (s\<lparr>st_Round := st_Round s + 1\<rparr>) now)) em (\<lambda>e. e))"
proof -
  have "in_range (st_Round s) (tm_seeds m)" using assms(1) by (simp add: beginRound_def Let_def split: if_splits)
  then have "nat (st_Round s) < length (tm_seeds m)" by (simp add: in_range_def nat_less_iff)
  then show thesis
    using assms(1) that
    by (auto simp: beginRound_def Let_def at_def split: if_splits sum.splits prod.splits)
qed

lemma calm_beginRound:
  assumes c: "calm m s" and wf: "seeds_registered m" and r: "0 \<le> st_Round s"
    and b: "beginRound m (s\<lparr>st_Round := st_Round s + 1\<rparr>) now = Inr t"
  shows "calm m t"
proof -
  define n where "n = nat (st_Round s)"
  define s1 where "s1 = bump_revision (open_round m (s\<lparr>st_Round := st_Round s + 1\<rparr>) now)"
  define seeds where "seeds = tm_seeds m ! n"
  note o' = open_round_stock [OF c, of now]
  obtain s2 em rv where nl: "n < length (tm_seeds m)"
    and loop: "seed_loop (mode m) [] [] s1 (indexed seeds) = Inr (s2, em)"
    and t: "t = (if em = [] then s2 else add_event m s2 (-1) EvSeed RSeed now rv em (\<lambda>e. e))"
    using beginRound_cases [OF b r] unfolding n_def s1_def seeds_def by metis
  have s1: "located (mode m) s1" "seats_ok m s1" "registered_cards m s1" "fresh_seeds m s1 n"
    "int (length (st_Copies s1)) = expected_copies m s1" "reserved_only {} s1" "st_Round s1 = st_Round s + 1"
    "st_Offer s1 = None"
    using o' by (simp_all add: s1_def n_def seats_ok_def registered_cards_def fresh_seeds_def expected_total
        reserved_only_def balanced_same [of "open_round m (s\<lparr>st_Round := st_Round s + 1\<rparr>) now"])
  have dc: "concat (drop n (tm_seeds m)) = seeds @ concat (drop (Suc n) (tm_seeds m))"
    using nl by (simp add: seeds_def flip: Cons_nth_drop_Suc)
  have fr: "distinct (map cd_CopyID (seeds @ concat (drop (Suc n) (tm_seeds m))))"
    "\<forall>x\<in>set (seeds @ concat (drop (Suc n) (tm_seeds m))). map_of (st_Copies s1) (cd_CopyID x) = None"
    using s1(4) by (simp_all add: fresh_seeds_def flip: dc)
  have "distinct (map cd_CopyID seeds)" "\<forall>x\<in>set seeds. map_of (st_Copies s1) (cd_CopyID x) = None"
    using fr by simp_all
  note laid = seeds_laid [OF loop s1(1) this] and fb = seed_loop_frame [OF loop]
  have tf: "st_Copies t = st_Copies s2" "st_Players t = st_Players s1" "st_Order t = st_Order s1"
    "st_Round t = st_Round s + 1" "st_Offer t = None"
    using fb s1 by (simp_all add: t)
  have "registered_cards m t"
    unfolding registered_cards_def tf(1)
  proof (intro allI impI)
    fix k x assume "map_of (st_Copies s2) k = Some x"
    from laid(3) [OF this] show "map_of (tm_allCopies m) k = Some (cp_Card x)"
      using s1(3) wf nth_mem [OF nl] by (auto simp: registered_cards_def seeds_registered_def seeds_def)
  qed
  moreover have "fresh_seeds m t (nat (st_Round t))"
  proof -
    have "map_of (st_Copies t) (cd_CopyID x) = None" if "x \<in> set (concat (drop (Suc n) (tm_seeds m)))" for x
      unfolding tf(1) using that fr by (intro laid(4)) (auto simp: image_iff)
    moreover have "nat (st_Round t) = Suc n" using r by (simp add: tf(4) n_def)
    ultimately show ?thesis using fr(1) by (simp add: fresh_seeds_def)
  qed
  moreover have "int (length (st_Copies t)) = expected_copies m t"
    using s1(5) laid(2) fb by (auto simp: expected_total t add_event_def)
  moreover have "reserved_only {} t"
    using s1(6) laid(3) by (fastforce simp: reserved_only_def tf(1))
  moreover have "located (mode m) t" using laid(1) by (rule balanced_same [rotated]) (simp add: t)
  ultimately show ?thesis using s1(2) r by (simp add: calm_def stocked_def seats_ok_def tf)
qed

end
