(* ===== verification/Keeping_Ops.thy ===== *)
theory Keeping_Ops
  imports Keeping
begin

section \<open>The stock through ballots, the clock and the actions\<close>

subsection \<open>Ballots and the end\<close>

lemma calm_recordBallot: "calm m s \<Longrightarrow> calm m (recordBallot m s r now)"
  by (erule calm_same) (simp_all add: recordBallot_def)

lemma calm_score_vote: "calm m (fst sp) \<Longrightarrow> calm m (fst (score_vote m now seat sp))"
  by (erule calm_same) (simp_all add: score_vote_def Let_def split: option.splits)

lemma calm_score_survival: "calm m (fst sp) \<Longrightarrow> calm m (fst (score_survival m now tied seat sp))"
  by (erule calm_same) (simp_all add: score_survival_def Let_def)

lemma calm_fold:
  assumes "calm m (fst sp)" "\<And>x sp. calm m (fst sp) \<Longrightarrow> calm m (fst (f x sp))"
  shows "calm m (fst (fold f xs sp))"
  using assms by (induction xs arbitrary: sp) simp_all

lemma calm_resolveVote:
  assumes c: "calm m s"
  shows "calm m (fst (resolveVote m s now p))"
proof (cases "length (tied_seats s) > 1 \<and> st_Phase s = PhaseKnowoff")
  case True
  have "calm m (open_runoff m s (tied_seats s) now)"
    by (rule calm_same [OF calm_recordBallot [OF c]]) (simp_all add: open_runoff_def)
  then show ?thesis using True by (simp add: resolveVote_def)
next
  case False
  let ?tied = "tied_seats s"
  let ?r = "final_result s ?tied"
  define s1 where "s1 = recordBallot m (s\<lparr>st_BallotResult := Some ?r\<rparr>) ?r now"
  have "calm m (s\<lparr>st_BallotResult := Some ?r\<rparr>)" by (rule calm_same [OF c]) simp_all
  then have "calm m s1" unfolding s1_def by (rule calm_recordBallot)
  then have "calm m (fst (fold (score_survival m now ?tied) (all_seats s1)
      (fold (score_vote m now) (all_seats s1) (s1, p))))" (is "calm m (fst ?sp)")
    by (intro calm_fold calm_score_vote calm_score_survival) simp
  then have "calm m ((set_phase m (fst ?sp) PhaseResult now (ti_VoteResultWindow (tm_timers m)))
      \<lparr>st_ResultRevealAt := unix_milli (add_seconds now (ti_VoteResultFalling (tm_timers m)))\<rparr>)"
    by (rule calm_same) simp_all
  then show ?thesis using False by (auto simp: resolveVote_def close_ballot_def Let_def s1_def)
qed

lemma kept_finish:
  assumes "kept m s"
  shows "kept m (fst (finish m s outcome winner now p))"
proof (cases "st_Result s = None")
  case False
  then show ?thesis using assms by (simp add: finish_def)
next
  case True
  define s1 where "s1 = (if st_Offer s \<noteq> None then resolveOffer m s (-1) ResCancel RForcedTransition now else s)"
  have c: "calm m s1" using assms calm_resolveOffer kept_calm_offer by (simp add: s1_def)
  from calm_map_players [OF c, of "\<lambda>v. v\<lparr>tp_Points := final_points m outcome winner v\<rparr>"]
  have "calm m (s1\<lparr>st_Players := map (\<lambda>v. v\<lparr>tp_Points := final_points m outcome winner v\<rparr>) (st_Players s1)\<rparr>)" by simp
  then have "calm m (fst (finish m s outcome winner now p))"
    using True by (elim calm_same) (auto simp: finish_def Let_def s1_def)
  then show ?thesis by (rule calm_kept)
qed

lemma calm_eliminate: "calm m s \<Longrightarrow> calm m (eliminate_voted s)"
  by (erule calm_same) (simp_all add: eliminate_voted_def split: option.splits)

text \<open>The state of a ballot whose result is applied and whose vote is used up.\<close>

abbreviation vote_spent :: "text_state \<Rightarrow> text_state" where
  "vote_spent s \<equiv> (eliminate_voted s)\<lparr>st_RemainingVotes := st_RemainingVotes (eliminate_voted s) - 1\<rparr>"

lemma finalizeVote_cases:
  assumes "finalizeVote m s now p = Inr (t, q)"
  obtains (caught) "uncaught (vote_spent s) = 0" "finish m (vote_spent s) MatchCompleted Nower now p = (t, q)"
  | (escaped) "st_RemainingVotes (vote_spent s) < uncaught (vote_spent s)"
      "finish m (vote_spent s) MatchCompleted Donower now p = (t, q)"
  | (begun) "beginRound m ((vote_spent s)\<lparr>st_Round := st_Round (vote_spent s) + 1\<rparr>) now = Inr t" "q = p"
      "uncaught (vote_spent s) \<noteq> 0" "uncaught (vote_spent s) \<le> st_RemainingVotes (vote_spent s)"
  using assms unfolding finalizeVote_def Let_def by (simp split: if_split_asm sum.split_asm add: not_less)

lemma kept_finalizeVote:
  assumes c: "calm m s" and wf: "seeds_registered m" and r: "0 \<le> st_Round s"
    and f: "finalizeVote m s now p = Inr (t, q)"
  shows "kept m t"
proof -
  have c2: "calm m (vote_spent s)" by (rule calm_same [OF calm_eliminate [OF c]]) simp_all
  have r2: "0 \<le> st_Round (vote_spent s)" using r by (simp add: eliminate_voted_def split: option.splits)
  from f show ?thesis
  proof (cases rule: finalizeVote_cases)
    case caught
    then show ?thesis using kept_finish [OF calm_kept [OF c2]] by (metis fst_conv)
  next
    case escaped
    then show ?thesis using kept_finish [OF calm_kept [OF c2]] by (metis fst_conv)
  next
    case begun
    from calm_beginRound [OF c2 wf r2 begun(1)] show ?thesis by (rule calm_kept)
  qed
qed

subsection \<open>The clock\<close>

lemma kept_upd_player:
  "kept m s \<Longrightarrow> (\<And>p. tp_Hand (f p) = tp_Hand p) \<Longrightarrow> (\<And>p. tp_Reserve (f p) = tp_Reserve p) \<Longrightarrow>
   kept m (upd_player i f s)"
  by (erule kept_same) simp_all

lemma kept_expire_graces:
  assumes "kept m (fst sp)"
  shows "kept m (fst (expire_graces m now sp))"
proof -
  have "kept m (fst (fold (expire_grace m now) xs sp))" for xs
    using assms by (induction xs arbitrary: sp) (simp_all add: expire_grace_def Let_def kept_upd_player)
  then show ?thesis by (simp add: expire_graces_def)
qed

definition step_state :: "step_result \<Rightarrow> text_state option" where
  "step_state r = (case r of Halt s p \<Rightarrow> Some s | Fall s p \<Rightarrow> Some s | Continue s p \<Rightarrow> Some s | Fail e \<Rightarrow> None)"

lemma step_state_simps [simp]:
  "step_state (Halt s p) = Some s" "step_state (Fall s p) = Some s" "step_state (Continue s p) = Some s"
  "step_state (Fail e) = None"
  by (simp_all add: step_state_def)

lemma calm_start_knowoff: "calm m s \<Longrightarrow> calm m (start_knowoff m s now)"
  by (erule calm_same) (simp_all add: start_knowoff_def)

lemma kept_advance_step:
  assumes k: "kept m s" and wf: "seeds_registered m" and r: "0 \<le> st_Round s"
    and t: "step_state (advance_step m s now p) = Some t"
  shows "kept m t"
proof (cases "st_Phase s = PhaseTradeResponse")
  case True
  then show ?thesis
    using t k calm_kept [OF calm_resolveOffer [OF k]] by (auto simp: advance_step_def split: if_splits)
next
  case False
  note c = kept_calm [OF k False]
  have vote: "kept m (fst (resolveVote m s now p))" by (rule calm_kept [OF calm_resolveVote [OF c]])
  show ?thesis
  proof (cases "st_Phase s = PhaseResult")
    case True
    define s1 where "s1 = (if unix_milli now \<ge> st_ResultRevealAt s then s\<lparr>st_ResultRevealed := True\<rparr> else s)"
    have c1: "calm m s1" by (rule calm_same [OF c]) (simp_all add: s1_def)
    have r1: "0 \<le> st_Round s1" using r by (simp add: s1_def)
    show ?thesis
      using t True calm_kept [OF c1] kept_finalizeVote [OF c1 wf r1]
      by (auto simp: advance_step_def Let_def s1_def [symmetric] split: if_splits sum.splits prod.splits)
  next
    case False
    then show ?thesis
      using t k vote c calm_kept [OF calm_nextTurn [OF c]] calm_kept [OF calm_autoPass [OF c]]
        calm_kept [OF calm_start_knowoff [OF c]] \<open>st_Phase s \<noteq> PhaseTradeResponse\<close>
      by (cases "st_Phase s") (auto simp: advance_step_def split: if_splits prod.splits)
  qed
qed

lemma stocked_round: "stocked m s \<Longrightarrow> 0 \<le> st_Round s"
  by (simp add: stocked_def seats_ok_def)

lemma kept_stocked: "kept m s \<Longrightarrow> stocked m s"
  by (simp add: kept_def)

lemma kept_advance_loop:
  assumes "seeds_registered m"
  shows "kept m s \<Longrightarrow> advance_loop n m s now p = Inr (t, q) \<Longrightarrow> kept m t"
proof (induction n arbitrary: s p)
  case 0
  then show ?case by simp
next
  case (Suc n)
  have step: "kept m s'" if "step_state (advance_step m s now p) = Some s'" for s'
    using kept_advance_step [OF Suc.prems(1) assms stocked_round [OF kept_stocked [OF Suc.prems(1)]] that] .
  show ?case
    using Suc.prems(2) Suc.IH step
    by (cases "advance_step m s now p") (auto split: if_splits)
qed

lemma advance_cases:
  assumes "advance m s now p = Inr (t, q)"
  obtains (over) "st_Result s \<noteq> None" "t = s" "q = p"
  | (absent) s1 p1 oc w where "st_Result s = None" "expire_graces m now (s, p) = (s1, p1)"
      "absence_outcome s1 = Some (oc, w)" "finish m s1 oc w now p1 = (t, q)"
  | (steps) s1 p1 where "st_Result s = None" "expire_graces m now (s, p) = (s1, p1)"
      "absence_outcome s1 = None" "advance_loop 12 m s1 now p1 = Inr (t, q)"
proof (cases "st_Result s = None")
  case False
  then have "t = s" "q = p" using assms by (simp_all add: advance_def)
  then show thesis by (rule over [OF False])
next
  case True
  obtain s1 p1 where g: "expire_graces m now (s, p) = (s1, p1)" by fastforce
  show thesis
  proof (cases "absence_outcome s1")
    case None
    then have "advance_loop 12 m s1 now p1 = Inr (t, q)" using assms True by (simp add: advance_def g absenceEnd_def)
    then show thesis by (rule steps [OF True g None])
  next
    case (Some x)
    then obtain oc w where x: "absence_outcome s1 = Some (oc, w)" by (cases x) auto
    then have "finish m s1 oc w now p1 = (t, q)" using assms True by (simp add: advance_def g absenceEnd_def)
    then show thesis by (rule absent [OF True g x])
  qed
qed

lemma kept_advance:
  assumes "seeds_registered m" "kept m s" "advance m s now p = Inr (t, q)"
  shows "kept m t"
proof -
  have graced: "kept m s1" if "expire_graces m now (s, p) = (s1, p1)" for s1 p1
    using kept_expire_graces [of m "(s, p)" now] assms(2) by (simp add: that)
  from assms(3) show ?thesis
  proof (cases rule: advance_cases)
    case over
    then show ?thesis using assms(2) by simp
  next
    case (absent s1 p1 oc w)
    then show ?thesis using kept_finish [OF graced] by (metis fst_conv)
  next
    case (steps s1 p1)
    then show ?thesis using kept_advance_loop [OF assms(1) graced] by blast
  qed
qed

subsection \<open>Actions\<close>

lemma keeps_registry_fields [simp]:
  "keeps_registry s (add_event m t i k w now b cs f) = keeps_registry s t"
  "keeps_registry s (bump_revision t) = keeps_registry s t"
  "keeps_registry s (set_board_cards bs t) = keeps_registry s t"
  "keeps_registry s (set_phase m t ph now n) = keeps_registry s t"
  "keeps_registry s (t\<lparr>st_Offer := po\<rparr>) = keeps_registry s t"
  by (simp_all add: keeps_registry_def)

lemma owned_copy:
  assumes "owned s seat k = Inr c"
  shows "map_of (st_Copies s) k = Some c" "cp_Zone c = ZHand" "cp_Owner c = seat" "\<not> cp_Reserved c"
  using assms by (auto simp: owned_def split: option.splits if_splits)

text \<open>A card that goes to the board from a hand: the registry and reservations after \<open>spend\<close>.\<close>

lemma spend_registry:
  assumes "map_of (st_Copies s) k = Some c" "cd_CopyID (cp_Card c) = k"
  shows "keeps_registry s (spend s seat c j)"
  by (rule keeps_registry_put [OF assms(1)]) (simp_all add: assms(2))

lemma spend_reserved:
  assumes "reserved_only {} s" "map_of (st_Copies s) k = Some c" "cd_CopyID (cp_Card c) = k"
  shows "reserved_only {} (spend s seat c j)"
  using assms by (auto simp: reserved_only_def map_of_update)

lemma quiet_spend [simp]: "quiet s (spend t seat c j) = quiet s t"
  by (simp add: quiet_def)

lemma calm_shown:
  assumes c: "calm m s" and own: "owned s seat k = Inr c"
    and b: "bc_Card b = cp_Card c" "bc_Seat b = None"
    and t: "same_cards (set_board_cards (board_cards s @ [b]) (spend s seat c (-1))) t"
      "quiet s t" "st_Offer t = None"
  shows "calm m t"
proof -
  have st: "stocked m s" and loc: "located (mode m) s" and res: "reserved_only {} s"
    using c by (simp_all add: calm_def stocked_def)
  note o' = owned_copy [OF own]
  have id: "cd_CopyID (cp_Card c) = k" using balancedD(3) [OF loc o'(1)] by (simp add: copy_good_def)
  note h = registered_hand [OF loc o'(1-3)]
  have pl: "board_place (mode m) b = (k, ZBoard, -1)" by (simp add: board_place_def b id)
  have "balanced (mode m) ({#} + {#board_place (mode m) b#}) (spend s seat c (-1))"
    unfolding pl by (rule balanced_spend [OF loc h o'(1)])
  then have "located (mode m) (set_board_cards (board_cards s @ [b]) (spend s seat c (-1)))"
    by (rule balanced_show) (simp_all add: b id map_of_update)
  then have "located (mode m) t" by (rule balanced_same [OF t(1)])
  moreover have "st_Copies t = st_Copies (spend s seat c (-1))" using t(1) by (simp add: same_cards_def)
  then have "keeps_registry s t" "reserved_only {} t"
    using spend_registry [OF o'(1) id, of seat "-1"] spend_reserved [OF res o'(1) id, of seat "-1"]
    by (simp_all add: keeps_registry_def reserved_only_def)
  ultimately show ?thesis using stocked_step [OF st _ _ t(2)] t(3) by (simp add: calm_def)
qed

lemma kind_string_seed [simp]: "kind_string k \<noteq> EvSeed"
  by (cases k) simp_all

lemma calm_play_new:
  assumes c: "calm m s" and own: "owned s seat k = Inr c" and t: "play_new m s seat a c now = Inr t"
  shows "calm m t"
proof (rule calm_shown [OF c own])
  let ?b = "(put_down seat (cp_Card c))\<lparr>bc_Rating := a_Rating a\<rparr>"
  show "bc_Card ?b = cp_Card c" "bc_Seat ?b = None" by (simp_all add: put_down_def)
  show "same_cards (set_board_cards (board_cards s @ [?b]) (spend s seat c (-1))) t" "quiet s t" "st_Offer t = None"
    using t c by (auto simp: play_new_def Let_def calm_def spend_def same_cards_def)
qed

lemma calm_play_top:
  assumes c: "calm m s" and own: "owned s seat k = Inr c" and t: "play_top m s seat a c now = Inr t"
  shows "calm m t"
proof (rule calm_shown [OF c own])
  let ?b = "put_down seat (cp_Card c)"
  show "bc_Card ?b = cp_Card c" "bc_Seat ?b = None" by (simp_all add: put_down_def)
  show "same_cards (set_board_cards (board_cards s @ [?b]) (spend s seat c (-1))) t" "quiet s t" "st_Offer t = None"
    using t c by (auto simp: play_top_def Let_def calm_def spend_def same_cards_def split: if_splits)
qed

lemma slot_index_length: "slot_index slot cs = Some i \<Longrightarrow> i < length cs"
proof -
  assume "slot_index slot cs = Some i"
  then obtain js where "filter (\<lambda>i. bc_Slot (cs ! i) = Some slot) (rev [0..<length cs]) = i # js"
    by (auto simp: slot_index_def split: list.splits)
  then have "i \<in> set (filter (\<lambda>i. bc_Slot (cs ! i) = Some slot) (rev [0..<length cs]))" by simp
  then show ?thesis by simp
qed

text \<open>
  \<open>replace\<close> retires the old card before it spends the new one; the two registry updates commute.
\<close>

lemma replace_located:
  assumes loc: "located md s" and o': "map_of (st_Copies s) k = Some c" "cp_Zone c = ZHand" "cp_Owner c = seat"
    and i: "i < length (board_cards s)" and b: "bc_Card b = cp_Card c" "bc_Seat b = None"
    and t: "st_Copies t = AList.update k (c\<lparr>cp_Zone := ZBoard, cp_Owner := -1\<rparr>)
        (retire_copy (cd_CopyID (bc_Card (board_cards s ! i))) (st_Copies s))"
      "st_Players t = upd seat (\<lambda>p. p\<lparr>tp_Hand := removeCopy (tp_Hand p) k\<rparr>) (st_Players s)"
      "board_cards t = (board_cards s)[i := b]"
  shows "located md t"
    and "map_of (st_Copies s) (cd_CopyID (bc_Card (board_cards s ! i))) = Some (copy_at (st_Copies s) (cd_CopyID (bc_Card (board_cards s ! i))))"
    and "cd_CopyID (bc_Card (board_cards s ! i)) \<noteq> k"
proof -
  let ?old = "cd_CopyID (bc_Card (board_cards s ! i))"
  have id: "cd_CopyID (cp_Card c) = k" using balancedD(3) [OF loc o'(1)] by (simp add: copy_good_def)
  note h = registered_hand [OF loc o']
  obtain old where old: "map_of (st_Copies s) ?old = Some old" "cp_Zone old = ZBoard"
    using board_entry [OF loc nth_mem [OF i]] by metis
  show ne: "?old \<noteq> k" using old o' by auto
  show "map_of (st_Copies s) ?old = Some (copy_at (st_Copies s) ?old)" by (simp add: copy_at_def old)
  define s1 where "s1 = spend s seat c (-1)"
  define s2 where "s2 = set_board_cards ((board_cards s)[i := b]) s1"
  have pl: "board_place md b = (k, ZBoard, -1)" by (simp add: board_place_def b id)
  have "balanced md ({#} + {#board_place md b#}) s1"
    unfolding pl s1_def by (rule balanced_spend [OF loc h o'(1)])
  then have "balanced md ({#} + {#board_place md (board_cards s1 ! i)#}) s2"
  proof (rule balanced_swap_board)
    show "i < length (board_cards s1)" by (simp add: s1_def i)
    show "map_option cp_Card (map_of (st_Copies s1) (cd_CopyID (bc_Card b))) = Some (bc_Card b)"
      by (simp add: s1_def b id map_of_update)
    show "st_Copies s2 = st_Copies s1" "st_Players s2 = st_Players s1" by (simp_all add: s2_def)
    show "board_cards s2 = (board_cards s1)[i := b]" by (simp add: s2_def s1_def)
  qed
  then have b2: "balanced md ({#} + {#(?old, ZBoard, snd (snd (board_place md (board_cards s ! i))))#}) s2"
    by (simp add: s1_def board_place_def)
  have "k \<in> fst ` set (st_Copies s)" using map_of_SomeD [OF o'(1)] by force
  then have "st_Copies t = retire_copy ?old (st_Copies s2)"
    using ne by (simp add: t s2_def s1_def id retire_copy_def copy_at_def map_of_update update_commute_present [OF not_sym [OF ne]])
  then show "located md t"
    by (rule balanced_retire [OF b2]) (simp_all add: t s2_def s1_def spend_def Let_def id)
qed

lemma calm_play_replace:
  assumes c: "calm m s" and own: "owned s seat k = Inr c" and t: "play_replace m s seat a c now = Inr t"
  shows "calm m t"
proof -
  have st: "stocked m s" and loc: "located (mode m) s" and res: "reserved_only {} s"
    using c by (simp_all add: calm_def stocked_def)
  note o' = owned_copy [OF own]
  have id: "cd_CopyID (cp_Card c) = k" using balancedD(3) [OF loc o'(1)] by (simp add: copy_good_def)
  obtain slot i where si: "a_Slot a = Some slot" "slot_index slot (board_cards s) = Some i"
    using t by (auto simp: play_replace_def split: option.splits)
  have i: "i < length (board_cards s)" by (rule slot_index_length [OF si(2)])
  let ?old = "cd_CopyID (bc_Card (board_cards s ! i))"
  let ?b = "(put_down seat (cp_Card c))\<lparr>bc_Slot := a_Slot a\<rparr>"
  have b: "bc_Card ?b = cp_Card c" "bc_Seat ?b = None" by (simp_all add: put_down_def)
  have [simp]: "board_cards (s\<lparr>st_Copies := x\<rparr>) = board_cards s" for s x by (simp add: board_cards_def)
  have tf: "st_Copies t = AList.update k (c\<lparr>cp_Zone := ZBoard, cp_Owner := -1\<rparr>) (retire_copy ?old (st_Copies s))"
    "st_Players t = upd seat (\<lambda>p. p\<lparr>tp_Hand := removeCopy (tp_Hand p) k\<rparr>) (st_Players s)"
    "board_cards t = (board_cards s)[i := ?b]" "st_Offer t = st_Offer s" "quiet s t"
    using t by (auto simp: play_replace_def si Let_def spend_def id)
  note rl = replace_located [OF loc o'(1-3) i b tf(1-3)]
  define s1 where "s1 = s\<lparr>st_Copies := retire_copy ?old (st_Copies s)\<rparr>"
  have "keeps_registry s s1"
    by (rule keeps_registry_put [OF rl(2)]) (simp_all add: s1_def retire_copy_def)
  moreover have "map_of (st_Copies s1) k = Some c" using o'(1) rl(3) by (auto simp: s1_def retire_copy_def map_of_update)
  then have "keeps_registry s1 t" by (rule keeps_registry_put) (simp_all add: tf(1) s1_def)
  ultimately have "keeps_registry s t" by (rule keeps_registry_trans)
  from stocked_step [OF st rl(1) this tf(5)] have "stocked m t" .
  moreover have "reserved_only {} t"
    using res rl(2) o' by (auto simp: reserved_only_def tf(1) retire_copy_def map_of_update)
  ultimately show ?thesis using c tf(4) by (simp add: calm_def)
qed

end
