(* ===== verification/Keeping_Acts.thy ===== *)
theory Keeping_Acts
  imports Keeping_Ops
begin

section \<open>The stock through draws, offers and specialties\<close>

text \<open>The last actions, the dispatcher \<open>act\<close> and the connection changes.\<close>

lemma restamped:
  assumes d: "distinct ks" and p: "\<forall>k\<in>set ks. map_of (st_Copies s) k \<noteq> None"
    and g: "\<And>c. cp_Card (g c) = cp_Card c" "\<And>c. cp_Reserved (g c) = cp_Reserved c"
    and t: "st_Copies t = fold (restamp g) ks (st_Copies s)"
  shows "keeps_registry s t" and "reserved_only js s \<Longrightarrow> reserved_only js t"
proof -
  note r = restamp_fold [OF d p, of g]
  have "map_option cp_Card (map_option g x) = map_option cp_Card x" for x by (cases x) (simp_all add: g(1))
  then show "keeps_registry s t" by (auto simp: keeps_registry_def t r(1,3) simp del: option.map_comp)
  show "reserved_only js s \<Longrightarrow> reserved_only js t"
    by (auto simp: reserved_only_def t r(1) g(2) split: if_splits)
qed

lemma calm_act_draw:
  assumes c: "calm m s" and i: "in_range seat (st_Players s)" and t: "act_draw m s seat a now = Inr t"
  shows "calm m t"
proof -
  have st: "stocked m s" and loc: "located (mode m) s" and res: "reserved_only {} s"
    using c by (simp_all add: calm_def stocked_def)
  obtain n where n: "a_Count a = Some n" using t by (auto simp: act_draw_def split: option.splits)
  define ks where "ks = take (nat n) (tp_Reserve (player s seat))"
  have sub: "set ks \<subseteq> set (tp_Reserve (player s seat))" by (simp add: ks_def set_take_subset)
  have d: "distinct ks" using own_distinct [OF loc i] by (simp add: ks_def)
  have p: "\<forall>k\<in>set ks. map_of (st_Copies s) k \<noteq> None"
    using reserve_entry [OF loc i] sub by (metis subset_iff option.distinct(1))
  define f where "f = (\<lambda>v::text_player. v\<lparr>tp_Hand := tp_Hand v @ ks, tp_Reserve := drop (nat n) (tp_Reserve v),
    tp_FreeDraws := tp_FreeDraws v - min n (tp_FreeDraws (player s seat)),
    tp_Points := tp_Points v - (n - min n (tp_FreeDraws (player s seat))) * pn_DrawPenalty (tm_points m)\<rparr>)"
  have tf: "st_Copies t = fold draw_copy ks (st_Copies s)" "board_cards t = board_cards s"
    "st_Players t = upd seat f (st_Players s)" "quiet s t" "st_Offer t = st_Offer s"
    using t by (auto simp: act_draw_def n Let_def ks_def f_def board_cards_def split: if_splits)
  have "located (mode m) t"
    by (rule balanced_draw [OF loc i ks_def tf(1-3)]) (simp_all add: f_def)
  moreover have "keeps_registry s t" "reserved_only {} t"
    using restamped [OF d p, of "\<lambda>c. c\<lparr>cp_Zone := ZHand\<rparr>" t] res by (simp_all add: tf(1) draw_restamp)
  ultimately show ?thesis using stocked_step [OF st _ _ tf(4)] c tf(5) by (simp add: calm_def)
qed

text \<open>An offer reserves two copies and moves none.\<close>

lemma kept_play_offer:
  assumes c: "calm m s" and i: "in_range seat (st_Players s)" and own: "owned s seat k = Inr c0"
    and nn: "\<And>j. a_TargetSeat a = Some j \<Longrightarrow> 0 \<le> j" and t: "play_offer m s seat a c0 now = Inr t"
  shows "kept m t"
proof -
  have st: "stocked m s" and loc: "located (mode m) s" and res: "reserved_only {} s"
    using c by (simp_all add: calm_def stocked_def)
  note o' = owned_copy [OF own]
  obtain j cr where j: "a_TargetSeat a = Some j" "j < int (length (st_Players s))" "j \<noteq> seat"
    and cr: "map_of (st_Copies s) (a_TargetCopyID a) = Some cr" "cp_Zone cr = ZBoard" "cp_Owner cr = j"
    using t by (auto simp: play_offer_def Let_def split: option.splits if_splits)
  let ?r = "a_TargetCopyID a"
  have id: "cd_CopyID (cp_Card c0) = k" "cd_CopyID (cp_Card cr) = ?r"
    using balancedD(3) [OF loc o'(1)] balancedD(3) [OF loc cr(1)] by (simp_all add: copy_good_def)
  have ne: "k \<noteq> ?r" using o' cr by auto
  obtain b where "board_place (mode m) b = (?r, ZBoard, j)"
    using registered_board [OF loc cr(1,2)] cr(3) by metis
  then have md: "mode m = ModeBadBargains" using nn [OF j(1)] by (auto simp: board_place_def split: if_splits)
  have [simp]: "board_cards (s\<lparr>st_Offer := x\<rparr>) = board_cards s" for s x by (simp add: board_cards_def)
  have tf: "st_Copies t = AList.update ?r (cr\<lparr>cp_Reserved := True\<rparr>) (AList.update k (c0\<lparr>cp_Reserved := True\<rparr>) (st_Copies s))"
    "st_Players t = st_Players s" "board_cards t = board_cards s" "quiet s t" "st_Phase t = PhaseTradeResponse"
    using t ne by (auto simp: play_offer_def Let_def j cr id split: if_splits)
  obtain po where po: "st_Offer t = Some po" "po_ProposerSeat po = seat" "po_RecipientSeat po = j"
    "po_OfferedCopyID po = k" "po_RequestedCopyID po = ?r"
    using t by (auto simp: play_offer_def Let_def j cr id split: if_splits)
  define s1 where "s1 = put_copy k (c0\<lparr>cp_Reserved := True\<rparr>) s"
  have cr1: "map_of (st_Copies s1) ?r = Some cr" using cr ne by (simp add: s1_def map_of_update)
  have b1: "located (mode m) s1" unfolding s1_def by (rule balanced_flag [OF loc o'(1)])
  have "located (mode m) (put_copy ?r (cr\<lparr>cp_Reserved := True\<rparr>) s1)" by (rule balanced_flag [OF b1 cr1])
  then have "located (mode m) t"
    by (rule balanced_same [rotated]) (simp add: same_cards_def tf(1-3), simp add: s1_def)
  moreover have "keeps_registry s s1" by (rule keeps_registry_put [OF o'(1)]) (simp_all add: s1_def)
  moreover have "keeps_registry s1 t" by (rule keeps_registry_put [OF cr1]) (simp_all add: s1_def tf(1))
  ultimately have "stocked m t" using stocked_step [OF st _ keeps_registry_trans tf(4)] by blast
  moreover have "reserved_only {k, ?r} t"
    using res by (auto simp: reserved_only_def tf(1) map_of_update)
  then have "pledged m t po"
    using o' cr ne i j nn [OF j(1)]
    by (simp add: pledged_def md po tf(1,2) map_of_update in_range_def)
  ultimately show ?thesis using po(1) tf(5) by (simp add: kept_def)
qed

subsection \<open>The specialty shuffle\<close>

text \<open>Turns eliminate nobody.\<close>

abbreviation eliminations :: "text_state \<Rightarrow> bool list" where
  "eliminations s \<equiv> map tp_Eliminated (st_Players s)"

interpretation same_eliminations: turn_relation "\<lambda>m s t. eliminations t = eliminations s"
proof unfold_locales
  fix m s t u n ph now secs why
  show "eliminations s = eliminations s" by simp
  show "eliminations u = eliminations s" if "eliminations t = eliminations s" "eliminations u = eliminations t"
    using that by simp
  show "eliminations (s\<lparr>st_Turn := n\<rparr>) = eliminations s" by simp
  show "eliminations (set_phase m s ph now secs) = eliminations s" by simp
  show "eliminations (pass_current m s why now) = eliminations s"
    by (simp add: pass_current_def discard_def Let_def map_upd_same)
qed

lemma eliminations_resolveOffer: "eliminations (resolveOffer m s seat res why now) = eliminations s"
proof -
  have "eliminations (settle_offer m s po seat res why now) = eliminations s" for po
    by (simp add: settle_players map_upd_same)
  then show ?thesis
    by (cases "st_Offer s") (auto simp: resolveOffer_def Let_def same_eliminations.R_nextTurn)
qed

lemma redeal_frame:
  assumes "redeal md active n i ks s cards = (s', cards')" "\<forall>k\<in>set ks. map_of (st_Copies s) k \<noteq> None"
  shows "keeps_registry s s' \<and> quiet s s' \<and> st_Offer s' = st_Offer s \<and> (reserved_only {} s \<longrightarrow> reserved_only {} s')"
  using assms
proof (induction md active n i ks s cards rule: redeal.induct)
  case (1 md active n i s cards)
  then show ?case by simp
next
  case (2 md active n i k ks s cards)
  obtain c where k: "map_of (st_Copies s) k = Some c" using "2.prems"(2) by auto
  then have ca: "copy_at (st_Copies s) k = c" by (simp add: copy_at_def)
  define owner where "owner = active ! ((i - n) mod length active)"
  define s1 where "s1 = (if i < n then lay_out md active i k (release c) s else deal_back owner k (release c) s)"
  obtain c1 where c1: "st_Copies s1 = AList.update k c1 (st_Copies s)" "cp_Card c1 = cp_Card c" "\<not> cp_Reserved c1"
    by (cases "i < n") (simp_all add: s1_def lay_out_def deal_back_def)
  have a: "keeps_registry s s1" by (rule keeps_registry_put [OF k c1(2,1)])
  have b: "quiet s s1" "st_Offer s1 = st_Offer s" by (simp_all add: s1_def lay_out_def deal_back_def)
  have r: "reserved_only {} s \<Longrightarrow> reserved_only {} s1" using c1(3) by (auto simp: reserved_only_def c1(1) map_of_update)
  have p: "\<forall>j\<in>set ks. map_of (st_Copies s1) j \<noteq> None" using "2.prems"(2) by (auto simp: c1(1) map_of_update)
  have "keeps_registry s1 s' \<and> quiet s1 s' \<and> st_Offer s' = st_Offer s1 \<and> (reserved_only {} s1 \<longrightarrow> reserved_only {} s')"
    using "2.IH" "2.prems"(1) p by (cases "i < n") (simp_all add: s1_def ca owner_def Let_def)
  then show ?case using a b r keeps_registry_trans quiet_trans by metis
qed

lemma clear_hands_quiet: "quiet s (clear_hands s)"
  by (simp add: quiet_def clear_hands_def)

lemma calm_shuffleSpecialty:
  assumes c: "calm m s" and act: "active_seats s \<noteq> []" and t: "shuffleSpecialty m s now = Inr t"
  shows "calm m t"
proof -
  have st: "stocked m s" and loc: "located (mode m) s" and res: "reserved_only {} s"
    using c by (simp_all add: calm_def stocked_def)
  define ks where "ks = go_shuffle (tm_rng m (tm_seed m + int (length (st_History s)) * 32452843)) 0 (shuffle_pool s)"
  define s0 where "s0 = set_board_cards [] (bump_revision (clear_hands s))"
  define n where "n = shuffle_layout (mode m) (active_seats s)"
  have ms: "mset ks = mset (shuffle_pool s)" unfolding ks_def by simp
  obtain s1 cards where rd: "redeal (mode m) (active_seats s) n 0 ks s0 [] = (s1, cards)" by fastforce
  have c0: "st_Copies s0 = st_Copies s" "st_Offer s0 = None" "quiet s s0"
    using c clear_hands_quiet by (simp_all add: s0_def clear_hands_def calm_def quiet_def)
  have pool: "distinct ks" "\<forall>k\<in>set ks. map_of (st_Copies s0) k \<noteq> None"
    using shuffle_pool_listed [OF loc] ms by (metis mset_eq_imp_distinct_iff, metis c0(1) mset_eq_setD)
  have range: "\<forall>a\<in>set (active_seats s). in_range a (st_Players s0)"
    by (auto simp: active_seats_def set_seats_where s0_def clear_hands_def in_range_def)
  have "balanced (mode m) (in_flight ks s0 + {#}) s0"
    using shuffle_pool_in_flight [OF loc ms] by (simp add: s0_def)
  from redeal_balanced [OF rd this pool act range] have l1: "located (mode m) s1" .
  note fr = redeal_frame [OF rd pool(2)]
  have "keeps_registry s s1" using fr keeps_registry_same [OF c0(1)] keeps_registry_trans by blast
  moreover have "quiet s s1" using fr c0(3) quiet_trans by blast
  ultimately have "stocked m s1" using stocked_step [OF st l1] by blast
  moreover have "reserved_only {} s1" using fr res by (simp add: reserved_only_def c0(1))
  ultimately have c1: "calm m s1" using fr c0(2) by (simp add: calm_def)
  define s3 where "s3 = nextTurn m ((add_event m s1 (-1) EvShuffle RPlayer now (revision s) cards (\<lambda>e. e))\<lparr>st_Turn := 0\<rparr>) now"
  have "calm m s3" unfolding s3_def by (rule calm_nextTurn, rule calm_same [OF c1]) simp_all
  moreover have "t = s3 \<or> (\<exists>d. t = s3\<lparr>st_Deadline := d\<rparr>)"
    using t rd by (auto simp: shuffleSpecialty_def Let_def s3_def ks_def s0_def n_def split: if_splits)
  ultimately show ?thesis using calm_same [of m s3 t] by auto
qed

subsection \<open>Specialties\<close>

lemma active_seat: "in_range i (st_Players s) \<Longrightarrow> \<not> tp_Eliminated (player s i) \<Longrightarrow> active_seats s \<noteq> []"
proof -
  assume "in_range i (st_Players s)" "\<not> tp_Eliminated (player s i)"
  then have "i \<in> set (active_seats s)" by (simp add: active_seats_def set_seats_where player_def)
  then show "active_seats s \<noteq> []" by auto
qed

lemma in_range_eliminations:
  "eliminations t = eliminations s \<Longrightarrow> in_range i (st_Players t) = in_range i (st_Players s)"
  by (drule map_eq_imp_length_eq) (simp add: in_range_def)

lemma eliminated_same:
  assumes "eliminations t = eliminations s" "in_range i (st_Players s)"
  shows "tp_Eliminated (player t i) = tp_Eliminated (player s i)"
proof -
  have l: "nat i < length (st_Players t)" "nat i < length (st_Players s)"
    using assms(2) in_range_eliminations [OF assms(1), of i] by (simp_all add: in_range_def nat_less_iff)
  have "map tp_Eliminated (st_Players t) ! nat i = map tp_Eliminated (st_Players s) ! nat i" using assms by simp
  then show ?thesis using l by (simp add: player_def at_def)
qed

lemma calm_use_shuffle:
  assumes k: "kept m s" and i: "in_range seat (st_Players s)" "\<not> tp_Eliminated (player s seat)"
    and t: "use_shuffle m s seat now = Inr t"
  shows "calm m t"
proof -
  define s1 where "s1 = (if st_Offer s \<noteq> None then resolveOffer m s (-1) ResCancel RForcedTransition now else s)"
  have c1: "calm m s1" using k calm_resolveOffer kept_calm_offer by (simp add: s1_def)
  have e1: "eliminations s1 = eliminations s" by (simp add: s1_def eliminations_resolveOffer)
  define s2 where "s2 = (upd_player seat (\<lambda>v. v\<lparr>tp_Specialty := NoSpecialty\<rparr>) s1)\<lparr>st_ShuffleUsed := True\<rparr>"
  have c2: "calm m s2" unfolding s2_def by (rule calm_same [OF c1]) simp_all
  have e2: "eliminations s2 = eliminations s" by (simp add: s2_def map_upd_same e1)
  have "active_seats s2 \<noteq> []"
    using active_seat [of seat s2] i in_range_eliminations [OF e2] eliminated_same [OF e2] by blast
  then show ?thesis
    using t calm_shuffleSpecialty [OF c2] by (auto simp: use_shuffle_def Let_def s1_def s2_def split: if_splits)
qed

lemma kept_use_revote:
  assumes "use_revote m s seat now = Inr t" "kept m s" "st_Phase s \<noteq> PhaseTradeResponse"
  shows "kept m t"
proof -
  have "calm m s" using assms kept_calm by simp
  then have "calm m t"
    by (rule calm_same) (use assms(1) in \<open>auto simp: use_revote_def Let_def split: if_splits\<close>)
  then show ?thesis by (rule calm_kept)
qed

lemma view_reveal_state:
  assumes "view_reveal m s seat now = Inr t"
  obtains d where "t = upd_player seat (\<lambda>v. v\<lparr>tp_RevealUsed := True, tp_RevealUntil := d\<rparr>) s"
  using assms by (auto simp: view_reveal_def Let_def split: if_splits option.splits)

lemma kept_view_reveal: "view_reveal m s seat now = Inr t \<Longrightarrow> kept m s \<Longrightarrow> kept m t"
  by (erule view_reveal_state) (simp add: kept_upd_player)

lemma calm_use_reveal:
  assumes c: "calm m s" and t: "use_reveal m s seat target now = Inr t"
  shows "calm m t"
proof -
  define s1 where "s1 = drop_specialty seat s"
  have c1: "calm m s1" unfolding s1_def by (rule calm_same [OF c]) (simp_all add: drop_specialty_def)
  define s2 where "s2 = s1\<lparr>st_Players := map (\<lambda>v. v\<lparr>tp_RevealUsed := False, tp_RevealUntil := 0\<rparr>) (st_Players s1)\<rparr>"
  have c2: "calm m s2" unfolding s2_def by (rule calm_map_players [OF c1]) simp_all
  define s3 where "s3 = s2\<lparr>st_RevealTarget := Some target\<rparr>"
  have c3: "calm m s3" unfolding s3_def by (rule calm_same [OF c2]) simp_all
  have "t = add_event m (s3\<lparr>st_RevealCards := Some (reveal_of s3 target)\<rparr>) seat EvReveal RPlayer now (revision s) []
      (\<lambda>e. e\<lparr>e_TargetSeat := Some target\<rparr>)"
    using t by (simp add: use_reveal_def Let_def s1_def s2_def s3_def split: if_splits)
  then show ?thesis by (intro calm_same [OF c3]) simp_all
qed

lemma calm_turn_card:
  assumes c: "calm m s" and t: "turn_card m s seat a now k = Inr t"
  shows "calm m t"
proof -
  have pass: "calm m t" if "use_pass m s seat now = Inr t"
  proof -
    have "calm m (add_event m (drop_specialty seat s) seat EvPass RPlayer now (revision s) [] (\<lambda>e. e))"
      by (rule calm_same [OF c]) (simp_all add: drop_specialty_def)
    then show ?thesis using that calm_nextTurn by (auto simp: use_pass_def)
  qed
  have free: "calm m t" if "use_free_card m s seat now = Inr t"
    by (rule calm_same [OF c])
      (use that in \<open>auto simp: use_free_card_def drop_specialty_def split: if_splits\<close>)
  show ?thesis using t pass free calm_use_reveal [OF c] by (cases k) (auto split: option.splits)
qed

lemma kept_specialty:
  assumes k: "kept m s" and i: "in_range seat (st_Players s)" "\<not> tp_Eliminated (player s seat)"
    and rv: "a_Kind a = ActionRevote \<Longrightarrow> st_Phase s \<noteq> PhaseTradeResponse"
    and t: "specialty m s seat a now = Inr t"
  shows "kept m t"
proof -
  have "kept m t" if "view_reveal m s seat now = Inr t" by (rule kept_view_reveal [OF that k])
  moreover have "kept m t" if "use_shuffle m s seat now = Inr t"
    by (rule calm_kept [OF calm_use_shuffle [OF k i that]])
  moreover have "kept m t" if "use_revote m s seat now = Inr t" "a_Kind a = ActionRevote"
    by (rule kept_use_revote [OF that(1) k rv [OF that(2)]])
  moreover have "kept m t" if "st_Phase s = PhasePlay" "turn_card m s seat a now (a_Kind a) = Inr t"
    using calm_kept [OF calm_turn_card [OF kept_calm [OF k] that(2)]] that(1) by simp
  ultimately show ?thesis using t by (auto simp: specialty_def split: if_splits)
qed

subsection \<open>\<open>act\<close>\<close>

lemma calm_play_card:
  assumes c: "calm m s" and own: "owned s seat k = Inr c0" and kind: "kd \<noteq> ActionOffer"
    and t: "play_card m s seat a c0 now kd = Inr t"
  shows "calm m t"
  using t kind calm_play_new [OF c own] calm_play_replace [OF c own] calm_play_top [OF c own]
  by (cases kd) auto

lemma kept_act_card:
  assumes c: "calm m s" and i: "in_range seat (st_Players s)"
    and nn: "\<And>j. a_Kind a = ActionOffer \<Longrightarrow> a_TargetSeat a = Some j \<Longrightarrow> 0 \<le> j"
    and t: "act_card m s seat a now = Inr t"
  shows "kept m t"
proof -
  obtain c0 s1 where own: "owned s seat (a_CopyID a) = Inr c0"
    and s1: "play_card m s seat a c0 now (a_Kind a) = Inr s1"
    and te: "t = (if a_Kind a = ActionOffer then s1 else nextTurn m s1 now)"
    using t by (auto simp: act_card_def split: if_splits sum.splits)
  show ?thesis
  proof (cases "a_Kind a = ActionOffer")
    case True
    then show ?thesis using kept_play_offer [OF c i own nn] s1 te by simp
  next
    case False
    then show ?thesis using calm_kept [OF calm_nextTurn [OF calm_play_card [OF c own False s1]]] te by simp
  qed
qed

lemma act_cases:
  assumes "act m s seat a now p = Inr (t, q)"
  obtains (Specialty) "isSpecialtyAction (a_Kind a)" "specialty m s seat a now = Inr t" "q = p"
  | (Resolve) "a_Kind a = ActionResolveOffer" "act_resolve_offer m s seat a now = Inr t" "q = p"
  | (Ready) "a_Kind a = ActionReady" "act_ready m s seat now p = Inr (t, q)"
  | (Vote) "a_Kind a = ActionVote" "act_vote m s seat a now = Inr t" "q = p"
  | (Poke) j where "a_Kind a = ActionPoke" "a_TargetSeat a = Some j" "poke m s seat j now = Inr t" "q = p"
  | (Chat) "a_Kind a = ActionChat" "t = act_chat m s seat a now" "q = p"
  | (Draw) "a_Kind a = ActionDraw" "st_Phase s = PhasePlay" "current s = seat" "act_draw m s seat a now = Inr t" "q = p"
  | (Card) "st_Phase s = PhasePlay" "current s = seat" "act_card m s seat a now = Inr t" "q = p"
  using assms unfolding act_def with_pending_def
  by (simp split: if_split_asm sum.split_asm option.split_asm)

lemma kept_act:
  assumes wf: "seeds_registered m" and k: "kept m s"
    and i: "in_range seat (st_Players s)" "\<not> tp_Eliminated (player s seat)"
    and v: "variant_ok lang l r (a_Kind (r_Action r))" "r_Phase r = st_Phase s"
    and t: "act m s seat (r_Action r) now p = Inr (t, q)"
  shows "kept m t"
proof -
  let ?a = "r_Action r"
  have rv: "st_Phase s \<noteq> PhaseTradeResponse" if "a_Kind ?a = ActionRevote"
    using v that by auto
  have nn: "0 \<le> j" if "a_Kind ?a = ActionOffer" "a_TargetSeat ?a = Some j" for j
    using v(1) that by (auto simp: ptr_seat_Some)
  from t show ?thesis
  proof (cases rule: act_cases)
    case Specialty
    then show ?thesis using kept_specialty [OF k i rv] by blast
  next
    case Resolve
    then show ?thesis
      using calm_kept [OF calm_resolveOffer [OF k]] by (auto simp: act_resolve_offer_def split: option.splits if_splits)
  next
    case Ready
    have "kept m (add_event m (s\<lparr>st_Ready := AList.update seat True (st_Ready s)\<rparr>) seat EvReady RPlayer now (revision s) [] (\<lambda>e. e))"
      by (rule kept_same [OF k]) simp_all
    then show ?thesis using kept_advance [OF wf] Ready(2) by (auto simp: act_ready_def split: if_splits)
  next
    case Vote
    then show ?thesis
      by (intro kept_same [OF k]) (auto simp: act_vote_def split: option.splits if_splits)
  next
    case (Poke j)
    show ?thesis by (rule kept_poke [OF Poke(3) k])
  next
    case Chat
    then show ?thesis by (intro kept_same [OF k]) (simp_all add: act_chat_def)
  next
    case Draw
    then show ?thesis using calm_kept [OF calm_act_draw [OF kept_calm [OF k] i(1)]] by simp
  next
    case Card
    then show ?thesis using kept_act_card [OF kept_calm [OF k] i(1) nn] by simp
  qed
qed

end
