(* ===== verification/Delivery.thy ===== *)
theory Delivery
  imports MatchOps
begin

section \<open>Delivery to a recipient (\<open>game/text_snapshot.go\<close>)\<close>

text \<open>
  Snapshots, pages and errors share one sequence per recipient. A copy made through JSON of a
  validated value, and a \<open>Clone\<close>, is the value itself. \<open>uuid.NewString\<close> is an argument where a
  stream epoch is drawn.
\<close>

definition upd_at :: "int \<Rightarrow> 'a \<Rightarrow> 'a list \<Rightarrow> 'a list" where
  "upd_at i x xs = upd i (\<lambda>_. x) xs"

definition ResetStream :: "string \<Rightarrow> text_match \<Rightarrow> int \<Rightarrow> go_error option \<times> text_match" where
  "ResetStream new_uuid m seat =
    (if seat < 0 \<or> seat \<ge> int (length (tm_epoch m)) then (Some (invalid ErrUnauthorized ''seat''), m)
     else (None, m\<lparr>tm_epoch := upd_at seat new_uuid (tm_epoch m), tm_seq := upd_at seat 0 (tm_seq m)\<rparr>))"

definition stamp :: "text_match \<Rightarrow> int \<Rightarrow> snapshot \<Rightarrow> snapshot" where
  "stamp m seat s = s\<lparr>
     sn_Cursor := \<lparr>cu_StreamEpoch = at (tm_epoch m) seat, cu_RecipientSeq = at (tm_seq m) seat,
                   cu_EvidenceSeq = cu_EvidenceSeq (sn_Cursor s)\<rparr>,
     sn_SnapshotID := mc_MatchID (tm_contract m) @ ''.s'' @ dec_int seat @ ''.'' @ dec (at (tm_seq m) seat)\<rparr>"

definition snapshotLocked :: "text_match \<Rightarrow> int \<Rightarrow> gotime \<Rightarrow> (go_error + snapshot) \<times> text_match" where
  "snapshotLocked m seat now =
    (if \<not> in_range seat (st_Players (tm_state m)) then (Inl (invalid ErrUnauthorized ''seat''), m)
     else
      (let m1 = m\<lparr>tm_seq := upd seat Suc (tm_seq m)\<rparr>;
           s = stamp m1 seat (project m1 (tm_state m1) seat now)
       in (case snapshot_Validate (tm_lang m1) (tm_limits m1) s of Some e \<Rightarrow> Inl e | None \<Rightarrow> Inr s, m1)))"

definition Snapshot :: "text_match \<Rightarrow> int \<Rightarrow> gotime \<Rightarrow> (go_error + snapshot) \<times> text_match" where
  "Snapshot m seat now =
    (case snapshotLocked m seat now of
       (Inl e, m1) \<Rightarrow> (Inl e, m1)
     | (Inr s, m1) \<Rightarrow>
         (if snapshot_bytes s > MaxFrameBytes (tm_limits m)
          then Inl (invalid ErrFrameTooLarge ''use_snapshot_pages'') else Inr s, m1))"

definition SnapshotProjection :: "text_match \<Rightarrow> int \<Rightarrow> gotime \<Rightarrow> (go_error + snapshot) \<times> text_match" where
  "SnapshotProjection m seat now = snapshotLocked m seat now"

definition SnapshotPages :: "text_match \<Rightarrow> int \<Rightarrow> gotime \<Rightarrow> (go_error + (snapshot \<times> history_page list)) \<times> text_match" where
  "SnapshotPages m seat now =
    (case snapshotLocked m seat now of
       (Inl e, m1) \<Rightarrow> (Inl e, m1)
     | (Inr s, m1) \<Rightarrow>
        (if snapshot_bytes s \<le> MaxFrameBytes (tm_limits m) then (Inr (s, []), m1)
         else
          (case PaginateHistory (tm_sha m) (tm_lang m) (tm_limits m) (mc_MatchID (tm_contract m)) (sn_SnapshotID s)
                  (cu_StreamEpoch (sn_Cursor s)) (slice (sn_History s)) of
             Inl e \<Rightarrow> (Inl e, m1)
           | Inr (manifest, pages) \<Rightarrow>
              (let s2 = s\<lparr>sn_History := Some [], sn_HistoryPages := Some manifest\<rparr> in
               if snapshot_bytes s2 > MaxFrameBytes (tm_limits m)
               then (Inl (invalid ErrFrameTooLarge ''snapshot''), m1) else (Inr (s2, pages), m1)))))"

subsection \<open>\<open>Clock\<close>\<close>

text \<open>\<open>None\<close> is the zero \<open>time.Time\<close>.\<close>

definition wakeup :: "text_state \<Rightarrow> int" where
  "wakeup s =
    (let next = (if st_Phase s = PhaseResult \<and> \<not> st_ResultRevealed s \<and> st_ResultRevealAt s < st_Deadline s
                 then st_ResultRevealAt s else st_Deadline s)
     in fold (\<lambda>v n. if \<not> tp_Connected v \<and> \<not> tp_Absent v \<and> tp_GraceDeadline v > 0 \<and> tp_GraceDeadline v < n
          then tp_GraceDeadline v else n) (st_Players s) next)"

definition Clock :: "text_match \<Rightarrow> phase \<times> gotime option" where
  "Clock m = (let s = tm_state m in
     (st_Phase s, if st_Phase s = PhaseVerdict then None else Some (time_unix_milli (wakeup s))))"

subsection \<open>\<open>ActionError\<close> and \<open>VisibleText\<close>\<close>

definition error_for :: "text_match \<Rightarrow> int \<Rightarrow> string \<Rightarrow> error_code \<Rightarrow> error_event" where
  "error_for m seat rid code =
     \<lparr>ee_Version = Version,
      ee_Cursor = \<lparr>cu_StreamEpoch = at (tm_epoch m) seat, cu_RecipientSeq = at (tm_seq m) seat + 1,
         cu_EvidenceSeq = length (st_History (tm_state m))\<rparr>,
      ee_RequestID = rid, ee_Code = code, ee_CurrentBoardRevision = Some (revision (tm_state m))\<rparr>"

definition ActionError :: "text_match \<Rightarrow> int \<Rightarrow> string \<Rightarrow> error_code \<Rightarrow> (go_error + error_event) \<times> text_match" where
  "ActionError m seat rid code =
    (if \<not> in_range seat (st_Players (tm_state m)) then (Inl (invalid ErrUnauthorized ''seat''), m)
     else case error_event_Validate (error_for m seat rid code) of
       Some e \<Rightarrow> (Inl e, m)
     | None \<Rightarrow> (Inr (error_for m seat rid code), m\<lparr>tm_seq := upd seat Suc (tm_seq m)\<rparr>))"

text \<open>The contents a snapshot shows, in the order \<open>VisibleText\<close> looks them up.\<close>

definition shown_contents :: "snapshot \<Rightarrow> text_content list" where
  "shown_contents s =
     (case pv_Nown (sn_Private s) of None \<Rightarrow> [] | Some n \<Rightarrow> [n])
   @ map cd_Content (slice (pv_Hand (sn_Private s)))
   @ map (\<lambda>b. cd_Content (bc_Card b)) (slice (bd_Cards (sn_Board s)))
   @ concat (map (\<lambda>e. map cd_Content (slice (e_Cards e))) (slice (sn_History s)))
   @ map bn_Content (sn_VerdictNowns s)"

definition VisibleText :: "text_match \<Rightarrow> int \<Rightarrow> content_ref \<Rightarrow> gotime \<Rightarrow> go_error + (match_contract \<times> text_content)" where
  "VisibleText m seat ref now =
    (if \<not> in_range seat (st_Players (tm_state m)) \<or> cr_ContentID ref = [] \<or> cr_Revision ref = 0
     then Inl (invalid ErrUnauthorized ''content'')
     else
      (let s = project m (tm_state m) seat now in
       case snapshot_Validate (tm_lang m) (tm_limits m) s of
         Some e \<Rightarrow> Inl e
       | None \<Rightarrow>
          (case filter (\<lambda>c. tc_Ref c = ref) (shown_contents s) of
             [] \<Rightarrow> Inl (invalid ErrUnauthorized ''content'')
           | c # _ \<Rightarrow> Inr (sn_Contract s, c))))"

end
