(* ===== verification/Bundles.thy ===== *)
theory Bundles
  imports Contract "HOL-Library.List_Lexorder" "HOL-Library.Char_ord"
begin

section \<open>Content bundles (\<open>pkg/media/text_types.go\<close>, \<open>text_validation.go\<close>, \<open>text_loader.go\<close>)\<close>

text \<open>
  The reviewed content a match is dealt from: prompts (\<open>nowns\<close>), cards and the reviewed
  relation between them. The functions the code takes from outside the repository are
  collected in a record: Unicode normalization, lower-casing, the format-character class, the
  language-tag parser, \<open>ContentHash\<close> (hex SHA-256) and \<open>json.Valid\<close>.
\<close>

record text_env =
  en_NFC :: "string \<Rightarrow> string"
  en_ToLower :: "string \<Rightarrow> string"
  en_IsCf :: "nat \<Rightarrow> bool"
  en_Language :: "string \<Rightarrow> bool"
  en_Hash :: "string \<Rightarrow> string"
  en_JsonValid :: "string \<Rightarrow> bool"

record text_limits =
  tl_MaxTextBytes :: int
  tl_MaxRecords :: int
  tl_MaxFileBytes :: int
  tl_MaxBundleBytes :: int

record text_provenance =
  pr_SourceKind :: string
  pr_SourceID :: string
  pr_SourceRevision :: nat
  pr_AcceptedTextSHA256 :: string
  pr_TermsVersion :: string
  pr_ConsentReference :: string
  pr_ConsentAtMS :: int
  pr_ApprovalReference :: string
  pr_EditorReference :: string
  pr_ReviewedAtMS :: int
  pr_License :: string
  pr_Attribution :: string

record text_nown =
  tn_ID :: string
  tn_Revision :: nat
  tn_Type :: string
  tn_Text :: string
  tn_Kind :: string
  tn_Modes :: "mode_id list"
  tn_ToneBucket :: string
  tn_Provenance :: text_provenance

record text_card =
  td_ID :: string
  td_Revision :: nat
  td_Type :: string
  td_Text :: string
  td_Pool :: string
  td_Modes :: "mode_id list"
  td_ToneBucket :: string
  td_Provenance :: text_provenance

text \<open>\<open>NoBand\<close> is the empty string a missing relation reads as.\<close>

datatype band = High | Distant | Chaos | NoBand | BandOther string

record text_suitability =
  su_Mode :: mode_id
  su_NownID :: string
  su_NownRevision :: nat
  su_CardID :: string
  su_CardRevision :: nat
  su_Band :: band
  su_ReviewReference :: string

record text_evaluator =
  ev_Provider :: string
  ev_Model :: string
  ev_Version :: string
  ev_EvidenceSHA256 :: string

record duplicate_review =
  du_FirstID :: string
  du_SecondID :: string
  du_ReviewReference :: string

record text_manifest =
  ma_SchemaVersion :: int
  ma_ReleaseID :: string
  ma_Language :: string
  ma_RulesVersion :: string
  ma_Modes :: "mode_id list"
  ma_SuitabilityVersion :: string
  ma_AgeRating :: string
  ma_Synthetic :: bool
  ma_Checksums :: "(string \<times> string) list"
  ma_CertificationArtifacts :: "(string \<times> string) list"
  ma_DuplicateReviews :: "duplicate_review list"
  ma_Evaluator :: "text_evaluator option"

record text_bundle =
  bu_Manifest :: text_manifest
  bu_Nowns :: "text_nown list"
  bu_Cards :: "text_card list"
  bu_Suitability :: "text_suitability list"
  bu_Artifacts :: "(string \<times> string) list"

subsection \<open>Text\<close>

definition spoofing :: "text_env \<Rightarrow> nat \<Rightarrow> bool" where
  "spoofing en r \<longleftrightarrow> is_control r \<or> (en_IsCf en r \<and> r \<noteq> 8204 \<and> r \<noteq> 8205) \<or> r = 8232 \<or> r = 8233"

fun contains_sub :: "string \<Rightarrow> string \<Rightarrow> bool" where
  "contains_sub needle [] = (needle = [])"
| "contains_sub needle (c # cs) = (take (length needle) (c # cs) = needle \<or> contains_sub needle cs)"

definition NormalizeText :: "text_env \<Rightarrow> string \<Rightarrow> int \<Rightarrow> string option" where
  "NormalizeText en raw maxBytes =
    (if maxBytes < 1 \<or> \<not> utf8_valid raw \<or> int (length raw) > maxBytes then None
     else if list_ex (spoofing en) (runes raw) then None
     else
      (let txt = en_NFC en (trim_space raw); lower = en_ToLower en txt in
       if txt = [] \<or> int (length txt) > maxBytes then None
       else if contains_sub ''http://'' lower \<or> contains_sub ''https://'' lower \<or> contains_sub ''www.'' lower
         then None
       else Some txt))"

subsection \<open>Modes, hashes, keys\<close>

fun textModeKind :: "mode_id \<Rightarrow> string \<times> string" where
  "textModeKind ModeMissedTheBriefing = (''situation'', ''response'')"
| "textModeKind ModeSecretScale = (''criterion'', ''item'')"
| "textModeKind ModeTopThat = (''criterion'', ''item'')"
| "textModeKind ModeMakeRoom = (''plan'', ''item'')"
| "textModeKind ModeBadBargains = (''plan'', ''item'')"
| "textModeKind (ModeOther _) = ([], [])"

definition textHasMode :: "mode_id list \<Rightarrow> mode_id \<Rightarrow> bool" where
  "textHasMode modes md \<longleftrightarrow> list_ex (\<lambda>x. x = md) modes"

lemma textHasMode_iff [simp]: "textHasMode modes md \<longleftrightarrow> md \<in> set modes"
  by (auto simp: textHasMode_def list_ex_iff)

fun modes_distinct_in :: "mode_id list \<Rightarrow> mode_id list \<Rightarrow> mode_id list \<Rightarrow> bool" where
  "modes_distinct_in allowed seen [] = True"
| "modes_distinct_in allowed seen (x # xs) =
     (if \<not> mode_valid x \<or> x \<in> set seen \<or> \<not> textHasMode allowed x then False
      else modes_distinct_in allowed (x # seen) xs)"

definition textModesValid :: "mode_id list \<Rightarrow> mode_id list \<Rightarrow> bool" where
  "textModesValid modes allowed \<longleftrightarrow> modes \<noteq> [] \<and> modes_distinct_in allowed [] modes"

definition hex_chars :: string where
  "hex_chars = ''0123456789abcdef''"

text \<open>\<open>strings.Trim(hash, cutset) == ""\<close> leaves nothing only if every character is in the cutset.\<close>

definition textHashValid :: "string \<Rightarrow> bool" where
  "textHashValid h \<longleftrightarrow> length h = 64
     \<and> dropWhile (\<lambda>c. c \<in> set hex_chars) (rev (dropWhile (\<lambda>c. c \<in> set hex_chars) h)) = []"

definition textPair :: "mode_id \<Rightarrow> string \<Rightarrow> string \<Rightarrow> string" where
  "textPair md nid cid = mode_string md @ ''/'' @ nid @ ''/'' @ cid"

definition textDuplicatePair :: "string \<Rightarrow> string \<Rightarrow> string" where
  "textDuplicatePair a b = (if a > b then b @ ''/'' @ a else a @ ''/'' @ b)"

subsection \<open>\<open>validateTextBundle\<close>\<close>

text \<open>
  The maps \<open>nowns\<close>, \<open>cards\<close> and \<open>wording\<close> the validator fills are lookups in the bundle; \<open>seen\<close>
  is threaded through both record loops. Loops over maps (artifacts, groups of equal wording)
  only test, so their order does not matter.
\<close>

definition provenance_ok :: "text_env \<Rightarrow> bool \<Rightarrow> text_provenance \<Rightarrow> bool" where
  "provenance_ok en synthetic p \<longleftrightarrow>
     (if synthetic then pr_SourceKind p = ''synthetic''
      else (pr_SourceKind p = ''original'' \<or> pr_SourceKind p = ''contribution'')
        \<and> ValidIdentifier (pr_TermsVersion p) \<and> ValidIdentifier (pr_ConsentReference p)
        \<and> pr_ConsentAtMS p > 0 \<and> ValidIdentifier (pr_ApprovalReference p)
        \<and> ValidIdentifier (pr_EditorReference p) \<and> pr_ReviewedAtMS p \<ge> pr_ConsentAtMS p)"

definition tone_known :: "string \<Rightarrow> bool" where
  "tone_known t \<longleftrightarrow> t \<in> {''millennial-cope'', ''gen-z-absurdism'', ''social-awkwardness'', ''chaos''}"

definition record_check ::
  "text_env \<Rightarrow> text_limits \<Rightarrow> bool \<Rightarrow> string list \<Rightarrow> string \<Rightarrow> nat \<Rightarrow> string \<Rightarrow> string \<Rightarrow> string \<Rightarrow> text_provenance
    \<Rightarrow> go_error option" where
  "record_check en l synthetic seen rid rvn typ txt tone p = checks
     [reject_if (\<not> ValidIdentifier rid \<or> rvn = 0 \<or> rid \<in> set seen \<or> typ \<noteq> ''text'')
        (GoError ''invalid or duplicate text identity''),
      reject_if (NormalizeText en txt (tl_MaxTextBytes l) \<noteq> Some txt)
        (GoError ''accepted text is invalid or noncanonical''),
      reject_if (\<not> tone_known tone) (GoError ''invalid tone bucket''),
      reject_if (\<not> ValidIdentifier (pr_SourceID p) \<or> pr_SourceRevision p = 0
        \<or> pr_AcceptedTextSHA256 p \<noteq> en_Hash en txt \<or> pr_License p = [] \<or> pr_Attribution p = [])
        (GoError ''missing immutable text provenance''),
      reject_if (\<not> provenance_ok en synthetic p) 
        (GoError (if synthetic then ''synthetic provenance mismatch''
           else ''missing reviewed contribution provenance''))]"

fun nowns_check :: "text_env \<Rightarrow> text_limits \<Rightarrow> text_manifest \<Rightarrow> string list \<Rightarrow> text_nown list \<Rightarrow> go_error + string list" where
  "nowns_check en l m seen [] = Inr seen"
| "nowns_check en l m seen (n # ns) =
     (case checks
        [record_check en l (ma_Synthetic m) seen (tn_ID n) (tn_Revision n) (tn_Type n) (tn_Text n)
           (tn_ToneBucket n) (tn_Provenance n),
         reject_if (\<not> textModesValid (tn_Modes n) (ma_Modes m)) (GoError ''invalid nown mode''),
         reject_if (list_ex (\<lambda>md. tn_Kind n \<noteq> fst (textModeKind md)) (tn_Modes n))
           (GoError ''nown kind/mode mismatch'')] of
        Some e \<Rightarrow> Inl e
      | None \<Rightarrow> nowns_check en l m (tn_ID n # seen) ns)"

fun cards_check :: "text_env \<Rightarrow> text_limits \<Rightarrow> text_manifest \<Rightarrow> string list \<Rightarrow> text_card list \<Rightarrow> go_error + string list" where
  "cards_check en l m seen [] = Inr seen"
| "cards_check en l m seen (c # cs) =
     (case checks
        [record_check en l (ma_Synthetic m) seen (td_ID c) (td_Revision c) (td_Type c) (td_Text c)
           (td_ToneBucket c) (td_Provenance c),
         reject_if (\<not> textModesValid (td_Modes c) (ma_Modes m)) (GoError ''invalid card mode''),
         reject_if (list_ex (\<lambda>md. td_Pool c \<noteq> snd (textModeKind md)) (td_Modes c))
           (GoError ''card pool/mode mismatch'')] of
        Some e \<Rightarrow> Inl e
      | None \<Rightarrow> cards_check en l m (td_ID c # seen) cs)"

definition nown_by_id :: "text_nown list \<Rightarrow> string \<Rightarrow> text_nown option" where
  "nown_by_id ns k = map_of (map (\<lambda>n. (tn_ID n, n)) ns) k"

definition card_by_id :: "text_card list \<Rightarrow> string \<Rightarrow> text_card option" where
  "card_by_id cs k = map_of (map (\<lambda>c. (td_ID c, c)) cs) k"

definition relation_ok :: "text_bundle \<Rightarrow> text_suitability \<Rightarrow> bool" where
  "relation_ok b r \<longleftrightarrow>
     (case (nown_by_id (bu_Nowns b) (su_NownID r), card_by_id (bu_Cards b) (su_CardID r)) of
        (Some n, Some c) \<Rightarrow> su_NownRevision r = tn_Revision n \<and> su_CardRevision r = td_Revision c
          \<and> textHasMode (tn_Modes n) (su_Mode r) \<and> textHasMode (td_Modes c) (su_Mode r)
          \<and> ValidIdentifier (su_ReviewReference r)
          \<and> (su_Band r = High \<or> su_Band r = Distant \<or> su_Band r = Chaos)
      | _ \<Rightarrow> False)"

definition relation_key :: "text_suitability \<Rightarrow> string" where
  "relation_key r = textPair (su_Mode r) (su_NownID r) (su_CardID r)"

fun relations_check :: "text_bundle \<Rightarrow> string list \<Rightarrow> text_suitability list \<Rightarrow> go_error + string list" where
  "relations_check b seen [] = Inr seen"
| "relations_check b seen (r # rs) =
     (if \<not> relation_ok b r \<or> relation_key r \<in> set seen then Inl (GoError ''invalid reviewed suitability'')
      else relations_check b (relation_key r # seen) rs)"

definition mode_coverage :: "text_bundle \<Rightarrow> string list \<Rightarrow> mode_id \<Rightarrow> go_error option" where
  "mode_coverage b relations md =
    (let ns = filter (\<lambda>n. textHasMode (tn_Modes n) md) (bu_Nowns b);
         cs = filter (\<lambda>c. textHasMode (td_Modes c) md) (bu_Cards b) in checks
     [reject_if (list_ex (\<lambda>n. list_ex (\<lambda>c. textPair md (tn_ID n) (td_ID c) \<notin> set relations) cs) ns)
        (GoError ''missing reviewed pair coverage''),
      reject_if (ns = [] \<or> cs = []) (GoError ''empty mode coverage'')])"

fun reviews_check :: "string list \<Rightarrow> string list \<Rightarrow> duplicate_review list \<Rightarrow> go_error + string list" where
  "reviews_check ids seen [] = Inr seen"
| "reviews_check ids seen (r # rs) =
     (let k = textDuplicatePair (du_FirstID r) (du_SecondID r) in
      if du_FirstID r = du_SecondID r \<or> du_FirstID r \<notin> set ids \<or> du_SecondID r \<notin> set ids
         \<or> k \<in> set seen \<or> \<not> ValidIdentifier (du_ReviewReference r)
      then Inl (GoError ''invalid duplicate review'')
      else reviews_check ids (k # seen) rs)"

definition wording :: "text_bundle \<Rightarrow> (string \<times> string) list" where
  "wording b = map (\<lambda>n. (tn_ID n, tn_Text n)) (bu_Nowns b) @ map (\<lambda>c. (td_ID c, td_Text c)) (bu_Cards b)"

definition duplicates_reviewed :: "text_bundle \<Rightarrow> string list \<Rightarrow> bool" where
  "duplicates_reviewed b reviews \<longleftrightarrow> list_all (\<lambda>(i, t). list_all (\<lambda>(j, u).
      i \<noteq> j \<and> t = u \<longrightarrow> textDuplicatePair i j \<in> set reviews) (wording b)) (wording b)"

definition artifact_names :: "string list" where
  "artifact_names = [''technical.json'', ''editorial.json'', ''actions.json'', ''screening.json'',
     ''release.json'', ''replay.json'', ''action-replay.json'']"

definition artifact_bytes :: "text_bundle \<Rightarrow> string \<Rightarrow> string" where
  "artifact_bytes b k = (case map_of (bu_Artifacts b) k of None \<Rightarrow> [] | Some x \<Rightarrow> x)"

definition artifacts_check :: "text_env \<Rightarrow> text_bundle \<Rightarrow> go_error option" where
  "artifacts_check en b = checks
     [reject_if (length (ma_CertificationArtifacts (bu_Manifest b)) \<noteq> length (bu_Artifacts b))
        (GoError ''artifact manifest mismatch''),
      each (\<lambda>(k, h). reject_if (k \<notin> set artifact_names \<or> \<not> textHashValid h
          \<or> en_Hash en (artifact_bytes b k) \<noteq> h \<or> \<not> en_JsonValid en (artifact_bytes b k))
        (GoError ''invalid certification artifact'')) (ma_CertificationArtifacts (bu_Manifest b))]"

definition evaluator_ok :: "text_evaluator \<Rightarrow> bool" where
  "evaluator_ok e \<longleftrightarrow> ValidIdentifier (ev_Provider e) \<and> ValidIdentifier (ev_Model e)
     \<and> ValidIdentifier (ev_Version e) \<and> textHashValid (ev_EvidenceSHA256 e)"

definition manifest_check :: "text_env \<Rightarrow> text_limits \<Rightarrow> text_bundle \<Rightarrow> go_error option" where
  "manifest_check en l b = (let m = bu_Manifest b in checks
     [reject_if (tl_MaxTextBytes l < 1 \<or> tl_MaxRecords l < 1 \<or> tl_MaxFileBytes l < 1
        \<or> tl_MaxBundleBytes l < tl_MaxFileBytes l) (GoError ''text limits must be configured''),
      reject_if (ma_SchemaVersion m \<noteq> 2 \<or> \<not> ValidIdentifier (ma_ReleaseID m) \<or> \<not> ValidIdentifier (ma_RulesVersion m)
        \<or> \<not> en_Language en (ma_Language m) \<or> \<not> textModesValid (ma_Modes m) AllModes
        \<or> ma_SuitabilityVersion m \<noteq> ''reviewed-bands-v1'') (GoError ''incompatible text manifest''),
      reject_if (ma_AgeRating m \<notin> {''everyone'', ''teen'', ''adult''}) (GoError ''invalid age rating''),
      reject_if (bu_Nowns b = [] \<or> bu_Cards b = []
        \<or> int (length (bu_Nowns b) + length (bu_Cards b) + length (bu_Suitability b)) > tl_MaxRecords l)
        (GoError ''text record capacity invalid''),
      reject_if (case ma_Evaluator m of None \<Rightarrow> False | Some e \<Rightarrow> \<not> evaluator_ok e)
        (GoError ''unversioned optional evaluator''),
      artifacts_check en b])"

definition validateTextBundle :: "text_env \<Rightarrow> text_limits \<Rightarrow> text_bundle \<Rightarrow> go_error option" where
  "validateTextBundle en l b =
    (case manifest_check en l b of
       Some e \<Rightarrow> Some e
     | None \<Rightarrow>
    (case nowns_check en l (bu_Manifest b) [] (bu_Nowns b) of
       Inl e \<Rightarrow> Some e
     | Inr seen1 \<Rightarrow>
    (case cards_check en l (bu_Manifest b) seen1 (bu_Cards b) of
       Inl e \<Rightarrow> Some e
     | Inr seen \<Rightarrow>
    (case relations_check b [] (bu_Suitability b) of
       Inl e \<Rightarrow> Some e
     | Inr relations \<Rightarrow>
    (case each (mode_coverage b relations) (ma_Modes (bu_Manifest b)) of
       Some e \<Rightarrow> Some e
     | None \<Rightarrow>
    (case reviews_check seen [] (ma_DuplicateReviews (bu_Manifest b)) of
       Inl e \<Rightarrow> Some e
     | Inr reviews \<Rightarrow>
        reject_if (\<not> duplicates_reviewed b reviews) (GoError ''canonical duplicate requires review'')))))))"

subsection \<open>Snapshots of a bundle\<close>

record text_snapshot =
  sx_bundle :: text_bundle
  sx_hash :: string
  sx_nowns :: "(string \<times> nat) list"
  sx_cards :: "(string \<times> nat) list"
  sx_bands :: "(string \<times> band) list"

definition index_by :: "('a \<Rightarrow> string) \<Rightarrow> 'a list \<Rightarrow> (string \<times> nat) list" where
  "index_by key xs = fold (\<lambda>(i, x). AList.update (key x) i) (zip [0..<length xs] xs) []"

text \<open>The maps \<open>NewTextSnapshot\<close> fills, for a bundle and its content hash.\<close>

definition index_bundle :: "text_bundle \<Rightarrow> string \<Rightarrow> text_snapshot" where
  "index_bundle b h = \<lparr>sx_bundle = b, sx_hash = h,
     sx_nowns = index_by tn_ID (bu_Nowns b), sx_cards = index_by td_ID (bu_Cards b),
     sx_bands = fold (\<lambda>r. AList.update (relation_key r) (su_Band r)) (bu_Suitability b) []\<rparr>"

definition band_of :: "text_snapshot \<Rightarrow> mode_id \<Rightarrow> string \<Rightarrow> string \<Rightarrow> band" where
  "band_of s md nid cid = (case map_of (sx_bands s) (textPair md nid cid) of None \<Rightarrow> NoBand | Some x \<Rightarrow> x)"

end
