(* ===== verification/Dealing.thy ===== *)
theory Dealing
  imports Bundles Rng
begin

section \<open>Dealing (\<open>pkg/media/text_dealing.go\<close>)\<close>

text \<open>
  A deal fixes the prompts of all rounds, the system's seed cards and every seat's hand and
  reserve. The cards a seat retains are found by a depth-first search with a node budget that
  all seats share; the search is written on the list of cards still to be considered.
\<close>

record deal_tuning =
  dt_HandSize :: int
  dt_ReserveSize :: int
  dt_MinHigh :: int
  dt_MinDistant :: int
  dt_MaxSearchNodes :: int

record text_randomness =
  ra_Schedule :: int
  ra_Hands :: int
  ra_System :: int

record text_hand =
  ha_Cards :: "text_card list"
  ha_Reserve :: "text_card list"

record text_deal =
  de_ReleaseID :: string
  de_Language :: string
  de_RulesVersion :: string
  de_SnapshotSHA256 :: string
  de_Nowns :: "text_nown list"
  de_Hands :: "text_hand list"
  de_SystemSeeds :: "text_card list list"

abbreviation ErrTextInfeasible :: go_error where
  "ErrTextInfeasible \<equiv> GoError ''text setup is infeasible''"

abbreviation ErrTextSearchBudget :: go_error where
  "ErrTextSearchBudget \<equiv> GoError ''text setup search budget exhausted''"

definition textTuningValid :: "deal_tuning \<Rightarrow> bool" where
  "textTuningValid t \<longleftrightarrow> dt_HandSize t > 0 \<and> dt_ReserveSize t \<ge> 0 \<and> dt_MinHigh t > 0 \<and> dt_MinDistant t > 0
     \<and> dt_MinHigh t + dt_MinDistant t \<le> dt_HandSize t \<and> dt_MaxSearchNodes t > 0"

subsection \<open>\<open>CheckTextCoverage\<close>\<close>

fun retained_check :: "text_snapshot \<Rightarrow> mode_id \<Rightarrow> string list \<Rightarrow> text_card list \<Rightarrow> go_error option" where
  "retained_check s md seen [] = None"
| "retained_check s md seen (c # cs) =
     (if (case map_of (sx_cards s) (td_ID c) of None \<Rightarrow> True | Some i \<Rightarrow> c \<noteq> bu_Cards (sx_bundle s) ! i)
         \<or> td_ID c \<in> set seen \<or> \<not> textHasMode (td_Modes c) md
      then Some (GoError ''invalid retained card'') else retained_check s md (td_ID c # seen) cs)"

fun band_known :: "band \<Rightarrow> bool" where
  "band_known High = True"
| "band_known Distant = True"
| "band_known Chaos = True"
| "band_known _ = False"

definition count_band :: "text_snapshot \<Rightarrow> mode_id \<Rightarrow> string \<Rightarrow> band \<Rightarrow> text_card list \<Rightarrow> int" where
  "count_band s md nid b cs = int (length (filter (\<lambda>c. band_of s md nid (td_ID c) = b) cs))"

fun schedule_check :: "text_snapshot \<Rightarrow> mode_id \<Rightarrow> deal_tuning \<Rightarrow> text_card list \<Rightarrow> string list \<Rightarrow> text_nown list \<Rightarrow> go_error option" where
  "schedule_check s md t cs seen [] = None"
| "schedule_check s md t cs seen (n # ns) =
     (if (case map_of (sx_nowns s) (tn_ID n) of None \<Rightarrow> True | Some i \<Rightarrow> n \<noteq> bu_Nowns (sx_bundle s) ! i)
         \<or> tn_ID n \<in> set seen \<or> \<not> textHasMode (tn_Modes n) md
        then Some (GoError ''invalid schedule record'')
      else if list_ex (\<lambda>c. \<not> band_known (band_of s md (tn_ID n) (td_ID c))) cs
        then Some (GoError ''missing retained relation'')
      else if count_band s md (tn_ID n) High cs < dt_MinHigh t \<or> count_band s md (tn_ID n) Distant cs < dt_MinDistant t
        then Some ErrTextInfeasible
      else schedule_check s md t cs (tn_ID n # seen) ns)"

definition CheckTextCoverage :: "text_snapshot \<Rightarrow> mode_id \<Rightarrow> text_nown list \<Rightarrow> text_card list \<Rightarrow> deal_tuning \<Rightarrow> go_error option" where
  "CheckTextCoverage s md nowns cs t =
     (if \<not> textTuningValid t \<or> \<not> textHasMode (ma_Modes (bu_Manifest (sx_bundle s))) md \<or> nowns = []
      then Some ErrTextInfeasible
      else case retained_check s md [] cs of
        Some e \<Rightarrow> Some e | None \<Rightarrow> schedule_check s md t cs [] nowns)"

subsection \<open>\<open>textRetained\<close>\<close>

text \<open>
  A card's contribution to the dimensions: for every prompt of the schedule, one for \<open>high\<close>
  and one for \<open>distant\<close>. \<open>suffix\<close> adds up the contributions of the cards still to come.
\<close>

definition contribution :: "text_snapshot \<Rightarrow> mode_id \<Rightarrow> text_nown list \<Rightarrow> text_card \<Rightarrow> int list" where
  "contribution s md schedule c = concat (map (\<lambda>n.
     (case band_of s md (tn_ID n) (td_ID c) of High \<Rightarrow> [1, 0] | Distant \<Rightarrow> [0, 1] | _ \<Rightarrow> [0, 0])) schedule)"

definition vadd :: "int list \<Rightarrow> int list \<Rightarrow> int list" where
  "vadd xs ys = map2 (+) xs ys"

fun suffix :: "nat \<Rightarrow> (text_card \<times> int list) list \<Rightarrow> int list" where
  "suffix dims [] = replicate dims 0"
| "suffix dims ((c, k) # rest) = vadd k (suffix dims rest)"

definition need :: "deal_tuning \<Rightarrow> nat \<Rightarrow> int" where
  "need t d = (if d mod 2 = 1 then dt_MinDistant t else dt_MinHigh t)"

datatype search_result = Found int "text_card list" | Dead int | Exhausted int

text \<open>The test of all dimensions at a node: \<open>full\<close> is \<open>len(selected) == budget\<close>.\<close>

definition prune :: "deal_tuning \<Rightarrow> bool \<Rightarrow> int list \<Rightarrow> int list \<Rightarrow> bool" where
  "prune t full counts suf \<longleftrightarrow> list_ex (\<lambda>(d, n, s). n + s < need t d \<or> full \<and> n < need t d)
     (zip [0..<length counts] (zip counts suf))"

fun search :: "deal_tuning \<Rightarrow> int \<Rightarrow> int \<Rightarrow> int list \<Rightarrow> text_card list \<Rightarrow> (text_card \<times> int list) list \<Rightarrow> search_result" where
  "search t budget nodes counts selected rest =
    (let nodes1 = nodes + 1; n = int (length selected) in
     if nodes1 > dt_MaxSearchNodes t then Exhausted nodes1
     else if n > budget \<or> n + int (length rest) < budget then Dead nodes1
     else if prune t (n = budget) counts (suffix (length counts) rest) then Dead nodes1
     else if n = budget then Found nodes1 selected
     else case rest of
       [] \<Rightarrow> Dead nodes1
     | (c, k) # later \<Rightarrow>
        (case search t budget nodes1 (vadd counts k) (selected @ [c]) later of
           Found m sel \<Rightarrow> Found m sel
         | Exhausted m \<Rightarrow> Exhausted m
         | Dead m \<Rightarrow> search t budget m counts selected later))"

declare search.simps [simp del]

definition textRetained ::
  "text_snapshot \<Rightarrow> mode_id \<Rightarrow> text_nown list \<Rightarrow> text_card list \<Rightarrow> deal_tuning \<Rightarrow> int \<Rightarrow> (go_error + text_card list) \<times> int" where
  "textRetained s md schedule pool t nodes =
     (case search t (dt_HandSize t + dt_ReserveSize t) nodes (replicate (2 * length schedule) 0) []
             (map (\<lambda>c. (c, contribution s md schedule c)) pool) of
        Found m sel \<Rightarrow> (Inr sel, m)
      | Exhausted m \<Rightarrow> (Inl ErrTextSearchBudget, m)
      | Dead m \<Rightarrow> (Inl ErrTextInfeasible, m))"

subsection \<open>\<open>Deal\<close>\<close>

fun seed_count :: "mode_id \<Rightarrow> int \<Rightarrow> int" where
  "seed_count ModeMakeRoom sz = 3"
| "seed_count ModeBadBargains sz = sz"
| "seed_count ModeTopThat sz = 1"
| "seed_count _ sz = 0"

text \<open>The first cards with pairwise distinct texts, until there are enough.\<close>

fun distinct_texts :: "nat \<Rightarrow> string list \<Rightarrow> text_card list \<Rightarrow> text_card list" where
  "distinct_texts 0 seen cs = []"
| "distinct_texts (Suc n) seen [] = []"
| "distinct_texts (Suc n) seen (c # cs) =
     (if td_Text c \<in> set seen then distinct_texts (Suc n) seen cs
      else c # distinct_texts n (td_Text c # seen) cs)"

text \<open>
  The rounds share one random stream: \<open>k\<close> is the number of draws already made from it.
\<close>

fun deal_seeds :: "draws \<Rightarrow> nat \<Rightarrow> text_card list \<Rightarrow> nat \<Rightarrow> nat \<Rightarrow> go_error + text_card list list" where
  "deal_seeds d k pool n 0 = Inr []"
| "deal_seeds d k pool n (Suc rounds) =
     (let seeds = distinct_texts n [] (go_shuffle d k pool) in
      if length seeds \<noteq> n then Inl ErrTextInfeasible
      else case deal_seeds d (k + shuffle_draws (length pool)) pool n rounds of
        Inl e \<Rightarrow> Inl e | Inr rest \<Rightarrow> Inr (seeds # rest))"

text \<open>The first \<open>n\<close> retained cards of a band, and the split into hand and reserve.\<close>

definition first_band :: "text_snapshot \<Rightarrow> mode_id \<Rightarrow> text_nown \<Rightarrow> band \<Rightarrow> int \<Rightarrow> text_card list \<Rightarrow> text_card list" where
  "first_band s md n b k cs = take (nat k) (filter (\<lambda>c. band_of s md (tn_ID n) (td_ID c) = b) cs)"

definition opening_hand :: "text_snapshot \<Rightarrow> mode_id \<Rightarrow> text_nown \<Rightarrow> deal_tuning \<Rightarrow> text_card list \<Rightarrow> text_card list" where
  "opening_hand s md n t cs = first_band s md n High (dt_MinHigh t) cs @ first_band s md n Distant (dt_MinDistant t) cs"

definition split_hand :: "text_snapshot \<Rightarrow> mode_id \<Rightarrow> text_nown \<Rightarrow> deal_tuning \<Rightarrow> text_card list \<Rightarrow> text_card list \<times> text_card list" where
  "split_hand s md n t cs =
    (let front = opening_hand s md n t cs;
         others = filter (\<lambda>c. td_ID c \<notin> td_ID ` set front) cs;
         room = nat (dt_HandSize t) - length front
     in (front @ take room others, drop room others))"

fun deal_hands ::
  "draws \<Rightarrow> nat \<Rightarrow> text_snapshot \<Rightarrow> mode_id \<Rightarrow> text_nown list \<Rightarrow> text_card list \<Rightarrow> deal_tuning \<Rightarrow> int \<Rightarrow> nat
    \<Rightarrow> go_error + text_hand list" where
  "deal_hands d k s md schedule pool t nodes 0 = Inr []"
| "deal_hands d k s md schedule pool t nodes (Suc seats) =
    (case textRetained s md schedule (go_shuffle d k pool) t nodes of
       (Inl e, _) \<Rightarrow> Inl e
     | (Inr retained, nodes1) \<Rightarrow>
        (case split_hand s md (hd schedule) t retained of
           (hand, reserve) \<Rightarrow>
            (let k1 = k + shuffle_draws (length pool);
                 k2 = k1 + shuffle_draws (length hand);
                 hand1 = go_shuffle d k1 hand;
                 reserve1 = go_shuffle d k2 reserve
             in case CheckTextCoverage s md schedule (hand1 @ reserve1) t of
                  Some e \<Rightarrow> Inl e
                | None \<Rightarrow>
                   (case deal_hands d (k2 + shuffle_draws (length reserve)) s md schedule pool t nodes1 seats of
                      Inl e \<Rightarrow> Inl e
                    | Inr hands \<Rightarrow> Inr (\<lparr>ha_Cards = hand1, ha_Reserve = reserve1\<rparr> # hands)))))"

text \<open>The eligible records of a mode, sorted by identifier.\<close>

definition eligible_nowns :: "text_snapshot \<Rightarrow> mode_id \<Rightarrow> text_nown list" where
  "eligible_nowns s md = sort_key tn_ID (filter (\<lambda>n. textHasMode (tn_Modes n) md) (bu_Nowns (sx_bundle s)))"

definition eligible_cards :: "text_snapshot \<Rightarrow> mode_id \<Rightarrow> text_card list" where
  "eligible_cards s md = sort_key td_ID (filter (\<lambda>c. textHasMode (td_Modes c) md) (bu_Cards (sx_bundle s)))"

definition draw_schedule :: "rng_source \<Rightarrow> text_snapshot \<Rightarrow> mode_id \<Rightarrow> int \<Rightarrow> text_randomness \<Rightarrow> text_nown list" where
  "draw_schedule rng s md sz r =
     take (nat (sz div 2)) (go_shuffle (rng (ra_Schedule r)) 0 (eligible_nowns s md))"

definition Deal :: "rng_source \<Rightarrow> text_snapshot \<Rightarrow> mode_id \<Rightarrow> int \<Rightarrow> deal_tuning \<Rightarrow> text_randomness \<Rightarrow> go_error + text_deal" where
  "Deal rng s md sz t r =
    (let m = bu_Manifest (sx_bundle s); pool = eligible_cards s md in
     if \<not> textHasMode (ma_Modes m) md \<or> (sz \<noteq> 4 \<and> sz \<noteq> 6) \<or> \<not> textTuningValid t then Inl ErrTextInfeasible
     else if int (length (eligible_nowns s md)) < sz div 2 \<or> int (length pool) < dt_HandSize t + dt_ReserveSize t
       then Inl ErrTextInfeasible
     else
      (let schedule = draw_schedule rng s md sz r in
       case deal_seeds (rng (ra_System r)) 0 pool (nat (seed_count md sz)) (length schedule) of
         Inl e \<Rightarrow> Inl e
       | Inr seeds \<Rightarrow>
          (case deal_hands (rng (ra_Hands r)) 0 s md schedule pool t 0 (nat sz) of
             Inl e \<Rightarrow> Inl e
           | Inr hands \<Rightarrow> Inr \<lparr>de_ReleaseID = ma_ReleaseID m, de_Language = ma_Language m,
               de_RulesVersion = ma_RulesVersion m, de_SnapshotSHA256 = sx_hash s,
               de_Nowns = schedule, de_Hands = hands, de_SystemSeeds = seeds\<rparr>)))"

end
