(* ===== verification/NewMatch.thy ===== *)
theory NewMatch
  imports Complex_Main Delivery Dealing
begin

section \<open>Starting a match: \<open>NewTextMatch\<close> (\<open>game/text_match.go\<close>)\<close>

text \<open>
  The options of a match with its pinned tuning, and the surroundings of the constructor: the
  random source and its uniform draw, SHA-256, the language parser, the UUID library, system
  entropy and the clock. \<open>tg_Hash\<close> is the result of \<open>Tuning.SHA256()\<close>.
\<close>

record tuning_config =
  tg_Hash :: "go_error + string"
  tg_MaxMessageBytes :: int
  tg_MaxBytesPerFrame :: int
  tg_MaxHistoryEvents :: int
  tg_MaxHistoryPageEvents :: int
  tg_MaxTextBytes :: int
  tg_MaxRequestsPerSeat :: int
  tg_VotesBySize :: "(int \<times> int) list"
  tg_DonowersBySize :: "(int \<times> int) list"
  tg_ReconnectGraceS :: int
  tg_HandSize :: int
  tg_DrawPile :: int
  tg_SpecialtyWeights :: "specialty \<Rightarrow> rat"
  tg_Timers :: timers
  tg_Points :: points_tuning
  tg_Noin :: noin_tuning
  tg_NoinMinHumans :: int
  tg_Env :: string

record text_options =
  op_DevRoles :: "(int \<times> role) list"
  op_Contract :: match_contract
  op_Deal :: text_deal
  op_Config :: "tuning_config option"
  op_Seed :: int
  op_Hooks :: text_hooks
  op_Prototype :: bool

record surroundings =
  sr_rng :: rng_source
  sr_unit :: "int \<Rightarrow> rat"
  sr_sha :: "string \<Rightarrow> nat list"
  sr_lang :: "string \<Rightarrow> bool"
  sr_uuid_parse :: "string \<Rightarrow> bool"
  sr_uuid_hash :: "string \<Rightarrow> string"
  sr_uuid_new :: "nat \<Rightarrow> string"
  sr_entropy :: "go_error + int"
  sr_clock :: "nat \<Rightarrow> gotime"

subsection \<open>The guards\<close>

definition match_limits :: "tuning_config \<Rightarrow> limits" where
  "match_limits c =
    \<lparr>MaxFrameBytes = (if tg_MaxBytesPerFrame c > 0 \<and> tg_MaxBytesPerFrame c < tg_MaxMessageBytes c
        then tg_MaxBytesPerFrame c else tg_MaxMessageBytes c),
     MaxHistoryEvents = tg_MaxHistoryEvents c, MaxHistoryPageEvents = tg_MaxHistoryPageEvents c,
     MaxTextBytes = tg_MaxTextBytes c, MaxRequestsPerSeat = tg_MaxRequestsPerSeat c\<rparr>"

definition deal_matches :: "match_contract \<Rightarrow> text_deal \<Rightarrow> bool" where
  "deal_matches k d \<longleftrightarrow> de_ReleaseID d = mc_PackReleaseID k \<and> de_SnapshotSHA256 d = mc_PackSHA256 k
     \<and> de_Language d = mc_ContentLanguage k \<and> de_RulesVersion d = mc_RulesVersion k"

definition clocks_ok :: "tuning_config \<Rightarrow> bool" where
  "clocks_ok c \<longleftrightarrow> (let t = tg_Timers c in
     ti_PlayTurn t > 0 \<and> ti_TradeResponseS t > 0 \<and> ti_KnowoffBallot t > 0 \<and> ti_KnowoffRunoff t > 0
     \<and> ti_VoteResultWindow t > 0 \<and> ti_DiscussionPerPlayer t > 0 \<and> tg_ReconnectGraceS c > 0)"

definition options_check :: "surroundings \<Rightarrow> text_options \<Rightarrow> tuning_config \<Rightarrow> go_error option" where
  "options_check env opts c =
    (let k = op_Contract opts; d = op_Deal opts; sz = mc_OriginalSize k; t = tg_Timers c; el = mc_Eligibility k in checks
     [err_of (tg_Hash c),
      reject_if (pt_Version (mc_Tuning k) \<noteq> ''text-tuning-v1'' \<or> Inr (pt_SHA256 (mc_Tuning k)) \<noteq> tg_Hash c)
        (GoError ''tuning contract mismatch''),
      contract_Validate (sr_lang env) k,
      reject_if (\<not> sr_uuid_parse env (mc_MatchID k)) (GoError ''match identity must be UUID''),
      reject_if (int (length (de_Hands d)) \<noteq> sz \<or> int (length (de_Nowns d)) \<noteq> sz div 2
        \<or> int (length (de_SystemSeeds d)) \<noteq> sz div 2) (GoError ''incomplete full-match deal''),
      reject_if (\<not> deal_matches k d) (GoError ''deal contract mismatch''),
      reject_if (tget (tg_VotesBySize c) sz \<noteq> sz div 2 \<or> tget (tg_DonowersBySize c) sz \<noteq> sz div 2 - 1
        \<or> tg_HandSize c \<le> 0 \<or> tg_DrawPile c < 0) (GoError ''invalid text game tuning''),
      reject_if (\<not> clocks_ok c) (GoError ''invalid text clocks''),
      reject_if (ti_VoteResultFalling t \<le> 0 \<or> ti_VoteResultFalling t \<ge> ti_VoteResultWindow t)
        (GoError ''invalid text result reveal clock''),
      reject_if (op_Prototype opts \<and> (el_Rewards el \<or> el_Leaderboard el))
        (GoError ''prototype cannot earn live value''),
      reject_if (\<not> op_Prototype opts \<and> el_EntryPath el = ''quick_play'' \<and> hk_Abandon (op_Hooks opts) = None)
        (GoError ''live Quick Play requires durable abandonment hook''),
      reject_if (el_Rewards el \<and> (hk_Award (op_Hooks opts) = None \<or> hk_Finish (op_Hooks opts) = None))
        (GoError ''reward-eligible match requires durable hooks'')])"

definition is_prod :: "tuning_config \<Rightarrow> bool" where
  "is_prod c \<longleftrightarrow> tg_Env c = ''prod'' \<or> tg_Env c = ''production''"

subsection \<open>Physical copies\<close>

text \<open>The closure \<open>card\<close>: the \<open>n\<close>-th copy of the match gets an identity derived from seed, match and \<open>n\<close>.\<close>

definition copy_card :: "surroundings \<Rightarrow> int \<Rightarrow> string \<Rightarrow> nat \<Rightarrow> text_card \<Rightarrow> card" where
  "copy_card env seed matchID n row =
    \<lparr>cd_CopyID = sr_uuid_hash env (dec_int seed @ '':'' @ matchID @ '':copy:'' @ dec n),
     cd_Content = \<lparr>tc_Ref = \<lparr>cr_ContentID = td_ID row, cr_Revision = td_Revision row\<rparr>, tc_Text = td_Text row\<rparr>\<rparr>"

fun number_cards :: "(nat \<Rightarrow> text_card \<Rightarrow> card) \<Rightarrow> nat \<Rightarrow> text_card list \<Rightarrow> card list" where
  "number_cards mk n [] = []"
| "number_cards mk n (r # rs) = mk (Suc n) r # number_cards mk (Suc n) rs"

definition place_card :: "zone \<Rightarrow> int \<Rightarrow> card \<Rightarrow> (copy_id \<times> text_copy) list \<Rightarrow> (copy_id \<times> text_copy) list" where
  "place_card z owner c = AList.update (cd_CopyID c)
     \<lparr>cp_Card = c, cp_Zone = z, cp_Owner = owner, cp_Reserved = False\<rparr>"

definition list_card :: "card \<Rightarrow> (copy_id \<times> card) list \<Rightarrow> (copy_id \<times> card) list" where
  "list_card c = AList.update (cd_CopyID c) c"

definition new_player :: "card list \<Rightarrow> card list \<Rightarrow> specialty \<Rightarrow> text_player" where
  "new_player hand reserve sp =
    \<lparr>tp_Specialty = sp, tp_FreeDraws = 0, tp_RevealUntil = 0, tp_RevealUsed = False, tp_Role = Nower,
     tp_Connected = True, tp_Eliminated = False, tp_Absent = False, tp_GraceDeadline = 0,
     tp_AbandonRecorded = False, tp_PointsBeforeResult = 0,
     tp_Hand = map cd_CopyID hand, tp_Reserve = map cd_CopyID reserve,
     tp_Points = 0, tp_CorrectVotes = 0, tp_VotesCast = 0, tp_Survivals = 0, tp_Pokes = 0\<rparr>"

record dealt =
  dl_next :: nat
  dl_copies :: "(copy_id \<times> text_copy) list"
  dl_all :: "(copy_id \<times> card) list"
  dl_players :: "text_player list"

fun deal_in :: "(nat \<Rightarrow> text_card \<Rightarrow> card) \<Rightarrow> tuning_config \<Rightarrow> (int \<Rightarrow> specialty) \<Rightarrow> int \<Rightarrow> dealt \<Rightarrow> text_hand list \<Rightarrow> go_error + dealt" where
  "deal_in mk c sp i d [] = Inr d"
| "deal_in mk c sp i d (h # hs) =
    (if int (length (ha_Cards h)) \<noteq> tg_HandSize c \<or> int (length (ha_Reserve h)) \<noteq> tg_DrawPile c
     then Inl (GoError ''incorrect retained hand/reserve'')
     else
      (let hand = number_cards mk (dl_next d) (ha_Cards h);
           reserve = number_cards mk (dl_next d + length hand) (ha_Reserve h)
       in deal_in mk c sp (i + 1)
            \<lparr>dl_next = dl_next d + length hand + length reserve,
             dl_copies = fold (place_card ZReserve i) reserve (fold (place_card ZHand i) hand (dl_copies d)),
             dl_all = fold list_card (hand @ reserve) (dl_all d),
             dl_players = dl_players d @ [new_player hand reserve (sp i)]\<rparr> hs))"

fun seed_rounds :: "(nat \<Rightarrow> text_card \<Rightarrow> card) \<Rightarrow> nat \<Rightarrow> text_card list list \<Rightarrow> card list list" where
  "seed_rounds mk n [] = []"
| "seed_rounds mk n (r # rs) = number_cards mk n r # seed_rounds mk (n + length r) rs"

subsection \<open>Roles\<close>

definition dev_role_ok :: "int \<Rightarrow> int \<times> role \<Rightarrow> bool" where
  "dev_role_ok sz = (\<lambda>(seat, r). 0 \<le> seat \<and> seat < sz \<and> (r = RoleOther ''random'' \<or> r = Nower \<or> r = Donower))"

definition dev_fixed :: "(int \<times> role) list \<Rightarrow> int \<Rightarrow> bool" where
  "dev_fixed roles seat \<longleftrightarrow> (case map_of roles seat of None \<Rightarrow> False | Some r \<Rightarrow> r = Nower \<or> r = Donower)"

fun assign_roles :: "(int \<times> role) list \<Rightarrow> nat list \<Rightarrow> int \<Rightarrow> text_player list \<Rightarrow> text_player list" where
  "assign_roles roles [] remaining ps = ps"
| "assign_roles roles (i # is) remaining ps =
    (if remaining = 0 then ps
     else if dev_fixed roles (int i) then assign_roles roles is remaining ps
     else assign_roles roles is (remaining - 1) (upd (int i) (\<lambda>p. p\<lparr>tp_Role := Donower\<rparr>) ps))"

definition donower_seats :: "(int \<times> role) list \<Rightarrow> int list" where
  "donower_seats roles = map fst (filter (\<lambda>(i, r). r = Donower) roles)"

definition dev_roles_check :: "text_options \<Rightarrow> tuning_config \<Rightarrow> go_error option" where
  "dev_roles_check opts c =
    (let roles = op_DevRoles opts; sz = mc_OriginalSize (op_Contract opts);
         remaining = sz div 2 - 1 - int (length (donower_seats roles));
         available = sz - int (length (filter (\<lambda>(i, r). r \<noteq> RoleOther ''random'') roles)) in checks
     [reject_if (roles \<noteq> [] \<and> (\<not> op_Prototype opts \<or> is_prod c)) (GoError ''dev.role_unavailable''),
      reject_if (\<not> list_all (dev_role_ok sz) roles) (GoError ''dev.role_invalid''),
      reject_if (remaining < 0 \<or> remaining > available) (GoError ''dev.role_conflict'')])"

definition set_roles :: "surroundings \<Rightarrow> int \<Rightarrow> text_options \<Rightarrow> text_player list \<Rightarrow> text_player list" where
  "set_roles env seed opts ps =
    (let roles = op_DevRoles opts; sz = mc_OriginalSize (op_Contract opts) in
     assign_roles roles (go_perm (sr_rng env seed) (nat sz))
       (sz div 2 - 1 - int (length (donower_seats roles)))
       (fold (\<lambda>i. upd i (\<lambda>p. p\<lparr>tp_Role := Donower\<rparr>)) (donower_seats roles) ps))"

subsection \<open>The match\<close>

definition initial_state :: "text_options \<Rightarrow> dealt \<Rightarrow> text_player list \<Rightarrow> text_state" where
  "initial_state opts d ps =
    \<lparr>st_RevealCards = None, st_RevealTarget = None, st_ShuffleUsed = False, st_RevoteUsed = False,
     st_Round = 1, st_Turn = 0, st_Phase = PhaseOther [], st_PhaseID = [], st_PhaseSerial = 0, st_Deadline = 0,
     st_ResultRevealAt = 0, st_ResultRevealed = False,
     st_Board = \<lparr>bd_ModeID = mc_ModeID (op_Contract opts), bd_Revision = 0, bd_Cards = Some []\<rparr>,
     st_Players = ps, st_Copies = dl_copies d, st_Order = [],
     st_RemainingVotes = mc_OriginalSize (op_Contract opts) div 2,
     st_Ready = [], st_Pokes = [], st_Votes = [], st_BallotKind = PhaseOther [], st_Candidates = [],
     st_BallotResult = None, st_Offer = None, st_History = [], st_Requests = [], st_Result = None\<rparr>"

definition initial_match :: "surroundings \<Rightarrow> text_options \<Rightarrow> tuning_config \<Rightarrow> int \<Rightarrow> dealt \<Rightarrow> text_match" where
  "initial_match env opts c seed d =
    (let k = op_Contract opts; sz = mc_OriginalSize k;
         mk = copy_card env seed (mc_MatchID k);
         seeds = seed_rounds mk (dl_next d) (de_SystemSeeds (op_Deal opts)) in
     \<lparr>tm_devEnabled = (op_Prototype opts \<and> \<not> is_prod c),
      tm_state = initial_state opts d (set_roles env seed opts (dl_players d)),
      tm_contract = k, tm_limits = match_limits c, tm_timers = tg_Timers c, tm_points = tg_Points c,
      tm_noin = tg_Noin c, tm_minRewardHumans = tg_NoinMinHumans c, tm_grace = tg_ReconnectGraceS c,
      tm_penalizeAbandon = (\<not> op_Prototype opts \<and> el_EntryPath (mc_Eligibility k) = ''quick_play''),
      tm_seed = seed, tm_hooks = op_Hooks opts,
      tm_nowns = map (\<lambda>n. \<lparr>tc_Ref = \<lparr>cr_ContentID = tn_ID n, cr_Revision = tn_Revision n\<rparr>, tc_Text = tn_Text n\<rparr>)
        (de_Nowns (op_Deal opts)),
      tm_seeds = seeds, tm_allCopies = fold list_card (concat seeds) (dl_all d),
      tm_initialCopies = sz * (tg_HandSize c + tg_DrawPile c),
      tm_seq = replicate (nat sz) 0, tm_epoch = map (sr_uuid_new env) [0..<nat sz],
      tm_pending = None, tm_rng = sr_rng env, tm_sha = sr_sha env, tm_lang = sr_lang env\<rparr>)"

text \<open>
  The dry run of the snapshot bounds: the first nower's projection with every copy that is not
  on the board in its hand, once per scheduled prompt.
\<close>

fun prompts_check :: "text_match \<Rightarrow> snapshot \<Rightarrow> content_id list \<Rightarrow> text_content list \<Rightarrow> go_error option" where
  "prompts_check m sn seen [] = None"
| "prompts_check m sn seen (n # ns) =
    (if cr_ContentID (tc_Ref n) \<in> set seen then Some (GoError ''duplicate scheduled prompt'')
     else case snapshot_Validate (tm_lang m) (tm_limits m)
                 (sn\<lparr>sn_Private := (sn_Private sn)\<lparr>pv_Nown := Some n\<rparr>\<rparr>) of
       Some e \<Rightarrow> Some e
     | None \<Rightarrow> prompts_check m sn (cr_ContentID (tc_Ref n) # seen) ns)"

definition capacity_check :: "text_match \<Rightarrow> text_state \<Rightarrow> gotime \<Rightarrow> go_error option" where
  "capacity_check m s now =
    (case seats_where (\<lambda>p. tp_Role p = Nower) (st_Players s) of
       [] \<Rightarrow> None
     | seat # _ \<Rightarrow>
        (let sn = project m s seat now;
             board = map (\<lambda>b. cd_CopyID (bc_Card b)) (board_cards s);
             cards = map snd (filter (\<lambda>(k, c). k \<notin> set board) (tm_allCopies m))
         in prompts_check m (sn\<lparr>sn_Private := (sn_Private sn)\<lparr>pv_Hand := Some cards\<rparr>\<rparr>) [] (tm_nowns m)))"

definition start_match :: "surroundings \<Rightarrow> text_match \<Rightarrow> go_error + text_match" where
  "start_match env m =
    (case beginRound m (tm_state m) (sr_clock env 0) of
       Inl e \<Rightarrow> Inl e
     | Inr s \<Rightarrow>
        (case checks
           [capacity_check m s (sr_clock env 1),
            each (\<lambda>i. snapshot_Validate (tm_lang m) (tm_limits m) (project m s (int i) (sr_clock env (2 + i))))
              [0..<length (st_Players s)]] of
           Some e \<Rightarrow> Inl e
         | None \<Rightarrow> Inr (m\<lparr>tm_state := s\<rparr>)))"

definition NewTextMatch :: "surroundings \<Rightarrow> text_options \<Rightarrow> go_error + text_match" where
  "NewTextMatch env opts =
    (case op_Config opts of
       None \<Rightarrow> Inl (GoError ''text match requires pinned tuning'')
     | Some c \<Rightarrow>
    (case options_check env opts c of
       Some e \<Rightarrow> Inl e
     | None \<Rightarrow>
    (case (if op_Seed opts = 0 then sr_entropy env else Inr (op_Seed opts)) of
       Inl e \<Rightarrow> Inl e
     | Inr seed \<Rightarrow>
        (let mk = copy_card env seed (mc_MatchID (op_Contract opts));
             sp = (\<lambda>i. dealTextSpecialty (sr_unit env (seed + (i + 1) * 15485863)) (tg_SpecialtyWeights c)) in
         case deal_in mk c sp 0 \<lparr>dl_next = 0, dl_copies = [], dl_all = [], dl_players = []\<rparr>
                (de_Hands (op_Deal opts)) of
           Inl e \<Rightarrow> Inl e
         | Inr d \<Rightarrow>
            (case dev_roles_check opts c of
               Some e \<Rightarrow> Inl e
             | None \<Rightarrow> start_match env (initial_match env opts c seed d))))))"

end
