(* ===== verification/Opening.thy ===== *)
theory Opening
  imports Match_Stock NewMatch
begin

section \<open>A new match is stocked\<close>

text \<open>
  \<open>NewTextMatch\<close> numbers the copies it deals and derives their identities from the numbers. If
  the hash behind the identities has no collision on those names, the match it returns satisfies
  the card invariant.
\<close>

definition copy_key :: "surroundings \<Rightarrow> int \<Rightarrow> string \<Rightarrow> nat \<Rightarrow> copy_id" where
  "copy_key env seed matchID n = sr_uuid_hash env (dec_int seed @ '':'' @ matchID @ '':copy:'' @ dec n)"

lemma copy_card_key [simp]: "cd_CopyID (copy_card env seed matchID n row) = copy_key env seed matchID n"
  by (simp add: copy_card_def copy_key_def)

subsection \<open>Numbered cards\<close>

lemma update_fresh: "map_of cs k = None \<Longrightarrow> AList.update k v cs = cs @ [(k, v)]"
  by (induction cs) (auto split: if_splits)

lemma upt_next: "[Suc a..<Suc (a + b + c)] = [Suc a..<Suc (a + b)] @ [Suc (a + b)..<Suc (a + b + c)]"
  using upt_add_eq_append [of "Suc a" "Suc (a + b)" c] by simp

lemma length_number_cards [simp]: "length (number_cards mk n rs) = length rs"
  by (induction mk n rs rule: number_cards.induct) simp_all

lemma number_cards_keys:
  assumes "\<And>n r. cd_CopyID (mk n r) = key n"
  shows "map cd_CopyID (number_cards mk n rs) = map key [Suc n..<Suc (n + length rs)]"
  using assms
proof (induction mk n rs rule: number_cards.induct)
  case (1 mk n)
  then show ?case by simp
next
  case (2 mk n r rs)
  have "[Suc n..<Suc (n + length (r # rs))] = Suc n # [Suc (Suc n)..<Suc (Suc n + length rs)]"
    by (subst upt_rec) simp
  then show ?case using 2 by simp
qed

lemma seed_rounds_keys:
  assumes "\<And>n r. cd_CopyID (mk n r) = key n"
  shows "map cd_CopyID (concat (seed_rounds mk n rss))
    = map key [Suc n..<Suc (n + length (concat rss))]"
  using assms
proof (induction mk n rss rule: seed_rounds.induct)
  case (1 mk n)
  then show ?case by simp
next
  case (2 mk n rs rss)
  have "[Suc n..<Suc (n + length (concat (rs # rss)))]
      = [Suc n..<Suc (n + length rs)] @ [Suc (n + length rs)..<Suc (n + length rs + length (concat rss))]"
    using upt_next [of n "length rs" "length (concat rss)"] by (simp add: ac_simps)
  then show ?case using 2 by (simp add: number_cards_keys [OF "2.prems"])
qed

subsection \<open>Placing and listing\<close>

definition placed :: "zone \<Rightarrow> int \<Rightarrow> card \<Rightarrow> copy_id \<times> text_copy" where
  "placed z i c = (cd_CopyID c, \<lparr>cp_Card = c, cp_Zone = z, cp_Owner = i, cp_Reserved = False\<rparr>)"

lemma fold_place:
  "distinct (map fst cs @ map cd_CopyID ks) \<Longrightarrow> fold (place_card z i) ks cs = cs @ map (placed z i) ks"
proof (induction ks arbitrary: cs)
  case Nil
  then show ?case by simp
next
  case (Cons k ks)
  then have "map_of cs (cd_CopyID k) = None" by (auto simp: map_of_eq_None_iff)
  then have "place_card z i k cs = cs @ [placed z i k]" by (simp add: place_card_def placed_def update_fresh)
  then show ?case using Cons.IH [of "cs @ [placed z i k]"] Cons.prems by (simp add: placed_def)
qed

lemma fold_list:
  "distinct (map fst cs @ map cd_CopyID ks) \<Longrightarrow> fold list_card ks cs = cs @ map (\<lambda>k. (cd_CopyID k, k)) ks"
proof (induction ks arbitrary: cs)
  case Nil
  then show ?case by simp
next
  case (Cons k ks)
  then have "map_of cs (cd_CopyID k) = None" by (auto simp: map_of_eq_None_iff)
  then have "list_card k cs = cs @ [(cd_CopyID k, k)]" by (simp add: list_card_def update_fresh)
  then show ?case using Cons.IH [of "cs @ [(cd_CopyID k, k)]"] Cons.prems by simp
qed

lemma live_append: "live (cs @ ds) = live cs + live ds"
  by (simp add: live_def)

lemma live_placed: "z \<noteq> ZSpent \<Longrightarrow> live (map (placed z i) ks) = image_mset (\<lambda>k. (k, z, i)) (mset (map cd_CopyID ks))"
  by (induction ks) (simp_all add: placed_def one_def)

lemma held_snoc: "held (ps @ [p]) = held ps + holding (int (length ps)) p"
  by (simp add: held_sum lessThan_Suc nth_append ac_simps)

lemma holding_new: "holding i (new_player hand reserve sp)
  = image_mset (\<lambda>k. (k, ZHand, i)) (mset (map cd_CopyID hand))
    + image_mset (\<lambda>k. (k, ZReserve, i)) (mset (map cd_CopyID reserve))"
  by (simp add: holding_def new_player_def)

subsection \<open>Dealing in\<close>

definition dealt_ok :: "(nat \<Rightarrow> copy_id) \<Rightarrow> tuning_config \<Rightarrow> dealt \<Rightarrow> bool" where
  "dealt_ok key c d \<longleftrightarrow> map fst (dl_copies d) = map key [Suc 0..<Suc (dl_next d)]
     \<and> map fst (dl_all d) = map key [Suc 0..<Suc (dl_next d)]
     \<and> held (dl_players d) = live (dl_copies d)
     \<and> (\<forall>(k, e)\<in>set (dl_copies d). cd_CopyID (cp_Card e) = k \<and> \<not> cp_Reserved e \<and> cp_Zone e \<noteq> ZSpent
          \<and> (k, cp_Card e) \<in> set (dl_all d))
     \<and> int (dl_next d) = int (length (dl_players d)) * (tg_HandSize c + tg_DrawPile c)"

lemma deal_in_ok:
  assumes "deal_in mk c sp i d hs = Inr d'" "\<And>n r. cd_CopyID (mk n r) = key n" "inj key"
    and "dealt_ok key c d" "i = int (length (dl_players d))"
  shows "dealt_ok key c d' \<and> length (dl_players d') = length (dl_players d) + length hs"
  using assms
proof (induction mk c sp i d hs rule: deal_in.induct)
  case (1 mk c sp i d)
  then show ?case by simp
next
  case (2 mk c sp i d h hs)
  have size: "int (length (ha_Cards h)) = tg_HandSize c" "int (length (ha_Reserve h)) = tg_DrawPile c"
    using "2.prems"(1) by (auto simp: Let_def split: if_splits)
  define hand where "hand = number_cards mk (dl_next d) (ha_Cards h)"
  define reserve where "reserve = number_cards mk (dl_next d + length hand) (ha_Reserve h)"
  define d1 where "d1 = \<lparr>dl_next = dl_next d + length hand + length reserve,
    dl_copies = fold (place_card ZReserve i) reserve (fold (place_card ZHand i) hand (dl_copies d)),
    dl_all = fold list_card (hand @ reserve) (dl_all d),
    dl_players = dl_players d @ [new_player hand reserve (sp i)]\<rparr>"
  have keys: "map cd_CopyID hand = map key [Suc (dl_next d)..<Suc (dl_next d + length hand)]"
    "map cd_CopyID reserve = map key [Suc (dl_next d + length hand)..<Suc (dl_next d + length hand + length reserve)]"
    using number_cards_keys [OF "2.prems"(2)] by (simp_all add: hand_def reserve_def)
  note ok = "2.prems"(4) [unfolded dealt_ok_def]
  have full: "map fst (dl_copies d) @ map cd_CopyID hand @ map cd_CopyID reserve = map key [Suc 0..<Suc (dl_next d1)]"
    "map fst (dl_all d) @ map cd_CopyID (hand @ reserve) = map key [Suc 0..<Suc (dl_next d1)]"
    using ok upt_next [of 0 "dl_next d + length hand" "length reserve"] upt_next [of 0 "dl_next d" "length hand"]
    by (simp_all add: keys d1_def)
  have dist: "distinct (map key [Suc 0..<Suc (dl_next d1)])" using "2.prems"(3) by (simp add: distinct_map inj_on_def inj_def)
  have dh: "distinct (map fst (dl_copies d) @ map cd_CopyID hand)"
    "distinct (map fst (dl_copies d @ map (placed ZHand i) hand) @ map cd_CopyID reserve)"
    "distinct (map fst (dl_all d) @ map cd_CopyID (hand @ reserve))"
    using dist [folded full(1)] dist [folded full(2)] by (auto simp: placed_def comp_def)
  have c1: "dl_copies d1 = dl_copies d @ map (placed ZHand i) hand @ map (placed ZReserve i) reserve"
    unfolding d1_def by (simp add: fold_place [OF dh(1)] fold_place [OF dh(2)])
  have a1: "dl_all d1 = dl_all d @ map (\<lambda>k. (cd_CopyID k, k)) (hand @ reserve)"
    unfolding d1_def by (simp only: fold_list [OF dh(3)] dealt.simps)
  have "map fst (dl_copies d1) = map key [Suc 0..<Suc (dl_next d1)]"
    unfolding full(1) [symmetric] by (simp add: c1 placed_def comp_def)
  moreover have "map fst (dl_all d1) = map key [Suc 0..<Suc (dl_next d1)]"
    unfolding full(2) [symmetric] by (simp add: a1 comp_def)
  moreover have p1: "dl_players d1 = dl_players d @ [new_player hand reserve (sp i)]" by (simp add: d1_def)
  have "held (dl_players d1) = live (dl_copies d1)"
    using ok "2.prems"(5) by (simp add: c1 live_append live_placed held_snoc holding_new p1)
  moreover have "\<forall>(k, e)\<in>set (dl_copies d1). cd_CopyID (cp_Card e) = k \<and> \<not> cp_Reserved e \<and> cp_Zone e \<noteq> ZSpent
      \<and> (k, cp_Card e) \<in> set (dl_all d1)"
    using ok by (auto simp: c1 a1 placed_def)
  moreover have "int (dl_next d1) = int (length (dl_players d1)) * (tg_HandSize c + tg_DrawPile c)"
    using ok size by (simp add: p1, simp add: d1_def hand_def reserve_def algebra_simps)
  ultimately have ok1: "dealt_ok key c d1" unfolding dealt_ok_def by blast
  have "deal_in mk c sp (i + 1) d1 hs = Inr d'"
    using "2.prems"(1) size by (simp add: Let_def hand_def reserve_def d1_def split: if_splits)
  from "2.IH" [OF _ hand_def reserve_def this [unfolded d1_def] "2.prems"(2,3) ok1 [unfolded d1_def]] size "2.prems"(5)
  show ?case by simp
qed

subsection \<open>Roles leave the cards alone\<close>

abbreviation card_lists :: "text_player list \<Rightarrow> (copy_id list \<times> copy_id list) list" where
  "card_lists ps \<equiv> map (\<lambda>p. (tp_Hand p, tp_Reserve p)) ps"

lemma card_lists_role: "card_lists (upd i (\<lambda>p. p\<lparr>tp_Role := r\<rparr>) ps) = card_lists ps"
  by (rule map_upd_same) simp

lemma card_lists_assign: "card_lists (assign_roles roles is n ps) = card_lists ps"
  by (induction roles "is" n ps rule: assign_roles.induct) (simp_all add: card_lists_role)

lemma card_lists_fold: "card_lists (fold (\<lambda>i. upd i (\<lambda>p. p\<lparr>tp_Role := r\<rparr>)) js ps) = card_lists ps"
  by (induction js arbitrary: ps) (simp_all add: card_lists_role)

lemma set_roles_cards: "card_lists (set_roles env seed opts ps) = card_lists ps"
  by (simp add: set_roles_def Let_def card_lists_assign card_lists_fold)

lemma held_card_lists:
  assumes "card_lists ps = card_lists qs"
  shows "held ps = held qs" "length ps = length qs"
proof -
  show l: "length ps = length qs" using map_eq_imp_length_eq [OF assms] .
  show "held ps = held qs"
  proof (rule held_cong)
    show "tp_Hand (ps ! i) = tp_Hand (qs ! i) \<and> tp_Reserve (ps ! i) = tp_Reserve (qs ! i)" if "i < length qs" for i
      using arg_cong [OF assms, of "\<lambda>xs. xs ! i"] that l by simp
  qed (simp add: l)
qed

subsection \<open>The opening stock\<close>

lemma initial_calm:
  assumes deal: "deal_in (copy_card env seed (mc_MatchID (op_Contract opts))) c sp 0
      \<lparr>dl_next = 0, dl_copies = [], dl_all = [], dl_players = []\<rparr> (de_Hands (op_Deal opts)) = Inr d"
    and sz: "int (length (de_Hands (op_Deal opts))) = mc_OriginalSize (op_Contract opts)"
    and inj: "inj (copy_key env seed (mc_MatchID (op_Contract opts)))"
  defines "m \<equiv> initial_match env opts c seed d"
  shows "calm m ((tm_state m)\<lparr>st_Round := 0\<rparr>)" and "seeds_registered m"
proof -
  let ?key = "copy_key env seed (mc_MatchID (op_Contract opts))"
  let ?mk = "copy_card env seed (mc_MatchID (op_Contract opts))"
  let ?none = "\<lparr>dl_next = 0, dl_copies = [], dl_all = [], dl_players = []\<rparr>"
  let ?s = "(tm_state m)\<lparr>st_Round := 0\<rparr>"
  have "dealt_ok ?key c ?none" by (simp add: dealt_ok_def held_def)
  from deal_in_ok [OF deal copy_card_key inj this]
  have ok: "dealt_ok ?key c d" and len: "length (dl_players d) = length (de_Hands (op_Deal opts))" by simp_all
  note od = ok [unfolded dealt_ok_def]
  define seeds where "seeds = seed_rounds ?mk (dl_next d) (de_SystemSeeds (op_Deal opts))"
  have skeys: "map cd_CopyID (concat seeds)
      = map ?key [Suc (dl_next d)..<Suc (dl_next d + length (concat (de_SystemSeeds (op_Deal opts))))]"
    unfolding seeds_def by (rule seed_rounds_keys) simp
  have all: "map fst (dl_all d) @ map cd_CopyID (concat seeds)
      = map ?key [Suc 0..<Suc (dl_next d + length (concat (de_SystemSeeds (op_Deal opts))))]"
    using od upt_next [of 0 "dl_next d" "length (concat (de_SystemSeeds (op_Deal opts)))"] by (simp add: skeys)
  have dall: "distinct (map fst (dl_all d) @ map cd_CopyID (concat seeds))"
    unfolding all using inj by (simp add: distinct_map inj_on_def inj_def)
  have f: "st_Copies ?s = dl_copies d" "board_cards ?s = []" "st_Round ?s = 0" "st_Offer ?s = None" "st_Order ?s = []"
    "st_History ?s = []" "tm_seeds m = seeds" "tm_allCopies m = dl_all d @ map (\<lambda>k. (cd_CopyID k, k)) (concat seeds)"
    "st_Players ?s = set_roles env seed opts (dl_players d)"
    "tm_initialCopies m = mc_OriginalSize (op_Contract opts) * (tg_HandSize c + tg_DrawPile c)"
    "mc_OriginalSize (tm_contract m) = mc_OriginalSize (op_Contract opts)"
    by (simp_all add: m_def initial_match_def Let_def initial_state_def board_cards_def seeds_def [symmetric]
        fold_list [OF dall])
  note same = held_card_lists [OF set_roles_cards [of env seed opts "dl_players d"]]
  have dc: "distinct (map fst (dl_copies d))" using od dall by simp
  have da: "distinct (map fst (tm_allCopies m))" using dall by (simp add: f comp_def)
  have entry: "cd_CopyID (cp_Card e) = k \<and> \<not> cp_Reserved e \<and> cp_Zone e \<noteq> ZSpent \<and> (k, cp_Card e) \<in> set (dl_all d)"
    if "map_of (dl_copies d) k = Some e" for k e
    using od map_of_SomeD [OF that] by auto
  have "located (mode m) ?s"
  proof (rule balancedI)
    show "held (st_Players ?s) + on_board (mode m) (board_cards ?s) + {#} = live (st_Copies ?s)"
      using od same(1) by (simp only: f) (simp add: on_board_def)
    show "copy_good k e" if "map_of (st_Copies ?s) k = Some e" for k e
      using entry that by (simp add: f(1) copy_good_def)
  qed (simp_all only: f(1,2) dc, simp)
  moreover have "seats_ok m ?s" using same(2) len sz by (simp add: seats_ok_def f)
  moreover have "registered_cards m ?s"
    unfolding registered_cards_def f(1)
  proof (intro allI impI)
    fix k e assume "map_of (dl_copies d) k = Some e"
    then have "(k, cp_Card e) \<in> set (tm_allCopies m)" using entry by (simp add: f(8))
    then show "map_of (tm_allCopies m) k = Some (cp_Card e)" by (rule map_of_is_SomeI [OF da])
  qed
  moreover have "fresh_seeds m ?s (nat (st_Round ?s))"
  proof -
    have "fst ` set (dl_copies d) = fst ` set (dl_all d)" using od by (metis set_map)
    then have "cd_CopyID k \<notin> fst ` set (dl_copies d)" if "k \<in> set (concat seeds)" for k
      using dall that by (auto simp only: distinct_append set_map)
    then show ?thesis
      using dall by (simp add: fresh_seeds_def f(1,3,7) map_of_eq_None_iff)
  qed
  moreover have "int (length (st_Copies ?s)) = expected_copies m ?s"
  proof -
    have "length (dl_copies d) = length [Suc 0..<Suc (dl_next d)]"
      using od by (metis length_map)
    then have "int (length (dl_copies d)) = mc_OriginalSize (op_Contract opts) * (tg_HandSize c + tg_DrawPile c)"
      using od len sz by (simp del: upt_Suc)
    then show ?thesis by (simp add: expected_total f)
  qed
  moreover have "reserved_only {} ?s" using entry by (auto simp: reserved_only_def f(1))
  ultimately show "calm m ?s" by (simp add: calm_def stocked_def f(4))
  show "seeds_registered m"
    unfolding seeds_registered_def f(7)
  proof
    fix k assume "k \<in> set (concat seeds)"
    then have "(cd_CopyID k, k) \<in> set (tm_allCopies m)" by (auto simp: f(8))
    then show "map_of (tm_allCopies m) (cd_CopyID k) = Some k" by (rule map_of_is_SomeI [OF da])
  qed
qed

lemma NewTextMatch_parts:
  assumes "NewTextMatch env opts = Inr m"
  obtains c seed d s where "op_Config opts = Some c" "options_check env opts c = None"
    "(if op_Seed opts = 0 then sr_entropy env else Inr (op_Seed opts)) = Inr seed"
    "deal_in (copy_card env seed (mc_MatchID (op_Contract opts))) c
       (\<lambda>i. dealTextSpecialty (sr_unit env (seed + (i + 1) * 15485863)) (tg_SpecialtyWeights c)) 0
       \<lparr>dl_next = 0, dl_copies = [], dl_all = [], dl_players = []\<rparr> (de_Hands (op_Deal opts)) = Inr d"
    "beginRound (initial_match env opts c seed d) (tm_state (initial_match env opts c seed d)) (sr_clock env 0) = Inr s"
    "m = (initial_match env opts c seed d)\<lparr>tm_state := s\<rparr>"
  using assms
  by (auto simp: NewTextMatch_def Let_def start_match_def split: option.splits sum.splits)

lemma NewTextMatch_kept:
  assumes new: "NewTextMatch env opts = Inr m"
    and inj: "\<And>seed. inj (copy_key env seed (mc_MatchID (op_Contract opts)))"
  shows "match_kept m"
proof -
  obtain c seed d s where c: "options_check env opts c = None"
    and d: "deal_in (copy_card env seed (mc_MatchID (op_Contract opts))) c
       (\<lambda>i. dealTextSpecialty (sr_unit env (seed + (i + 1) * 15485863)) (tg_SpecialtyWeights c)) 0
       \<lparr>dl_next = 0, dl_copies = [], dl_all = [], dl_players = []\<rparr> (de_Hands (op_Deal opts)) = Inr d"
    and s: "beginRound (initial_match env opts c seed d) (tm_state (initial_match env opts c seed d)) (sr_clock env 0) = Inr s"
    and m: "m = (initial_match env opts c seed d)\<lparr>tm_state := s\<rparr>"
    using NewTextMatch_parts [OF new] by metis
  define m0 where "m0 = initial_match env opts c seed d"
  define s0 where "s0 = (tm_state m0)\<lparr>st_Round := 0\<rparr>"
  have "int (length (de_Hands (op_Deal opts))) = mc_OriginalSize (op_Contract opts)"
    using c by (simp add: options_check_def Let_def)
  note start = initial_calm [OF d this inj, folded m0_def]
  have r0: "0 \<le> st_Round s0" by (simp add: s0_def)
  have "tm_state m0 = s0\<lparr>st_Round := st_Round s0 + 1\<rparr>"
    by (simp add: s0_def m0_def initial_match_def Let_def initial_state_def)
  then have "beginRound m0 (s0\<lparr>st_Round := st_Round s0 + 1\<rparr>) (sr_clock env 0) = Inr s"
    using s by (simp only: m0_def [symmetric])
  then have "calm m0 s"
    using calm_beginRound [OF start(1) [folded s0_def] start(2)] r0 by simp
  moreover have "tm_pending m0 = None" by (simp add: m0_def initial_match_def Let_def)
  ultimately show ?thesis
    using start(2) calm_kept by (simp add: m m0_def [symmetric] match_kept_def)
qed

end
