(* ===== verification/Sample.thy ===== *)
theory Sample
  imports Opening "HOL-Library.Code_Target_Nat"
begin

section \<open>A concrete match\<close>

text \<open>
  One small match on which the claims are instantiated: four seats, a hand and a reserve of one
  card each, two rounds with four seed cards. The surroundings are concrete functions that behave
  as documented: the identity derived from a name keeps different names of one match apart, the
  random source always draws zero, every language tag parses.
\<close>

definition zero_hash :: string where
  "zero_hash = replicate 64 CHR ''0''"

definition sample_contract :: "mode_id \<Rightarrow> match_contract" where
  "sample_contract md = \<lparr>mc_ProtocolVersion = 2, mc_MatchID = ''m'', mc_RoomID = ''r'', mc_OriginalSize = 4,
     mc_ModeID = md, mc_RulesVersion = ''v'', mc_ContentLanguage = ''en'', mc_PackReleaseID = ''p'',
     mc_PackSHA256 = zero_hash, mc_Tuning = \<lparr>pt_Version = ''text-tuning-v1'', pt_SHA256 = zero_hash\<rparr>,
     mc_Eligibility = \<lparr>el_AdmissionID = ''a'', el_EntryPath = ''local'', el_Rewards = False, el_Leaderboard = False\<rparr>\<rparr>"

definition sample_provenance :: text_provenance where
  "sample_provenance = \<lparr>pr_SourceKind = [], pr_SourceID = [], pr_SourceRevision = 0, pr_AcceptedTextSHA256 = [],
     pr_TermsVersion = [], pr_ConsentReference = [], pr_ConsentAtMS = 0, pr_ApprovalReference = [],
     pr_EditorReference = [], pr_ReviewedAtMS = 0, pr_License = [], pr_Attribution = []\<rparr>"

definition sample_card :: "nat \<Rightarrow> text_card" where
  "sample_card n = \<lparr>td_ID = ''t'' @ dec n, td_Revision = 1, td_Type = ''card'', td_Text = ''x'' @ dec n, td_Pool = [],
     td_Modes = [], td_ToneBucket = [], td_Provenance = sample_provenance\<rparr>"

definition sample_nown :: "nat \<Rightarrow> text_nown" where
  "sample_nown n = \<lparr>tn_ID = ''n'' @ dec n, tn_Revision = 1, tn_Type = ''nown'', tn_Text = ''q'' @ dec n, tn_Kind = [],
     tn_Modes = [], tn_ToneBucket = [], tn_Provenance = sample_provenance\<rparr>"

definition sample_deal :: text_deal where
  "sample_deal = \<lparr>de_ReleaseID = ''p'', de_Language = ''en'', de_RulesVersion = ''v'', de_SnapshotSHA256 = zero_hash,
     de_Nowns = [sample_nown 1, sample_nown 2],
     de_Hands = map (\<lambda>i. \<lparr>ha_Cards = [sample_card (2 * i)], ha_Reserve = [sample_card (2 * i + 1)]\<rparr>) [0..<4],
     de_SystemSeeds = [map sample_card [8..<12], map sample_card [12..<16]]\<rparr>"

definition sample_timers :: timers where
  "sample_timers = \<lparr>ti_RevealLockout = 5, ti_RevealView = 3, ti_ShuffleBonusSeconds = 10, ti_TradeResponseS = 20,
     ti_RoundStartCountdown = 3, ti_PlayTurn = 30, ti_DiscussionPerPlayer = 15, ti_KnowoffBallot = 30,
     ti_KnowoffRunoff = 20, ti_VoteResultWindow = 10, ti_VoteResultFalling = 4\<rparr>"

definition sample_config :: tuning_config where
  "sample_config = \<lparr>tg_Hash = Inr zero_hash, tg_MaxMessageBytes = 65536, tg_MaxBytesPerFrame = 65536,
     tg_MaxHistoryEvents = 100, tg_MaxHistoryPageEvents = 10, tg_MaxTextBytes = 100, tg_MaxRequestsPerSeat = 50,
     tg_VotesBySize = [(4, 2)], tg_DonowersBySize = [(4, 1)], tg_ReconnectGraceS = 30, tg_HandSize = 1, tg_DrawPile = 1,
     tg_SpecialtyWeights = (\<lambda>_. 0), tg_Timers = sample_timers,
     tg_Points = \<lparr>pn_CorrectVote = 10, pn_NowerWinBonus = 20, pn_DonowerTeamWin = 30, pn_DrawPenalty = 1\<rparr>,
     tg_Noin = \<lparr>no_CorrectVote = 1, no_DonowerVoteSurvived = 1\<rparr>, tg_NoinMinHumans = 3, tg_Env = ''prod''\<rparr>"

definition sample_hooks :: text_hooks where
  "sample_hooks = \<lparr>hk_ModerateChat = None, hk_Abandon = None, hk_Award = None, hk_Finish = None\<rparr>"

definition sample_surroundings :: surroundings where
  "sample_surroundings = \<lparr>sr_rng = (\<lambda>seed k. 0), sr_unit = (\<lambda>_. 0), sr_sha = (\<lambda>_. replicate 32 0), sr_lang = (\<lambda>_. True),
     sr_uuid_parse = (\<lambda>_. True), sr_uuid_hash = (\<lambda>s. ''c'' @ drop 9 s), sr_uuid_new = (\<lambda>n. ''u'' @ dec n),
     sr_entropy = Inr 1, sr_clock = (\<lambda>n. time_unix_milli 1000)\<rparr>"

definition sample_options :: "mode_id \<Rightarrow> text_options" where
  "sample_options md = \<lparr>op_DevRoles = [], op_Contract = sample_contract md, op_Deal = sample_deal,
     op_Config = Some sample_config, op_Seed = 1, op_Hooks = sample_hooks, op_Prototype = False\<rparr>"

definition sample_dealt :: dealt where
  "sample_dealt = (case deal_in (copy_card sample_surroundings 1 ''m'') sample_config (\<lambda>_. NoSpecialty) 0
      \<lparr>dl_next = 0, dl_copies = [], dl_all = [], dl_players = []\<rparr> (de_Hands sample_deal) of
     Inr d \<Rightarrow> d | Inl _ \<Rightarrow> \<lparr>dl_next = 0, dl_copies = [], dl_all = [], dl_players = []\<rparr>)"

definition sample_initial :: "mode_id \<Rightarrow> text_match" where
  "sample_initial md = initial_match sample_surroundings (sample_options md) sample_config 1 sample_dealt"

definition sample_begun :: text_state where
  "sample_begun = (case beginRound (sample_initial ModeBadBargains) (tm_state (sample_initial ModeBadBargains)) (time_unix_milli 1000) of
     Inr s \<Rightarrow> s | Inl _ \<Rightarrow> tm_state (sample_initial ModeBadBargains))"

definition sample_match :: text_match where
  "sample_match = (sample_initial ModeBadBargains)\<lparr>tm_state := sample_begun\<rparr>"

text \<open>
  Their values, written out, so that the evaluations below start from them.
\<close>

definition card_no :: "nat \<Rightarrow> card" where
  "card_no n = \<lparr>cd_CopyID = ''c'' @ dec (Suc n),
     cd_Content = \<lparr>tc_Ref = \<lparr>cr_ContentID = ''t'' @ dec n, cr_Revision = 1\<rparr>, tc_Text = ''x'' @ dec n\<rparr>\<rparr>"

definition copy_no :: "zone \<Rightarrow> int \<Rightarrow> nat \<Rightarrow> copy_id \<times> text_copy" where
  "copy_no z i n = (cd_CopyID (card_no n), \<lparr>cp_Card = card_no n, cp_Zone = z, cp_Owner = i, cp_Reserved = False\<rparr>)"

definition player_no :: "role \<Rightarrow> nat \<Rightarrow> text_player" where
  "player_no r i = (new_player [card_no (2 * i)] [card_no (2 * i + 1)] NoSpecialty)\<lparr>tp_Role := r\<rparr>"

lemma sample_begun_value [code]:
  "sample_begun =
    \<lparr>st_RevealCards = None, st_RevealTarget = None, st_ShuffleUsed = False, st_RevoteUsed = False, st_Round = 1, st_Turn = 0,
     st_Phase = PhaseRoundStart, st_PhaseID = ''m.p1'', st_PhaseSerial = 1, st_Deadline = 4000, st_ResultRevealAt = 0,
     st_ResultRevealed = False,
     st_Board = \<lparr>bd_ModeID = ModeBadBargains, bd_Revision = 1, bd_Cards = Some (map (\<lambda>i.
       \<lparr>bc_Card = card_no (8 + i), bc_Actor = \<lparr>ac_Kind = ActorSystem, ac_Seat = None\<rparr>, bc_Rating = None, bc_Slot = None,
        bc_Seat = Some (int i)\<rparr>) [0, 1, 2, 3])\<rparr>,
     st_Players = [player_no Nower 0, player_no Nower 1, player_no Nower 2, player_no Donower 3],
     st_Copies = concat (map (\<lambda>i. [copy_no ZHand (int i) (2 * i), copy_no ZReserve (int i) (2 * i + 1)]) [0, 1, 2, 3])
       @ map (\<lambda>i. copy_no ZBoard (int i) (8 + i)) [0, 1, 2, 3],
     st_Order = [1, 2, 3, 0], st_RemainingVotes = 2, st_Ready = [], st_Pokes = [], st_Votes = [],
     st_BallotKind = PhaseOther [], st_Candidates = [], st_BallotResult = None, st_Offer = None,
     st_History =
      [\<lparr>e_EventID = ''m.e1'', e_EvidenceSeq = 1, e_Round = 1, e_Phase = PhaseRoundStart, e_PhaseID = ''m.p1'',
        e_Actor = \<lparr>ac_Kind = ActorSystem, ac_Seat = None\<rparr>, e_Kind = EvSeed, e_Cards = Some (map card_no [8, 9, 10, 11]),
        e_BeforeRevision = 0, e_AfterRevision = 1, e_Reason = RSeed, e_ServerTimeMS = 1000, e_DeadlineMS = None,
        e_Count = None, e_Rating = None, e_Slot = None, e_TargetSeat = None, e_OfferID = [], e_Resolution = NoResolution,
        e_PhraseID = [], e_Text = [], e_UILocale = [], e_Ballot = None\<rparr>],
     st_Requests = [], st_Result = None\<rparr>"
  by code_simp

lemma sample_tables:
  "seed_rounds (copy_card sample_surroundings 1 ''m'') (dl_next sample_dealt) (de_SystemSeeds sample_deal)
     = [map card_no [8, 9, 10, 11], map card_no [12, 13, 14, 15]]"
  "dl_all sample_dealt = map (\<lambda>n. (cd_CopyID (card_no n), card_no n)) [0, 1, 2, 3, 4, 5, 6, 7]"
  by code_simp+

lemma sample_match_value [code]:
  "sample_match =
    \<lparr>tm_devEnabled = False, tm_state = sample_begun, tm_contract = sample_contract ModeBadBargains,
     tm_limits = match_limits sample_config, tm_timers = sample_timers, tm_points = tg_Points sample_config,
     tm_noin = tg_Noin sample_config, tm_minRewardHumans = 3, tm_grace = 30, tm_penalizeAbandon = False,
     tm_seed = 1, tm_hooks = sample_hooks,
     tm_nowns = map (\<lambda>n. \<lparr>tc_Ref = \<lparr>cr_ContentID = ''n'' @ dec n, cr_Revision = 1\<rparr>, tc_Text = ''q'' @ dec n\<rparr>) [1, 2],
     tm_seeds = [map card_no [8, 9, 10, 11], map card_no [12, 13, 14, 15]],
     tm_allCopies = map (\<lambda>n. (cd_CopyID (card_no n), card_no n)) [0, 1, 2, 3, 4, 5, 6, 7, 8, 9, 10, 11, 12, 13, 14, 15],
     tm_initialCopies = 8, tm_seq = [0, 0, 0, 0], tm_epoch = map (\<lambda>n. ''u'' @ dec n) [0, 1, 2, 3],
     tm_pending = None, tm_rng = (\<lambda>seed k. 0), tm_sha = (\<lambda>_. replicate 32 0), tm_lang = (\<lambda>_. True)\<rparr>"
proof -
  have all: "fold list_card (concat [map card_no [8, 9, 10, 11], map card_no [12, 13, 14, 15]])
      (map (\<lambda>n. (cd_CopyID (card_no n), card_no n)) [0, 1, 2, 3, 4, 5, 6, 7])
    = map (\<lambda>n. (cd_CopyID (card_no n), card_no n)) [0, 1, 2, 3, 4, 5, 6, 7, 8, 9, 10, 11, 12, 13, 14, 15]"
    by code_simp
  have seats: "[0..<nat 4] = [0, 1, 2, 3]" by (simp add: upt_rec)
  show ?thesis
    using sample_tables all
    by (simp add: sample_match_def sample_initial_def initial_match_def Let_def sample_options_def sample_config_def
        sample_contract_def sample_surroundings_def is_prod_def sample_deal_def sample_nown_def seats eval_nat_numeral
        flip: sample_dealt_def)
qed

text \<open>The constructor accepts the sample and returns \<open>sample_match\<close>.\<close>

lemma sample_seed: "op_Seed (sample_options md) = 1" "op_Config (sample_options md) = Some sample_config"
  "op_Contract (sample_options md) = sample_contract md" "op_Deal (sample_options md) = sample_deal"
  "mc_MatchID (sample_contract md) = ''m''"
  by (simp_all add: sample_options_def sample_contract_def)

lemma sample_guards:
  "options_check sample_surroundings (sample_options ModeBadBargains) sample_config = None"
  "dev_roles_check (sample_options ModeBadBargains) sample_config = None"
  by code_simp+

lemma sample_specialties:
  "dealTextSpecialty (sr_unit sample_surroundings k) (tg_SpecialtyWeights sample_config) = NoSpecialty"
  by (simp add: dealTextSpecialty_def sample_config_def specialty_order_def)

lemma sample_deal_in:
  "deal_in (copy_card sample_surroundings 1 ''m'') sample_config (\<lambda>_. NoSpecialty) 0
      \<lparr>dl_next = 0, dl_copies = [], dl_all = [], dl_players = []\<rparr> (de_Hands sample_deal) = Inr sample_dealt"
  by code_simp

lemma sample_begins:
  "beginRound (sample_initial ModeBadBargains) (tm_state (sample_initial ModeBadBargains)) (sr_clock sample_surroundings 0)
     = Inr sample_begun"
  by code_simp

lemma sample_capacity:
  "capacity_check (sample_initial ModeBadBargains) sample_begun (sr_clock sample_surroundings 1) = None"
  by code_simp

lemma sample_snapshots:
  "each (\<lambda>i. snapshot_Validate (tm_lang (sample_initial ModeBadBargains)) (tm_limits (sample_initial ModeBadBargains))
      (project (sample_initial ModeBadBargains) sample_begun (int i) (sr_clock sample_surroundings (2 + i))))
     [0..<length (st_Players sample_begun)] = None"
  by code_simp

lemma sample_new: "NewTextMatch sample_surroundings (sample_options ModeBadBargains) = Inr sample_match"
  using sample_capacity sample_snapshots
  by (simp add: NewTextMatch_def sample_seed sample_guards sample_specialties sample_deal_in start_match_def
      sample_begins sample_match_def split: option.split flip: sample_initial_def)

lemma sample_distinct_names: "inj (copy_key sample_surroundings seed (mc_MatchID (op_Contract (sample_options md))))"
proof (rule injI)
  fix x y
  define name where "name = dec_int seed @ '':m:copy:''"
  have nine: "9 \<le> length name" by (cases "dec_int seed") (simp_all add: name_def dec_int_def split: if_splits)
  have joined: "dec_int seed @ '':'' @ ''m'' @ '':copy:'' @ dec n = name @ dec n" for n by (simp add: name_def)
  have key: "copy_key sample_surroundings seed (mc_MatchID (op_Contract (sample_options md))) n
      = ''c'' @ drop 9 name @ dec n" for n
    using nine by (simp only: copy_key_def sample_surroundings_def sample_seed surroundings.select_convs joined drop_append) simp
  assume "copy_key sample_surroundings seed (mc_MatchID (op_Contract (sample_options md))) x
    = copy_key sample_surroundings seed (mc_MatchID (op_Contract (sample_options md))) y"
  then show "x = y" by (simp only: key) simp
qed

subsection \<open>Its first turn\<close>

text \<open>After the countdown of the first round seat 1 is to play; \<open>sample_draw\<close> is its request to draw.\<close>

definition sample_playing :: text_state where
  "sample_playing = (case advance sample_match sample_begun (time_unix_milli 5000) (empty_pending sample_begun [] []) of
     Inr (s, p) \<Rightarrow> s | Inl _ \<Rightarrow> sample_begun)"

lemma sample_playing_value [code]:
  "sample_playing = sample_begun\<lparr>st_Turn := 1, st_Phase := PhasePlay, st_PhaseID := ''m.p2'', st_PhaseSerial := 2,
     st_Deadline := 35000\<rparr>"
  by code_simp

definition sample_turn :: text_match where
  "sample_turn = sample_match\<lparr>tm_state := sample_playing\<rparr>"

definition sample_draw :: action_request where
  "sample_draw = \<lparr>r_Version = 2, r_RequestID = ''q1'', r_MatchID = ''m'', r_ModeID = ModeBadBargains, r_Round = 1,
     r_Turn = 1, r_Phase = PhasePlay, r_PhaseID = ''m.p2'', r_ExpectedBoardRevision = 1,
     r_Action = \<lparr>a_Kind = ActionDraw, a_CopyID = [], a_Rating = None, a_Slot = None, a_TargetSeat = None,
       a_TargetCopyID = [], a_OfferID = [], a_Resolution = NoResolution, a_Count = Some 1, a_PhraseID = [],
       a_Text = [], a_UILocale = []\<rparr>\<rparr>"

definition accepted :: "'e + 'a \<Rightarrow> bool" where
  "accepted r = (case r of Inl _ \<Rightarrow> False | Inr _ \<Rightarrow> True)"

lemma accepted_Inr: "accepted r \<Longrightarrow> \<exists>x. r = Inr x"
  by (simp add: accepted_def split: sum.splits)

lemma sample_advances:
  "advance sample_match sample_begun (time_unix_milli 5000) (empty_pending sample_begun [] [])
     = Inr (sample_playing, empty_pending sample_begun [] [])"
  by code_simp

lemma sample_playing_valid: "validateState sample_match sample_playing (\<lambda>_. time_unix_milli 5000) = None"
  by code_simp

lemma sample_match_fields:
  "tm_state sample_match = sample_begun" "tm_pending sample_match = None"
  "tm_hooks sample_match = sample_hooks" "tm_contract sample_match = sample_contract ModeBadBargains"
  by (simp_all add: sample_match_def sample_initial_def initial_match_def Let_def sample_options_def)

lemma sample_turn_step:
  "\<exists>res calls. Advance_match sample_match (time_unix_milli 5000) (\<lambda>_. time_unix_milli 5000) = (Inr res, sample_turn, calls)"
  by (simp add: Advance_match_def system_def system_step_def sample_match_fields sample_advances sample_playing_valid)
    (simp add: persist_def run_hooks_def then_call_def sample_match_fields sample_hooks_def empty_pending_def sample_turn_def)

lemma sample_draws: "accepted (fst (Apply sample_turn 1 sample_draw (\<lambda>_. time_unix_milli 6000)))"
  by code_simp

end
