(* ===== verification/Steps.thy ===== *)
theory Steps
  imports Match_Stock
begin

section \<open>Operations as attempts and commits\<close>

text \<open>
  Every operation of a match computes candidate states from the committed one, validates each
  and commits it through the durable hooks. \<open>candidate\<close> lists the states an operation may try;
  \<open>commit_step\<close> is the abstract machine: try a candidate, commit the pending one. The concrete
  operations refine it (\<open>match_step_commits\<close>), so a relation between the states before and
  after is established once per kind of candidate.
\<close>

inductive candidate :: "text_match \<Rightarrow> text_state \<Rightarrow> text_state \<Rightarrow> bool" where
  acted: "0 \<le> seat \<Longrightarrow> seat < mc_OriginalSize (tm_contract m) \<Longrightarrow>
    request_Validate (tm_lang m) (tm_limits m) (r\<lparr>r_Action := a\<rparr>) = None \<Longrightarrow>
    apply_guards m seat r s now = None \<Longrightarrow>
    map_of (st_Requests s) (request_key seat (r_RequestID r)) = None
      \<or> (\<exists>old. map_of (st_Requests s) (request_key seat (r_RequestID r)) = Some old
            \<and> CheckRequestReuse (tm_sha m) old r seat = Inr False) \<Longrightarrow>
    act m s seat a now p = Inr (t, q) \<Longrightarrow>
    candidate m s (t\<lparr>st_Requests := AList.update (request_key seat (r_RequestID r))
        (record_of seat r (RequestHash (tm_sha m) r)) (st_Requests t)\<rparr>)"
| advanced: "advance m s now p = Inr (t, q) \<Longrightarrow> candidate m s t"
| connected: "set_connected_step m seat on now s p = Inr (t, q) \<Longrightarrow> candidate m s t"
| closed: "candidate m s (fst (finish m s MatchInterrupted NoWinner now p))"
| granted: "tm_devEnabled m \<Longrightarrow> candidate m s (upd_player seat (\<lambda>v. v\<lparr>tp_Specialty := kd\<rparr>) s)"

text \<open>A match with the same pinned data: only the committed state and the pending candidate differ.\<close>

definition same_setup :: "text_match \<Rightarrow> text_match \<Rightarrow> bool" where
  "same_setup c m \<longleftrightarrow>
     c\<lparr>tm_state := tm_state m, tm_pending := tm_pending m, tm_seq := tm_seq m, tm_epoch := tm_epoch m\<rparr> = m"

lemma same_setup_refl [simp]: "same_setup m m"
  by (simp add: same_setup_def)

lemma same_setup_updates [simp]:
  "same_setup m (m\<lparr>tm_pending := y\<rparr>)" "same_setup m (m\<lparr>tm_state := x, tm_pending := y\<rparr>)"
  "same_setup m (m\<lparr>tm_seq := q\<rparr>)" "same_setup m (m\<lparr>tm_seq := q, tm_epoch := e\<rparr>)"
  "same_setup m (m\<lparr>tm_epoch := e, tm_seq := q\<rparr>)"
  by (simp_all add: same_setup_def)

lemma same_setup_fields:
  assumes "same_setup c m"
  obtains s p q e where "c = m\<lparr>tm_state := s, tm_pending := p, tm_seq := q, tm_epoch := e\<rparr>"
proof
  show "c = m\<lparr>tm_state := tm_state c, tm_pending := tm_pending c, tm_seq := tm_seq c, tm_epoch := tm_epoch c\<rparr>"
    by (subst assms [unfolded same_setup_def, symmetric]) simp
qed

lemma same_setup_trans: "same_setup a b \<Longrightarrow> same_setup b c \<Longrightarrow> same_setup a c"
  by (erule same_setup_fields, erule same_setup_fields) (simp add: same_setup_def)

lemma same_setup_sym: "same_setup a b \<Longrightarrow> same_setup b a"
  by (erule same_setup_fields) (simp add: same_setup_def)

text \<open>
  The pending candidate carries the key and the hash of the request it came from, empty for a
  candidate of the system; the request is recorded in its state.
\<close>

definition recorded :: "text_pending \<Rightarrow> bool" where
  "recorded p \<longleftrightarrow> pd_Key p \<noteq> [] \<longrightarrow>
     (\<exists>rec. map_of (st_Requests (pd_State p)) (pd_Key p) = Some rec \<and> rr_BodyHash rec = pd_Hash p)"

definition same_tag :: "text_pending \<Rightarrow> text_pending \<Rightarrow> bool" where
  "same_tag p q \<longleftrightarrow> pd_Key q = pd_Key p \<and> pd_Hash q = pd_Hash p"

lemma same_tag_refl [simp]: "same_tag p p"
  by (simp add: same_tag_def)

lemma same_tag_trans: "same_tag p q \<Longrightarrow> same_tag q r \<Longrightarrow> same_tag p r"
  by (simp add: same_tag_def)

lemma same_tag_fields [simp]:
  "same_tag p (q\<lparr>pd_Result := x\<rparr>) = same_tag p q" "same_tag p (q\<lparr>pd_Abandons := y\<rparr>) = same_tag p q"
  "same_tag p (add_award m q seat kd ord amt disc now) = same_tag p q"
  by (simp_all add: same_tag_def add_award_def)

lemma tag_fold:
  assumes "\<And>x sp. same_tag p (snd sp) \<Longrightarrow> same_tag p (snd (f x sp))"
  shows "same_tag p (snd sp) \<Longrightarrow> same_tag p (snd (fold f xs sp))"
  by (induction xs arbitrary: sp) (simp_all add: assms)

lemma tag_parts:
  "same_tag p (snd sp) \<Longrightarrow> same_tag p (snd (score_vote m now seat sp))"
  "same_tag p (snd sp) \<Longrightarrow> same_tag p (snd (score_survival m now tied seat sp))"
  "same_tag p (snd sp) \<Longrightarrow> same_tag p (snd (expire_grace m now seat sp))"
  by (simp_all add: score_vote_def score_survival_def expire_grace_def Let_def split: option.splits)

lemma tag_finish: "same_tag p q \<Longrightarrow> same_tag p (snd (finish m s oc w now q))"
  by (simp add: finish_def Let_def)

lemma tag_resolveVote: "same_tag p q \<Longrightarrow> same_tag p (snd (resolveVote m s now q))"
  by (simp add: resolveVote_def close_ballot_def Let_def tag_fold tag_parts)

lemma tag_finalizeVote: "finalizeVote m s now q = Inr (t, r) \<Longrightarrow> same_tag p q \<Longrightarrow> same_tag p r"
  by (elim finalizeVote_cases) (metis snd_conv tag_finish, metis snd_conv tag_finish, simp)

definition step_pending :: "step_result \<Rightarrow> text_pending option" where
  "step_pending r = (case r of Halt s p \<Rightarrow> Some p | Fall s p \<Rightarrow> Some p | Continue s p \<Rightarrow> Some p | Fail e \<Rightarrow> None)"

lemma tag_advance_step:
  assumes "step_pending (advance_step m s now q) = Some r" "same_tag p q"
  shows "same_tag p r"
proof -
  obtain v1 v2 where v: "resolveVote m s now q = (v1, v2)" by fastforce
  have v2: "same_tag p v2" using tag_resolveVote [OF assms(2), of m s now] by (simp add: v)
  show ?thesis
    using assms v v2 tag_finalizeVote
    by (cases "st_Phase s") (auto simp: advance_step_def step_pending_def Let_def split: if_splits sum.splits)
qed

lemma tag_advance_loop: "advance_loop n m s now q = Inr (t, r) \<Longrightarrow> same_tag p q \<Longrightarrow> same_tag p r"
proof (induction n arbitrary: s q)
  case 0
  then show ?case by simp
next
  case (Suc n)
  have step: "same_tag p q'" if "step_pending (advance_step m s now q) = Some q'" for q'
    using tag_advance_step [OF that Suc.prems(2)] .
  show ?case
    using Suc.prems(1) Suc.IH step by (cases "advance_step m s now q") (auto simp: step_pending_def split: if_splits)
qed

lemma tag_advance:
  assumes "advance m s now q = Inr (t, r)" "same_tag p q"
  shows "same_tag p r"
proof -
  have "same_tag p (snd (expire_graces m now (s, q)))" using assms(2) by (simp add: expire_graces_def tag_fold tag_parts)
  then have graced: "same_tag p q1" if "expire_graces m now (s, q) = (s1, q1)" for s1 q1 by (simp add: that)
  from assms(1) show ?thesis
  proof (cases rule: advance_cases)
    case over
    then show ?thesis using assms(2) by simp
  next
    case (absent s1 q1 oc w)
    then show ?thesis using tag_finish [OF graced] by (metis snd_conv)
  next
    case (steps s1 q1)
    then show ?thesis using tag_advance_loop graced by blast
  qed
qed

lemma tag_act: "act m s seat a now q = Inr (t, r) \<Longrightarrow> same_tag p q \<Longrightarrow> same_tag p r"
  by (elim act_cases) (auto simp: act_ready_def split: if_splits elim!: tag_advance)

lemma tag_set_connected:
  assumes "set_connected_step m seat on now s q = Inr (t, r)" "same_tag p q"
  shows "same_tag p r"
proof -
  obtain s1 q1 where "s1 = s \<and> q1 = q \<or> advance m s now q = Inr (s1, q1)"
    "t = s1 \<and> r = q1 \<or> advance m (rebind m seat on now s1) now q1 = Inr (t, r)"
    using assms(1) by (rule set_connected_cases)
  then show ?thesis using assms(2) tag_advance by blast
qed

inductive commit_step :: "text_match \<Rightarrow> text_match \<Rightarrow> bool" where
  tried: "tm_pending m = None \<Longrightarrow> same_setup c m \<Longrightarrow> candidate c (tm_state m) (pd_State p) \<Longrightarrow>
    recorded p \<Longrightarrow> validateState m (pd_State p) clk = None \<Longrightarrow> commit_step m (m\<lparr>tm_pending := Some p\<rparr>)"
| committed: "tm_pending m = Some p \<Longrightarrow> commit_step m (m\<lparr>tm_state := pd_State p, tm_pending := None\<rparr>)"
| delivered: "commit_step m (m\<lparr>tm_seq := q, tm_epoch := e\<rparr>)"

subsection \<open>The operations refine it\<close>

lemma persist_pending:
  assumes "tm_pending m = Some p" "persist m p = (res, m', calls)"
  shows "commit_step\<^sup>*\<^sup>* m m'" and "res = Inl e \<Longrightarrow> m' = m"
    and "res = Inr x \<Longrightarrow> m' = m\<lparr>tm_state := pd_State p, tm_pending := None\<rparr>"
proof -
  have same: "m\<lparr>tm_pending := Some p\<rparr> = m" using assms(1) by simp
  consider (failed) e where "res = Inl e" "m' = m\<lparr>tm_pending := Some p\<rparr>"
    | (passed) x where "res = Inr x" "m' = m\<lparr>tm_state := pd_State p, tm_pending := None\<rparr>"
    using assms(2) by (auto simp: persist_def split: prod.splits option.splits)
  note outcome = this [unfolded same]
  show "commit_step\<^sup>*\<^sup>* m m'" by (rule outcome) (use committed [OF assms(1)] in auto)
  show "res = Inl e \<Longrightarrow> m' = m" by (rule outcome) auto
  show "res = Inr x \<Longrightarrow> m' = m\<lparr>tm_state := pd_State p, tm_pending := None\<rparr>" by (rule outcome) auto
qed

lemma persist_fresh:
  assumes "tm_pending m = None" "same_setup c m" "candidate c (tm_state m) (pd_State p)"
    and "recorded p" "validateState m (pd_State p) clk = None" and "persist m p = (res, m', calls)"
  shows "commit_step\<^sup>*\<^sup>* m m'"
proof -
  let ?m1 = "m\<lparr>tm_pending := Some p\<rparr>"
  have t: "commit_step m ?m1" by (rule tried [OF assms(1-5)])
  have "commit_step ?m1 (?m1\<lparr>tm_state := pd_State p, tm_pending := None\<rparr>)" by (rule committed) simp
  then have "commit_step\<^sup>*\<^sup>* m (m\<lparr>tm_state := pd_State p, tm_pending := None\<rparr>)" using t by simp
  moreover have "commit_step\<^sup>*\<^sup>* m ?m1" using t by simp
  ultimately show ?thesis using assms(6) by (auto simp: persist_def split: prod.splits option.splits)
qed

lemma system_step_commits:
  assumes "tm_pending m = None" "same_setup c m" "system_step m fn pre clk = (res, m', calls)"
    and fn: "\<And>s p t q. fn s p = Inr (t, q) \<Longrightarrow> candidate c s t \<and> same_tag p q"
  shows "commit_step\<^sup>*\<^sup>* m m'"
proof (cases "m' = m")
  case False
  let ?s = "tm_state m"
  obtain s1 p evs where s1: "fn ?s (empty_pending ?s [] []) = Inr (s1, p)"
    and v: "validateState m s1 clk = None"
    and ps: "persist m (p\<lparr>pd_State := s1, pd_Events := evs\<rparr>) = (res, m', calls)"
    using assms(3) False by (auto simp: system_step_def Let_def no_result_of_def split: option.splits sum.splits)
  show ?thesis
    by (rule persist_fresh [OF assms(1,2) _ _ _ ps])
      (use v fn [OF s1] in \<open>simp_all add: recorded_def same_tag_def empty_pending_def\<close>)
qed simp

lemma system_commits:
  assumes r: "system m fn clk = (res, m', calls)"
    and fn: "\<And>s p t q. fn s p = Inr (t, q) \<Longrightarrow> candidate m s t \<and> same_tag p q"
  shows "commit_step\<^sup>*\<^sup>* m m'"
proof (cases "tm_pending m")
  case None
  then show ?thesis using system_step_commits [OF None same_setup_refl _ fn] r by (simp add: system_def)
next
  case (Some p)
  obtain r1 m1 calls1 where ps: "persist m p = (r1, m1, calls1)" by (cases "persist m p") auto
  note pp = persist_pending [OF Some ps]
  show ?thesis
  proof (cases r1)
    case (Inl e)
    then show ?thesis using r Some ps pp(2) by (simp add: system_def)
  next
    case (Inr res1)
    then have m1: "m1 = m\<lparr>tm_state := pd_State p, tm_pending := None\<rparr>" by (rule pp(3))
    obtain calls2 where r2: "system_step m1 fn (ar_Public res1) clk = (res, m', calls2)"
      using r Some ps Inr by (auto simp: system_def split: prod.splits)
    have "commit_step\<^sup>*\<^sup>* m1 m'"
      by (rule system_step_commits [OF _ _ r2 fn]) (simp_all add: m1)
    then show ?thesis using pp(1) by simp
  qed
qed

lemma Apply_commits:
  assumes a: "Apply m seat r clk = (res, m', calls)"
  shows "commit_step\<^sup>*\<^sup>* m m'"
proof -
  let ?key = "request_key seat (r_RequestID r)" and ?hash = "RequestHash (tm_sha m) r"
  have new: "commit_step\<^sup>*\<^sup>* m m'" if valid: "request_Validate (tm_lang m) (tm_limits m) r = None"
    and seat: "0 \<le> seat" "seat < mc_OriginalSize (tm_contract m)" and none: "tm_pending m = None"
    and fresh: "map_of (st_Requests (tm_state m)) ?key = None
      \<or> (\<exists>old. map_of (st_Requests (tm_state m)) ?key = Some old
            \<and> CheckRequestReuse (tm_sha m) old r seat = Inr False)"
    and n: "apply_new m seat r ?key ?hash clk = (res, m', calls)"
  proof (cases "m' = m")
    case False
    let ?s = "tm_state m" and ?now = "clk 0"
    obtain a s1 p evs where g: "apply_guards m seat r ?s ?now = None" and md: "moderate m seat r = Inr a"
      and act: "act m ?s seat a ?now (empty_pending ?s ?key ?hash) = Inr (s1, p)"
      and v: "validateState m (s1\<lparr>st_Requests := AList.update ?key (record_of seat r ?hash) (st_Requests s1)\<rparr>)
          (\<lambda>i. clk (Suc i)) = None"
      and ps: "persist m (p\<lparr>pd_State := s1\<lparr>st_Requests := AList.update ?key (record_of seat r ?hash) (st_Requests s1)\<rparr>,
          pd_Events := evs\<rparr>) = (res, m', calls)"
      using n False by (auto simp: apply_new_def Let_def no_result_of_def split: option.splits sum.splits)
    have "request_Validate (tm_lang m) (tm_limits m) (r\<lparr>r_Action := a\<rparr>) = None"
      using md valid by (auto simp: moderate_def split: if_splits option.splits sum.splits)
    note cand = acted [OF seat this g fresh act]
    have "same_tag (empty_pending ?s ?key ?hash) p" using tag_act [OF act] by simp
    then have "recorded (p\<lparr>pd_State := s1\<lparr>st_Requests := AList.update ?key (record_of seat r ?hash) (st_Requests s1)\<rparr>,
        pd_Events := evs\<rparr>)"
      by (simp add: recorded_def same_tag_def empty_pending_def map_of_update record_of_def)
    then show ?thesis
      using cand v by (intro persist_fresh [OF none same_setup_refl _ _ _ ps]) simp_all
  qed simp
  show ?thesis
  proof (cases "m' = m")
    case False
    show ?thesis
    proof (cases "tm_pending m")
      case None
      show ?thesis
        by (rule new) (use a None False in \<open>auto simp: Apply_def Let_def no_result_of_def
          split: option.splits if_splits sum.splits\<close>)
    next
      case (Some p)
      then have "persist m p = (res, m', calls)"
        using a False by (auto simp: Apply_def Let_def no_result_of_def split: option.splits if_splits)
      then show ?thesis by (rule persist_pending(1) [OF Some])
    qed
  qed simp
qed

text \<open>Delivery touches the recipient streams only.\<close>

lemma snapshotLocked_stream:
  "snapshotLocked m seat now = (r, m') \<Longrightarrow> m\<lparr>tm_seq := tm_seq m', tm_epoch := tm_epoch m'\<rparr> = m'"
  by (auto simp: snapshotLocked_def Let_def split: if_splits)

lemma stream_commits: "m\<lparr>tm_seq := tm_seq m', tm_epoch := tm_epoch m'\<rparr> = m' \<Longrightarrow> commit_step\<^sup>*\<^sup>* m m'"
  using commit_step.delivered [where m = m and q = "tm_seq m'" and e = "tm_epoch m'"] by auto

lemma match_step_commits:
  assumes "match_step m m'"
  shows "commit_step\<^sup>*\<^sup>* m m'"
  using assms
proof cases
  case (applied seat r clk res calls)
  then show ?thesis by (rule Apply_commits)
next
  case (advanced now clk res calls)
  then show ?thesis
    by (intro system_commits [of m "\<lambda>s p. advance m s now p" clk res m' calls])
      (auto simp: Advance_match_def intro: candidate.advanced tag_advance)
next
  case (connected seat on clk res calls)
  then show ?thesis
    by (intro system_commits [of m "set_connected_step m seat on (clk 0)" "\<lambda>i. clk (Suc i)" res m' calls])
      (auto simp: SetConnected_def intro: candidate.connected tag_set_connected)
next
  case (closed clk res calls)
  have "candidate m s t \<and> same_tag p q" if "Inr (finish m s MatchInterrupted NoWinner (clk 0) p) = (Inr (t, q) :: go_error + _)" for s p t q
    using candidate.closed [of m s "clk 0" p] tag_finish [of p p m s MatchInterrupted NoWinner "clk 0"] that by simp
  then show ?thesis using closed by (intro system_commits [OF closed [unfolded Close_match_def]])
next
  case (granted err seat kd clk res calls)
  let ?p = "empty_pending (upd_player seat (\<lambda>v. v\<lparr>tp_Specialty := kd\<rparr>) (tm_state m)) [] []"
  show ?thesis
  proof (cases "m' = m")
    case False
    then have "tm_devEnabled m" "tm_pending m = None" "validateState m (pd_State ?p) clk = None"
      "persist m ?p = (res, m', calls)"
      using granted by (auto simp: DevGrantSpecialty_def Let_def no_result_of_def empty_pending_def split: option.splits)
    then show ?thesis
      by (intro persist_fresh [of m m ?p clk res m' calls]) (simp_all add: empty_pending_def recorded_def candidate.granted)
  qed simp
next
  case (shown seat now view)
  then show ?thesis by (intro stream_commits) (auto simp: Snapshot_def split: sum.splits prod.splits dest: snapshotLocked_stream)
next
  case (projected seat now view)
  then show ?thesis by (intro stream_commits) (auto simp: SnapshotProjection_def dest: snapshotLocked_stream)
next
  case (paged seat now pages)
  then show ?thesis
    by (intro stream_commits)
      (auto simp: SnapshotPages_def Let_def split: sum.splits prod.splits if_splits dest: snapshotLocked_stream)
next
  case (reported seat rid code event)
  then show ?thesis by (intro stream_commits) (auto simp: ActionError_def split: if_splits option.splits)
next
  case (rebound new_epoch seat err)
  then show ?thesis by (intro stream_commits) (auto simp: ResetStream_def split: if_splits)
qed

lemma match_steps_commit: "match_step\<^sup>*\<^sup>* m m' \<Longrightarrow> commit_step\<^sup>*\<^sup>* m m'"
  by (induction rule: rtranclp_induct) (auto dest: match_step_commits)

lemma commit_setup: "commit_step m m' \<Longrightarrow> same_setup m m'"
  by (induction rule: commit_step.induct) simp_all

lemma same_setup_kept:
  assumes "same_setup c m"
  shows "kept c s = kept m s" "seeds_registered c = seeds_registered m"
  using assms by (auto elim!: same_setup_fields)

text \<open>The stock is kept by every candidate.\<close>

lemma kept_candidate:
  assumes "candidate m s t" "kept m s" "seeds_registered m"
  shows "kept m t"
  using assms(1)
proof cases
  case (acted seat a r now p t' q)
  have i: "in_range seat (st_Players s)"
    using acted(2,3) assms(2) by (simp add: kept_def stocked_def seats_ok_def in_range_def)
  have alive: "\<not> tp_Eliminated (player s seat)" and ph: "r_Phase r = st_Phase s"
    using acted(5) by (simp_all add: apply_guards_def CheckActionContext_def context_of_def)
  have "variant_ok (tm_lang m) (tm_limits m) (r\<lparr>r_Action := a\<rparr>) (a_Kind a)"
    using request_valid_variant [OF acted(4)] by simp
  then have "kept m t'"
    using kept_act [OF assms(3,2) i alive, of "tm_lang m" "tm_limits m" "r\<lparr>r_Action := a\<rparr>"] ph acted(7) by simp
  then show ?thesis unfolding acted(1) by (rule kept_same) simp_all
next
  case (advanced now p q)
  then show ?thesis using kept_advance [OF assms(3,2)] by blast
next
  case (connected seat on now p q)
  then show ?thesis using kept_set_connected_step [OF assms(3,2)] by blast
next
  case (closed now p)
  then show ?thesis using kept_finish [OF assms(2)] by simp
next
  case (granted seat kd)
  then show ?thesis using kept_grant [OF assms(2)] by simp
qed

lemma commit_kept:
  assumes "commit_step m m'" "match_kept m"
  shows "match_kept m'"
  using assms(1)
proof cases
  case (tried c p clk)
  have "kept m (pd_State p)"
    using kept_candidate [OF tried(4)] assms(2) by (simp add: same_setup_kept [OF tried(3)] match_kept_def)
  then show ?thesis using assms(2) tried(1) by (simp add: match_kept_def)
next
  case (committed p)
  then show ?thesis using assms(2) by (simp add: match_kept_def)
next
  case (delivered q e)
  then show ?thesis using assms(2) by (simp add: match_kept_def)
qed

lemma match_steps_kept: "match_step\<^sup>*\<^sup>* m m' \<Longrightarrow> match_kept m \<Longrightarrow> match_kept m'"
proof (drule match_steps_commit)
  assume "match_kept m"
  show "commit_step\<^sup>*\<^sup>* m m' \<Longrightarrow> match_kept m'"
    by (induction rule: rtranclp_induct) (auto intro: commit_kept \<open>match_kept m\<close>)
qed

subsection \<open>Relations kept by every operation\<close>

text \<open>
  A relation between a state and a later one that every kind of candidate establishes holds of
  the committed states of any run.
\<close>

locale step_contract =
  fixes R :: "text_match \<Rightarrow> text_state \<Rightarrow> text_state \<Rightarrow> bool"
  assumes R_refl: "R m s s"
    and R_trans: "R m s t \<Longrightarrow> R m t u \<Longrightarrow> R m s u"
    and R_setup: "same_setup c m \<Longrightarrow> R c = R m"
    and R_candidate: "candidate m s t \<Longrightarrow> kept m s \<Longrightarrow> seeds_registered m \<Longrightarrow> R m s t"
begin

lemma R_commit:
  assumes "commit_step m m'" "match_kept m" "\<And>p. tm_pending m = Some p \<Longrightarrow> R m (tm_state m) (pd_State p)"
  shows "R m (tm_state m) (tm_state m') \<and> (\<forall>p. tm_pending m' = Some p \<longrightarrow> R m (tm_state m') (pd_State p))"
  using assms
proof cases
  case (tried c p clk)
  have "kept c (tm_state m)" "seeds_registered c"
    using assms(2) by (simp_all add: match_kept_def same_setup_kept [OF tried(3)])
  then have "R c (tm_state m) (pd_State p)" by (rule R_candidate [OF tried(4)])
  then show ?thesis using tried(1) R_refl by (simp add: R_setup [OF tried(3)])
next
  case (committed p)
  then show ?thesis using assms(3) R_refl by simp
next
  case (delivered q e)
  then show ?thesis using assms(3) R_refl by simp
qed

lemma R_commits:
  assumes "commit_step\<^sup>*\<^sup>* m m'" "match_kept m" "\<And>p. tm_pending m = Some p \<Longrightarrow> R m (tm_state m) (pd_State p)"
  shows "R m (tm_state m) (tm_state m') \<and> same_setup m m' \<and> match_kept m'
    \<and> (\<forall>p. tm_pending m' = Some p \<longrightarrow> R m' (tm_state m') (pd_State p))"
  using assms(1)
proof (induction rule: rtranclp_induct)
  case base
  then show ?case using assms(2,3) R_refl by simp
next
  case (step x y)
  then have IH: "R m (tm_state m) (tm_state x)" "same_setup m x" "match_kept x"
    "\<forall>p. tm_pending x = Some p \<longrightarrow> R x (tm_state x) (pd_State p)" by auto
  have one: "R x (tm_state x) (tm_state y) \<and> (\<forall>p. tm_pending y = Some p \<longrightarrow> R x (tm_state y) (pd_State p))"
    by (rule R_commit [OF step.hyps(2) IH(3)]) (use IH(4) in blast)
  have xy: "same_setup x y" "match_kept y" using commit_setup [OF step.hyps(2)] commit_kept [OF step.hyps(2) IH(3)] .
  have my: "same_setup m y" by (rule same_setup_trans [OF IH(2) xy(1)])
  have "R x = R m" "R x = R y" using R_setup [OF IH(2)] R_setup [OF xy(1)] by simp_all
  then show ?case using one IH(1) R_trans xy my by metis
qed

lemma R_between:
  assumes "match_step\<^sup>*\<^sup>* m0 m" "match_step\<^sup>*\<^sup>* m m'" "match_kept m0" "tm_pending m0 = None"
  shows "R m (tm_state m) (tm_state m') \<and> same_setup m m'"
proof -
  have "match_kept m" "\<forall>p. tm_pending m = Some p \<longrightarrow> R m (tm_state m) (pd_State p)"
    using R_commits [OF match_steps_commit [OF assms(1)] assms(3)] assms(4) by simp_all
  then show ?thesis using R_commits [OF match_steps_commit [OF assms(2)]] by simp
qed

lemma R_run:
  assumes "match_step\<^sup>*\<^sup>* m m'" "match_kept m" "tm_pending m = None"
  shows "R m (tm_state m) (tm_state m')"
proof -
  have "commit_step\<^sup>*\<^sup>* m m'" using assms(1) by (rule match_steps_commit)
  then show ?thesis using R_commits [OF _ assms(2)] assms(3) by simp
qed

end

end
