(* ===== verification/Growth.thy ===== *)
theory Growth
  imports Steps Opening
begin

section \<open>What only grows\<close>

text \<open>
  The public history is append-only with contiguous numbers, the phase serial and the board
  revision never decrease, the phase identity renders the serial, and no operation but \<open>Apply\<close>
  touches the record of requests. \<open>evolves\<close> says so of one update; it is shown operation by
  operation.
\<close>

definition numbered :: "text_match \<Rightarrow> nat \<Rightarrow> public_action list \<Rightarrow> bool" where
  "numbered m n es \<longleftrightarrow> (\<forall>j<length es. e_EvidenceSeq (es ! j) = n + j + 1
     \<and> e_EventID (es ! j) = mc_MatchID (tm_contract m) @ ''.e'' @ dec (n + j + 1))"

definition serial_ok :: "text_match \<Rightarrow> text_state \<Rightarrow> bool" where
  "serial_ok m s \<longleftrightarrow> st_PhaseID s = mc_MatchID (tm_contract m) @ ''.p'' @ dec (st_PhaseSerial s)"

definition evolves :: "text_match \<Rightarrow> text_state \<Rightarrow> text_state \<Rightarrow> bool" where
  "evolves m s t \<longleftrightarrow> (\<exists>es. st_History t = st_History s @ es \<and> numbered m (length (st_History s)) es)
     \<and> st_PhaseSerial s \<le> st_PhaseSerial t \<and> revision s \<le> revision t
     \<and> st_Requests t = st_Requests s \<and> (serial_ok m s \<longrightarrow> serial_ok m t)"

lemma numbered_Nil [simp]: "numbered m n []"
  by (simp add: numbered_def)

lemma numbered_append: "numbered m n es \<Longrightarrow> numbered m (n + length es) fs \<Longrightarrow> numbered m n (es @ fs)"
  by (auto simp: numbered_def nth_append)

lemma evolves_refl [simp]: "evolves m s s"
  by (simp add: evolves_def)

lemma evolves_trans: "evolves m s t \<Longrightarrow> evolves m t u \<Longrightarrow> evolves m s u"
  unfolding evolves_def by (auto intro: numbered_append)

subsection \<open>Elementary updates\<close>

lemma evolves_same:
  assumes "evolves m s t" "st_History u = st_History t" "st_PhaseSerial u = st_PhaseSerial t"
    "revision u = revision t" "st_Requests u = st_Requests t" "st_PhaseID u = st_PhaseID t"
  shows "evolves m s u"
  using assms by (simp add: evolves_def serial_ok_def)

lemma evolves_fields [simp]:
  "evolves m s (upd_player i f t) = evolves m s t" "evolves m s (put_copy k c t) = evolves m s t"
  "evolves m s (set_board_cards cs t) = evolves m s t" "evolves m s (spend t seat c j) = evolves m s t"
  "evolves m s (discard t i k) = evolves m s t"
  "evolves m s (t\<lparr>st_Turn := x0\<rparr>) = evolves m s t" "evolves m s (t\<lparr>st_Round := x0\<rparr>) = evolves m s t"
  "evolves m s (t\<lparr>st_Offer := x1\<rparr>) = evolves m s t" "evolves m s (t\<lparr>st_Votes := x2\<rparr>) = evolves m s t"
  "evolves m s (t\<lparr>st_Candidates := x3\<rparr>) = evolves m s t" "evolves m s (t\<lparr>st_BallotKind := x4\<rparr>) = evolves m s t"
  "evolves m s (t\<lparr>st_BallotResult := x5\<rparr>) = evolves m s t" "evolves m s (t\<lparr>st_Result := x6\<rparr>) = evolves m s t"
  "evolves m s (t\<lparr>st_Players := x7\<rparr>) = evolves m s t" "evolves m s (t\<lparr>st_Ready := x8\<rparr>) = evolves m s t"
  "evolves m s (t\<lparr>st_Pokes := x9\<rparr>) = evolves m s t" "evolves m s (t\<lparr>st_Copies := y0\<rparr>) = evolves m s t"
  "evolves m s (t\<lparr>st_RemainingVotes := y1\<rparr>) = evolves m s t" "evolves m s (t\<lparr>st_Deadline := y1\<rparr>) = evolves m s t"
  "evolves m s (t\<lparr>st_ResultRevealAt := y1\<rparr>) = evolves m s t"
  "evolves m s (t\<lparr>st_ResultRevealed := y2\<rparr>) = evolves m s t"
  "evolves m s (t\<lparr>st_RevealTarget := y3\<rparr>) = evolves m s t" "evolves m s (t\<lparr>st_RevealCards := y4\<rparr>) = evolves m s t"
  "evolves m s (t\<lparr>st_ShuffleUsed := y5\<rparr>) = evolves m s t" "evolves m s (t\<lparr>st_RevoteUsed := y5\<rparr>) = evolves m s t"
  "evolves m s (t\<lparr>st_Order := y6\<rparr>) = evolves m s t"
  by (simp_all add: evolves_def serial_ok_def spend_def Let_def revision_def set_board_cards_def)

lemma evolves_event [simp]:
  assumes "evolves m s t"
    and "\<And>e. e_EvidenceSeq (f e) = e_EvidenceSeq e" "\<And>e. e_EventID (f e) = e_EventID e"
  shows "evolves m s (add_event m t i k w now b cs f)"
proof -
  have "evolves m t (add_event m t i k w now b cs f)"
    using assms(2,3) by (auto simp: evolves_def serial_ok_def numbered_def new_event_def add_event_def revision_def)
  then show ?thesis by (rule evolves_trans [OF assms(1)])
qed

lemma evolves_phase [simp]: "evolves m s t \<Longrightarrow> evolves m s (set_phase m t ph now n)"
  by (auto simp: evolves_def serial_ok_def)

lemma evolves_bump [simp]: "evolves m s t \<Longrightarrow> evolves m s (bump_revision t)"
  by (auto simp: evolves_def serial_ok_def)

lemmas evolves_rules = evolves_event evolves_phase evolves_bump

subsection \<open>Turns and rounds\<close>

interpretation evolving_turns: turn_relation evolves
proof unfold_locales
  fix m s t u n ph now secs why
  show "evolves m s s" by simp
  show "evolves m s u" if "evolves m s t" "evolves m t u" using that by (rule evolves_trans)
  show "evolves m s (s\<lparr>st_Turn := n\<rparr>)" by simp
  show "evolves m s (set_phase m s ph now secs)" by auto
  show "evolves m s (pass_current m s why now)" by (auto simp: pass_current_def Let_def)
qed

lemma evolves_nextTurn [simp]: "evolves m s t \<Longrightarrow> evolves m s (nextTurn m t now)"
  by (rule evolves_trans [OF _ evolving_turns.R_nextTurn])

lemma evolves_autoPass [simp]: "evolves m s t \<Longrightarrow> evolves m s (autoPass m t why now)"
  by (rule evolves_trans [OF _ evolving_turns.R_autoPass])

lemma evolves_open_round [simp]: "evolves m s t \<Longrightarrow> evolves m s (open_round m t now)"
  by (auto simp: open_round_def Let_def retire_board_def)

lemma evolves_seed_loop: "seed_loop md texts em t cs = Inr (u, em') \<Longrightarrow> evolves m s t \<Longrightarrow> evolves m s u"
  by (induction md texts em t cs rule: seed_loop.induct) (auto split: if_splits)

lemma evolves_beginRound: "beginRound m t now = Inr u \<Longrightarrow> evolves m s t \<Longrightarrow> evolves m s u"
  by (auto simp: beginRound_def Let_def evolves_seed_loop split: if_splits sum.splits prod.splits)

lemma evolves_settle [simp]: "evolves m s t \<Longrightarrow> evolves m s (settle_offer m t po seat res why now)"
  by (auto simp: settle_offer_def Let_def)

lemma evolves_resolveOffer [simp]: "evolves m s t \<Longrightarrow> evolves m s (resolveOffer m t seat res why now)"
  by (auto simp: resolveOffer_def Let_def split: option.splits)

subsection \<open>Ballots, the clock and the end\<close>

lemma evolves_recordBallot [simp]: "evolves m s t \<Longrightarrow> evolves m s (recordBallot m t r now)"
  by (simp add: recordBallot_def)

lemma evolves_fold:
  assumes "\<And>x sp. evolves m s (fst sp) \<Longrightarrow> evolves m s (fst (f x sp))"
  shows "evolves m s (fst sp) \<Longrightarrow> evolves m s (fst (fold f xs sp))"
  by (induction xs arbitrary: sp) (simp_all add: assms)

lemma evolves_scores [simp]:
  "evolves m s (fst sp) \<Longrightarrow> evolves m s (fst (score_vote m now seat sp))"
  "evolves m s (fst sp) \<Longrightarrow> evolves m s (fst (score_survival m now tied seat sp))"
  "evolves m s (fst sp) \<Longrightarrow> evolves m s (fst (expire_grace m now seat sp))"
  by (simp_all add: score_vote_def score_survival_def expire_grace_def Let_def split: option.splits)

lemma evolves_resolveVote [simp]: "evolves m s t \<Longrightarrow> evolves m s (fst (resolveVote m t now p))"
  by (simp add: resolveVote_def open_runoff_def close_ballot_def Let_def evolves_fold)

lemma evolves_finish [simp]: "evolves m s t \<Longrightarrow> evolves m s (fst (finish m t oc w now p))"
  by (simp add: finish_def Let_def)

lemma evolves_eliminate [simp]: "evolves m s t \<Longrightarrow> evolves m s (eliminate_voted t)"
  by (simp add: eliminate_voted_def split: option.splits)

lemma evolves_finalizeVote:
  assumes "finalizeVote m t now p = Inr (u, q)" "evolves m s t"
  shows "evolves m s u"
  using assms(1)
proof (cases rule: finalizeVote_cases)
  case caught
  then show ?thesis using evolves_finish [of m s "vote_spent t" _ _ now p] assms(2) by (metis evolves_eliminate evolves_fields(18) fst_conv)
next
  case escaped
  then show ?thesis using evolves_finish [of m s "vote_spent t" _ _ now p] assms(2) by (metis evolves_eliminate evolves_fields(18) fst_conv)
next
  case begun
  from begun(1) show ?thesis by (rule evolves_beginRound) (simp add: assms(2))
qed

lemma evolves_advance_step:
  "step_state (advance_step m t now p) = Some u \<Longrightarrow> evolves m s t \<Longrightarrow> evolves m s u"
proof (cases "st_Phase t = PhaseResult")
  case True
  assume u: "step_state (advance_step m t now p) = Some u" and t: "evolves m s t"
  define t1 where "t1 = (if unix_milli now \<ge> st_ResultRevealAt t then t\<lparr>st_ResultRevealed := True\<rparr> else t)"
  have t1: "evolves m s t1" using t by (simp add: t1_def)
  show ?thesis
    using u t t1 True evolves_finalizeVote [OF _ t1]
    by (auto simp: advance_step_def Let_def t1_def [symmetric] split: if_splits sum.splits)
next
  case False
  assume u: "step_state (advance_step m t now p) = Some u" and t: "evolves m s t"
  obtain v1 v2 where v: "resolveVote m t now p = (v1, v2)" by fastforce
  have v1: "evolves m s v1" using evolves_resolveVote [OF t, of now p] by (simp add: v)
  show ?thesis
    using u t v1 v False by (cases "st_Phase t") (auto simp: advance_step_def start_knowoff_def split: if_splits prod.splits)
qed

lemma evolves_advance_loop:
  "advance_loop n m t now p = Inr (u, q) \<Longrightarrow> evolves m s t \<Longrightarrow> evolves m s u"
proof (induction n arbitrary: t p)
  case 0
  then show ?case by simp
next
  case (Suc n)
  have step: "evolves m s t'" if "step_state (advance_step m t now p) = Some t'" for t'
    using evolves_advance_step [OF that Suc.prems(2)] .
  show ?case using Suc.prems(1) Suc.IH step by (cases "advance_step m t now p") (auto split: if_splits)
qed

lemma evolves_advance:
  assumes "advance m t now p = Inr (u, q)" "evolves m s t"
  shows "evolves m s u"
proof -
  have "evolves m s (fst (expire_graces m now (t, p)))" using assms(2) by (simp add: expire_graces_def evolves_fold)
  then have graced: "evolves m s t1" if "expire_graces m now (t, p) = (t1, p1)" for t1 p1 by (simp add: that)
  from assms(1) show ?thesis
  proof (cases rule: advance_cases)
    case over
    then show ?thesis using assms(2) by simp
  next
    case (absent t1 p1 oc w)
    then show ?thesis using evolves_finish [OF graced] by (metis fst_conv)
  next
    case (steps t1 p1)
    then show ?thesis using evolves_advance_loop graced by blast
  qed
qed

subsection \<open>Actions and connections\<close>

lemma evolves_redeal: "evolves m s t \<Longrightarrow> evolves m s (fst (redeal md active n i ks t cards))"
  by (induction md active n i ks t cards rule: redeal.induct) (simp_all add: Let_def lay_out_def deal_back_def)

lemma evolves_shuffle: "shuffleSpecialty m t now = Inr u \<Longrightarrow> evolves m s t \<Longrightarrow> evolves m s u"
proof -
  assume u: "shuffleSpecialty m t now = Inr u" and t: "evolves m s t"
  define pool where "pool = go_shuffle (tm_rng m (tm_seed m + int (length (st_History t)) * 32452843)) 0 (shuffle_pool t)"
  define sc where "sc = redeal (mode m) (active_seats t) (shuffle_layout (mode m) (active_seats t)) 0 pool
    (set_board_cards [] (bump_revision (clear_hands t))) []"
  have "evolves m s (fst sc)" using t by (simp add: sc_def evolves_redeal clear_hands_def)
  then show "evolves m s u"
    using u by (auto simp: shuffleSpecialty_def Let_def pool_def [symmetric] sc_def [symmetric]
        split: if_splits prod.splits)
qed

lemma evolves_turn_card: "turn_card m t seat a now kd = Inr u \<Longrightarrow> evolves m s t \<Longrightarrow> evolves m s u"
  by (cases kd) (auto simp: use_pass_def use_reveal_def use_free_card_def drop_specialty_def Let_def
      split: option.splits if_splits)

lemma evolves_specialty:
  assumes "specialty m t seat a now = Inr u" "evolves m s t"
  shows "evolves m s u"
proof -
  have shuffle: "evolves m s u" if "use_shuffle m t seat now = Inr u"
    using that assms(2) by (auto simp: use_shuffle_def Let_def split: if_splits elim!: evolves_shuffle)
  show ?thesis
    using assms shuffle evolves_turn_card
    by (auto simp: specialty_def view_reveal_def use_revote_def Let_def split: if_splits option.splits)
qed

lemma evolves_play_card: "play_card m t seat a c now kd = Inr u \<Longrightarrow> evolves m s t \<Longrightarrow> evolves m s u"
  by (cases kd) (auto simp: play_new_def play_replace_def play_top_def play_offer_def Let_def
      split: option.splits if_splits)

lemma evolves_act:
  assumes "act m t seat a now p = Inr (u, q)" "evolves m s t"
  shows "evolves m s u"
  using assms(1)
proof (cases rule: act_cases)
  case Specialty
  then show ?thesis using evolves_specialty assms(2) by blast
next
  case Ready
  then show ?thesis using assms(2) by (auto simp: act_ready_def split: if_splits elim!: evolves_advance)
next
  case Card
  then obtain c t1 where "play_card m t seat a c now (a_Kind a) = Inr t1"
    and u: "u = (if a_Kind a = ActionOffer then t1 else nextTurn m t1 now)"
    by (auto simp: act_card_def split: if_split_asm sum.split_asm)
  then have "evolves m s t1" using evolves_play_card assms(2) by blast
  then show ?thesis by (simp add: u)
qed (use assms(2) in \<open>auto simp: act_resolve_offer_def act_vote_def act_chat_def act_draw_def poke_def Let_def
      split: option.splits if_splits\<close>)

lemma evolves_rebind [simp]: "evolves m s t \<Longrightarrow> evolves m s (rebind m seat on now t)"
  by (simp add: rebind_def flip_connected_def drop_votes_def Let_def)

lemma evolves_set_connected:
  assumes "set_connected_step m seat on now t p = Inr (u, q)" "evolves m s t"
  shows "evolves m s u"
proof -
  obtain t1 p1 where t1: "t1 = t \<and> p1 = p \<or> advance m t now p = Inr (t1, p1)"
    and u: "u = t1 \<and> q = p1 \<or> advance m (rebind m seat on now t1) now p1 = Inr (u, q)"
    using assms(1) by (rule set_connected_cases)
  have "evolves m s t1" using t1 assms(2) evolves_advance by blast
  then show ?thesis using u evolves_advance evolves_rebind by blast
qed

subsection \<open>The requests\<close>

text \<open>
  Requests are recorded under their seat and identity, and never forgotten or overwritten.
\<close>

lemma dec_int_inj [simp]: "dec_int i = dec_int j \<longleftrightarrow> i = j"
proof
  have sign: "CHR ''-'' \<notin> set (dec n)" for n using set_dec [of n] by auto
  assume e: "dec_int i = dec_int j"
  then have "i < 0 \<longleftrightarrow> j < 0"
    using sign by (auto simp: dec_int_def split: if_splits) (metis list.set_intros(1))+
  then show "i = j" using e by (auto simp: dec_int_def split: if_splits)
qed simp

lemma request_key_inj: "request_key i x = request_key j y \<longleftrightarrow> i = j \<and> x = y"
proof
  assume k: "request_key i x = request_key j y"
  have d: "takeWhile (\<lambda>c. c \<noteq> CHR '':'') (request_key i x) = dec_int i" for i x
  proof -
    have "\<forall>c\<in>set (dec_int i). c \<noteq> CHR '':''"
      using set_dec [of "nat i"] set_dec [of "nat (- i)"] by (auto simp: dec_int_def)
    then show ?thesis by (simp add: request_key_def takeWhile_append2)
  qed
  from d [of i x] d [of j y] k have "dec_int i = dec_int j" by simp
  then have "i = j" by simp
  then show "i = j \<and> x = y" using k by (simp add: request_key_def)
qed simp

definition requests_ok :: "text_match \<Rightarrow> text_state \<Rightarrow> bool" where
  "requests_ok m s \<longleftrightarrow> (\<forall>k rec. map_of (st_Requests s) k = Some rec \<longrightarrow>
     rr_MatchID rec = mc_MatchID (tm_contract m) \<and> k = request_key (rr_Seat rec) (rr_RequestID rec))"

definition grows :: "text_match \<Rightarrow> text_state \<Rightarrow> text_state \<Rightarrow> bool" where
  "grows m s t \<longleftrightarrow> (\<exists>es. st_History t = st_History s @ es \<and> numbered m (length (st_History s)) es)
     \<and> st_PhaseSerial s \<le> st_PhaseSerial t \<and> revision s \<le> revision t
     \<and> (serial_ok m s \<longrightarrow> serial_ok m t)
     \<and> (requests_ok m s \<longrightarrow> requests_ok m t \<and> map_of (st_Requests s) \<subseteq>\<^sub>m map_of (st_Requests t))"

lemma evolves_grows: "evolves m s t \<Longrightarrow> grows m s t"
  by (simp add: evolves_def grows_def requests_ok_def)

lemma grows_trans: "grows m s t \<Longrightarrow> grows m t u \<Longrightarrow> grows m s u"
  unfolding grows_def by (auto intro: numbered_append map_le_trans)

lemma grows_record:
  assumes g: "apply_guards m seat r s now = None"
    and fresh: "map_of (st_Requests s) (request_key seat (r_RequestID r)) = None
      \<or> (\<exists>old. map_of (st_Requests s) (request_key seat (r_RequestID r)) = Some old
            \<and> CheckRequestReuse (tm_sha m) old r seat = Inr False)"
    and e: "evolves m s t"
  shows "grows m s (t\<lparr>st_Requests := AList.update (request_key seat (r_RequestID r))
        (record_of seat r hash) (st_Requests t)\<rparr>)" (is "grows m s ?u")
proof -
  have id: "r_MatchID r = mc_MatchID (tm_contract m)"
    using g by (simp add: apply_guards_def CheckActionContext_def context_of_def)
  have rq: "st_Requests t = st_Requests s" using e by (simp add: evolves_def)
  have "requests_ok m ?u \<and> map_of (st_Requests s) \<subseteq>\<^sub>m map_of (st_Requests ?u)" if ok: "requests_ok m s"
  proof -
    have "\<not> (CheckRequestReuse (tm_sha m) old r seat = Inr False)"
      if "map_of (st_Requests s) (request_key seat (r_RequestID r)) = Some old" for old
    proof -
      have "rr_MatchID old = r_MatchID r" "request_key seat (r_RequestID r) = request_key (rr_Seat old) (rr_RequestID old)"
        using ok that by (simp_all add: requests_ok_def id)
      then show ?thesis by (simp add: request_key_inj CheckRequestReuse_def)
    qed
    then have "map_of (st_Requests s) (request_key seat (r_RequestID r)) = None" using fresh by blast
    then show ?thesis
      using ok by (auto simp: requests_ok_def rq map_of_update map_le_def record_of_def id)
  qed
  then show ?thesis using e by (simp add: evolves_def grows_def revision_def serial_ok_def)
qed

lemma grows_candidate:
  assumes "candidate m s t"
  shows "grows m s t"
  using assms
proof cases
  case (acted seat a r now p t' q)
  have "evolves m s t'" by (rule evolves_act [OF acted(7) evolves_refl])
  then show ?thesis unfolding acted(1) by (rule grows_record [OF acted(5,6)])
next
  case (advanced now p q)
  then show ?thesis using evolves_grows evolves_advance evolves_refl by blast
next
  case (connected seat on now p q)
  then show ?thesis using evolves_grows evolves_set_connected evolves_refl by blast
next
  case (closed now p)
  then show ?thesis by (simp add: evolves_grows)
next
  case (granted seat kd)
  then show ?thesis by (simp add: evolves_grows)
qed

interpretation growth: step_contract grows
proof unfold_locales
  show "grows m s s" for m s by (simp add: evolves_grows)
  show "grows m s u" if "grows m s t" "grows m t u" for m s t u using that by (rule grows_trans)
  show "grows c = grows m" if "same_setup c m" for c m
    using that by (auto elim!: same_setup_fields simp: fun_eq_iff grows_def numbered_def serial_ok_def requests_ok_def)
  show "grows m s t" if "candidate m s t" "kept m s" "seeds_registered m" for m s t
    using that(1) by (rule grows_candidate)
qed

text \<open>A match that was just constructed, and the growth of its runs.\<close>

lemma started_grown:
  assumes "NewTextMatch env opts = Inr m0"
  shows "numbered m0 0 (st_History (tm_state m0))" "serial_ok m0 (tm_state m0)" "requests_ok m0 (tm_state m0)"
    "tm_pending m0 = None"
proof -
  obtain c seed d s where b: "beginRound (initial_match env opts c seed d) (tm_state (initial_match env opts c seed d)) (sr_clock env 0) = Inr s"
    and m: "m0 = (initial_match env opts c seed d)\<lparr>tm_state := s\<rparr>"
    using NewTextMatch_parts [OF assms] by metis
  let ?m = "initial_match env opts c seed d"
  obtain s2 em where s2: "seed_loop (mode ?m) [] [] (bump_revision (open_round ?m (tm_state ?m) (sr_clock env 0)))
      (indexed (Prelude.at (tm_seeds ?m) (st_Round (tm_state ?m) - 1))) = Inr (s2, em)"
    and s: "s = s2 \<or> s = add_event ?m s2 (-1) EvSeed RSeed (sr_clock env 0)
      (revision (open_round ?m (tm_state ?m) (sr_clock env 0))) em (\<lambda>e. e)"
    using b by (auto simp: beginRound_def Let_def split: if_split_asm sum.split_asm)
  have ev: "evolves ?m (tm_state ?m) s" using evolves_beginRound [OF b evolves_refl] .
  have i: "st_History (tm_state ?m) = []" "st_Requests (tm_state ?m) = []" "tm_pending ?m = None"
    by (simp_all add: initial_match_def Let_def initial_state_def)
  have "serial_ok ?m (open_round ?m (tm_state ?m) (sr_clock env 0))"
    by (simp add: serial_ok_def open_round_def Let_def)
  then have "serial_ok ?m (bump_revision (open_round ?m (tm_state ?m) (sr_clock env 0)))"
    by (simp add: serial_ok_def)
  then have "serial_ok ?m s2"
    using evolves_seed_loop [OF s2 evolves_refl] by (simp add: evolves_def)
  then have "serial_ok ?m s" using s by (auto simp: serial_ok_def)
  then show "serial_ok m0 (tm_state m0)" by (simp add: m serial_ok_def)
  show "numbered m0 0 (st_History (tm_state m0))" using ev by (simp add: evolves_def i m numbered_def)
  show "requests_ok m0 (tm_state m0)" using ev by (simp add: evolves_def i m requests_ok_def)
  show "tm_pending m0 = None" by (simp add: m i)
qed

subsection \<open>Accepted requests\<close>

lemma commit_recorded:
  "commit_step\<^sup>*\<^sup>* m m' \<Longrightarrow> (\<And>p. tm_pending m = Some p \<Longrightarrow> recorded p) \<Longrightarrow> tm_pending m' = Some p \<Longrightarrow> recorded p"
proof (induction arbitrary: p rule: rtranclp_induct)
  case base
  then show ?case by simp
next
  case (step x y)
  from step.hyps(2) show ?case
    by (cases rule: commit_step.cases) (use step.IH step.prems in auto)
qed

lemma request_key_not_Nil [simp]: "request_key seat rid \<noteq> []"
  by (simp add: request_key_def)

text \<open>What \<open>Apply\<close> accepted is on record.\<close>

lemma apply_records:
  assumes a: "Apply m seat r clk = (Inr res, m1, calls)" and p: "\<And>p. tm_pending m = Some p \<Longrightarrow> recorded p"
  obtains rec where "map_of (st_Requests (tm_state m1)) (request_key seat (r_RequestID r)) = Some rec"
    "rr_BodyHash rec = RequestHash (tm_sha m) r" "tm_pending m1 = None"
proof -
  let ?key = "request_key seat (r_RequestID r)" and ?hash = "RequestHash (tm_sha m) r"
  consider (retry) q where "tm_pending m = Some q" "pd_Key q = ?key" "pd_Hash q = ?hash" "persist m q = (Inr res, m1, calls)"
    | (dup) old where "tm_pending m = None" "map_of (st_Requests (tm_state m)) ?key = Some old"
        "CheckRequestReuse (tm_sha m) old r seat = Inr True" "m1 = m"
    | (fresh) "tm_pending m = None" "apply_new m seat r ?key ?hash clk = (Inr res, m1, calls)"
    using a by (auto simp: Apply_def Let_def no_result_of_def split: option.split_asm if_split_asm sum.split_asm)
  then show thesis
  proof cases
    case retry
    obtain rec where "map_of (st_Requests (pd_State q)) ?key = Some rec" "rr_BodyHash rec = ?hash"
      using p [OF retry(1)] retry(2,3) by (auto simp: recorded_def)
    moreover have "m1 = m\<lparr>tm_state := pd_State q, tm_pending := None\<rparr>"
      using persist_pending(3) [OF retry(1,4)] by simp
    ultimately show thesis using that by simp
  next
    case dup
    then show thesis using that [of old] by (simp add: CheckRequestReuse_def split: if_splits)
  next
    case fresh
    then obtain a s1 q evs where
      "persist m (q\<lparr>pd_State := s1\<lparr>st_Requests := AList.update ?key (record_of seat r ?hash) (st_Requests s1)\<rparr>,
          pd_Events := evs\<rparr>) = (Inr res, m1, calls)"
      by (auto simp: apply_new_def Let_def no_result_of_def split: option.splits sum.splits)
    then have "map_of (st_Requests (tm_state m1)) ?key = Some (record_of seat r ?hash)" "tm_pending m1 = None"
      by (auto simp: persist_def map_of_update split: prod.splits option.splits)
    then show thesis using that by (simp add: record_of_def)
  qed
qed

text \<open>What is on record is a duplicate.\<close>

lemma apply_duplicate:
  assumes "request_Validate (tm_lang m) (tm_limits m) r = None" "0 \<le> seat" "seat < mc_OriginalSize (tm_contract m)"
    and "tm_pending m = None" "map_of (st_Requests (tm_state m)) (request_key seat (r_RequestID r)) = Some rec"
    and "rr_BodyHash rec = RequestHash (tm_sha m) r" "requests_ok m (tm_state m)"
    and "r_MatchID r = mc_MatchID (tm_contract m)"
  shows "Apply m seat r clk = (Inr \<lparr>ar_Duplicate = True, ar_Changed = False, ar_Public = []\<rparr>, m, [])"
proof -
  have "rr_MatchID rec = r_MatchID r" "request_key seat (r_RequestID r) = request_key (rr_Seat rec) (rr_RequestID rec)"
    using assms(5,7,8) by (auto simp: requests_ok_def)
  then have "CheckRequestReuse (tm_sha m) rec r seat = Inr True"
    using assms(6) by (simp add: CheckRequestReuse_def request_key_inj)
  then show ?thesis using assms by (simp add: Apply_def Let_def)
qed

lemma apply_accepted_valid:
  assumes "Apply m seat r clk = (Inr res, m1, calls)"
  shows "request_Validate (tm_lang m) (tm_limits m) r = None" "0 \<le> seat" "seat < mc_OriginalSize (tm_contract m)"
  using assms by (auto simp: Apply_def no_result_of_def split: option.splits if_splits)

end
