(* ===== verification/Match_Claims.thy ===== *)
theory Match_Claims
  imports Sample Growth "HOL-Library.Sublist"
begin

section \<open>Reachable matches\<close>

text \<open>
  What holds of every match the constructor returns and every operation leads to. The constructor
  derives the identity of a copy from the seed, the match and its number; that different numbers
  get different identities is assumed of the UUID library.
\<close>

lemma started_kept:
  assumes "NewTextMatch env opts = Inr m0" "\<And>seed. inj (copy_key env seed (mc_MatchID (op_Contract opts)))"
    and "match_step\<^sup>*\<^sup>* m0 m"
  shows "match_kept m"
  using match_steps_kept [OF assms(3) NewTextMatch_kept [OF assms(1,2)]] .

lemma advance_is_step: "match_step m (fst (snd (Advance_match m now clk)))"
  by (cases "Advance_match m now clk") (auto intro: match_step.advanced)

lemma apply_is_step: "match_step m (fst (snd (Apply m seat r clk)))"
  by (cases "Apply m seat r clk") (auto intro: match_step.applied)

lemma started_between:
  assumes "NewTextMatch env opts = Inr m0" "\<And>seed. inj (copy_key env seed (mc_MatchID (op_Contract opts)))"
    and "match_step\<^sup>*\<^sup>* m0 m" "match_step\<^sup>*\<^sup>* m m'"
  shows "grows m (tm_state m) (tm_state m') \<and> same_setup m m'"
  by (rule growth.R_between [OF assms(3,4) NewTextMatch_kept [OF assms(1,2)] started_grown(4) [OF assms(1)]])

lemma started_logged:
  assumes "NewTextMatch env opts = Inr m0" "\<And>seed. inj (copy_key env seed (mc_MatchID (op_Contract opts)))"
    and "match_step\<^sup>*\<^sup>* m0 m"
  shows "numbered m 0 (st_History (tm_state m)) \<and> serial_ok m (tm_state m) \<and> requests_ok m (tm_state m)"
proof -
  note g = started_between [OF assms(1,2) rtranclp.rtrancl_refl assms(3)]
  note i = started_grown [OF assms(1)]
  have c: "tm_contract m = tm_contract m0" using g by (auto elim!: same_setup_fields)
  obtain es where es: "st_History (tm_state m) = st_History (tm_state m0) @ es"
    "numbered m0 (length (st_History (tm_state m0))) es" using g unfolding grows_def by blast
  have "numbered m0 0 (st_History (tm_state m))" using numbered_append [of m0 0, OF i(1)] es by simp
  moreover have "numbered m = numbered m0" "serial_ok m = serial_ok m0" "requests_ok m = requests_ok m0"
    by (simp_all add: fun_eq_iff numbered_def serial_ok_def requests_ok_def c)
  ultimately show ?thesis using g i(2,3) unfolding grows_def by metis
qed

text \<open>The hook calls a pending candidate is due: abandons, awards and the result, in this order.\<close>

definition hooked :: "('e \<Rightarrow> go_error option) option \<Rightarrow> ('e \<Rightarrow> hook_call) \<Rightarrow> 'e list \<Rightarrow> hook_call list" where
  "hooked h tag es = (if h = None then [] else map tag es)"

definition due_calls :: "text_hooks \<Rightarrow> text_pending \<Rightarrow> hook_call list" where
  "due_calls h p = hooked (hk_Abandon h) CallAbandon (pd_Abandons p) @ hooked (hk_Award h) CallAward (pd_Awards p)
     @ hooked (hk_Finish h) CallFinish (case pd_Result p of None \<Rightarrow> [] | Some r \<Rightarrow> [r])"

lemma call_each_due:
  "prefix (snd (call_each h tag es)) (hooked h tag es)
   \<and> (fst (call_each h tag es) = None \<longrightarrow> snd (call_each h tag es) = hooked h tag es)
   \<and> (fst (call_each h tag es) \<noteq> None \<longrightarrow> snd (call_each h tag es) \<noteq> [])"
  by (induction h tag es rule: call_each.induct) (auto simp: hooked_def split: option.splits prod.splits)

lemma then_call_due:
  assumes "prefix (snd a) xs" "fst a = None \<longrightarrow> snd a = xs" "fst a \<noteq> None \<longrightarrow> snd a \<noteq> []"
    and "prefix (snd b) ys" "fst b = None \<longrightarrow> snd b = ys" "fst b \<noteq> None \<longrightarrow> snd b \<noteq> []"
  shows "prefix (snd (then_call a b)) (xs @ ys)
   \<and> (fst (then_call a b) = None \<longrightarrow> snd (then_call a b) = xs @ ys)
   \<and> (fst (then_call a b) \<noteq> None \<longrightarrow> snd (then_call a b) \<noteq> [])"
  using assms by (auto simp: then_call_def prefix_def split: option.splits)

lemma run_hooks_due:
  assumes "run_hooks h p = (r, calls)"
  shows "prefix calls (due_calls h p)" "r = None \<Longrightarrow> calls = due_calls h p" "r \<noteq> None \<Longrightarrow> calls \<noteq> []"
proof -
  note d = call_each_due
  note two = then_call_due [OF d [THEN conjunct1] d [THEN conjunct2, THEN conjunct1] d [THEN conjunct2, THEN conjunct2]
      d [THEN conjunct1] d [THEN conjunct2, THEN conjunct1] d [THEN conjunct2, THEN conjunct2]]
  note three = then_call_due [OF d [THEN conjunct1] d [THEN conjunct2, THEN conjunct1] d [THEN conjunct2, THEN conjunct2]
      two [THEN conjunct1] two [THEN conjunct2, THEN conjunct1] two [THEN conjunct2, THEN conjunct2]]
  show "prefix calls (due_calls h p)" "r = None \<Longrightarrow> calls = due_calls h p" "r \<noteq> None \<Longrightarrow> calls \<noteq> []"
    using three [of "hk_Abandon h" CallAbandon "pd_Abandons p" "hk_Award h" CallAward "pd_Awards p" "hk_Finish h" CallFinish
        "case pd_Result p of None \<Rightarrow> [] | Some r \<Rightarrow> [r]"] assms
    by (simp_all add: run_hooks_def due_calls_def)
qed

lemma live_filter: "live cs = image_mset (\<lambda>(k, c). (k, cp_Zone c, cp_Owner c))
    (filter_mset (\<lambda>(k, c). cp_Zone c \<noteq> ZSpent) (mset cs))"
  by (induction cs) (auto simp: one_def)

text \<open>
  C1. In every reachable match each physical copy is in exactly one place: the hands, reserves and
  board list exactly the copies that are not spent, each once, in the zone and with the owner the
  registry names; the registry has one entry per copy, with the card the match was dealt, and as
  many entries as were dealt and seeded.
\<close>

theorem copies_in_one_place:
  assumes "NewTextMatch env opts = Inr m0" "\<And>seed. inj (copy_key env seed (mc_MatchID (op_Contract opts)))"
    and "match_step\<^sup>*\<^sup>* m0 m"
  shows "mset (places (mode m) (tm_state m)) = image_mset (\<lambda>(k, c). (k, cp_Zone c, cp_Owner c))
        (filter_mset (\<lambda>(k, c). cp_Zone c \<noteq> ZSpent) (mset (st_Copies (tm_state m))))
    \<and> distinct (map fst (st_Copies (tm_state m)))
    \<and> (\<forall>(k, c)\<in>set (st_Copies (tm_state m)). map_of (tm_allCopies m) k = Some (cp_Card c))
    \<and> int (length (st_Copies (tm_state m))) = expected_copies m (tm_state m)"
proof -
  have k: "stocked m (tm_state m)" using started_kept [OF assms] by (simp add: match_kept_def kept_def)
  then have l: "located (mode m) (tm_state m)" by (simp add: stocked_def)
  show ?thesis
    using k balancedD(1,2) [OF l] by (auto simp: stocked_def registered_cards_def mset_places simp flip: live_filter)
qed

theorem copies_in_one_place_witness:
  "distinct (map fst (st_Copies (tm_state (fst (snd (Advance_match sample_match (time_unix_milli 5000) (\<lambda>_. time_unix_milli 5000)))))))
   \<and> NewTextMatch sample_surroundings (sample_options ModeBadBargains) = Inr sample_match"
proof -
  have "match_step\<^sup>*\<^sup>* sample_match (fst (snd (Advance_match sample_match (time_unix_milli 5000) (\<lambda>_. time_unix_milli 5000))))"
    using advance_is_step by (rule r_into_rtranclp)
  from copies_in_one_place [OF sample_new sample_distinct_names this] sample_new show ?thesis by blast
qed

text \<open>
  C2. The conservation check that guards every commit never rejects a candidate of a reachable
  match for its copies: whatever operation computed it, it passes, or only its history is too long.
\<close>

theorem candidates_conserve:
  assumes "NewTextMatch env opts = Inr m0" "\<And>seed. inj (copy_key env seed (mc_MatchID (op_Contract opts)))"
    and "match_step\<^sup>*\<^sup>* m0 m" "candidate m (tm_state m) t"
  shows "conservation m t \<in> {None, Some (invalid ErrHistoryLimit ''history'')}"
proof -
  have "kept m t"
    using kept_candidate [OF assms(4)] started_kept [OF assms(1-3)] by (simp add: match_kept_def)
  then show ?thesis
    using kept_conservation [of m t] by (cases "int (length (st_History t)) \<le> MaxHistoryEvents (tm_limits m)")
      (simp_all add: conservation_def checks_reject_Cons)
qed

theorem candidates_conserve_witness:
  "\<exists>t. candidate sample_match (tm_state sample_match) t
     \<and> conservation sample_match t \<in> {None, Some (invalid ErrHistoryLimit ''history'')}"
  using candidates_conserve [OF sample_new sample_distinct_names rtranclp.rtrancl_refl candidate.closed] candidate.closed
  by blast

text \<open>
  C3. Every operation of a match refines the abstract machine: it is a sequence of attempts, which
  leave the committed state as it is, of commits of the pending candidate, and of deliveries.
\<close>

theorem operations_refine:
  assumes "match_step m m'"
  shows "commit_step\<^sup>*\<^sup>* m m' \<and> same_setup m m'"
proof -
  have c: "commit_step\<^sup>*\<^sup>* m m'" by (rule match_step_commits [OF assms])
  then have "same_setup m m'"
    by (induction rule: rtranclp_induct) (auto intro: same_setup_trans commit_setup)
  then show ?thesis using c by simp
qed

theorem operations_refine_witness:
  "commit_step\<^sup>*\<^sup>* sample_match (fst (snd (Advance_match sample_match (time_unix_milli 5000) (\<lambda>_. time_unix_milli 5000))))"
  using operations_refine [OF advance_is_step] by blast

text \<open>
  C4. The history of a match is append-only, its events carry the numbers 1, 2, 3 and so on without
  a gap, and the phase serial and the board revision never decrease.
\<close>

theorem history_appends:
  assumes "NewTextMatch env opts = Inr m0" "\<And>seed. inj (copy_key env seed (mc_MatchID (op_Contract opts)))"
    and "match_step\<^sup>*\<^sup>* m0 m" "match_step\<^sup>*\<^sup>* m m'"
  shows "(\<exists>es. st_History (tm_state m') = st_History (tm_state m) @ es)
    \<and> map e_EvidenceSeq (st_History (tm_state m')) = [1..<length (st_History (tm_state m')) + 1]
    \<and> st_PhaseSerial (tm_state m) \<le> st_PhaseSerial (tm_state m')
    \<and> revision (tm_state m) \<le> revision (tm_state m')"
proof -
  have "numbered m' 0 (st_History (tm_state m'))"
    using started_logged [OF assms(1,2) rtranclp_trans [OF assms(3,4)]] by blast
  then have "map e_EvidenceSeq (st_History (tm_state m')) = [1..<length (st_History (tm_state m')) + 1]"
    by (intro nth_equalityI) (simp_all add: numbered_def del: upt_Suc)
  moreover have "grows m (tm_state m) (tm_state m')" using started_between [OF assms] by blast
  ultimately show ?thesis by (auto simp: grows_def)
qed

theorem history_appends_witness:
  "\<exists>es. st_History (tm_state (fst (snd (Advance_match sample_match (time_unix_milli 5000) (\<lambda>_. time_unix_milli 5000)))))
     = st_History (tm_state sample_match) @ es"
  using history_appends [OF sample_new sample_distinct_names rtranclp.rtrancl_refl r_into_rtranclp [where r = match_step, OF advance_is_step]]
  by blast


lemma sample_turn_reached: "match_step\<^sup>*\<^sup>* sample_match sample_turn"
  using sample_turn_step match_step.advanced by blast

lemma sample_turn_fields: "tm_pending sample_turn = None" "tm_state sample_turn = sample_playing"
  "tm_contract sample_turn = sample_contract ModeBadBargains" "tm_hooks sample_turn = sample_hooks"
  by (simp_all add: sample_turn_def sample_match_fields)


text \<open>
  C6. A rejected action changes nothing: the committed state is the same, and the match itself is
  the same unless a durable hook was called and failed, which leaves the candidate pending.
\<close>

theorem rejected_actions_change_nothing:
  assumes "Apply m seat r clk = (Inl e, m', calls)"
  shows "tm_state m' = tm_state m \<and> (m' = m \<or> (calls \<noteq> [] \<and> (\<exists>p. m' = m\<lparr>tm_pending := Some p\<rparr>)))"
proof -
  have "tm_state m' = tm_state m \<and> calls \<noteq> [] \<and> m' = m\<lparr>tm_pending := Some p\<rparr>" if "persist m p = (Inl e, m', calls)" for p
    using that run_hooks_due(3) [of "tm_hooks m" p] by (auto simp: persist_def split: prod.splits option.splits)
  then have persisted: "tm_state m' = tm_state m \<and> calls \<noteq> [] \<and> (\<exists>p. m' = m\<lparr>tm_pending := Some p\<rparr>)"
    if "persist m p = (Inl e, m', calls)" for p using that by blast
  have "m' = m \<or> (\<exists>p. persist m p = (Inl e, m', calls))"
    using assms unfolding Apply_def apply_new_def Let_def no_result_of_def
    by (simp split: option.split_asm sum.split_asm if_split_asm prod.split_asm) blast+
  then show ?thesis using persisted by auto
qed

theorem rejected_actions_change_nothing_witness:
  "\<exists>e m' calls. Apply sample_match 1 sample_draw (\<lambda>_. time_unix_milli 6000) = (Inl e, m', calls) \<and> tm_state m' = sample_begun"
proof -
  have "\<not> accepted (fst (Apply sample_match 1 sample_draw (\<lambda>_. time_unix_milli 6000)))" by code_simp
  then obtain e m' calls where a: "Apply sample_match 1 sample_draw (\<lambda>_. time_unix_milli 6000) = (Inl e, m', calls)"
    by (metis accepted_def prod.collapse sum.case(2) sum.exhaust)
  show ?thesis using a rejected_actions_change_nothing [OF a] sample_match_fields(1) by auto
qed

text \<open>
  C7. A commit is durable first: \<open>persist\<close> calls the hooks for the abandons, the awards and the
  result of the candidate in this order; when all succeed the candidate becomes the committed
  state, when one fails the state stays, the calls made are a non-empty initial part and the very
  same candidate is kept for the next attempt.
\<close>

theorem persist_is_durable_first:
  assumes "persist m p = (res, m', calls)"
  shows "case res of
      Inr r \<Rightarrow> calls = due_calls (tm_hooks m) p \<and> tm_state m' = pd_State p \<and> tm_pending m' = None \<and> ar_Public r = pd_Events p
    | Inl e \<Rightarrow> calls \<noteq> [] \<and> prefix calls (due_calls (tm_hooks m) p) \<and> tm_state m' = tm_state m \<and> tm_pending m' = Some p"
  using assms run_hooks_due [of "tm_hooks m" p]
  by (auto simp: persist_def split: prod.splits option.splits)

theorem persist_is_durable_first_witness:
  "\<exists>m'. persist sample_match (empty_pending sample_playing [] []) =
      (Inr \<lparr>ar_Duplicate = False, ar_Changed = True, ar_Public = []\<rparr>, m', []) \<and> tm_state m' = sample_playing"
proof -
  have "\<exists>m'. persist sample_match (empty_pending sample_playing [] []) =
      (Inr \<lparr>ar_Duplicate = False, ar_Changed = True, ar_Public = []\<rparr>, m', [])"
    by (simp add: persist_def run_hooks_def then_call_def sample_match_fields sample_hooks_def empty_pending_def)
  then obtain m' where p: "persist sample_match (empty_pending sample_playing [] []) =
      (Inr \<lparr>ar_Duplicate = False, ar_Changed = True, ar_Public = []\<rparr>, m', [])" by blast
  show ?thesis using p persist_is_durable_first [OF p] by (simp add: empty_pending_def)
qed

text \<open>
  C8. While a candidate is pending no other action is applied: \<open>Apply\<close> for another request, or for
  the same identity with another body, is rejected without any hook call.
\<close>

theorem pending_candidate_blocks:
  assumes "tm_pending m = Some p"
    and "pd_Key p \<noteq> request_key seat (r_RequestID r) \<or> pd_Hash p \<noteq> RequestHash (tm_sha m) r"
  shows "\<exists>e. Apply m seat r clk = (Inl e, m, [])"
  using assms by (auto simp: Apply_def Let_def no_result_of_def split: option.splits)

theorem pending_candidate_blocks_witness:
  "\<exists>e. Apply (sample_turn\<lparr>tm_pending := Some (empty_pending sample_playing [] [])\<rparr>) 1 sample_draw (\<lambda>_. time_unix_milli 6000)
     = (Inl e, sample_turn\<lparr>tm_pending := Some (empty_pending sample_playing [] [])\<rparr>, [])"
  by (rule pending_candidate_blocks [where p = "empty_pending sample_playing [] []"])
    (simp_all add: empty_pending_def request_key_def)

text \<open>
  C9. An action aimed at a phase that is over never changes the match, whatever the phase that
  follows it: phase identities do not repeat, so a late request cannot hit a later phase.
\<close>

theorem late_actions_change_nothing:
  assumes "NewTextMatch env opts = Inr m0" "\<And>seed. inj (copy_key env seed (mc_MatchID (op_Contract opts)))"
    and "match_step\<^sup>*\<^sup>* m0 m" "match_step\<^sup>*\<^sup>* m m'"
    and "st_PhaseSerial (tm_state m) < st_PhaseSerial (tm_state m')" "tm_pending m' = None"
    and "r_PhaseID r = st_PhaseID (tm_state m)"
  shows "fst (snd (Apply m' seat r clk)) = m'"
proof -
  have m': "match_step\<^sup>*\<^sup>* m0 m'" using assms(3,4) by simp
  have "tm_contract m' = tm_contract m" using started_between [OF assms(1-4)] by (auto elim!: same_setup_fields)
  then have "r_PhaseID r \<noteq> st_PhaseID (tm_state m')"
    using started_logged [OF assms(1-3)] started_logged [OF assms(1,2) m'] assms(5,7) by (simp add: serial_ok_def)
  then have "apply_guards m' seat r (tm_state m') (clk 0) \<noteq> None"
    by (simp add: apply_guards_def CheckActionContext_fresh context_of_def)
  then have "fst (snd (apply_new m' seat r key hash clk)) = m'" for key hash
    by (auto simp: apply_new_def no_result_of_def)
  then show ?thesis using assms(6) by (auto simp: Apply_def Let_def no_result_of_def split: option.split sum.split)
qed

theorem late_actions_change_nothing_witness:
  "fst (snd (Apply sample_turn 1 (sample_draw\<lparr>r_PhaseID := st_PhaseID sample_begun\<rparr>) (\<lambda>_. time_unix_milli 6000))) = sample_turn"
proof -
  have "st_PhaseSerial sample_begun < st_PhaseSerial sample_playing" by code_simp
  then have "st_PhaseSerial (tm_state sample_match) < st_PhaseSerial (tm_state sample_turn)"
    by (simp only: sample_match_fields sample_turn_fields)
  from late_actions_change_nothing [OF sample_new sample_distinct_names rtranclp.rtrancl_refl sample_turn_reached this
      sample_turn_fields(1)]
  show ?thesis by (simp add: sample_match_fields)
qed

end
