(* ===== verification/View_Claims.thy ===== *)
theory View_Claims
  imports Sample
begin

section \<open>What a seat may learn\<close>

text \<open>
  The projection of the state to a seat is a function of what that seat may know: two states with
  the same view give the same snapshot. Together with \<open>same_view\<close> this says which parts of the
  state cannot flow to a seat.
\<close>

text \<open>
  C10. Non-interference: a seat's snapshot depends only on what is public at that moment and on its
  own cards and role. The roles, hands, reserves, specialties and scores of the other players, the
  identities of the reserves, the order of the turns to come and the hidden result of a ballot do
  not influence it.
\<close>

theorem snapshots_reveal_only_the_view:
  assumes "same_view seat now s t"
  shows "project m s seat now = project m t seat now"
proof -
  note v = assms [unfolded same_view_def]
  note f = public_state_fields [OF v [THEN conjunct1]]
  have p: "map public_player (st_Players s) = map public_player (st_Players t)" and c: "current s = current t"
    using v by simp_all
  have "reveal_shown s = reveal_shown t" "project_scores s = project_scores t" "project_nowns m s = project_nowns m t"
    using f by (simp_all add: reveal_shown_def project_scores_def project_nowns_def cong: option.case_cong)
  then show ?thesis
    using f c view_public_seats [OF p] view_ready_seats [OF p f(10)] view_ballot [OF assms] view_private [OF assms]
    by (simp add: project_def)
qed

theorem snapshots_reveal_only_the_view_witness:
  "project sample_match sample_begun 0 (time_unix_milli 2000)
   = project sample_match (sample_begun\<lparr>st_Players := upd 2 (\<lambda>v. v\<lparr>tp_Role := Donower, tp_Hand := [''c9''],
       tp_Specialty := SpPass, tp_Points := 7\<rparr>) (st_Players sample_begun), st_Order := [3, 2, 1, 0]\<rparr>) 0 (time_unix_milli 2000)"
proof (rule snapshots_reveal_only_the_view)
  show "same_view 0 (time_unix_milli 2000) sample_begun
     (sample_begun\<lparr>st_Players := upd 2 (\<lambda>v. v\<lparr>tp_Role := Donower, tp_Hand := [''c9''],
       tp_Specialty := SpPass, tp_Points := 7\<rparr>) (st_Players sample_begun), st_Order := [3, 2, 1, 0]\<rparr>)"
    by code_simp
qed

text \<open>The part of the match that no snapshot shows, and the prompts.\<close>

lemma capabilities_hidden:
  "project_capabilities (m\<lparr>tm_nowns := prompts, tm_seeds := seeds, tm_allCopies := copies, tm_seed := seed\<rparr>) s seat now
    = project_capabilities m s seat now"
proof -
  let ?m = "m\<lparr>tm_nowns := prompts, tm_seeds := seeds, tm_allCopies := copies, tm_seed := seed\<rparr>"
  have turn: "turn_specialty ?m s p now k = turn_specialty m s p now k"
    and phase: "phase_capabilities ?m s seat p ph = phase_capabilities m s seat p ph" for p k ph
    by (cases k; simp) (cases ph; simp)
  show ?thesis by (simp add: project_capabilities_def general_capabilities_def turn phase Let_def)
qed

lemma project_hidden:
  assumes "st_Phase s \<noteq> PhaseVerdict \<Longrightarrow> tp_Role (player s seat) = Nower \<Longrightarrow> \<not> tp_Eliminated (player s seat) \<Longrightarrow>
      Prelude.at prompts (st_Round s - 1) = Prelude.at (tm_nowns m) (st_Round s - 1)"
    and "st_Phase s = PhaseVerdict \<Longrightarrow> take (nat (st_Round s)) prompts = take (nat (st_Round s)) (tm_nowns m)"
  shows "project (m\<lparr>tm_nowns := prompts, tm_seeds := seeds, tm_allCopies := copies, tm_seed := seed\<rparr>) s seat now
    = project m s seat now"
proof -
  let ?m = "m\<lparr>tm_nowns := prompts, tm_seeds := seeds, tm_allCopies := copies, tm_seed := seed\<rparr>"
  have "project_private ?m s seat now = project_private m s seat now"
    using assms(1) by (auto simp: project_private_def capabilities_hidden Let_def)
  moreover have "project_nowns ?m s = project_nowns m s"
    using assms(2) by (simp add: project_nowns_def shown_result_def split: option.split)
  ultimately show ?thesis by (simp add: project_def)
qed

text \<open>
  C11. The prompts and the hidden deal are secret. Whatever the phase and whoever asks, no seat's
  snapshot depends on the seed cards and copies to come or on the random seed. Before the verdict,
  the snapshot of a donower and of an eliminated seat does not depend on the prompts at all, and
  the snapshot of a living nower on no prompt but that of the round being played. At the verdict
  every seat is shown the prompts of the rounds that were begun, and nothing depends on the others.
\<close>

theorem prompts_are_secret:
  "project (m\<lparr>tm_seeds := seeds, tm_allCopies := copies, tm_seed := seed\<rparr>) s seat now = project m s seat now
    \<and> (st_Phase s \<noteq> PhaseVerdict \<and> (tp_Role (player s seat) \<noteq> Nower \<or> tp_Eliminated (player s seat))
        \<longrightarrow> project (m\<lparr>tm_nowns := prompts\<rparr>) s seat now = project m s seat now)
    \<and> (st_Phase s \<noteq> PhaseVerdict \<and> Prelude.at prompts (st_Round s - 1) = Prelude.at (tm_nowns m) (st_Round s - 1)
        \<longrightarrow> project (m\<lparr>tm_nowns := prompts\<rparr>) s seat now = project m s seat now)
    \<and> (st_Phase s = PhaseVerdict \<and> take (nat (st_Round s)) prompts = take (nat (st_Round s)) (tm_nowns m)
        \<longrightarrow> project (m\<lparr>tm_nowns := prompts\<rparr>) s seat now = project m s seat now)"
proof -
  have "project (m\<lparr>tm_nowns := tm_nowns m, tm_seeds := seeds, tm_allCopies := copies, tm_seed := seed\<rparr>) s seat now
    = project m s seat now" by (rule project_hidden) simp_all
  moreover have "project (m\<lparr>tm_nowns := prompts\<rparr>) s seat now = project m s seat now"
    if "st_Phase s \<noteq> PhaseVerdict \<Longrightarrow> tp_Role (player s seat) = Nower \<Longrightarrow> \<not> tp_Eliminated (player s seat) \<Longrightarrow>
        Prelude.at prompts (st_Round s - 1) = Prelude.at (tm_nowns m) (st_Round s - 1)"
      "st_Phase s = PhaseVerdict \<Longrightarrow> take (nat (st_Round s)) prompts = take (nat (st_Round s)) (tm_nowns m)"
    using project_hidden [OF that, where seeds = "tm_seeds m" and copies = "tm_allCopies m" and seed = "tm_seed m" and now = now]
    by simp
  ultimately show ?thesis by auto
qed

theorem prompts_are_secret_witness:
  "project (sample_match\<lparr>tm_nowns := []\<rparr>) sample_begun 3 (time_unix_milli 2000) = project sample_match sample_begun 3 (time_unix_milli 2000)
   \<and> project (sample_match\<lparr>tm_nowns := take 1 (tm_nowns sample_match)\<rparr>) sample_begun 0 (time_unix_milli 2000)
     = project sample_match sample_begun 0 (time_unix_milli 2000)"
proof -
  have "tp_Role (player sample_begun 3) \<noteq> Nower" "st_Phase sample_begun \<noteq> PhaseVerdict" by code_simp+
  moreover have "Prelude.at (take 1 (tm_nowns sample_match)) (st_Round sample_begun - 1)
      = Prelude.at (tm_nowns sample_match) (st_Round sample_begun - 1)" by code_simp
  ultimately show ?thesis using prompts_are_secret [where m = sample_match and s = sample_begun] by metis
qed

end
