(* ===== verification/Soundness.thy ===== *)
theory Soundness
  imports Growth
begin

section \<open>The bookkeeping of turns, rounds and reveals\<close>

text \<open>
  The counters of a match stay within their bounds: the turn within the order, the free draws
  above zero, the round within the rounds that were dealt, with as many votes left as rounds; a
  reveal in force has its cards. These are the facts that keep the engine from indexing out of
  range. The number \<open>d\<close> is the votes used up but not yet matched by a round: 0 between operations,
  1 while the result of a ballot is applied.
\<close>

definition turn_ok :: "text_state \<Rightarrow> bool" where
  "turn_ok s \<longleftrightarrow> 0 \<le> st_Turn s \<and> st_Turn s \<le> int (length (st_Order s)) \<and> (\<forall>i\<in>set (st_Order s). 0 \<le> i)"

definition draws_ok :: "text_state \<Rightarrow> bool" where
  "draws_ok s \<longleftrightarrow> (\<forall>v\<in>set (st_Players s). 0 \<le> tp_FreeDraws v)"

definition round_ok :: "int \<Rightarrow> text_match \<Rightarrow> text_state \<Rightarrow> bool" where
  "round_ok d m s \<longleftrightarrow> 1 \<le> st_Round s \<and> st_Round s \<le> int (length (tm_seeds m))
     \<and> (st_Result s = None \<longrightarrow> st_Round s + st_RemainingVotes s = int (length (tm_seeds m)) + 1 - d)"

definition reveal_ok :: "text_match \<Rightarrow> text_state \<Rightarrow> bool" where
  "reveal_ok m s \<longleftrightarrow> (\<forall>k. st_RevealTarget s = Some k \<longrightarrow>
     0 \<le> k \<and> k < mc_OriginalSize (tm_contract m) \<and> st_RevealCards s \<noteq> None)"

definition sound :: "int \<Rightarrow> text_match \<Rightarrow> text_state \<Rightarrow> bool" where
  "sound d m s \<longleftrightarrow> turn_ok s \<and> draws_ok s \<and> round_ok d m s \<and> reveal_ok m s"

subsection \<open>Elementary updates\<close>

lemma draws_ok_upd: "draws_ok t \<Longrightarrow> (\<And>v. 0 \<le> tp_FreeDraws v \<Longrightarrow> 0 \<le> tp_FreeDraws (f v)) \<Longrightarrow>
    draws_ok (upd_player i f t)"
proof -
  assume t: "draws_ok t" and f: "\<And>v. 0 \<le> tp_FreeDraws v \<Longrightarrow> 0 \<le> tp_FreeDraws (f v)"
  have "0 \<le> tp_FreeDraws ((upd i f (st_Players t)) ! k)" if "k < length (st_Players t)" for k
    using t f that by (simp add: nth_upd draws_ok_def)
  then show ?thesis by (auto simp: draws_ok_def in_set_conv_nth)
qed

lemma draws_ok_at:
  assumes "draws_ok t" "0 \<le> tp_FreeDraws (f (player t i))"
  shows "draws_ok (upd_player i f t)"
proof -
  have "0 \<le> tp_FreeDraws ((upd i f (st_Players t)) ! k)" if "k < length (st_Players t)" for k
    using assms that by (simp add: nth_upd draws_ok_def player_def Prelude.at_def)
  then show ?thesis by (auto simp: draws_ok_def in_set_conv_nth)
qed

lemma draws_ok_map: "draws_ok t \<Longrightarrow> (\<And>v. 0 \<le> tp_FreeDraws v \<Longrightarrow> 0 \<le> tp_FreeDraws (f v)) \<Longrightarrow>
    draws_ok (t\<lparr>st_Players := map f (st_Players t)\<rparr>)"
  by (auto simp: draws_ok_def)

lemmas sound_defs = sound_def turn_ok_def round_ok_def reveal_ok_def draws_ok_def

lemma sound_fields [simp]:
  "sound d m (put_copy k c t) = sound d m t" "sound d m (set_board_cards cs t) = sound d m t"
  "sound d m (add_event m' t i kd w now b ds g) = sound d m t" "sound d m (bump_revision t) = sound d m t"
  "sound d m (set_phase m' t ph now n) = sound d m t"
  "sound d m (t\<lparr>st_Offer := x1\<rparr>) = sound d m t" "sound d m (t\<lparr>st_Votes := x2\<rparr>) = sound d m t"
  "sound d m (t\<lparr>st_Candidates := x3\<rparr>) = sound d m t" "sound d m (t\<lparr>st_BallotKind := x4\<rparr>) = sound d m t"
  "sound d m (t\<lparr>st_BallotResult := x5\<rparr>) = sound d m t" "sound d m (t\<lparr>st_Ready := x6\<rparr>) = sound d m t"
  "sound d m (t\<lparr>st_Pokes := x7\<rparr>) = sound d m t" "sound d m (t\<lparr>st_Copies := y0\<rparr>) = sound d m t"
  "sound d m (t\<lparr>st_Deadline := y1\<rparr>) = sound d m t" "sound d m (t\<lparr>st_ResultRevealAt := y1\<rparr>) = sound d m t"
  "sound d m (t\<lparr>st_ResultRevealed := y2\<rparr>) = sound d m t" "sound d m (t\<lparr>st_Requests := y3\<rparr>) = sound d m t"
  "sound d m (t\<lparr>st_ShuffleUsed := y5\<rparr>) = sound d m t" "sound d m (t\<lparr>st_RevoteUsed := y5\<rparr>) = sound d m t"
  by (simp_all add: sound_defs set_board_cards_def)

lemma sound_upd [simp]:
  "sound d m t \<Longrightarrow> (\<And>v. 0 \<le> tp_FreeDraws v \<Longrightarrow> 0 \<le> tp_FreeDraws (f v)) \<Longrightarrow> sound d m (upd_player i f t)"
  using draws_ok_upd [of t f i] by (simp add: sound_def turn_ok_def round_ok_def reveal_ok_def)

lemma sound_map [simp]:
  "sound d m t \<Longrightarrow> (\<And>v. 0 \<le> tp_FreeDraws v \<Longrightarrow> 0 \<le> tp_FreeDraws (f v)) \<Longrightarrow>
   sound d m (t\<lparr>st_Players := map f (st_Players t)\<rparr>)"
  using draws_ok_map [of t f] by (simp add: sound_def turn_ok_def round_ok_def reveal_ok_def)

lemma sound_cards [simp]:
  "sound d m t \<Longrightarrow> sound d m (spend t seat c j)" "sound d m t \<Longrightarrow> sound d m (discard t i k)"
  by (simp_all add: spend_def discard_def Let_def)

subsection \<open>Where a turn ends\<close>

text \<open>
  \<open>nextTurn\<close> settles on the turn of a connected seat that can play, or on the discussion.
\<close>

definition settled :: "text_match \<Rightarrow> gotime \<Rightarrow> text_state \<Rightarrow> bool" where
  "settled m now t \<longleftrightarrow>
     st_Phase t = PhasePlay \<and> 1 \<le> st_Turn t \<and> st_Turn t \<le> int (length (st_Order t))
       \<and> tp_Connected (player t (current t)) \<and> (mode m = ModeBadBargains \<longrightarrow> has_recipient t (current t))
       \<and> st_Deadline t = unix_milli now + 1000 * ti_PlayTurn (tm_timers m)
   \<or> st_Phase t = PhaseDiscussion \<and> st_Turn t = int (length (st_Order t))
       \<and> st_Deadline t = unix_milli now
           + 1000 * (ti_DiscussionPerPlayer (tm_timers m) * mc_OriginalSize (tm_contract m))"

lemma current_bounds: "0 \<le> st_Turn s \<Longrightarrow> st_Turn s + 1 \<le> int (length (st_Order s)) \<Longrightarrow>
  (\<forall>i\<in>set (st_Order s). 0 \<le> i) \<Longrightarrow> 0 \<le> current (s\<lparr>st_Turn := st_Turn s + 1\<rparr>)"
  by (auto simp: current_def at_def intro!: nth_mem)

lemma settled_nextTurn:
  "0 \<le> st_Turn s \<Longrightarrow> \<forall>i\<in>set (st_Order s). 0 \<le> i \<Longrightarrow> settled m now (nextTurn m s now) \<and> st_Order (nextTurn m s now) = st_Order s"
  "0 \<le> st_Turn s \<Longrightarrow> 0 \<le> current s \<Longrightarrow> \<forall>i\<in>set (st_Order s). 0 \<le> i \<Longrightarrow>
    settled m now (autoPass m s why now) \<and> st_Order (autoPass m s why now) = st_Order s"
proof (induction m s now and m s why now rule: nextTurn_autoPass.induct)
  case (1 m s now)
  define s1 where "s1 = s\<lparr>st_Turn := st_Turn s + 1\<rparr>"
  define s2 where "s2 = set_phase m s1 PhasePlay now (ti_PlayTurn (tm_timers m))"
  show ?case
  proof (cases "st_Turn s1 > int (length (st_Order s1))")
    case True
    then show ?thesis by (subst (1 2) nextTurn.simps) (simp add: s1_def Let_def settled_def)
  next
    case False
    have c: "0 \<le> current s2" "0 \<le> st_Turn s2" "\<forall>i\<in>set (st_Order s2). 0 \<le> i" "st_Order s2 = st_Order s"
      using current_bounds [OF "1.prems"(1)] "1.prems" False by (simp_all add: s2_def s1_def)
    consider (d) "\<not> tp_Connected (player s2 (current s2))"
      | (n) "tp_Connected (player s2 (current s2))" "mode m = ModeBadBargains" "\<not> has_recipient s2 (current s2)"
      | (s) "tp_Connected (player s2 (current s2))" "\<not> (mode m = ModeBadBargains \<and> \<not> has_recipient s2 (current s2))"
      by blast
    then show ?thesis
    proof cases
      case d
      then have "nextTurn m s now = autoPass m s2 RDisconnect now"
        using False by (subst nextTurn.simps) (simp add: s1_def s2_def Let_def)
      then show ?thesis using "1.IH"(1) [OF s1_def _ s2_def refl] d False c by simp
    next
      case n
      then have "nextTurn m s now = autoPass m s2 RNoRecipient now"
        using False by (subst nextTurn.simps) (simp add: s1_def s2_def Let_def)
      then show ?thesis using "1.IH"(2) [OF s1_def _ s2_def refl] n False c by simp
    next
      case s
      then have "nextTurn m s now = s2" using False by (subst nextTurn.simps) (auto simp: s1_def s2_def Let_def)
      then show ?thesis using s False "1.prems" c by (auto simp: settled_def s2_def s1_def)
    qed
  qed
next
  case (2 m s why now)
  then show ?case by (simp add: autoPass.simps)
qed

lemma discard_reveal [simp]:
  "st_RevealTarget (discard s i k) = st_RevealTarget s" "st_RevealCards (discard s i k) = st_RevealCards s"
  by (simp_all add: discard_def Let_def)

text \<open>The parts of soundness that turning over does not touch.\<close>

interpretation sound_turns: turn_relation
  "\<lambda>m s t. (draws_ok s \<longrightarrow> draws_ok t) \<and> (round_ok d m s \<longrightarrow> round_ok d m t) \<and> (reveal_ok m s \<longrightarrow> reveal_ok m t)"
proof unfold_locales
  fix m s n ph now secs why
  show "(draws_ok s \<longrightarrow> draws_ok (s\<lparr>st_Turn := n\<rparr>)) \<and> (round_ok d m s \<longrightarrow> round_ok d m (s\<lparr>st_Turn := n\<rparr>))
    \<and> (reveal_ok m s \<longrightarrow> reveal_ok m (s\<lparr>st_Turn := n\<rparr>))"
    by (simp add: draws_ok_def round_ok_def reveal_ok_def)
  show "(draws_ok s \<longrightarrow> draws_ok (set_phase m s ph now secs)) \<and> (round_ok d m s \<longrightarrow> round_ok d m (set_phase m s ph now secs))
    \<and> (reveal_ok m s \<longrightarrow> reveal_ok m (set_phase m s ph now secs))"
    by (simp add: draws_ok_def round_ok_def reveal_ok_def)
  have "draws_ok s \<Longrightarrow> draws_ok (discard s i k)" for i k
    unfolding discard_def Let_def by (rule draws_ok_upd) (simp_all add: draws_ok_def)
  then show "(draws_ok s \<longrightarrow> draws_ok (pass_current m s why now)) \<and> (round_ok d m s \<longrightarrow> round_ok d m (pass_current m s why now))
    \<and> (reveal_ok m s \<longrightarrow> reveal_ok m (pass_current m s why now))"
    by (simp add: pass_current_def Let_def round_ok_def reveal_ok_def draws_ok_def)
qed simp_all

lemma settled_turn: "settled m now t \<Longrightarrow> \<forall>i\<in>set (st_Order t). 0 \<le> i \<Longrightarrow> turn_ok t"
  by (auto simp: settled_def turn_ok_def)

lemma sound_nextTurn [simp]: "sound d m t \<Longrightarrow> sound d m (nextTurn m t now)"
  using settled_nextTurn(1) [of t m now] settled_turn [of m now "nextTurn m t now"] sound_turns.R_nextTurn [of t m now]
  by (auto simp: sound_def turn_ok_def)

lemma sound_autoPass [simp]: "sound d m t \<Longrightarrow> sound d m (autoPass m t why now)"
proof (cases "current t < 0")
  case False
  assume "sound d m t"
  then show ?thesis
    using False settled_nextTurn(2) [of t m now why] settled_turn [of m now "autoPass m t why now"]
      sound_turns.R_autoPass [of t m why now]
    by (auto simp: sound_def turn_ok_def)
qed (simp add: autoPass.simps)

lemma sound_open_round: "sound d m t \<Longrightarrow> sound d m (open_round m t now)"
  by (auto simp: open_round_def Let_def sound_defs retire_board_def set_seats_where in_range_def
      clear_round_player_def set_board_cards_def)

lemma seed_loop_sound: "seed_loop md texts em t cs = Inr (u, em') \<Longrightarrow> sound d m t \<Longrightarrow> sound d m u"
  by (induction md texts em t cs rule: seed_loop.induct) (auto split: if_splits)

lemma sound_settle [simp]: "sound d m t \<Longrightarrow> sound d m (settle_offer m t po seat res why now)"
  by (simp add: settle_offer_def Let_def) 

lemma sound_resolveOffer [simp]: "sound d m t \<Longrightarrow> sound d m (resolveOffer m t seat res why now)"
  by (simp add: resolveOffer_def Let_def split: option.splits)

lemma sound_result: "sound d m t \<Longrightarrow> sound e m (t\<lparr>st_Result := Some r\<rparr>)"
  by (simp add: sound_defs)

lemma sound_turn_zero [simp]: "sound d m t \<Longrightarrow> sound d m (t\<lparr>st_Turn := 0\<rparr>)"
  by (auto simp: sound_defs)

lemma sound_beginRound:
  assumes b: "beginRound m (t\<lparr>st_Round := st_Round t + 1\<rparr>) now = Inr u"
    and t: "sound 1 m t" and n: "0 < st_RemainingVotes t" "st_Result t = None"
  shows "sound 0 m u"
proof -
  let ?t = "t\<lparr>st_Round := st_Round t + 1\<rparr>"
  have "sound 0 m ?t" using t n by (simp add: sound_defs)
  then have "sound 0 m (open_round m ?t now)" by (rule sound_open_round)
  then show ?thesis
    using b seed_loop_sound
    by (auto simp: beginRound_def Let_def split: if_split_asm sum.split_asm prod.split_asm)
qed

subsection \<open>Ballots, the clock and the end\<close>

lemma sound_fold:
  assumes "\<And>x sp. sound d m (fst sp) \<Longrightarrow> sound d m (fst (f x sp))"
  shows "sound d m (fst sp) \<Longrightarrow> sound d m (fst (fold f xs sp))"
  by (induction xs arbitrary: sp) (simp_all add: assms)

lemma sound_scores [simp]:
  "sound d m (fst sp) \<Longrightarrow> sound d m (fst (score_vote m now seat sp))"
  "sound d m (fst sp) \<Longrightarrow> sound d m (fst (score_survival m now tied seat sp))"
  "sound d m (fst sp) \<Longrightarrow> sound d m (fst (expire_grace m now seat sp))"
  by (simp_all add: score_vote_def score_survival_def expire_grace_def Let_def split: option.splits)

lemma sound_resolveVote [simp]: "sound d m t \<Longrightarrow> sound d m (fst (resolveVote m t now p))"
  by (simp add: resolveVote_def open_runoff_def close_ballot_def recordBallot_def Let_def sound_fold)

lemma sound_finish:
  assumes "sound d m t" "st_Result t = None \<or> d = 0"
  shows "sound 0 m (fst (finish m t oc w now p))"
proof (cases "st_Result t = None")
  case True
  define t1 where "t1 = (if st_Offer t \<noteq> None then resolveOffer m t (-1) ResCancel RForcedTransition now else t)"
  have "sound d m t1" using assms(1) by (simp add: t1_def)
  then have "sound d m (t1\<lparr>st_Players := map (\<lambda>v. v\<lparr>tp_Points := final_points m oc w v\<rparr>) (st_Players t1)\<rparr>)" by simp
  from sound_result [OF this] show ?thesis using True by (simp add: finish_def Let_def t1_def)
next
  case False
  then show ?thesis using assms by (auto simp: finish_def)
qed

lemma sound_vote_spent: "sound 0 m t \<Longrightarrow> sound 1 m (vote_spent t)"
proof -
  assume "sound 0 m t"
  then have "sound 0 m (eliminate_voted t)" by (simp add: eliminate_voted_def split: option.splits)
  then show ?thesis by (auto simp: sound_defs)
qed

lemma vote_spent_result [simp]: "st_Result (vote_spent t) = st_Result t"
  by (simp add: eliminate_voted_def split: option.splits)

lemma uncaught_nonneg: "0 \<le> uncaught s"
  by (simp add: uncaught_def)

lemma sound_finalizeVote:
  assumes "finalizeVote m t now p = Inr (u, q)" "sound 0 m t" "st_Result t = None"
  shows "sound 0 m u"
proof -
  have v: "sound 1 m (vote_spent t)" "st_Result (vote_spent t) = None"
    using sound_vote_spent [OF assms(2)] assms(3) by simp_all
  note fin = sound_finish [OF v(1) disjI1 [OF v(2)], of _ _ now p]
  from assms(1) show ?thesis
  proof (cases rule: finalizeVote_cases)
    case caught
    then show ?thesis using fin by (metis fst_conv)
  next
    case escaped
    then show ?thesis using fin by (metis fst_conv)
  next
    case begun
    have "0 < st_RemainingVotes (vote_spent t)" using begun(3,4) uncaught_nonneg [of "vote_spent t"] by linarith
    then show ?thesis using sound_beginRound [OF begun(1) v(1) _ v(2)] by simp
  qed
qed

lemma sound_advance_step:
  assumes "step_state (advance_step m t now p) = Some u" "sound 0 m t" "st_Result t = None"
  shows "sound 0 m u"
proof (cases "st_Phase t = PhaseResult")
  case True
  define t1 where "t1 = (if unix_milli now \<ge> st_ResultRevealAt t then t\<lparr>st_ResultRevealed := True\<rparr> else t)"
  have t1: "sound 0 m t1" "st_Result t1 = None" using assms(2,3) by (simp_all add: t1_def)
  show ?thesis
    using assms t1 True sound_finalizeVote [OF _ t1]
    by (auto simp: advance_step_def Let_def t1_def [symmetric] split: if_splits sum.splits)
next
  case False
  obtain v1 v2 where v: "resolveVote m t now p = (v1, v2)" by fastforce
  have v1: "sound 0 m v1" using sound_resolveVote [OF assms(2), of now p] by (simp add: v)
  show ?thesis
    using assms v v1 False by (cases "st_Phase t") (auto simp: advance_step_def start_knowoff_def split: if_splits)
qed

text \<open>
  A property of states that one transition of an unfinished match, an expired grace and the end of
  the match keep is kept by the clock.
\<close>

interpretation result_turns: turn_relation "\<lambda>m s t. st_Result t = st_Result s"
  by unfold_locales simp_all

lemma continue_result: "advance_step m t now p = Continue u q \<Longrightarrow> st_Result u = st_Result t"
  by (cases "st_Phase t") (auto simp: advance_step_def Let_def result_turns.R_autoPass split: if_splits sum.splits prod.splits)

lemma fold_result:
  assumes "\<And>x sp. st_Result (fst (f x sp)) = st_Result (fst sp)"
  shows "st_Result (fst (fold f xs sp)) = st_Result (fst sp)"
  by (induction xs arbitrary: sp) (simp_all add: assms)

lemma expire_grace_result: "st_Result (fst (expire_grace m now i sp)) = st_Result (fst sp)"
  by (simp add: expire_grace_def Let_def)

locale clock_invariant =
  fixes J :: "text_match \<Rightarrow> text_state \<Rightarrow> bool"
  assumes J_step: "J m t \<Longrightarrow> st_Result t = None \<Longrightarrow> step_state (advance_step m t now p) = Some u \<Longrightarrow> J m u"
    and J_grace: "J m (fst sp) \<Longrightarrow> J m (fst (expire_grace m now i sp))"
    and J_finish: "J m t \<Longrightarrow> J m (fst (finish m t oc w now p))"
begin

lemma J_loop: "advance_loop n m t now p = Inr (u, q) \<Longrightarrow> J m t \<Longrightarrow> st_Result t = None \<Longrightarrow> J m u"
proof (induction n arbitrary: t p)
  case 0
  then show ?case by simp
next
  case (Suc n)
  have step: "J m t'" if "step_state (advance_step m t now p) = Some t'" for t'
    using J_step [OF Suc.prems(2,3) that] .
  have cont: "st_Result t' = None" if "advance_step m t now p = Continue t' p'" for t' p'
    using that Suc.prems(3) continue_result by metis
  show ?case
  proof (cases "advance_step m t now p")
    case (Halt t' p')
    then show ?thesis using Suc.prems(1) step [of t'] by simp
  next
    case (Fall t' p')
    then have t': "J m t'" using step [of t'] by simp
    show ?thesis
    proof (cases "st_Result t' = None")
      case True
      then have "advance_loop n m t' now p' = Inr (u, q)" using Fall Suc.prems(1) by simp
      then show ?thesis by (rule Suc.IH [OF _ t' True])
    next
      case False
      then show ?thesis using Fall Suc.prems(1) t' by simp
    qed
  next
    case (Continue t' p')
    then have t': "J m t'" using step [of t'] by simp
    have "advance_loop n m t' now p' = Inr (u, q)" using Continue Suc.prems(1) by simp
    then show ?thesis by (rule Suc.IH [OF _ t' cont [OF Continue]])
  next
    case (Fail e)
    then show ?thesis using Suc.prems(1) by simp
  qed
qed

lemma J_graces: "J m t \<Longrightarrow> expire_graces m now (t, p) = (t1, p1) \<Longrightarrow> J m t1 \<and> st_Result t1 = st_Result t"
proof -
  assume t: "J m t" and g: "expire_graces m now (t, p) = (t1, p1)"
  have "J m (fst (fold (expire_grace m now) xs sp))" if "J m (fst sp)" for xs sp
    using that by (induction xs arbitrary: sp) (simp_all add: J_grace)
  from this [of "(t, p)" "all_seats t"] t have "J m (fst (expire_graces m now (t, p)))"
    by (simp add: expire_graces_def)
  moreover have "st_Result (fst (expire_graces m now (t, p))) = st_Result t"
    by (simp add: expire_graces_def fold_result expire_grace_result)
  ultimately show ?thesis by (simp add: g)
qed

lemma J_advance:
  assumes "advance m t now p = Inr (u, q)" "J m t"
  shows "J m u"
  using assms(1)
proof (cases rule: advance_cases)
  case over
  then show ?thesis using assms(2) by simp
next
  case (absent t1 p1 oc w)
  then show ?thesis using J_finish [of m t1 oc w now p1] J_graces [OF assms(2)] by (metis fst_conv)
next
  case (steps t1 p1)
  then show ?thesis using J_loop J_graces [OF assms(2)] by metis
qed

lemma J_set_connected:
  assumes "set_connected_step m seat on now t p = Inr (u, q)" "J m t"
    and rebind: "\<And>t. J m t \<Longrightarrow> J m (rebind m seat on now t)"
  shows "J m u"
proof -
  obtain s1 p1 where "s1 = t \<and> p1 = p \<or> advance m t now p = Inr (s1, p1)"
    and "u = s1 \<and> q = p1 \<or> advance m (rebind m seat on now s1) now p1 = Inr (u, q)"
    using assms(1) by (rule set_connected_cases)
  then show ?thesis using assms(2) J_advance rebind by blast
qed

end

interpretation sound_clock: clock_invariant "sound 0"
  by unfold_locales (use sound_advance_step sound_finish in auto)

lemmas sound_advance = sound_clock.J_advance

subsection \<open>Actions and connections\<close>

lemma sound_redeal: "sound d m t \<Longrightarrow> sound d m (fst (redeal md active n i ks t cards))"
  by (induction md active n i ks t cards rule: redeal.induct) (simp_all add: Let_def lay_out_def deal_back_def)

lemma sound_clear_hands [simp]: "sound d m t \<Longrightarrow> sound d m (clear_hands t)"
  by (simp add: clear_hands_def)

lemma sound_shuffle: "shuffleSpecialty m t now = Inr u \<Longrightarrow> sound d m t \<Longrightarrow> sound d m u"
proof -
  assume u: "shuffleSpecialty m t now = Inr u" and t: "sound d m t"
  define pool where "pool = go_shuffle (tm_rng m (tm_seed m + int (length (st_History t)) * 32452843)) 0 (shuffle_pool t)"
  define sc where "sc = redeal (mode m) (active_seats t) (shuffle_layout (mode m) (active_seats t)) 0 pool
    (set_board_cards [] (bump_revision (clear_hands t))) []"
  have "sound d m (fst sc)" using t by (simp add: sc_def sound_redeal)
  then show "sound d m u"
    using u by (auto simp: shuffleSpecialty_def Let_def pool_def [symmetric] sc_def [symmetric]
        split: if_splits prod.splits)
qed

lemma sound_reveal:
  assumes "sound d m t" "0 \<le> k" "k < mc_OriginalSize (tm_contract m)"
  shows "sound d m (t\<lparr>st_RevealTarget := Some k, st_RevealCards := Some c\<rparr>)"
  using assms by (simp add: sound_defs)

lemma sound_use_reveal:
  assumes "use_reveal m t seat k now = Inr u" "sound d m t" "0 \<le> k"
    and "int (length (st_Players t)) = mc_OriginalSize (tm_contract m)"
  shows "sound d m u"
proof -
  define t1 where "t1 = drop_specialty seat t"
  define t2 where "t2 = t1\<lparr>st_Players := map (\<lambda>v. v\<lparr>tp_RevealUsed := False, tp_RevealUntil := 0\<rparr>) (st_Players t1)\<rparr>"
  have "sound d m t1" using assms(2) by (simp add: t1_def drop_specialty_def)
  then have t2: "sound d m t2" by (simp add: t2_def)
  have k: "k < mc_OriginalSize (tm_contract m)" and u: "u = add_event m (t2\<lparr>st_RevealTarget := Some k,
      st_RevealCards := Some (reveal_of (t2\<lparr>st_RevealTarget := Some k\<rparr>) k)\<rparr>) seat EvReveal RPlayer now (revision t) []
      (\<lambda>e. e\<lparr>e_TargetSeat := Some k\<rparr>)"
    using assms(1,4) by (simp_all add: use_reveal_def Let_def t1_def [symmetric] t2_def split: if_splits)
  show ?thesis unfolding u using sound_reveal [OF t2 assms(3) k] by simp
qed

lemma sound_specialty:
  assumes "specialty m t seat a now = Inr u" "sound d m t"
    and "\<And>k. a_Kind a = ActionReveal \<Longrightarrow> a_TargetSeat a = Some k \<Longrightarrow> 0 \<le> k"
    and "int (length (st_Players t)) = mc_OriginalSize (tm_contract m)"
  shows "sound d m u"
proof -
  have shuffle: "sound d m u" if "use_shuffle m t seat now = Inr u"
    using that assms(2) by (auto simp: use_shuffle_def Let_def split: if_splits elim!: sound_shuffle)
  have turn: "sound d m u" if "turn_card m t seat a now (a_Kind a) = Inr u"
    using that assms(2) sound_use_reveal [OF _ assms(2) assms(3) assms(4)]
    by (cases "a_Kind a") (auto simp: use_pass_def use_free_card_def drop_specialty_def split: option.splits if_splits)
  show ?thesis
    using assms(1,2) shuffle turn by (auto simp: specialty_def view_reveal_def use_revote_def Let_def split: if_splits option.splits)
qed

lemma sound_play_card: "play_card m t seat a c now kd = Inr u \<Longrightarrow> sound d m t \<Longrightarrow> sound d m u"
  by (cases kd) (auto simp: play_new_def play_replace_def play_top_def play_offer_def Let_def
      split: option.splits if_splits)

lemma sound_act_draw:
  assumes "act_draw m t seat a now = Inr u" "sound d m t" "in_range seat (st_Players t)"
  shows "sound d m u"
proof -
  obtain n where n: "a_Count a = Some n" using assms(1) by (auto simp: act_draw_def split: option.splits)
  define ks where "ks = take (nat n) (tp_Reserve (player t seat))"
  define f where "f = (\<lambda>v::text_player. v\<lparr>tp_Hand := tp_Hand v @ ks, tp_Reserve := drop (nat n) (tp_Reserve v),
    tp_FreeDraws := tp_FreeDraws v - min n (tp_FreeDraws (player t seat)),
    tp_Points := tp_Points v - (n - min n (tp_FreeDraws (player t seat))) * pn_DrawPenalty (tm_points m)\<rparr>)"
  have u: "sound d m u = sound d m (upd_player seat f (t\<lparr>st_Copies := fold draw_copy ks (st_Copies t)\<rparr>))"
    using assms(1) by (auto simp: act_draw_def n Let_def ks_def f_def split: if_splits)
  have "draws_ok (upd_player seat f t)"
  proof (rule draws_ok_at)
    show "draws_ok t" using assms(2) by (simp add: sound_def)
    show "0 \<le> tp_FreeDraws (f (player t seat))" by (simp add: f_def)
  qed
  then show ?thesis unfolding u using assms(2) by (simp add: sound_defs)
qed

lemma sound_act:
  assumes "act m t seat a now p = Inr (u, q)" "sound 0 m t" "in_range seat (st_Players t)"
    and "\<And>k. a_Kind a = ActionReveal \<Longrightarrow> a_TargetSeat a = Some k \<Longrightarrow> 0 \<le> k"
    and "int (length (st_Players t)) = mc_OriginalSize (tm_contract m)"
  shows "sound 0 m u"
  using assms(1)
proof (cases rule: act_cases)
  case Specialty
  then show ?thesis using sound_specialty assms(2,4,5) by blast
next
  case Ready
  then show ?thesis using assms(2) by (auto simp: act_ready_def split: if_splits elim!: sound_advance)
next
  case Draw
  then show ?thesis using sound_act_draw assms(2,3) by blast
next
  case Card
  then obtain c t1 where "play_card m t seat a c now (a_Kind a) = Inr t1"
    and u: "u = (if a_Kind a = ActionOffer then t1 else nextTurn m t1 now)"
    by (auto simp: act_card_def split: if_split_asm sum.split_asm)
  then have "sound 0 m t1" using sound_play_card assms(2) by blast
  then show ?thesis by (simp add: u)
qed (use assms(2) in \<open>auto simp: act_resolve_offer_def act_vote_def act_chat_def poke_def Let_def
      split: option.splits if_splits\<close>)

lemma sound_rebind [simp]: "sound d m t \<Longrightarrow> sound d m (rebind m seat on now t)"
  by (simp add: rebind_def flip_connected_def drop_votes_def Let_def)

lemma sound_candidate:
  assumes "candidate m s t" "kept m s" "sound 0 m s"
  shows "sound 0 m t"
  using assms(1)
proof cases
  case (acted seat a r now p t' q)
  have len: "int (length (st_Players s)) = mc_OriginalSize (tm_contract m)"
    using assms(2) by (simp add: kept_def stocked_def seats_ok_def)
  have v: "variant_ok (tm_lang m) (tm_limits m) (r\<lparr>r_Action := a\<rparr>) (a_Kind a)"
    using request_valid_variant [OF acted(4)] by simp
  have "0 \<le> k" if "a_Kind a = ActionReveal" "a_TargetSeat a = Some k" for k
    using that v by (auto simp: ptr_seat_Some)
  then have "sound 0 m t'"
    using sound_act [OF acted(7) assms(3)] acted(2,3) len by (simp add: in_range_def)
  then show ?thesis by (simp add: acted(1))
next
  case (advanced now p q)
  then show ?thesis using sound_advance assms(3) by blast
next
  case (connected seat on now p q)
  then show ?thesis using sound_clock.J_set_connected assms(3) sound_rebind by blast
next
  case (closed now p)
  then show ?thesis using sound_finish [OF assms(3) disjI2] by simp
next
  case (granted seat kd)
  then show ?thesis using assms(3) by simp
qed

lemma same_setup_sound:
  assumes "same_setup c m"
  shows "sound d c s = sound d m s"
  using assms by (rule same_setup_fields) (simp add: sound_defs)

interpretation soundness: step_contract "\<lambda>m s t. kept m s \<and> sound 0 m s \<longrightarrow> kept m t \<and> sound 0 m t"
proof unfold_locales
  show "(\<lambda>s t. kept c s \<and> sound 0 c s \<longrightarrow> kept c t \<and> sound 0 c t) = (\<lambda>s t. kept m s \<and> sound 0 m s \<longrightarrow> kept m t \<and> sound 0 m t)"
    if "same_setup c m" for c m
    by (simp add: same_setup_kept [OF that] same_setup_sound [OF that])
  show "kept m s \<and> sound 0 m s \<longrightarrow> kept m t \<and> sound 0 m t" if "candidate m s t" "kept m s" "seeds_registered m" for m s t
    using that kept_candidate sound_candidate by blast
qed simp_all

end
