(* ===== verification/Liveness.thy ===== *)
theory Liveness
  imports Soundness
begin

section \<open>The clock always comes to rest\<close>

text \<open>
  \<open>advance\<close> makes at most ten transitions: a phase it enters has its deadline ahead, unless no
  connected seat is left to wait for, and then every ballot is a miss and the team that must be
  caught runs out of ballots after the second one. So the bound of twelve in the source is never
  reached, whatever the clocks are.
\<close>

subsection \<open>What waits for what\<close>

text \<open>
  The phases that wait for a seat have one: a turn is running in \<open>PhasePlay\<close> and an offer is
  pending in \<open>PhaseTradeResponse\<close>. And there is at most one ballot more than donowers to catch.
\<close>

definition margin :: "text_state \<Rightarrow> bool" where
  "margin s \<longleftrightarrow> 0 \<le> st_Turn s \<and> st_RemainingVotes s \<le> uncaught s + 1"

definition poised :: "text_state \<Rightarrow> bool" where
  "poised s \<longleftrightarrow> margin s \<and> (st_Phase s = PhasePlay \<longrightarrow> 1 \<le> st_Turn s)
     \<and> (st_Phase s = PhaseTradeResponse \<longrightarrow> st_Offer s \<noteq> None)"

lemma uncaught_players: "st_Players t = st_Players s \<Longrightarrow> uncaught t = uncaught s"
  by (simp add: uncaught_def)

lemma filter_length_map: "length (filter P xs) = length (filter (\<lambda>b. b) (map P xs))"
  by (simp add: filter_map comp_def)

lemma uncaught_upd:
  assumes "\<And>v. tp_Role (f v) = tp_Role v" "\<And>v. tp_Eliminated (f v) = tp_Eliminated v"
  shows "uncaught (upd_player i f t) = uncaught t"
proof -
  let ?b = "\<lambda>v. \<not> tp_Eliminated v \<and> tp_Role v = Donower"
  have "map ?b (st_Players (upd_player i f t)) = map ?b (st_Players t)"
    using map_upd_same [of ?b f i "st_Players t"] by (simp add: assms upd_player_def)
  then show ?thesis by (simp add: uncaught_def filter_length_map [of ?b])
qed

lemma uncaught_map:
  assumes "\<And>v. tp_Role (f v) = tp_Role v" "\<And>v. tp_Eliminated (f v) = tp_Eliminated v"
  shows "uncaught (t\<lparr>st_Players := map f (st_Players t)\<rparr>) = uncaught t"
  by (simp add: uncaught_def filter_map comp_def assms)

lemma margin_fields [simp]:
  "margin (put_copy k c t) = margin t" "margin (set_board_cards cs t) = margin t"
  "margin (add_event m t i kd w now b ds g) = margin t" "margin (bump_revision t) = margin t"
  "margin (t\<lparr>st_ResultRevealAt := x0\<rparr>) = margin t"
  "margin (t\<lparr>st_ResultRevealed := x1\<rparr>) = margin t"
  "margin (t\<lparr>st_Votes := x2\<rparr>) = margin t" "margin (t\<lparr>st_Ready := x3\<rparr>) = margin t"
  "margin (t\<lparr>st_Pokes := x4\<rparr>) = margin t" "margin (t\<lparr>st_Requests := x5\<rparr>) = margin t"
  "margin (t\<lparr>st_Deadline := x6\<rparr>) = margin t"
  "margin (t\<lparr>st_Copies := x7\<rparr>) = margin t" "margin (t\<lparr>st_Result := x8\<rparr>) = margin t"
  "margin (t\<lparr>st_Candidates := x9\<rparr>) = margin t"
  "margin (t\<lparr>st_BallotKind := x10\<rparr>) = margin t"
  "margin (t\<lparr>st_BallotResult := x11\<rparr>) = margin t"
  "margin (t\<lparr>st_ShuffleUsed := x12\<rparr>) = margin t"
  "margin (t\<lparr>st_RevoteUsed := x13\<rparr>) = margin t"
  "margin (t\<lparr>st_Round := x14\<rparr>) = margin t"
  "margin (t\<lparr>st_RevealTarget := y1, st_RevealCards := y2\<rparr>) = margin t"
  "margin (t\<lparr>st_RevealTarget := y1\<rparr>) = margin t"
  "margin (t\<lparr>st_Offer := z\<rparr>) = margin t" "margin (set_phase m t ph now n) = margin t"
  "margin (t\<lparr>st_Order := y3\<rparr>) = margin t"
  by (simp_all add: margin_def uncaught_def set_board_cards_def)

lemma margin_turn [simp]: "margin t \<Longrightarrow> margin (t\<lparr>st_Turn := 0\<rparr>)"
  by (simp add: margin_def uncaught_def)

lemma margin_upd [simp]:
  "(\<And>v. tp_Role (f v) = tp_Role v) \<Longrightarrow> (\<And>v. tp_Eliminated (f v) = tp_Eliminated v) \<Longrightarrow> margin (upd_player i f t) = margin t"
  using uncaught_upd [of f i t] by (simp add: margin_def)

lemma margin_map [simp]:
  "(\<And>v. tp_Role (f v) = tp_Role v) \<Longrightarrow> (\<And>v. tp_Eliminated (f v) = tp_Eliminated v) \<Longrightarrow>
   margin (t\<lparr>st_Players := map f (st_Players t)\<rparr>) = margin t"
  using uncaught_map [of f t] by (simp add: margin_def)

lemma poised_fields [simp]:
  "poised (put_copy k c t) = poised t" "poised (set_board_cards cs t) = poised t"
  "poised (add_event m t i kd w now b ds g) = poised t" "poised (bump_revision t) = poised t"
  "poised (t\<lparr>st_ResultRevealAt := x0\<rparr>) = poised t"
  "poised (t\<lparr>st_ResultRevealed := x1\<rparr>) = poised t"
  "poised (t\<lparr>st_Votes := x2\<rparr>) = poised t" "poised (t\<lparr>st_Ready := x3\<rparr>) = poised t"
  "poised (t\<lparr>st_Pokes := x4\<rparr>) = poised t" "poised (t\<lparr>st_Requests := x5\<rparr>) = poised t"
  "poised (t\<lparr>st_Deadline := x6\<rparr>) = poised t"
  "poised (t\<lparr>st_Copies := x7\<rparr>) = poised t" "poised (t\<lparr>st_Result := x8\<rparr>) = poised t"
  "poised (t\<lparr>st_Candidates := x9\<rparr>) = poised t"
  "poised (t\<lparr>st_BallotKind := x10\<rparr>) = poised t"
  "poised (t\<lparr>st_BallotResult := x11\<rparr>) = poised t"
  "poised (t\<lparr>st_ShuffleUsed := x12\<rparr>) = poised t"
  "poised (t\<lparr>st_RevoteUsed := x13\<rparr>) = poised t"
  "poised (t\<lparr>st_Round := x14\<rparr>) = poised t"
  "poised (t\<lparr>st_RevealTarget := y1, st_RevealCards := y2\<rparr>) = poised t"
  "poised (t\<lparr>st_RevealTarget := y1\<rparr>) = poised t"
  by (simp_all add: poised_def)

lemma poised_upd [simp]:
  "(\<And>v. tp_Role (f v) = tp_Role v) \<Longrightarrow> (\<And>v. tp_Eliminated (f v) = tp_Eliminated v) \<Longrightarrow> poised (upd_player i f t) = poised t"
  by (simp add: poised_def)

lemma poised_map [simp]:
  "(\<And>v. tp_Role (f v) = tp_Role v) \<Longrightarrow> (\<And>v. tp_Eliminated (f v) = tp_Eliminated v) \<Longrightarrow>
   poised (t\<lparr>st_Players := map f (st_Players t)\<rparr>) = poised t"
  by (simp add: poised_def)

lemma poised_cards [simp]:
  "margin (spend t seat c j) = margin t" "margin (discard t i k) = margin t"
  "poised (spend t seat c j) = poised t" "poised (discard t i k) = poised t"
  by (simp_all add: spend_def discard_def Let_def)

lemma poised_margin [simp]: "poised t \<Longrightarrow> margin t"
  by (simp add: poised_def)

lemma poised_phase [simp]:
  "ph \<noteq> PhaseTradeResponse \<Longrightarrow> ph \<noteq> PhasePlay \<Longrightarrow> poised (set_phase m t ph now n) = margin t"
  "ph \<noteq> PhaseTradeResponse \<Longrightarrow> ph \<noteq> PhasePlay \<Longrightarrow> margin t \<Longrightarrow> poised ((set_phase m t ph now n)\<lparr>st_Turn := 0\<rparr>)"
  "poised (set_phase m (t\<lparr>st_Offer := Some x\<rparr>) PhaseTradeResponse now n) = margin t"
  by (simp_all add: poised_def)

lemma uncaught_pass: "uncaught (pass_current m s why now) = uncaught s"
proof -
  have "uncaught (discard s i k) = uncaught s" for i k
    by (simp add: discard_def Let_def uncaught_upd uncaught_players [of "put_copy _ _ _"])
  then show ?thesis by (simp add: pass_current_def Let_def uncaught_players [of "add_event _ _ _ _ _ _ _ _ _"])
qed

interpretation ballot_turns: turn_relation
  "\<lambda>m s t. uncaught t = uncaught s \<and> st_RemainingVotes t = st_RemainingVotes s \<and> st_Offer t = st_Offer s"
proof unfold_locales
  show "uncaught (pass_current m s why now) = uncaught s
    \<and> st_RemainingVotes (pass_current m s why now) = st_RemainingVotes s \<and> st_Offer (pass_current m s why now) = st_Offer s"
    for m s why now
    by (simp add: uncaught_pass)
qed (simp_all add: uncaught_def)

definition resting :: "text_state \<Rightarrow> bool" where
  "resting t \<longleftrightarrow> st_Phase t = PhasePlay \<and> 1 \<le> st_Turn t \<or> st_Phase t = PhaseDiscussion \<and> 0 \<le> st_Turn t"

lemma turn_rests:
  "0 \<le> st_Turn s \<Longrightarrow> resting (nextTurn m s now)"
  "0 \<le> st_Turn s \<Longrightarrow> autoPass m s why now = s \<or> resting (autoPass m s why now)"
proof (induction m s now and m s why now rule: nextTurn_autoPass.induct)
  case (1 m s now)
  define s1 where "s1 = s\<lparr>st_Turn := st_Turn s + 1\<rparr>"
  define s2 where "s2 = set_phase m s1 PhasePlay now (ti_PlayTurn (tm_timers m))"
  have s2: "resting s2" "0 \<le> st_Turn s2" using "1.prems" by (simp_all add: s2_def s1_def resting_def)
  show ?case
  proof (cases "st_Turn s1 > int (length (st_Order s1))")
    case True
    then show ?thesis by (subst nextTurn.simps) (simp add: s1_def Let_def resting_def)
  next
    case False
    consider (d) "\<not> tp_Connected (player s2 (current s2))"
      | (n) "tp_Connected (player s2 (current s2))" "mode m = ModeBadBargains" "\<not> has_recipient s2 (current s2)"
      | (s) "tp_Connected (player s2 (current s2))" "\<not> (mode m = ModeBadBargains \<and> \<not> has_recipient s2 (current s2))"
      by blast
    then show ?thesis
    proof cases
      case d
      then have "nextTurn m s now = autoPass m s2 RDisconnect now"
        using False by (subst nextTurn.simps) (simp add: s1_def s2_def Let_def)
      then show ?thesis using "1.IH"(1) [OF s1_def _ s2_def refl] d False s2 by auto
    next
      case n
      then have "nextTurn m s now = autoPass m s2 RNoRecipient now"
        using False by (subst nextTurn.simps) (simp add: s1_def s2_def Let_def)
      then show ?thesis using "1.IH"(2) [OF s1_def _ s2_def refl] n False s2 by auto
    next
      case s
      then have "nextTurn m s now = s2" using False by (subst nextTurn.simps) (auto simp: s1_def s2_def Let_def)
      then show ?thesis using s2 by simp
    qed
  qed
next
  case (2 m s why now)
  then show ?case by (auto simp: autoPass.simps)
qed

lemma poised_nextTurn [simp]: "margin t \<Longrightarrow> poised (nextTurn m t now)"
  using turn_rests(1) [of t m now] ballot_turns.R_nextTurn [of m t now]
  by (auto simp: margin_def poised_def resting_def)

lemma poised_autoPass [simp]: "poised t \<Longrightarrow> poised (autoPass m t why now)"
  using turn_rests(2) [of t m why now] ballot_turns.R_autoPass [of m t why now]
  by (auto simp: margin_def poised_def resting_def)

lemma margin_settle [simp]: "margin (settle_offer m t po seat res why now) = margin t"
  by (simp add: settle_offer_def Let_def)

lemma margin_resolveOffer [simp]: "margin t \<Longrightarrow> margin (resolveOffer m t seat res why now)"
  by (simp add: resolveOffer_def Let_def split: option.split)

lemma poised_resolveOffer [simp]: "poised t \<Longrightarrow> why \<noteq> RForcedTransition \<Longrightarrow> poised (resolveOffer m t seat res why now)"
  by (simp add: resolveOffer_def Let_def split: option.split)

lemma margin_open_round: "margin t \<Longrightarrow> poised (open_round m t now)"
proof -
  assume t: "margin t"
  have "uncaught (open_round m t now) = uncaught t"
    by (simp add: open_round_def Let_def uncaught_def retire_board_def filter_map comp_def clear_round_player_def
        set_board_cards_def)
  then show ?thesis using t
    by (simp add: poised_def margin_def) (simp add: open_round_def Let_def retire_board_def set_board_cards_def)
qed

lemma seed_loop_poised: "seed_loop md texts em t cs = Inr (u, em') \<Longrightarrow> poised u = poised t"
  by (induction md texts em t cs rule: seed_loop.induct) (auto split: if_splits)

lemma poised_beginRound: "beginRound m t now = Inr u \<Longrightarrow> margin t \<Longrightarrow> poised u"
  using margin_open_round [of t m now] seed_loop_poised
  by (auto simp: beginRound_def Let_def split: if_split_asm sum.split_asm prod.split_asm)

subsection \<open>Ballots, the clock and the end\<close>

lemma margin_scores [simp]:
  "margin (fst (score_vote m now seat sp)) = margin (fst sp)"
  "margin (fst (score_survival m now tied seat sp)) = margin (fst sp)"
  by (simp_all add: score_vote_def score_survival_def Let_def split: option.splits)

lemma poised_grace [simp]: "poised (fst (expire_grace m now seat sp)) = poised (fst sp)"
  by (simp add: expire_grace_def Let_def)

lemma margin_fold:
  assumes "\<And>x sp. margin (fst (f x sp)) = margin (fst sp)"
  shows "margin (fst (fold f xs sp)) = margin (fst sp)"
  by (induction xs arbitrary: sp) (simp_all add: assms)

lemma poised_resolveVote [simp]: "margin t \<Longrightarrow> poised (fst (resolveVote m t now p))"
  by (simp add: resolveVote_def open_runoff_def close_ballot_def recordBallot_def Let_def margin_fold)

lemma poised_finish: "st_Result t = None \<and> margin t \<or> poised t \<Longrightarrow> poised (fst (finish m t oc w now p))"
  by (auto simp: finish_def Let_def)

lemma filter_update: "length (filter P xs) \<le> length (filter P (xs[i := x])) + 1"
  by (induction xs arbitrary: i) (auto split: nat.split)

lemma margin_vote_spent: "margin t \<Longrightarrow> margin (vote_spent t)"
proof -
  assume t: "margin t"
  have "uncaught t \<le> uncaught (upd_player k f t) + 1" for k f
    using filter_update [of "\<lambda>v. \<not> tp_Eliminated v \<and> tp_Role v = Donower" "st_Players t" "nat k"
      "f (st_Players t ! nat k)"]
    by (simp add: uncaught_def upd_player_def upd_def)
  then have "uncaught t \<le> uncaught (eliminate_voted t) + 1" "st_RemainingVotes (eliminate_voted t) = st_RemainingVotes t"
    "st_Turn (eliminate_voted t) = st_Turn t"
    by (auto simp: eliminate_voted_def split: option.split)
  then show ?thesis using t by (simp add: margin_def uncaught_def)
qed

lemma poised_finalizeVote:
  assumes "finalizeVote m t now p = Inr (u, q)" "margin t" "st_Result t = None"
  shows "poised u"
proof -
  have v: "margin (vote_spent t)" "st_Result (vote_spent t) = None"
    using margin_vote_spent [OF assms(2)] assms(3) vote_spent_result by simp_all
  note fin = poised_finish [OF disjI1 [OF conjI [OF v(2,1)]]]
  from assms(1) show ?thesis
  proof (cases rule: finalizeVote_cases)
    case caught
    then show ?thesis using fin by (metis fst_conv)
  next
    case escaped
    then show ?thesis using fin by (metis fst_conv)
  next
    case begun
    then show ?thesis using v(1) by (intro poised_beginRound [OF begun(1)]) simp
  qed
qed

lemma poised_advance_step:
  assumes "step_state (advance_step m t now p) = Some u" "poised t" "st_Result t = None"
  shows "poised u"
proof (cases "st_Phase t = PhaseResult")
  case True
  define t1 where "t1 = (if unix_milli now \<ge> st_ResultRevealAt t then t\<lparr>st_ResultRevealed := True\<rparr> else t)"
  have t1: "poised t1" "st_Result t1 = None" using assms(2,3) by (simp_all add: t1_def)
  show ?thesis
    using assms t1 True poised_finalizeVote [OF _ poised_margin [OF t1(1)] t1(2)]
    by (auto simp: advance_step_def Let_def t1_def [symmetric] split: if_splits sum.splits)
next
  case False
  obtain v1 v2 where v: "resolveVote m t now p = (v1, v2)" by fastforce
  have v1: "poised v1" using poised_resolveVote [OF poised_margin [OF assms(2)], of m now p] by (simp add: v)
  show ?thesis
    using assms v v1 False
    by (cases "st_Phase t") (auto simp: advance_step_def start_knowoff_def split: if_splits)
qed

interpretation poised_clock: clock_invariant "\<lambda>m. poised"
  by unfold_locales (use poised_advance_step poised_finish in auto)

subsection \<open>Actions and connections\<close>

lemma margin_redeal: "margin (fst (redeal md active n i ks t cards)) = margin t"
  by (induction md active n i ks t cards rule: redeal.induct) (simp_all add: Let_def lay_out_def deal_back_def)

lemma poised_shuffle: "shuffleSpecialty m t now = Inr u \<Longrightarrow> margin t \<Longrightarrow> poised u"
proof -
  assume u: "shuffleSpecialty m t now = Inr u" and t: "margin t"
  define pool where "pool = go_shuffle (tm_rng m (tm_seed m + int (length (st_History t)) * 32452843)) 0 (shuffle_pool t)"
  define sc where "sc = redeal (mode m) (active_seats t) (shuffle_layout (mode m) (active_seats t)) 0 pool
    (set_board_cards [] (bump_revision (clear_hands t))) []"
  have "margin (fst sc)" using t by (simp add: sc_def margin_redeal clear_hands_def)
  then show ?thesis
    using u by (auto simp: shuffleSpecialty_def Let_def pool_def [symmetric] sc_def [symmetric] split: if_splits prod.splits)
qed

lemma poised_use_reveal: "use_reveal m t seat k now = Inr u \<Longrightarrow> poised t \<Longrightarrow> poised u"
proof -
  assume u: "use_reveal m t seat k now = Inr u" and t: "poised t"
  define t1 where "t1 = drop_specialty seat t"
  define t2 where "t2 = t1\<lparr>st_Players := map (\<lambda>v. v\<lparr>tp_RevealUsed := False, tp_RevealUntil := 0\<rparr>) (st_Players t1)\<rparr>"
  have "poised t1" using t by (simp add: t1_def drop_specialty_def)
  then have "poised t2" by (simp add: t2_def)
  then show "poised u"
    using u by (auto simp: use_reveal_def Let_def t1_def [symmetric] t2_def [symmetric] split: if_splits)
qed

lemma poised_specialty: "specialty m t seat a now = Inr u \<Longrightarrow> poised t \<Longrightarrow> poised u"
proof -
  assume u: "specialty m t seat a now = Inr u" and t: "poised t"
  have shuffle: "poised u" if "use_shuffle m t seat now = Inr u"
    using that t by (auto simp: use_shuffle_def Let_def poised_shuffle split: if_splits)
  have turn: "poised u" if "turn_card m t seat a now (a_Kind a) = Inr u"
    using that t by (cases "a_Kind a")
      (auto simp: use_pass_def use_free_card_def drop_specialty_def Let_def split: option.splits if_splits
        elim!: poised_use_reveal)
  show "poised u"
    using u t shuffle turn
    by (auto simp: specialty_def view_reveal_def use_revote_def drop_specialty_def Let_def split: if_splits option.splits)
qed

lemma poised_play_card: "play_card m t seat a c now kd = Inr u \<Longrightarrow> poised t \<Longrightarrow> margin u \<and> (kd = ActionOffer \<longrightarrow> poised u)"
  by (cases kd) (auto simp: play_new_def play_replace_def play_top_def play_offer_def Let_def
      split: option.splits if_splits)

lemma poised_act:
  assumes "act m t seat a now p = Inr (u, q)" "poised t"
  shows "poised u"
  using assms(1)
proof (cases rule: act_cases)
  case Specialty
  then show ?thesis using poised_specialty assms(2) by blast
next
  case Ready
  then show ?thesis using assms(2) poised_clock.J_advance by (auto simp: act_ready_def split: if_splits)
next
  case Card
  then obtain c t1 where "play_card m t seat a c now (a_Kind a) = Inr t1"
    and u: "u = (if a_Kind a = ActionOffer then t1 else nextTurn m t1 now)"
    by (auto simp: act_card_def split: if_split_asm sum.split_asm)
  then show ?thesis using poised_play_card assms(2) by auto
qed (use assms(2) in \<open>auto simp: act_resolve_offer_def act_vote_def act_chat_def act_draw_def poke_def Let_def
      split: option.splits if_splits\<close>)

lemma poised_rebind [simp]: "poised t \<Longrightarrow> poised (rebind m seat on now t)"
  by (simp add: rebind_def flip_connected_def drop_votes_def Let_def)

lemma poised_candidate:
  assumes "candidate m s t" "poised s"
  shows "poised t"
  using assms(1)
proof cases
  case (acted seat a r now p t' q)
  then show ?thesis using poised_act [OF acted(7) assms(2)] by simp
next
  case (advanced now p q)
  then show ?thesis using poised_clock.J_advance assms(2) by blast
next
  case (connected seat on now p q)
  then show ?thesis using poised_clock.J_set_connected assms(2) poised_rebind by blast
next
  case (closed now p)
  then show ?thesis using assms(2) by (simp add: poised_finish)
next
  case (granted seat kd)
  then show ?thesis using assms(2) by simp
qed

interpretation poised_runs: step_contract "\<lambda>m s t. poised s \<longrightarrow> poised t"
  by unfold_locales (use poised_candidate in auto)

section \<open>Rounds that can be dealt\<close>

text \<open>
  The seed cards of a match are \<open>loaded\<close> when every round has as many as its mode wants, with
  pairwise different texts; then a round never fails to begin.
\<close>

definition loaded :: "text_match \<Rightarrow> bool" where
  "loaded m \<longleftrightarrow> (\<forall>seeds\<in>set (tm_seeds m). int (length seeds) = seed_want (mode m) (mc_OriginalSize (tm_contract m))
     \<and> distinct (map (\<lambda>c. tc_Text (cd_Content c)) seeds))"

lemma seed_loop_total:
  "distinct (map (\<lambda>c. tc_Text (cd_Content c)) (map snd cs)) \<Longrightarrow>
   set texts \<inter> set (map (\<lambda>c. tc_Text (cd_Content c)) (map snd cs)) = {} \<Longrightarrow>
   \<exists>u em'. seed_loop md texts em t cs = Inr (u, em')"
  by (induction md texts em t cs rule: seed_loop.induct) auto

lemma seed_loop_keeps:
  "seed_loop md texts em t cs = Inr (u, em') \<Longrightarrow> st_Phase u = st_Phase t \<and> st_Result u = st_Result t
    \<and> uncaught u = uncaught t \<and> st_RemainingVotes u = st_RemainingVotes t"
  by (induction md texts em t cs rule: seed_loop.induct)
    (auto simp: uncaught_def set_board_cards_def put_copy_def split: if_splits)

lemma beginRound_frame:
  assumes "beginRound m t now = Inr u"
  shows "st_Phase u = PhaseRoundStart" "st_Result u = st_Result t" "uncaught u = uncaught t"
    "st_RemainingVotes u = st_RemainingVotes t"
proof -
  have o': "st_Phase (bump_revision (open_round m t now)) = PhaseRoundStart"
    "st_Result (bump_revision (open_round m t now)) = st_Result t"
    "uncaught (bump_revision (open_round m t now)) = uncaught t"
    "st_RemainingVotes (bump_revision (open_round m t now)) = st_RemainingVotes t"
    by (simp_all add: open_round_def Let_def uncaught_def retire_board_def filter_map comp_def clear_round_player_def
        set_board_cards_def)
  obtain cs s2 em where "seed_loop (mode m) [] [] (bump_revision (open_round m t now)) cs = Inr (s2, em)"
    and u: "u = (if em = [] then s2
      else add_event m s2 (-1) EvSeed RSeed now (revision (open_round m t now)) em (\<lambda>e. e))"
    using assms by (auto simp: beginRound_def Let_def split: if_split_asm sum.split_asm prod.split_asm)
  note l = seed_loop_keeps [OF this(1)]
  show "st_Phase u = PhaseRoundStart" "st_Result u = st_Result t" "uncaught u = uncaught t"
    "st_RemainingVotes u = st_RemainingVotes t"
    using l o' by (simp_all add: u uncaught_def)
qed

lemma beginRound_total:
  assumes "loaded m" "1 \<le> st_Round t" "st_Round t \<le> int (length (tm_seeds m))"
  obtains u where "beginRound m t now = Inr u"
proof -
  define seeds where "seeds = Prelude.at (tm_seeds m) (st_Round t - 1)"
  have r: "in_range (st_Round t - 1) (tm_seeds m)" using assms(2,3) by (simp add: in_range_def)
  then have "seeds \<in> set (tm_seeds m)" by (auto simp: seeds_def in_range_def Prelude.at_def intro!: nth_mem)
  then have l: "int (length seeds) = seed_want (mode m) (mc_OriginalSize (tm_contract m))"
    "distinct (map (\<lambda>c. tc_Text (cd_Content c)) seeds)" using assms(1) by (auto simp: loaded_def)
  then obtain s2 em where "seed_loop (mode m) [] [] (bump_revision (open_round m t now)) (indexed seeds) = Inr (s2, em)"
    using seed_loop_total [of "indexed seeds" "[]" "mode m" "[]" "bump_revision (open_round m t now)"] by auto
  then show thesis using that r l by (simp add: beginRound_def seeds_def [symmetric] Let_def)
qed

section \<open>The number of transitions\<close>

definition halts :: "nat \<Rightarrow> text_match \<Rightarrow> gotime \<Rightarrow> text_state \<Rightarrow> bool" where
  "halts n m now s \<longleftrightarrow> (\<forall>p. \<exists>r. advance_loop n m s now p = Inr r)"

definition good :: "text_match \<Rightarrow> text_state \<Rightarrow> bool" where
  "good m s \<longleftrightarrow> sound 0 m s \<and> poised s \<and> st_Result s = None"

lemma halts_step:
  assumes "\<And>p. (\<exists>u q. advance_step m s now p = Halt u q)
    \<or> (\<exists>u q. advance_step m s now p = Fall u q \<and> (st_Result u = None \<longrightarrow> halts n m now u))
    \<or> (\<exists>u q. advance_step m s now p = Continue u q \<and> halts n m now u)"
  shows "halts (Suc n) m now s"
proof -
  have "\<exists>r. advance_loop (Suc n) m s now p = Inr r" for p
    using assms [of p] by (auto simp: halts_def)
  then show ?thesis by (simp add: halts_def)
qed

lemma loop_more: "advance_loop n m s now p = Inr r \<Longrightarrow> advance_loop (Suc n) m s now p = Inr r"
proof (induction n arbitrary: s p)
  case 0
  then show ?case by simp
next
  case (Suc n)
  then show ?case
    by (cases "advance_step m s now p") (auto simp del: advance_loop.simps simp: advance_loop.simps(2) split: if_splits)
qed

lemma halts_mono: "halts n m now s \<Longrightarrow> n \<le> k \<Longrightarrow> halts k m now s"
proof -
  assume n: "halts n m now s" and k: "n \<le> k"
  have "halts j m now s \<Longrightarrow> halts (Suc j) m now s" for j
    using loop_more unfolding halts_def by metis
  with n have "halts (n + j) m now s" for j by (induction j) simp_all
  then show ?thesis using k by (metis le_add_diff_inverse)
qed

lemma good_step:
  assumes "step_state (advance_step m t now p) = Some u" "good m t" "st_Result u = None"
  shows "good m u"
  using assms sound_advance_step poised_advance_step by (auto simp: good_def)

subsection \<open>Where a transition leads\<close>

lemma fold_frame:
  assumes "\<And>x sp. g (fst (f x sp)) = g (fst sp)"
  shows "g (fst (fold f xs sp)) = g (fst sp)"
  by (induction xs arbitrary: sp) (simp_all add: assms)

definition ballot_frame :: "text_state \<Rightarrow> text_result option \<times> int \<times> int \<times> ballot_result option" where
  "ballot_frame s = (st_Result s, uncaught s, st_RemainingVotes s, st_BallotResult s)"

lemma ballot_frame_upd: "(\<And>v. tp_Role (f v) = tp_Role v) \<Longrightarrow> (\<And>v. tp_Eliminated (f v) = tp_Eliminated v) \<Longrightarrow>
    ballot_frame (upd_player i f s) = ballot_frame s"
  by (simp add: ballot_frame_def uncaught_upd)

lemma ballot_frame_scores:
  "ballot_frame (fst (score_vote m now seat sp)) = ballot_frame (fst sp)"
  "ballot_frame (fst (score_survival m now tied seat sp)) = ballot_frame (fst sp)"
  by (simp_all add: score_vote_def score_survival_def Let_def ballot_frame_upd split: option.splits)

lemma resolveVote_frame:
  assumes "resolveVote m t now p = (u, q)"
  shows "st_Result u = st_Result t" "uncaught u = uncaught t" "st_RemainingVotes u = st_RemainingVotes t"
    "st_Phase u = PhaseRunoff \<and> st_Votes u = [] \<and> st_Phase t = PhaseKnowoff \<and> 1 < length (tied_seats t)
      \<or> st_Phase u = PhaseResult \<and> st_BallotResult u = Some (final_result t (tied_seats t))"
proof -
  have "(st_Result u = st_Result t \<and> uncaught u = uncaught t \<and> st_RemainingVotes u = st_RemainingVotes t)
    \<and> (st_Phase u = PhaseRunoff \<and> st_Votes u = [] \<and> st_Phase t = PhaseKnowoff \<and> 1 < length (tied_seats t)
      \<or> st_Phase u = PhaseResult \<and> st_BallotResult u = Some (final_result t (tied_seats t)))"
  proof (cases "1 < length (tied_seats t) \<and> st_Phase t = PhaseKnowoff")
    case True
    then have "u = open_runoff m t (tied_seats t) now" using assms by (simp add: resolveVote_def Let_def)
    then show ?thesis using True by (simp add: open_runoff_def recordBallot_def uncaught_def)
  next
    case False
    define r where "r = final_result t (tied_seats t)"
    define s1 where "s1 = recordBallot m (t\<lparr>st_BallotResult := Some r\<rparr>) r now"
    define sp3 where "sp3 = fold (score_survival m now (tied_seats t)) (all_seats s1) (fold (score_vote m now) (all_seats s1) (s1, p))"
    have f: "ballot_frame (fst sp3) = ballot_frame s1"
      by (simp add: sp3_def fold_frame [where g = ballot_frame] ballot_frame_scores)
    have s1: "ballot_frame s1 = (st_Result t, uncaught t, st_RemainingVotes t, Some r)"
      by (simp add: s1_def recordBallot_def ballot_frame_def uncaught_def)
    have u: "u = (set_phase m (fst sp3) PhaseResult now (ti_VoteResultWindow (tm_timers m)))
        \<lparr>st_ResultRevealAt := unix_milli (add_seconds now (ti_VoteResultFalling (tm_timers m)))\<rparr>"
      using assms False by (auto simp: resolveVote_def close_ballot_def Let_def r_def s1_def sp3_def)
    show ?thesis using f unfolding s1 u by (simp add: ballot_frame_def r_def uncaught_def)
  qed
  then show "st_Result u = st_Result t" "uncaught u = uncaught t" "st_RemainingVotes u = st_RemainingVotes t"
    "st_Phase u = PhaseRunoff \<and> st_Votes u = [] \<and> st_Phase t = PhaseKnowoff \<and> 1 < length (tied_seats t)
      \<or> st_Phase u = PhaseResult \<and> st_BallotResult u = Some (final_result t (tied_seats t))" by blast+
qed

lemma no_votes: "st_Votes t = [] \<Longrightarrow> tied_seats t = []"
  by (simp add: tied_seats_def tally_votes_def)

definition slack :: "text_state \<Rightarrow> int" where
  "slack s = st_RemainingVotes s - uncaught s"

definition missed :: "text_state \<Rightarrow> bool" where
  "missed s \<longleftrightarrow> st_Phase s = PhaseResult \<and> (\<forall>r. st_BallotResult s = Some r \<longrightarrow> br_Seat r = None)"

lemma finish_result: "st_Result (fst (finish m t oc w now p)) \<noteq> None"
  by (auto simp: finish_def Let_def)

lemma eliminate_result [simp]: "st_Result (eliminate_voted t) = st_Result t"
  by (simp add: eliminate_voted_def split: option.split)

text \<open>Applying a result ends the match or begins the next round, which is there.\<close>

lemma finalizeVote_leads:
  assumes "good m t" "loaded m"
  obtains u q where "finalizeVote m t now p = Inr (u, q)" "st_Result u \<noteq> None"
  | u q where "finalizeVote m t now p = Inr (u, q)" "st_Result u = None" "st_Phase u = PhaseRoundStart"
      "slack u = slack (vote_spent t)" "0 \<le> slack (vote_spent t)"
proof -
  have s: "sound 1 m (vote_spent t)" "st_Result (vote_spent t) = None"
    using assms(1) sound_vote_spent by (simp_all add: good_def)
  show thesis
  proof (cases "uncaught (vote_spent t) = 0 \<or> st_RemainingVotes (vote_spent t) < uncaught (vote_spent t)")
    case True
    define w where "w = (if uncaught (vote_spent t) = 0 then Nower else Donower)"
    have "finalizeVote m t now p = Inr (finish m (vote_spent t) MatchCompleted w now p)"
      using True by (auto simp: finalizeVote_def Let_def w_def)
    then show thesis using that(1) finish_result by (metis prod.collapse)
  next
    case False
    let ?t = "(vote_spent t)\<lparr>st_Round := st_Round (vote_spent t) + 1\<rparr>"
    have "0 < st_RemainingVotes (vote_spent t)" using False uncaught_nonneg [of "vote_spent t"] by linarith
    then have "1 \<le> st_Round ?t" "st_Round ?t \<le> int (length (tm_seeds m))" using s by (simp_all add: sound_def round_ok_def)
    from beginRound_total [OF assms(2) this] obtain u where u: "beginRound m ?t now = Inr u" .
    have f: "finalizeVote m t now p = Inr (u, p)" using False u by (simp add: finalizeVote_def Let_def)
    show thesis
      using that(2) [OF f] beginRound_frame [OF u] s(2) False by (simp add: slack_def uncaught_players [of "_\<lparr>st_Round := _\<rparr>" "vote_spent t"])
  qed
qed

lemma slack_vote_spent:
  "missed t \<Longrightarrow> slack (vote_spent t) = slack t - 1"
  "margin t \<Longrightarrow> slack (vote_spent t) \<le> 1"
proof -
  show "missed t \<Longrightarrow> slack (vote_spent t) = slack t - 1"
    by (auto simp: slack_def missed_def eliminate_voted_def uncaught_def split: option.split)
  show "margin t \<Longrightarrow> slack (vote_spent t) \<le> 1"
    using margin_vote_spent [of t] by (simp add: slack_def margin_def)
qed

subsection \<open>The rank of a phase\<close>

text \<open>A result leads to the verdict or, through the next round, to at most as many steps as its slack allows.\<close>

lemma result_halts:
  assumes "good m t" "loaded m" "st_Phase t = PhaseResult"
    and "\<And>u. good m u \<Longrightarrow> st_Phase u = PhaseRoundStart \<Longrightarrow> 0 \<le> slack (vote_spent t) \<Longrightarrow>
      slack u = slack (vote_spent t) \<Longrightarrow> halts n m now u"
  shows "halts (Suc n) m now t"
proof (rule halts_step)
  fix p
  define t1 where "t1 = (if unix_milli now \<ge> st_ResultRevealAt t then t\<lparr>st_ResultRevealed := True\<rparr> else t)"
  have t1: "good m t1" using assms(1) by (simp add: t1_def good_def)
  have v: "slack (vote_spent t1) = slack (vote_spent t)"
    by (simp add: t1_def slack_def uncaught_def eliminate_voted_def upd_player_def split: option.split)
  show "(\<exists>u q. advance_step m t now p = Halt u q)
    \<or> (\<exists>u q. advance_step m t now p = Fall u q \<and> (st_Result u = None \<longrightarrow> halts n m now u))
    \<or> (\<exists>u q. advance_step m t now p = Continue u q \<and> halts n m now u)"
  proof (cases "\<not> unix_milli now \<ge> st_Deadline t \<and> \<not> allReady t1")
    case True
    then show ?thesis using assms(3) by (simp add: advance_step_def Let_def t1_def [symmetric])
  next
    case False
    then have step: "advance_step m t now p = (case finalizeVote m t1 now p of Inl e \<Rightarrow> Fail e | Inr (u, q) \<Rightarrow> Fall u q)"
      using assms(3) by (auto simp: advance_step_def Let_def t1_def [symmetric])
    from finalizeVote_leads [OF t1 assms(2), of now p] show ?thesis
    proof cases
      case (1 u q)
      then show ?thesis using step by auto
    next
      case (2 u q)
      then have "advance_step m t now p = Fall u q" using step by simp
      then show ?thesis using 2 v assms(4) good_step [OF _ assms(1), of now p u] by simp
    qed
  qed
qed

lemma ballot_halts:
  assumes "good m t" "st_Phase t = PhaseKnowoff \<or> st_Phase t = PhaseRunoff"
    and "\<And>u p q. resolveVote m t now p = (u, q) \<Longrightarrow> good m u \<Longrightarrow> halts n m now u"
  shows "halts (Suc n) m now t"
proof (rule halts_step)
  fix p
  obtain u q where r: "resolveVote m t now p = (u, q)" by fastforce
  have u: "st_Result u = None" using resolveVote_frame(1) [OF r] assms(1) by (simp add: good_def)
  consider (h) "advance_step m t now p = Halt t p" | (f) "advance_step m t now p = Fall u q"
    using assms(2) by (cases "\<not> unix_milli now \<ge> st_Deadline t \<and> \<not> allReady t") (auto simp: advance_step_def r)
  then show "(\<exists>u q. advance_step m t now p = Halt u q)
    \<or> (\<exists>u q. advance_step m t now p = Fall u q \<and> (st_Result u = None \<longrightarrow> halts n m now u))
    \<or> (\<exists>u q. advance_step m t now p = Continue u q \<and> halts n m now u)"
  proof cases
    case f
    then have "good m u" using good_step [OF _ assms(1) u, of now p] by simp
    then show ?thesis using f assms(3) [OF r] by simp
  qed simp
qed

lemma discussion_halts:
  assumes "good m t" "st_Phase t = PhaseDiscussion"
    and "\<And>u. good m u \<Longrightarrow> st_Phase u = PhaseKnowoff \<Longrightarrow> st_Votes u = [] \<Longrightarrow> slack u = slack t \<Longrightarrow> halts n m now u"
  shows "halts (Suc n) m now t"
proof (rule halts_step)
  fix p
  let ?u = "start_knowoff m t now"
  have u: "st_Result ?u = None" "st_Phase ?u = PhaseKnowoff" "st_Votes ?u = []" "slack ?u = slack t"
    using assms(1) by (simp_all add: start_knowoff_def slack_def uncaught_def good_def)
  consider (h) "advance_step m t now p = Halt t p" | (f) "advance_step m t now p = Fall ?u p"
    using assms(2) by (cases "\<not> unix_milli now \<ge> st_Deadline t \<and> \<not> allReady t") (auto simp: advance_step_def)
  then show "(\<exists>u q. advance_step m t now p = Halt u q)
    \<or> (\<exists>u q. advance_step m t now p = Fall u q \<and> (st_Result u = None \<longrightarrow> halts n m now u))
    \<or> (\<exists>u q. advance_step m t now p = Continue u q \<and> halts n m now u)"
  proof cases
    case f
    then have "good m ?u" using good_step [OF _ assms(1) u(1), of now p] by simp
    then show ?thesis using f assms(3) [OF _ u(2-4)] by simp
  qed simp
qed

text \<open>A turn that has just begun is waited for.\<close>

lemma fresh_turn_halts:
  assumes "settled m now t" "st_Phase t = PhasePlay" "0 < ti_PlayTurn (tm_timers m)"
  shows "halts 1 m now t"
proof -
  have "halts (Suc 0) m now t"
  proof (rule halts_step)
    fix p
    have "advance_step m t now p = Halt t p"
      using assms by (auto simp: advance_step_def settled_def)
    then show "(\<exists>u q. advance_step m t now p = Halt u q)
      \<or> (\<exists>u q. advance_step m t now p = Fall u q \<and> (st_Result u = None \<longrightarrow> halts 0 m now u))
      \<or> (\<exists>u q. advance_step m t now p = Continue u q \<and> halts 0 m now u)" by blast
  qed
  then show ?thesis by simp
qed

lemma settled_halts:
  assumes "settled m now t" "good m t" "0 < ti_PlayTurn (tm_timers m)" "0 < n"
    and "st_Phase t = PhaseDiscussion \<Longrightarrow> halts n m now t"
  shows "halts n m now t"
  using assms fresh_turn_halts halts_mono [of 1 m now t n] by (auto simp: settled_def)

text \<open>
  By induction on the slack: a missed ballot that leaves no slack ends the match, one that leaves
  some goes through the phases of one more round.
\<close>

definition resting_place :: "nat \<Rightarrow> text_match \<Rightarrow> gotime \<Rightarrow> bool" where
  "resting_place k m now \<longleftrightarrow> (\<forall>t. good m t \<longrightarrow> missed t \<longrightarrow> slack t \<le> int k \<longrightarrow> halts (4 * k + 1) m now t)"

lemma empty_ballot_halts:
  assumes "resting_place k m now" "good m t" "st_Phase t = PhaseKnowoff \<or> st_Phase t = PhaseRunoff"
    and "st_Votes t = []" "slack t \<le> int k"
  shows "halts (4 * k + 2) m now t"
proof -
  have "halts (4 * k + 1) m now u" if r: "resolveVote m t now p = (u, q)" and g: "good m u" for u p q
  proof -
    have "missed u" "slack u = slack t"
      using resolveVote_frame [OF r] no_votes [OF assms(4)]
      by (auto simp: missed_def slack_def final_result_def no_result_def)
    then show ?thesis using assms(1,5) g by (simp add: resting_place_def)
  qed
  from ballot_halts [OF assms(2,3) this] show ?thesis by (simp add: eval_nat_numeral)
qed

lemma talk_halts:
  assumes "resting_place k m now" "good m t" "st_Phase t = PhaseDiscussion" "slack t \<le> int k"
  shows "halts (4 * k + 3) m now t"
proof -
  have "halts (Suc (4 * k + 2)) m now t"
    by (rule discussion_halts [OF assms(2,3)], rule empty_ballot_halts [OF assms(1)]) (simp_all add: assms(4))
  then show ?thesis by (simp add: eval_nat_numeral)
qed

lemma settled_turn_halts:
  assumes "resting_place k m now" "good m t" "settled m now t" "slack t \<le> int k" "0 < ti_PlayTurn (tm_timers m)"
  shows "halts (4 * k + 3) m now t"
  by (rule settled_halts [OF assms(3,2,5)]) (simp_all add: talk_halts [OF assms(1,2) _ assms(4)])

lemma good_order: "good m t \<Longrightarrow> 0 \<le> st_Turn t \<and> (\<forall>i\<in>set (st_Order t). 0 \<le> i)"
  by (simp add: good_def sound_def turn_ok_def)

lemma slack_turns [simp]: "slack (nextTurn m t now) = slack t" "slack (autoPass m t why now) = slack t"
  using ballot_turns.R_nextTurn [of m t now] ballot_turns.R_autoPass [of m t why now] by (simp_all add: slack_def)

lemma round_start_halts:
  assumes "resting_place k m now" "good m t" "st_Phase t = PhaseRoundStart" "slack t \<le> int k"
    and "0 < ti_PlayTurn (tm_timers m)"
  shows "halts (4 * k + 4) m now t"
proof -
  have "halts (Suc (4 * k + 3)) m now t"
  proof (rule halts_step)
    fix p
    let ?u = "nextTurn m t now"
    have u: "settled m now ?u" using settled_nextTurn(1) good_order [OF assms(2)] by blast
    consider (h) "advance_step m t now p = Halt t p" | (f) "advance_step m t now p = Fall ?u p"
      using assms(3) by (cases "unix_milli now \<ge> st_Deadline t") (auto simp: advance_step_def)
    then show "(\<exists>u q. advance_step m t now p = Halt u q)
      \<or> (\<exists>u q. advance_step m t now p = Fall u q \<and> (st_Result u = None \<longrightarrow> halts (4 * k + 3) m now u))
      \<or> (\<exists>u q. advance_step m t now p = Continue u q \<and> halts (4 * k + 3) m now u)"
    proof cases
      case f
      then have "good m ?u" if "st_Result ?u = None" using good_step [OF _ assms(2) that, of now p] by simp
      then show ?thesis using f settled_turn_halts [OF assms(1) _ u _ assms(5)] assms(4) by simp
    qed simp
  qed
  then show ?thesis by (simp add: eval_nat_numeral)
qed

lemma all_rest: "loaded m \<Longrightarrow> 0 < ti_PlayTurn (tm_timers m) \<Longrightarrow> resting_place k m now"
proof (induction k)
  case 0
  have "halts 1 m now t" if t: "good m t" "missed t" "slack t \<le> 0" for t
    using result_halts [OF t(1) 0(1), of 0 now] slack_vote_spent(1) [OF t(2)] t(2,3) by (simp add: missed_def)
  then show ?case by (simp add: resting_place_def)
next
  case (Suc k)
  have "halts (Suc (4 * k + 4)) m now t" if t: "good m t" "missed t" "slack t \<le> int (Suc k)" for t
  proof (rule result_halts [OF t(1) Suc.prems(1)])
    show "st_Phase t = PhaseResult" using t(2) by (simp add: missed_def)
    show "halts (4 * k + 4) m now u" if "good m u" "st_Phase u = PhaseRoundStart" "slack u = slack (vote_spent t)" for u
      using round_start_halts [OF Suc.IH [OF Suc.prems] that(1,2) _ Suc.prems(2)] that(3) slack_vote_spent(1) [OF t(2)] t(3)
      by simp
  qed
  then show ?case by (simp add: resting_place_def)
qed

text \<open>Ten transitions from any phase.\<close>

lemma any_result_halts:
  assumes "loaded m" "0 < ti_PlayTurn (tm_timers m)" "good m t" "st_Phase t = PhaseResult"
  shows "halts 9 m now t"
proof -
  have "halts (Suc 8) m now t"
  proof (rule result_halts [OF assms(3,1,4)])
    show "halts 8 m now u" if "good m u" "st_Phase u = PhaseRoundStart" "slack u = slack (vote_spent t)" for u
      using round_start_halts [OF all_rest [OF assms(1,2), of 1] that(1,2) _ assms(2)] that(3)
        slack_vote_spent(2) [of t] assms(3) by (simp add: good_def)
  qed
  then show ?thesis by (simp add: eval_nat_numeral)
qed

lemma any_ballot_halts:
  assumes "loaded m" "0 < ti_PlayTurn (tm_timers m)" "good m t" "st_Phase t = PhaseKnowoff \<or> st_Phase t = PhaseRunoff"
  shows "halts 10 m now t"
proof -
  have "halts (Suc 9) m now t"
  proof (rule ballot_halts [OF assms(3,4)])
    fix u p q assume r: "resolveVote m t now p = (u, q)" and g: "good m u"
    have "slack u \<le> 1" using g by (simp add: good_def poised_def margin_def slack_def)
    then have "st_Phase u = PhaseRunoff \<and> st_Votes u = [] \<longrightarrow> halts 6 m now u"
      using empty_ballot_halts [OF all_rest [OF assms(1,2), of 1] g] by simp
    moreover have "st_Phase u = PhaseResult \<longrightarrow> halts 9 m now u" using any_result_halts [OF assms(1,2) g] by simp
    ultimately show "halts 9 m now u" using resolveVote_frame(4) [OF r] halts_mono [of 6 m now u 9] by auto
  qed
  then show ?thesis by simp
qed

lemma good_slack: "good m t \<Longrightarrow> slack t \<le> int 1"
  by (simp add: good_def poised_def margin_def slack_def)

lemma turn_over_halts:
  assumes "loaded m" "0 < ti_PlayTurn (tm_timers m)" "good m t" "st_Phase t = PhasePlay \<or> st_Phase t = PhaseTradeResponse"
  shows "halts 8 m now t"
proof -
  have onward: "halts 7 m now u" if "good m u" "settled m now u" for u
    using settled_turn_halts [OF all_rest [OF assms(1,2), of 1] that good_slack [OF that(1)] assms(2)] by simp
  have "halts (Suc 7) m now t"
  proof (rule halts_step)
    fix p
    note o' = good_order [OF assms(3)]
    show "(\<exists>u q. advance_step m t now p = Halt u q)
      \<or> (\<exists>u q. advance_step m t now p = Fall u q \<and> (st_Result u = None \<longrightarrow> halts 7 m now u))
      \<or> (\<exists>u q. advance_step m t now p = Continue u q \<and> halts 7 m now u)"
    proof (cases "st_Phase t = PhasePlay")
      case True
      define why where "why = (if mode m = ModeBadBargains \<and> \<not> has_recipient t (current t) then RNoRecipient else RTimeout)"
      let ?u = "autoPass m t why now"
      have "1 \<le> st_Turn t" "st_Turn t \<le> int (length (st_Order t))"
        using assms(3) True by (simp_all add: good_def poised_def sound_def turn_ok_def)
      then have "0 \<le> current t" using o' by (auto simp: current_def Prelude.at_def intro!: nth_mem)
      then have u: "settled m now ?u" using settled_nextTurn(2) o' by blast
      have r: "st_Result ?u = None" using assms(3) by (simp add: result_turns.R_autoPass good_def)
      consider (h) "advance_step m t now p = Halt t p"
        | (f) "advance_step m t now p = Fall ?u p" | (c) "advance_step m t now p = Continue ?u p"
        using True by (cases "unix_milli now \<ge> st_Deadline t"; cases "mode m = ModeBadBargains \<and> \<not> has_recipient t (current t)")
          (simp_all add: advance_step_def why_def)
      then show ?thesis
      proof cases
        case f
        then show ?thesis using onward [OF good_step [OF _ assms(3) r, of now p] u] by simp
      next
        case c
        then show ?thesis using onward [OF good_step [OF _ assms(3) r, of now p] u] by simp
      qed simp
    next
      case False
      then have ph: "st_Phase t = PhaseTradeResponse" using assms(4) by simp
      let ?u = "resolveOffer m t (-1) ResTimeout RTimeout now"
      obtain po where po: "st_Offer t = Some po" using assms(3) ph by (auto simp: good_def poised_def)
      have s: "sound 0 m (settle_offer m t po (-1) ResTimeout RTimeout now)" using assms(3) by (simp add: good_def)
      have u: "settled m now ?u"
        using settled_nextTurn(1) s by (simp add: resolveOffer_def po sound_def turn_ok_def)
      have r: "st_Result ?u = None"
        using assms(3) by (simp add: resolveOffer_def po result_turns.R_nextTurn good_def settle_offer_def Let_def)
      consider (h) "advance_step m t now p = Halt t p" | (f) "advance_step m t now p = Fall ?u p"
        using ph by (cases "unix_milli now \<ge> st_Deadline t") (auto simp: advance_step_def)
      then show ?thesis
      proof cases
        case f
        then show ?thesis using onward [OF good_step [OF _ assms(3) r, of now p] u] by simp
      qed simp
    qed
  qed
  then show ?thesis by simp
qed

lemma good_halts:
  assumes "loaded m" "0 < ti_PlayTurn (tm_timers m)" "good m t"
  shows "halts 10 m now t"
proof -
  note rest = all_rest [OF assms(1,2), of 1]
  have 1: "halts 1 m now t" if "st_Phase t = PhaseVerdict \<or> (\<exists>x. st_Phase t = PhaseOther x)"
    using that by (auto simp: halts_def advance_step_def)
  have "\<exists>n\<le>10. halts n m now t"
  proof (cases "st_Phase t")
    case PhaseRoundStart
    then show ?thesis using round_start_halts [OF rest assms(3) _ good_slack [OF assms(3)] assms(2)]
      by (intro exI [of _ 8]) simp
  next
    case PhaseDiscussion
    then show ?thesis using talk_halts [OF rest assms(3) _ good_slack [OF assms(3)]] by (intro exI [of _ 7]) simp
  next
    case PhaseResult
    then show ?thesis using any_result_halts [OF assms] by (intro exI [of _ 9]) simp
  qed (use 1 turn_over_halts [OF assms] any_ballot_halts [OF assms] in \<open>auto intro: exI [of _ 1] exI [of _ 8] exI [of _ 10]\<close>)
  then show ?thesis using halts_mono by blast
qed

text \<open>So \<open>advance\<close> always has a result, and more fuel would not change it.\<close>

lemma advance_total:
  assumes "loaded m" "0 < ti_PlayTurn (tm_timers m)" "sound 0 m t" "poised t"
  shows "\<exists>u q. advance m t now p = Inr (u, q)"
proof (cases "st_Result t = None")
  case True
  obtain t1 p1 where g: "expire_graces m now (t, p) = (t1, p1)" by fastforce
  have "good m t1"
    using sound_clock.J_graces [OF assms(3) g] poised_clock.J_graces [OF assms(4) g] True by (simp add: good_def)
  then have "halts 12 m now t1" using halts_mono [OF good_halts [OF assms(1,2)]] by simp
  then obtain r where "advance_loop 12 m t1 now p1 = Inr r" unfolding halts_def by blast
  then show ?thesis
    using True g by (cases r; cases "absenceEnd m t1 now p1") (auto simp: advance_def simp del: advance_loop.simps)
next
  case False
  then show ?thesis by (simp add: advance_def)
qed

end
