(* ===== verification/Seats.thy ===== *)
theory Seats
  imports Liveness
begin

section \<open>What lasts for a seat\<close>

text \<open>
  A relation of a seat's record before and after, which holds if only the fields that come and go
  change (cards, points, connection, reveals) and for the few updates of the others, holds from any
  state to every state an operation computes from it. The seats are the same ones in the same order.
\<close>

definition passing :: "text_player \<Rightarrow> text_player \<Rightarrow> bool" where
  "passing v w \<longleftrightarrow> tp_Role w = tp_Role v \<and> tp_Eliminated w = tp_Eliminated v \<and> tp_VotesCast w = tp_VotesCast v
     \<and> tp_CorrectVotes w = tp_CorrectVotes v \<and> tp_Survivals w = tp_Survivals v \<and> tp_Pokes w = tp_Pokes v
     \<and> tp_AbandonRecorded w = tp_AbandonRecorded v"

definition seats_by :: "(text_player \<Rightarrow> text_player \<Rightarrow> bool) \<Rightarrow> text_state \<Rightarrow> text_state \<Rightarrow> bool" where
  "seats_by P s t \<longleftrightarrow> list_all2 P (st_Players s) (st_Players t)"

locale seat_relation =
  fixes P :: "text_player \<Rightarrow> text_player \<Rightarrow> bool"
  assumes P_trans: "P u v \<Longrightarrow> P v w \<Longrightarrow> P u w"
    and P_passing: "passing v w \<Longrightarrow> P v w"
    and P_eliminated: "P v (v\<lparr>tp_Eliminated := True\<rparr>)"
    and P_vote: "P v (v\<lparr>tp_VotesCast := tp_VotesCast v + 1\<rparr>)"
    and P_correct: "P v (v\<lparr>tp_CorrectVotes := tp_CorrectVotes v + 1, tp_Points := n\<rparr>)"
    and P_survival: "P v (v\<lparr>tp_Survivals := tp_Survivals v + 1\<rparr>)"
    and P_poke: "P v (v\<lparr>tp_Pokes := tp_Pokes v + 1\<rparr>)"
    and P_abandon: "P v (v\<lparr>tp_Absent := True, tp_AbandonRecorded := True\<rparr>)"
begin

abbreviation seats :: "text_state \<Rightarrow> text_state \<Rightarrow> bool" where
  "seats \<equiv> seats_by P"

lemma P_same [simp]: "P v v"
  by (rule P_passing) (simp add: passing_def)

lemma seats_refl [simp]: "seats s s"
  by (simp add: seats_by_def list_all2_conv_all_nth)

lemma seats_trans: "seats s t \<Longrightarrow> seats t u \<Longrightarrow> seats s u"
  using P_trans unfolding seats_by_def list_all2_conv_all_nth by metis

lemma seats_fields [simp]:
  "seats s (put_copy k c t) = seats s t" "seats s (set_board_cards cs t) = seats s t"
  "seats s (add_event m t i kd w now b ds g) = seats s t" "seats s (bump_revision t) = seats s t"
  "seats s (set_phase m t ph now n) = seats s t" "seats s (t\<lparr>st_Turn := x0\<rparr>) = seats s t"
  "seats s (t\<lparr>st_Offer := x1\<rparr>) = seats s t" "seats s (t\<lparr>st_Votes := x2\<rparr>) = seats s t"
  "seats s (t\<lparr>st_Candidates := x3\<rparr>) = seats s t" "seats s (t\<lparr>st_BallotKind := x4\<rparr>) = seats s t"
  "seats s (t\<lparr>st_BallotResult := x5\<rparr>) = seats s t" "seats s (t\<lparr>st_Ready := x6\<rparr>) = seats s t"
  "seats s (t\<lparr>st_Pokes := x7\<rparr>) = seats s t" "seats s (t\<lparr>st_Copies := x8\<rparr>) = seats s t"
  "seats s (t\<lparr>st_Deadline := x9\<rparr>) = seats s t" "seats s (t\<lparr>st_ResultRevealAt := y0\<rparr>) = seats s t"
  "seats s (t\<lparr>st_ResultRevealed := y1\<rparr>) = seats s t" "seats s (t\<lparr>st_Requests := y2\<rparr>) = seats s t"
  "seats s (t\<lparr>st_ShuffleUsed := y3\<rparr>) = seats s t" "seats s (t\<lparr>st_RevoteUsed := y4\<rparr>) = seats s t"
  "seats s (t\<lparr>st_RemainingVotes := y5\<rparr>) = seats s t" "seats s (t\<lparr>st_Round := y6\<rparr>) = seats s t"
  "seats s (t\<lparr>st_Result := y7\<rparr>) = seats s t" "seats s (t\<lparr>st_Order := y8\<rparr>) = seats s t"
  "seats s (t\<lparr>st_RevealTarget := y9\<rparr>) = seats s t" "seats s (t\<lparr>st_RevealCards := z0\<rparr>) = seats s t"
  by (simp_all add: seats_by_def set_board_cards_def)

lemma seats_upd: "seats s t \<Longrightarrow> (\<And>v. P v (f v)) \<Longrightarrow> seats s (upd_player i f t)"
proof (rule seats_trans)
  assume f: "\<And>v. P v (f v)"
  show "seats t (upd_player i f t)"
    by (auto simp: seats_by_def list_all2_conv_all_nth upd_player_def nth_upd f)
qed

lemma seats_passing [simp]: "seats s t \<Longrightarrow> (\<And>v. passing v (f v)) \<Longrightarrow> seats s (upd_player i f t)"
  by (rule seats_upd) (simp_all add: P_passing)

lemma seats_map [simp]:
  "seats s t \<Longrightarrow> (\<And>v. passing v (f v)) \<Longrightarrow> seats s (t\<lparr>st_Players := map f (st_Players t)\<rparr>)"
proof (rule seats_trans)
  assume f: "\<And>v. passing v (f v)"
  show "seats t (t\<lparr>st_Players := map f (st_Players t)\<rparr>)"
    by (simp add: seats_by_def list_all2_conv_all_nth P_passing f)
qed

lemma seats_cards [simp]:
  "seats s t \<Longrightarrow> seats s (spend t seat c j)" "seats s t \<Longrightarrow> seats s (discard t i k)"
  by (simp_all add: spend_def discard_def Let_def passing_def)

lemma seats_pass: "seats s t \<Longrightarrow> seats s (pass_current m t why now)"
  by (simp add: pass_current_def Let_def)

text \<open>Turning over and everything built from it.\<close>

lemma seats_turns: "turn_relation (\<lambda>m. seats)"
  by unfold_locales (simp_all add: seats_pass, erule seats_trans)

lemma seats_nextTurn [simp]: "seats s t \<Longrightarrow> seats s (nextTurn m t now)"
  using turn_relation.R_nextTurn [OF seats_turns] seats_trans by blast

lemma seats_autoPass [simp]: "seats s t \<Longrightarrow> seats s (autoPass m t why now)"
  using turn_relation.R_autoPass [OF seats_turns] seats_trans by blast

lemma seats_resolveOffer [simp]: "seats s t \<Longrightarrow> seats s (resolveOffer m t seat res why now)"
  by (simp add: resolveOffer_def settle_offer_def Let_def passing_def split: option.split)

lemma seats_seed_loop: "seed_loop md texts em t cs = Inr (u, em') \<Longrightarrow> seats s t \<Longrightarrow> seats s u"
  by (induction md texts em t cs rule: seed_loop.induct) (auto split: if_splits)

lemma seats_beginRound: "beginRound m t now = Inr u \<Longrightarrow> seats s t \<Longrightarrow> seats s u"
proof -
  assume b: "beginRound m t now = Inr u" and t: "seats s t"
  have "seats s (t\<lparr>st_RevealTarget := None, st_RevealCards := None, st_Players := map clear_round_player (st_Players t)\<rparr>)"
    using seats_map [OF t, of clear_round_player] by (simp add: passing_def clear_round_player_def seats_by_def)
  then have "seats s (open_round m t now)" by (simp add: open_round_def Let_def retire_board_def)
  then show "seats s u" using b seats_seed_loop
    by (auto simp: beginRound_def Let_def split: if_split_asm sum.split_asm prod.split_asm)
qed

lemma seats_scores [simp]:
  "seats s (fst sp) \<Longrightarrow> seats s (fst (score_vote m now seat sp))"
  "seats s (fst sp) \<Longrightarrow> seats s (fst (score_survival m now tied seat sp))"
  "seats s (fst sp) \<Longrightarrow> seats s (fst (expire_grace m now seat sp))"
  by (simp_all add: score_vote_def score_survival_def expire_grace_def Let_def passing_def seats_upd P_vote P_correct
      P_survival P_abandon split: option.splits)

lemma seats_fold:
  assumes "\<And>x sp. seats s (fst sp) \<Longrightarrow> seats s (fst (f x sp))"
  shows "seats s (fst sp) \<Longrightarrow> seats s (fst (fold f xs sp))"
  by (induction xs arbitrary: sp) (simp_all add: assms)

lemma seats_resolveVote [simp]: "seats s t \<Longrightarrow> seats s (fst (resolveVote m t now p))"
  by (simp add: resolveVote_def open_runoff_def close_ballot_def recordBallot_def Let_def seats_fold)

lemma seats_finish [simp]: "seats s t \<Longrightarrow> seats s (fst (finish m t oc w now p))"
proof (cases "st_Result t = None")
  case True
  assume t: "seats s t"
  define t1 where "t1 = (if st_Offer t \<noteq> None then resolveOffer m t (-1) ResCancel RForcedTransition now else t)"
  have "seats s t1" using t by (simp add: t1_def)
  then have "seats s (t1\<lparr>st_Players := map (\<lambda>v. v\<lparr>tp_Points := final_points m oc w v\<rparr>) (st_Players t1)\<rparr>)"
    by (rule seats_map) (simp add: passing_def)
  then show ?thesis using True by (auto simp: finish_def Let_def t1_def seats_by_def split: if_splits)
qed (simp add: finish_def)

lemma seats_vote_spent [simp]: "seats s t \<Longrightarrow> seats s (vote_spent t)"
proof -
  assume "seats s t"
  then have "seats s (eliminate_voted t)"
    using P_eliminated by (auto simp: eliminate_voted_def split: option.split intro: seats_upd)
  then show ?thesis by simp
qed

lemma seats_finalizeVote:
  assumes "finalizeVote m t now p = Inr (u, q)" "seats s t"
  shows "seats s u"
  using assms(1)
proof (cases rule: finalizeVote_cases)
  case caught
  then show ?thesis using seats_finish [OF seats_vote_spent [OF assms(2)]] by (metis fst_conv)
next
  case escaped
  then show ?thesis using seats_finish [OF seats_vote_spent [OF assms(2)]] by (metis fst_conv)
next
  case begun
  show ?thesis using seats_vote_spent [OF assms(2)] by (intro seats_beginRound [OF begun(1)]) simp
qed

lemma seats_advance_step:
  assumes "step_state (advance_step m t now p) = Some u" "seats s t"
  shows "seats s u"
proof (cases "st_Phase t = PhaseResult")
  case True
  define t1 where "t1 = (if unix_milli now \<ge> st_ResultRevealAt t then t\<lparr>st_ResultRevealed := True\<rparr> else t)"
  have t1: "seats s t1" using assms(2) by (simp add: t1_def)
  show ?thesis
    using assms t1 True seats_finalizeVote [OF _ t1]
    by (auto simp: advance_step_def Let_def t1_def [symmetric] split: if_splits sum.splits)
next
  case False
  obtain v1 v2 where v: "resolveVote m t now p = (v1, v2)" by fastforce
  have v1: "seats s v1" using seats_resolveVote [OF assms(2), of m now p] by (simp add: v)
  show ?thesis
    using assms v v1 False by (cases "st_Phase t") (auto simp: advance_step_def start_knowoff_def split: if_splits)
qed

lemma seats_clock: "clock_invariant (\<lambda>m. seats s)"
  by unfold_locales (use seats_advance_step in auto)

lemmas seats_advance = clock_invariant.J_advance [OF seats_clock]

lemma seats_redeal: "seats s t \<Longrightarrow> seats s (fst (redeal md active n i ks t cards))"
  by (induction md active n i ks t cards rule: redeal.induct) (simp_all add: Let_def lay_out_def deal_back_def passing_def)

lemma seats_shuffle: "shuffleSpecialty m t now = Inr u \<Longrightarrow> seats s t \<Longrightarrow> seats s u"
proof -
  assume u: "shuffleSpecialty m t now = Inr u" and t: "seats s t"
  define pool where "pool = go_shuffle (tm_rng m (tm_seed m + int (length (st_History t)) * 32452843)) 0 (shuffle_pool t)"
  define sc where "sc = redeal (mode m) (active_seats t) (shuffle_layout (mode m) (active_seats t)) 0 pool
    (set_board_cards [] (bump_revision (clear_hands t))) []"
  have "seats s (fst sc)" using t by (simp add: sc_def seats_redeal clear_hands_def passing_def)
  then show "seats s u"
    using u by (auto simp: shuffleSpecialty_def Let_def pool_def [symmetric] sc_def [symmetric] split: if_splits prod.splits)
qed

lemma seats_use_reveal: "use_reveal m t seat k now = Inr u \<Longrightarrow> seats s t \<Longrightarrow> seats s u"
proof -
  assume u: "use_reveal m t seat k now = Inr u" and t: "seats s t"
  define t1 where "t1 = drop_specialty seat t"
  define t2 where "t2 = t1\<lparr>st_Players := map (\<lambda>v. v\<lparr>tp_RevealUsed := False, tp_RevealUntil := 0\<rparr>) (st_Players t1)\<rparr>"
  have "seats s t1" using t by (simp add: t1_def drop_specialty_def passing_def)
  then have "seats s t2" by (simp add: t2_def passing_def)
  then show "seats s u"
    using u by (auto simp: use_reveal_def Let_def t1_def [symmetric] t2_def [symmetric] split: if_splits)
qed

lemma seats_specialty: "Specialties.specialty m t seat a now = Inr u \<Longrightarrow> seats s t \<Longrightarrow> seats s u"
proof -
  assume u: "Specialties.specialty m t seat a now = Inr u" and t: "seats s t"
  have shuffle: "seats s u" if "use_shuffle m t seat now = Inr u"
    using that t by (auto simp: use_shuffle_def Let_def seats_shuffle passing_def split: if_splits)
  have turn: "seats s u" if "turn_card m t seat a now (a_Kind a) = Inr u"
    using that t by (cases "a_Kind a")
      (auto simp: use_pass_def use_free_card_def drop_specialty_def passing_def Let_def split: option.splits if_splits
        elim!: seats_use_reveal)
  show "seats s u"
    using u t shuffle turn
    by (auto simp: specialty_def view_reveal_def use_revote_def passing_def Let_def split: if_splits option.splits)
qed

lemma seats_play_card: "play_card m t seat a c now kd = Inr u \<Longrightarrow> seats s t \<Longrightarrow> seats s u"
  by (cases kd) (auto simp: play_new_def play_replace_def play_top_def play_offer_def Let_def split: option.splits if_splits)

lemma seats_act:
  assumes "act m t seat a now p = Inr (u, q)" "seats s t"
  shows "seats s u"
  using assms(1)
proof (cases rule: act_cases)
  case Specialty
  then show ?thesis using seats_specialty assms(2) by blast
next
  case Ready
  then show ?thesis using assms(2) by (auto simp: act_ready_def split: if_splits elim!: seats_advance)
next
  case Card
  then obtain c t1 where "play_card m t seat a c now (a_Kind a) = Inr t1"
    and u: "u = (if a_Kind a = ActionOffer then t1 else nextTurn m t1 now)"
    by (auto simp: act_card_def split: if_split_asm sum.split_asm)
  then show ?thesis using seats_play_card assms(2) by auto
next
  case (Poke j)
  then show ?thesis using assms(2) P_poke by (auto simp: poke_def Let_def split: option.splits if_splits intro!: seats_upd)
qed (use assms(2) in \<open>auto simp: act_resolve_offer_def act_vote_def act_chat_def act_draw_def passing_def Let_def
      split: option.splits if_splits\<close>)

lemma seats_rebind [simp]: "seats s t \<Longrightarrow> seats s (rebind m seat on now t)"
  by (simp add: rebind_def flip_connected_def drop_votes_def passing_def Let_def)

lemma seats_candidate:
  assumes "candidate m s t"
  shows "seats s t"
  using assms
proof cases
  case (acted seat a r now p t' q)
  then show ?thesis using seats_act [OF acted(7) seats_refl] by simp
next
  case (advanced now p q)
  then show ?thesis using seats_advance [OF _ seats_refl] by blast
next
  case (connected seat on now p q)
  then show ?thesis using clock_invariant.J_set_connected [OF seats_clock _ seats_refl] seats_rebind by blast
qed (simp_all add: passing_def)

sublocale seat_runs: step_contract "\<lambda>m. seats"
  by unfold_locales (use seats_trans seats_candidate in auto)

end

text \<open>Roles are fixed and eliminations permanent; counters only grow and a recorded abandon stays.\<close>

definition keeps_role :: "text_player \<Rightarrow> text_player \<Rightarrow> bool" where
  "keeps_role v w \<longleftrightarrow> tp_Role w = tp_Role v \<and> (tp_Eliminated v \<longrightarrow> tp_Eliminated w)"

definition keeps_counts :: "text_player \<Rightarrow> text_player \<Rightarrow> bool" where
  "keeps_counts v w \<longleftrightarrow> tp_VotesCast v \<le> tp_VotesCast w \<and> tp_CorrectVotes v \<le> tp_CorrectVotes w
     \<and> tp_Survivals v \<le> tp_Survivals w \<and> tp_Pokes v \<le> tp_Pokes w \<and> (tp_AbandonRecorded v \<longrightarrow> tp_AbandonRecorded w)"

interpretation roles: seat_relation keeps_role
  by unfold_locales (auto simp: keeps_role_def passing_def)

interpretation counts: seat_relation keeps_counts
  by unfold_locales (auto simp: keeps_counts_def passing_def)

end
