(* ===== verification/Deals.thy ===== *)
theory Deals
  imports Dealing "HOL-Library.Sublist"
begin

section \<open>What a deal is made of\<close>

text \<open>
  The search for retained cards finds a selection exactly if there is one (or gives up at its
  budget of nodes), and \<open>Deal\<close> returns complete deals: full hands that cover every prompt of the
  schedule and seed cards with different texts for every round.
\<close>

subsection \<open>The search\<close>

text \<open>The total of a selection in one dimension.\<close>

definition total :: "int list \<Rightarrow> (text_card \<times> int list) list \<Rightarrow> nat \<Rightarrow> int" where
  "total counts sub d = counts ! d + (\<Sum>(c, k)\<leftarrow>sub. k ! d)"

definition wide :: "nat \<Rightarrow> (text_card \<times> int list) list \<Rightarrow> bool" where
  "wide n rest \<longleftrightarrow> (\<forall>(c, k)\<in>set rest. length k = n \<and> (\<forall>x\<in>set k. 0 \<le> x))"

definition selection :: "deal_tuning \<Rightarrow> int \<Rightarrow> int list \<Rightarrow> text_card list \<Rightarrow> (text_card \<times> int list) list
    \<Rightarrow> (text_card \<times> int list) list \<Rightarrow> bool" where
  "selection t budget counts selected rest sub \<longleftrightarrow> subseq sub rest \<and> int (length selected + length sub) = budget
     \<and> (\<forall>d<length counts. need t d \<le> total counts sub d)"

lemma wide_Cons [simp]: "wide n ((c, k) # rest) \<longleftrightarrow> length k = n \<and> (\<forall>x\<in>set k. 0 \<le> x) \<and> wide n rest"
  by (auto simp: wide_def)

lemma length_suffix: "wide n rest \<Longrightarrow> length (Dealing.suffix n rest) = n"
  by (induction n rest rule: Dealing.suffix.induct) (simp_all add: vadd_def)

lemma suffix_bound: "wide n rest \<Longrightarrow> subseq sub rest \<Longrightarrow> d < n \<Longrightarrow> (\<Sum>(c, k)\<leftarrow>sub. k ! d) \<le> Dealing.suffix n rest ! d"
proof (induction rest arbitrary: sub)
  case Nil
  then show ?case by (cases sub) simp_all
next
  case (Cons x rest)
  obtain c k where x: "x = (c, k)" by fastforce
  have k: "length k = n" "0 \<le> k ! d" "wide n rest" using Cons.prems by (auto simp: x)
  have s: "Dealing.suffix n (x # rest) ! d = k ! d + Dealing.suffix n rest ! d"
    using k Cons.prems(3) length_suffix [OF k(3)] by (simp add: x vadd_def)
  show ?case
  proof (cases "\<exists>sub'. sub = x # sub' \<and> subseq sub' rest")
    case True
    then show ?thesis using Cons.IH [OF k(3)] Cons.prems(3) s by (auto simp: x)
  next
    case False
    then have "subseq sub rest" using Cons.prems(2) by (cases sub) auto
    then show ?thesis using Cons.IH [OF k(3)] Cons.prems(3) s k(2) by fastforce
  qed
qed

lemma prune_iff: "length suf = length counts \<Longrightarrow> prune t full counts suf \<longleftrightarrow>
    (\<exists>d<length counts. counts ! d + suf ! d < need t d \<or> full \<and> counts ! d < need t d)"
  by (force simp: prune_def list_ex_iff set_zip)

lemma selection_step:
  assumes "wide (length counts) ((c, k) # rest)"
  shows "selection t b counts selected ((c, k) # rest) sub \<longleftrightarrow>
     (\<exists>sub'. sub = (c, k) # sub' \<and> selection t b (vadd counts k) (selected @ [c]) rest sub')
     \<or> selection t b counts selected rest sub"
proof -
  have tot: "total counts ((c, k) # sub') d = total (vadd counts k) sub' d" if "d < length counts" for sub' d
    using that assms by (simp add: total_def vadd_def)
  have len: "length (vadd counts k) = length counts" using assms by (simp add: vadd_def)
  have "subseq sub ((c, k) # rest) \<longleftrightarrow> (\<exists>sub'. sub = (c, k) # sub' \<and> subseq sub' rest) \<or> subseq sub rest"
    by (cases sub) (auto dest: subseq_Cons')
  then show ?thesis by (auto simp: selection_def len tot)
qed

lemma search_outcome:
  assumes "wide (length counts) rest"
  shows "case search t b nodes counts selected rest of
      Found m sel \<Rightarrow> \<exists>sub. selection t b counts selected rest sub \<and> sel = selected @ map fst sub
    | Dead m \<Rightarrow> \<nexists>sub. selection t b counts selected rest sub
    | Exhausted m \<Rightarrow> m > dt_MaxSearchNodes t"
  using assms
proof (induction rest arbitrary: nodes counts selected rule: measure_induct_rule [where f = length])
  case (less rest)
  define n where "n = int (length selected)"
  note suf = length_suffix [OF less.prems]
  consider (out) "nodes + 1 > dt_MaxSearchNodes t"
    | (size) "\<not> nodes + 1 > dt_MaxSearchNodes t" "n > b \<or> n + int (length rest) < b"
    | (cut) "\<not> nodes + 1 > dt_MaxSearchNodes t" "\<not> (n > b \<or> n + int (length rest) < b)"
        "prune t (n = b) counts (Dealing.suffix (length counts) rest)"
    | (full) "\<not> nodes + 1 > dt_MaxSearchNodes t" "\<not> (n > b \<or> n + int (length rest) < b)"
        "\<not> prune t (n = b) counts (Dealing.suffix (length counts) rest)" "n = b"
    | (more) "\<not> nodes + 1 > dt_MaxSearchNodes t" "\<not> (n > b \<or> n + int (length rest) < b)"
        "\<not> prune t (n = b) counts (Dealing.suffix (length counts) rest)" "n \<noteq> b"
    by blast
  then show ?case
  proof cases
    case out
    then show ?thesis by (subst search.simps) (simp add: Let_def)
  next
    case size
    have "length sub \<le> length rest" if "subseq sub rest" for sub :: "(text_card \<times> int list) list"
      using that by (rule list_emb_length)
    then have "\<nexists>sub. selection t b counts selected rest sub" using size by (force simp: selection_def n_def)
    then show ?thesis using size by (subst search.simps) (simp add: Let_def n_def)
  next
    case cut
    have "\<not> selection t b counts selected rest sub" for sub
    proof
      assume s: "selection t b counts selected rest sub"
      obtain d where d: "d < length counts"
        "counts ! d + Dealing.suffix (length counts) rest ! d < need t d \<or> n = b \<and> counts ! d < need t d"
        using cut(3) prune_iff [OF suf] by blast
      have "(\<Sum>(c, k)\<leftarrow>sub. k ! d) \<le> Dealing.suffix (length counts) rest ! d"
        using suffix_bound [OF less.prems _ d(1)] s by (simp add: selection_def)
      moreover have "need t d \<le> total counts sub d" using s d(1) by (simp add: selection_def)
      moreover have "sub = []" if "n = b" using s that by (simp add: selection_def n_def)
      ultimately show False using d(2) by (auto simp: total_def)
    qed
    then show ?thesis using cut by (subst search.simps) (simp add: Let_def n_def)
  next
    case full
    have "need t d \<le> counts ! d" if "d < length counts" for d
      using full(3,4) prune_iff [OF suf, of t "n = b"] that by (meson not_le)
    then have "selection t b counts selected rest []" using full(4) by (simp add: selection_def total_def n_def)
    then show ?thesis using full by (subst search.simps) (force simp: Let_def n_def)
  next
    case more
    show ?thesis
    proof (cases rest)
      case Nil
      then show ?thesis using more by (subst search.simps) (simp add: Let_def n_def selection_def)
    next
      case (Cons x later)
      obtain c k where x: "x = (c, k)" by fastforce
      have w: "wide (length counts) ((c, k) # later)" using less.prems by (simp add: Cons x)
      then have len: "length (vadd counts k) = length counts" by (simp add: vadd_def)
      define r1 where "r1 = search t b (nodes + 1) (vadd counts k) (selected @ [c]) later"
      have eq: "search t b nodes counts selected rest =
        (case r1 of Found m sel \<Rightarrow> Found m sel | Exhausted m \<Rightarrow> Exhausted m
           | Dead m \<Rightarrow> search t b m counts selected later)"
        using more by (subst search.simps) (simp add: Let_def n_def Cons x r1_def)
      have IH: "case search t b nodes' counts' selected' later of
          Found m sel \<Rightarrow> \<exists>sub. selection t b counts' selected' later sub \<and> sel = selected' @ map fst sub
        | Dead m \<Rightarrow> \<nexists>sub. selection t b counts' selected' later sub
        | Exhausted m \<Rightarrow> m > dt_MaxSearchNodes t" if "length counts' = length counts" for nodes' counts' selected'
        using less.IH [of later counts'] w that by (simp add: Cons)
      note step = selection_step [OF w, of t b selected, folded x, folded Cons]
      note IH1 = IH [OF len, where nodes' = "nodes + 1" and selected' = "selected @ [c]", folded r1_def]
      show ?thesis
      proof (cases r1)
        case (Found m sel)
        then show ?thesis using IH1 step unfolding eq by (force simp: x)
      next
        case (Exhausted m)
        then show ?thesis using IH1 unfolding eq by simp
      next
        case (Dead m)
        then have "selection t b counts selected rest sub = selection t b counts selected later sub" for sub
          using IH1 step by auto
        then show ?thesis using IH [OF refl, where nodes' = m and selected' = selected] Dead unfolding eq
          by (simp cong: search_result.case_cong)
      qed
    qed
  qed
qed

text \<open>The nodes visited are counted and never exceed the budget by more than one.\<close>

lemma search_nodes:
  "nodes \<le> dt_MaxSearchNodes t \<Longrightarrow>
   case search t b nodes counts selected rest of
     Found m sel \<Rightarrow> nodes < m \<and> m \<le> dt_MaxSearchNodes t
   | Dead m \<Rightarrow> nodes < m \<and> m \<le> dt_MaxSearchNodes t
   | Exhausted m \<Rightarrow> m = dt_MaxSearchNodes t + 1"
proof (induction rest arbitrary: nodes counts selected)
  case Nil
  then show ?case by (subst search.simps) (auto simp: Let_def)
next
  case (Cons x rest)
  obtain c k where x: "x = (c, k)" by fastforce
  show ?case
  proof (cases "nodes + 1 > dt_MaxSearchNodes t")
    case True
    then show ?thesis using Cons.prems by (subst search.simps) (simp add: Let_def)
  next
    case False
    define r1 where "r1 = search t b (nodes + 1) (vadd counts k) (selected @ [c]) rest"
    have IH1: "case r1 of Found m sel \<Rightarrow> nodes + 1 < m \<and> m \<le> dt_MaxSearchNodes t
        | Dead m \<Rightarrow> nodes + 1 < m \<and> m \<le> dt_MaxSearchNodes t | Exhausted m \<Rightarrow> m = dt_MaxSearchNodes t + 1"
      using Cons.IH [of "nodes + 1" "vadd counts k" "selected @ [c]"] False by (simp add: r1_def)
    have IH2: "case search t b m counts selected rest of Found m' sel \<Rightarrow> m < m' \<and> m' \<le> dt_MaxSearchNodes t
        | Dead m' \<Rightarrow> m < m' \<and> m' \<le> dt_MaxSearchNodes t | Exhausted m' \<Rightarrow> m' = dt_MaxSearchNodes t + 1"
      if "m \<le> dt_MaxSearchNodes t" for m
      using Cons.IH [of m counts selected] that by simp
    have "search t b nodes counts selected (x # rest) = Dead (nodes + 1)
      \<or> search t b nodes counts selected (x # rest) = Found (nodes + 1) selected
      \<or> search t b nodes counts selected (x # rest) =
        (case r1 of Found m sel \<Rightarrow> Found m sel | Exhausted m \<Rightarrow> Exhausted m | Dead m \<Rightarrow> search t b m counts selected rest)"
      using False by (subst (1 2 3) search.simps) (auto simp: Let_def x r1_def)
    then show ?thesis
    proof (elim disjE)
      assume e: "search t b nodes counts selected (x # rest) =
        (case r1 of Found m sel \<Rightarrow> Found m sel | Exhausted m \<Rightarrow> Exhausted m | Dead m \<Rightarrow> search t b m counts selected rest)"
      show ?thesis
      proof (cases r1)
        case (Dead m)
        then show ?thesis using IH1 IH2 [of m] unfolding e by (auto split: search_result.splits)
      qed (use IH1 in \<open>auto simp: e\<close>)
    qed (use False in simp_all)
  qed
qed

subsection \<open>Retained cards\<close>

lemma wide_contribution: "wide (2 * length schedule) (map (\<lambda>c. (c, contribution s md schedule c)) pool)"
proof -
  have "length (contribution s md schedule c) = 2 * length schedule \<and> (\<forall>x\<in>set (contribution s md schedule c). 0 \<le> x)" for c
    by (induction schedule) (auto simp: contribution_def split: band.split)
  then show ?thesis by (auto simp: wide_def)
qed

lemma contribution_at:
  "i < length schedule \<Longrightarrow> contribution s md schedule c ! (2 * i) =
     (if band_of s md (tn_ID (schedule ! i)) (td_ID c) = High then 1 else 0)
   \<and> contribution s md schedule c ! (2 * i + 1) =
     (if band_of s md (tn_ID (schedule ! i)) (td_ID c) = Distant then 1 else 0)"
proof (induction schedule arbitrary: i)
  case (Cons n schedule)
  show ?case
  proof (cases i)
    case 0
    then show ?thesis by (simp add: contribution_def split: band.split)
  next
    case (Suc j)
    have "length (case band_of s md (tn_ID n) (td_ID c) of High \<Rightarrow> [1, 0] | Distant \<Rightarrow> [0, 1] | _ \<Rightarrow> [0, 0 :: int]) = 2"
      by (simp split: band.split)
    then show ?thesis using Cons.IH [of j] Cons.prems by (simp add: Suc contribution_def nth_append)
  qed
qed simp

text \<open>What a hand must have for every prompt of the schedule.\<close>

definition covers :: "text_snapshot \<Rightarrow> mode_id \<Rightarrow> deal_tuning \<Rightarrow> text_nown list \<Rightarrow> text_card list \<Rightarrow> bool" where
  "covers s md t schedule cs \<longleftrightarrow> (\<forall>n\<in>set schedule. dt_MinHigh t \<le> count_band s md (tn_ID n) High cs
     \<and> dt_MinDistant t \<le> count_band s md (tn_ID n) Distant cs)"

lemma count_band_sum: "count_band s md nid b cs = (\<Sum>c\<leftarrow>cs. if band_of s md nid (td_ID c) = b then 1 else 0)"
  by (induction cs) (simp_all add: count_band_def)

lemma all_dims: "(\<forall>d<2 * n. P d) \<longleftrightarrow> (\<forall>i<n. P (2 * i) \<and> P (2 * i + (1 :: nat)))"
proof
  assume r: "\<forall>i<n. P (2 * i) \<and> P (2 * i + 1)"
  show "\<forall>d<2 * n. P d"
  proof (intro allI impI)
    fix d assume "d < 2 * n"
    then show "P d" using r [rule_format, of "d div 2"] by (cases "even d") (auto elim!: evenE oddE)
  qed
qed simp

lemma subseq_tagged: "subseq sub (map (\<lambda>c. (c, f c)) pool) \<longleftrightarrow> (\<exists>cs. sub = map (\<lambda>c. (c, f c)) cs \<and> subseq cs pool)"
proof
  assume "subseq sub (map (\<lambda>c. (c, f c)) pool)"
  then show "\<exists>cs. sub = map (\<lambda>c. (c, f c)) cs \<and> subseq cs pool"
  proof (induction pool arbitrary: sub)
    case Nil
    then show ?case by (cases sub) simp_all
  next
    case (Cons c pool)
    show ?case
    proof (cases "\<exists>sub'. sub = (c, f c) # sub' \<and> subseq sub' (map (\<lambda>c. (c, f c)) pool)")
      case True
      then obtain cs where "sub = (c, f c) # map (\<lambda>c. (c, f c)) cs" "subseq cs pool" using Cons.IH by blast
      then show ?thesis by (intro exI [of _ "c # cs"]) simp
    next
      case False
      then have "subseq sub (map (\<lambda>c. (c, f c)) pool)" using Cons.prems by (cases sub) auto
      then show ?thesis using Cons.IH subseq_Cons' by blast
    qed
  qed
qed (auto simp: subseq_map)

lemma selection_covers:
  "selection t b (replicate (2 * length schedule) 0) [] (map (\<lambda>c. (c, contribution s md schedule c)) pool) sub \<longleftrightarrow>
   (\<exists>cs. sub = map (\<lambda>c. (c, contribution s md schedule c)) cs \<and> subseq cs pool \<and> int (length cs) = b \<and> covers s md t schedule cs)"
proof -
  have "need t (2 * i) \<le> total (replicate (2 * length schedule) 0) (map (\<lambda>c. (c, contribution s md schedule c)) cs) (2 * i)
        \<longleftrightarrow> dt_MinHigh t \<le> count_band s md (tn_ID (schedule ! i)) High cs"
    "need t (2 * i + 1) \<le> total (replicate (2 * length schedule) 0) (map (\<lambda>c. (c, contribution s md schedule c)) cs) (2 * i + 1)
        \<longleftrightarrow> dt_MinDistant t \<le> count_band s md (tn_ID (schedule ! i)) Distant cs"
    if "i < length schedule" for i cs
    using contribution_at [OF that, of s md] that
    by (simp_all add: need_def total_def count_band_sum comp_def del: One_nat_def)
  then have "(\<forall>d<2 * length schedule. need t d \<le> total (replicate (2 * length schedule) 0)
      (map (\<lambda>c. (c, contribution s md schedule c)) cs) d) \<longleftrightarrow> covers s md t schedule cs" for cs
    unfolding all_dims covers_def all_set_conv_all_nth by blast
  then show ?thesis by (auto simp: selection_def subseq_tagged)
qed

lemma textRetained_outcome:
  assumes "textRetained s md schedule pool t nodes = (r, m)"
  shows "case r of
      Inr cs \<Rightarrow> subseq cs pool \<and> int (length cs) = dt_HandSize t + dt_ReserveSize t \<and> covers s md t schedule cs
    | Inl e \<Rightarrow> e = ErrTextInfeasible \<and> (\<nexists>cs. subseq cs pool \<and> int (length cs) = dt_HandSize t + dt_ReserveSize t
          \<and> covers s md t schedule cs)
        \<or> e = ErrTextSearchBudget \<and> dt_MaxSearchNodes t < m"
proof -
  let ?rest = "map (\<lambda>c. (c, contribution s md schedule c)) pool"
  have w: "wide (length (replicate (2 * length schedule) (0 :: int))) ?rest" using wide_contribution by simp
  show ?thesis
    using search_outcome [OF w, where t = t and b = "dt_HandSize t + dt_ReserveSize t" and nodes = nodes and selected = "[]"] assms
    by (cases "search t (dt_HandSize t + dt_ReserveSize t) nodes (replicate (2 * length schedule) 0) [] ?rest")
      (auto simp: textRetained_def selection_covers comp_def)
qed

subsection \<open>Hands\<close>

lemma subseq_mset: "subseq xs ys \<Longrightarrow> mset xs \<subseteq># mset ys"
  by (induction xs ys rule: list_emb.induct) (auto simp: subseteq_mset_def intro: le_SucI)

lemma subseq_distinct: "subseq xs ys \<Longrightarrow> distinct ys \<Longrightarrow> distinct xs"
proof (induction xs ys rule: list_emb.induct)
  case (list_emb_Cons2 x y xs ys)
  then show ?case using set_mset_mono [OF subseq_mset [of xs ys]] by auto
qed simp_all

lemma inj_on_ids: "distinct (map f cs) \<Longrightarrow> c \<in> set cs \<Longrightarrow> c' \<in> set cs \<Longrightarrow> f c = f c' \<Longrightarrow> c = c'"
  by (auto simp: distinct_map dest: inj_onD)

lemma split_hand_perm:
  assumes "distinct (map td_ID cs)" "split_hand s md n t cs = (hand, reserve)"
  shows "mset (hand @ reserve) = mset cs"
proof -
  define front where "front = opening_hand s md n t cs"
  define others where "others = filter (\<lambda>c. td_ID c \<notin> td_ID ` set front) cs"
  have d: "distinct cs" using assms(1) by (simp add: distinct_map)
  have "set front \<subseteq> set cs" by (auto simp: front_def opening_hand_def first_band_def dest: in_set_takeD)
  moreover have "distinct front"
    using d by (auto simp: front_def opening_hand_def first_band_def dest!: in_set_takeD)
  moreover have "set others = set cs - set front"
    using inj_on_ids [OF assms(1)] calculation(1) by (auto simp: others_def)
  ultimately have "distinct (front @ others)" "set (front @ others) = set cs"
    using d by (auto simp: others_def)
  then have "mset (front @ others) = mset cs" using d set_eq_iff_mset_eq_distinct by blast
  moreover have "hand @ reserve = front @ others"
    using assms(2) by (auto simp: split_hand_def Let_def front_def [symmetric] others_def [symmetric])
  ultimately show ?thesis by simp
qed

lemma split_hand_length:
  assumes "distinct (map td_ID cs)" "split_hand s md n t cs = (hand, reserve)"
    and "int (length cs) = dt_HandSize t + dt_ReserveSize t" "textTuningValid t"
  shows "int (length hand) = dt_HandSize t" "int (length reserve) = dt_ReserveSize t"
proof -
  define front where "front = opening_hand s md n t cs"
  define others where "others = filter (\<lambda>c. td_ID c \<notin> td_ID ` set front) cs"
  have f: "int (length front) \<le> dt_HandSize t"
    using assms(4) by (auto simp: front_def opening_hand_def first_band_def textTuningValid_def min_def)
  have h: "hand = front @ take (nat (dt_HandSize t) - length front) others"
    "reserve = drop (nat (dt_HandSize t) - length front) others"
    using assms(2) by (auto simp: split_hand_def Let_def front_def [symmetric] others_def [symmetric])
  have "length (hand @ reserve) = length cs" using split_hand_perm [OF assms(1,2)] mset_eq_length by blast
  then have l: "length front + length others = length cs" by (simp add: h)
  then have "length others \<ge> nat (dt_HandSize t) - length front"
    using assms(3,4) f unfolding textTuningValid_def by linarith
  then show "int (length hand) = dt_HandSize t" "int (length reserve) = dt_ReserveSize t"
    using l f assms(3,4) by (simp_all add: h textTuningValid_def min_def)
qed

text \<open>A full hand: its size, its reserve, cards of the pool each at most once, and every prompt covered.\<close>

definition full_hand :: "text_snapshot \<Rightarrow> mode_id \<Rightarrow> deal_tuning \<Rightarrow> text_nown list \<Rightarrow> text_card list \<Rightarrow> text_hand \<Rightarrow> bool" where
  "full_hand s md t schedule pool h \<longleftrightarrow> int (length (ha_Cards h)) = dt_HandSize t
     \<and> int (length (ha_Reserve h)) = dt_ReserveSize t \<and> mset (ha_Cards h @ ha_Reserve h) \<subseteq># mset pool
     \<and> CheckTextCoverage s md schedule (ha_Cards h @ ha_Reserve h) t = None"

lemma deal_hands_full:
  assumes "deal_hands d k s md schedule pool t nodes seats = Inr hands" "distinct (map td_ID pool)" "textTuningValid t"
  shows "length hands = seats \<and> (\<forall>h\<in>set hands. full_hand s md t schedule pool h)"
  using assms(1)
proof (induction seats arbitrary: k nodes hands)
  case 0
  then show ?case by simp
next
  case (Suc seats)
  obtain cs m where r: "textRetained s md schedule (go_shuffle d k pool) t nodes = (Inr cs, m)"
    using Suc.prems by (auto split: prod.splits sum.splits)
  obtain hand reserve where h: "split_hand s md (hd schedule) t cs = (hand, reserve)" by fastforce
  define k1 where "k1 = k + shuffle_draws (length pool)"
  define k2 where "k2 = k1 + shuffle_draws (length hand)"
  define hand1 where "hand1 = go_shuffle d k1 hand"
  define reserve1 where "reserve1 = go_shuffle d k2 reserve"
  obtain rest where c: "CheckTextCoverage s md schedule (hand1 @ reserve1) t = None"
    and rest: "deal_hands d (k2 + shuffle_draws (length reserve)) s md schedule pool t m seats = Inr rest"
    and hands: "hands = \<lparr>ha_Cards = hand1, ha_Reserve = reserve1\<rparr> # rest"
    using Suc.prems
    by (auto simp: r h Let_def k1_def [symmetric] k2_def [symmetric] hand1_def [symmetric] reserve1_def [symmetric]
        split: option.splits sum.splits)
  have cs: "subseq cs (go_shuffle d k pool)" "int (length cs) = dt_HandSize t + dt_ReserveSize t"
    using textRetained_outcome [OF r] by simp_all
  have "mset cs \<subseteq># mset pool" using subseq_mset [OF cs(1)] by simp
  moreover have ids: "distinct (map td_ID cs)"
  proof -
    have "mset (map td_ID (go_shuffle d k pool)) = mset (map td_ID pool)" by simp
    then have "distinct (map td_ID (go_shuffle d k pool))" using assms(2) mset_eq_imp_distinct_iff by blast
    then show ?thesis using subseq_distinct subseq_map [OF cs(1)] by blast
  qed
  moreover have "mset (hand1 @ reserve1) = mset cs"
    using split_hand_perm [OF ids h] by (simp add: hand1_def reserve1_def)
  ultimately have "full_hand s md t schedule pool \<lparr>ha_Cards = hand1, ha_Reserve = reserve1\<rparr>"
    using split_hand_length [OF ids h cs(2) assms(3)] c by (simp add: full_hand_def hand1_def reserve1_def)
  then show ?case using Suc.IH [OF rest] hands by simp
qed

subsection \<open>Seed cards\<close>

definition good_seeds :: "nat \<Rightarrow> text_card list \<Rightarrow> text_card list \<Rightarrow> bool" where
  "good_seeds n pool seeds \<longleftrightarrow> length seeds = n \<and> set seeds \<subseteq> set pool \<and> distinct (map td_Text seeds)"

lemma distinct_texts_ok:
  "distinct (map td_Text (distinct_texts n seen cs)) \<and> td_Text ` set (distinct_texts n seen cs) \<inter> set seen = {}
   \<and> set (distinct_texts n seen cs) \<subseteq> set cs"
  by (induction n seen cs rule: distinct_texts.induct) auto

lemma deal_seeds_ok:
  "deal_seeds d k pool n rounds = Inr seeds \<Longrightarrow> length seeds = rounds \<and> (\<forall>x\<in>set seeds. good_seeds n pool x)"
proof (induction rounds arbitrary: k seeds)
  case (Suc rounds)
  define first where "first = distinct_texts n [] (go_shuffle d k pool)"
  have "length first = n \<Longrightarrow> good_seeds n pool first"
    using distinct_texts_ok [of n "[]" "go_shuffle d k pool"] by (simp add: good_seeds_def first_def)
  then show ?case
    using Suc by (auto simp: Let_def first_def [symmetric] split: if_splits sum.splits)
qed simp

lemma Deal_complete:
  assumes "Deal rng s md sz t r = Inr d" "distinct (map td_ID (bu_Cards (sx_bundle s)))"
  shows "(sz = 4 \<or> sz = 6) \<and> int (length (de_Nowns d)) = sz div 2 \<and> mset (de_Nowns d) \<subseteq># mset (eligible_nowns s md)
    \<and> int (length (de_Hands d)) = sz \<and> (\<forall>h\<in>set (de_Hands d). full_hand s md t (de_Nowns d) (eligible_cards s md) h)
    \<and> int (length (de_SystemSeeds d)) = sz div 2
    \<and> (\<forall>x\<in>set (de_SystemSeeds d). good_seeds (nat (seed_count md sz)) (eligible_cards s md) x)"
proof -
  define pool where "pool = eligible_cards s md"
  define schedule where "schedule = draw_schedule rng s md sz r"
  obtain seeds hands where sz: "sz = 4 \<or> sz = 6" "textTuningValid t" "\<not> int (length (eligible_nowns s md)) < sz div 2"
    and seeds: "deal_seeds (rng (ra_System r)) 0 pool (nat (seed_count md sz)) (length schedule) = Inr seeds"
    and hands: "deal_hands (rng (ra_Hands r)) 0 s md schedule pool t 0 (nat sz) = Inr hands"
    and d: "de_Nowns d = schedule" "de_Hands d = hands" "de_SystemSeeds d = seeds"
    using assms(1)
    by (auto simp: Deal_def Let_def pool_def [symmetric] schedule_def [symmetric] split: if_splits sum.splits)
  have "mset (map td_ID pool) = image_mset td_ID (filter_mset (\<lambda>c. textHasMode (td_Modes c) md) (mset (bu_Cards (sx_bundle s))))"
    by (simp add: pool_def eligible_cards_def)
  then have "mset (map td_ID pool) = mset (map td_ID (filter (\<lambda>c. textHasMode (td_Modes c) md) (bu_Cards (sx_bundle s))))"
    by (simp add: mset_filter)
  then have ids: "distinct (map td_ID pool)"
    using distinct_map_filter [OF assms(2)] mset_eq_imp_distinct_iff by blast
  have len: "int (length schedule) = sz div 2" using sz by (auto simp: schedule_def draw_schedule_def)
  have "mset schedule \<subseteq># mset (eligible_nowns s md)"
    using mset_subset_eq_add_left [of "mset schedule"
        "mset (drop (nat (sz div 2)) (go_shuffle (rng (ra_Schedule r)) 0 (eligible_nowns s md)))"]
    unfolding mset_append [symmetric] schedule_def draw_schedule_def append_take_drop_id by simp
  then show ?thesis
    using sz(1) len deal_hands_full [OF hands ids sz(2)] deal_seeds_ok [OF seeds] d
    by (auto simp: pool_def)
qed

end
