(* ===== verification/Beginning.thy ===== *)
theory Beginning
  imports Liveness Deals
begin

section \<open>How a match begins\<close>

text \<open>
  The roles the constructor deals, the invariants of the state it returns, and, for the deals the
  dealer of \<open>pkg/media\<close> makes, seed cards for every round. So what \<open>Liveness\<close> asks of a match
  holds of every match that was started.
\<close>

subsection \<open>Roles\<close>

abbreviation donower :: "text_player \<Rightarrow> bool" where
  "donower v \<equiv> tp_Role v = Donower"

definition donowers :: "text_player list \<Rightarrow> nat" where
  "donowers ps = length (filter donower ps)"

lemma filter_count_update:
  "i < length xs \<Longrightarrow> \<not> P (xs ! i) \<Longrightarrow> P x \<Longrightarrow> length (filter P (xs[i := x])) = Suc (length (filter P xs))"
  by (induction xs arbitrary: i) (auto split: nat.split)

lemma donowers_upd:
  "in_range i ps \<Longrightarrow> \<not> donower (Prelude.at ps i) \<Longrightarrow> donowers (upd i (\<lambda>v. v\<lparr>tp_Role := Donower\<rparr>) ps) = Suc (donowers ps)"
  using filter_count_update [of "nat i" ps donower]
  by (simp add: donowers_def upd_def in_range_def Prelude.at_def nat_less_iff)

lemma at_upd_away: "in_range i ps \<Longrightarrow> 0 \<le> j \<Longrightarrow> i \<noteq> j \<Longrightarrow> Prelude.at (upd j f ps) i = Prelude.at ps i"
  by (simp add: upd_def Prelude.at_def in_range_def nat_eq_iff)

abbreviation make_donowers :: "int list \<Rightarrow> text_player list \<Rightarrow> text_player list" where
  "make_donowers \<equiv> fold (\<lambda>i. upd i (\<lambda>v. v\<lparr>tp_Role := Donower\<rparr>))"

lemma make_donowers_other:
  "i \<notin> set js \<Longrightarrow> in_range i ps \<Longrightarrow> \<forall>j\<in>set js. 0 \<le> j \<Longrightarrow> Prelude.at (make_donowers js ps) i = Prelude.at ps i"
  by (induction js arbitrary: ps) (simp_all add: at_upd_away)

lemma length_make_donowers [simp]: "length (make_donowers js ps) = length ps"
  by (induction js arbitrary: ps) simp_all

lemma donowers_make:
  "distinct js \<Longrightarrow> \<forall>j\<in>set js. in_range j ps \<and> \<not> donower (Prelude.at ps j) \<Longrightarrow>
   donowers (make_donowers js ps) = donowers ps + length js"
proof (induction js arbitrary: ps)
  case (Cons j js)
  let ?ps = "upd j (\<lambda>v. v\<lparr>tp_Role := Donower\<rparr>) ps"
  have j: "0 \<le> j" using Cons.prems(2) by (simp add: in_range_def)
  have "Prelude.at ?ps i = Prelude.at ps i" if "i \<in> set js" for i
    using that Cons.prems by (intro at_upd_away) (auto simp: in_range_def)
  then have "donowers (make_donowers js ?ps) = donowers ?ps + length js"
    using Cons.prems by (intro Cons.IH) auto
  then show ?case using Cons.prems donowers_upd [of j ps] by simp
qed simp

lemma donowers_assign:
  assumes "distinct is" "\<forall>i\<in>set is. in_range (int i) ps"
    and "\<forall>i\<in>set is. \<not> dev_fixed roles (int i) \<longrightarrow> \<not> donower (Prelude.at ps (int i))"
    and "0 \<le> n" "n \<le> int (length (filter (\<lambda>i. \<not> dev_fixed roles (int i)) is))"
  shows "int (donowers (assign_roles roles is n ps)) = int (donowers ps) + n"
  using assms
proof (induction roles "is" n ps rule: assign_roles.induct)
  case (2 roles i js n ps)
  show ?case
  proof (cases "n = 0 \<or> dev_fixed roles (int i)")
    case True
    then show ?thesis using 2 by auto
  next
    case False
    let ?ps = "upd (int i) (\<lambda>v. v\<lparr>tp_Role := Donower\<rparr>) ps"
    have other: "Prelude.at ?ps (int j) = Prelude.at ps (int j)" if "j \<in> set js" for j
      using that 2(3,4) by (intro at_upd_away) auto
    have "int (donowers (assign_roles roles js (n - 1) ?ps)) = int (donowers ?ps) + (n - 1)"
      using False 2(3-) other by (intro 2(2)) auto
    then show ?thesis using False 2(4,5) donowers_upd [of "int i" ps] by simp
  qed
qed simp

text \<open>The keys of a Go map are pairwise different.\<close>

lemma set_roles_count:
  assumes "dev_roles_check opts c = None" "distinct (map fst (op_DevRoles opts))"
    and "int (length ps) = mc_OriginalSize (op_Contract opts)" "donowers ps = 0"
  shows "int (donowers (set_roles env seed opts ps)) = mc_OriginalSize (op_Contract opts) div 2 - 1"
proof -
  define roles where "roles = op_DevRoles opts"
  define sz where "sz = mc_OriginalSize (op_Contract opts)"
  define ds where "ds = donower_seats roles"
  define n where "n = sz div 2 - 1 - int (length ds)"
  define fixed where "fixed = filter (\<lambda>(i, r). r \<noteq> RoleOther ''random'') roles"
  define ps1 where "ps1 = make_donowers ds ps"
  define js where "js = go_perm (sr_rng env seed) (nat sz)"
  have chk: "list_all (dev_role_ok sz) roles" "0 \<le> n" "n \<le> sz - int (length fixed)"
    using assms(1) by (simp_all add: dev_roles_check_def Let_def roles_def sz_def n_def ds_def fixed_def)
  have none: "\<not> donower (Prelude.at ps i)" if "in_range i ps" for i
    using that assms(4) by (auto simp: donowers_def in_range_def Prelude.at_def filter_empty_conv)
  have ds: "distinct ds" "\<forall>j\<in>set ds. in_range j ps"
    using assms(2,3) chk(1)
    by (auto simp: ds_def donower_seats_def roles_def [symmetric] distinct_map_filter in_range_def dev_role_ok_def
        list_all_iff sz_def)
  have ps1: "donowers ps1 = length ds" "length ps1 = length ps"
    using donowers_make [of ds ps] ds none assms(4) by (simp_all add: ps1_def)
  have key: "map_of roles i = Some r" if "(i, r) \<in> set roles" for i r
    using that assms(2) by (simp add: roles_def)
  have "length (filter (\<lambda>i. dev_fixed roles (int i)) js) = card (set (map int (filter (\<lambda>i. dev_fixed roles (int i)) js)))"
    by (subst distinct_card) (simp_all add: js_def distinct_map)
  also have "\<dots> \<le> card (set (map fst fixed))"
    by (rule card_mono) (force simp: dev_fixed_def fixed_def split: option.splits dest: map_of_SomeD)+
  also have "\<dots> \<le> length fixed" using card_length [of "map fst fixed"] by simp
  finally have "length (filter (\<lambda>i. dev_fixed roles (int i)) js) \<le> length fixed" .
  moreover have "length (filter (\<lambda>i. dev_fixed roles (int i)) js) + length (filter (\<lambda>i. \<not> dev_fixed roles (int i)) js) = nat sz"
    using sum_length_filter_compl [of "\<lambda>i. dev_fixed roles (int i)" js] by (simp add: js_def)
  ultimately have room: "n \<le> int (length (filter (\<lambda>i. \<not> dev_fixed roles (int i)) js))" using chk(3) by linarith
  have "\<not> donower (Prelude.at ps1 (int i))" if "i \<in> set js" "\<not> dev_fixed roles (int i)" for i
  proof -
    have "int i \<notin> set ds" using that(2) by (auto simp: ds_def donower_seats_def dev_fixed_def dest!: key)
    moreover have "in_range (int i) ps" using that(1) assms(3) by (simp add: js_def in_range_def sz_def)
    ultimately show ?thesis
      using none make_donowers_other [of "int i" ds ps] ds(2) by (simp add: ps1_def in_range_def)
  qed
  moreover have "\<forall>i\<in>set js. in_range (int i) ps1" using assms(3) by (auto simp: js_def in_range_def sz_def ps1(2))
  ultimately have "int (donowers (assign_roles roles js n ps1)) = int (donowers ps1) + n"
    using chk(2) room by (intro donowers_assign) (simp_all add: js_def)
  moreover have "set_roles env seed opts ps = assign_roles roles js n ps1"
    by (simp add: set_roles_def Let_def roles_def sz_def ds_def n_def js_def ps1_def)
  ultimately show ?thesis by (simp add: ps1 n_def sz_def)
qed

subsection \<open>The invariants of the first state\<close>

definition newcomer :: "text_player \<Rightarrow> bool" where
  "newcomer v \<longleftrightarrow> \<not> tp_Eliminated v \<and> tp_FreeDraws v = 0 \<and> tp_Points v = 0 \<and> tp_Connected v \<and> \<not> tp_Absent v"

lemma deal_in_newcomers:
  assumes "deal_in mk c sp i d hs = Inr d'" "\<forall>v\<in>set (dl_players d). newcomer v \<and> tp_Role v = Nower"
  shows "\<forall>v\<in>set (dl_players d'). newcomer v \<and> tp_Role v = Nower"
  using assms
  by (induction mk c sp i d hs rule: deal_in.induct) (auto simp: Let_def newcomer_def new_player_def split: if_splits)

lemma deal_in_length: "deal_in mk c sp i d hs = Inr d' \<Longrightarrow> length (dl_players d') = length (dl_players d) + length hs"
  by (induction mk c sp i d hs rule: deal_in.induct) (auto simp: Let_def split: if_splits)

lemma newcomers_upd:
  "\<forall>v\<in>set ps. newcomer v \<Longrightarrow> \<forall>v\<in>set (upd i (\<lambda>v. v\<lparr>tp_Role := r\<rparr>) ps). newcomer v"
proof -
  assume n: "\<forall>v\<in>set ps. newcomer v"
  have "newcomer (upd i (\<lambda>v. v\<lparr>tp_Role := r\<rparr>) ps ! k)" if "k < length ps" for k
    using n that by (simp add: nth_upd newcomer_def)
  then show ?thesis by (auto simp: in_set_conv_nth)
qed

lemma newcomers_make: "\<forall>v\<in>set qs. newcomer v \<Longrightarrow> \<forall>v\<in>set (make_donowers js qs). newcomer v"
proof (induction js arbitrary: qs)
  case (Cons j js)
  then show ?case using newcomers_upd [OF Cons.prems, of j Donower] by simp
qed simp

lemma newcomers_assign: "\<forall>v\<in>set qs. newcomer v \<Longrightarrow> \<forall>v\<in>set (assign_roles roles is n qs). newcomer v"
proof (induction roles "is" n qs rule: assign_roles.induct)
  case (2 roles i js n qs)
  then show ?case using newcomers_upd [OF "2.prems", of "int i" Donower] by simp
qed simp

lemma newcomers_roles: "\<forall>v\<in>set ps. newcomer v \<Longrightarrow> \<forall>v\<in>set (set_roles env seed opts ps). newcomer v"
  unfolding set_roles_def Let_def by (intro newcomers_assign newcomers_make)

lemma sound_begins: "beginRound m t now = Inr u \<Longrightarrow> sound d m t \<Longrightarrow> sound d m u"
  using sound_open_round [of d m t now] seed_loop_sound
  by (auto simp: beginRound_def Let_def split: if_split_asm sum.split_asm prod.split_asm)

lemma length_seed_rounds [simp]: "length (seed_rounds mk n rs) = length rs"
  by (induction mk n rs rule: seed_rounds.induct) simp_all

lemma initial_sound:
  assumes "options_check env opts c = None" "\<forall>v\<in>set ps. newcomer v"
  shows "sound 0 (initial_match env opts c seed d) (initial_state opts d ps)"
proof -
  have "int (length (de_SystemSeeds (op_Deal opts))) = mc_OriginalSize (op_Contract opts) div 2"
    "contract_Validate (sr_lang env) (op_Contract opts) = None"
    using assms(1) by (simp_all add: options_check_def Let_def)
  moreover from calculation(2) have "4 \<le> mc_OriginalSize (op_Contract opts)"
    by (auto simp: contract_Validate_def size_ok_def Let_def)
  ultimately show ?thesis
    using assms(2) by (auto simp: sound_defs initial_state_def initial_match_def Let_def newcomer_def)
qed

lemma started_roles:
  assumes "NewTextMatch env opts = Inr m0"
  obtains c seed d s where "options_check env opts c = None" "dev_roles_check opts c = None"
    "\<forall>v\<in>set (dl_players d). newcomer v \<and> tp_Role v = Nower"
    "int (length (dl_players d)) = mc_OriginalSize (op_Contract opts)"
    "beginRound (initial_match env opts c seed d) (initial_state opts d (set_roles env seed opts (dl_players d))) (sr_clock env 0) = Inr s"
    "m0 = (initial_match env opts c seed d)\<lparr>tm_state := s\<rparr>"
proof -
  obtain c seed d where c: "options_check env opts c = None" "dev_roles_check opts c = None"
    and d: "deal_in (copy_card env seed (mc_MatchID (op_Contract opts))) c
       (\<lambda>i. dealTextSpecialty (sr_unit env (seed + (i + 1) * 15485863)) (tg_SpecialtyWeights c)) 0
       \<lparr>dl_next = 0, dl_copies = [], dl_all = [], dl_players = []\<rparr> (de_Hands (op_Deal opts)) = Inr d"
    and s: "start_match env (initial_match env opts c seed d) = Inr m0"
    using assms by (auto simp: NewTextMatch_def Let_def split: option.splits sum.splits)
  obtain s where b: "beginRound (initial_match env opts c seed d) (tm_state (initial_match env opts c seed d)) (sr_clock env 0) = Inr s"
    and m0: "m0 = (initial_match env opts c seed d)\<lparr>tm_state := s\<rparr>"
    using s by (auto simp: start_match_def split: option.splits sum.splits)
  have "tm_state (initial_match env opts c seed d) = initial_state opts d (set_roles env seed opts (dl_players d))"
    by (simp add: initial_match_def Let_def)
  moreover have "\<forall>v\<in>set (dl_players d). newcomer v \<and> tp_Role v = Nower" using deal_in_newcomers [OF d] by simp
  moreover have "length (dl_players d) = length (de_Hands (op_Deal opts))" using deal_in_length [OF d] by simp
  moreover have "int (length (de_Hands (op_Deal opts))) = mc_OriginalSize (op_Contract opts)"
    using c(1) by (simp add: options_check_def Let_def)
  ultimately show thesis using that c b m0 by simp
qed

lemma length_set_roles [simp]: "length (set_roles env seed opts ps) = length ps"
proof -
  have "length (assign_roles roles is n qs) = length qs" for roles "is" n qs
    by (induction roles "is" n qs rule: assign_roles.induct) simp_all
  then show ?thesis by (simp add: set_roles_def Let_def)
qed

lemma uncaught_new: "\<forall>v\<in>set (st_Players s). newcomer v \<Longrightarrow> uncaught s = int (donowers (st_Players s))"
proof -
  assume "\<forall>v\<in>set (st_Players s). newcomer v"
  then have "filter (\<lambda>v. \<not> tp_Eliminated v \<and> donower v) (st_Players s) = filter donower (st_Players s)"
    by (intro filter_cong) (auto simp: newcomer_def)
  then show ?thesis by (simp add: uncaught_def donowers_def)
qed

lemma started_sound:
  assumes "NewTextMatch env opts = Inr m0"
  shows "sound 0 m0 (tm_state m0) \<and> 0 < ti_PlayTurn (tm_timers m0)"
  using assms
proof (cases rule: started_roles)
  case (1 c seed d s)
  have "\<forall>v\<in>set (set_roles env seed opts (dl_players d)). newcomer v" using newcomers_roles 1(3) by blast
  from sound_begins [OF 1(5) initial_sound [OF 1(1) this]]
  have "sound 0 m0 s" by (simp add: 1(6) sound_defs)
  moreover have "0 < ti_PlayTurn (tg_Timers c)" using 1(1) by (simp add: options_check_def clocks_ok_def Let_def)
  ultimately show ?thesis by (simp add: 1(6)) (simp add: initial_match_def Let_def)
qed

lemma started_poised:
  assumes "NewTextMatch env opts = Inr m0" "distinct (map fst (op_DevRoles opts))"
  shows "poised (tm_state m0) \<and> st_RemainingVotes (tm_state m0) = mc_OriginalSize (tm_contract m0) div 2
    \<and> uncaught (tm_state m0) = mc_OriginalSize (tm_contract m0) div 2 - 1"
  using assms(1)
proof (cases rule: started_roles)
  case (1 c seed d s)
  let ?ps = "set_roles env seed opts (dl_players d)"
  let ?s = "initial_state opts d ?ps"
  have n: "\<forall>v\<in>set ?ps. newcomer v" using newcomers_roles 1(3) by blast
  have "donowers (dl_players d) = 0" using 1(3) by (simp add: donowers_def filter_empty_conv)
  then have "int (donowers ?ps) = mc_OriginalSize (op_Contract opts) div 2 - 1"
    using set_roles_count [OF 1(2) assms(2) 1(4)] by simp
  then have u: "uncaught ?s = mc_OriginalSize (op_Contract opts) div 2 - 1"
    using uncaught_new [of ?s] n by (simp add: initial_state_def)
  have r: "st_RemainingVotes ?s = mc_OriginalSize (op_Contract opts) div 2" "st_Turn ?s = 0" by (simp_all add: initial_state_def)
  then have "margin ?s" using u by (simp add: margin_def)
  then have "poised s" using poised_beginRound [OF 1(5)] by simp
  then show ?thesis
    using beginRound_frame [OF 1(5)] u r by (simp add: 1(6)) (simp add: initial_match_def Let_def)
qed

text \<open>The cards keep their texts when they become physical copies.\<close>

lemma number_cards_texts:
  "map (\<lambda>c. tc_Text (cd_Content c)) (number_cards (copy_card env seed k) n rs) = map td_Text rs"
  by (induction "copy_card env seed k" n rs rule: number_cards.induct) (simp_all add: copy_card_def)

lemma seed_rounds_loaded:
  "\<forall>x\<in>set rs. length x = n \<and> distinct (map td_Text x) \<Longrightarrow>
   \<forall>x\<in>set (seed_rounds (copy_card env seed k) j rs). length x = n \<and> distinct (map (\<lambda>c. tc_Text (cd_Content c)) x)"
  by (induction "copy_card env seed k" j rs rule: seed_rounds.induct) (simp_all add: number_cards_texts)

lemma seed_want_count: "seed_want md sz = seed_count md sz"
  by (cases md) simp_all

lemma dealt_loaded:
  assumes "Deal rng sn (mc_ModeID (op_Contract opts)) (mc_OriginalSize (op_Contract opts)) t r = Inr (op_Deal opts)"
    and "distinct (map td_ID (bu_Cards (sx_bundle sn)))"
  shows "loaded (initial_match env opts c seed d)"
proof -
  let ?n = "nat (seed_count (mc_ModeID (op_Contract opts)) (mc_OriginalSize (op_Contract opts)))"
  have dc: "mc_OriginalSize (op_Contract opts) = 4 \<or> mc_OriginalSize (op_Contract opts) = 6"
    "\<forall>x\<in>set (de_SystemSeeds (op_Deal opts)). length x = ?n \<and> distinct (map td_Text x)"
    using Deal_complete [OF assms] by (auto simp: good_seeds_def)
  have "0 \<le> seed_count (mc_ModeID (op_Contract opts)) (mc_OriginalSize (op_Contract opts))"
    using dc(1) by (cases "mc_ModeID (op_Contract opts)") auto
  then show ?thesis
    using seed_rounds_loaded [OF dc(2)]
    by (simp add: loaded_def seed_want_count) (simp add: initial_match_def Let_def)
qed

end
