(* ===== verification/Transitions.thy ===== *)
theory Transitions
  imports Beginning
begin

section \<open>What single transitions compute\<close>

subsection \<open>The count of a ballot\<close>

text \<open>
  The specification of the count: the votes for a seat are those of voters who still take part, and
  the leaders are the seats with at least one vote and no fewer than any other.
\<close>

definition votes_for :: "text_state \<Rightarrow> int \<Rightarrow> int" where
  "votes_for s i = int (length (filter (\<lambda>(voter, target). target = i \<and> active_connected (player s voter)) (st_Votes s)))"

definition leaders :: "text_state \<Rightarrow> int list" where
  "leaders s = filter (\<lambda>i. 0 < votes_for s i \<and> (\<forall>(voter, target)\<in>set (st_Votes s). votes_for s target \<le> votes_for s i))
     (all_seats s)"

definition counted :: "(int \<Rightarrow> int) \<Rightarrow> (int \<times> int) list \<times> int \<Rightarrow> bool" where
  "counted n tm \<longleftrightarrow> (\<forall>i. tget (fst tm) i = n i \<and> n i \<le> snd tm) \<and> (snd tm = 0 \<or> (\<exists>i. n i = snd tm))"

lemma tget_update: "tget (AList.update k v m) i = (if i = k then v else tget m i)"
  by (simp add: tget_def update_conv')

lemma counted_step:
  assumes "counted n tm"
  shows "counted (\<lambda>i. n i + (if i = target \<and> active_connected (player s seat) then 1 else 0)) (tally_step s (seat, target) tm)"
proof (cases "active_connected (player s seat)")
  case True
  obtain tally maximum where tm: "tm = (tally, maximum)" by fastforce
  have le: "n i \<le> maximum" and eq: "tget tally i = n i" for i using assms by (simp_all add: counted_def tm)
  have ex: "maximum = 0 \<or> (\<exists>i. n i = maximum)" using assms by (simp add: counted_def tm)
  have "\<exists>i. n i + (if i = target then 1 else 0) = max maximum (n target + 1)" if "n target + 1 \<ge> maximum"
    using that by (intro exI [of _ target]) simp
  moreover have "maximum = 0 \<or> (\<exists>i. n i + (if i = target then 1 else 0) = maximum)" if m: "n target + 1 < maximum"
    using ex
  proof (elim disjE exE)
    fix i assume i: "n i = maximum"
    then have "i \<noteq> target" using m by auto
    then show ?thesis using i by (intro disjI2 exI [of _ i]) simp
  qed simp
  moreover have "n i + (if i = target then 1 else 0) \<le> max maximum (n target + 1)" for i
    using le [of i] by auto
  ultimately show ?thesis
    using True by (cases "n target + 1 < maximum") (simp_all add: counted_def tm tget_update eq max_def)
next
  case False
  then show ?thesis using assms by (cases tm) (simp add: counted_def)
qed

lemma tally_counts:
  "counted (\<lambda>i. n i + int (length (filter (\<lambda>(voter, target). target = i \<and> active_connected (player s voter)) vs)))
     (fold (tally_step s) vs tm)" if "counted n tm"
  using that
proof (induction vs arbitrary: n tm)
  case (Cons v vs)
  obtain voter target where v: "v = (voter, target)" by fastforce
  let ?n = "\<lambda>i. n i + (if i = target \<and> active_connected (player s voter) then 1 else 0)"
  have "(\<lambda>i. ?n i + int (length (filter (\<lambda>(voter, target). target = i \<and> active_connected (player s voter)) vs)))
    = (\<lambda>i. n i + int (length (filter (\<lambda>(voter, target). target = i \<and> active_connected (player s voter)) (v # vs))))"
    by (auto simp: v fun_eq_iff)
  then show ?case using Cons.IH [OF counted_step [OF Cons.prems, of target s voter]] by (simp add: v)
qed simp

lemma tied_leaders: "tied_seats s = leaders s"
proof -
  obtain tally maximum where t: "tally_votes s = (tally, maximum)" by fastforce
  have "counted (\<lambda>_. 0) ([], 0)" by (simp add: counted_def tget_def)
  moreover have "votes_for s = (\<lambda>i. 0 + int (length (filter (\<lambda>(voter, target). target = i \<and> active_connected (player s voter))
      (st_Votes s))))" by (simp add: votes_for_def fun_eq_iff)
  ultimately have c: "counted (votes_for s) (tally, maximum)"
    using tally_counts [of "\<lambda>_. 0" "([], 0)" s "st_Votes s"] t by (simp add: tally_votes_def)
  have "0 < votes_for s i \<and> (\<forall>(voter, target)\<in>set (st_Votes s). votes_for s target \<le> votes_for s i)
      \<longleftrightarrow> 0 < tget tally i \<and> tget tally i = maximum" for i
  proof -
    have cast: "\<exists>voter. (voter, j) \<in> set (st_Votes s)" if "0 < votes_for s j" for j
      using that by (auto simp: votes_for_def filter_empty_conv)
    show ?thesis
    proof
      assume l: "0 < votes_for s i \<and> (\<forall>(voter, target)\<in>set (st_Votes s). votes_for s target \<le> votes_for s i)"
      have "votes_for s i \<le> maximum" using c by (simp add: counted_def)
      then have "0 < maximum" using l by linarith
      then obtain j where j: "votes_for s j = maximum" using c by (auto simp: counted_def)
      then obtain voter where "(voter, j) \<in> set (st_Votes s)" using cast \<open>0 < maximum\<close> by metis
      then have "maximum \<le> votes_for s i" using l j by force
      then show "0 < tget tally i \<and> tget tally i = maximum" using c l by (auto simp: counted_def intro: antisym)
    next
      assume "0 < tget tally i \<and> tget tally i = maximum"
      then show "0 < votes_for s i \<and> (\<forall>(voter, target)\<in>set (st_Votes s). votes_for s target \<le> votes_for s i)"
        using c by (auto simp: counted_def)
    qed
  qed
  then show ?thesis by (simp add: tied_seats_def t leaders_def)
qed

subsection \<open>Points of a ballot\<close>

definition vote_bonus :: "text_match \<Rightarrow> text_state \<Rightarrow> int \<Rightarrow> int" where
  "vote_bonus m s i = (case map_of (st_Votes s) i of
     Some target \<Rightarrow> if active_connected (player s i) \<and> tp_Role (player s target) = Donower then pn_CorrectVote (tm_points m) else 0
   | None \<Rightarrow> 0)"

text \<open>What scoring leaves as it is.\<close>

definition same_voters :: "text_state \<Rightarrow> text_state \<Rightarrow> bool" where
  "same_voters s t \<longleftrightarrow> st_Votes t = st_Votes s \<and> length (st_Players t) = length (st_Players s)
     \<and> (\<forall>i. tp_Role (player t i) = tp_Role (player s i) \<and> active_connected (player t i) = active_connected (player s i))"

lemma same_voters_trans: "same_voters s t \<Longrightarrow> same_voters t u \<Longrightarrow> same_voters s u"
  by (simp add: same_voters_def)

lemma same_voters_bonus: "same_voters s t \<Longrightarrow> vote_bonus m t i = vote_bonus m s i"
  by (simp add: same_voters_def vote_bonus_def split: option.split)

lemma player_upd: "in_range j (st_Players s) \<Longrightarrow> 0 \<le> i \<Longrightarrow>
   player (upd_player j f s) i = (if i = j then f (player s j) else player s i)"
  by (auto simp: player_def upd_player_def Prelude.at_def upd_def in_range_def nat_eq_iff nth_list_update)

lemma player_upd_same: "(\<And>v. g (f v) = g v) \<Longrightarrow> in_range j (st_Players s) \<Longrightarrow> g (player (upd_player j f s) i) = g (player s i)"
  by (cases "nat i = nat j") (simp_all add: player_def upd_player_def Prelude.at_def upd_def in_range_def nat_less_iff)

lemma same_voters_upd:
  assumes "in_range j (st_Players s)" "\<And>v. tp_Role (f v) = tp_Role v" "\<And>v. tp_Eliminated (f v) = tp_Eliminated v"
    "\<And>v. tp_Connected (f v) = tp_Connected v"
  shows "same_voters s (upd_player j f s)"
  using player_upd_same [of tp_Role f, OF assms(2,1)] player_upd_same [of active_connected f, OF _ assms(1)] assms(3,4)
  by (simp add: same_voters_def active_connected_def)

lemma score_vote_effect:
  assumes "in_range j (st_Players (fst sp))"
  shows "same_voters (fst sp) (fst (score_vote m now j sp))"
    "0 \<le> i \<Longrightarrow> tp_Points (player (fst (score_vote m now j sp)) i)
       = tp_Points (player (fst sp) i) + (if i = j then vote_bonus m (fst sp) j else 0)"
proof -
  define s1 where "s1 = upd_player j (\<lambda>v. v\<lparr>tp_PointsBeforeResult := tp_Points v\<rparr>) (fst sp)"
  have r: "in_range j (st_Players s1)" using assms by (simp add: s1_def)
  have s1: "same_voters (fst sp) s1" unfolding s1_def by (rule same_voters_upd [OF assms]) simp_all
  have p1: "tp_Points (player s1 i) = tp_Points (player (fst sp) i)" for i
    unfolding s1_def by (rule player_upd_same [OF _ assms]) simp
  define t where "t = fst (score_vote m now j sp)"
  define s2 where "s2 = upd_player j (\<lambda>v. v\<lparr>tp_VotesCast := tp_VotesCast v + 1\<rparr>) s1"
  define b where "b = pn_CorrectVote (tm_points m)"
  define s3 where "s3 = upd_player j (\<lambda>v. v\<lparr>tp_CorrectVotes := tp_CorrectVotes v + 1, tp_Points := tp_Points v + b\<rparr>) s2"
  have r2: "in_range j (st_Players s2)" using r by (simp add: s2_def)
  have s2: "same_voters s1 s2" unfolding s2_def by (rule same_voters_upd [OF r]) simp_all
  have s3: "same_voters s2 s3" unfolding s3_def by (rule same_voters_upd [OF r2]) simp_all
  have p2: "tp_Points (player s2 i) = tp_Points (player s1 i)" for i
    unfolding s2_def by (rule player_upd_same [OF _ r]) simp
  have p3: "0 \<le> i \<Longrightarrow> tp_Points (player s3 i) = tp_Points (player s2 i) + (if i = j then b else 0)" for i
    by (simp add: s3_def player_upd [OF r2])
  have t: "t = (case map_of (st_Votes s1) j of None \<Rightarrow> s1 | Some target \<Rightarrow>
      if active_connected (player s1 j) then if tp_Role (player s2 target) = Donower then s3 else s2 else s1)"
    by (simp add: t_def score_vote_def Let_def s1_def [symmetric] s2_def [symmetric] b_def [symmetric] s3_def [symmetric]
        split: option.split)
  have role: "tp_Role (player s2 i) = tp_Role (player (fst sp) i)" and act: "active_connected (player s1 i) = active_connected (player (fst sp) i)"
    and votes: "st_Votes s1 = st_Votes (fst sp)" for i
    using s1 s2 by (simp_all add: same_voters_def)
  show "same_voters (fst sp) (fst (score_vote m now j sp))"
    unfolding t_def [symmetric] t
    using s1 same_voters_trans [OF s1 s2] same_voters_trans [OF same_voters_trans [OF s1 s2] s3] by (simp split: option.split)
  show "0 \<le> i \<Longrightarrow> tp_Points (player (fst (score_vote m now j sp)) i)
       = tp_Points (player (fst sp) i) + (if i = j then vote_bonus m (fst sp) j else 0)"
    unfolding t_def [symmetric]
    by (simp add: t p1 p2 p3 role act votes vote_bonus_def b_def split: option.split)
qed

lemma fold_votes_effect:
  assumes "distinct js" "\<forall>j\<in>set js. in_range j (st_Players (fst sp))" "0 \<le> i"
  shows "same_voters (fst sp) (fst (fold (score_vote m now) js sp))
    \<and> tp_Points (player (fst (fold (score_vote m now) js sp)) i)
       = tp_Points (player (fst sp) i) + (if i \<in> set js then vote_bonus m (fst sp) i else 0)"
  using assms(1,2)
proof (induction js arbitrary: sp)
  case Nil
  then show ?case by (simp add: same_voters_def)
next
  case (Cons j js)
  let ?sp = "score_vote m now j sp"
  have j: "in_range j (st_Players (fst sp))" using Cons.prems(2) by simp
  note e = score_vote_effect(1) [OF j, of m now] score_vote_effect(2) [OF j assms(3), of m now]
  have "\<forall>k\<in>set js. in_range k (st_Players (fst ?sp))"
    using Cons.prems(2) e(1) by (simp add: same_voters_def in_range_def)
  then have IH: "same_voters (fst ?sp) (fst (fold (score_vote m now) js ?sp))
    \<and> tp_Points (player (fst (fold (score_vote m now) js ?sp)) i)
       = tp_Points (player (fst ?sp) i) + (if i \<in> set js then vote_bonus m (fst ?sp) i else 0)"
    using Cons by simp
  show ?case
    using IH e same_voters_trans [OF e(1)] same_voters_bonus [OF e(1), of m i] Cons.prems(1) by auto
qed

lemma survival_effect:
  assumes "in_range j (st_Players (fst sp))"
  shows "same_voters (fst sp) (fst (score_survival m now tied j sp))
    \<and> tp_Points (player (fst (score_survival m now tied j sp)) i) = tp_Points (player (fst sp) i)"
  using same_voters_upd [OF assms, of "\<lambda>v. v\<lparr>tp_Survivals := tp_Survivals v + 1\<rparr>"]
    player_upd_same [of tp_Points "\<lambda>v. v\<lparr>tp_Survivals := tp_Survivals v + 1\<rparr>", OF _ assms]
  by (simp add: score_survival_def Let_def same_voters_def)

lemma fold_survival_effect:
  assumes "\<forall>j\<in>set js. in_range j (st_Players (fst sp))"
  shows "same_voters (fst sp) (fst (fold (score_survival m now tied) js sp))
    \<and> tp_Points (player (fst (fold (score_survival m now tied) js sp)) i) = tp_Points (player (fst sp) i)"
  using assms
proof (induction js arbitrary: sp)
  case Nil
  then show ?case by (simp add: same_voters_def)
next
  case (Cons j js)
  let ?sp = "score_survival m now tied j sp"
  have e: "same_voters (fst sp) (fst ?sp) \<and> tp_Points (player (fst ?sp) i) = tp_Points (player (fst sp) i)"
    using survival_effect Cons.prems by simp
  then have "\<forall>k\<in>set js. in_range k (st_Players (fst ?sp))" using Cons.prems by (simp add: same_voters_def in_range_def)
  then show ?case using Cons.IH [of ?sp] e same_voters_trans by fastforce
qed

text \<open>
  A closed ballot: its result names the only leader, if there is one; every voter whose vote counted
  and hit a donower is paid.
\<close>

lemma close_ballot_effect:
  assumes "close_ballot m s (leaders s) now p = (t, q)"
  shows "st_Phase t = PhaseResult"
    "st_BallotResult t = Some (final_result s (leaders s))"
    "in_range i (st_Players s) \<Longrightarrow> tp_Points (player t i) = tp_Points (player s i) + vote_bonus m s i"
    "active_connected (player t i) = active_connected (player s i)" "tp_Role (player t i) = tp_Role (player s i)"
proof -
  define r where "r = final_result s (leaders s)"
  define s1 where "s1 = recordBallot m (s\<lparr>st_BallotResult := Some r\<rparr>) r now"
  define sp2 where "sp2 = fold (score_vote m now) (all_seats s1) (s1, p)"
  define sp3 where "sp3 = fold (score_survival m now (leaders s)) (all_seats s1) sp2"
  have t: "t = (set_phase m (fst sp3) PhaseResult now (ti_VoteResultWindow (tm_timers m)))
      \<lparr>st_ResultRevealAt := unix_milli (add_seconds now (ti_VoteResultFalling (tm_timers m)))\<rparr>"
    using assms by (auto simp: close_ballot_def Let_def r_def s1_def sp2_def sp3_def)
  have pl: "st_Players s1 = st_Players s" "st_Votes s1 = st_Votes s" by (simp_all add: s1_def recordBallot_def)
  have seats: "distinct (all_seats s1)" "\<forall>j\<in>set (all_seats s1). in_range j (st_Players s1)"
    by (auto simp: all_seats_def in_range_def distinct_map)
  have v: "same_voters s1 (fst sp2)" "0 \<le> i \<Longrightarrow> tp_Points (player (fst sp2) i)
      = tp_Points (player s1 i) + (if i \<in> set (all_seats s1) then vote_bonus m s1 i else 0)" for i
    using fold_votes_effect [OF seats(1), of "(s1, p)" i m now] fold_votes_effect [OF seats(1), of "(s1, p)" 0 m now] seats(2)
    by (simp_all add: sp2_def)
  have "\<forall>j\<in>set (all_seats s1). in_range j (st_Players (fst sp2))"
    using seats(2) v(1) by (simp add: same_voters_def in_range_def)
  from fold_survival_effect [OF this]
  have sv: "same_voters (fst sp2) (fst sp3)" "tp_Points (player (fst sp3) i) = tp_Points (player (fst sp2) i)" for i
    by (simp_all add: sp3_def)
  have t': "player t i = player (fst sp3) i" for i by (simp add: t player_def)
  have b: "vote_bonus m s1 i = vote_bonus m s i" "player s1 i = player s i" for i
    by (simp_all add: vote_bonus_def player_def pl split: option.split)
  have all: "same_voters s1 (fst sp3)" using same_voters_trans [OF v(1) sv(1)] .
  show "st_Phase t = PhaseResult" by (simp add: t)
  have f: "ballot_frame (fst sp3) = ballot_frame s1"
    by (simp add: sp3_def sp2_def fold_frame [where g = ballot_frame] ballot_frame_scores)
  then show "st_BallotResult t = Some (final_result s (leaders s))"
    by (simp add: t) (simp add: ballot_frame_def s1_def recordBallot_def r_def)
  show "in_range i (st_Players s) \<Longrightarrow> tp_Points (player t i) = tp_Points (player s i) + vote_bonus m s i"
  proof -
    assume i: "in_range i (st_Players s)"
    then have n: "nat i < length (st_Players s)" "int (nat i) = i" by (simp_all add: in_range_def nat_less_iff)
    have "int (nat i) \<in> set (all_seats s1)" unfolding all_seats_def pl set_map set_upt using n(1) by (intro imageI) simp
    then have "i \<in> set (all_seats s1)" by (simp only: n(2))
    then show ?thesis using v(2) [of i] i by (simp add: t' sv b in_range_def)
  qed
  show "active_connected (player t i) = active_connected (player s i)" "tp_Role (player t i) = tp_Role (player s i)"
    using all by (simp_all add: same_voters_def t' b)
qed

section \<open>What a round starts with and how a trade is settled\<close>

subsection \<open>The start of a round\<close>

text \<open>The seed cards that are laid out: all of them, in Bad Bargains those of the seats that still play.\<close>

definition dealt_seeds :: "text_match \<Rightarrow> text_state \<Rightarrow> (int \<times> card) list" where
  "dealt_seeds m s = filter (\<lambda>(i, c). \<not> (mode m = ModeBadBargains \<and> tp_Eliminated (player s i)))
     (indexed (Prelude.at (tm_seeds m) (st_Round s - 1)))"

lemma ballot_kind_fields [simp]:
  "st_BallotKind (set_board_cards cs s) = st_BallotKind s" "st_Pokes (set_board_cards cs s) = st_Pokes s"
  "st_BallotKind (put_copy k c s) = st_BallotKind s" "st_Pokes (put_copy k c s) = st_Pokes s"
  "st_BallotKind (bump_revision s) = st_BallotKind s" "st_Pokes (bump_revision s) = st_Pokes s"
  "st_BallotKind (add_event m s i kd w now b ds g) = st_BallotKind s" "st_Pokes (add_event m s i kd w now b ds g) = st_Pokes s"
  by (simp_all add: set_board_cards_def put_copy_def bump_revision_def add_event_def)

lemma seed_loop_board:
  "seed_loop md texts em s cs = Inr (u, em') \<Longrightarrow>
    (let laid = filter (\<lambda>(i, c). \<not> (md = ModeBadBargains \<and> tp_Eliminated (player s i))) cs in
     board_cards u = board_cards s @ map (\<lambda>(i, c). seed_board_card md i c) laid \<and> em' = em @ map snd laid)
     \<and> distinct (map (\<lambda>x. tc_Text (cd_Content (snd x))) cs)
     \<and> set texts \<inter> set (map (\<lambda>x. tc_Text (cd_Content (snd x))) cs) = {}
     \<and> st_Pokes u = st_Pokes s \<and> st_BallotKind u = st_BallotKind s"
  by (induction md texts em s cs rule: seed_loop.induct) (auto simp: Let_def player_def split: if_splits)

lemma tie_board [simp]: "board_cards (s\<lparr>st_Turn := x1, st_Votes := x2, st_Candidates := x3, st_BallotResult := x4,
    st_BallotKind := x5, st_Pokes := x6, st_Order := x7\<rparr>) = board_cards s"
  by (simp add: board_cards_def)

lemma open_round_fields:
  "st_Players (open_round m s now) = map clear_round_player (st_Players s)" "board_cards (open_round m s now) = []"
  "st_Turn (open_round m s now) = 0" "st_Votes (open_round m s now) = []" "st_Candidates (open_round m s now) = []"
  "st_BallotResult (open_round m s now) = None" "st_Pokes (open_round m s now) = []" "st_Ready (open_round m s now) = []"
  "st_Phase (open_round m s now) = PhaseRoundStart" "st_History (open_round m s now) = st_History s"
  "mset (st_Order (open_round m s now)) = mset (active_seats s)"
  "revision (open_round m s now) = revision s"
proof -
  have "filter (\<lambda>(i, v). \<not> tp_Eliminated v) (indexed (map clear_round_player ps))
    = map (\<lambda>(i, v). (i, clear_round_player v)) (filter (\<lambda>(i, v). \<not> tp_Eliminated v) (indexed ps))" for ps
    by (simp add: indexed_def zip_map2 filter_map comp_def clear_round_player_def case_prod_unfold)
  then have "seats_where (\<lambda>v. \<not> tp_Eliminated v) (map clear_round_player ps) = seats_where (\<lambda>v. \<not> tp_Eliminated v) ps" for ps
    by (simp add: seats_where_def comp_def case_prod_unfold)
  then show "mset (st_Order (open_round m s now)) = mset (active_seats s)"
    by (simp add: open_round_def Let_def retire_board_def active_seats_def set_board_cards_def)
qed (simp_all add: open_round_def Let_def retire_board_def set_board_cards_def board_cards_def revision_def set_phase_def)

lemma beginRound_lays_out:
  assumes "beginRound m s now = Inr t" and n: "int (length (st_Players s)) = mc_OriginalSize (tm_contract m)"
  shows "st_Phase t = PhaseRoundStart" "st_Turn t = 0" "mset (st_Order t) = mset (active_seats s)"
    "board_cards t = map (\<lambda>(i, c). seed_board_card (mode m) i c) (dealt_seeds m s)"
    "distinct (map (\<lambda>b. tc_Text (cd_Content (bc_Card b))) (board_cards t))"
    "st_Votes t = []" "st_Candidates t = []" "st_BallotResult t = None" "st_Pokes t = []" "st_Ready t = []"
    "st_Players t = map clear_round_player (st_Players s)"
    "concat (map (\<lambda>e. slice (e_Cards e)) (drop (length (st_History s)) (st_History t))) = map snd (dealt_seeds m s)"
    "revision t = Suc (revision s)"
proof -
  let ?o = "bump_revision (open_round m s now)" and ?seeds = "indexed (Prelude.at (tm_seeds m) (st_Round s - 1))"
  obtain u em where u: "seed_loop (mode m) [] [] ?o ?seeds = Inr (u, em)"
    and t: "t = (if em = [] then u else add_event m u (-1) EvSeed RSeed now (revision (open_round m s now)) em (\<lambda>e. e))"
    and w: "int (length (Prelude.at (tm_seeds m) (st_Round s - 1))) = seed_want (mode m) (mc_OriginalSize (tm_contract m))"
    using assms(1) by (auto simp: beginRound_def Let_def split: if_split_asm sum.split_asm prod.split_asm)
  have "tp_Eliminated (player ?o i) = tp_Eliminated (player s i)" if "(i, c) \<in> set ?seeds" "mode m = ModeBadBargains" for i c
    using that w n nth_map [of "nat i" "st_Players s" clear_round_player]
    by (simp add: set_indexed player_def Prelude.at_def in_range_def open_round_fields(1) nat_less_iff) (simp add: clear_round_player_def)
  then have d: "filter (\<lambda>(i, c). \<not> (mode m = ModeBadBargains \<and> tp_Eliminated (player ?o i))) ?seeds = dealt_seeds m s"
    unfolding dealt_seeds_def by (intro filter_cong) auto
  note b = seed_loop_board [OF u, unfolded Let_def d] and f = seed_loop_frame [OF u]
  have c: "(\<lambda>b. tc_Text (cd_Content (bc_Card b))) \<circ> (\<lambda>(i, c). seed_board_card (mode m) i c)
    = (\<lambda>x. tc_Text (cd_Content (snd x)))" by (simp add: seed_board_card_def fun_eq_iff)
  have "board_cards u = map (\<lambda>(i, c). seed_board_card (mode m) i c) (dealt_seeds m s)" "em = map snd (dealt_seeds m s)"
    using b by (simp_all add: open_round_fields)
  then show "board_cards t = map (\<lambda>(i, c). seed_board_card (mode m) i c) (dealt_seeds m s)"
    "concat (map (\<lambda>e. slice (e_Cards e)) (drop (length (st_History s)) (st_History t))) = map snd (dealt_seeds m s)"
    using f by (simp_all add: t open_round_fields add_event_def new_event_def board_cards_def)
  then show "distinct (map (\<lambda>b. tc_Text (cd_Content (bc_Card b))) (board_cards t))"
    using b by (simp add: c dealt_seeds_def distinct_map_filter)
  show "st_Phase t = PhaseRoundStart" "st_Turn t = 0" "mset (st_Order t) = mset (active_seats s)"
    "st_Votes t = []" "st_Candidates t = []" "st_BallotResult t = None" "st_Pokes t = []" "st_Ready t = []"
    "st_Players t = map clear_round_player (st_Players s)" "revision t = Suc (revision s)"
    using f b by (simp_all add: t open_round_fields)
qed

subsection \<open>A settled trade\<close>

definition board_ids :: "text_state \<Rightarrow> copy_id list" where
  "board_ids s = map (\<lambda>b. cd_CopyID (bc_Card b)) (board_cards s)"

lemma settle_accepts:
  assumes k: "kept m s" and po: "st_Offer s = Some po" and t: "t = settle_offer m s po seat ResAccept why now"
  shows "mset (tp_Hand (player t (po_ProposerSeat po))) + {#po_OfferedCopyID po#}
      = mset (tp_Hand (player s (po_ProposerSeat po))) + {#po_RequestedCopyID po#}"
    "board_ids t = map (\<lambda>k. if k = po_RequestedCopyID po then po_OfferedCopyID po else k) (board_ids s)"
    "po_RequestedCopyID po \<in> set (board_ids s)"
    "0 \<le> j \<Longrightarrow> j \<noteq> po_ProposerSeat po \<Longrightarrow> player t j = player s j"
proof -
  let ?i = "po_ProposerSeat po" and ?off = "po_OfferedCopyID po" and ?req = "po_RequestedCopyID po"
  have pl: "pledged m s po" and loc: "located (mode m) s" using k po by (simp_all add: kept_def stocked_def)
  have i: "in_range ?i (st_Players s)" and md: "mode m = ModeBadBargains" using pl by (simp_all add: pledged_def)
  obtain co where co: "map_of (st_Copies s) ?off = Some co" "cp_Zone co = ZHand" "cp_Owner co = ?i"
    using pl by (auto simp: pledged_def)
  obtain cr where cr: "map_of (st_Copies s) ?req = Some cr" "cp_Zone cr = ZBoard" using pl by (auto simp: pledged_def)
  have hand: "?off \<in> set (tp_Hand (player s ?i))" using registered_hand(2) [OF loc co] .
  have p: "player t j = (if j = ?i then (player s ?i)\<lparr>tp_Hand := trade_hand po (tp_Hand (player s ?i))\<rparr> else player s j)" if "0 \<le> j" for j
    using i that
    by (auto simp: t player_def settle_players Prelude.at_def upd_def in_range_def nat_eq_iff nth_list_update)
  show "mset (tp_Hand (player t ?i)) + {#?off#} = mset (tp_Hand (player s ?i)) + {#?req#}"
    using i hand p [of ?i] by (simp add: in_range_def trade_hand_def removeCopy_remove1)
  show "0 \<le> j \<Longrightarrow> j \<noteq> ?i \<Longrightarrow> player t j = player s j" using p by simp
  have "copy_good ?off co" using balancedD(3) [OF loc] co(1) by blast
  then show "board_ids t = map (\<lambda>k. if k = ?req then ?off else k) (board_ids s)"
    by (auto simp: t board_ids_def settle_board display_card_def copy_at_def co copy_good_def)
  obtain b where "b \<in> set (board_cards s)" "cd_CopyID (bc_Card b) = ?req" using registered_board [OF loc cr] by metis
  then show "?req \<in> set (board_ids s)" by (force simp: board_ids_def)
qed

lemma settle_declines:
  assumes "res \<noteq> ResAccept"
  shows "st_Players (settle_offer m s po seat res why now) = st_Players s"
    "board_cards (settle_offer m s po seat res why now) = board_cards s"
  using assms by (simp_all add: settle_players settle_board)

lemma settle_moves:
  assumes k: "kept m s" and po: "st_Offer s = Some po"
  shows "k \<notin> {po_OfferedCopyID po, po_RequestedCopyID po} \<Longrightarrow>
      map_of (st_Copies (settle_offer m s po seat res why now)) k = map_of (st_Copies s) k"
    "map_of (st_Copies (settle_offer m s po seat res why now)) k' = Some c \<Longrightarrow> \<not> cp_Reserved c"
  using calm_settle [OF assms, of seat res why now]
  by (simp_all add: calm_def reserved_only_def) (auto simp: settle_copies Let_def map_of_update)

end
