(* ===== verification/Verdicts.thy ===== *)
theory Verdicts
  imports Liveness
begin

section \<open>A verdict is final\<close>

text \<open>
  A match with a result is in the phase \<open>verdict\<close> without a pending offer, no request is valid for
  that phase, and the operations that remain leave its result, its points and its history alone.
\<close>

definition finished_ok :: "text_state \<Rightarrow> bool" where
  "finished_ok s \<longleftrightarrow> (st_Result s \<noteq> None \<longrightarrow> st_Phase s = PhaseVerdict \<and> st_Offer s = None)"

definition same_verdict :: "text_state \<Rightarrow> text_state \<Rightarrow> bool" where
  "same_verdict s t \<longleftrightarrow> st_Result t = st_Result s \<and> st_Phase t = st_Phase s \<and> st_Offer t = st_Offer s
     \<and> st_History t = st_History s \<and> map tp_Points (st_Players t) = map tp_Points (st_Players s)"

lemma verdict_no_request: "r_Phase r = PhaseVerdict \<Longrightarrow> \<not> variant_ok lang l r k"
  by (cases k) simp_all

lemma unresolved_ok: "st_Result t = None \<Longrightarrow> finished_ok t"
  by (simp add: finished_ok_def)

lemma result_resolveOffer [simp]: "st_Result (resolveOffer m t seat res why now) = st_Result t"
  by (simp add: resolveOffer_def settle_offer_def result_turns.R_nextTurn Let_def split: option.split)

lemma forced_offer: "st_Offer (resolveOffer m t seat res RForcedTransition now) = None"
  by (simp add: resolveOffer_def settle_offer_def Let_def split: option.split)

lemma finished_finish: "finished_ok t \<Longrightarrow> finished_ok (fst (finish m t oc w now p))"
  by (auto simp: finish_def Let_def finished_ok_def forced_offer)

lemma finalizeVote_finished:
  assumes "finalizeVote m t now p = Inr (u, q)" "st_Result t = None"
  shows "finished_ok u"
proof -
  have v: "finished_ok (vote_spent t)" using assms(2) by (simp add: finished_ok_def)
  from assms(1) show ?thesis
  proof (cases rule: finalizeVote_cases)
    case caught
    then show ?thesis using finished_finish [OF v] by (metis fst_conv)
  next
    case escaped
    then show ?thesis using finished_finish [OF v] by (metis fst_conv)
  next
    case begun
    then show ?thesis using beginRound_frame(2) [OF begun(1)] assms(2) by (intro unresolved_ok) simp
  qed
qed

lemma finished_step:
  assumes "step_state (advance_step m t now p) = Some u" "st_Result t = None"
  shows "finished_ok u"
proof (cases "st_Phase t = PhaseResult")
  case True
  define t1 where "t1 = (if unix_milli now \<ge> st_ResultRevealAt t then t\<lparr>st_ResultRevealed := True\<rparr> else t)"
  have t1: "st_Result t1 = None" using assms(2) by (simp add: t1_def)
  show ?thesis
    using assms t1 True finalizeVote_finished [OF _ t1]
    by (auto simp: advance_step_def Let_def t1_def [symmetric] unresolved_ok split: if_splits sum.splits)
next
  case False
  obtain v1 v2 where v: "resolveVote m t now p = (v1, v2)" by fastforce
  have "st_Result v1 = None" using resolveVote_frame(1) [OF v] assms(2) by simp
  then have "st_Result u = None"
    using assms v False by (cases "st_Phase t")
      (auto simp: advance_step_def start_knowoff_def result_turns.R_nextTurn result_turns.R_autoPass split: if_splits)
  then show ?thesis by (rule unresolved_ok)
qed

interpretation finished_clock: clock_invariant "\<lambda>m. finished_ok"
proof unfold_locales
  show "finished_ok (fst (expire_grace m now i sp))" if "finished_ok (fst sp)" for m now i sp
    using that by (simp add: expire_grace_def finished_ok_def Let_def)
qed (use finished_step finished_finish in auto)

subsection \<open>Actions in an unfinished match\<close>

lemma result_redeal: "st_Result (fst (redeal md active n i ks t cards)) = st_Result t"
  by (induction md active n i ks t cards rule: redeal.induct) (simp_all add: Let_def lay_out_def deal_back_def)

lemma result_shuffle: "shuffleSpecialty m t now = Inr u \<Longrightarrow> st_Result u = st_Result t"
proof -
  assume u: "shuffleSpecialty m t now = Inr u"
  define pool where "pool = go_shuffle (tm_rng m (tm_seed m + int (length (st_History t)) * 32452843)) 0 (shuffle_pool t)"
  define sc where "sc = redeal (mode m) (active_seats t) (shuffle_layout (mode m) (active_seats t)) 0 pool
    (set_board_cards [] (bump_revision (clear_hands t))) []"
  have "st_Result (fst sc) = st_Result t" by (simp add: sc_def result_redeal clear_hands_def)
  then show "st_Result u = st_Result t"
    using u by (auto simp: shuffleSpecialty_def Let_def pool_def [symmetric] sc_def [symmetric] result_turns.R_nextTurn
        split: if_splits prod.splits)
qed

lemma result_specialty: "Specialties.specialty m t seat a now = Inr u \<Longrightarrow> st_Result u = st_Result t"
proof -
  assume u: "Specialties.specialty m t seat a now = Inr u"
  have shuffle: "st_Result u = st_Result t" if "use_shuffle m t seat now = Inr u"
    using that by (auto simp: use_shuffle_def Let_def dest!: result_shuffle split: if_splits)
  have turn: "st_Result u = st_Result t" if "turn_card m t seat a now (a_Kind a) = Inr u"
    using that by (cases "a_Kind a")
      (auto simp: use_pass_def use_free_card_def use_reveal_def drop_specialty_def result_turns.R_nextTurn Let_def
        split: option.splits if_splits)
  show "st_Result u = st_Result t"
    using u shuffle turn
    by (auto simp: specialty_def view_reveal_def use_revote_def Let_def split: if_splits option.splits)
qed

lemma result_spend [simp]: "st_Result (spend t seat c j) = st_Result t"
  by (simp add: spend_def Let_def)

lemma result_play_card: "play_card m t seat a c now kd = Inr u \<Longrightarrow> st_Result u = st_Result t"
  by (cases kd) (auto simp: play_new_def play_replace_def play_top_def play_offer_def Let_def split: option.splits if_splits)

lemma finished_act:
  assumes "act m t seat a now p = Inr (u, q)" "st_Result t = None"
  shows "finished_ok u"
  using assms(1)
proof (cases rule: act_cases)
  case Specialty
  then show ?thesis using result_specialty assms(2) unresolved_ok by metis
next
  case Ready
  then show ?thesis using assms(2) finished_clock.J_advance
    by (auto simp: act_ready_def unresolved_ok split: if_splits)
next
  case Card
  then obtain c t1 where "play_card m t seat a c now (a_Kind a) = Inr t1"
    and u: "u = (if a_Kind a = ActionOffer then t1 else nextTurn m t1 now)"
    by (auto simp: act_card_def split: if_split_asm sum.split_asm)
  then have "st_Result t1 = None" using result_play_card assms(2) by metis
  then show ?thesis by (intro unresolved_ok) (simp add: u result_turns.R_nextTurn)
qed (use assms(2) in \<open>auto intro!: unresolved_ok simp: act_resolve_offer_def act_vote_def act_chat_def act_draw_def
      poke_def Let_def split: option.splits if_splits\<close>)

subsection \<open>Every operation\<close>

lemma finished_rebind:
  assumes "finished_ok t"
  shows "finished_ok (rebind m seat on now t) \<and> (st_Result t \<noteq> None \<longrightarrow> same_verdict t (rebind m seat on now t))"
proof (cases "st_Result t = None")
  case True
  then have "st_Result (rebind m seat on now t) = None"
    by (simp add: rebind_def flip_connected_def drop_votes_def result_turns.R_autoPass Let_def)
  then show ?thesis using True by (simp add: unresolved_ok)
next
  case False
  then have v: "st_Phase t = PhaseVerdict" "st_Offer t = None" using assms by (auto simp: finished_ok_def)
  have r: "rebind m seat on now t = flip_connected m seat on now t"
    using v by (simp add: rebind_def flip_connected_def offer_party_def drop_votes_def ballot_phase_def Let_def)
  have "map tp_Points (st_Players (flip_connected m seat on now t)) = map tp_Points (st_Players t)"
    unfolding flip_connected_def upd_player_def by (simp add: map_upd_same)
  then show ?thesis using v False unfolding r
    by (simp add: finished_ok_def same_verdict_def) (simp add: flip_connected_def)
qed

lemma same_verdict_refl [simp]: "same_verdict s s"
  by (simp add: same_verdict_def)

lemma same_verdict_trans: "same_verdict s t \<Longrightarrow> same_verdict t u \<Longrightarrow> same_verdict s u"
  by (simp add: same_verdict_def)

lemma finished_advance:
  "advance m t now p = Inr (u, q) \<Longrightarrow> finished_ok t \<Longrightarrow> finished_ok u \<and> (st_Result t \<noteq> None \<longrightarrow> u = t)"
  using finished_clock.J_advance by (auto simp: advance_def)

lemma finished_connected:
  assumes "set_connected_step m seat on now t p = Inr (u, q)" "finished_ok t"
  shows "finished_ok u \<and> (st_Result t \<noteq> None \<longrightarrow> same_verdict t u)"
proof -
  obtain s1 p1 where 1: "s1 = t \<and> p1 = p \<or> advance m t now p = Inr (s1, p1)"
    and 2: "u = s1 \<and> q = p1 \<or> advance m (rebind m seat on now s1) now p1 = Inr (u, q)"
    using assms(1) by (rule set_connected_cases)
  have s1: "finished_ok s1" "st_Result t \<noteq> None \<longrightarrow> s1 = t" using 1 finished_advance assms(2) by blast+
  note r = finished_rebind [OF s1(1), of m seat on now]
  have "finished_ok u" using 2 s1(1) r finished_advance by blast
  moreover have "same_verdict t u" if t: "st_Result t \<noteq> None"
  proof -
    have rt: "same_verdict t (rebind m seat on now t)" using r s1(2) t by simp
    then have "st_Result (rebind m seat on now t) \<noteq> None" using t by (simp add: same_verdict_def)
    then show ?thesis using 2 s1(2) t r rt finished_advance by (metis same_verdict_refl)
  qed
  ultimately show ?thesis by blast
qed

lemma finished_candidate:
  assumes "candidate m s t" "finished_ok s"
  shows "finished_ok t \<and> (st_Result s \<noteq> None \<longrightarrow> same_verdict s t)"
  using assms(1)
proof cases
  case (acted seat a r now p t' q)
  have "r_Phase r = st_Phase s" using acted(5) by (simp add: apply_guards_def CheckActionContext_def context_of_def)
  then have un: "st_Result s = None"
    using request_valid_variant [OF acted(4)] verdict_no_request [of "r\<lparr>r_Action := a\<rparr>"] assms(2)
    by (auto simp: finished_ok_def)
  then show ?thesis using finished_act [OF acted(7)] by (simp add: acted(1) finished_ok_def)
next
  case (advanced now p q)
  then show ?thesis using finished_advance assms(2) by (metis same_verdict_refl)
next
  case (connected seat on now p q)
  then show ?thesis using finished_connected assms(2) by blast
next
  case (closed now p)
  have "st_Result s \<noteq> None \<longrightarrow> t = s" using closed by (auto simp: finish_def)
  then show ?thesis using finished_finish [OF assms(2)] closed by auto
next
  case (granted seat kd)
  have "map tp_Points (upd seat (\<lambda>v. v\<lparr>tp_Specialty := kd\<rparr>) (st_Players s)) = map tp_Points (st_Players s)"
    by (rule map_upd_same) simp
  then show ?thesis using assms(2) granted by (simp add: finished_ok_def same_verdict_def upd_player_def)
qed

interpretation verdicts: step_contract
  "\<lambda>m s t. finished_ok s \<longrightarrow> finished_ok t \<and> (st_Result s \<noteq> None \<longrightarrow> same_verdict s t)"
proof unfold_locales
  show "finished_ok s \<longrightarrow> finished_ok u \<and> (st_Result s \<noteq> None \<longrightarrow> same_verdict s u)"
    if "finished_ok s \<longrightarrow> finished_ok t \<and> (st_Result s \<noteq> None \<longrightarrow> same_verdict s t)"
      "finished_ok t \<longrightarrow> finished_ok u \<and> (st_Result t \<noteq> None \<longrightarrow> same_verdict t u)" for s t u
    using that same_verdict_trans by (metis same_verdict_def)
qed (use finished_candidate in auto)

end
