(* ===== verification/Ballots.thy ===== *)
theory Ballots
  imports Seats Transitions Verdicts
begin

section \<open>The seats a state refers to\<close>

text \<open>
  The state of a match holds seat numbers that the code uses as indices of \<open>s.Players\<close> without a
  test: the turn order, the parties of the pending offer, the target of the reveal, voters, targets
  and candidates of a ballot and the seat its result eliminates. They are in range in every
  reachable match. On the way, an open ballot is what its evidence needs: candidates without
  repetition, at least two of them, and votes for candidates by seats other than themselves.
\<close>

definition offer_seats :: "text_state \<Rightarrow> int list" where
  "offer_seats s = (case st_Offer s of None \<Rightarrow> [] | Some po \<Rightarrow> [po_ProposerSeat po, po_RecipientSeat po])"

definition fallen_seats :: "text_state \<Rightarrow> int list" where
  "fallen_seats s = (case st_BallotResult s of None \<Rightarrow> [] | Some r \<Rightarrow> (case br_Seat r of None \<Rightarrow> [] | Some k \<Rightarrow> [k]))"

definition stored_seats :: "text_state \<Rightarrow> int list" where
  "stored_seats s = st_Order s @ offer_seats s @ (case st_RevealTarget s of None \<Rightarrow> [] | Some k \<Rightarrow> [k])
     @ map fst (st_Votes s) @ map snd (st_Votes s) @ st_Candidates s @ fallen_seats s"

subsection \<open>The invariant of ballots\<close>

text \<open>
  Between the ballots the candidates and the votes of the last one stay in the state. The number of
  seats still in the game exceeds the votes left by half the table, so a ballot never opens with a
  single candidate.
\<close>

definition ballot_ok :: "text_match \<Rightarrow> text_state \<Rightarrow> bool" where
  "ballot_ok m s \<longleftrightarrow> distinct (map fst (st_Votes s)) \<and> distinct (st_Candidates s)
     \<and> (\<forall>(v, t)\<in>set (st_Votes s). in_range v (st_Players s) \<and> in_range t (st_Players s) \<and> v \<noteq> t)
     \<and> (\<forall>c\<in>set (st_Candidates s). in_range c (st_Players s))
     \<and> (\<forall>k\<in>set (fallen_seats s). in_range k (st_Players s))
     \<and> mc_OriginalSize (tm_contract m) - mc_OriginalSize (tm_contract m) div 2 + st_RemainingVotes s
         \<le> int (length (active_seats s))"

definition voting_ok :: "text_state \<Rightarrow> bool" where
  "voting_ok s \<longleftrightarrow> (ballot_phase (st_Phase s) \<longrightarrow> (\<forall>(v, t)\<in>set (st_Votes s). t \<in> set (st_Candidates s)))
     \<and> (st_Phase s = PhaseKnowoff \<longrightarrow> st_Candidates s = active_seats s)
     \<and> (st_Phase s = PhaseRunoff \<longrightarrow> 2 \<le> length (st_Candidates s))"

definition balloted :: "text_match \<Rightarrow> text_state \<Rightarrow> bool" where
  "balloted m s \<longleftrightarrow> ballot_ok m s \<and> voting_ok s"

text \<open>What most operations do to a ballot: nothing, or they leave it.\<close>

definition same_ballot :: "text_state \<Rightarrow> text_state \<Rightarrow> bool" where
  "same_ballot s t \<longleftrightarrow> st_Votes t = st_Votes s \<and> st_Candidates t = st_Candidates s
     \<and> st_BallotResult t = st_BallotResult s \<and> st_RemainingVotes t = st_RemainingVotes s
     \<and> map tp_Eliminated (st_Players t) = map tp_Eliminated (st_Players s)
     \<and> (st_Phase t = st_Phase s \<or> \<not> ballot_phase (st_Phase t))"

lemma active_seats_cong:
  "map tp_Eliminated (st_Players t) = map tp_Eliminated (st_Players s) \<Longrightarrow> active_seats t = active_seats s"
  unfolding active_seats_def seats_where_def by (rule filter_indexed_cong) auto

lemma same_ballot_refl [simp]: "same_ballot s s"
  by (simp add: same_ballot_def)

lemma same_ballot_trans: "same_ballot s t \<Longrightarrow> same_ballot t u \<Longrightarrow> same_ballot s u"
  by (auto simp: same_ballot_def)

lemma same_ballot_ok:
  assumes "same_ballot s t" "ballot_ok m s"
  shows "ballot_ok m t"
proof -
  have "length (st_Players t) = length (st_Players s)" "active_seats t = active_seats s"
    using assms(1) active_seats_cong [of t s] by (auto simp: same_ballot_def dest: map_eq_imp_length_eq)
  then show ?thesis using assms by (simp add: same_ballot_def ballot_ok_def fallen_seats_def in_range_def)
qed

lemma same_ballot_keeps: "same_ballot s t \<Longrightarrow> balloted m s \<Longrightarrow> balloted m t"
  using same_ballot_ok [of s t m] active_seats_cong [of t s]
  by (auto simp: balloted_def same_ballot_def voting_ok_def ballot_phase_def)

lemma same_ballot_fields [simp]:
  "same_ballot s (put_copy k c t) = same_ballot s t" "same_ballot s (set_board_cards cs t) = same_ballot s t"
  "same_ballot s (add_event m t i kd w now b ds g) = same_ballot s t" "same_ballot s (bump_revision t) = same_ballot s t"
  "same_ballot s (t\<lparr>st_Turn := x0\<rparr>) = same_ballot s t" "same_ballot s (t\<lparr>st_Offer := x1\<rparr>) = same_ballot s t"
  "same_ballot s (t\<lparr>st_BallotKind := x4\<rparr>) = same_ballot s t" "same_ballot s (t\<lparr>st_Ready := x6\<rparr>) = same_ballot s t"
  "same_ballot s (t\<lparr>st_Pokes := x7\<rparr>) = same_ballot s t" "same_ballot s (t\<lparr>st_Copies := x8\<rparr>) = same_ballot s t"
  "same_ballot s (t\<lparr>st_Deadline := x9\<rparr>) = same_ballot s t" "same_ballot s (t\<lparr>st_ResultRevealAt := y0\<rparr>) = same_ballot s t"
  "same_ballot s (t\<lparr>st_ResultRevealed := y1\<rparr>) = same_ballot s t" "same_ballot s (t\<lparr>st_Requests := y2\<rparr>) = same_ballot s t"
  "same_ballot s (t\<lparr>st_ShuffleUsed := y3\<rparr>) = same_ballot s t" "same_ballot s (t\<lparr>st_RevoteUsed := y4\<rparr>) = same_ballot s t"
  "same_ballot s (t\<lparr>st_Round := y6\<rparr>) = same_ballot s t" "same_ballot s (t\<lparr>st_Result := y7\<rparr>) = same_ballot s t"
  "same_ballot s (t\<lparr>st_Order := y8\<rparr>) = same_ballot s t" "same_ballot s (t\<lparr>st_RevealTarget := y9\<rparr>) = same_ballot s t"
  "same_ballot s (t\<lparr>st_RevealCards := z0\<rparr>) = same_ballot s t"
  by (simp_all add: same_ballot_def set_board_cards_def)

lemma same_ballot_phase [simp]: "same_ballot s t \<Longrightarrow> \<not> ballot_phase ph \<Longrightarrow> same_ballot s (set_phase m t ph now n)"
  by (simp add: same_ballot_def)

lemma same_ballot_upd [simp]:
  "same_ballot s t \<Longrightarrow> (\<And>v. tp_Eliminated (f v) = tp_Eliminated v) \<Longrightarrow> same_ballot s (upd_player i f t)"
  by (simp add: same_ballot_def upd_player_def map_upd)

lemma same_ballot_map [simp]:
  "same_ballot s t \<Longrightarrow> (\<And>v. tp_Eliminated (f v) = tp_Eliminated v) \<Longrightarrow>
   same_ballot s (t\<lparr>st_Players := map f (st_Players t)\<rparr>)"
  by (simp add: same_ballot_def comp_def)

lemma same_ballot_cards [simp]:
  "same_ballot s t \<Longrightarrow> same_ballot s (spend t seat c j)" "same_ballot s t \<Longrightarrow> same_ballot s (discard t i k)"
  by (simp_all add: spend_def discard_def Let_def)

lemma same_ballot_pass: "same_ballot s t \<Longrightarrow> same_ballot s (pass_current m t why now)"
  by (simp add: pass_current_def Let_def)

lemma not_ballot [simp]: "\<not> ballot_phase PhasePlay" "\<not> ballot_phase PhaseDiscussion" "\<not> ballot_phase PhaseTradeResponse"
  "\<not> ballot_phase PhaseRoundStart" "\<not> ballot_phase PhaseResult" "\<not> ballot_phase PhaseVerdict"
  by (simp_all add: ballot_phase_def)

interpretation ballot_turns: turn_relation "\<lambda>m. same_ballot"
  by unfold_locales (auto simp: same_ballot_pass intro: same_ballot_trans)

lemma same_ballot_turns [simp]:
  "same_ballot s t \<Longrightarrow> same_ballot s (nextTurn m t now)" "same_ballot s t \<Longrightarrow> same_ballot s (autoPass m t why now)"
  using ballot_turns.R_nextTurn ballot_turns.R_autoPass same_ballot_trans by blast+

lemma same_ballot_resolveOffer [simp]: "same_ballot s t \<Longrightarrow> same_ballot s (resolveOffer m t seat res why now)"
  by (simp add: resolveOffer_def settle_offer_def Let_def split: option.split)

lemma same_ballot_seed_loop: "seed_loop md texts em t cs = Inr (u, em') \<Longrightarrow> same_ballot s t \<Longrightarrow> same_ballot s u"
  by (induction md texts em t cs rule: seed_loop.induct) (auto split: if_splits)

subsection \<open>Rounds, ballots and the clock\<close>

lemma ballot_cleared:
  assumes "ballot_ok m s" "map tp_Eliminated (st_Players t) = map tp_Eliminated (st_Players s)"
    and "st_RemainingVotes t = st_RemainingVotes s" "st_Votes t = []" "st_Candidates t = []" "st_BallotResult t = None"
    and "\<not> ballot_phase (st_Phase t)"
  shows "balloted m t"
  using assms active_seats_cong [OF assms(2)]
  by (auto simp: balloted_def ballot_ok_def voting_ok_def fallen_seats_def ballot_phase_def)

lemma balloted_beginRound:
  assumes "beginRound m (t\<lparr>st_Round := n\<rparr>) now = Inr u" "ballot_ok m t"
  shows "balloted m u"
proof -
  let ?o = "open_round m (t\<lparr>st_Round := n\<rparr>) now"
  have "balloted m ?o"
    by (rule ballot_cleared [OF assms(2)])
      (simp_all add: open_round_def retire_board_def clear_round_player_def set_board_cards_def comp_def Let_def)
  moreover have "same_ballot ?o u"
    using assms(1) same_ballot_seed_loop [where s = ?o]
    by (auto simp: beginRound_def Let_def split: if_split_asm sum.split_asm prod.split_asm)
  ultimately show ?thesis using same_ballot_keeps by blast
qed

lemma same_ballot_fold:
  assumes "\<And>x sp. same_ballot s (fst sp) \<Longrightarrow> same_ballot s (fst (f x sp))"
  shows "same_ballot s (fst sp) \<Longrightarrow> same_ballot s (fst (fold f xs sp))"
  by (induction xs arbitrary: sp) (simp_all add: assms)

lemma same_ballot_scores [simp]:
  "same_ballot s (fst sp) \<Longrightarrow> same_ballot s (fst (score_vote m now seat sp))"
  "same_ballot s (fst sp) \<Longrightarrow> same_ballot s (fst (score_survival m now tied seat sp))"
  "same_ballot s (fst sp) \<Longrightarrow> same_ballot s (fst (expire_grace m now seat sp))"
  by (simp_all add: score_vote_def score_survival_def expire_grace_def Let_def split: option.splits)

lemma tied_range: "distinct (tied_seats s) \<and> (\<forall>i\<in>set (tied_seats s). in_range i (st_Players s))"
  by (auto simp: tied_seats_def all_seats_def in_range_def distinct_map split: prod.split)

lemma balloted_close:
  assumes "ballot_ok m s"
  shows "balloted m (fst (close_ballot m s (tied_seats s) now p))"
proof -
  let ?t = "s\<lparr>st_BallotResult := Some (final_result s (tied_seats s)), st_Phase := PhaseResult\<rparr>"
  have "set (fallen_seats ?t) \<subseteq> set (tied_seats s)"
    by (auto simp: fallen_seats_def final_result_def no_result_def split: list.splits)
  then have "balloted m ?t"
    using assms tied_range [of s] by (auto simp: balloted_def ballot_ok_def voting_ok_def active_seats_def)
  moreover have "same_ballot ?t (set_phase m u PhaseResult now n)"
    if "same_ballot (s\<lparr>st_BallotResult := Some (final_result s (tied_seats s))\<rparr>) u" for u n
    using that by (simp add: same_ballot_def)
  then have "same_ballot ?t (fst (close_ballot m s (tied_seats s) now p))"
    by (simp add: close_ballot_def recordBallot_def Let_def same_ballot_fold)
  ultimately show ?thesis using same_ballot_keeps by blast
qed

lemma balloted_resolveVote:
  assumes "ballot_ok m s"
  shows "balloted m (fst (resolveVote m s now p))"
proof (cases "length (tied_seats s) > 1 \<and> st_Phase s = PhaseKnowoff")
  case True
  then show ?thesis using assms tied_range [of s]
    by (simp add: resolveVote_def Let_def open_runoff_def recordBallot_def balloted_def ballot_ok_def voting_ok_def
        active_seats_def fallen_seats_def)
next
  case False
  then show ?thesis using balloted_close [OF assms] by (auto simp: resolveVote_def Let_def)
qed

lemma balloted_knowoff:
  assumes "ballot_ok m s" "st_Votes t = []" "st_Candidates t = active_seats s" "st_Phase t = PhaseKnowoff"
    and "st_RemainingVotes t = st_RemainingVotes s" "map tp_Eliminated (st_Players t) = map tp_Eliminated (st_Players s)"
    and "st_BallotResult t = st_BallotResult s \<or> st_BallotResult t = None"
  shows "balloted m t"
proof -
  have "length (st_Players t) = length (st_Players s)" "active_seats t = active_seats s"
    using assms(6) active_seats_cong [of t s] by (auto dest: map_eq_imp_length_eq)
  moreover have "set (fallen_seats t) \<subseteq> set (fallen_seats s)" using assms(7) by (auto simp: fallen_seats_def)
  ultimately show ?thesis
    using assms by (auto simp: balloted_def ballot_ok_def voting_ok_def in_range_def active_seats_def set_seats_where)
qed

lemma same_ballot_finish: "same_ballot s t \<Longrightarrow> same_ballot s (fst (finish m t oc w now p))"
  by (simp add: finish_def Let_def)

lemma ballot_ok_spent:
  assumes "ballot_ok m s"
  shows "ballot_ok m (vote_spent s)"
proof -
  let ?t = "eliminate_voted s"
  have f: "st_Votes ?t = st_Votes s" "st_Candidates ?t = st_Candidates s" "st_BallotResult ?t = st_BallotResult s"
    "length (st_Players ?t) = length (st_Players s)" "st_RemainingVotes ?t = st_RemainingVotes s"
    by (simp_all add: eliminate_voted_def split: option.split)
  have "\<exists>k. set (active_seats s) \<subseteq> insert k (set (active_seats ?t))"
  proof (cases "fallen_seats s")
    case Nil
    then have "?t = s" by (auto simp: eliminate_voted_def fallen_seats_def split: option.splits)
    then show ?thesis by auto
  next
    case (Cons k ks)
    then have t: "?t = upd_player k (\<lambda>v. v\<lparr>tp_Eliminated := True\<rparr>) s" and k: "in_range k (st_Players s)"
      using assms by (auto simp: eliminate_voted_def fallen_seats_def ballot_ok_def split: option.splits)
    show ?thesis
      by (intro exI [of _ k]) (auto simp: t active_seats_def set_seats_where upd_player_def at_upd [OF k] split: if_splits)
  qed
  then obtain k where "set (active_seats s) \<subseteq> insert k (set (active_seats ?t))" ..
  then have "card (set (active_seats s)) \<le> card (insert k (set (active_seats ?t)))" by (intro card_mono) simp_all
  also have "\<dots> \<le> Suc (card (set (active_seats ?t)))" by (simp add: card_insert_if)
  finally have "length (active_seats s) \<le> Suc (length (active_seats ?t))"
    by (simp add: active_seats_def distinct_card)
  moreover have "active_seats (vote_spent s) = active_seats ?t" by (simp add: active_seats_def)
  ultimately show ?thesis using assms by (auto simp: ballot_ok_def fallen_seats_def f in_range_def)
qed

lemma balloted_finish: "ballot_ok m t \<Longrightarrow> st_Result t = None \<Longrightarrow> balloted m (fst (finish m t oc w now p))"
proof -
  assume t: "ballot_ok m t" and r: "st_Result t = None"
  have "same_ballot t (fst (finish m t oc w now p))" by (rule same_ballot_finish) simp
  moreover have "st_Phase (fst (finish m t oc w now p)) = PhaseVerdict" using r by (simp add: finish_def Let_def)
  ultimately show ?thesis using same_ballot_ok [OF _ t] by (simp add: balloted_def voting_ok_def)
qed

lemma balloted_finalizeVote:
  assumes "finalizeVote m t now p = Inr (u, q)" "ballot_ok m t" "st_Result t = None"
  shows "balloted m u"
proof -
  have v: "ballot_ok m (vote_spent t)" "st_Result (vote_spent t) = None"
    using ballot_ok_spent [OF assms(2)] assms(3) by simp_all
  from assms(1) show ?thesis
  proof (cases rule: finalizeVote_cases)
    case caught
    then show ?thesis using balloted_finish [OF v] by (metis fst_conv)
  next
    case escaped
    then show ?thesis using balloted_finish [OF v] by (metis fst_conv)
  next
    case begun
    then show ?thesis using balloted_beginRound v(1) by blast
  qed
qed

lemma balloted_advance_step:
  assumes "step_state (advance_step m t now p) = Some u" "balloted m t" "st_Result t = None"
  shows "balloted m u"
proof (cases "st_Phase t = PhaseResult")
  case True
  define t1 where "t1 = (if unix_milli now \<ge> st_ResultRevealAt t then t\<lparr>st_ResultRevealed := True\<rparr> else t)"
  have s: "same_ballot t t1" "st_Result t1 = None" using assms(3) by (simp_all add: t1_def)
  then have t1: "balloted m t1" "ballot_ok m t1" using same_ballot_keeps [OF _ assms(2)] by (simp_all add: balloted_def)
  show ?thesis
    using assms t1 True balloted_finalizeVote [OF _ t1(2) s(2)]
    by (auto simp: advance_step_def Let_def t1_def [symmetric] split: if_splits sum.splits)
next
  case False
  have t: "ballot_ok m t" using assms(2) by (simp add: balloted_def)
  obtain v1 v2 where v: "resolveVote m t now p = (v1, v2)" by fastforce
  have v1: "balloted m v1" using balloted_resolveVote [OF t, of now p] by (simp add: v)
  have k: "balloted m (start_knowoff m t now)"
    by (rule balloted_knowoff [OF t]) (simp_all add: start_knowoff_def active_seats_def)
  have n: "balloted m x" if "same_ballot t x" for x using that assms(2) by (rule same_ballot_keeps)
  show ?thesis
    using assms v v1 k n False by (cases "st_Phase t") (auto simp: advance_step_def split: if_splits)
qed

interpretation ballot_clock: clock_invariant balloted
proof unfold_locales
  show "balloted m u" if "balloted m t" "st_Result t = None" "step_state (advance_step m t now p) = Some u" for m t now p u
    using balloted_advance_step that by blast
  show "balloted m (fst (expire_grace m now i sp))" if "balloted m (fst sp)" for m sp now i
    using that by (rule same_ballot_keeps [rotated]) simp
  show "balloted m (fst (finish m t oc w now p))" if "balloted m t" for m t oc w now p
    using that by (rule same_ballot_keeps [rotated]) (simp add: same_ballot_finish)
qed

subsection \<open>Actions and connections\<close>

lemma same_ballot_redeal: "same_ballot s t \<Longrightarrow> same_ballot s (fst (redeal md active n i ks t cards))"
  by (induction md active n i ks t cards rule: redeal.induct) (simp_all add: Let_def lay_out_def deal_back_def)

lemma same_ballot_clear [simp]: "same_ballot s t \<Longrightarrow> same_ballot s (clear_hands t)"
  unfolding clear_hands_def by (rule same_ballot_map) simp_all

lemma same_ballot_shuffle: "shuffleSpecialty m t now = Inr u \<Longrightarrow> same_ballot s t \<Longrightarrow> same_ballot s u"
proof -
  assume u: "shuffleSpecialty m t now = Inr u" and t: "same_ballot s t"
  define pool where "pool = go_shuffle (tm_rng m (tm_seed m + int (length (st_History t)) * 32452843)) 0 (shuffle_pool t)"
  define sc where "sc = redeal (mode m) (active_seats t) (shuffle_layout (mode m) (active_seats t)) 0 pool
    (set_board_cards [] (bump_revision (clear_hands t))) []"
  have "same_ballot s (fst sc)" using t by (simp add: sc_def same_ballot_redeal)
  then show "same_ballot s u"
    using u by (auto simp: shuffleSpecialty_def Let_def pool_def [symmetric] sc_def [symmetric] split: if_splits prod.splits)
qed

lemma same_ballot_use_reveal: "use_reveal m t seat k now = Inr u \<Longrightarrow> same_ballot s t \<Longrightarrow> same_ballot s u"
proof -
  assume u: "use_reveal m t seat k now = Inr u" and t: "same_ballot s t"
  define t1 where "t1 = drop_specialty seat t"
  define t2 where "t2 = t1\<lparr>st_Players := map (\<lambda>v. v\<lparr>tp_RevealUsed := False, tp_RevealUntil := 0\<rparr>) (st_Players t1)\<rparr>"
  have "same_ballot s t1" using t by (simp add: t1_def drop_specialty_def)
  then have "same_ballot s t2" by (simp add: t2_def)
  then show "same_ballot s u"
    using u by (auto simp: use_reveal_def Let_def t1_def [symmetric] t2_def [symmetric] split: if_splits)
qed

lemma balloted_use_revote: "use_revote m t seat now = Inr u \<Longrightarrow> balloted m t \<Longrightarrow> balloted m u"
proof -
  assume u: "use_revote m t seat now = Inr u" and t: "balloted m t"
  define t1 where "t1 = upd_player seat (\<lambda>v. v\<lparr>tp_Specialty := NoSpecialty\<rparr>) t"
  have "balloted m t1" using t by (rule same_ballot_keeps [rotated]) (simp add: t1_def)
  then show "balloted m u"
    using u by (intro balloted_knowoff [where s = t1])
      (auto simp: use_revote_def balloted_def active_seats_def t1_def Let_def split: if_splits)
qed

lemma balloted_specialty:
  assumes "Specialties.specialty m t seat a now = Inr u" "balloted m t"
  shows "balloted m u"
proof -
  have shuffle: "same_ballot t u" if "use_shuffle m t seat now = Inr u"
    using that by (auto simp: use_shuffle_def Let_def same_ballot_shuffle split: if_splits)
  have turn: "same_ballot t u" if "turn_card m t seat a now (a_Kind a) = Inr u"
    using that by (cases "a_Kind a")
      (auto simp: use_pass_def use_free_card_def drop_specialty_def Let_def split: option.splits if_splits
        elim!: same_ballot_use_reveal)
  have "same_ballot t u \<or> use_revote m t seat now = Inr u"
    using assms(1) shuffle turn
    by (auto simp: specialty_def view_reveal_def Let_def split: if_splits option.splits)
  then show ?thesis using assms(2) same_ballot_keeps balloted_use_revote by blast
qed

lemma same_ballot_play_card: "play_card m t seat a c now kd = Inr u \<Longrightarrow> same_ballot s t \<Longrightarrow> same_ballot s u"
  by (cases kd) (auto simp: play_new_def play_replace_def play_top_def play_offer_def Let_def split: option.splits if_splits)

lemma balloted_act_vote:
  assumes "act_vote m t seat a now = Inr u" "balloted m t" "in_range seat (st_Players t)"
  shows "balloted m u"
proof -
  obtain target where a: "a_TargetSeat a = Some target" and ph: "ballot_phase (st_Phase t)"
    and target: "target \<noteq> seat" "in_range target (st_Players t)" "\<not> tp_Eliminated (player t target)"
      "st_Phase t = PhaseRunoff \<longrightarrow> target \<in> set (st_Candidates t)"
    and u: "u = add_event m (t\<lparr>st_Votes := AList.update seat target (st_Votes t)\<rparr>) seat EvVote RPlayer now (revision t) []
       (\<lambda>e. e\<lparr>e_TargetSeat := a_TargetSeat a\<rparr>)"
    using assms(1) by (auto simp: act_vote_def split: option.splits if_splits)
  have "target \<in> set (active_seats t)"
    using target(2,3) by (simp add: active_seats_def set_seats_where player_def)
  then have c: "target \<in> set (st_Candidates t)"
    using target(4) ph assms(2) by (auto simp: balloted_def voting_ok_def ballot_phase_def)
  have d: "distinct (map fst (st_Votes t))" using assms(2) by (simp add: balloted_def ballot_ok_def)
  have votes: "(x = seat \<and> y = target) \<or> (x, y) \<in> set (st_Votes t)"
    if "(x, y) \<in> set (AList.update seat target (st_Votes t))" for x y
    using map_of_Some_update_mem [OF that d] by blast
  have "ballot_ok m u"
    using assms(2,3) target votes d
    by (fastforce simp: u balloted_def ballot_ok_def fallen_seats_def active_seats_def distinct_update)
  moreover have "voting_ok u"
    using assms(2) votes c by (fastforce simp: u balloted_def voting_ok_def active_seats_def)
  ultimately show ?thesis by (simp add: balloted_def)
qed

lemma balloted_act:
  assumes "act m t seat a now p = Inr (u, q)" "balloted m t" "in_range seat (st_Players t)"
  shows "balloted m u"
  using assms(1)
proof (cases rule: act_cases)
  case Specialty
  then show ?thesis using balloted_specialty assms(2) by blast
next
  case Ready
  have "balloted m (add_event m (t\<lparr>st_Ready := AList.update seat True (st_Ready t)\<rparr>) seat EvReady RPlayer now (revision t) [] (\<lambda>e. e))"
    using assms(2) by (rule same_ballot_keeps [rotated]) simp
  then show ?thesis using Ready ballot_clock.J_advance by (auto simp: act_ready_def split: if_splits)
next
  case Vote
  then show ?thesis using balloted_act_vote assms(2,3) by blast
next
  case Card
  then obtain c t1 where "play_card m t seat a c now (a_Kind a) = Inr t1"
    and u: "u = (if a_Kind a = ActionOffer then t1 else nextTurn m t1 now)"
    by (auto simp: act_card_def split: if_split_asm sum.split_asm)
  then have "same_ballot t u" using same_ballot_play_card [of m t seat a c now "a_Kind a" t1 t] by simp
  then show ?thesis using assms(2) by (rule same_ballot_keeps)
qed (use same_ballot_keeps [OF _ assms(2)] in \<open>auto simp: act_resolve_offer_def act_chat_def act_draw_def poke_def Let_def
      split: option.splits if_splits\<close>)

lemma balloted_drop_votes: "balloted m t \<Longrightarrow> balloted m (drop_votes seat t)"
proof -
  assume t: "balloted m t"
  have sub: "(x, y) \<in> set (AList.delete seat (st_Votes t)) \<Longrightarrow> (x, y) \<in> set (st_Votes t)" for x y
    by (simp add: AList.delete_eq)
  have "balloted m (t\<lparr>st_Votes := AList.delete seat (st_Votes t)\<rparr>)"
    using t sub distinct_delete [of "st_Votes t" seat]
    by (fastforce simp: balloted_def ballot_ok_def voting_ok_def fallen_seats_def active_seats_def)
  then show ?thesis using t
    by (auto simp: drop_votes_def Let_def intro: same_ballot_keeps [rotated])
qed

lemma balloted_rebind: "balloted m t \<Longrightarrow> balloted m (rebind m seat on now t)"
proof -
  assume t: "balloted m t"
  define s1 where "s1 = flip_connected m seat on now t"
  define s2 where "s2 = (if offer_party s1 seat then resolveOffer m s1 (-1) ResCancel RDisconnect now else s1)"
  define s3 where "s3 = (if \<not> on \<and> st_Phase s2 = PhasePlay \<and> current s2 = seat then autoPass m s2 RDisconnect now else s2)"
  have "same_ballot t s1" by (simp add: s1_def flip_connected_def)
  then have "same_ballot t s2" by (simp add: s2_def)
  then have "same_ballot t s3" by (simp add: s3_def)
  then have "balloted m s3" using t by (rule same_ballot_keeps)
  moreover have "rebind m seat on now t = (if \<not> on \<and> \<not> tp_Eliminated (player s3 seat) then drop_votes seat s3 else s3)"
    unfolding rebind_def Let_def s1_def s2_def s3_def ..
  ultimately show "balloted m (rebind m seat on now t)" by (simp add: balloted_drop_votes)
qed

lemma balloted_candidate:
  assumes "candidate m s t" "kept m s" "balloted m s"
  shows "balloted m t"
  using assms(1)
proof cases
  case (acted seat a r now p t' q)
  have "in_range seat (st_Players s)"
    using acted(2,3) assms(2) by (simp add: kept_def stocked_def seats_ok_def in_range_def)
  then have "balloted m t'" using balloted_act [OF acted(7) assms(3)] by blast
  then show ?thesis unfolding acted(1) by (rule same_ballot_keeps [rotated]) simp
next
  case (advanced now p q)
  then show ?thesis using ballot_clock.J_advance assms(3) by blast
next
  case (connected seat on now p q)
  then show ?thesis using ballot_clock.J_set_connected assms(3) balloted_rebind by blast
next
  case (closed now p)
  then show ?thesis using ballot_clock.J_finish assms(3) by simp
next
  case (granted seat kd)
  then show ?thesis using assms(3) by (auto intro: same_ballot_keeps [rotated])
qed

lemma same_setup_balloted: "same_setup c m \<Longrightarrow> balloted c s = balloted m s"
  by (erule same_setup_fields) (simp add: balloted_def ballot_ok_def)

interpretation ballots: step_contract "\<lambda>m s t. kept m s \<and> balloted m s \<longrightarrow> kept m t \<and> balloted m t"
proof unfold_locales
  show "(\<lambda>s t. kept c s \<and> balloted c s \<longrightarrow> kept c t \<and> balloted c t) = (\<lambda>s t. kept m s \<and> balloted m s \<longrightarrow> kept m t \<and> balloted m t)"
    if "same_setup c m" for c m
    by (simp add: same_setup_kept [OF that] same_setup_balloted [OF that])
  show "kept m s \<and> balloted m s \<longrightarrow> kept m t \<and> balloted m t" if "candidate m s t" "kept m s" "seeds_registered m" for m s t
    using that kept_candidate balloted_candidate by blast
qed simp_all

subsection \<open>Reachable matches\<close>

lemma started_table:
  assumes "NewTextMatch env opts = Inr m0"
  shows "4 \<le> mc_OriginalSize (tm_contract m0) \<and> mc_OriginalSize (tm_contract m0) \<le> 6
    \<and> int (length (tm_nowns m0)) = mc_OriginalSize (tm_contract m0) div 2
    \<and> int (length (tm_seeds m0)) = mc_OriginalSize (tm_contract m0) div 2"
  using assms
proof (cases rule: started_roles)
  case (1 c seed d s)
  have k: "tm_contract m0 = op_Contract opts" "length (tm_nowns m0) = length (de_Nowns (op_Deal opts))"
    "length (tm_seeds m0) = length (de_SystemSeeds (op_Deal opts))"
    by (simp_all add: 1(6)) (simp_all add: initial_match_def Let_def)
  have "contract_Validate (sr_lang env) (op_Contract opts) = None"
    "int (length (de_Nowns (op_Deal opts))) = mc_OriginalSize (op_Contract opts) div 2"
    "int (length (de_SystemSeeds (op_Deal opts))) = mc_OriginalSize (op_Contract opts) div 2"
    using 1(1) by (simp_all add: options_check_def Let_def)
  then show ?thesis by (auto simp: k contract_Validate_def size_ok_def Let_def)
qed

lemma started_balloted:
  assumes "NewTextMatch env opts = Inr m0"
  shows "balloted m0 (tm_state m0)"
  using assms
proof (cases rule: started_roles)
  case (1 c seed d s)
  let ?ps = "set_roles env seed opts (dl_players d)" and ?m = "initial_match env opts c seed d"
  let ?s = "initial_state opts d ?ps"
  have "\<forall>v\<in>set ?ps. newcomer v" using newcomers_roles 1(3) by blast
  then have "filter (\<lambda>(i, v). \<not> tp_Eliminated v) (indexed ?ps) = indexed ?ps"
    by (auto simp: filter_id_conv set_indexed at_def in_range_def newcomer_def)
  then have "length (active_seats ?s) = length ?ps"
    by (simp add: active_seats_def seats_where_def initial_state_def)
  then have "int (length (active_seats ?s)) = mc_OriginalSize (op_Contract opts)" using 1(4) by simp
  then have "ballot_ok ?m ?s"
    by (simp add: ballot_ok_def fallen_seats_def initial_match_def initial_state_def Let_def)
  moreover have "beginRound ?m (?s\<lparr>st_Round := 1\<rparr>) (sr_clock env 0) = Inr s"
    using 1(5) by (simp add: initial_state_def)
  ultimately have "balloted ?m s" using balloted_beginRound by blast
  then show ?thesis by (simp add: 1(6) balloted_def ballot_ok_def)
qed

lemma stored_in_range:
  assumes "kept m s" "sound 0 m s" "balloted m s"
  shows "\<forall>i\<in>set (stored_seats s). in_range i (st_Players s)"
proof -
  have "\<forall>i\<in>set (st_Order s). in_range i (st_Players s)" "int (length (st_Players s)) = mc_OriginalSize (tm_contract m)"
    using assms(1) by (simp_all add: kept_def stocked_def seats_ok_def)
  moreover have "\<forall>i\<in>set (offer_seats s). in_range i (st_Players s)"
    using assms(1) by (auto simp: kept_def pledged_def offer_seats_def split: option.splits)
  moreover have "in_range k (st_Players s)" if "st_RevealTarget s = Some k" for k
    using that assms(2) calculation(2) by (simp add: sound_def reveal_ok_def in_range_def)
  moreover have "(\<forall>(v, t)\<in>set (st_Votes s). in_range v (st_Players s) \<and> in_range t (st_Players s))
    \<and> (\<forall>c\<in>set (st_Candidates s). in_range c (st_Players s)) \<and> (\<forall>k\<in>set (fallen_seats s). in_range k (st_Players s))"
    using assms(3) by (auto simp: balloted_def ballot_ok_def)
  ultimately show ?thesis by (auto simp: stored_seats_def split: option.splits)
qed

end
