(* ===== verification/Accepting.thy ===== *)
theory Accepting
  imports Ballots
begin

section \<open>Which actions are accepted\<close>

text \<open>
  The rejections of \<open>act\<close> are protocol errors that the transport can report, never a panic or an
  internal error; and an accepted action is one of the capabilities the seat's snapshot lists.
\<close>

definition protocol_error :: "go_error \<Rightarrow> bool" where
  "protocol_error e \<longleftrightarrow> (\<exists>code path. e = invalid code path)"

lemma protocol_error_invalid [simp]: "protocol_error (invalid code path)"
  by (auto simp: protocol_error_def)

subsection \<open>Rejections\<close>

text \<open>
  The panics of the model are excluded by what validation and the guards of \<open>Apply\<close> establish (a
  seat of the table that is still in the game, target seats that are not negative, counts that are
  positive) and by the code's own tests of the upper bounds.
\<close>

lemma target_in_range: "\<not> int (length xs) \<le> t \<Longrightarrow> 0 \<le> t \<Longrightarrow> in_range t xs"
  by (simp add: in_range_def)

lemma shuffle_rejects:
  assumes "use_shuffle m s seat now = Inl e" "in_range seat (st_Players s)" "\<not> tp_Eliminated (player s seat)"
  shows "protocol_error e"
proof -
  define s1 where "s1 = (if st_Offer s \<noteq> None then resolveOffer m s (-1) ResCancel RForcedTransition now else s)"
  define s2 where "s2 = (upd_player seat (\<lambda>v. v\<lparr>tp_Specialty := NoSpecialty\<rparr>) s1)\<lparr>st_ShuffleUsed := True\<rparr>"
  have "same_ballot s s2" by (simp add: s1_def s2_def)
  then have "active_seats s2 = active_seats s" by (intro active_seats_cong) (simp add: same_ballot_def)
  moreover have "seat \<in> set (active_seats s)"
    using assms(2,3) by (simp add: active_seats_def set_seats_where player_def)
  ultimately have ne: "active_seats s2 \<noteq> []" by auto
  have "protocol_error e" if "shuffleSpecialty m s2 now = Inl e"
    using that ne by (auto simp: shuffleSpecialty_def Let_def split: if_splits prod.splits)
  moreover have "use_shuffle m s seat now =
      (if tp_Role (player s seat) \<noteq> Donower \<or> st_ShuffleUsed s then Inl (invalid ErrUnauthorized ''shuffle'')
       else shuffleSpecialty m s2 now)"
    unfolding use_shuffle_def Let_def s1_def s2_def ..
  ultimately show ?thesis using assms(1) by (auto split: if_splits)
qed

lemma specialty_rejects:
  assumes "Specialties.specialty m s seat a now = Inl e"
    and "a_Kind a = ActionReveal \<Longrightarrow> \<exists>t. a_TargetSeat a = Some t \<and> 0 \<le> t"
    and "in_range seat (st_Players s)" "\<not> tp_Eliminated (player s seat)"
    and "\<And>t. st_RevealTarget s = Some t \<Longrightarrow> in_range t (st_Players s)"
  shows "protocol_error e"
proof -
  have turn: "protocol_error e" if "turn_card m s seat a now (a_Kind a) = Inl e"
    using that assms(2) by (cases "a_Kind a")
      (auto simp: use_pass_def use_reveal_def use_free_card_def target_in_range Let_def split: if_splits option.splits)
  have view: "protocol_error e" if "view_reveal m s seat now = Inl e"
    using that assms(5) by (auto simp: view_reveal_def Let_def split: if_splits option.splits)
  show ?thesis
    using assms(1,3) turn view shuffle_rejects [OF _ assms(3,4)]
    by (auto simp: specialty_def use_revote_def Let_def split: if_splits)
qed

lemma play_card_rejects:
  assumes "play_card m s seat a c now kd = Inl e" "kd = ActionReplace \<Longrightarrow> a_Slot a \<noteq> None"
    and "kd = ActionOffer \<Longrightarrow> \<exists>t. a_TargetSeat a = Some t \<and> 0 \<le> t"
  shows "protocol_error e"
  using assms by (cases kd)
    (auto simp: play_new_def play_replace_def play_top_def play_offer_def target_in_range Let_def
      split: if_splits option.splits)

lemma act_rejects:
  assumes "act m s seat a now p = Inl e" "variant_ok lang l (r\<lparr>r_Action := a\<rparr>) (a_Kind a)"
    and "loaded m" "0 < ti_PlayTurn (tm_timers m)" "sound 0 m s" "poised s" "kept m s"
    and "in_range seat (st_Players s)" "\<not> tp_Eliminated (player s seat)"
  shows "protocol_error e"
proof -
  let ?k = "a_Kind a"
  have fields: "?k = ActionReveal \<Longrightarrow> \<exists>t. a_TargetSeat a = Some t \<and> 0 \<le> t" "?k = ActionReplace \<Longrightarrow> a_Slot a \<noteq> None"
    "?k = ActionOffer \<Longrightarrow> \<exists>t. a_TargetSeat a = Some t \<and> 0 \<le> t" "?k = ActionDraw \<Longrightarrow> \<exists>n. a_Count a = Some n \<and> 0 \<le> n"
    "?k = ActionVote \<Longrightarrow> \<exists>t. a_TargetSeat a = Some t \<and> 0 \<le> t" "?k = ActionPoke \<Longrightarrow> a_TargetSeat a \<noteq> None"
    using assms(2) by (auto simp: ptr_seat_Some opt_in_def split: option.splits)
  have reveal: "in_range t (st_Players s)" if "st_RevealTarget s = Some t" for t
    using that assms(5,7) by (simp add: sound_def reveal_ok_def kept_def stocked_def seats_ok_def in_range_def)
  have party: "in_range (po_ProposerSeat po) (st_Players s)" if "st_Offer s = Some po" for po
    using that assms(7) by (simp add: kept_def pledged_def)
  have ready: "protocol_error e" if "act_ready m s seat now p = Inl e"
  proof -
    let ?t = "add_event m (s\<lparr>st_Ready := AList.update seat True (st_Ready s)\<rparr>) seat EvReady RPlayer now (revision s) [] (\<lambda>e. e)"
    have "\<exists>u q. advance m ?t now p = Inr (u, q)" using assms(5,6) by (intro advance_total [OF assms(3,4)]) simp_all
    then show ?thesis using that by (auto simp: act_ready_def split: if_splits)
  qed
  have card: "protocol_error e" if "act_card m s seat a now = Inl e"
    using that assms(8) play_card_rejects [OF _ fields(2,3)]
    by (auto simp: act_card_def owned_def split: if_splits sum.splits option.splits)
  have draw: "protocol_error e" if "act_draw m s seat a now = Inl e" "?k = ActionDraw"
    using that fields(4) assms(8) by (auto simp: act_draw_def Let_def split: if_splits option.splits)
  have vote: "protocol_error e" if "act_vote m s seat a now = Inl e" "?k = ActionVote"
    using that fields(5) by (auto simp: act_vote_def target_in_range split: if_splits option.splits)
  have offer: "protocol_error e" if "act_resolve_offer m s seat a now = Inl e"
    using that party by (auto simp: act_resolve_offer_def split: if_splits option.splits)
  have poke: "protocol_error e" if "poke m s seat t now = Inl e" for t
    using that assms(8) by (cases "st_Phase s") (auto simp: poke_def Let_def reject_if_def split: if_splits option.splits)
  show ?thesis
    using assms(1) ready card draw vote offer poke specialty_rejects [OF _ fields(1) assms(8,9) reveal] fields(6)
    by (auto simp: act_def with_pending_def split: if_splits sum.splits option.splits)
qed

subsection \<open>Capabilities\<close>

lemma specialty_advertised:
  assumes "Specialties.specialty m s seat a now = Inr t" "isSpecialtyAction (a_Kind a)"
    and "variant_ok lang l (r\<lparr>r_Action := a\<rparr>) (a_Kind a)" "r_Phase r = st_Phase s"
    and "tp_Connected (player s seat)" "\<not> tp_Eliminated (player s seat)" "0 \<le> tp_FreeDraws (player s seat)"
  shows "a_Kind a \<in> set (project_capabilities m s seat now)"
  using assms
  by (cases "a_Kind a")
    (auto simp: specialty_def view_reveal_def use_shuffle_def use_revote_def use_reveal_def use_free_card_def
      project_capabilities_def general_capabilities_def only_if_def ballot_phase_def Let_def split: if_splits option.splits)

lemma mode_action_of:
  assumes "variant_ok lang l (r\<lparr>r_Action := a\<rparr>) k" "r_ModeID r = md" "play_card m s seat a c now k = Inr t"
  shows "k = mode_action md"
  using assms by (cases k) auto

lemma act_advertised:
  assumes "act m s seat a now p = Inr (t, q)" "variant_ok lang l (r\<lparr>r_Action := a\<rparr>) (a_Kind a)"
    and "r_Phase r = st_Phase s" "r_ModeID r = mode m"
    and "tp_Connected (player s seat)" "\<not> tp_Eliminated (player s seat)" "0 \<le> tp_FreeDraws (player s seat)"
    and "located (mode m) s" "a_Kind a = ActionChat \<Longrightarrow> hk_ModerateChat (tm_hooks m) \<noteq> None"
  shows "a_Kind a \<in> set (project_capabilities m s seat now)"
  using assms(1)
proof (cases rule: act_cases)
  case Specialty
  then show ?thesis using specialty_advertised assms by blast
next
  case Card
  then obtain c t1 where own: "owned s seat (a_CopyID a) = Inr c" and d: "\<not> 0 < tp_FreeDraws (player s seat)"
    and play: "play_card m s seat a c now (a_Kind a) = Inr t1"
    by (auto simp: act_card_def split: if_split_asm sum.split_asm)
  have "tp_Hand (player s seat) \<noteq> []"
    using registered_hand [OF assms(8) owned_copy(1-3) [OF own]] by (metis empty_iff empty_set)
  then show ?thesis
    using Card d assms(5-7) mode_action_of [OF assms(2,4) play]
    by (simp add: project_capabilities_def only_if_def Let_def)
next
  case Draw
  then show ?thesis
    using assms(2,5,6) by (auto simp: project_capabilities_def only_if_def act_draw_def opt_in_def Let_def
        split: if_splits option.splits)
next
  case (Poke j)
  then show ?thesis
    using assms(2,3,5,6) by (cases "st_Phase s") (auto simp: project_capabilities_def Let_def)
next
  case Chat
  then show ?thesis
    using assms(2,3,5,6,9) by (auto simp: project_capabilities_def general_capabilities_def only_if_def Let_def)
next
  case Resolve
  then show ?thesis
    using assms(2,3,5,6) by (auto simp: project_capabilities_def act_resolve_offer_def only_if_def Let_def
        split: option.splits if_splits)
next
  case Ready
  then show ?thesis
    using assms(2,3,5,6) by (cases "st_Phase s") (auto simp: project_capabilities_def Let_def)
next
  case Vote
  then show ?thesis
    using assms(2,3,5,6) by (cases "st_Phase s") (auto simp: project_capabilities_def Let_def)
qed

end
