(* ===== verification/Engine_Claims.thy ===== *)
theory Engine_Claims
  imports Match_Claims Accepting
begin

section \<open>The engine at work\<close>

text \<open>
  Claims about what the operations of a match do: the clock comes to rest, rejections are protocol
  errors, what is accepted was offered, and what single transitions compute.
\<close>

lemma started_ready:
  assumes "NewTextMatch env opts = Inr m0" "\<And>seed. inj (copy_key env seed (mc_MatchID (op_Contract opts)))"
    and "distinct (map fst (op_DevRoles opts))" "loaded m0" "match_step\<^sup>*\<^sup>* m0 m"
  shows "loaded m" "0 < ti_PlayTurn (tm_timers m)" "sound 0 m (tm_state m)" "poised (tm_state m)" "kept m (tm_state m)"
    "balloted m (tm_state m)" "same_setup m0 m"
proof -
  have k0: "match_kept m0" "tm_pending m0 = None"
    using NewTextMatch_kept [OF assms(1,2)] started_grown(4) [OF assms(1)] by blast+
  have st: "same_setup m0 m" using started_between [OF assms(1,2) rtranclp.rtrancl_refl assms(5)] by blast
  show "same_setup m0 m" by (rule st)
  show "balloted m (tm_state m)"
    using ballots.R_run [OF assms(5) k0] started_balloted [OF assms(1)] k0(1) same_setup_balloted [OF st]
    by (simp add: match_kept_def)
  show "loaded m" using assms(4) st by (auto simp: loaded_def elim!: same_setup_fields)
  show "0 < ti_PlayTurn (tm_timers m)" using started_sound [OF assms(1)] st by (auto elim!: same_setup_fields)
  show "kept m (tm_state m)" using started_kept [OF assms(1,2,5)] by (simp add: match_kept_def)
  show "sound 0 m (tm_state m)"
    using soundness.R_run [OF assms(5) k0] started_sound [OF assms(1)] k0(1) same_setup_sound [OF st]
    by (simp add: match_kept_def)
  show "poised (tm_state m)"
    using poised_runs.R_run [OF assms(5) k0] started_poised [OF assms(1,3)] by simp
qed

text \<open>
  C12. The clock always comes to rest: in every reachable match, at any time, \<open>advance\<close> returns a
  state. The bound of twelve transitions is never exceeded (ten are enough, whatever the clocks
  are) and the next round can always begin. The rounds the match was given must be loaded: each has as
  many seed cards, of different texts, as its mode wants. Every dealt match has them (\<open>dealt_loaded\<close>).
\<close>

theorem clock_comes_to_rest:
  assumes "NewTextMatch env opts = Inr m0" "\<And>seed. inj (copy_key env seed (mc_MatchID (op_Contract opts)))"
    and "distinct (map fst (op_DevRoles opts))" "loaded m0" "match_step\<^sup>*\<^sup>* m0 m"
  shows "\<exists>t q. advance m (tm_state m) now p = Inr (t, q)"
  using advance_total started_ready [OF assms] by blast

lemma sample_loaded: "loaded sample_match"
proof -
  have "list_all (\<lambda>seeds. int (length seeds) = seed_want (mode sample_match) (mc_OriginalSize (tm_contract sample_match))
     \<and> distinct (map (\<lambda>c. tc_Text (cd_Content c)) seeds)) (tm_seeds sample_match)" by code_simp
  then show ?thesis by (simp add: loaded_def list_all_iff)
qed

lemma sample_roles: "distinct (map fst (op_DevRoles (sample_options md)))"
  by (simp add: sample_options_def)

theorem clock_comes_to_rest_witness:
  "\<exists>t q. advance sample_turn (tm_state sample_turn) (time_unix_milli 99000) (empty_pending sample_playing [] []) = Inr (t, q)"
  by (rule clock_comes_to_rest [OF sample_new sample_distinct_names sample_roles sample_loaded sample_turn_reached])

text \<open>
  C13. Whatever a seat sends, a rejection by the game is a protocol error with a code and a path.
  In a reachable match, for a valid request of a seat of the table that is still in the game (what
  \<open>Apply\<close> has checked), \<open>act\<close> does not panic: not on a missing field, not on the acting seat, the
  target seat, the target of the reveal, the proposer of an offer or the count of a draw being out
  of range of the slice it indexes, not on a division by zero in a shuffle, and it does not fail
  with an internal error such as a round that cannot begin. Where the code indexes by a seat or a
  round that the state itself holds (the order of play in \<open>nextTurn\<close>, offers, voters, targets and
  candidates of a ballot, the seat voted out, the prompts and seed cards of the round) the model
  reads the lists by total functions; these indices are in range in every reachable match.
\<close>

theorem rejections_are_protocol_errors:
  assumes "NewTextMatch env opts = Inr m0" "\<And>seed. inj (copy_key env seed (mc_MatchID (op_Contract opts)))"
    and "distinct (map fst (op_DevRoles opts))" "loaded m0" "match_step\<^sup>*\<^sup>* m0 m"
    and "request_Validate (tm_lang m) (tm_limits m) r = None"
    and "0 \<le> seat" "seat < mc_OriginalSize (tm_contract m)" "\<not> tp_Eliminated (player (tm_state m) seat)"
  shows "(act m (tm_state m) seat (r_Action r) now p = Inl e \<longrightarrow> (\<exists>code path. e = invalid code path))
    \<and> (\<forall>i\<in>set (stored_seats (tm_state m)). in_range i (st_Players (tm_state m)))
    \<and> in_range (st_Round (tm_state m) - 1) (tm_seeds m) \<and> in_range (st_Round (tm_state m) - 1) (tm_nowns m)"
proof -
  note ready = started_ready [OF assms(1-5)]
  have seat: "in_range seat (st_Players (tm_state m))"
    using ready(5) assms(7,8) by (simp add: kept_def stocked_def seats_ok_def in_range_def)
  have "length (tm_nowns m) = length (tm_seeds m)"
    using ready(7) started_table [OF assms(1)] by (auto elim!: same_setup_fields)
  then have "in_range (st_Round (tm_state m) - 1) (tm_seeds m)" "in_range (st_Round (tm_state m) - 1) (tm_nowns m)"
    using ready(3) by (simp_all add: sound_def round_ok_def in_range_def)
  moreover have "\<exists>code path. e = invalid code path" if "act m (tm_state m) seat (r_Action r) now p = Inl e"
    using act_rejects [OF that, where r = r] request_valid_variant [OF assms(6)] ready(1-5) seat assms(9)
    by (simp add: protocol_error_def)
  ultimately show ?thesis using stored_in_range [OF ready(5,3,6)] by blast
qed

theorem rejections_are_protocol_errors_witness:
  "\<exists>e. act sample_turn sample_playing 0 (r_Action sample_draw) (time_unix_milli 6000) (empty_pending sample_playing [] []) = Inl e
     \<and> (\<exists>code path. e = invalid code path)"
proof -
  have "\<not> accepted (act sample_turn sample_playing 0 (r_Action sample_draw) (time_unix_milli 6000) (empty_pending sample_playing [] []))"
    by code_simp
  then obtain e where e: "act sample_turn sample_playing 0 (r_Action sample_draw) (time_unix_milli 6000)
      (empty_pending sample_playing [] []) = Inl e"
    by (auto simp: accepted_def split: sum.splits)
  have "request_Validate (tm_lang sample_turn) (tm_limits sample_turn) sample_draw = None" by code_simp
  moreover have "(0::int) \<le> 0" "(0::int) < mc_OriginalSize (tm_contract sample_turn)"
    "\<not> tp_Eliminated (player (tm_state sample_turn) 0)"
    by code_simp+
  ultimately have "act sample_turn (tm_state sample_turn) 0 (r_Action sample_draw) (time_unix_milli 6000)
      (empty_pending sample_playing [] []) = Inl e \<longrightarrow> (\<exists>code path. e = invalid code path)"
    by (rule rejections_are_protocol_errors [OF sample_new sample_distinct_names sample_roles sample_loaded sample_turn_reached,
          THEN conjunct1])
  then show ?thesis using e by (simp add: sample_turn_fields)
qed

text \<open>
  C14. What is accepted was offered: an action that is accepted for the first time is one of the
  capabilities that the seat's snapshot of that moment lists.
\<close>

theorem accepted_actions_are_advertised:
  assumes "NewTextMatch env opts = Inr m0" "\<And>seed. inj (copy_key env seed (mc_MatchID (op_Contract opts)))"
    and "match_step\<^sup>*\<^sup>* m0 m" "tm_pending m = None"
    and "map_of (st_Requests (tm_state m)) (request_key seat (r_RequestID r)) = None"
    and "Apply m seat r clk = (Inr res, m', calls)"
  shows "a_Kind (r_Action r) \<in> set (slice (pv_Capabilities (sn_Private (project m (tm_state m) seat (clk 0)))))"
proof -
  let ?s = "tm_state m"
  have v: "request_Validate (tm_lang m) (tm_limits m) r = None" "0 \<le> seat" "seat < mc_OriginalSize (tm_contract m)"
    using apply_accepted_valid [OF assms(6)] by blast+
  have new: "apply_new m seat r (request_key seat (r_RequestID r)) (RequestHash (tm_sha m) r) clk = (Inr res, m', calls)"
    using assms(4-6) v by (simp add: Apply_def Let_def)
  then have g: "apply_guards m seat r ?s (clk 0) = None"
    by (auto simp: apply_new_def no_result_of_def Let_def split: option.splits)
  obtain a where a: "moderate m seat r = Inr a"
    and acted: "\<exists>t q. act m ?s seat a (clk 0) (empty_pending ?s (request_key seat (r_RequestID r)) (RequestHash (tm_sha m) r)) = Inr (t, q)"
    using new g by (auto simp: apply_new_def no_result_of_def Let_def split: option.splits sum.splits)
  have ctx: "r_Phase r = st_Phase ?s" "r_ModeID r = mode m" "tp_Connected (player ?s seat)" "\<not> tp_Eliminated (player ?s seat)"
    using g by (auto simp: apply_guards_def CheckActionContext_def context_of_def)
  have k: "kept m ?s" using started_kept [OF assms(1-3)] by (simp add: match_kept_def)
  have kind: "a_Kind a = a_Kind (r_Action r)" and chat: "a_Kind a = ActionChat \<Longrightarrow> hk_ModerateChat (tm_hooks m) \<noteq> None"
    and va: "request_Validate (tm_lang m) (tm_limits m) (r\<lparr>r_Action := a\<rparr>) = None"
    using a v(1) by (auto simp: moderate_def split: if_splits option.splits sum.splits)
  have "sound 0 m0 (tm_state m0) \<and> match_kept m0 \<and> tm_pending m0 = None"
    using started_sound [OF assms(1)] NewTextMatch_kept [OF assms(1,2)] started_grown(4) [OF assms(1)] by blast
  then have "sound 0 m0 ?s" using soundness.R_run [OF assms(3)] by (simp add: match_kept_def)
  then have "\<forall>v\<in>set (st_Players ?s). 0 \<le> tp_FreeDraws v" by (simp add: sound_def draws_ok_def)
  moreover have "player ?s seat \<in> set (st_Players ?s)"
    using k v(2,3) by (auto simp: kept_def stocked_def seats_ok_def player_def Prelude.at_def intro!: nth_mem)
  ultimately have "a_Kind a \<in> set (project_capabilities m ?s seat (clk 0))"
    using acted act_advertised [OF _ request_valid_variant [OF va, simplified] ctx _ _ chat] k
    by (auto simp: kept_def stocked_def)
  then show ?thesis by (simp add: project_def project_private_def Let_def kind)
qed

theorem accepted_actions_are_advertised_witness:
  "ActionDraw \<in> set (slice (pv_Capabilities (sn_Private (project sample_turn sample_playing 1 (time_unix_milli 6000)))))"
proof -
  obtain res m' calls where a: "Apply sample_turn 1 sample_draw (\<lambda>_. time_unix_milli 6000) = (Inr res, m', calls)"
    using accepted_Inr [OF sample_draws] by (metis prod.collapse)
  have n: "map_of (st_Requests (tm_state sample_turn)) (request_key 1 (r_RequestID sample_draw)) = None" by code_simp
  show ?thesis
    using accepted_actions_are_advertised [OF sample_new sample_distinct_names sample_turn_reached sample_turn_fields(1) n a]
    by (simp add: sample_turn_fields sample_draw_def)
qed

end
