(* ===== verification/Rule_Claims.thy ===== *)
theory Rule_Claims
  imports Engine_Claims
begin

section \<open>The rules of the game\<close>

text \<open>
  Claims about what the rules promise the players: how a ballot is decided, what lasts through a
  match, what a round starts with and how a trade is settled.
\<close>

subsection \<open>Ballots\<close>

text \<open>
  C15. A ballot is decided by plurality of the votes whose voters still take part: a first ballot
  that several seats lead goes to a runoff between exactly the leaders; any other names a seat if
  and only if that seat leads alone, reveals its true role, and pays exactly those who voted for a
  donower.
\<close>

theorem ballots_elect_the_leader:
  assumes "resolveVote m s now p = (t, q)"
  shows "if st_Phase s = PhaseKnowoff \<and> 1 < length (leaders s)
    then st_Phase t = PhaseRunoff \<and> st_Candidates t = leaders s \<and> st_Votes t = [] \<and> st_Players t = st_Players s \<and> q = p
    else st_Phase t = PhaseResult
      \<and> (\<exists>r. st_BallotResult t = Some r \<and> (\<forall>k. br_Seat r = Some k \<longleftrightarrow> leaders s = [k])
           \<and> (br_Seat r = None \<longleftrightarrow> br_Outcome r = OutMiss) \<and> (\<forall>k. br_Seat r = Some k \<longrightarrow> br_RevealedRole r = tp_Role (player s k)))
      \<and> (\<forall>i. in_range i (st_Players s) \<longrightarrow> tp_Points (player t i) = tp_Points (player s i) + vote_bonus m s i)"
proof (cases "st_Phase s = PhaseKnowoff \<and> 1 < length (leaders s)")
  case True
  then have "t = open_runoff m s (leaders s) now" "q = p"
    using assms by (simp_all add: resolveVote_def tied_leaders Let_def)
  then show ?thesis using True by (simp add: open_runoff_def recordBallot_def)
next
  case False
  then have c: "close_ballot m s (leaders s) now p = (t, q)"
    using assms by (auto simp: resolveVote_def tied_leaders Let_def)
  have "(\<forall>k. br_Seat (final_result s (leaders s)) = Some k \<longleftrightarrow> leaders s = [k])
    \<and> (br_Seat (final_result s (leaders s)) = None \<longleftrightarrow> br_Outcome (final_result s (leaders s)) = OutMiss)
    \<and> (\<forall>k. br_Seat (final_result s (leaders s)) = Some k \<longrightarrow> br_RevealedRole (final_result s (leaders s)) = tp_Role (player s k))"
    by (auto simp: final_result_def no_result_def split: list.splits)
  then show ?thesis using False close_ballot_effect(1-3) [OF c] by auto
qed

definition sample_ballot :: text_state where
  "sample_ballot = sample_playing\<lparr>st_Phase := PhaseKnowoff, st_Candidates := [0, 1, 2, 3],
     st_Votes := [(0, 3), (1, 3), (2, 0)]\<rparr>"

theorem ballots_elect_the_leader_witness:
  "\<exists>t q. resolveVote sample_match sample_ballot (time_unix_milli 40000) (empty_pending sample_ballot [] []) = (t, q)
     \<and> st_Phase t = PhaseResult \<and> tp_Points (player t 0) = 10 \<and> tp_Points (player t 2) = 0"
proof -
  obtain t q where r: "resolveVote sample_match sample_ballot (time_unix_milli 40000) (empty_pending sample_ballot [] []) = (t, q)"
    by fastforce
  have "\<not> 1 < length (leaders sample_ballot)" by code_simp
  moreover have "in_range 0 (st_Players sample_ballot) \<and> in_range 2 (st_Players sample_ballot)" by code_simp
  moreover have "tp_Points (player sample_ballot 0) + vote_bonus sample_match sample_ballot 0 = 10
    \<and> tp_Points (player sample_ballot 2) + vote_bonus sample_match sample_ballot 2 = 0" by code_simp
  ultimately show ?thesis using ballots_elect_the_leader [OF r] r by simp
qed

subsection \<open>What lasts\<close>

text \<open>
  C16. Seats last: through the operations of a match every seat keeps its role, an elimination and a
  recorded abandon are permanent, and the counters of votes, survivals and pokes never decrease.
\<close>

theorem seats_last:
  assumes "NewTextMatch env opts = Inr m0" "\<And>seed. inj (copy_key env seed (mc_MatchID (op_Contract opts)))"
    and "match_step\<^sup>*\<^sup>* m0 m" "match_step\<^sup>*\<^sup>* m m'"
  shows "list_all2 (\<lambda>v w. tp_Role w = tp_Role v \<and> (tp_Eliminated v \<longrightarrow> tp_Eliminated w)
      \<and> tp_VotesCast v \<le> tp_VotesCast w \<and> tp_CorrectVotes v \<le> tp_CorrectVotes w
      \<and> tp_Survivals v \<le> tp_Survivals w \<and> tp_Pokes v \<le> tp_Pokes w \<and> (tp_AbandonRecorded v \<longrightarrow> tp_AbandonRecorded w))
    (st_Players (tm_state m)) (st_Players (tm_state m'))"
proof -
  note k = NewTextMatch_kept [OF assms(1,2)] started_grown(4) [OF assms(1)]
  have "seats_by keeps_role (tm_state m) (tm_state m')" "seats_by keeps_counts (tm_state m) (tm_state m')"
    using roles.seat_runs.R_between [OF assms(3,4) k] counts.seat_runs.R_between [OF assms(3,4) k] by simp_all
  then show ?thesis by (simp add: seats_by_def list_all2_conv_all_nth keeps_role_def keeps_counts_def)
qed

theorem seats_last_witness:
  "tp_Role (st_Players (tm_state sample_turn) ! 3) = Donower"
proof -
  have "list_all2 (\<lambda>v w. tp_Role w = tp_Role v) (st_Players (tm_state sample_match)) (st_Players (tm_state sample_turn))"
    by (rule list_all2_mono [OF seats_last [OF sample_new sample_distinct_names rtranclp.rtrancl_refl sample_turn_reached]]) simp
  moreover have "3 < length (st_Players (tm_state sample_match)) \<and> tp_Role (st_Players (tm_state sample_match) ! 3) = Donower"
    by code_simp
  ultimately show ?thesis by (simp add: list_all2_conv_all_nth)
qed

text \<open>
  C17. A verdict is final: once a match has a result, no operation changes the result, the points,
  the phase or the public history, and the match stays in the phase \<open>verdict\<close>.
\<close>

lemma started_unresolved:
  assumes "NewTextMatch env opts = Inr m0"
  shows "st_Result (tm_state m0) = None"
  using assms
proof (cases rule: started_roles)
  case (1 c seed d s)
  then show ?thesis using beginRound_frame(2) [OF 1(5)] by (simp add: initial_state_def)
qed

theorem verdicts_are_final:
  assumes "NewTextMatch env opts = Inr m0" "\<And>seed. inj (copy_key env seed (mc_MatchID (op_Contract opts)))"
    and "match_step\<^sup>*\<^sup>* m0 m" "match_step\<^sup>*\<^sup>* m m'" "st_Result (tm_state m) \<noteq> None"
  shows "st_Result (tm_state m') = st_Result (tm_state m) \<and> st_Phase (tm_state m') = PhaseVerdict
    \<and> map tp_Points (st_Players (tm_state m')) = map tp_Points (st_Players (tm_state m))
    \<and> st_History (tm_state m') = st_History (tm_state m)"
proof -
  note k = NewTextMatch_kept [OF assms(1,2)] started_grown(4) [OF assms(1)]
  have "finished_ok (tm_state m0)" using started_unresolved [OF assms(1)] by (rule unresolved_ok)
  then have f: "finished_ok (tm_state m)" using verdicts.R_between [OF rtranclp.rtrancl_refl assms(3) k] by simp
  then have "same_verdict (tm_state m) (tm_state m')" using verdicts.R_between [OF assms(3,4) k] assms(5) by simp
  then show ?thesis using f assms(5) by (simp add: same_verdict_def finished_ok_def)
qed

theorem verdicts_are_final_witness:
  "st_Result (tm_state (fst (snd (SetConnected (fst (snd (Close_match sample_turn (\<lambda>_. time_unix_milli 6000)))) 1 False
      (\<lambda>_. time_unix_milli 7000))))) \<noteq> None"
proof -
  let ?c = "fst (snd (Close_match sample_turn (\<lambda>_. time_unix_milli 6000)))"
  let ?d = "fst (snd (SetConnected ?c 1 False (\<lambda>_. time_unix_milli 7000)))"
  have "match_step sample_turn ?c" "match_step ?c ?d"
    by (metis match_step.closed prod.collapse) (metis match_step.connected prod.collapse)
  moreover have "st_Result (tm_state ?c) \<noteq> None" by code_simp
  ultimately show ?thesis
    using verdicts_are_final [OF sample_new sample_distinct_names rtranclp.rtrancl_into_rtrancl [OF sample_turn_reached] r_into_rtranclp]
    by metis
qed

text \<open>
  C18. The counters of a match stay in bounds: the round between one and half the seats, the turn
  within the order of play, no seat owed a negative draw; until the verdict, rounds played and
  votes left add up, at least one vote is left and no more than could still decide the match.
\<close>

theorem counters_in_bounds:
  assumes "NewTextMatch env opts = Inr m0" "\<And>seed. inj (copy_key env seed (mc_MatchID (op_Contract opts)))"
    and "distinct (map fst (op_DevRoles opts))" "match_step\<^sup>*\<^sup>* m0 m"
  shows "1 \<le> st_Round (tm_state m) \<and> st_Round (tm_state m) \<le> mc_OriginalSize (tm_contract m) div 2
    \<and> 0 \<le> st_Turn (tm_state m) \<and> st_Turn (tm_state m) \<le> int (length (st_Order (tm_state m)))
    \<and> list_all (\<lambda>v. 0 \<le> tp_FreeDraws v) (st_Players (tm_state m))
    \<and> (st_Result (tm_state m) = None \<longrightarrow>
        st_Round (tm_state m) + st_RemainingVotes (tm_state m) = mc_OriginalSize (tm_contract m) div 2 + 1
      \<and> 1 \<le> st_RemainingVotes (tm_state m) \<and> st_RemainingVotes (tm_state m) \<le> uncaught (tm_state m) + 1)"
proof -
  have k0: "match_kept m0" "tm_pending m0 = None"
    using NewTextMatch_kept [OF assms(1,2)] started_grown(4) [OF assms(1)] by blast+
  have st: "same_setup m0 m" using started_between [OF assms(1,2) rtranclp.rtrancl_refl assms(4)] by blast
  have s: "sound 0 m (tm_state m)"
    using soundness.R_run [OF assms(4) k0] started_sound [OF assms(1)] k0(1) same_setup_sound [OF st]
    by (simp add: match_kept_def)
  have p: "poised (tm_state m)"
    using poised_runs.R_run [OF assms(4) k0] started_poised [OF assms(1,3)] by simp
  have "int (length (tm_seeds m0)) = mc_OriginalSize (tm_contract m0) div 2"
    using assms(1)
  proof (cases rule: started_roles)
    case (1 c seed d u)
    then show ?thesis by (simp add: options_check_def Let_def) (simp add: initial_match_def Let_def)
  qed
  then have "int (length (tm_seeds m)) = mc_OriginalSize (tm_contract m) div 2" using st by (auto elim!: same_setup_fields)
  then show ?thesis using s p
    by (auto simp: sound_def turn_ok_def draws_ok_def round_ok_def poised_def margin_def list_all_iff)
qed

theorem counters_in_bounds_witness:
  "1 \<le> st_Round (tm_state sample_turn) \<and> st_Round (tm_state sample_turn) \<le> 2"
  using counters_in_bounds [OF sample_new sample_distinct_names sample_roles sample_turn_reached]
  by (simp add: sample_turn_fields sample_contract_def)

subsection \<open>Rounds, turns and trades\<close>

text \<open>
  C19. A round that begins: the seats that still play are to play once each, in a random order; the
  board holds the seed cards of the round in their order (in Bad Bargains those of the seats that
  still play), with different texts, and they are what the history records; votes, pokes and
  the last ballot are cleared, and the seats keep their cards and points.
\<close>

theorem rounds_begin_afresh:
  assumes "beginRound m s now = Inr t" "int (length (st_Players s)) = mc_OriginalSize (tm_contract m)"
  shows "st_Phase t = PhaseRoundStart \<and> st_Turn t = 0 \<and> mset (st_Order t) = mset (active_seats s)
    \<and> board_cards t = map (\<lambda>(i, c). seed_board_card (mode m) i c) (dealt_seeds m s)
    \<and> distinct (map (\<lambda>b. tc_Text (cd_Content (bc_Card b))) (board_cards t))
    \<and> concat (map (\<lambda>e. slice (e_Cards e)) (drop (length (st_History s)) (st_History t))) = map snd (dealt_seeds m s)
    \<and> st_Votes t = [] \<and> st_Candidates t = [] \<and> st_BallotResult t = None \<and> st_Pokes t = [] \<and> st_Ready t = []
    \<and> st_Players t = map clear_round_player (st_Players s)"
  using beginRound_lays_out [OF assms] by simp

theorem rounds_begin_afresh_witness:
  "mset (st_Order sample_begun) = {#0, 1, 2, 3#} \<and> length (board_cards sample_begun) = 4"
proof -
  let ?m = "sample_initial ModeBadBargains"
  have n: "int (length (st_Players (tm_state ?m))) = mc_OriginalSize (tm_contract ?m)"
    and a: "active_seats (tm_state ?m) = [0, 1, 2, 3]" "length (dealt_seeds ?m (tm_state ?m)) = 4" by code_simp+
  show ?thesis using rounds_begin_afresh [OF sample_begins n] by (simp add: a)
qed

text \<open>
  C20. Passing the turn settles: \<open>nextTurn\<close> ends on the turn of a connected seat that can play, with
  the full time of a turn, or after the last seat in the discussion; it never rests on a seat that
  is away, however many seats in a row it has to pass over. The turn counter and the order of play must be
  in bounds (\<open>turn_ok\<close>), as they are in every reachable match.
\<close>

theorem turns_settle:
  assumes "turn_ok s"
  shows "settled m now (nextTurn m s now) \<and> st_Order (nextTurn m s now) = st_Order s \<and> turn_ok (nextTurn m s now)"
proof -
  have s: "0 \<le> st_Turn s" "\<forall>i\<in>set (st_Order s). 0 \<le> i" using assms by (simp_all add: turn_ok_def)
  note n = settled_nextTurn(1) [OF s, of m now]
  have "0 \<le> st_Turn t \<and> st_Turn t \<le> int (length (st_Order t))" if "settled m now t" for t
    using that by (auto simp: settled_def)
  from this [OF n [THEN conjunct1]] n s show ?thesis by (simp add: turn_ok_def)
qed

theorem turns_settle_witness:
  "settled sample_match (time_unix_milli 5000) (nextTurn sample_match (upd_player 2 (\<lambda>v. v\<lparr>tp_Connected := False\<rparr>) sample_playing)
     (time_unix_milli 5000))"
proof -
  have "turn_ok (upd_player 2 (\<lambda>v. v\<lparr>tp_Connected := False\<rparr>) sample_playing)" by code_simp
  from turns_settle [OF this] show ?thesis by simp
qed

text \<open>
  C21. A settled trade moves exactly two cards: an accepted offer exchanges the offered card of the
  proposer's hand with the requested card on the board, in its place; any other resolution moves
  nothing. Every other hand and copy stays as it is, the reservations end and no offer is left.
\<close>

theorem trades_exchange_two_cards:
  assumes "NewTextMatch env opts = Inr m0" "\<And>seed. inj (copy_key env seed (mc_MatchID (op_Contract opts)))"
    and "match_step\<^sup>*\<^sup>* m0 m" "s = tm_state m" "st_Offer s = Some po" "t = settle_offer m s po seat res why now"
  shows "(if res = ResAccept
     then mset (tp_Hand (player t (po_ProposerSeat po))) + {#po_OfferedCopyID po#}
          = mset (tp_Hand (player s (po_ProposerSeat po))) + {#po_RequestedCopyID po#}
        \<and> board_ids t = map (\<lambda>k. if k = po_RequestedCopyID po then po_OfferedCopyID po else k) (board_ids s)
        \<and> po_RequestedCopyID po \<in> set (board_ids s)
        \<and> (\<forall>j. 0 \<le> j \<longrightarrow> j \<noteq> po_ProposerSeat po \<longrightarrow> player t j = player s j)
     else st_Players t = st_Players s \<and> board_cards t = board_cards s)
    \<and> (\<forall>k. k \<notin> {po_OfferedCopyID po, po_RequestedCopyID po} \<longrightarrow> map_of (st_Copies t) k = map_of (st_Copies s) k)
    \<and> (\<forall>k c. map_of (st_Copies t) k = Some c \<longrightarrow> \<not> cp_Reserved c) \<and> st_Offer t = None"
proof -
  have k: "kept m s" using started_kept [OF assms(1-3)] assms(4) by (simp add: match_kept_def)
  note mv = settle_moves [OF k assms(5), where seat = seat and res = res and why = why and now = now, folded assms(6)]
  have o': "st_Offer t = None" by (simp add: assms(6))
  show ?thesis
  proof (cases "res = ResAccept")
    case True
    then show ?thesis using settle_accepts [OF k assms(5), of t seat why now] mv o' assms(6) by auto
  next
    case False
    then show ?thesis using settle_declines [OF False, of m s po seat why now] mv o' assms(6) by auto
  qed
qed

definition sample_offer :: action_request where
  "sample_offer = sample_draw\<lparr>r_Action := (r_Action sample_draw)\<lparr>a_Kind := ActionOffer, a_CopyID := cd_CopyID (card_no 2),
     a_TargetSeat := Some 0, a_TargetCopyID := cd_CopyID (card_no 8), a_Count := None\<rparr>\<rparr>"

theorem trades_exchange_two_cards_witness:
  "\<exists>m po. match_step\<^sup>*\<^sup>* sample_match m \<and> st_Offer (tm_state m) = Some po
    \<and> st_Offer (settle_offer m (tm_state m) po 0 ResAccept RPlayer (time_unix_milli 7000)) = None"
proof -
  let ?m = "fst (snd (Apply sample_turn 1 sample_offer (\<lambda>_. time_unix_milli 6000)))"
  have r: "match_step\<^sup>*\<^sup>* sample_match ?m" using sample_turn_reached apply_is_step by (rule rtranclp.rtrancl_into_rtrancl)
  have "st_Offer (tm_state ?m) \<noteq> None" by code_simp
  then obtain po where po: "st_Offer (tm_state ?m) = Some po" by blast
  show ?thesis
    using trades_exchange_two_cards [OF sample_new sample_distinct_names r refl po refl] r po by blast
qed

text \<open>
  C22. Every match starts fairly: half of the seats less one are donowers, however many roles were
  fixed for development, everybody takes part and nobody has points, and there are as many
  votes as rounds, half the seats.
\<close>

lemma started_newcomers:
  assumes "NewTextMatch env opts = Inr m0"
  shows "\<forall>v\<in>set (st_Players (tm_state m0)). newcomer v"
  using assms
proof (cases rule: started_roles)
  case (1 c seed d s)
  have "\<forall>v\<in>set (set_roles env seed opts (dl_players d)). newcomer v" using newcomers_roles 1(3) by blast
  moreover have "int (length (set_roles env seed opts (dl_players d))) = mc_OriginalSize (op_Contract opts)" using 1(4) by simp
  then have "st_Players s = map clear_round_player (set_roles env seed opts (dl_players d))"
    using beginRound_lays_out(11) [OF 1(5)] by (simp add: initial_state_def) (simp add: initial_match_def Let_def)
  ultimately show ?thesis using 1(6) by (auto simp: newcomer_def clear_round_player_def)
qed

theorem matches_start_fairly:
  assumes "NewTextMatch env opts = Inr m0" "distinct (map fst (op_DevRoles opts))"
  shows "int (length (filter (\<lambda>v. tp_Role v = Donower) (st_Players (tm_state m0)))) = mc_OriginalSize (tm_contract m0) div 2 - 1
    \<and> list_all (\<lambda>v. \<not> tp_Eliminated v \<and> tp_Connected v \<and> \<not> tp_Absent v \<and> tp_Points v = 0) (st_Players (tm_state m0))
    \<and> st_RemainingVotes (tm_state m0) = mc_OriginalSize (tm_contract m0) div 2"
  using started_poised [OF assms] started_newcomers [OF assms(1)] uncaught_new [OF started_newcomers [OF assms(1)]]
  by (simp add: list_all_iff newcomer_def donowers_def)

theorem matches_start_fairly_witness:
  "length (filter (\<lambda>v. tp_Role v = Donower) (st_Players (tm_state sample_match))) = 1"
  using matches_start_fairly [OF sample_new sample_roles] by (simp add: sample_match_fields sample_contract_def)

end
