(* ===== verification/Reviewed.thy ===== *)
theory Reviewed
  imports Bundles
begin

section \<open>What the validation of a bundle guarantees\<close>

subsection \<open>Keys of reviewed pairs\<close>

text \<open>A slash separates the parts of a key, and no part contains one: keys of different pairs differ.\<close>

definition slashless :: "string \<Rightarrow> bool" where
  "slashless x \<longleftrightarrow> CHR ''/'' \<notin> set x"

lemma split_at_slash: "slashless x \<Longrightarrow> slashless x' \<Longrightarrow> x @ CHR ''/'' # y = x' @ CHR ''/'' # y' \<Longrightarrow> x = x' \<and> y = y'"
proof (induction x arbitrary: x')
  case Nil
  then show ?case by (cases x') (auto simp: slashless_def)
next
  case (Cons c x)
  then show ?case by (cases x') (auto simp: slashless_def)
qed

lemma identifier_slashless: "ValidIdentifier x \<Longrightarrow> slashless x"
  by (auto simp: ValidIdentifier_bytes slashless_def ident_rune_def byte_def)

lemma mode_slashless: "mode_valid md \<Longrightarrow> slashless (mode_string md)"
  by (cases md) (simp_all add: slashless_def)

lemma mode_string_inj: "mode_valid a \<Longrightarrow> mode_valid b \<Longrightarrow> mode_string a = mode_string b \<Longrightarrow> a = b"
  by (cases a; cases b) simp_all

lemma textPair_inj:
  assumes "mode_valid a" "mode_valid b" "ValidIdentifier n" "ValidIdentifier n'" "textPair a n c = textPair b n' c'"
  shows "a = b \<and> n = n' \<and> c = c'"
proof -
  have "mode_string a @ CHR ''/'' # n @ CHR ''/'' # c = mode_string b @ CHR ''/'' # n' @ CHR ''/'' # c'"
    using assms(5) by (simp add: textPair_def)
  from split_at_slash [OF mode_slashless [OF assms(1)] mode_slashless [OF assms(2)] this]
  have m: "mode_string a = mode_string b" and r: "n @ CHR ''/'' # c = n' @ CHR ''/'' # c'" by simp_all
  show ?thesis
    using split_at_slash [OF identifier_slashless [OF assms(3)] identifier_slashless [OF assms(4)] r]
      mode_string_inj [OF assms(1,2) m] by simp
qed

subsection \<open>The loops over records\<close>

lemma record_checked: "record_check en l syn seen rid rvn typ txt tone p = None \<Longrightarrow> ValidIdentifier rid \<and> rid \<notin> set seen
    \<and> NormalizeText en txt (tl_MaxTextBytes l) = Some txt"
  by (simp add: record_check_def)

lemma nowns_checked:
  "nowns_check en l m seen ns = Inr seen' \<Longrightarrow> seen' = rev (map tn_ID ns) @ seen \<and> distinct (map tn_ID ns)
    \<and> set seen \<inter> tn_ID ` set ns = {} \<and> (\<forall>n\<in>set ns. ValidIdentifier (tn_ID n) \<and> textModesValid (tn_Modes n) (ma_Modes m)
        \<and> NormalizeText en (tn_Text n) (tl_MaxTextBytes l) = Some (tn_Text n))"
proof (induction ns arbitrary: seen)
  case (Cons n ns)
  have 1: "record_check en l (ma_Synthetic m) seen (tn_ID n) (tn_Revision n) (tn_Type n) (tn_Text n)
      (tn_ToneBucket n) (tn_Provenance n) = None" "textModesValid (tn_Modes n) (ma_Modes m)"
    and 2: "nowns_check en l m (tn_ID n # seen) ns = Inr seen'"
    using Cons.prems by (simp_all del: textHasMode_iff split: option.split_asm)
  show ?case using Cons.IH [OF 2] record_checked [OF 1(1)] 1(2) by auto
qed simp

lemma cards_checked:
  "cards_check en l m seen cs = Inr seen' \<Longrightarrow> seen' = rev (map td_ID cs) @ seen \<and> distinct (map td_ID cs)
    \<and> set seen \<inter> td_ID ` set cs = {} \<and> (\<forall>c\<in>set cs. ValidIdentifier (td_ID c) \<and> textModesValid (td_Modes c) (ma_Modes m)
        \<and> NormalizeText en (td_Text c) (tl_MaxTextBytes l) = Some (td_Text c))"
proof (induction cs arbitrary: seen)
  case (Cons c cs)
  have 1: "record_check en l (ma_Synthetic m) seen (td_ID c) (td_Revision c) (td_Type c) (td_Text c)
      (td_ToneBucket c) (td_Provenance c) = None" "textModesValid (td_Modes c) (ma_Modes m)"
    and 2: "cards_check en l m (td_ID c # seen) cs = Inr seen'"
    using Cons.prems by (simp_all del: textHasMode_iff split: option.split_asm)
  show ?case using Cons.IH [OF 2] record_checked [OF 1(1)] 1(2) by auto
qed simp

lemma relations_checked:
  "relations_check b seen rs = Inr seen' \<Longrightarrow> seen' = rev (map relation_key rs) @ seen \<and> distinct (map relation_key rs)
    \<and> set seen \<inter> relation_key ` set rs = {} \<and> (\<forall>r\<in>set rs. relation_ok b r)"
proof (induction rs arbitrary: seen)
  case (Cons r rs)
  then have 1: "relation_ok b r" "relation_key r \<notin> set seen" and 2: "relations_check b (relation_key r # seen) rs = Inr seen'"
    by (simp_all split: if_split_asm)
  show ?case using Cons.IH [OF 2] 1 by auto
qed simp

lemma modes_valid: "textModesValid modes allowed \<Longrightarrow> md \<in> set modes \<Longrightarrow> mode_valid md \<and> md \<in> set allowed"
proof -
  have "modes_distinct_in allowed seen modes \<Longrightarrow> md \<in> set modes \<Longrightarrow> mode_valid md \<and> md \<in> set allowed" for seen
    by (induction allowed seen modes rule: modes_distinct_in.induct) (auto split: if_splits)
  from this [of "[]"] show "textModesValid modes allowed \<Longrightarrow> md \<in> set modes \<Longrightarrow> mode_valid md \<and> md \<in> set allowed"
    by (simp add: textModesValid_def)
qed

subsection \<open>The maps of a snapshot\<close>

lemma fold_update_lookup:
  "distinct (map f xs) \<Longrightarrow> map_of (fold (\<lambda>x. AList.update (f x) (g x)) xs al) k =
     (case find (\<lambda>x. f x = k) xs of Some x \<Rightarrow> Some (g x) | None \<Rightarrow> map_of al k)"
proof (induction xs arbitrary: al)
  case (Cons x xs)
  have "find (\<lambda>y. f y = f x) xs = None" using Cons.prems unfolding find_None_iff by (metis distinct.simps(2) image_eqI list.set_map list.simps(9))
  then show ?case using Cons by (auto simp: update_conv' split: option.splits)
qed simp

lemma index_by_lookup:
  assumes "distinct (map f xs)"
  shows "map_of (index_by f xs) k = Some i \<longleftrightarrow> i < length xs \<and> f (xs ! i) = k"
proof -
  let ?zs = "zip [0..<length xs] xs"
  have d: "map (\<lambda>z. f (snd z)) ?zs = map f xs" by (simp add: comp_def map_snd_zip flip: map_map [of f snd, unfolded comp_def])
  have "map_of (index_by f xs) k = (case find (\<lambda>z. f (snd z) = k) ?zs of Some z \<Rightarrow> Some (fst z) | None \<Rightarrow> None)"
    using fold_update_lookup [of "\<lambda>z. f (snd z)" ?zs fst "[]" k] assms d
    by (simp add: index_by_def case_prod_unfold split: option.split)
  moreover have "(\<exists>z. find (\<lambda>z. f (snd z) = k) ?zs = Some z \<and> fst z = i) \<longleftrightarrow> i < length xs \<and> f (xs ! i) = k"
  proof
    assume "\<exists>z. find (\<lambda>z. f (snd z) = k) ?zs = Some z \<and> fst z = i"
    then show "i < length xs \<and> f (xs ! i) = k" by (auto simp: find_Some_iff)
  next
    assume i: "i < length xs \<and> f (xs ! i) = k"
    then have "f (xs ! j) \<noteq> k" if "j < i" for j
      using assms that nth_eq_iff_index_eq [OF assms, of j i] by auto
    then show "\<exists>z. find (\<lambda>z. f (snd z) = k) ?zs = Some z \<and> fst z = i"
      using i unfolding find_Some_iff by (intro exI [of _ "(i, xs ! i)"] conjI exI [of _ i]) auto
  qed
  ultimately show ?thesis by (auto split: option.splits)
qed

lemma band_lookup:
  assumes "distinct (map relation_key (bu_Suitability b))" "r \<in> set (bu_Suitability b)"
  shows "map_of (sx_bands (index_bundle b h)) (relation_key r) = Some (su_Band r)"
proof -
  obtain x where x: "find (\<lambda>x. relation_key x = relation_key r) (bu_Suitability b) = Some x"
    using assms(2) find_None_iff [of "\<lambda>x. relation_key x = relation_key r"] by (cases "find (\<lambda>x. relation_key x = relation_key r) (bu_Suitability b)") auto
  then have "x = r"
    using assms find_Some_iff [of "\<lambda>x. relation_key x = relation_key r" "bu_Suitability b" x]
    by (auto simp: distinct_map inj_on_def)
  then show ?thesis using x fold_update_lookup [OF assms(1), of su_Band "[]" "relation_key r"] by (simp add: index_bundle_def)
qed

subsection \<open>A validated bundle\<close>

definition reviewed :: "text_bundle \<Rightarrow> mode_id \<Rightarrow> text_nown \<Rightarrow> text_card \<Rightarrow> text_suitability \<Rightarrow> bool" where
  "reviewed b md n c r \<longleftrightarrow> r \<in> set (bu_Suitability b) \<and> su_Mode r = md \<and> su_NownID r = tn_ID n \<and> su_CardID r = td_ID c"

lemma validated_parts:
  assumes "validateTextBundle en l b = None"
  shows "distinct (map tn_ID (bu_Nowns b) @ map td_ID (bu_Cards b))"
    "\<forall>n\<in>set (bu_Nowns b). ValidIdentifier (tn_ID n) \<and> textModesValid (tn_Modes n) (ma_Modes (bu_Manifest b))"
    "\<forall>c\<in>set (bu_Cards b). ValidIdentifier (td_ID c) \<and> textModesValid (td_Modes c) (ma_Modes (bu_Manifest b))"
    "distinct (map relation_key (bu_Suitability b))" "\<forall>r\<in>set (bu_Suitability b). relation_ok b r"
    "\<forall>md\<in>set (ma_Modes (bu_Manifest b)). mode_coverage b (map relation_key (bu_Suitability b)) md = None"
proof -
  obtain seen1 seen relations where n: "nowns_check en l (bu_Manifest b) [] (bu_Nowns b) = Inr seen1"
    and c: "cards_check en l (bu_Manifest b) seen1 (bu_Cards b) = Inr seen"
    and r: "relations_check b [] (bu_Suitability b) = Inr relations"
    and mc: "each (mode_coverage b relations) (ma_Modes (bu_Manifest b)) = None"
    using assms by (auto simp: validateTextBundle_def split: option.splits sum.splits)
  note n' = nowns_checked [OF n] and c' = cards_checked [OF c] and r' = relations_checked [OF r]
  show "distinct (map tn_ID (bu_Nowns b) @ map td_ID (bu_Cards b))" using n' c' by auto
  show "\<forall>n\<in>set (bu_Nowns b). ValidIdentifier (tn_ID n) \<and> textModesValid (tn_Modes n) (ma_Modes (bu_Manifest b))"
    "\<forall>c\<in>set (bu_Cards b). ValidIdentifier (td_ID c) \<and> textModesValid (td_Modes c) (ma_Modes (bu_Manifest b))"
    using n' c' by blast+
  show "distinct (map relation_key (bu_Suitability b))" "\<forall>r\<in>set (bu_Suitability b). relation_ok b r" using r' by blast+
  have "set relations = set (map relation_key (bu_Suitability b))" using r' by auto
  then have "mode_coverage b relations md = mode_coverage b (map relation_key (bu_Suitability b)) md" for md
    by (simp add: mode_coverage_def)
  then show "\<forall>md\<in>set (ma_Modes (bu_Manifest b)). mode_coverage b (map relation_key (bu_Suitability b)) md = None"
    using mc by simp
qed

lemma relation_known:
  assumes "relation_ok b r"
  shows "\<exists>n\<in>set (bu_Nowns b). \<exists>c\<in>set (bu_Cards b). su_NownID r = tn_ID n \<and> su_CardID r = td_ID c
    \<and> su_Mode r \<in> set (tn_Modes n) \<and> su_Mode r \<in> set (td_Modes c)" "su_Band r \<in> {High, Distant, Chaos}"
proof -
  obtain n c where n: "nown_by_id (bu_Nowns b) (su_NownID r) = Some n" and c: "card_by_id (bu_Cards b) (su_CardID r) = Some c"
    and ok: "su_Mode r \<in> set (tn_Modes n)" "su_Mode r \<in> set (td_Modes c)" "su_Band r \<in> {High, Distant, Chaos}"
    using assms by (auto simp: relation_ok_def split: option.splits)
  have "n \<in> set (bu_Nowns b)" "su_NownID r = tn_ID n" "c \<in> set (bu_Cards b)" "su_CardID r = td_ID c"
    using map_of_SomeD [OF n [unfolded nown_by_id_def]] map_of_SomeD [OF c [unfolded card_by_id_def]] by auto
  then show "\<exists>n\<in>set (bu_Nowns b). \<exists>c\<in>set (bu_Cards b). su_NownID r = tn_ID n \<and> su_CardID r = td_ID c
      \<and> su_Mode r \<in> set (tn_Modes n) \<and> su_Mode r \<in> set (td_Modes c)" "su_Band r \<in> {High, Distant, Chaos}"
    using ok by blast+
qed

lemma reviewed_once:
  assumes v: "validateTextBundle en l b = None" and n: "n \<in> set (bu_Nowns b)" "md \<in> set (tn_Modes n)"
    and c: "c \<in> set (bu_Cards b)" "md \<in> set (td_Modes c)"
  shows "\<exists>r. reviewed b md n c r \<and> (\<forall>r'. reviewed b md n c r' \<longrightarrow> r' = r) \<and> su_Band r \<in> {High, Distant, Chaos}
    \<and> band_of (index_bundle b h) md (tn_ID n) (td_ID c) = su_Band r"
proof -
  note p = validated_parts [OF v]
  have md: "mode_valid md" "md \<in> set (ma_Modes (bu_Manifest b))" using modes_valid n p(2) by blast+
  then have "mode_coverage b (map relation_key (bu_Suitability b)) md = None" using p(6) by blast
  then have "textPair md (tn_ID n) (td_ID c) \<in> set (map relation_key (bu_Suitability b))"
    using n c by (auto simp: mode_coverage_def Let_def list_ex_iff)
  then obtain r where r: "r \<in> set (bu_Suitability b)" "relation_key r = textPair md (tn_ID n) (td_ID c)" by auto
  obtain n1 c1 where k: "n1 \<in> set (bu_Nowns b)" "su_NownID r = tn_ID n1" "su_Mode r \<in> set (tn_Modes n1)"
    using relation_known(1) [OF p(5) [rule_format, OF r(1)]] by metis
  have mr: "mode_valid (su_Mode r)" and v1: "ValidIdentifier (su_NownID r)" and v2: "ValidIdentifier (tn_ID n)"
    using modes_valid k n(1) p(2) by metis+
  then have same: "su_Mode r = md \<and> su_NownID r = tn_ID n \<and> su_CardID r = td_ID c"
    using textPair_inj [OF mr md(1) v1 v2] r(2) by (simp add: relation_key_def)
  have "r' = r" if "reviewed b md n c r'" for r'
  proof -
    have "r' \<in> set (bu_Suitability b)" "relation_key r' = relation_key r"
      using that r(2) by (simp_all add: reviewed_def relation_key_def)
    then show ?thesis using r(1) p(4) by (meson distinct_map inj_onD)
  qed
  moreover have "band_of (index_bundle b h) md (tn_ID n) (td_ID c) = su_Band r"
    using band_lookup [OF p(4) r(1), of h] r(2) by (simp add: band_of_def)
  moreover have "su_Band r \<in> {High, Distant, Chaos}" by (rule relation_known(2) [OF p(5) [rule_format, OF r(1)]])
  moreover have "reviewed b md n c r" using same r(1) by (simp add: reviewed_def)
  ultimately show ?thesis by blast
qed

end
