(* ===== verification/Sample_Bundle.thy ===== *)
theory Sample_Bundle
  imports Sample Bundles Dealing
begin

section \<open>A small bundle\<close>

text \<open>
  A reviewed bundle of two prompts and two cards for one mode, valid and large enough to deal a match of
  four seats from; the claims about content and the lobby are instantiated on it.
\<close>

definition sample_env :: text_env where
  "sample_env = \<lparr>en_NFC = (\<lambda>x. x), en_ToLower = (\<lambda>x. x), en_IsCf = (\<lambda>_. False), en_Language = (\<lambda>_. True),
     en_Hash = (\<lambda>_. zero_hash), en_JsonValid = (\<lambda>_. True)\<rparr>"

definition bundle_limits :: text_limits where
  "bundle_limits = \<lparr>tl_MaxTextBytes = 100, tl_MaxRecords = 100, tl_MaxFileBytes = 1000, tl_MaxBundleBytes = 1000\<rparr>"

definition reviewed_provenance :: text_provenance where
  "reviewed_provenance = sample_provenance\<lparr>pr_SourceKind := ''synthetic'', pr_SourceID := ''s'', pr_SourceRevision := 1,
     pr_AcceptedTextSHA256 := zero_hash, pr_License := ''l'', pr_Attribution := ''a''\<rparr>"

definition bundle_nown :: "nat \<Rightarrow> text_nown" where
  "bundle_nown n = \<lparr>tn_ID = ''n'' @ dec n, tn_Revision = 1, tn_Type = ''text'', tn_Text = ''q'' @ dec n, tn_Kind = ''criterion'',
     tn_Modes = [ModeTopThat], tn_ToneBucket = ''chaos'', tn_Provenance = reviewed_provenance\<rparr>"

definition bundle_card :: "nat \<Rightarrow> text_card" where
  "bundle_card n = \<lparr>td_ID = ''t'' @ dec n, td_Revision = 1, td_Type = ''text'', td_Text = ''x'' @ dec n, td_Pool = ''item'',
     td_Modes = [ModeTopThat], td_ToneBucket = ''chaos'', td_Provenance = reviewed_provenance\<rparr>"

definition bundle_relation :: "nat \<Rightarrow> nat \<Rightarrow> text_suitability" where
  "bundle_relation i j = \<lparr>su_Mode = ModeTopThat, su_NownID = ''n'' @ dec i, su_NownRevision = 1, su_CardID = ''t'' @ dec j,
     su_CardRevision = 1, su_Band = (if i = j then High else Distant), su_ReviewReference = ''r''\<rparr>"

definition sample_bundle :: text_bundle where
  "sample_bundle = \<lparr>bu_Manifest = \<lparr>ma_SchemaVersion = 2, ma_ReleaseID = ''p'', ma_Language = ''en'', ma_RulesVersion = ''v'',
       ma_Modes = [ModeTopThat], ma_SuitabilityVersion = ''reviewed-bands-v1'', ma_AgeRating = ''teen'', ma_Synthetic = True,
       ma_Checksums = [], ma_CertificationArtifacts = [], ma_DuplicateReviews = [], ma_Evaluator = None\<rparr>,
     bu_Nowns = [bundle_nown 1, bundle_nown 2], bu_Cards = [bundle_card 1, bundle_card 2],
     bu_Suitability = [bundle_relation 1 1, bundle_relation 1 2, bundle_relation 2 1, bundle_relation 2 2], bu_Artifacts = []\<rparr>"

definition deal_sizes :: deal_tuning where
  "deal_sizes = \<lparr>dt_HandSize = 2, dt_ReserveSize = 0, dt_MinHigh = 1, dt_MinDistant = 1, dt_MaxSearchNodes = 50\<rparr>"

text \<open>The recursions over natural numbers, for evaluation.\<close>

lemma distinct_texts_code [code]:
  "distinct_texts n seen cs = (if n = 0 then [] else case cs of [] \<Rightarrow> []
     | c # cs' \<Rightarrow> if td_Text c \<in> set seen then distinct_texts n seen cs' else c # distinct_texts (n - 1) (td_Text c # seen) cs')"
  by (cases n; cases cs) simp_all

lemma deal_seeds_code [code]:
  "deal_seeds d k pool n rounds = (if rounds = 0 then Inr [] else
     let seeds = distinct_texts n [] (go_shuffle d k pool) in
     if length seeds \<noteq> n then Inl ErrTextInfeasible
     else case deal_seeds d (k + shuffle_draws (length pool)) pool n (rounds - 1) of
        Inl e \<Rightarrow> Inl e | Inr rest \<Rightarrow> Inr (seeds # rest))"
proof (cases rounds)
  case (Suc n)
  show ?thesis unfolding Suc deal_seeds.simps diff_Suc_1 by simp
qed simp

lemma deal_hands_code [code]:
  "deal_hands d k s md schedule pool t nodes seats = (if seats = 0 then Inr [] else
     case textRetained s md schedule (go_shuffle d k pool) t nodes of
       (Inl e, _) \<Rightarrow> Inl e
     | (Inr retained, nodes1) \<Rightarrow>
        (case split_hand s md (hd schedule) t retained of
           (hand, reserve) \<Rightarrow>
            (let k1 = k + shuffle_draws (length pool);
                 k2 = k1 + shuffle_draws (length hand);
                 hand1 = go_shuffle d k1 hand;
                 reserve1 = go_shuffle d k2 reserve
             in case CheckTextCoverage s md schedule (hand1 @ reserve1) t of
                  Some e \<Rightarrow> Inl e
                | None \<Rightarrow>
                   (case deal_hands d (k2 + shuffle_draws (length reserve)) s md schedule pool t nodes1 (seats - 1) of
                      Inl e \<Rightarrow> Inl e
                    | Inr hands \<Rightarrow> Inr (\<lparr>ha_Cards = hand1, ha_Reserve = reserve1\<rparr> # hands)))))"
proof (cases seats)
  case (Suc n)
  show ?thesis unfolding Suc deal_hands.simps diff_Suc_1 by simp
qed simp

lemma sample_bundle_valid: "validateTextBundle sample_env bundle_limits sample_bundle = None"
  by code_simp

lemma sample_bundle_deals:
  "accepted (Deal (\<lambda>seed k. 0) (index_bundle sample_bundle zero_hash) ModeTopThat 4 deal_sizes \<lparr>ra_Schedule = 1, ra_Hands = 2, ra_System = 3\<rparr>)"
  by code_simp

end
