(* ===== verification/Deal_Claims.thy ===== *)
theory Deal_Claims
  imports Engine_Claims Reviewed Sample_Bundle
begin

section \<open>Content and deals\<close>

text \<open>
  Claims about the reviewed content a match is dealt from: what validation guarantees, that the
  bounded search for retained cards is exact, and that a deal is complete and playable.
\<close>

subsection \<open>Validation\<close>

text \<open>
  C23. A validated bundle is complete and unambiguous: no two records share an identifier, the maps
  of its snapshot find exactly the records, and every prompt and card that share a mode have
  exactly one review in that mode, with a known band, which is the band the snapshot returns.
\<close>

theorem validated_bundles_are_reviewed:
  assumes "validateTextBundle en l b = None"
  shows "distinct (map tn_ID (bu_Nowns b) @ map td_ID (bu_Cards b))
    \<and> (\<forall>k i. map_of (sx_nowns (index_bundle b h)) k = Some i \<longleftrightarrow> i < length (bu_Nowns b) \<and> tn_ID (bu_Nowns b ! i) = k)
    \<and> (\<forall>k i. map_of (sx_cards (index_bundle b h)) k = Some i \<longleftrightarrow> i < length (bu_Cards b) \<and> td_ID (bu_Cards b ! i) = k)
    \<and> (\<forall>n\<in>set (bu_Nowns b). \<forall>c\<in>set (bu_Cards b). \<forall>md\<in>set (tn_Modes n) \<inter> set (td_Modes c).
        \<exists>r. reviewed b md n c r \<and> (\<forall>r'. reviewed b md n c r' \<longrightarrow> r' = r) \<and> su_Band r \<in> {High, Distant, Chaos}
          \<and> band_of (index_bundle b h) md (tn_ID n) (td_ID c) = su_Band r)"
proof -
  note p = validated_parts(1) [OF assms]
  have "distinct (map tn_ID (bu_Nowns b))" "distinct (map td_ID (bu_Cards b))" using p by simp_all
  then show ?thesis
    using p reviewed_once [OF assms] index_by_lookup [of tn_ID "bu_Nowns b"] index_by_lookup [of td_ID "bu_Cards b"]
    by (simp add: index_bundle_def)
qed

theorem validated_bundles_are_reviewed_witness:
  "band_of (index_bundle sample_bundle zero_hash) ModeTopThat ''n1'' ''t2'' = Distant"
proof -
  have "bundle_nown 1 \<in> set (bu_Nowns sample_bundle)" "bundle_card 2 \<in> set (bu_Cards sample_bundle)"
    "ModeTopThat \<in> set (tn_Modes (bundle_nown 1)) \<inter> set (td_Modes (bundle_card 2))"
    by (simp_all add: sample_bundle_def bundle_nown_def bundle_card_def)
  then obtain r where r: "reviewed sample_bundle ModeTopThat (bundle_nown 1) (bundle_card 2) r"
    "band_of (index_bundle sample_bundle zero_hash) ModeTopThat (tn_ID (bundle_nown 1)) (td_ID (bundle_card 2)) = su_Band r"
    using validated_bundles_are_reviewed [OF sample_bundle_valid, of zero_hash] by metis
  have ids: "tn_ID (bundle_nown 1) = ''n1''" "td_ID (bundle_card 2) = ''t2''" by code_simp+
  have "r \<in> set (bu_Suitability sample_bundle)" "su_NownID r = ''n1''" "su_CardID r = ''t2''"
    using r(1) unfolding reviewed_def ids by blast+
  moreover have "list_all (\<lambda>r. su_NownID r = ''n1'' \<longrightarrow> su_CardID r = ''t2'' \<longrightarrow> su_Band r = Distant) (bu_Suitability sample_bundle)"
    by code_simp
  ultimately have "su_Band r = Distant" by (simp add: list_all_iff)
  then show ?thesis using r(2) unfolding ids by simp
qed

subsection \<open>The search for retained cards\<close>

text \<open>
  C24. The search for a seat's cards is exact: what it finds is a selection of the pool, in its order,
  of the right size, with enough high and distant cards for every prompt; it reports
  infeasibility only if there is no such selection at all; and it gives up only after the whole
  node budget, which the seats share, has been used.
\<close>

theorem retained_search_is_exact:
  assumes "nodes \<le> dt_MaxSearchNodes t" "textRetained s md schedule pool t nodes = (r, m)"
  shows "case r of
      Inr cs \<Rightarrow> subseq cs pool \<and> int (length cs) = dt_HandSize t + dt_ReserveSize t \<and> covers s md t schedule cs
        \<and> m \<le> dt_MaxSearchNodes t
    | Inl e \<Rightarrow> e = ErrTextInfeasible \<and> m \<le> dt_MaxSearchNodes t
          \<and> (\<nexists>cs. subseq cs pool \<and> int (length cs) = dt_HandSize t + dt_ReserveSize t \<and> covers s md t schedule cs)
        \<or> e = ErrTextSearchBudget \<and> m = dt_MaxSearchNodes t + 1"
  using textRetained_outcome [OF assms(2)]
    search_nodes [OF assms(1), of "dt_HandSize t + dt_ReserveSize t" "replicate (2 * length schedule) 0" "[]"
        "map (\<lambda>c. (c, contribution s md schedule c)) pool"] assms(2)
  by (auto simp: textRetained_def split: search_result.splits)

theorem retained_search_is_exact_witness:
  "\<exists>cs. subseq cs [bundle_card 1, bundle_card 2] \<and> length cs = 2
     \<and> covers (index_bundle sample_bundle zero_hash) ModeTopThat deal_sizes [bundle_nown 1, bundle_nown 2] cs"
proof -
  let ?search = "textRetained (index_bundle sample_bundle zero_hash) ModeTopThat [bundle_nown 1, bundle_nown 2]
    [bundle_card 1, bundle_card 2] deal_sizes 0"
  obtain r m where s: "?search = (r, m)" by fastforce
  have "accepted (fst ?search)" by code_simp
  then obtain cs where "r = Inr cs" using accepted_Inr s by (metis fst_conv)
  moreover have "0 \<le> dt_MaxSearchNodes deal_sizes" "dt_HandSize deal_sizes + dt_ReserveSize deal_sizes = 2"
    by (simp_all add: deal_sizes_def)
  ultimately show ?thesis using retained_search_is_exact [OF _ s] by auto
qed

subsection \<open>Deals\<close>

text \<open>
  C25. A deal from a validated bundle is complete: half as many different prompts of the mode as
  seats; for every seat a hand and a reserve of the configured sizes, of different cards of the
  mode, that pass the coverage check for every prompt; for every round the seed cards of
  the mode, as many as it needs, with pairwise different texts.
\<close>

theorem deals_are_complete:
  assumes "validateTextBundle en l b = None" "Deal rng (index_bundle b h) md sz t r = Inr d"
  shows "int (length (de_Nowns d)) = sz div 2 \<and> mset (de_Nowns d) \<subseteq># mset (eligible_nowns (index_bundle b h) md)
    \<and> int (length (de_Hands d)) = sz
    \<and> (\<forall>x\<in>set (de_Hands d). full_hand (index_bundle b h) md t (de_Nowns d) (eligible_cards (index_bundle b h) md) x)
    \<and> int (length (de_SystemSeeds d)) = sz div 2
    \<and> (\<forall>x\<in>set (de_SystemSeeds d). good_seeds (nat (seed_count md sz)) (eligible_cards (index_bundle b h) md) x)"
  using Deal_complete [OF assms(2)] validated_parts(1) [OF assms(1)] by (simp add: index_bundle_def)

theorem deals_are_complete_witness:
  "\<exists>d. Deal (\<lambda>seed k. 0) (index_bundle sample_bundle zero_hash) ModeTopThat 4 deal_sizes \<lparr>ra_Schedule = 1, ra_Hands = 2, ra_System = 3\<rparr> = Inr d
     \<and> length (de_Hands d) = 4 \<and> length (de_SystemSeeds d) = 2"
proof -
  obtain d where d: "Deal (\<lambda>seed k. 0) (index_bundle sample_bundle zero_hash) ModeTopThat 4 deal_sizes
      \<lparr>ra_Schedule = 1, ra_Hands = 2, ra_System = 3\<rparr> = Inr d" using accepted_Inr [OF sample_bundle_deals] by blast
  show ?thesis using deals_are_complete [OF sample_bundle_valid d] d by simp
qed

text \<open>
  C26. A dealt match never runs out of rounds: with a deal from a validated bundle for the contract's
  mode and size, every round the match can reach begins, whatever happened before.
\<close>

theorem dealt_rounds_begin:
  assumes "validateTextBundle en l b = None"
    and "Deal rng (index_bundle b h) (mc_ModeID (op_Contract opts)) (mc_OriginalSize (op_Contract opts)) t r = Inr (op_Deal opts)"
    and "1 \<le> st_Round s" "st_Round s \<le> mc_OriginalSize (op_Contract opts) div 2"
  shows "\<exists>s'. beginRound (initial_match env opts c seed d) s now = Inr s'"
proof -
  have l: "loaded (initial_match env opts c seed d)"
    using dealt_loaded [OF assms(2)] validated_parts(1) [OF assms(1)] by (simp add: index_bundle_def)
  have "int (length (de_SystemSeeds (op_Deal opts))) = mc_OriginalSize (op_Contract opts) div 2"
    using Deal_complete [OF assms(2)] validated_parts(1) [OF assms(1)] by (simp add: index_bundle_def)
  then have "int (length (tm_seeds (initial_match env opts c seed d))) = mc_OriginalSize (op_Contract opts) div 2"
    by (simp add: initial_match_def Let_def)
  then show ?thesis using beginRound_total [OF l assms(3), of now] assms(4) by metis
qed

theorem dealt_rounds_begin_witness:
  "\<exists>opts s'. beginRound (initial_match sample_surroundings opts sample_config 1 sample_dealt) (sample_begun\<lparr>st_Round := 2\<rparr>)
     (time_unix_milli 9000) = Inr s'"
proof -
  obtain d where d: "Deal (\<lambda>seed k. 0) (index_bundle sample_bundle zero_hash) ModeTopThat 4 deal_sizes
      \<lparr>ra_Schedule = 1, ra_Hands = 2, ra_System = 3\<rparr> = Inr d" using accepted_Inr [OF sample_bundle_deals] by blast
  define opts where "opts = (sample_options ModeTopThat)\<lparr>op_Deal := d\<rparr>"
  have o': "mc_ModeID (op_Contract opts) = ModeTopThat" "mc_OriginalSize (op_Contract opts) = 4" "op_Deal opts = d"
    by (simp_all add: opts_def sample_options_def sample_contract_def)
  show ?thesis
    using dealt_rounds_begin [OF sample_bundle_valid, where opts = opts and s = "sample_begun\<lparr>st_Round := 2\<rparr>"] d
    unfolding o' by simp blast
qed

end
