(* ===== verification/Paging.thy ===== *)
theory Paging
  imports History 
begin

section \<open>Pages of a history\<close>

text \<open>
  What \<open>PaginateHistory\<close> cuts, \<open>AssembleHistory\<close> accepts and puts together again; and what it
  accepts is bound by the manifest.
\<close>

definition digest :: "(string \<Rightarrow> nat list) \<Rightarrow> bool" where
  "digest sha \<longleftrightarrow> (\<forall>x. length (sha x) = 32 \<and> (\<forall>b\<in>set (sha x). b < 256))"

subsection \<open>Parts of a valid history\<close>

lemma history_weaken:
  "history_from lang l n ids prev es = None \<Longrightarrow> set ids' \<subseteq> set ids \<Longrightarrow> prev' = prev \<or> prev' = None \<Longrightarrow>
   history_from lang l n ids' prev' es = None"
proof (induction lang l n ids prev es arbitrary: ids' prev' rule: history_from.induct)
  case (2 lang l n ids prev e es)
  have p: "event_validate lang l e = None" "e_EvidenceSeq e = n \<and> e_EventID e \<notin> set ids"
    "\<not> (case prev of None \<Rightarrow> False | Some q \<Rightarrow> e_Round e < e_Round q \<or> e_ServerTimeMS e < e_ServerTimeMS q
      \<or> e_BeforeRevision e < e_AfterRevision q)"
    "history_from lang l (n + 1) (e_EventID e # ids) (Some e) es = None"
    using "2.prems"(1) by simp_all
  have "history_from lang l (n + 1) (e_EventID e # ids') (Some e) es = None"
    by (rule "2.IH" [OF p(4)]) (use "2.prems"(2) in auto)
  moreover have "\<not> (case prev' of None \<Rightarrow> False | Some q \<Rightarrow> e_Round e < e_Round q \<or> e_ServerTimeMS e < e_ServerTimeMS q
      \<or> e_BeforeRevision e < e_AfterRevision q)"
    using "2.prems"(3) p(3) by (elim disjE) simp_all
  moreover have "e_EventID e \<notin> set ids'" using p(2) "2.prems"(2) by blast
  ultimately show ?case using p(1,2) by simp
qed simp

lemma history_append:
  "history_from lang l n ids prev (xs @ ys) = None \<Longrightarrow>
   history_from lang l n ids prev xs = None \<and> history_from lang l (n + length xs) [] None ys = None"
proof (induction xs arbitrary: n ids prev)
  case Nil
  then show ?case using history_weaken by fastforce
next
  case (Cons x xs)
  then have "history_from lang l (n + 1) (e_EventID x # ids) (Some x) (xs @ ys) = None" by simp
  from Cons.IH [OF this] show ?case using Cons.prems by simp
qed

lemma history_seqs:
  "history_from lang l n ids prev es = None \<Longrightarrow>
   map e_EvidenceSeq es = [n..<n + length es] \<and> (\<forall>e\<in>set es. event_validate lang l e = None)"
proof (induction es arbitrary: n ids prev)
  case (Cons e es)
  then have "history_from lang l (n + 1) (e_EventID e # ids) (Some e) es = None" by simp
  from Cons.IH [OF this] show ?case using Cons.prems by (simp add: upt_rec)
qed simp

lemma event_seq: "event_validate lang l e = None \<Longrightarrow> e_EvidenceSeq e \<noteq> 0 \<and> safe (e_EvidenceSeq e)"
  by (simp add: event_validate_def)

subsection \<open>Sizes\<close>

lemma hex_digit_plain: "n < 16 \<Longrightarrow> byte (hex_digit n) < 128 \<and> marshal_rune (byte (hex_digit n), [hex_digit n]) = [hex_digit n]"
  by (auto simp: hex_digit_def byte_def marshal_rune_def rune_error_def)

lemma hex_encode_plain:
  assumes "\<forall>b\<in>set bs. b < 256" "c \<in> set (hex_encode bs)"
  shows "\<exists>n<16. c = hex_digit n"
proof -
  obtain b where "b \<in> set bs" "c = hex_digit (b div 16) \<or> c = hex_digit (b mod 16)"
    using assms(2) by (auto simp: hex_encode_def)
  moreover from this have "b div 16 < 16" "b mod 16 < 16" using assms(1) by (auto simp: less_mult_imp_div_less)
  ultimately show ?thesis by blast
qed

lemma marshal_plain:
  assumes "\<forall>c\<in>set s. \<exists>n<16. c = hex_digit n"
  shows "length (marshal_string s) = length s + 2"
proof -
  have "\<forall>c\<in>set s. byte c < 128" using assms hex_digit_plain by auto
  then have "marshal_string s = [dquote] @ concat (map (\<lambda>c. marshal_rune (byte c, [c])) s) @ [dquote]"
    by (simp add: marshal_string_def segs_ascii comp_def)
  also have "map (\<lambda>c. marshal_rune (byte c, [c])) s = map (\<lambda>c. [c]) s" using assms hex_digit_plain by auto
  finally show ?thesis by simp
qed

lemma length_hex_encode: "length (hex_encode bs) = 2 * length bs"
  by (induction bs) (simp_all add: hex_encode_def)

lemma digest_string:
  assumes "digest sha"
  shows "length (marshal_string (hex_encode (sha x))) = length (marshal_string sha_placeholder)"
proof -
  have s: "length (sha x) = 32" "\<forall>b\<in>set (sha x). b < 256" using assms by (simp_all add: digest_def)
  have "CHR ''0'' = hex_digit 0" by code_simp
  then have "\<forall>c\<in>set sha_placeholder. \<exists>n<16. c = hex_digit n" by (auto simp: sha_placeholder_def intro!: exI [of _ 0])
  from marshal_plain [OF this] marshal_plain [of "hex_encode (sha x)"] hex_encode_plain [OF s(2)]
  show ?thesis by (simp add: length_hex_encode s(1) sha_placeholder_def)
qed

lemma page_bytes_hash:
  assumes "length (marshal_string h) = length (marshal_string (hp_SHA256 p))"
  shows "page_bytes (p\<lparr>hp_SHA256 := h\<rparr>) = page_bytes p"
  by (simp add: page_bytes_def json_page_def assms)

subsection \<open>Cutting\<close>

lemma fill_page_takes:
  assumes "fill_page l page es = Inr (page', rest)" "int (length (hp_Events page)) \<le> MaxHistoryPageEvents l"
  shows "\<exists>taken. es = taken @ rest \<and> int (length (hp_Events page @ taken)) \<le> MaxHistoryPageEvents l
    \<and> (if taken = [] then page' = page
       else page' = page\<lparr>hp_Events := hp_Events page @ taken, hp_ThroughEvidenceSeq := e_EvidenceSeq (last taken),
           hp_SHA256 := sha_placeholder\<rparr> \<and> page_bytes page' \<le> MaxFrameBytes l)"
  using assms
proof (induction l page es rule: fill_page.induct)
  case (2 l page e es)
  define candidate where "candidate = page\<lparr>hp_Events := hp_Events page @ [e],
    hp_ThroughEvidenceSeq := e_EvidenceSeq e, hp_SHA256 := sha_placeholder\<rparr>"
  consider (full) "page' = page" "rest = e # es"
    | (more) "int (length (hp_Events page)) < MaxHistoryPageEvents l" "page_bytes candidate \<le> MaxFrameBytes l"
        "fill_page l candidate es = Inr (page', rest)"
    using "2.prems"(1) by (auto simp: Let_def candidate_def split: if_splits)
  then show ?case
  proof cases
    case full
    then show ?thesis using "2.prems"(2) by (intro exI [of _ "[]"]) simp
  next
    case more
    have "int (length (hp_Events candidate)) \<le> MaxHistoryPageEvents l" using more(1) by (simp add: candidate_def)
    moreover have "\<not> MaxFrameBytes l < page_bytes candidate" using more(2) by simp
    ultimately obtain taken where t: "es = taken @ rest" "int (length (hp_Events candidate @ taken)) \<le> MaxHistoryPageEvents l"
      "if taken = [] then page' = candidate
       else page' = candidate\<lparr>hp_Events := hp_Events candidate @ taken, hp_ThroughEvidenceSeq := e_EvidenceSeq (last taken),
           hp_SHA256 := sha_placeholder\<rparr> \<and> page_bytes page' \<le> MaxFrameBytes l"
      using "2.IH" [OF more(1) candidate_def] more(3) by metis
    then show ?thesis using more(2)
      by (intro exI [of _ "e # taken"]) (auto simp: candidate_def split: if_splits)
  qed
qed simp

text \<open>What \<open>AssembleHistory\<close> asks of the page at an index.\<close>

definition page_ok ::
  "(string \<Rightarrow> nat list) \<Rightarrow> (string \<Rightarrow> bool) \<Rightarrow> limits \<Rightarrow> string \<Rightarrow> string \<Rightarrow> string \<Rightarrow> nat \<Rightarrow> history_page \<Rightarrow> bool" where
  "page_ok sha lang l mid sid ep i p \<longleftrightarrow> hp_MatchID p = mid \<and> hp_SnapshotID p = sid \<and> hp_StreamEpoch p = ep
     \<and> hp_Index p = int i \<and> page_Validate sha lang l p = None \<and> page_bytes p \<le> MaxFrameBytes l"

fun pages_ok ::
  "(string \<Rightarrow> nat list) \<Rightarrow> (string \<Rightarrow> bool) \<Rightarrow> limits \<Rightarrow> string \<Rightarrow> string \<Rightarrow> string \<Rightarrow> nat \<Rightarrow> history_page list \<Rightarrow> bool" where
  "pages_ok sha lang l mid sid ep i [] = True"
| "pages_ok sha lang l mid sid ep i (p # ps) = (page_ok sha lang l mid sid ep i p \<and> pages_ok sha lang l mid sid ep (i + 1) ps)"

lemma assemble_pages_iff:
  "assemble_pages sha lang l m mid sid ep i acc ps = Inr es \<longleftrightarrow>
     pages_ok sha lang l mid sid ep i ps \<and> es = acc @ concat (map hp_Events ps)
     \<and> (ps = [] \<or> int (length es) \<le> hm_TotalEvents m)"
proof (induction sha lang l m mid sid ep i acc ps rule: assemble_pages.induct)
  case (2 sha lang l m mid sid ep i acc p ps)
  let ?cs = "[reject_if (hp_MatchID p \<noteq> mid \<or> hp_SnapshotID p \<noteq> sid \<or> hp_StreamEpoch p \<noteq> ep \<or> hp_Index p \<noteq> int i)
           (invalid ErrHistoryIntegrity ''page_identity''),
         page_Validate sha lang l p,
         reject_if (page_bytes p > MaxFrameBytes l) (invalid ErrFrameTooLarge ''history_page''),
         reject_if (int (length acc + length (hp_Events p)) > hm_TotalEvents m) (invalid ErrHistoryIntegrity ''total_events'')]"
  have c: "checks ?cs = None \<longleftrightarrow> page_ok sha lang l mid sid ep i p \<and> int (length acc + length (hp_Events p)) \<le> hm_TotalEvents m"
    by (auto simp: page_ok_def)
  have s: "assemble_pages sha lang l m mid sid ep i acc (p # ps) = (case checks ?cs of Some e \<Rightarrow> Inl e
      | None \<Rightarrow> assemble_pages sha lang l m mid sid ep (i + 1) (acc @ hp_Events p) ps)" by (simp only: assemble_pages.simps)
  show ?case
  proof (cases "checks ?cs = None")
    case True
    then have "assemble_pages sha lang l m mid sid ep i acc (p # ps) = assemble_pages sha lang l m mid sid ep (i + 1) (acc @ hp_Events p) ps"
      by (simp only: s option.case)
    moreover have "int (length acc + length (hp_Events p)) \<le> hm_TotalEvents m" "page_ok sha lang l mid sid ep i p" using True c by blast+
    ultimately show ?thesis using "2.IH" [OF True] by auto
  next
    case False
    then obtain e where "checks ?cs = Some e" by blast
    then have "assemble_pages sha lang l m mid sid ep i acc (p # ps) = Inl e" by (simp only: s option.case)
    moreover have "\<not> (page_ok sha lang l mid sid ep i p \<and> int (length acc + length (hp_Events p)) \<le> hm_TotalEvents m)"
      using False unfolding c .
    ultimately show ?thesis by auto
  qed
qed auto

lemma make_pages_ok:
  assumes "make_pages sha l mid sid ep i es = Inr ps" "digest sha"
    and "ValidIdentifier mid" "ValidIdentifier sid" "ValidIdentifier ep"
    and "history_from lang l n [] None es = None" "0 < n" "int (i + length es) \<le> MaxHistoryEvents l"
    and "limits_Validate l = None"
  shows "pages_ok sha lang l mid sid ep i ps \<and> concat (map hp_Events ps) = es \<and> length ps \<le> length es \<and> (ps = [] \<longleftrightarrow> es = [])"
  using assms
proof (induction sha l mid sid ep i es arbitrary: n ps rule: make_pages.induct)
  case (1 sha l mid sid ep i es)
  show ?case
  proof (cases es)
    case Nil
    then show ?thesis using "1.prems"(1) by (simp add: make_pages.simps)
  next
    case (Cons e es')
    define start where "start = new_page mid sid ep i (e_EvidenceSeq e)"
    have pos: "0 < MaxHistoryPageEvents l" using "1.prems"(9) by (simp add: limits_Validate_def not_le)
    obtain page rest ps' where f: "fill_page l start es = Inr (page, rest)"
      and m: "make_pages sha l mid sid ep (i + 1) rest = Inr ps'"
      and ps: "ps = page\<lparr>hp_SHA256 := eventsHash sha (hp_Events page)\<rparr> # ps'"
      using "1.prems"(1) pos by (subst (asm) make_pages.simps) (auto simp: Cons start_def split: sum.splits)
    have start: "hp_Events start = []" by (simp add: start_def new_page_def)
    obtain taken where t: "es = taken @ rest" "int (length taken) \<le> MaxHistoryPageEvents l"
      and pg: "if taken = [] then page = start
       else page = start\<lparr>hp_Events := taken, hp_ThroughEvidenceSeq := e_EvidenceSeq (last taken), hp_SHA256 := sha_placeholder\<rparr>
         \<and> page_bytes page \<le> MaxFrameBytes l"
    proof -
      have z: "int (length (hp_Events start)) \<le> MaxHistoryPageEvents l" using pos by (simp add: start)
      show thesis using fill_page_takes [OF f z, unfolded start append_Nil] that by blast
    qed
    have "taken \<noteq> []" using fill_page_progress [OF f [unfolded Cons] start pos] t(1) Cons by auto
    then have page: "page = start\<lparr>hp_Events := taken, hp_ThroughEvidenceSeq := e_EvidenceSeq (last taken), hp_SHA256 := sha_placeholder\<rparr>"
      "page_bytes page \<le> MaxFrameBytes l" using pg by (metis (no_types, lifting))+
    have h: "history_from lang l n [] None taken = None" "history_from lang l (n + length taken) [] None rest = None"
      using history_append [of lang l n "[]" None taken rest] "1.prems"(6) t(1) by simp_all
    have hd: "hd taken = e" "0 < length taken" using t(1) Cons \<open>taken \<noteq> []\<close> by (cases taken; simp)+
    have len: "int (length es) = int (length taken) + int (length rest)" "1 \<le> int (length taken)"
      using t(1) hd(2) by (simp, linarith)
    have IH: "pages_ok sha lang l mid sid ep (i + 1) ps' \<and> concat (map hp_Events ps') = rest \<and> length ps' \<le> length rest"
    proof -
      have "start = new_page mid sid ep i (e_EvidenceSeq e)" "int (i + 1 + length rest) \<le> MaxHistoryEvents l"
        using "1.prems"(8) len by (simp add: start_def, simp)
      then show ?thesis
        using "1.IH" [OF Cons _ f [unfolded start_def] refl m "1.prems"(2-5) h(2)] pos "1.prems"(7,9) Cons by simp
    qed
    have page_good: "page_ok sha lang l mid sid ep i (page\<lparr>hp_SHA256 := eventsHash sha (hp_Events page)\<rparr>)"
    proof -
      have seqs: "map e_EvidenceSeq taken = [n..<n + length taken]" "\<forall>e\<in>set taken. event_validate lang l e = None"
        using history_seqs [OF h(1)] by simp_all
      have "hd (map e_EvidenceSeq taken) = n" "last (map e_EvidenceSeq taken) = n + length taken - 1"
        unfolding seqs(1) using \<open>taken \<noteq> []\<close> by simp_all
      then have e: "e_EvidenceSeq e = n" "e_EvidenceSeq (last taken) = n + length taken - 1"
        using hd by (simp_all add: hd_map last_map \<open>taken \<noteq> []\<close>)
      have "safe (e_EvidenceSeq (hd taken))" "safe (e_EvidenceSeq (last taken))"
        using event_seq seqs(2) hd_in_set [OF \<open>taken \<noteq> []\<close>] last_in_set [OF \<open>taken \<noteq> []\<close>] by blast+
      then have safe: "safe n" "safe (n + length taken - 1)"
        using e hd by simp_all
      have "page_bytes (page\<lparr>hp_SHA256 := eventsHash sha (hp_Events page)\<rparr>) = page_bytes page"
        by (rule page_bytes_hash) (simp add: page(1) eventsHash_def digest_string [OF "1.prems"(2)])
      moreover have "int (length taken) \<le> MaxHistoryEvents l" "int i < MaxHistoryEvents l"
        using "1.prems"(8) len by linarith+
      ultimately show ?thesis
        using "1.prems"(3-5) page(2) t(2) h(1) "1.prems"(7) safe \<open>taken \<noteq> []\<close>
        by (simp add: page_ok_def page_Validate_def validateHistory_def page(1) start_def new_page_def e)
    qed
    show ?thesis using page_good IH ps t(1) page(1) \<open>taken \<noteq> []\<close> Cons by (cases taken) auto
  qed
qed

subsection \<open>The round trip\<close>

lemma history_started: "validateHistory lang l es n = None \<longleftrightarrow>
    int (length es) \<le> MaxHistoryEvents l \<and> history_from lang l n [] None es = None"
  by (auto simp: validateHistory_def)

lemma paginate_assemble:
  assumes "PaginateHistory sha lang l mid sid ep es = Inr (m, pages)" "digest sha"
  shows "AssembleHistory sha lang l m pages mid sid ep = Inr es"
proof -
  have v: "limits_Validate l = None" "ValidIdentifier mid" "ValidIdentifier sid" "ValidIdentifier ep" "es \<noteq> []"
    "validateHistory lang l es 1 = None"
    and mk: "make_pages sha l mid sid ep 0 es = Inr pages"
    and m: "m = \<lparr>hm_TotalEvents = int (length es), hm_PageCount = int (length pages), hm_ThroughEvidenceSeq = length es,
      hm_RootSHA256 = rootHash sha pages\<rparr>"
    using assms(1) by (auto simp: PaginateHistory_def split: option.splits sum.splits)
  have len: "int (0 + length es) \<le> MaxHistoryEvents l" and h: "history_from lang l 1 [] None es = None"
    using v(6) by (simp_all add: history_started)
  note ok = make_pages_ok [OF mk assms(2) v(2-4) h _ len v(1)]
  have "hash_ok (rootHash sha pages)" using assms(2) by (simp add: rootHash_def hash_ok_encode digest_def)
  moreover have "pages \<noteq> []" "length pages \<le> length es" "concat (map hp_Events pages) = es" using ok v(5) by simp_all
  moreover have "assemble_pages sha lang l m mid sid ep 0 [] pages = Inr es"
    unfolding assemble_pages_iff using ok by (simp add: m)
  ultimately show ?thesis using v len by (simp add: AssembleHistory_def m reject_if_def)
qed

lemma assemble_sound:
  assumes "AssembleHistory sha lang l m pages mid sid ep = Inr es"
  shows "pages_ok sha lang l mid sid ep 0 pages" "es = concat (map hp_Events pages)"
    "validateHistory lang l es 1 = None" "int (length es) = hm_TotalEvents m" "int (length pages) = hm_PageCount m"
    "rootHash sha pages = hm_RootSHA256 m"
proof -
  obtain es' where a: "assemble_pages sha lang l m mid sid ep 0 [] pages = Inr es'"
    using assms by (auto simp: AssembleHistory_def split: option.splits sum.splits)
  have "es' = es" "validateHistory lang l es 1 = None" "int (length es) = hm_TotalEvents m" "int (length pages) = hm_PageCount m"
    "rootHash sha pages = hm_RootSHA256 m"
    using assms a by (auto simp: AssembleHistory_def split: option.splits)
  then show "pages_ok sha lang l mid sid ep 0 pages" "es = concat (map hp_Events pages)"
    "validateHistory lang l es 1 = None" "int (length es) = hm_TotalEvents m" "int (length pages) = hm_PageCount m"
    "rootHash sha pages = hm_RootSHA256 m"
    using a by (simp_all add: assemble_pages_iff)
qed

subsection \<open>What the manifest binds\<close>

lemma chunks_equal:
  "concat xs = concat ys \<Longrightarrow> length xs = length ys \<Longrightarrow> \<forall>x\<in>set xs. length x = k \<Longrightarrow> \<forall>y\<in>set ys. length y = k \<Longrightarrow> xs = ys"
proof (induction xs arbitrary: ys)
  case (Cons x xs)
  then obtain y ys' where y: "ys = y # ys'" by (cases ys) auto
  then show ?case using Cons by auto
qed simp

lemma page_hash: "pages_ok sha lang l mid sid ep i pages \<Longrightarrow> \<forall>p\<in>set pages. hp_SHA256 p = eventsHash sha (hp_Events p)"
  by (induction sha lang l mid sid ep i pages rule: pages_ok.induct) (auto simp: page_ok_def page_Validate_def)

definition page_content :: "history_page \<Rightarrow> string" where
  "page_content p = events_canonical (hp_Events p)"

lemma page_hash_bytes:
  assumes "digest sha" "\<forall>p\<in>set pages. hp_SHA256 p = eventsHash sha (hp_Events p)"
  shows "map (\<lambda>p. hex_bytes (hp_SHA256 p)) pages = map (\<lambda>p. map char_of (sha (page_content p))) pages"
  using assms by (auto simp: eventsHash_def hex_bytes_def hex_decode_encode digest_def page_content_def)

lemma char_of_list_inj:
  "\<forall>b\<in>set bs. b < 256 \<Longrightarrow> \<forall>b\<in>set cs. b < 256 \<Longrightarrow> map char_of bs = (map char_of cs :: string) \<Longrightarrow> bs = (cs :: nat list)"
proof (induction bs arbitrary: cs)
  case (Cons b bs)
  obtain c cs' where c: "cs = c # cs'" using Cons.prems(3) by (cases cs) simp_all
  have "char_of b = (char_of c :: char)" "map char_of bs = (map char_of cs' :: string)" using Cons.prems(3) c by simp_all
  moreover from this(1) have "(of_char (char_of b :: char) :: nat) = of_char (char_of c :: char)" by simp
  then have "b mod 256 = c mod 256" by (simp only: of_char_of)
  then have "b = c" using Cons.prems(1,2) c by simp
  moreover have "bs = cs'" using Cons.prems(1,2) c by (intro Cons.IH calculation(2)) simp_all
  ultimately show ?case using c by simp
qed simp

text \<open>
  The texts that are hashed for a set of pages: the canonical events of each page, and for the root
  the page digests one after the other. A collision between two sets of pages is a collision of
  the digest at these very texts: at the roots, or at the page of the same index.
\<close>

definition root_text :: "history_page list \<Rightarrow> string" where
  "root_text pages = concat (map (\<lambda>p. hex_bytes (hp_SHA256 p)) pages)"

definition digests_collide :: "(string \<Rightarrow> nat list) \<Rightarrow> history_page list \<Rightarrow> history_page list \<Rightarrow> bool" where
  "digests_collide sha pages pages' \<longleftrightarrow>
     root_text pages \<noteq> root_text pages' \<and> sha (root_text pages) = sha (root_text pages')
   \<or> list_ex (\<lambda>(p, q). page_content p \<noteq> page_content q \<and> sha (page_content p) = sha (page_content q)) (zip pages pages')"

lemma manifest_binds:
  assumes "digest sha" "AssembleHistory sha lang l m pages mid sid ep = Inr es"
    "AssembleHistory sha lang l m pages' mid sid ep = Inr es'"
  shows "map page_content pages = map page_content pages' \<or> digests_collide sha pages pages'"
proof (cases "digests_collide sha pages pages'")
  case False
  note a = assemble_sound [OF assms(2)] and b = assemble_sound [OF assms(3)]
  have bytes: "\<forall>x\<in>set (sha y). x < 256" "length (sha y) = 32" for y using assms(1) by (simp_all add: digest_def)
  have "rootHash sha pages = rootHash sha pages'" using a(6) b(6) by simp
  then have "sha (root_text pages) = sha (root_text pages')"
    unfolding rootHash_def root_text_def by (rule hex_encode_inj [OF bytes(1) bytes(1)])
  then have "root_text pages = root_text pages'" using False by (auto simp: digests_collide_def)
  moreover note page_hash_bytes [OF assms(1) page_hash [OF a(1)]] page_hash_bytes [OF assms(1) page_hash [OF b(1)]]
  moreover have len: "length pages = length pages'" using a(5) b(5) by simp
  ultimately have "map (\<lambda>p. map char_of (sha (page_content p)) :: string) pages = map (\<lambda>p. map char_of (sha (page_content p))) pages'"
    unfolding root_text_def by (intro chunks_equal [where k = 32]) (auto simp: bytes(2))
  then have same: "sha (page_content (pages ! i)) = sha (page_content (pages' ! i))" if "i < length pages" for i
    using that len by (intro char_of_list_inj [OF bytes(1) bytes(1)]) (simp add: list_eq_iff_nth_eq)
  have "page_content (pages ! i) = page_content (pages' ! i)" if "i < length pages" for i
    using False same [OF that] that len unfolding digests_collide_def list_ex_length by fastforce
  then show ?thesis using len by (simp add: list_eq_iff_nth_eq)
qed simp

end
