(* ===== verification/Evidence.thy ===== *)
theory Evidence
  imports Transitions
begin

section \<open>Two counts of one ballot\<close>

text \<open>
  The engine counts a ballot to decide it, the wire contract counts the published votes again to
  verify it. On an open ballot the two agree: the evidence the engine records always verifies.
\<close>

definition ballot_open :: "text_state \<Rightarrow> bool" where
  "ballot_open s \<longleftrightarrow> distinct (st_Candidates s) \<and> 2 \<le> length (st_Candidates s) \<and> length (st_Players s) \<le> 6
     \<and> list_all (\<lambda>c. in_range c (st_Players s)) (st_Candidates s) \<and> distinct (map fst (st_Votes s))
     \<and> list_all (\<lambda>(v, t). in_range v (st_Players s) \<and> t \<in> set (st_Candidates s) \<and> v \<noteq> t) (st_Votes s)"

subsection \<open>The published votes\<close>

definition cast :: "text_state \<Rightarrow> (int \<times> int) list" where
  "cast s = filter (\<lambda>(v, t). active_connected (player s v)) (st_Votes s)"

lemma votes_for_cast: "votes_for s i = int (length (filter (\<lambda>(v, t). t = i) (cast s)))"
  unfolding votes_for_def cast_def by (simp add: filter_filter case_prod_unfold conj_commute)

definition published :: "text_state \<Rightarrow> ballot_vote list" where
  "published s = ballot_votes s active_connected"

lemma published_pairs:
  assumes "ballot_open s"
  shows "mset (map (\<lambda>b. (bv_Seat b, bv_TargetSeat b)) (published s)) = mset (cast s)" "distinct (map bv_Seat (published s))"
proof -
  let ?one = "\<lambda>(i, v). case map_of (st_Votes s) i of
        None \<Rightarrow> [] | Some t \<Rightarrow> if active_connected v then [\<lparr>bv_Seat = i, bv_TargetSeat = t\<rparr>] else []"
  have p: "published s = concat (map ?one (indexed (st_Players s)))" by (simp add: published_def ballot_votes_def)
  have seats: "map bv_Seat (concat (map ?one xs)) = map fst (filter (\<lambda>(i, v). active_connected v \<and> map_of (st_Votes s) i \<noteq> None) xs)" for xs
    by (induction xs) (auto split: option.splits if_splits)
  have d: "distinct (map fst (indexed (st_Players s)))" by (simp add: indexed_def distinct_map)
  then show ds: "distinct (map bv_Seat (published s))"
    unfolding p seats by (rule distinct_map_filter)
  have dv: "distinct (map fst (st_Votes s))" using assms by (simp add: ballot_open_def)
  have "set (map (\<lambda>b. (bv_Seat b, bv_TargetSeat b)) (published s))
    = {(i, t). map_of (st_Votes s) i = Some t \<and> in_range i (st_Players s) \<and> active_connected (player s i)}"
    unfolding p by (force simp: set_indexed player_def split: option.splits if_splits)
  also have "\<dots> = set (cast s)"
    using assms dv by (auto simp: cast_def ballot_open_def list_all_iff dest: map_of_SomeD)
  finally have "set (map (\<lambda>b. (bv_Seat b, bv_TargetSeat b)) (published s)) = set (cast s)" .
  moreover have "distinct (map (\<lambda>b. (bv_Seat b, bv_TargetSeat b)) (published s))"
    using ds by (simp add: distinct_map inj_on_def)
  moreover have "distinct (cast s)" using dv by (simp add: cast_def distinct_map)
  ultimately show "mset (map (\<lambda>b. (bv_Seat b, bv_TargetSeat b)) (published s)) = mset (cast s)"
    using set_eq_iff_mset_eq_distinct by blast
qed

subsection \<open>The wire's count\<close>

definition add_vote :: "ballot_vote \<Rightarrow> (int \<times> int) list \<Rightarrow> (int \<times> int) list" where
  "add_vote v counts = AList.update (bv_TargetSeat v) (tget counts (bv_TargetSeat v) + 1) counts"

lemma evidence_votes_counts:
  assumes "distinct (map bv_Seat vs)" "set voters \<inter> bv_Seat ` set vs = {}"
    and "\<forall>v\<in>set vs. seat_ok (bv_Seat v) sz \<and> bv_TargetSeat v \<in> set cands \<and> bv_Seat v \<noteq> bv_TargetSeat v"
  shows "evidence_votes sz cands voters counts vs = Inr (fold add_vote vs counts)"
  using assms by (induction sz cands voters counts vs rule: evidence_votes.induct) (auto simp: add_vote_def)

definition tallied :: "(int \<Rightarrow> int) \<Rightarrow> (int \<times> int) list \<Rightarrow> bool" where
  "tallied n counts \<longleftrightarrow> distinct (map fst counts) \<and> (\<forall>k x. (k, x) \<in> set counts \<longleftrightarrow> x = n k \<and> 0 < n k) \<and> (\<forall>k. 0 \<le> n k)"

lemma tallied_tget: "tallied n counts \<Longrightarrow> tget counts k = n k"
proof -
  assume t: "tallied n counts"
  show ?thesis
  proof (cases "map_of counts k")
    case None
    then have "(k, n k) \<notin> set counts" by (force simp: map_of_eq_None_iff)
    then have "n k = 0" using t by (auto simp: tallied_def intro: antisym)
    then show ?thesis using None by (simp add: tget_def)
  next
    case (Some x)
    then show ?thesis using t map_of_SomeD [OF Some] by (simp add: tget_def tallied_def)
  qed
qed

lemma tallied_add:
  assumes "tallied n counts"
  shows "tallied (\<lambda>k. n k + (if k = bv_TargetSeat v then 1 else 0)) (add_vote v counts)"
proof -
  have d: "distinct (map fst counts)" using assms by (simp add: tallied_def)
  have "(k, x) \<in> set (add_vote v counts) \<longleftrightarrow>
      (if k = bv_TargetSeat v then x = n k + 1 else (k, x) \<in> set counts)" for k x
    unfolding add_vote_def tallied_tget [OF assms]
    using d map_of_eq_Some_iff [OF distinct_update [OF d]] map_of_eq_Some_iff [OF d]
    by (metis map_of_update fun_upd_apply option.inject)
  then show ?thesis
    using assms distinct_update [OF d] by (auto simp: tallied_def add_vote_def intro: add_nonneg_pos)
qed

lemma tallied_votes:
  assumes "tallied n counts"
  shows "tallied (\<lambda>k. n k + int (length (filter (\<lambda>v. bv_TargetSeat v = k) vs))) (fold add_vote vs counts)"
  using assms
proof (induction vs arbitrary: n counts)
  case (Cons v vs)
  have "(\<lambda>k. n k + int (length (filter (\<lambda>v. bv_TargetSeat v = k) (v # vs))))
    = (\<lambda>k. (n k + (if k = bv_TargetSeat v then 1 else 0)) + int (length (filter (\<lambda>v. bv_TargetSeat v = k) vs)))" by auto
  then show ?case using Cons.IH [OF tallied_add [OF Cons.prems, of v]] by simp
qed simp

text \<open>The running leader over the counts.\<close>

lemma leader_counts:
  assumes "\<forall>(k, x)\<in>set counts. 0 < x" "leader counts = (maximum, winner, winners)"
  shows "(\<forall>(k, x)\<in>set counts. x \<le> maximum) \<and> winners = int (length (filter (\<lambda>(k, x). x = maximum) counts))
    \<and> (if counts = [] then maximum = 0 else (winner, maximum) \<in> set counts)"
  using assms
proof (induction counts arbitrary: maximum winner winners rule: rev_induct)
  case (snoc c counts)
  obtain m w n where l: "leader counts = (m, w, n)" by (metis prod_cases3)
  obtain k x where c: "c = (k, x)" by fastforce
  have IH: "\<forall>(k, x)\<in>set counts. x \<le> m" "n = int (length (filter (\<lambda>(k, x). x = m) counts))"
    "if counts = [] then m = 0 else (w, m) \<in> set counts" using snoc.IH [OF _ l] snoc.prems(1) by auto
  have x: "0 < x" using snoc.prems(1) by (simp add: c)
  have s: "(maximum, winner, winners) = (if x > m then (x, k, 1) else if x = m then (m, w, n + 1) else (m, w, n))"
    using snoc.prems(2) l by (simp add: leader_def c)
  have none: "filter (\<lambda>(k, y). y = x) counts = []" if "m < x" using IH(1) that by (auto simp: filter_empty_conv)
  consider "m < x" | "x = m" | "x < m" by linarith
  then show ?case
  proof cases
    case 1
    then show ?thesis using s IH none by (auto simp: c)
  next
    case 2
    then show ?thesis using s IH x by (auto simp: c split: if_splits)
  next
    case 3
    then show ?thesis using s IH x by (auto simp: c split: if_splits)
  qed
qed (simp add: leader_def)

subsection \<open>Agreement\<close>

lemma all_seats_iff: "k \<in> set (all_seats s) \<longleftrightarrow> in_range k (st_Players s)"
proof
  assume "in_range k (st_Players s)"
  then have "k = int (nat k)" "nat k \<in> set [0..<length (st_Players s)]" by (simp_all add: in_range_def nat_less_iff)
  then show "k \<in> set (all_seats s)" unfolding all_seats_def set_map by (rule image_eqI)
qed (auto simp: all_seats_def in_range_def)

lemma counts_agree:
  assumes "ballot_open s" "leader (fold add_vote (published s) []) = (maximum, winner, winners)"
  shows "winners = int (length (leaders s))" "leaders s = [k] \<Longrightarrow> winner = k" "leaders s = [] \<Longrightarrow> maximum = 0"
proof -
  let ?c = "fold add_vote (published s) []"
  have "length (filter (\<lambda>v. bv_TargetSeat v = k) (published s)) = length (filter (\<lambda>(v, t). t = k) (cast s))" for k
  proof -
    have "length (filter (\<lambda>v. bv_TargetSeat v = k) (published s))
      = length (filter (\<lambda>(v, t). t = k) (map (\<lambda>b. (bv_Seat b, bv_TargetSeat b)) (published s)))"
      by (simp add: filter_map comp_def)
    also have "\<dots> = length (filter (\<lambda>(v, t). t = k) (cast s))"
      using arg_cong [OF published_pairs(1) [OF assms(1)], of "\<lambda>x. size (filter_mset (\<lambda>(v, t). t = k) x)"]
      by (simp only: mset_filter [symmetric] size_mset)
    finally show ?thesis .
  qed
  then have n: "(\<lambda>k. 0 + int (length (filter (\<lambda>v. bv_TargetSeat v = k) (published s)))) = votes_for s"
    by (simp add: votes_for_cast fun_eq_iff)
  have "tallied (\<lambda>_. 0) []" by (simp add: tallied_def)
  from tallied_votes [OF this, of "published s"] have t: "tallied (votes_for s) ?c" unfolding n .
  then have pos: "\<forall>(k, x)\<in>set ?c. 0 < x" by (auto simp: tallied_def)
  note l = leader_counts [OF pos assms(2)]
  have mem: "(k, x) \<in> set ?c \<longleftrightarrow> x = votes_for s k \<and> 0 < votes_for s k" for k x using t by (simp add: tallied_def)
  have target: "\<exists>v. (v, k) \<in> set (st_Votes s)" if "0 < votes_for s k" for k
    using that by (auto simp: votes_for_def filter_empty_conv)
  have rng: "in_range k (st_Players s)" if "0 < votes_for s k" for k
    using target [OF that] assms(1) by (auto simp: ballot_open_def list_all_iff)
  have lead: "k \<in> set (leaders s) \<longleftrightarrow> (k, maximum) \<in> set ?c" for k
  proof
    assume k: "k \<in> set (leaders s)"
    then have v: "0 < votes_for s k" "\<forall>(v, t)\<in>set (st_Votes s). votes_for s t \<le> votes_for s k" by (auto simp: leaders_def)
    then have "(k, votes_for s k) \<in> set ?c" by (simp add: mem)
    then have "votes_for s k \<le> maximum" "(winner, maximum) \<in> set ?c" using l by (auto split: if_splits)
    moreover have "maximum \<le> votes_for s k"
    proof -
      have w: "maximum = votes_for s winner" "0 < votes_for s winner" using calculation(2) by (simp_all add: mem)
      obtain u where "(u, winner) \<in> set (st_Votes s)" using target [OF w(2)] by blast
      then show ?thesis using v(2) w(1) by blast
    qed
    ultimately show "(k, maximum) \<in> set ?c" using v(1) by (simp add: mem)
  next
    assume k: "(k, maximum) \<in> set ?c"
    then have v: "votes_for s k = maximum" "0 < votes_for s k" by (simp_all add: mem)
    have "votes_for s t \<le> maximum" for t
    proof (cases "0 < votes_for s t")
      case True
      then have "(t, votes_for s t) \<in> set ?c" by (simp add: mem)
      then show ?thesis using l by auto
    qed (use v in simp)
    moreover have "k \<in> set (all_seats s)" using rng [OF v(2)] by (simp add: all_seats_iff)
    ultimately show "k \<in> set (leaders s)" using v by (auto simp: leaders_def)
  qed
  have d: "distinct (map fst ?c)" using t by (simp add: tallied_def)
  have "k \<in> set (map fst (filter (\<lambda>(k, x). x = maximum) ?c)) \<longleftrightarrow> (k, maximum) \<in> set ?c" for k by force
  then have "set (leaders s) = set (map fst (filter (\<lambda>(k, x). x = maximum) ?c))" using lead by blast
  moreover have "distinct (leaders s)" by (simp add: leaders_def all_seats_def distinct_map)
  moreover have "distinct (map fst (filter (\<lambda>(k, x). x = maximum) ?c))" using d by (rule distinct_map_filter)
  ultimately have "length (leaders s) = length (map fst (filter (\<lambda>(k, x). x = maximum) ?c))"
    by (metis distinct_card)
  then show "winners = int (length (leaders s))" using l by simp
  show "winner = k" if "leaders s = [k]"
  proof -
    have "(k, maximum) \<in> set ?c" using lead [of k] that by simp
    then have "(winner, maximum) \<in> set ?c" using l by (auto split: if_splits)
    then show ?thesis using lead [of winner] that by simp
  qed
  show "maximum = 0" if "leaders s = []"
    using l lead [of winner] that by (auto split: if_splits)
qed

text \<open>The recorded evidence verifies.\<close>

lemma evidence_ok:
  assumes o': "ballot_open s" and ph: "st_Phase s = PhaseKnowoff \<or> st_Phase s = PhaseRunoff"
    and r: "length (leaders s) > 1 \<and> st_Phase s = PhaseKnowoff \<and> r = no_result OutRunoff
      \<or> \<not> (length (leaders s) > 1 \<and> st_Phase s = PhaseKnowoff) \<and> r = final_result s (leaders s)"
  shows "ballot_validateEvidence (counted_ballot s r) 6 = None"
proof -
  let ?c = "fold add_vote (published s) []"
  have rng: "\<forall>c\<in>set (st_Candidates s). 0 \<le> c \<and> c < 6" and n: "int (length (st_Players s)) \<le> 6"
    using o' by (auto simp: ballot_open_def list_all_iff in_range_def)
  have cand: "evidence_candidates 6 seen cs = Inr (rev cs @ seen)"
    if "distinct cs" "set seen \<inter> set cs = {}" "\<forall>c\<in>set cs. 0 \<le> c \<and> c < 6" for seen cs
    using that by (induction "6 :: int" seen cs rule: evidence_candidates.induct) (auto simp: seat_ok_def)
  have "int (length (st_Candidates s)) \<le> 6"
  proof -
    have "set (st_Candidates s) \<subseteq> {0..<6}" using rng by auto
    then have "card (set (st_Candidates s)) \<le> card {0..<6 :: int}" by (intro card_mono) simp_all
    then show ?thesis using o' by (simp add: ballot_open_def distinct_card)
  qed
  moreover have "evidence_votes 6 (rev (st_Candidates s) @ []) [] [] (published s) = Inr ?c"
  proof (rule evidence_votes_counts [OF published_pairs(2) [OF o']])
    have "set (map (\<lambda>b. (bv_Seat b, bv_TargetSeat b)) (published s)) = set (cast s)"
      using published_pairs(1) [OF o'] by (rule mset_eq_setD)
    then have "(bv_Seat v, bv_TargetSeat v) \<in> set (st_Votes s)" if "v \<in> set (published s)" for v
      using that by (force simp: cast_def)
    then show "\<forall>v\<in>set (published s). seat_ok (bv_Seat v) 6 \<and> bv_TargetSeat v \<in> set (rev (st_Candidates s) @ [])
        \<and> bv_Seat v \<noteq> bv_TargetSeat v"
      using o' n by (fastforce simp: ballot_open_def list_all_iff in_range_def seat_ok_def)
  qed simp
  moreover obtain maximum winner winners where l: "leader ?c = (maximum, winner, winners)" by (metis prod_cases3)
  note a = counts_agree [OF o' l]
  have "ballot_outcome_check (st_Phase s) (r\<lparr>br_RevealedRole := NoRole\<rparr>) (maximum, winner, winners) = None"
  proof (cases "length (leaders s) > 1 \<and> st_Phase s = PhaseKnowoff")
    case True
    then show ?thesis using r a(1) by (auto simp: ballot_outcome_check_def no_result_def)
  next
    case False
    then have fr: "r = final_result s (leaders s)" using r by blast
    show ?thesis
    proof (cases "\<exists>k. leaders s = [k]")
      case True
      then show ?thesis using a(1,2) fr by (auto simp: ballot_outcome_check_def final_result_def)
    next
      case one: False
      then have "r = no_result OutMiss" using fr by (auto simp: final_result_def split: list.split)
      moreover have "length (leaders s) \<noteq> 1" using one by (auto simp: length_Suc_conv)
      moreover have "st_Phase s = PhaseKnowoff \<Longrightarrow> leaders s = []" using False calculation(2) by (cases "leaders s") auto
      ultimately show ?thesis using a(1,3) by (auto simp: ballot_outcome_check_def no_result_def)
    qed
  qed
  moreover have "evidence_candidates 6 [] (st_Candidates s) = Inr (rev (st_Candidates s) @ [])"
    using cand [of "st_Candidates s" "[]"] rng o' by (simp add: ballot_open_def)
  moreover have "\<not> (st_Phase s \<noteq> PhaseKnowoff \<and> st_Phase s \<noteq> PhaseRunoff)" "\<not> length (st_Candidates s) < 2"
    using ph o' by (simp_all add: ballot_open_def)
  ultimately show ?thesis
    by (simp add: ballot_validateEvidence_def counted_ballot_def published_def l [unfolded published_def] del: append_Nil2)
qed

lemma history_scores [simp]:
  "st_History (fst (score_vote m now j sp)) = st_History (fst sp)"
  "st_History (fst (score_survival m now tied j sp)) = st_History (fst sp)"
  by (simp_all add: score_vote_def score_survival_def Let_def split: option.split)

lemma resolveVote_records:
  assumes "resolveVote m s now p = (t, q)"
  shows "\<exists>e r. st_History t = st_History s @ [e] \<and> e_Kind e = EvBallotResult \<and> e_Ballot e = Some (counted_ballot s r)
    \<and> (length (leaders s) > 1 \<and> st_Phase s = PhaseKnowoff \<and> r = no_result OutRunoff
      \<or> \<not> (length (leaders s) > 1 \<and> st_Phase s = PhaseKnowoff) \<and> r = final_result s (leaders s))"
proof (cases "length (leaders s) > 1 \<and> st_Phase s = PhaseKnowoff")
  case True
  then have "t = open_runoff m s (leaders s) now" using assms by (simp add: resolveVote_def tied_leaders Let_def)
  then show ?thesis using True by (simp add: open_runoff_def recordBallot_def add_event_def new_event_def)
next
  case False
  then have c: "close_ballot m s (leaders s) now p = (t, q)" using assms by (auto simp: resolveVote_def tied_leaders Let_def)
  have same: "counted_ballot (s\<lparr>st_BallotResult := x\<rparr>) r = counted_ballot s r" for x r
    by (simp add: counted_ballot_def ballot_votes_def)
  have h: "st_History (fst (fold (score_vote m now) js sp)) = st_History (fst sp)"
    "st_History (fst (fold (score_survival m now tied) js sp)) = st_History (fst sp)" for js sp tied
    by (induction js arbitrary: sp) simp_all
  have "st_History t = st_History (recordBallot m (s\<lparr>st_BallotResult := Some (final_result s (leaders s))\<rparr>) (final_result s (leaders s)) now)"
    using c by (auto simp: close_ballot_def Let_def h)
  then show ?thesis using False
    by (intro exI [of _ "last (st_History t)"] exI [of _ "final_result s (leaders s)"])
      (simp add: recordBallot_def add_event_def new_event_def same)
qed

end
