(* ===== verification/Wire_Claims.thy ===== *)
theory Wire_Claims
  imports Rule_Claims Paging Evidence
begin

section \<open>The wire\<close>

text \<open>
  Claims about what travels: pages of a history, streams of messages, and that only states whose
  snapshots are valid for every seat are ever committed.
\<close>

lemma sample_digest: "digest (\<lambda>_. replicate 32 0)"
  by (simp add: digest_def)

definition sample_paged :: "go_error + (history_manifest \<times> history_page list)" where
  "sample_paged = PaginateHistory (\<lambda>_. replicate 32 0) (\<lambda>_. True) (match_limits sample_config) ''m'' ''s'' ''e'' (st_History sample_playing)"

lemma sample_paginates: "accepted sample_paged"
  by code_simp

text \<open>
  C27. Paging loses nothing: the pages and the manifest that \<open>PaginateHistory\<close> makes of a history
  are accepted by \<open>AssembleHistory\<close> for the same match, snapshot and stream, and assemble to
  exactly that history.
\<close>

theorem paging_round_trip:
  assumes "digest sha" "PaginateHistory sha lang l matchID snapshotID epoch events = Inr (manifest, pages)"
  shows "AssembleHistory sha lang l manifest pages matchID snapshotID epoch = Inr events"
  using paginate_assemble [OF assms(2,1)] .

theorem paging_round_trip_witness:
  "\<exists>m pages. sample_paged = Inr (m, pages)
     \<and> AssembleHistory (\<lambda>_. replicate 32 0) (\<lambda>_. True) (match_limits sample_config) m pages ''m'' ''s'' ''e'' = Inr (st_History sample_playing)"
proof -
  obtain m pages where p: "sample_paged = Inr (m, pages)" using accepted_Inr [OF sample_paginates] by auto
  show ?thesis using paging_round_trip [OF sample_digest p [unfolded sample_paged_def]] p by blast
qed

text \<open>
  C28. Nothing partial, reordered or altered assembles: what \<open>AssembleHistory\<close> accepts is the
  concatenation of all pages, is a valid history numbered from one, and is as long as the manifest
  says; and two page sets that assemble under one manifest have the same content page by page,
  unless the digest collides at the very texts that are hashed for them (the root texts of the two
  sets, or their pages of one index).
\<close>

theorem manifests_bind_histories:
  assumes "digest sha" "AssembleHistory sha lang l m pages matchID snapshotID epoch = Inr events"
    and "AssembleHistory sha lang l m pages' matchID snapshotID epoch = Inr events'"
  shows "events = concat (map hp_Events pages) \<and> map e_EvidenceSeq events = [1..<length events + 1]
    \<and> int (length events) = hm_TotalEvents m \<and> map hp_Index pages = map int [0..<length pages]
    \<and> (map page_content pages = map page_content pages' \<or> digests_collide sha pages pages')"
proof -
  note a = assemble_sound [OF assms(2)]
  have "map hp_Index ps = map int [i..<i + length ps]" if "pages_ok sha lang l matchID snapshotID epoch i ps" for i ps
    using that
  proof (induction ps arbitrary: i)
    case (Cons p ps)
    then show ?case using Cons.IH [of "Suc i"] by (simp add: page_ok_def upt_conv_Cons del: upt_Suc)
  qed simp
  from this [OF a(1)] have "map hp_Index pages = map int [0..<length pages]" by simp
  moreover have "history_from lang l 1 [] None events = None" using a(3) by (simp only: history_started)
  from history_seqs [OF this] have "map e_EvidenceSeq events = [1..<length events + 1]" by (simp only: add.commute)
  ultimately show ?thesis using a(2,4) manifest_binds [OF assms] by blast
qed

theorem manifests_bind_histories_witness:
  "\<exists>m pages. sample_paged = Inr (m, pages) \<and> concat (map hp_Events pages) = st_History sample_playing"
proof -
  obtain m pages where p: "sample_paged = Inr (m, pages)" using accepted_Inr [OF sample_paginates] by auto
  have a: "AssembleHistory (\<lambda>_. replicate 32 0) (\<lambda>_. True) (match_limits sample_config) m pages ''m'' ''s'' ''e''
      = Inr (st_History sample_playing)"
    using paginate_assemble [OF p [unfolded sample_paged_def] sample_digest] .
  show ?thesis using manifests_bind_histories [OF sample_digest a a] p by metis
qed

text \<open>
  C29. A stream is consumed exactly once and in order: a recipient that checks every message with
  \<open>CheckNext\<close> accepts consecutive sequence numbers of one stream, and the evidence it has seen
  never goes back and never skips an event.
\<close>

theorem streams_are_consecutive:
  assumes "accept_stream c ns = Inr c'"
  shows "map cu_RecipientSeq ns = [Suc (cu_RecipientSeq c)..<Suc (cu_RecipientSeq c + length ns)]
    \<and> (\<forall>n\<in>set ns. cu_StreamEpoch n = cu_StreamEpoch c)
    \<and> sorted (map cu_EvidenceSeq (c # ns)) \<and> {cu_EvidenceSeq c..cu_EvidenceSeq c'} \<subseteq> set (map cu_EvidenceSeq (c # ns))"
proof -
  have "cu_EvidenceSeq c \<le> cu_EvidenceSeq c' \<and> sorted (map cu_EvidenceSeq (c # ns))
    \<and> {cu_EvidenceSeq c..cu_EvidenceSeq c'} \<subseteq> set (map cu_EvidenceSeq (c # ns))"
    using assms
  proof (induction ns arbitrary: c)
    case (Cons n ns)
    then have n: "CheckNext c n = None" and rest: "accept_stream n ns = Inr c'" by (auto split: option.splits)
    note IH = Cons.IH [OF rest]
    have s: "cu_EvidenceSeq n = cu_EvidenceSeq c \<or> cu_EvidenceSeq n = Suc (cu_EvidenceSeq c)" using CheckNext_step [OF n] by blast
    then have "{cu_EvidenceSeq c..cu_EvidenceSeq c'} \<subseteq> insert (cu_EvidenceSeq c) {cu_EvidenceSeq n..cu_EvidenceSeq c'}" by auto
    then show ?case using IH s by (auto simp: subset_iff)
  qed simp
  then show ?thesis using accept_stream_seq [OF assms] accept_stream_epoch [OF assms] by blast
qed

definition sample_cursor :: "nat \<Rightarrow> nat \<Rightarrow> cursor" where
  "sample_cursor r e = \<lparr>cu_StreamEpoch = ''u0'', cu_RecipientSeq = r, cu_EvidenceSeq = e\<rparr>"

theorem streams_are_consecutive_witness:
  "accept_stream (sample_cursor 1 1) [sample_cursor 2 1, sample_cursor 3 2] = Inr (sample_cursor 3 2)
     \<and> sorted (map cu_EvidenceSeq [sample_cursor 1 1, sample_cursor 2 1, sample_cursor 3 2])"
proof -
  have a: "accept_stream (sample_cursor 1 1) [sample_cursor 2 1, sample_cursor 3 2] = Inr (sample_cursor 3 2)" by code_simp
  show ?thesis using streams_are_consecutive [OF a] a by blast
qed

text \<open>A ballot that is running in a reachable match is open in this sense.\<close>

lemma reachable_ballots_open:
  assumes "NewTextMatch env opts = Inr m0" "\<And>seed. inj (copy_key env seed (mc_MatchID (op_Contract opts)))"
    and "match_step\<^sup>*\<^sup>* m0 m" "ballot_phase (st_Phase (tm_state m))"
  shows "ballot_open (tm_state m)"
proof -
  let ?s = "tm_state m"
  have k0: "match_kept m0" "tm_pending m0 = None"
    using NewTextMatch_kept [OF assms(1,2)] started_grown(4) [OF assms(1)] by blast+
  have st: "same_setup m0 m" using started_between [OF assms(1,2) rtranclp.rtrancl_refl assms(3)] by blast
  have kept: "kept m ?s" using started_kept [OF assms(1,2,3)] by (simp add: match_kept_def)
  have sound: "sound 0 m ?s"
    using soundness.R_run [OF assms(3) k0] started_sound [OF assms(1)] k0(1) same_setup_sound [OF st]
    by (simp add: match_kept_def)
  have bal: "balloted m ?s"
    using ballots.R_run [OF assms(3) k0] started_balloted [OF assms(1)] k0(1) same_setup_balloted [OF st]
    by (simp add: match_kept_def)
  have "finished_ok ?s"
    using verdicts.R_run [OF assms(3) k0] started_unresolved [OF assms(1)] by (simp add: unresolved_ok)
  then have "st_Result ?s = None" using assms(4) by (auto simp: finished_ok_def)
  then have left: "1 \<le> st_RemainingVotes ?s" using sound by (simp add: sound_def round_ok_def)
  have table: "4 \<le> mc_OriginalSize (tm_contract m)" "mc_OriginalSize (tm_contract m) \<le> 6"
    using started_table [OF assms(1)] st by (auto elim!: same_setup_fields)
  have "2 \<le> length (st_Candidates ?s)"
    using bal assms(4) left table by (auto simp: balloted_def voting_ok_def ballot_ok_def ballot_phase_def)
  moreover have "length (st_Players ?s) \<le> 6" using kept table by (simp add: kept_def stocked_def seats_ok_def)
  ultimately show ?thesis
    using bal assms(4) by (auto simp: ballot_open_def balloted_def ballot_ok_def voting_ok_def list_all_iff)
qed

text \<open>
  C30. The evidence of a ballot verifies: on an open ballot the event that \<open>resolveVote\<close> records
  passes the independent count of the wire contract, for a runoff, an elimination or a miss. Every
  ballot that runs in a reachable match is open (\<open>reachable_ballots_open\<close>).
\<close>

theorem recorded_ballots_verify:
  assumes "ballot_open s" "st_Phase s = PhaseKnowoff \<or> st_Phase s = PhaseRunoff" "resolveVote m s now p = (t, q)"
  shows "\<exists>e b. st_History t = st_History s @ [e] \<and> e_Kind e = EvBallotResult \<and> e_Ballot e = Some b
    \<and> ballot_validateEvidence b 6 = None"
proof -
  obtain e r where e: "st_History t = st_History s @ [e]" "e_Kind e = EvBallotResult" "e_Ballot e = Some (counted_ballot s r)"
    and r: "length (leaders s) > 1 \<and> st_Phase s = PhaseKnowoff \<and> r = no_result OutRunoff
      \<or> \<not> (length (leaders s) > 1 \<and> st_Phase s = PhaseKnowoff) \<and> r = final_result s (leaders s)"
    using resolveVote_records [OF assms(3)] by metis
  show ?thesis using e evidence_ok [OF assms(1,2) r] by blast
qed

theorem recorded_ballots_verify_witness:
  "\<exists>e b. st_History (fst (resolveVote sample_match sample_ballot (time_unix_milli 40000) (empty_pending sample_ballot [] [])))
     = st_History sample_ballot @ [e] \<and> e_Ballot e = Some b \<and> ballot_validateEvidence b 6 = None"
proof -
  have "ballot_open sample_ballot" by code_simp
  moreover have "st_Phase sample_ballot = PhaseKnowoff \<or> st_Phase sample_ballot = PhaseRunoff" by (simp add: sample_ballot_def)
  ultimately show ?thesis
    using recorded_ballots_verify [where m = sample_match and now = "time_unix_milli 40000"
        and p = "empty_pending sample_ballot [] []"] by (metis prod.collapse)
qed

text \<open>
  C31. Only presentable states are committed: the state of a reachable match was checked, and for
  every seat the snapshot of it was valid on the wire, before it was committed.
\<close>

definition presentable :: "text_match \<Rightarrow> text_state \<Rightarrow> bool" where
  "presentable m s \<longleftrightarrow> (\<exists>c clk. same_setup c m \<and>
     (\<forall>i<length (st_Players s). snapshot_Validate (tm_lang m) (tm_limits m) (project c s (int i) (clk i)) = None))"

lemma presentable_setup: "same_setup c m \<Longrightarrow> presentable c s \<Longrightarrow> presentable m s"
proof -
  assume c: "same_setup c m" and p: "presentable c s"
  have "tm_lang c = tm_lang m" "tm_limits c = tm_limits m" using c by (auto elim!: same_setup_fields)
  then show "presentable m s" using p same_setup_trans [OF _ c] unfolding presentable_def by auto
qed

lemma presentable_commit:
  assumes "commit_step m m'" "presentable m (tm_state m)" "\<forall>p. tm_pending m = Some p \<longrightarrow> presentable m (pd_State p)"
  shows "presentable m' (tm_state m') \<and> (\<forall>p. tm_pending m' = Some p \<longrightarrow> presentable m' (pd_State p))"
proof -
  have s: "presentable m t \<Longrightarrow> presentable m' t" for t using presentable_setup commit_setup [OF assms(1)] by blast
  from assms(1) show ?thesis
  proof cases
    case (tried c p clk)
    have "presentable m (pd_State p)"
      unfolding presentable_def using tried(6) by (intro exI [of _ m] exI [of _ clk]) (auto simp: validateState_def)
    then show ?thesis using s assms(2) tried(1) by simp
  qed (use s assms in auto)
qed

lemma started_presentable:
  assumes "NewTextMatch env opts = Inr m0"
  shows "presentable m0 (tm_state m0)"
proof -
  obtain c seed d where "start_match env (initial_match env opts c seed d) = Inr m0"
    using assms by (auto simp: NewTextMatch_def Let_def split: option.splits sum.splits)
  then show ?thesis
    unfolding presentable_def
    by (intro exI [of _ "initial_match env opts c seed d"] exI [of _ "\<lambda>i. sr_clock env (2 + i)"])
      (auto simp: start_match_def same_setup_def split: option.splits sum.splits)
qed

theorem committed_states_are_presentable:
  assumes "NewTextMatch env opts = Inr m0" "match_step\<^sup>*\<^sup>* m0 m"
  shows "presentable m (tm_state m)"
proof -
  have "presentable m (tm_state m) \<and> (\<forall>p. tm_pending m = Some p \<longrightarrow> presentable m (pd_State p))"
    using match_steps_commit [OF assms(2)]
  proof (induction rule: rtranclp_induct)
    case base
    then show ?case using started_presentable [OF assms(1)] started_grown(4) [OF assms(1)] by simp
  qed (use presentable_commit in blast)
  then show ?thesis ..
qed

theorem committed_states_are_presentable_witness: "presentable sample_turn sample_playing"
  using committed_states_are_presentable [OF sample_new sample_turn_reached] by (simp add: sample_turn_fields)

end
