(* ===== verification/Work_Gate.thy ===== *)
theory Work_Gate
  imports Prelude
begin

section \<open>Joining request and worker lifetimes: \<open>transport/work_gate.go\<close>\<close>

text \<open>
  The admission gate that a shutdown waits on. Every method takes \<open>g.mu\<close>, so a method body is
  one step; what runs between the steps (handlers, workers, the cancellations \<open>Close\<close> performs
  after it has released the mutex, other callers) interleaves freely in \<open>gate_step\<close>.

  A task is the address of its \<open>workGateTask\<close>. \<open>wg_drained\<close> is the channel: \<open>None\<close> before it is
  made, then open or closed. Closing a closed or nil channel is a panic, here \<open>None\<close>.
\<close>

record work_gate =
  wg_closing :: bool
  wg_tasks :: "(nat \<times> nat option) list"
  wg_drained :: "bool option"
  wg_joined :: bool

definition NewWorkGate :: work_gate where
  "NewWorkGate = \<lparr>wg_closing = False, wg_tasks = [], wg_drained = None, wg_joined = False\<rparr>"

definition initializeLocked :: "work_gate \<Rightarrow> work_gate" where
  "initializeLocked g = (if wg_drained g = None then g\<lparr>wg_drained := Some False, wg_tasks := []\<rparr> else g)"

text \<open>\<open>enter\<close>: the address of the new task is an argument; the task keeps its cancel function,
  named by the context it cancels.\<close>

definition enter :: "nat option \<Rightarrow> nat \<Rightarrow> work_gate \<Rightarrow> nat option \<times> work_gate" where
  "enter cancel task g0 =
     (let g = initializeLocked g0 in
      if wg_closing g then (None, g)
      else (Some task, g\<lparr>wg_tasks := AList.update task cancel (wg_tasks g)\<rparr>))"

definition signalLocked :: "work_gate \<Rightarrow> work_gate option" where
  "signalLocked g =
     (if wg_closing g \<and> wg_tasks g = [] \<and> \<not> wg_joined g
      then (if wg_drained g = Some False then Some (g\<lparr>wg_joined := True, wg_drained := Some True\<rparr>) else None)
      else Some g)"

definition finish_task :: "nat \<Rightarrow> work_gate \<Rightarrow> work_gate option" where
  "finish_task task g = signalLocked (g\<lparr>wg_tasks := AList.delete task (wg_tasks g)\<rparr>)"

text \<open>\<open>Close\<close> returns the cancel functions it will call once the mutex is free.\<close>

definition Close_gate :: "work_gate \<Rightarrow> (nat list \<times> work_gate) option" where
  "Close_gate g0 =
     (let g = initializeLocked g0 in
      if wg_closing g then Some ([], g)
      else map_option (Pair (List.map_filter snd (wg_tasks g))) (signalLocked (g\<lparr>wg_closing := True\<rparr>)))"

definition Active :: "work_gate \<Rightarrow> nat" where
  "Active g = length (wg_tasks g)"

text \<open>
  \<open>Handler\<close> and \<open>Go\<close> up to the point where the request or the worker runs. \<open>Go\<close> makes the
  worker's context before it asks for admission and cancels it again when it is refused.
\<close>

datatype admission = Admitted nat | Refused503 | RefusedWorker

definition Handler :: "nat \<Rightarrow> work_gate \<Rightarrow> admission \<times> work_gate" where
  "Handler task g = (case enter None task g of
       (None, g') \<Rightarrow> (Refused503, g')
     | (Some t, g') \<Rightarrow> (Admitted t, g'))"

definition Go :: "'e option \<Rightarrow> bool \<Rightarrow> nat \<Rightarrow> nat \<Rightarrow> work_gate \<Rightarrow> admission \<times> nat list \<times> work_gate" where
  "Go ctx_err work_nil ctx task g =
     (if ctx_err \<noteq> None \<or> work_nil then (RefusedWorker, [], g)
      else case enter (Some ctx) task g of
         (None, g') \<Rightarrow> (RefusedWorker, [ctx], g')
       | (Some t, g') \<Rightarrow> (Admitted t, [], g'))"

text \<open>
  \<open>Wait\<close> takes the channel under the mutex and then selects: it can only return by its own
  context or because the channel is closed, and answers with the context's error either way.
\<close>

definition Wait_enter :: "'e option \<Rightarrow> work_gate \<Rightarrow> 'e option \<times> work_gate" where
  "Wait_enter ctx_err g = (if ctx_err \<noteq> None then (ctx_err, g) else (None, initializeLocked g))"

definition Wait_ready :: "bool \<Rightarrow> work_gate \<Rightarrow> bool" where
  "Wait_ready ctx_done g \<longleftrightarrow> ctx_done \<or> wg_drained g = Some True"

subsection \<open>Interleavings\<close>

text \<open>
  The gate among its users: the tasks whose handler or worker has not returned, the context of
  each worker, the cancellations \<open>Close\<close> still has to perform and the cancelled contexts.
  \<open>gw_fresh\<close> supplies new addresses, \<open>gw_crashed\<close> records a panic.
\<close>

record gate_world =
  gw_gate :: work_gate
  gw_live :: "(nat \<times> nat option) list"
  gw_pending :: "nat list"
  gw_cancelled :: "nat list"
  gw_fresh :: nat
  gw_crashed :: bool

definition gate_world0 :: gate_world where
  "gate_world0 = \<lparr>gw_gate = NewWorkGate, gw_live = [], gw_pending = [], gw_cancelled = [],
     gw_fresh = 0, gw_crashed = False\<rparr>"

definition request_arrives :: "gate_world \<Rightarrow> gate_world" where
  "request_arrives w = (case Handler (gw_fresh w) (gw_gate w) of
       (Admitted t, g) \<Rightarrow> w\<lparr>gw_gate := g, gw_live := gw_live w @ [(t, None)], gw_fresh := Suc (gw_fresh w)\<rparr>
     | (_, g) \<Rightarrow> w\<lparr>gw_gate := g, gw_fresh := Suc (gw_fresh w)\<rparr>)"

definition worker_starts :: "'e option \<Rightarrow> bool \<Rightarrow> gate_world \<Rightarrow> gate_world" where
  "worker_starts ctx_err work_nil w =
     (case Go ctx_err work_nil (gw_fresh w) (gw_fresh w) (gw_gate w) of
       (Admitted t, cs, g) \<Rightarrow> w\<lparr>gw_gate := g, gw_live := gw_live w @ [(t, Some (gw_fresh w))],
          gw_cancelled := cs @ gw_cancelled w, gw_fresh := Suc (gw_fresh w)\<rparr>
     | (_, cs, g) \<Rightarrow> w\<lparr>gw_gate := g, gw_cancelled := cs @ gw_cancelled w, gw_fresh := Suc (gw_fresh w)\<rparr>)"

definition task_returns :: "nat \<Rightarrow> gate_world \<Rightarrow> gate_world" where
  "task_returns t w = (case finish_task t (gw_gate w) of
       None \<Rightarrow> w\<lparr>gw_crashed := True\<rparr>
     | Some g \<Rightarrow> w\<lparr>gw_gate := g, gw_live := AList.delete t (gw_live w)\<rparr>)"

definition gate_closes :: "gate_world \<Rightarrow> gate_world" where
  "gate_closes w = (case Close_gate (gw_gate w) of
       None \<Rightarrow> w\<lparr>gw_crashed := True\<rparr>
     | Some (cs, g) \<Rightarrow> w\<lparr>gw_gate := g, gw_pending := cs @ gw_pending w\<rparr>)"

definition cancel_runs :: "nat \<Rightarrow> gate_world \<Rightarrow> gate_world" where
  "cancel_runs c w = w\<lparr>gw_pending := removeAll c (gw_pending w), gw_cancelled := c # gw_cancelled w\<rparr>"

definition context_ends :: "nat \<Rightarrow> gate_world \<Rightarrow> gate_world" where
  "context_ends c w = w\<lparr>gw_cancelled := c # gw_cancelled w\<rparr>"

definition waiter_enters :: "'e option \<Rightarrow> gate_world \<Rightarrow> gate_world" where
  "waiter_enters ctx_err w = w\<lparr>gw_gate := snd (Wait_enter ctx_err (gw_gate w))\<rparr>"

text \<open>A worker runs \<open>defer cancel()\<close> before \<open>defer g.finish(task)\<close>: \<open>context_ends\<close> then
  \<open>task_returns\<close>. Whether it reacts to a cancellation is its own affair.\<close>

inductive gate_step :: "gate_world \<Rightarrow> gate_world \<Rightarrow> bool" where
  Request: "gate_step w (request_arrives w)"
| Worker: "gate_step w (worker_starts (ctx_err :: nat option) work_nil w)"
| Return: "map_of (gw_live w) t = Some None \<Longrightarrow> gate_step w (task_returns t w)"
| Worker_returns: "map_of (gw_live w) t = Some (Some c) \<Longrightarrow> c \<in> set (gw_cancelled w) \<Longrightarrow>
    gate_step w (task_returns t w)"
| Close: "gate_step w (gate_closes w)"
| Cancel: "c \<in> set (gw_pending w) \<Longrightarrow> gate_step w (cancel_runs c w)"
| Context: "gate_step w (context_ends c w)"
| Waiter: "gate_step w (waiter_enters (ctx_err :: nat option) w)"

inductive gate_steps :: "gate_world \<Rightarrow> gate_world \<Rightarrow> bool" for w where
  Start: "gate_steps w w"
| Then: "gate_steps w u \<Longrightarrow> gate_step u v \<Longrightarrow> gate_steps w v"

subsection \<open>What the gate keeps\<close>

text \<open>
  The registered tasks are the live ones, the channel is closed exactly when the gate is closed
  and nobody is left, and once it is closed every live worker's context is cancelled or about to be.
\<close>

definition gate_ok :: "gate_world \<Rightarrow> bool" where
  "gate_ok w \<longleftrightarrow> \<not> gw_crashed w
     \<and> wg_tasks (gw_gate w) = gw_live w
     \<and> (\<forall>t\<in>fst ` set (gw_live w). t < gw_fresh w)
     \<and> distinct (map fst (gw_live w))
     \<and> (wg_drained (gw_gate w) = None \<longrightarrow> gw_live w = [] \<and> \<not> wg_closing (gw_gate w))
     \<and> (wg_drained (gw_gate w) = Some True \<longleftrightarrow> wg_joined (gw_gate w))
     \<and> (wg_joined (gw_gate w) \<longleftrightarrow> wg_closing (gw_gate w) \<and> gw_live w = [])
     \<and> (wg_closing (gw_gate w) \<longrightarrow>
          (\<forall>t c. (t, Some c) \<in> set (gw_live w) \<longrightarrow> c \<in> set (gw_pending w) \<union> set (gw_cancelled w)))"

lemmas gate_ops = request_arrives_def worker_starts_def task_returns_def gate_closes_def
  cancel_runs_def context_ends_def waiter_enters_def Handler_def Go_def Wait_enter_def enter_def
  finish_task_def Close_gate_def signalLocked_def initializeLocked_def Let_def

lemma task_added: "t \<notin> fst ` set xs \<Longrightarrow> AList.update t v xs = xs @ [(t, v)]"
  by (induction xs) auto


lemma gate_ok_start: "gate_ok gate_world0"
  by (simp add: gate_ok_def gate_world0_def NewWorkGate_def)

lemma fresh_address: "gate_ok w \<Longrightarrow> gw_fresh w \<notin> fst ` set (gw_live w)"
  by (auto simp: gate_ok_def)

lemma request_keeps: "gate_ok w \<Longrightarrow> gate_ok (request_arrives w)"
  using fresh_address [of w]
  by (auto simp: gate_ok_def gate_ops task_added less_Suc_eq)

lemma worker_keeps: "gate_ok w \<Longrightarrow> gate_ok (worker_starts e n w)"
  using fresh_address [of w]
  by (auto simp: gate_ok_def gate_ops task_added less_Suc_eq)

lemma delete_keys: "map fst (AList.delete k xs) = filter (\<lambda>k'. k' \<noteq> k) (map fst xs)"
  by (induction xs) auto

lemma delete_distinct: "distinct (map fst xs) \<Longrightarrow> distinct (map fst (AList.delete k xs))"
  by (simp only: delete_keys distinct_filter)

lemma set_delete: "set (AList.delete k xs) = {e \<in> set xs. fst e \<noteq> k}"
  by (auto simp: AList.delete_eq)

lemma return_keeps:
  assumes ok: "gate_ok w" and live: "map_of (gw_live w) t = Some c"
  shows "gate_ok (task_returns t w)"
proof -
  have "wg_joined (gw_gate w) = False" "wg_drained (gw_gate w) = Some False"
    using ok live by (auto simp: gate_ok_def)
  with ok show ?thesis
    by (auto simp: gate_ok_def gate_ops delete_distinct set_delete)
qed

lemma in_cancels: "c \<in> set (List.map_filter snd ts) \<longleftrightarrow> (\<exists>t. (t, Some c) \<in> set ts)"
  by (induction ts) (auto simp: List.map_filter_simps split: option.splits)

lemma close_keeps:
  assumes ok: "gate_ok w"
  shows "gate_ok (gate_closes w)"
proof (cases "wg_closing (gw_gate w)")
  case True
  with ok show ?thesis
    by (auto simp: gate_ok_def gate_closes_def Close_gate_def initializeLocked_def)
next
  case False
  then have "wg_joined (gw_gate w) = False" "wg_drained (gw_gate w) \<noteq> Some True"
    using ok by (auto simp: gate_ok_def)
  moreover from this(2) have "wg_drained (gw_gate w) = None \<or> wg_drained (gw_gate w) = Some False"
    by (cases "wg_drained (gw_gate w)") simp_all
  ultimately show ?thesis using ok False
    by (cases "gw_live w = []")
      (auto simp: gate_ok_def gate_closes_def Close_gate_def initializeLocked_def Let_def
        signalLocked_def in_cancels)
qed

lemma step_keeps: "gate_step w w' \<Longrightarrow> gate_ok w \<Longrightarrow> gate_ok w'"
proof (induction rule: gate_step.induct)
  case (Request w) then show ?case by (rule request_keeps)
next
  case (Worker w e n) then show ?case by (rule worker_keeps)
next
  case (Return w t) then show ?case by (blast intro: return_keeps)
next
  case (Worker_returns w t c) then show ?case by (blast intro: return_keeps)
next
  case (Close w) then show ?case by (rule close_keeps)
next
  case (Cancel c w) then show ?case by (auto simp: gate_ok_def gate_ops)
next
  case (Context w c) then show ?case by (auto simp: gate_ok_def gate_ops)
next
  case (Waiter w e) then show ?case by (auto simp: gate_ok_def gate_ops)
qed

lemma steps_keep: "gate_steps w w' \<Longrightarrow> gate_ok w \<Longrightarrow> gate_ok w'"
  by (induction rule: gate_steps.induct) (auto intro: step_keeps)

text \<open>Once closed, the gate stays closed and admits nobody: the live tasks only become fewer.\<close>

lemma step_closed:
  assumes "gate_step w w'" "wg_closing (gw_gate w)" "gate_ok w"
  shows "wg_closing (gw_gate w') \<and> set (gw_live w') \<subseteq> set (gw_live w)"
  using assms
proof (induction rule: gate_step.induct)
  case (Return w t) then show ?case
    by (auto simp: gate_ok_def gate_ops set_delete split: option.splits)
next
  case (Worker_returns w t c) then show ?case
    by (auto simp: gate_ok_def gate_ops set_delete split: option.splits)
qed (auto simp: gate_ok_def gate_ops)

lemma steps_closed:
  "gate_steps w w' \<Longrightarrow> wg_closing (gw_gate w) \<Longrightarrow> gate_ok w \<Longrightarrow>
   wg_closing (gw_gate w') \<and> set (gw_live w') \<subseteq> set (gw_live w)"
  by (induction rule: gate_steps.induct) (auto dest: step_closed steps_keep)

text \<open>With the gate closed and every cancellation delivered, the return of each task in turn
  drains it: the number of live tasks is the number of returns it takes.\<close>

lemma return_enabled:
  assumes "gate_ok w" "wg_closing (gw_gate w)" "gw_pending w = []" "(t, c) \<in> set (gw_live w)"
  shows "gate_step w (task_returns t w)"
proof -
  have m: "map_of (gw_live w) t = Some c"
    using assms by (auto simp: gate_ok_def)
  show ?thesis
  proof (cases c)
    case None
    with m show ?thesis by (auto intro: gate_step.Return)
  next
    case (Some k)
    with assms have "k \<in> set (gw_cancelled w)" by (auto simp: gate_ok_def)
    with m Some show ?thesis by (auto intro: gate_step.Worker_returns)
  qed
qed


lemma steps_front: "gate_step w u \<Longrightarrow> gate_steps u v \<Longrightarrow> gate_steps w v"
  by (rotate_tac, induction rule: gate_steps.induct)
    (auto intro: gate_steps.intros)

lemma drain_possible:
  "gate_ok w \<Longrightarrow> wg_closing (gw_gate w) \<Longrightarrow>
   \<exists>v. gate_steps w v \<and> wg_drained (gw_gate v) = Some True"
proof (induction "length (gw_pending w) + length (gw_live w)" arbitrary: w rule: less_induct)
  case less
  note ok = less.prems(1) and closing = less.prems(2)
  consider c cs where "gw_pending w = c # cs" | t c xs where "gw_pending w = []" "gw_live w = (t, c) # xs"
    | "gw_live w = []"
    by (metis list.exhaust prod.exhaust)
  then show ?case
  proof cases
    case 1
    let ?u = "cancel_runs c w"
    have step: "gate_step w ?u" using 1 by (auto intro: gate_step.Cancel)
    have "length (gw_pending ?u) + length (gw_live ?u) < length (gw_pending w) + length (gw_live w)"
      using 1 length_removeAll_less [of c "gw_pending w"] by (simp add: cancel_runs_def)
    moreover have "wg_closing (gw_gate ?u)" using closing by (simp add: cancel_runs_def)
    ultimately show ?thesis using less.hyps step_keeps [OF step ok] steps_front [OF step] by blast
  next
    case 2
    let ?u = "task_returns t w"
    have step: "gate_step w ?u" using return_enabled [OF ok closing 2(1), of t c] 2(2) by simp
    have closed: "wg_closing (gw_gate ?u)" using step_closed [OF step closing ok] by blast
    obtain g where g: "finish_task t (gw_gate w) = Some g"
      using step_keeps [OF step ok] by (cases "finish_task t (gw_gate w)") (auto simp: gate_ok_def task_returns_def)
    have "length (gw_live ?u) < length (gw_live w)" "gw_pending ?u = []"
      using 2 by (simp_all add: task_returns_def g AList.delete_eq le_imp_less_Suc)
    then show ?thesis using less.hyps [OF _ step_keeps [OF step ok] closed] steps_front [OF step] 2(1) by simp blast
  next
    case 3
    then have "wg_drained (gw_gate w) = Some True" using ok closing by (auto simp: gate_ok_def)
    then show ?thesis using gate_steps.Start by blast
  qed
qed

end
