(* ===== verification/Limiter.thy ===== *)
theory Limiter
  imports Prelude "HOL-Library.Word"
begin

section \<open>The cap on concurrent connections: \<open>ratelimit/connlimiter.go\<close>\<close>

text \<open>
  A counter updated with atomic operations only: what interleaves are single loads, compare-and-swaps
  and additions, so \<open>limiter_step\<close> gives every goroutine the value it loaded last. Both fields are
  \<open>int64\<close>; the comparisons are signed.
\<close>

record conn_limiter =
  cl_max :: "64 word"
  cl_current :: "64 word"

definition NewConnLimiter :: "64 word \<Rightarrow> conn_limiter" where
  "NewConnLimiter cap = \<lparr>cl_max = cap, cl_current = 0\<rparr>"

definition AddInt64 :: "64 word \<Rightarrow> conn_limiter \<Rightarrow> conn_limiter" where
  "AddInt64 d c = c\<lparr>cl_current := cl_current c + d\<rparr>"

definition CompareAndSwap :: "64 word \<Rightarrow> 64 word \<Rightarrow> conn_limiter \<Rightarrow> bool \<times> conn_limiter" where
  "CompareAndSwap old new c = (if cl_current c = old then (True, c\<lparr>cl_current := new\<rparr>) else (False, c))"

text \<open>\<open>TryAcquire\<close> up to its next atomic operation: what it does at the top of the function, after
  the load and after the swap.\<close>

datatype acquiring = Returns bool | Swaps "64 word" | Retries

definition unlimited :: "conn_limiter \<Rightarrow> bool" where
  "unlimited c \<longleftrightarrow> sint (cl_max c) \<le> 0"

definition acquire_unlimited :: "conn_limiter \<Rightarrow> acquiring \<times> conn_limiter" where
  "acquire_unlimited c = (Returns True, AddInt64 1 c)"

definition acquire_load :: "conn_limiter \<Rightarrow> acquiring" where
  "acquire_load c = (let cur = cl_current c in if sint (cl_max c) \<le> sint cur then Returns False else Swaps cur)"

definition acquire_swap :: "64 word \<Rightarrow> conn_limiter \<Rightarrow> acquiring \<times> conn_limiter" where
  "acquire_swap cur c = (case CompareAndSwap cur (cur + 1) c of
     (True, c') \<Rightarrow> (Returns True, c') | (False, c') \<Rightarrow> (Retries, c'))"

definition Release :: "conn_limiter \<Rightarrow> conn_limiter" where
  "Release c = AddInt64 (- 1) c"

definition Current :: "conn_limiter \<Rightarrow> int" where
  "Current c = sint (cl_current c)"

text \<open>A call that nobody interrupts.\<close>

definition TryAcquire :: "conn_limiter \<Rightarrow> acquiring \<times> conn_limiter" where
  "TryAcquire c =
     (if unlimited c then acquire_unlimited c
      else case acquire_load c of Swaps cur \<Rightarrow> acquire_swap cur c | r \<Rightarrow> (r, c))"

text \<open>Goroutines at the limiter: the value each caller of \<open>TryAcquire\<close> is about to swap and the
  callers that hold a slot. A slot is released once by its holder.\<close>

record limiter_world =
  lw_limiter :: conn_limiter
  lw_loaded :: "nat \<Rightarrow> 64 word option"
  lw_holders :: "nat list"

definition limiter_world0 :: "64 word \<Rightarrow> limiter_world" where
  "limiter_world0 cap = \<lparr>lw_limiter = NewConnLimiter cap, lw_loaded = (\<lambda>_. None), lw_holders = []\<rparr>"

definition takes_unlimited :: "nat \<Rightarrow> limiter_world \<Rightarrow> limiter_world" where
  "takes_unlimited t w = w\<lparr>lw_limiter := snd (acquire_unlimited (lw_limiter w)), lw_holders := t # lw_holders w\<rparr>"

definition loads :: "nat \<Rightarrow> limiter_world \<Rightarrow> limiter_world" where
  "loads t w = (case acquire_load (lw_limiter w) of
     Swaps cur \<Rightarrow> w\<lparr>lw_loaded := (lw_loaded w)(t := Some cur)\<rparr> | _ \<Rightarrow> w)"

definition swaps :: "nat \<Rightarrow> 64 word \<Rightarrow> limiter_world \<Rightarrow> limiter_world" where
  "swaps t cur w = (case acquire_swap cur (lw_limiter w) of
     (Returns _, c) \<Rightarrow> w\<lparr>lw_limiter := c, lw_loaded := (lw_loaded w)(t := None), lw_holders := t # lw_holders w\<rparr>
   | (_, c) \<Rightarrow> w\<lparr>lw_limiter := c, lw_loaded := (lw_loaded w)(t := None)\<rparr>)"

definition releases :: "nat \<Rightarrow> limiter_world \<Rightarrow> limiter_world" where
  "releases t w = w\<lparr>lw_limiter := Release (lw_limiter w), lw_holders := remove1 t (lw_holders w)\<rparr>"

inductive limiter_run :: "64 word \<Rightarrow> limiter_world \<Rightarrow> bool" for cap where
  Start: "limiter_run cap (limiter_world0 cap)"
| Unlimited: "limiter_run cap w \<Longrightarrow> unlimited (lw_limiter w) \<Longrightarrow> limiter_run cap (takes_unlimited t w)"
| Load: "limiter_run cap w \<Longrightarrow> \<not> unlimited (lw_limiter w) \<Longrightarrow> lw_loaded w t = None \<Longrightarrow>
    limiter_run cap (loads t w)"
| Swap: "limiter_run cap w \<Longrightarrow> lw_loaded w t = Some cur \<Longrightarrow> limiter_run cap (swaps t cur w)"
| Release: "limiter_run cap w \<Longrightarrow> t \<in> set (lw_holders w) \<Longrightarrow> limiter_run cap (releases t w)"

text \<open>The counter counts the holders; a pending swap carries a value below the cap, which is what
  makes the swap safe however long it was delayed.\<close>

definition limiter_ok :: "64 word \<Rightarrow> limiter_world \<Rightarrow> bool" where
  "limiter_ok cap w \<longleftrightarrow> cl_max (lw_limiter w) = cap
     \<and> cl_current (lw_limiter w) = of_nat (length (lw_holders w))
     \<and> (0 < sint cap \<longrightarrow> int (length (lw_holders w)) \<le> sint cap)
     \<and> (\<forall>t cur. lw_loaded w t = Some cur \<longrightarrow> 0 < sint cap \<and> sint cur < sint cap)"

lemma count_sint:
  assumes "int n \<le> sint (m :: 64 word)"
  shows "sint (of_nat n :: 64 word) = int n"
proof -
  have "sint m < 2 ^ 63" using sint_lt [of m] by simp
  with assms have "int n < 2 ^ 63" by linarith
  then have "signed_take_bit 63 (int n) = int n"
    by (intro signed_take_bit_int_eq_self) simp_all
  then show ?thesis by (simp add: signed_of_nat)
qed

lemma run_max: "limiter_run cap w \<Longrightarrow> cl_max (lw_limiter w) = cap"
  by (induction rule: limiter_run.induct)
    (auto simp: limiter_world0_def NewConnLimiter_def takes_unlimited_def acquire_unlimited_def
      AddInt64_def loads_def swaps_def acquire_swap_def CompareAndSwap_def releases_def Release_def
      split: acquiring.splits)

lemma run_ok: "limiter_run cap w \<Longrightarrow> limiter_ok cap w"
proof (induction rule: limiter_run.induct)
  case Start
  then show ?case by (simp add: limiter_ok_def limiter_world0_def NewConnLimiter_def)
next
  case (Unlimited w t)
  then show ?case
    by (auto simp: limiter_ok_def takes_unlimited_def acquire_unlimited_def AddInt64_def unlimited_def)
next
  case (Load w t)
  then show ?case
    by (auto simp: limiter_ok_def loads_def acquire_load_def Let_def unlimited_def split: acquiring.splits if_splits)
next
  case (Swap w t cur)
  show ?case
  proof (cases "cl_current (lw_limiter w) = cur")
    case True
    have pos: "0 < sint cap" and below: "sint cur < sint cap"
      using Swap by (auto simp: limiter_ok_def)
    have "sint (cl_current (lw_limiter w)) = int (length (lw_holders w))"
      using Swap.IH pos by (auto simp: limiter_ok_def count_sint)
    with True below have "int (Suc (length (lw_holders w))) \<le> sint cap" by simp
    with True Swap show ?thesis
      by (auto simp: limiter_ok_def swaps_def acquire_swap_def CompareAndSwap_def)
  next
    case False
    with Swap show ?thesis
      by (auto simp: limiter_ok_def swaps_def acquire_swap_def CompareAndSwap_def)
  qed
next
  case (Release w t)
  then have "length (lw_holders w) = Suc (length (remove1 t (lw_holders w)))"
    by (simp add: length_remove1) (metis Suc_pred length_pos_if_in_set)
  with Release show ?case
    by (auto simp: limiter_ok_def releases_def Release_def AddInt64_def)
qed

end
