(* ===== verification/Runes.thy ===== *)
theory Runes
  imports Utf8
begin

section \<open>Runes and their encodings\<close>

text \<open>
  \<open>utf8.AppendRune\<close> as \<open>strings.Builder.WriteRune\<close> uses it, and its inverse relation to the
  decoder: a valid string is the encoding of its runes.
\<close>

definition scalar :: "nat \<Rightarrow> bool" where
  "scalar r \<longleftrightarrow> r < 1114112 \<and> \<not> (55296 \<le> r \<and> r \<le> 57343)"

definition bytes_of :: "nat list \<Rightarrow> string" where
  "bytes_of bs = map char_of bs"

definition encode_rune :: "nat \<Rightarrow> string" where
  "encode_rune r0 =
     (let r = (if scalar r0 then r0 else rune_error) in
      if r < 128 then bytes_of [r]
      else if r < 2048 then bytes_of [192 + r div 64, 128 + r mod 64]
      else if r < 65536 then bytes_of [224 + r div 4096, 128 + r div 64 mod 64, 128 + r mod 64]
      else bytes_of [240 + r div 262144, 128 + r div 4096 mod 64, 128 + r div 64 mod 64, 128 + r mod 64])"

definition encode :: "nat list \<Rightarrow> string" where
  "encode rs = concat (map encode_rune rs)"

lemma encode_simps [simp]:
  "encode [] = []" "encode (r # rs) = encode_rune r @ encode rs" "encode (xs @ ys) = encode xs @ encode ys"
  by (simp_all add: encode_def)

lemma byte_char_of [simp]: "n < 256 \<Longrightarrow> byte (char_of n) = n"
  by (simp add: byte_def)

lemma char_of_byte [simp]: "char_of (byte c) = c"
  by (simp add: byte_def)

lemma byte_less: "byte c < 256"
  unfolding byte_def by (metis of_char_mod_256 mod_less_divisor zero_less_numeral)

text \<open>The three multi-byte forms, by the payload of each byte.\<close>

lemma encode_two:
  assumes "2 \<le> a" "a < 32" "b < 64"
  shows "encode_rune (a * 64 + b) = [char_of (192 + a), char_of (128 + b)]"
proof -
  have "(a * 64 + b) div 64 = a" "(a * 64 + b) mod 64 = b" using assms by simp_all
  moreover have "128 \<le> a * 64 + b" "a * 64 + b < 2048" using assms by linarith+
  ultimately show ?thesis by (simp add: encode_rune_def bytes_of_def scalar_def Let_def)
qed

lemma decode_two:
  assumes "2 \<le> a" "a < 32" "b < 64"
  shows "decode_valid (char_of (192 + a) # char_of (128 + b) # s) = Some (a * 64 + b, 2)"
  using assms by (simp add: cont_def Let_def)

lemma encode_three:
  assumes "a < 16" "b < 64" "c < 64" "a = 0 \<Longrightarrow> 32 \<le> b" "scalar (a * 4096 + b * 64 + c)"
  shows "encode_rune (a * 4096 + b * 64 + c) = [char_of (224 + a), char_of (128 + b), char_of (128 + c)]"
proof -
  let ?r = "a * 4096 + b * 64 + c"
  have "?r = (a * 64 + b) * 64 + c" by simp
  then have q: "?r div 64 = a * 64 + b" "?r mod 64 = c" using assms(3) by (simp_all only: div_mult_self3 div_less mod_mult_self3 mod_less)
  have "?r div 4096 = ?r div 64 div 64" by (simp add: div_mult2_eq [symmetric])
  then have "?r div 4096 = a" using assms(2) q(1) by simp
  moreover have "2048 \<le> ?r" "?r < 65536" using assms by (cases "a = 0"; simp)+
  ultimately show ?thesis using q assms(2,5) by (simp add: encode_rune_def bytes_of_def Let_def)
qed

lemma decode_three:
  assumes "a < 16" "b < 64" "c < 64" "a = 0 \<Longrightarrow> 32 \<le> b" "a = 13 \<Longrightarrow> b < 32"
  shows "decode_valid (char_of (224 + a) # char_of (128 + b) # char_of (128 + c) # s)
    = Some (a * 4096 + b * 64 + c, 3)"
  using assms by (auto simp: cont_def second_ok_def Let_def)

lemma encode_four:
  assumes "a < 5" "b < 64" "c < 64" "d < 64" "a = 0 \<Longrightarrow> 16 \<le> b" "a = 4 \<Longrightarrow> b < 16"
  shows "encode_rune (a * 262144 + b * 4096 + c * 64 + d)
    = [char_of (240 + a), char_of (128 + b), char_of (128 + c), char_of (128 + d)]"
proof -
  let ?r = "a * 262144 + b * 4096 + c * 64 + d"
  have "?r = (a * 4096 + b * 64 + c) * 64 + d" by simp
  then have q: "?r div 64 = a * 4096 + b * 64 + c" "?r mod 64 = d" using assms(4) by (simp_all only: div_mult_self3 div_less mod_mult_self3 mod_less)
  have "a * 4096 + b * 64 + c = (a * 64 + b) * 64 + c" by simp
  then have q2: "(a * 4096 + b * 64 + c) div 64 = a * 64 + b" "(a * 4096 + b * 64 + c) mod 64 = c"
    using assms(3) by (simp_all only: div_mult_self3 div_less mod_mult_self3 mod_less)
  have d: "?r div 4096 = a * 64 + b" using q(1) q2(1) by (simp add: div_mult2_eq [of _ 64 64, simplified])
  have "?r div 262144 = ?r div 4096 div 64" by (simp add: div_mult2_eq [symmetric])
  then have e: "?r div 262144 = a" using assms(2) d by simp
  have "65536 \<le> ?r" using assms by (cases "a = 0"; simp)
  moreover have "?r < 1114112" using assms by (cases "a = 4"; simp)
  ultimately show ?thesis using q(2) d e q2(2) assms(2)
    by (simp add: encode_rune_def bytes_of_def Let_def scalar_def q(1))
qed

lemma decode_four:
  assumes "a < 5" "b < 64" "c < 64" "d < 64" "a = 0 \<Longrightarrow> 16 \<le> b" "a = 4 \<Longrightarrow> b < 16"
  shows "decode_valid (char_of (240 + a) # char_of (128 + b) # char_of (128 + c) # char_of (128 + d) # s)
    = Some (a * 262144 + b * 4096 + c * 64 + d, 4)"
  using assms by (auto simp: cont_def second_ok_def Let_def)


text \<open>Both directions between the decoder and the encoder.\<close>

lemma digits_three: "r div 4096 * 4096 + r div 64 mod 64 * 64 + r mod 64 = (r :: nat)"
proof -
  have "r div 4096 = r div 64 div 64" by (simp add: div_mult2_eq [symmetric])
  moreover have "r div 64 div 64 * 64 + r div 64 mod 64 = r div 64" by (rule div_mult_mod_eq)
  moreover have "r div 64 * 64 + r mod 64 = r" by (rule div_mult_mod_eq)
  ultimately show ?thesis by linarith
qed

lemma digits_four: "r div 262144 * 262144 + r div 4096 mod 64 * 4096 + r div 64 mod 64 * 64 + r mod 64 = (r :: nat)"
proof -
  have "r div 262144 = r div 4096 div 64" by (simp add: div_mult2_eq [symmetric])
  moreover have "r div 4096 div 64 * 64 + r div 4096 mod 64 = r div 4096" by (rule div_mult_mod_eq)
  ultimately show ?thesis using digits_three [of r] by linarith
qed

lemma decode_encode:
  assumes "scalar r"
  shows "decode_valid (encode_rune r @ s) = Some (r, length (encode_rune r))"
proof -
  consider "r < 128" | "128 \<le> r" "r < 2048" | "2048 \<le> r" "r < 65536" | "65536 \<le> r" "r < 1114112"
    using assms by (fastforce simp: scalar_def)
  then show ?thesis
  proof cases
    case 1
    with assms show ?thesis by (simp add: encode_rune_def bytes_of_def)
  next
    case 2
    define a b where "a = r div 64" and "b = r mod 64"
    then have r: "r = a * 64 + b" by simp
    have "2 \<le> a" "a < 32" "b < 64" using 2 unfolding a_def b_def by auto
    then show ?thesis unfolding r by (simp add: encode_two decode_two del: decode_valid.simps)
  next
    case 3
    define a b c where "a = r div 4096" and "b = r div 64 mod 64" and "c = r mod 64"
    then have r: "r = a * 4096 + b * 64 + c" by (simp only: digits_three)
    have l: "b < 64" "c < 64" "a < 16" using 3 unfolding a_def b_def c_def by auto
    have z: "a = 0 \<Longrightarrow> 32 \<le> b" using 3 r l by auto
    have s: "a = 13 \<Longrightarrow> b < 32" using assms r l unfolding scalar_def by auto
    show ?thesis using assms l z s unfolding r
      by (simp add: encode_three decode_three del: decode_valid.simps)
  next
    case 4
    define a b c d where "a = r div 262144" and "b = r div 4096 mod 64" and "c = r div 64 mod 64" and "d = r mod 64"
    then have r: "r = a * 262144 + b * 4096 + c * 64 + d" by (simp only: digits_four)
    have l: "b < 64" "c < 64" "d < 64" "a < 5" using 4 unfolding a_def b_def c_def d_def by auto
    have z: "a = 0 \<Longrightarrow> 16 \<le> b" using 4 r l by auto
    have s: "a = 4 \<Longrightarrow> b < 16" using 4 r l by auto
    show ?thesis using l z s unfolding r
      by (simp add: encode_four decode_four del: decode_valid.simps)
  qed
qed

lemma char_back: "byte c = n \<Longrightarrow> char_of n = c"
  by auto

lemma second_ok_range: "second_ok b0 c \<Longrightarrow> 128 \<le> byte c \<and> byte c \<le> 191"
  by (auto simp: second_ok_def Let_def split: if_splits)

lemma second_ok_low: "second_ok 224 c \<Longrightarrow> 160 \<le> byte c" "second_ok 240 c \<Longrightarrow> 144 \<le> byte c"
  and second_ok_high: "second_ok 237 c \<Longrightarrow> byte c \<le> 159" "second_ok 244 c \<Longrightarrow> byte c \<le> 143"
  by (simp_all add: second_ok_def)

lemma encode_decode:
  assumes "decode_valid s = Some (r, w)"
  shows "scalar r \<and> take w s = encode_rune r"
proof -
  from assms obtain c0 s0 where s: "s = c0 # s0" by (cases s) auto
  let ?b = "byte c0"
  consider "?b < 128" | "194 \<le> ?b" "?b \<le> 223" | "224 \<le> ?b" "?b \<le> 239" | "240 \<le> ?b" "?b \<le> 244"
    using assms s by (fastforce simp: Let_def split: if_splits)
  then show ?thesis
  proof cases
    case 1
    then have "r = ?b" "w = 1" using assms s by simp_all
    with 1 s show ?thesis by (simp add: scalar_def encode_rune_def bytes_of_def)
  next
    case 2
    then obtain c1 t where t: "s0 = c1 # t" and c: "cont c1" "r = (?b - 192) * 64 + (byte c1 - 128)" "w = 2"
      using assms s by (auto simp: Let_def split: if_splits list.splits)
    define a b where "a = ?b - 192" and "b = byte c1 - 128"
    have l: "2 \<le> a" "a < 32" "b < 64" using 2 c(1) unfolding a_def b_def cont_def by linarith+
    have "?b = 192 + a" "byte c1 = 128 + b" using 2 c(1) unfolding a_def b_def cont_def by linarith+
    then have "char_of (192 + a) = c0" "char_of (128 + b) = c1" by (metis char_of_byte)+
    moreover have "r = a * 64 + b" using c(2) by (simp only: a_def b_def)
    moreover have "a * 64 + b < 2048" using l by linarith
    ultimately show ?thesis using l s t c(3)
      by (simp add: encode_two) (simp add: scalar_def)
  next
    case 3
    then obtain c1 c2 t where t: "s0 = c1 # c2 # t" and c: "second_ok ?b c1" "cont c2"
        "r = (?b - 224) * 4096 + (byte c1 - 128) * 64 + (byte c2 - 128)" "w = 3"
      using assms s by (auto simp: Let_def split: if_splits list.splits)
    define a b d where "a = ?b - 224" and "b = byte c1 - 128" and "d = byte c2 - 128"
    have r: "r = a * 4096 + b * 64 + d" using c(3) by (simp only: a_def b_def d_def)
    have l: "a < 16" "b < 64" "d < 64" and e: "?b = 224 + a" "byte c1 = 128 + b" "byte c2 = 128 + d"
      using 3 c(2) second_ok_range [OF c(1)] unfolding a_def b_def d_def cont_def by linarith+
    have z: "a = 0 \<Longrightarrow> 32 \<le> b" using second_ok_low(1) [of c1] c(1) e by simp
    have g: "a = 13 \<Longrightarrow> b < 32" using second_ok_high(1) [of c1] c(1) e by simp
    have "scalar r"
    proof -
      consider "a < 13" | "a = 13" | "a = 14" | "a = 15" using l by linarith
      then show ?thesis using l g unfolding r scalar_def by cases auto
    qed
    moreover have "char_of (224 + a) = c0" "char_of (128 + b) = c1" "char_of (128 + d) = c2"
      using e by (metis char_of_byte)+
    ultimately show ?thesis using l z s t c(4) r by (simp add: encode_three)
  next
    case 4
    then obtain c1 c2 c3 t where t: "s0 = c1 # c2 # c3 # t" and c: "second_ok ?b c1" "cont c2" "cont c3"
        "r = (?b - 240) * 262144 + (byte c1 - 128) * 4096 + (byte c2 - 128) * 64 + (byte c3 - 128)" "w = 4"
      using assms s by (auto simp: Let_def split: if_splits list.splits)
    define a b d f where "a = ?b - 240" and "b = byte c1 - 128" and "d = byte c2 - 128" and "f = byte c3 - 128"
    have r: "r = a * 262144 + b * 4096 + d * 64 + f" using c(4) by (simp only: a_def b_def d_def f_def)
    have l: "a < 5" "b < 64" "d < 64" "f < 64"
      and e: "?b = 240 + a" "byte c1 = 128 + b" "byte c2 = 128 + d" "byte c3 = 128 + f"
      using 4 c(2,3) second_ok_range [OF c(1)] unfolding a_def b_def d_def f_def cont_def by linarith+
    have z: "a = 0 \<Longrightarrow> 16 \<le> b" using second_ok_low(2) [of c1] c(1) e by simp
    have g: "a = 4 \<Longrightarrow> b < 16" using second_ok_high(2) [of c1] c(1) e by simp
    have "scalar r" using l z g unfolding r scalar_def by (cases "a = 4"; cases "a = 0"; simp)
    moreover have "char_of (240 + a) = c0" "char_of (128 + b) = c1" "char_of (128 + d) = c2" "char_of (128 + f) = c3"
      using e by (metis char_of_byte)+
    ultimately show ?thesis using l z g s t c(5) r by (simp add: encode_four)
  qed
qed


subsection \<open>Valid strings are encodings\<close>

lemma encode_rune_nonempty [simp]: "encode_rune r \<noteq> []"
  by (simp add: encode_rune_def bytes_of_def Let_def)

lemma segs_encode: "\<forall>r\<in>set rs. scalar r \<Longrightarrow> segs (encode rs) = map (\<lambda>r. (r, encode_rune r)) rs"
proof (induction rs)
  case (Cons r rs)
  then have "decode_rune (encode (r # rs)) = (r, length (encode_rune r))"
    by (simp add: decode_rune_def decode_encode)
  with Cons show ?case by (simp add: segs_Cons)
qed simp

lemma runes_encode: "\<forall>r\<in>set rs. scalar r \<Longrightarrow> runes (encode rs) = rs"
  by (simp add: runes_def segs_encode comp_def)

lemma utf8_encode: "\<forall>r\<in>set rs. scalar r \<Longrightarrow> utf8_valid (encode rs)"
proof (induction rs)
  case Nil
  then show ?case by (simp add: utf8_valid.simps)
next
  case (Cons r rs)
  then show ?case by (subst utf8_valid.simps) (simp add: decode_encode)
qed

lemma valid_encode: "utf8_valid s \<Longrightarrow> (\<forall>r\<in>set (runes s). scalar r) \<and> encode (runes s) = s"
proof (induction s rule: utf8_valid.induct)
  case (1 s)
  show ?case
  proof (cases "s = []")
    case True
    then show ?thesis by (simp add: runes_def)
  next
    case False
    with 1(2) obtain r w where d: "decode_valid s = Some (r, w)" and v: "utf8_valid (drop w s)"
      by (subst (asm) utf8_valid.simps) (auto split: option.splits)
    have ih: "(\<forall>r\<in>set (runes (drop w s)). scalar r) \<and> encode (runes (drop w s)) = drop w s"
      using 1(1) [OF False d] v by simp
    have "runes s = r # runes (drop w s)"
      using False d by (simp add: runes_def segs_Cons decode_rune_def)
    with ih encode_decode [OF d] show ?thesis
      by (simp) (metis append_take_drop_id)
  qed
qed

lemma valid_obtain:
  assumes "utf8_valid s"
  obtains rs where "s = encode rs" "\<forall>r\<in>set rs. scalar r"
  using valid_encode [OF assms] by metis

definition trim_runes :: "nat list \<Rightarrow> nat list" where
  "trim_runes rs = rev (dropWhile is_space (rev (dropWhile is_space rs)))"

lemma trim_encode: "\<forall>r\<in>set rs. scalar r \<Longrightarrow> trim_space (encode rs) = encode (trim_runes rs)"
proof -
  assume "\<forall>r\<in>set rs. scalar r"
  then have "segs (encode rs) = map (\<lambda>r. (r, encode_rune r)) rs" by (rule segs_encode)
  then show ?thesis
    by (simp add: trim_space_def dropWhile_map comp_def rev_map trim_runes_def encode_def)
qed

lemma trim_runes_subset: "set (trim_runes rs) \<subseteq> set rs"
  by (auto simp: trim_runes_def dest!: set_dropWhileD)

lemma trim_runes_edges:
  "trim_runes rs \<noteq> [] \<Longrightarrow> \<not> is_space (hd (trim_runes rs)) \<and> \<not> is_space (last (trim_runes rs))"
proof -
  assume ne: "trim_runes rs \<noteq> []"
  let ?d = "dropWhile is_space rs"
  have l: "\<not> is_space (last (trim_runes rs))"
    using ne unfolding trim_runes_def by (simp add: last_rev hd_dropWhile)
  have "\<not> is_space (hd ?d)"
  proof (rule hd_dropWhile)
    show "dropWhile is_space rs \<noteq> []" using ne unfolding trim_runes_def by (metis dropWhile.simps(1) rev.simps(1))
  qed
  moreover have "?d = trim_runes rs @ rev (takeWhile is_space (rev ?d))"
    unfolding trim_runes_def by (metis rev_append rev_rev_ident takeWhile_dropWhile_id)
  ultimately have "\<not> is_space (hd (trim_runes rs))" using ne by (metis hd_append2)
  with l show ?thesis by simp
qed

lemma trim_runes_fixed:
  "rs \<noteq> [] \<Longrightarrow> \<not> is_space (hd rs) \<Longrightarrow> \<not> is_space (last rs) \<Longrightarrow> trim_runes rs = rs"
proof -
  assume a: "rs \<noteq> []" "\<not> is_space (hd rs)" "\<not> is_space (last rs)"
  then have "dropWhile is_space rs = rs" by (cases rs) auto
  moreover have "dropWhile is_space (rev rs) = rev rs" using a by (cases rs rule: rev_cases) auto
  ultimately show ?thesis by (simp add: trim_runes_def)
qed

lemma encode_length_mono:
  "list_all2 (\<lambda>r r'. length (encode_rune r') \<le> length (encode_rune r)) rs rs' \<Longrightarrow>
   length (encode rs') \<le> length (encode rs)"
  by (induction rule: list_all2_induct) auto

lemma encode_Nil_iff [simp]: "encode rs = [] \<longleftrightarrow> rs = []"
  by (cases rs) auto

end
