(* ===== verification/Chat.thy ===== *)
theory Chat
  imports MatchOps Runes
begin

section \<open>Chat moderation: \<open>game/text_chat.go\<close>\<close>

text \<open>
  The moderator installed as \<open>ModerateChat\<close>: canned phrases pass unchanged, authored words need
  accepted terms and are masked against the configured word lists.

  \<open>unicode_tables\<close> holds what the code takes from the Unicode tables of the Go release:
  \<open>strings.ToLower\<close>, \<open>unicode.IsLetter\<close> and \<open>unicode.IsNumber\<close>. \<open>requireTerms\<close> is the callback
  of the same name, with its context argument left out.
\<close>

record unicode_tables =
  ut_ToLower :: "string \<Rightarrow> string"
  ut_IsLetter :: "nat \<Rightarrow> bool"
  ut_IsNumber :: "nat \<Rightarrow> bool"

type_synonym word_lists = "(string \<times> string list) list"

definition newProfanityFilter :: "unicode_tables \<Rightarrow> word_lists \<Rightarrow> word_lists" where
  "newProfanityFilter u words = map (\<lambda>(language, ws). (language, remdups (map (ut_ToLower u) ws))) words"

definition isChatWordRune :: "unicode_tables \<Rightarrow> nat \<Rightarrow> bool" where
  "isChatWordRune u r \<longleftrightarrow> ut_IsLetter u r \<or> ut_IsNumber u r"

definition listed_in :: "word_lists \<Rightarrow> string \<Rightarrow> string \<Rightarrow> bool" where
  "listed_in profane language word =
     (case map_of profane language of None \<Rightarrow> False | Some ws \<Rightarrow> word \<in> set ws)"

definition filter_contains :: "unicode_tables \<Rightarrow> word_lists \<Rightarrow> string \<Rightarrow> string list \<Rightarrow> bool" where
  "filter_contains u profane word languages = list_ex (\<lambda>language. listed_in profane language (ut_ToLower u word)) languages"

text \<open>The languages whose lists apply: English and the primary subtag of the locale.\<close>

definition chat_languages :: "unicode_tables \<Rightarrow> string \<Rightarrow> string list" where
  "chat_languages u locale =
     (let language = takeWhile (\<lambda>c. c \<noteq> CHR ''-'') (ut_ToLower u locale) in
      if language \<noteq> [] \<and> language \<noteq> ''en'' then [''en'', language] else [''en''])"

text \<open>The inner loop: the bytes of the longest run of word runes at the front.\<close>

function scan_word :: "unicode_tables \<Rightarrow> string \<Rightarrow> nat" where
  "scan_word u s =
     (if s = [] then 0
      else let (r, w) = decode_rune s in
        if \<not> isChatWordRune u r then 0 else w + scan_word u (drop w s))"
  by pat_completeness auto
termination
proof (relation "measure (length \<circ> snd)", goal_cases)
  case (2 u s x r w)
  then have "s \<noteq> []" "decode_rune s = (r, w)" by auto
  then show ?case using decode_rune_width [of s] by (auto simp: diff_less)
qed simp

declare scan_word.simps [simp del]

definition mask_word :: "string \<Rightarrow> string" where
  "mask_word word = encode_rune (hd (runes word)) @ replicate (length (runes word) - 1) CHR ''*''"

lemma scan_word_pos:
  "s \<noteq> [] \<Longrightarrow> isChatWordRune u (fst (decode_rune s)) \<Longrightarrow> 0 < scan_word u s"
  using decode_rune_width [of s] by (subst scan_word.simps) (simp add: case_prod_beta)

function mask_from :: "unicode_tables \<Rightarrow> (string \<Rightarrow> bool) \<Rightarrow> string \<Rightarrow> string" where
  "mask_from u listed s =
     (if s = [] then []
      else let (r, w) = decode_rune s in
        if \<not> isChatWordRune u r then take w s @ mask_from u listed (drop w s)
        else let n = scan_word u s; word = take n s in
          (if listed word then mask_word word else word) @ mask_from u listed (drop n s))"
  by pat_completeness auto
termination
proof (relation "measure (length \<circ> snd \<circ> snd)", goal_cases)
  case (2 u listed s x r w)
  then have "s \<noteq> []" "decode_rune s = (r, w)" by auto
  then show ?case using decode_rune_width [of s] by (auto simp: diff_less)
next
  case (3 u listed s x r w n word)
  then have "s \<noteq> []" "isChatWordRune u (fst (decode_rune s))" by (auto dest: sym)
  then have "0 < scan_word u s" by (rule scan_word_pos)
  with 3 show ?case by (auto simp: diff_less)
qed simp

declare mask_from.simps [simp del]

definition mask_text :: "unicode_tables \<Rightarrow> word_lists \<Rightarrow> string \<Rightarrow> string \<Rightarrow> string" where
  "mask_text u profane txt locale =
     mask_from u (\<lambda>word. filter_contains u profane word (chat_languages u locale)) txt"

definition canned_phrases :: "string list" where
  "canned_phrases = [''suspect'', ''fit'', ''weird'', ''trust'', ''not_me'', ''laugh'']"

definition NewTextChatModerator ::
  "unicode_tables \<Rightarrow> word_lists \<Rightarrow> (string \<Rightarrow> go_error option) option \<Rightarrow> string \<Rightarrow> action \<Rightarrow> go_error + action" where
  "NewTextChatModerator u words requireTerms account a =
     (let profane = newProfanityFilter u words in
      if a_Kind a \<noteq> ActionChat then Inl (GoError ''chat.invalid'')
      else if a_PhraseID a \<noteq> [] then
        (if a_Text a \<noteq> [] then Inl (GoError ''chat.invalid'')
         else if a_PhraseID a \<in> set canned_phrases then Inr a
         else Inl (GoError ''chat.invalid_phrase''))
      else case requireTerms of
        None \<Rightarrow> Inl (GoError ''terms.required'')
      | Some check \<Rightarrow>
         (case check account of
            Some e \<Rightarrow> Inl e
          | None \<Rightarrow>
             let a' = a\<lparr>a_Text := trim_space (a_Text a)\<rparr> in
             if a_Text a' = [] then Inl (GoError ''chat.empty'')
             else Inr (a'\<lparr>a_Text := mask_text u profane (a_Text a') (a_UILocale a')\<rparr>)))"

text \<open>The hook of a match whose seats belong to \<open>accounts\<close>, as the lobby installs it.\<close>

definition chat_hook ::
  "(string \<Rightarrow> action \<Rightarrow> go_error + action) \<Rightarrow> string list \<Rightarrow> int \<Rightarrow> action \<Rightarrow> go_error + action" where
  "chat_hook moderator accounts seat a = moderator (accounts ! nat seat) a"


subsection \<open>Masking, rune by rune\<close>

text \<open>The reference: the runs of word runes of a text, each shown or reduced to its first rune.\<close>

definition mask_run :: "(nat list \<Rightarrow> bool) \<Rightarrow> nat list \<Rightarrow> nat list" where
  "mask_run listed w = (if listed w then hd w # replicate (length w - 1) 42 else w)"

function mask_runes :: "(nat \<Rightarrow> bool) \<Rightarrow> (nat list \<Rightarrow> bool) \<Rightarrow> nat list \<Rightarrow> nat list" where
  "mask_runes word listed [] = []"
| "mask_runes word listed (r # rs) =
     (if word r then mask_run listed (r # takeWhile word rs) @ mask_runes word listed (dropWhile word rs)
      else r # mask_runes word listed rs)"
  by pat_completeness auto
termination
  by (relation "measure (length \<circ> snd \<circ> snd)") (auto simp: less_Suc_eq_le length_dropWhile_le)

lemma star_code: "encode_rune 42 = ''*''"
  by (simp add: encode_rune_def bytes_of_def scalar_def char_of_eq_iff)

lemma encode_stars: "encode (replicate n 42) = replicate n CHR ''*''"
  by (induction n) (simp_all add: star_code)

lemma scan_encode:
  "\<forall>r\<in>set rs. scalar r \<Longrightarrow> scan_word u (encode rs) = length (encode (takeWhile (isChatWordRune u) rs))"
proof (induction rs)
  case Nil
  then show ?case by (simp add: scan_word.simps)
next
  case (Cons r rs)
  have "decode_rune (encode (r # rs)) = (r, length (encode_rune r))"
    using Cons.prems by (simp add: decode_rune_def decode_encode)
  with Cons show ?case by (subst scan_word.simps) simp
qed

lemma mask_word_encode:
  assumes "\<forall>r\<in>set w. scalar r" "w \<noteq> []"
  shows "mask_word (encode w) = encode (hd w # replicate (length w - 1) 42)"
  using assms by (simp add: mask_word_def runes_encode encode_stars)

lemma mask_encode:
  assumes "\<forall>r\<in>set rs. scalar r"
  shows "mask_from u listed (encode rs) = encode (mask_runes (isChatWordRune u) (\<lambda>w. listed (encode w)) rs)"
  using assms
proof (induction "isChatWordRune u" "\<lambda>w. listed (encode w)" rs rule: mask_runes.induct)
  case 1
  then show ?case by (simp add: mask_from.simps)
next
  case (2 r rs)
  have d: "decode_rune (encode (r # rs)) = (r, length (encode_rune r))"
    using 2 by (simp add: decode_rune_def decode_encode)
  show ?case
  proof (cases "isChatWordRune u r")
    case False
    with 2 d show ?thesis by (subst mask_from.simps) simp
  next
    case True
    let ?w = "r # takeWhile (isChatWordRune u) rs" and ?d = "dropWhile (isChatWordRune u) rs"
    have split: "encode (r # rs) = encode ?w @ encode ?d"
      by (simp flip: encode_simps(3))
    have n: "scan_word u (encode (r # rs)) = length (encode ?w)"
      using scan_encode [of "r # rs" u] 2 True by simp
    have t: "take (length (encode ?w)) (encode (r # rs)) = encode ?w"
        "drop (length (encode ?w)) (encode (r # rs)) = encode ?d"
      by (simp_all only: split append_eq_conv_conj [symmetric] append_eq_append_conv) simp_all
    have w: "\<forall>r\<in>set ?w. scalar r" "\<forall>r\<in>set ?d. scalar r"
      using 2(3) by (auto dest: set_takeWhileD set_dropWhileD)
    have ih: "mask_from u listed (encode ?d) = encode (mask_runes (isChatWordRune u) (\<lambda>w. listed (encode w)) ?d)"
      using 2(1) True w(2) by simp
    have "mask_from u listed (encode (r # rs)) =
        (if listed (encode ?w) then mask_word (encode ?w) else encode ?w) @ mask_from u listed (encode ?d)"
      using True d by (subst mask_from.simps) (simp only: n t Let_def, simp)
    also have "\<dots> = encode (mask_runes (isChatWordRune u) (\<lambda>w. listed (encode w)) (r # rs))"
      using True ih mask_word_encode [OF w(1)] by (simp add: mask_run_def)
    finally show ?thesis .
  qed
qed


text \<open>Masking never reaches over a rune that is not a word rune.\<close>

lemma mask_runes_append:
  "xs = [] \<or> \<not> word (last xs) \<or> ys = [] \<or> \<not> word (hd ys) \<Longrightarrow>
   mask_runes word listed (xs @ ys) = mask_runes word listed xs @ mask_runes word listed ys"
proof (induction word listed xs rule: mask_runes.induct)
  case (2 word listed r rs)
  show ?case
  proof (cases "word r")
    case False
    then show ?thesis using 2(2) 2(3) by (cases "rs = []") auto
  next
    case True
    have edge: "dropWhile word rs = [] \<or> \<not> word (last (dropWhile word rs)) \<or> ys = [] \<or> \<not> word (hd ys)"
    proof (cases "dropWhile word rs = []")
      case False
      then have "last (r # rs) = last (dropWhile word rs)"
        using last_appendR [OF False, of "takeWhile word rs"] by (cases "rs = []") auto
      then show ?thesis using 2(3) by auto
    qed simp
    show ?thesis
    proof (cases "dropWhile word rs = []")
      case all: True
      then have w: "\<forall>x\<in>set rs. word x" by (simp add: dropWhile_eq_Nil_conv)
      then have "ys = [] \<or> \<not> word (hd ys)" using 2(3) True by (auto split: if_splits)
      then have "takeWhile word (rs @ ys) = rs" "dropWhile word (rs @ ys) = ys"
        using w by (cases ys; simp add: takeWhile_append2 dropWhile_append2)+
      moreover have "takeWhile word rs = rs" "dropWhile word rs = []"
        using w by (simp_all add: takeWhile_eq_all_conv dropWhile_eq_Nil_conv)
      ultimately show ?thesis using True by (simp only: mask_runes.simps append_Cons if_True append_Nil2)
    next
      case False
      then obtain x where "x \<in> set rs" "\<not> word x" by (auto simp: dropWhile_eq_Nil_conv)
      then have "takeWhile word (rs @ ys) = takeWhile word rs" "dropWhile word (rs @ ys) = dropWhile word rs @ ys"
        by (auto simp: takeWhile_append1 dropWhile_append1)
      with True 2(1) edge show ?thesis by simp
    qed
  qed
qed simp

lemma mask_runes_run:
  "w \<noteq> [] \<Longrightarrow> \<forall>r\<in>set w. word r \<Longrightarrow> mask_runes word listed w = mask_run listed w"
  by (cases w) (simp_all add: takeWhile_eq_all_conv [THEN iffD2] dropWhile_eq_Nil_conv [THEN iffD2])

definition masked :: "(nat \<Rightarrow> bool) \<Rightarrow> nat \<Rightarrow> nat \<Rightarrow> bool" where
  "masked word r r' \<longleftrightarrow> r' = r \<or> word r \<and> r' = 42"

lemma run_masked: "\<forall>r\<in>set w. word r \<Longrightarrow> w \<noteq> [] \<Longrightarrow> list_all2 (masked word) w (mask_run listed w)"
  by (cases w) (auto simp: mask_run_def masked_def list_all2_conv_all_nth nth_Cons split: nat.splits)

lemma runes_masked: "list_all2 (masked word) rs (mask_runes word listed rs)"
proof (induction word listed rs rule: mask_runes.induct)
  case (2 word listed r rs)
  show ?case
  proof (cases "word r")
    case True
    have "list_all2 (masked word) (r # takeWhile word rs) (mask_run listed (r # takeWhile word rs))"
      using True by (intro run_masked) (auto dest: set_takeWhileD)
    then have "list_all2 (masked word) ((r # takeWhile word rs) @ dropWhile word rs)
        (mask_run listed (r # takeWhile word rs) @ mask_runes word listed (dropWhile word rs))"
      using 2(1) True by (intro list_all2_appendI) simp_all
    with True show ?thesis by simp
  next
    case False
    with 2(2) show ?thesis by (simp add: masked_def)
  qed
qed simp

lemma mask_runes_hd:
  "mask_runes word listed rs = [] \<or> \<not> word (hd rs) \<Longrightarrow>
   mask_runes word listed rs = [] \<or> \<not> word (hd (mask_runes word listed rs))"
  by (cases rs) auto

lemma mask_run_again:
  assumes "\<not> word 42" "w \<noteq> []" "\<forall>r\<in>set w. word r"
  shows "mask_runes word listed (mask_run listed w) = mask_run listed w"
proof (cases "listed w \<and> length w > 1")
  case False
  then have "mask_run listed w = w" using assms(2) by (cases w) (auto simp: mask_run_def)
  with assms show ?thesis by (simp add: mask_runes_run)
next
  case True
  then obtain n where n: "mask_run listed w = [hd w] @ replicate (Suc n) 42"
    by (cases w) (auto simp: mask_run_def gr0_conv_Suc)
  have stars: "mask_runes word listed (replicate k 42) = replicate k 42" for k
    using assms(1) by (induction k) simp_all
  have "mask_runes word listed ([hd w] @ replicate (Suc n) 42)
      = mask_runes word listed [hd w] @ mask_runes word listed (replicate (Suc n) 42)"
    by (rule mask_runes_append) (simp add: assms(1))
  also have "mask_runes word listed [hd w] = [hd w]"
    by (simp add: mask_run_def)
  finally show ?thesis by (simp only: n stars)
qed

lemma mask_runes_again:
  "\<not> word 42 \<Longrightarrow> mask_runes word listed (mask_runes word listed rs) = mask_runes word listed rs"
proof (induction word listed rs rule: mask_runes.induct)
  case (2 word listed r rs)
  show ?case
  proof (cases "word r")
    case True
    let ?w = "r # takeWhile word rs" and ?d = "dropWhile word rs"
    have "?d = [] \<or> \<not> word (hd ?d)" using hd_dropWhile [of word rs] by blast
    then have "mask_runes word listed ?d = [] \<or> \<not> word (hd (mask_runes word listed ?d))"
    proof (elim disjE)
      assume "?d = []"
      then show ?thesis by (simp only: mask_runes.simps simp_thms)
    next
      assume "\<not> word (hd ?d)"
      then show ?thesis by (intro mask_runes_hd) simp
    qed
    then have "mask_runes word listed (mask_run listed ?w @ mask_runes word listed ?d)
        = mask_runes word listed (mask_run listed ?w) @ mask_runes word listed (mask_runes word listed ?d)"
      by (intro mask_runes_append) auto
    moreover have "mask_runes word listed (mask_run listed ?w) = mask_run listed ?w"
      using True 2(3) by (intro mask_run_again) (auto dest: set_takeWhileD)
    ultimately show ?thesis using True 2(1,3) by simp
  next
    case False
    with 2(2,3) show ?thesis by simp
  qed
qed simp


text \<open>A whole word of the text, together with what surrounds it.\<close>

lemma mask_runes_word:
  assumes "w \<noteq> []" "\<forall>r\<in>set w. word r" "a = [] \<or> \<not> word (last a)" "b = [] \<or> \<not> word (hd b)"
  shows "mask_runes word listed (a @ w @ b) = mask_runes word listed a @ mask_run listed w @ mask_runes word listed b"
proof -
  have "mask_runes word listed (a @ w @ b) = mask_runes word listed a @ mask_runes word listed (w @ b)"
    using assms(3) by (intro mask_runes_append) auto
  also have "mask_runes word listed (w @ b) = mask_runes word listed w @ mask_runes word listed b"
    using assms(4) by (intro mask_runes_append) auto
  finally show ?thesis using assms by (simp add: mask_runes_run)
qed

lemma mask_runes_length: "length (mask_runes word listed rs) = length rs"
  using runes_masked [of word rs listed] by (simp add: list_all2_lengthD)

lemma mask_runes_nth: "i < length rs \<Longrightarrow> masked word (rs ! i) (mask_runes word listed rs ! i)"
  using runes_masked [of word rs listed] by (simp add: list_all2_nthD)

lemma mask_runes_scalar: "\<forall>r\<in>set rs. scalar r \<Longrightarrow> \<forall>r\<in>set (mask_runes word listed rs). scalar r"
proof
  fix r assume a: "\<forall>r\<in>set rs. scalar r" and "r \<in> set (mask_runes word listed rs)"
  then obtain i where i: "i < length rs" "r = mask_runes word listed rs ! i"
    by (auto simp: in_set_conv_nth mask_runes_length)
  then have "r = rs ! i \<or> r = 42" using mask_runes_nth [OF i(1), of word listed] by (auto simp: masked_def)
  then show "scalar r" using a i(1) by (auto simp: scalar_def)
qed

text \<open>What moderation does to the validity of a text.\<close>

lemma trim_length: "length (encode (trim_runes rs)) \<le> length (encode rs)"
proof -
  define d where "d = dropWhile is_space rs"
  have "rs = takeWhile is_space rs @ d" by (simp add: d_def)
  moreover have "d = trim_runes rs @ rev (takeWhile is_space (rev d))"
    unfolding trim_runes_def d_def by (metis rev_append rev_rev_ident takeWhile_dropWhile_id)
  ultimately have "rs = takeWhile is_space rs @ trim_runes rs @ rev (takeWhile is_space (rev d))" by metis
  then have "length (encode rs) = length (encode (takeWhile is_space rs)) + (length (encode (trim_runes rs))
      + length (encode (rev (takeWhile is_space (rev d)))))"
    by (metis encode_simps(3) length_append)
  then show ?thesis by linarith
qed

lemma masked_text_ok:
  assumes "text_ok (encode rs) l" "\<forall>r\<in>set rs. scalar r"
  shows "text_ok (encode (mask_runes word listed (trim_runes rs))) l \<and> trim_runes rs \<noteq> []"
proof -
  let ?t = "trim_runes rs" let ?m = "mask_runes word listed ?t"
  have t: "\<forall>r\<in>set ?t. scalar r" using assms(2) trim_runes_subset by blast
  then have m: "\<forall>r\<in>set ?m. scalar r" by (rule mask_runes_scalar)
  have ne: "?t \<noteq> []" using assms by (auto simp: text_ok_def trim_encode)
  have len: "length ?m = length ?t" by (rule mask_runes_length)
  with ne have mne: "?m \<noteq> []" by auto
  have nth: "masked word (?t ! i) (?m ! i)" if "i < length ?t" for i
    using that by (rule mask_runes_nth)
  have star: "\<not> is_space 42" by (simp add: is_space_def)
  have edge: "\<not> is_space r'" if "masked word r r'" "\<not> is_space r" for r r'
    using that star by (auto simp: masked_def)
  have "hd ?m = ?m ! 0" "hd ?t = ?t ! 0" "last ?m = ?m ! (length ?t - 1)" "last ?t = ?t ! (length ?t - 1)"
    using ne mne len by (simp_all add: hd_conv_nth last_conv_nth)
  moreover have "0 < length ?t" "length ?t - 1 < length ?t" using ne by simp_all
  ultimately have "\<not> is_space (hd ?m)" "\<not> is_space (last ?m)"
    using trim_runes_edges [OF ne] nth edge by metis+
  with mne have fixed: "trim_runes ?m = ?m" by (rule trim_runes_fixed)
  have "list_all2 (\<lambda>r r'. length (encode_rune r') \<le> length (encode_rune r)) ?t ?m"
    unfolding list_all2_conv_all_nth
  proof (intro conjI allI impI)
    show "length (encode_rune (?m ! i)) \<le> length (encode_rune (?t ! i))" if "i < length ?t" for i
      using nth [OF that] by (auto simp: masked_def star_code Suc_le_eq)
  qed (simp add: len)
  then have "length (encode ?m) \<le> length (encode ?t)" by (rule encode_length_mono)
  also have "\<dots> \<le> length (encode rs)" by (rule trim_length)
  finally have bound: "int (length (encode ?m)) \<le> MaxTextBytes l"
    using assms(1) by (auto simp: text_ok_def)
  have "\<not> forbidden_rune r" if r: "r \<in> set ?m" for r
  proof -
    obtain i where i: "i < length ?t" "r = ?m ! i" using r len by (auto simp: in_set_conv_nth)
    then have "r = ?t ! i \<or> r = 42" using nth by (auto simp: masked_def)
    moreover have "?t ! i \<in> set rs" using i(1) trim_runes_subset nth_mem by blast
    ultimately show ?thesis
      using assms by (auto simp: text_ok_def runes_encode list_all_iff forbidden_rune_def is_control_def)
  qed
  then show ?thesis
    using bound m mne fixed ne by (simp add: text_ok_def utf8_encode trim_encode runes_encode list_all_iff)
qed

lemma moderated_valid:
  assumes v: "request_Validate lang l r = None" and k: "a_Kind (r_Action r) = ActionChat"
    and p: "a_PhraseID (r_Action r) = []" and t: "text_ok t l"
  shows "request_Validate lang l (r\<lparr>r_Action := (r_Action r)\<lparr>a_Text := t\<rparr>\<rparr>) = None"
proof -
  have "\<not> ValidIdentifier []" by (simp add: ValidIdentifier_def)
  then have "text_ok (a_Text (r_Action r)) l"
    using request_valid_variant [OF v] k p by (simp add: chat_body_ok_def)
  then have "a_Text (r_Action r) \<noteq> []" "t \<noteq> []"
    using t by (auto simp: text_ok_def trim_space_def)
  then have keys: "present_keys ((r_Action r)\<lparr>a_Text := t\<rparr>) = present_keys (r_Action r)"
    by (simp add: present_keys_def)
  have body: "variant_ok lang l (r\<lparr>r_Action := (r_Action r)\<lparr>a_Text := t\<rparr>\<rparr>) ActionChat"
    using request_valid_variant [OF v] k p t by (simp add: chat_body_ok_def)
  show ?thesis using v k body
    by (simp add: request_Validate_def Let_def keys del: variant_ok.simps allowed_keys.simps)
qed

end
