(* ===== verification/Guard_Claims.thy ===== *)
theory Guard_Claims
  imports Work_Gate Limiter Chat Sample
begin

section \<open>Properties of the guards: admission, connections, chat\<close>

text \<open>
  C32. The work gate joins what it admitted. In every interleaving of requests, workers,
  cancellations, waiters and closers no channel is closed twice; \<open>Active\<close> counts the live tasks;
  a waiter is released exactly when the gate is closed and no task is live. From a closed gate
  on, nobody is admitted any more and a state in which waiters are released can be reached: once the
  cancellations are delivered every live task is free to return.
\<close>

theorem closed_gates_drain:
  assumes "gate_steps gate_world0 w"
  shows "\<not> gw_crashed w \<and> Active (gw_gate w) = length (gw_live w)
    \<and> (Wait_ready False (gw_gate w) \<longleftrightarrow> wg_closing (gw_gate w) \<and> gw_live w = [])
    \<and> (wg_closing (gw_gate w) \<longrightarrow>
         (\<forall>v. gate_steps w v \<longrightarrow> wg_closing (gw_gate v) \<and> set (gw_live v) \<subseteq> set (gw_live w))
         \<and> (\<exists>v. gate_steps w v \<and> Wait_ready False (gw_gate v))
         \<and> (gw_pending w = [] \<longrightarrow> (\<forall>t c. (t, c) \<in> set (gw_live w) \<longrightarrow> gate_step w (task_returns t w))))"
proof -
  have ok: "gate_ok w" using steps_keep [OF assms gate_ok_start] .
  then have "\<not> gw_crashed w" "Active (gw_gate w) = length (gw_live w)"
      "Wait_ready False (gw_gate w) \<longleftrightarrow> wg_closing (gw_gate w) \<and> gw_live w = []"
    by (simp_all add: gate_ok_def Active_def Wait_ready_def)
  moreover have "\<exists>v. gate_steps w v \<and> Wait_ready False (gw_gate v)" if "wg_closing (gw_gate w)"
    using drain_possible [OF ok that] by (simp add: Wait_ready_def)
  ultimately show ?thesis using steps_closed [OF _ _ ok] return_enabled [OF ok] by blast
qed

text \<open>A request is running, the gate closes, a second request is refused, the first one returns.\<close>

theorem closed_gates_drain_witness:
  "let w = gate_closes (request_arrives gate_world0); v = task_returns 0 (request_arrives w) in
   \<not> Wait_ready False (gw_gate w) \<and> gw_live w = [(0, None)] \<and> Wait_ready False (gw_gate v)"
proof -
  let ?w = "gate_closes (request_arrives gate_world0)"
  let ?u = "request_arrives ?w"
  have run: "gate_steps gate_world0 ?u"
    by (rule gate_steps.Then [OF gate_steps.Then [OF gate_steps.Then [OF gate_steps.Start
          gate_step.Request] gate_step.Close] gate_step.Request])
  have w: "gate_steps gate_world0 ?w"
    by (rule gate_steps.Then [OF gate_steps.Then [OF gate_steps.Start gate_step.Request] gate_step.Close])
  have live: "gw_live ?w = [(0, None)]" "gw_live ?u = [(0, None)]"
      "wg_closing (gw_gate (task_returns 0 ?u))" "gw_live (task_returns 0 ?u) = []" by code_simp+
  have "map_of (gw_live ?u) 0 = Some None" using live by simp
  then have v: "gate_steps gate_world0 (task_returns 0 ?u)"
    by (rule gate_steps.Then [OF run gate_step.Return])
  show ?thesis
    using closed_gates_drain [OF w] closed_gates_drain [OF v] live by (simp add: Let_def)
qed

text \<open>
  C33. The connection cap. In every interleaving of the atomic loads, swaps and additions the
  counter is the number of slots held; with a positive cap it never exceeds the cap, however long
  a swap is delayed, and \<open>Current\<close> is that number. An acquisition is refused only when the load
  saw all slots taken, and one that nobody interrupts succeeds exactly when a slot is free.
\<close>

theorem connections_stay_below_the_cap:
  assumes "limiter_run cap w" "0 < sint cap"
  shows "Current (lw_limiter w) = int (length (lw_holders w))
    \<and> int (length (lw_holders w)) \<le> sint cap
    \<and> (acquire_load (lw_limiter w) = Returns False \<longleftrightarrow> int (length (lw_holders w)) = sint cap)
    \<and> (fst (TryAcquire (lw_limiter w)) = Returns True \<longleftrightarrow> int (length (lw_holders w)) < sint cap)
    \<and> (fst (TryAcquire (lw_limiter w)) = Returns True \<longrightarrow>
         Current (snd (TryAcquire (lw_limiter w))) = Current (lw_limiter w) + 1)"
proof -
  have ok: "cl_max (lw_limiter w) = cap" "cl_current (lw_limiter w) = of_nat (length (lw_holders w))"
      "int (length (lw_holders w)) \<le> sint cap"
    using run_ok [OF assms(1)] assms(2) by (simp_all add: limiter_ok_def)
  have c: "sint (cl_current (lw_limiter w)) = int (length (lw_holders w))"
    using count_sint [OF ok(3)] ok(2) by simp
  have s: "sint (cl_current (lw_limiter w) + 1) = int (length (lw_holders w)) + 1"
    if "int (length (lw_holders w)) < sint cap"
    using count_sint [of "Suc (length (lw_holders w))" cap] that ok(2) by (simp add: add.commute)
  show ?thesis using assms(2) ok c s
    by (simp add: Current_def acquire_load_def TryAcquire_def unlimited_def acquire_swap_def
        CompareAndSwap_def Let_def del: of_nat_Suc)
qed

text \<open>Two callers load the same value under a cap of one: the second swap fails and is refused on
  its next load.\<close>

theorem connections_stay_below_the_cap_witness:
  "let w = swaps 2 0 (swaps 1 0 (loads 2 (loads 1 (limiter_world0 1)))) in
   length (lw_holders w) = 1 \<and> acquire_load (lw_limiter w) = Returns False"
proof -
  let ?w0 = "limiter_world0 1" let ?w1 = "loads 1 ?w0" let ?w2 = "loads 2 ?w1" let ?w3 = "swaps 1 0 ?w2"
  have f: "\<not> unlimited (lw_limiter ?w0)" "lw_loaded ?w0 1 = None" "\<not> unlimited (lw_limiter ?w1)"
      "lw_loaded ?w1 2 = None" "lw_loaded ?w2 1 = Some 0" "lw_loaded ?w3 2 = Some 0" by code_simp+
  have "limiter_run 1 ?w2"
    by (rule limiter_run.Load [OF limiter_run.Load [OF limiter_run.Start f(1,2)] f(3,4)])
  then have w: "limiter_run 1 (swaps 2 0 ?w3)"
    by (rule limiter_run.Swap [OF limiter_run.Swap [OF _ f(5)] f(6)])
  have "length (lw_holders (swaps 2 0 ?w3)) = 1" by code_simp
  then show ?thesis using connections_stay_below_the_cap [OF w] by (simp add: Let_def)
qed

text \<open>
  C34. Masking. The masked text has as many runes as the text, and every rune that is not a
  letter or a number stays. Every whole word, that is every maximal run of letters and numbers,
  is left alone unless a list that applies to the locale contains it in lower case; then its first rune stays
  and the others become stars. Masking a masked text changes nothing.
\<close>

theorem listed_words_are_masked:
  assumes "utf8_valid t" "\<not> isChatWordRune u 42"
  shows "utf8_valid (mask_text u profane t locale)
    \<and> length (runes (mask_text u profane t locale)) = length (runes t)
    \<and> (\<forall>i<length (runes t). \<not> isChatWordRune u (runes t ! i) \<longrightarrow>
         runes (mask_text u profane t locale) ! i = runes t ! i)
    \<and> (\<forall>a w b. runes t = a @ w @ b \<longrightarrow> w \<noteq> [] \<longrightarrow> (\<forall>r\<in>set w. isChatWordRune u r) \<longrightarrow>
         (a = [] \<or> \<not> isChatWordRune u (last a)) \<longrightarrow> (b = [] \<or> \<not> isChatWordRune u (hd b)) \<longrightarrow>
         take (length w) (drop (length a) (runes (mask_text u profane t locale)))
         = (if filter_contains u profane (encode w) (chat_languages u locale)
            then hd w # replicate (length w - 1) 42 else w))
    \<and> mask_text u profane (mask_text u profane t locale) locale = mask_text u profane t locale"
proof -
  obtain rs where t: "t = encode rs" and rs: "\<forall>r\<in>set rs. scalar r" using valid_obtain [OF assms(1)] .
  let ?word = "isChatWordRune u" let ?listed = "\<lambda>w. filter_contains u profane (encode w) (chat_languages u locale)"
  let ?m = "mask_runes ?word ?listed rs"
  have m: "mask_text u profane (encode rs) locale = encode ?m" unfolding mask_text_def by (rule mask_encode [OF rs])
  have sm: "\<forall>r\<in>set ?m. scalar r" using mask_runes_scalar [OF rs] .
  have again: "mask_text u profane (encode ?m) locale = encode ?m"
    unfolding mask_text_def mask_encode [OF sm] mask_runes_again [of ?word, OF assms(2)] ..
  have word: "take (length w) (drop (length a) ?m) = (if ?listed w then hd w # replicate (length w - 1) 42 else w)"
    if "rs = a @ w @ b" "w \<noteq> []" "\<forall>r\<in>set w. ?word r" "a = [] \<or> \<not> ?word (last a)" "b = [] \<or> \<not> ?word (hd b)"
    for a w b
    using mask_runes_word [OF that(2-5), of ?listed] that(1,2)
    by (cases w) (simp_all add: mask_runes_length mask_run_def)
  show ?thesis
    unfolding t m again runes_encode [OF rs] runes_encode [OF sm]
  proof (intro conjI allI impI, goal_cases)
    case 1 show ?case by (rule utf8_encode [OF sm])
  next
    case 2 show ?case by (rule mask_runes_length)
  next
    case (3 i) then show ?case using mask_runes_nth [of i rs ?word ?listed] by (simp add: masked_def)
  next
    case (4 a w b) then show ?case by (rule word)
  next
    case 5 show ?case by (rule refl)
  qed
qed

text \<open>ASCII tables: letters and digits are word runes, upper case letters are lowered.\<close>

definition ascii_tables :: unicode_tables where
  "ascii_tables = \<lparr>
     ut_ToLower = map (\<lambda>c. if 65 \<le> byte c \<and> byte c \<le> 90 then char_of (byte c + 32) else c),
     ut_IsLetter = (\<lambda>r. (65 \<le> r \<and> r \<le> 90) \<or> (97 \<le> r \<and> r \<le> 122)),
     ut_IsNumber = (\<lambda>r. 48 \<le> r \<and> r \<le> 57)\<rparr>"

theorem listed_words_are_masked_witness:
  "take 4 (drop 2 (runes (mask_text ascii_tables (newProfanityFilter ascii_tables [(''en'', [''Darn''])])
     ''a DARN darning'' ''de''))) = map byte ''D***''"
proof -
  have v: "utf8_valid ''a DARN darning''" by (rule utf8_valid_ascii) code_simp
  have n: "\<not> isChatWordRune ascii_tables 42" by code_simp
  have "\<forall>c\<in>set ''a DARN darning''. byte c < 128" by code_simp
  then have r: "runes ''a DARN darning'' = map byte ''a DARN darning''" by (rule runes_ascii)
  have s: "runes ''a DARN darning'' = map byte ''a '' @ map byte ''DARN'' @ map byte '' darning''"
    unfolding r by simp
  have c: "filter_contains ascii_tables (newProfanityFilter ascii_tables [(''en'', [''Darn''])])
      (encode (map byte ''DARN'')) (chat_languages ascii_tables ''de'')" by code_simp
  have w: "\<forall>r\<in>set (map byte ''DARN''). isChatWordRune ascii_tables r"
      "\<not> isChatWordRune ascii_tables (last (map byte ''a ''))"
      "\<not> isChatWordRune ascii_tables (hd (map byte '' darning''))" by code_simp+
  have e: "hd (map byte ''DARN'') # replicate (length (map byte ''DARN'') - 1) 42 = map byte ''D***''" by code_simp
  have ne: "map byte ''DARN'' \<noteq> []" and l: "length (map byte ''DARN'') = 4" "length (map byte ''a '') = 2" by simp_all
  note whole = listed_words_are_masked [OF v n, of "newProfanityFilter ascii_tables [(''en'', [''Darn''])]" "''de''",
    THEN conjunct2, THEN conjunct2, THEN conjunct2, THEN conjunct1, rule_format,
    OF s ne bspec [OF w(1)] disjI2 [OF w(2)] disjI2 [OF w(3)]]
  show ?thesis using whole unfolding if_P [OF c] e unfolding l .
qed

text \<open>
  C35. Chat in a match. With the moderator installed, a chat request that is valid is answered by
  the moderator alone: the second validation, of the moderated action, never rejects. A canned
  phrase passes unchanged exactly when it is one of the six; authored words pass exactly
  when the terms of their account are accepted, trimmed and masked and otherwise as they were.
\<close>

theorem moderation_keeps_requests_valid:
  assumes "request_Validate (tm_lang m) (tm_limits m) r = None" "a_Kind (r_Action r) = ActionChat"
    and "hk_ModerateChat (tm_hooks m) = Some (chat_hook (NewTextChatModerator u words terms) accounts)"
  shows "moderate m seat r =
    (if a_PhraseID (r_Action r) \<noteq> [] then
       (if a_PhraseID (r_Action r) \<in> set canned_phrases then Inr (r_Action r) else Inl (GoError ''chat.invalid_phrase''))
     else case terms of
       None \<Rightarrow> Inl (GoError ''terms.required'')
     | Some check \<Rightarrow>
        (case check (accounts ! nat seat) of
           Some e \<Rightarrow> Inl e
         | None \<Rightarrow> Inr ((r_Action r)\<lparr>a_Text := mask_text u (newProfanityFilter u words)
             (trim_space (a_Text (r_Action r))) (a_UILocale (r_Action r))\<rparr>)))"
proof (cases "a_PhraseID (r_Action r) = []")
  case False
  have "a_Text (r_Action r) = []"
    using request_valid_variant [OF assms(1)] assms(2) False by (simp add: chat_body_ok_def)
  moreover have "r\<lparr>r_Action := r_Action r\<rparr> = r" by simp
  ultimately show ?thesis using assms False
    by (simp add: moderate_def chat_hook_def NewTextChatModerator_def Let_def del: set_simps)
next
  case True
  have "\<not> ValidIdentifier []" by (simp add: ValidIdentifier_def)
  then have ok: "text_ok (a_Text (r_Action r)) (tm_limits m)"
    using request_valid_variant [OF assms(1)] assms(2) True by (simp add: chat_body_ok_def)
  then obtain rs where t: "a_Text (r_Action r) = encode rs" and rs: "\<forall>r\<in>set rs. scalar r"
    using valid_obtain by (auto simp: text_ok_def)
  have ts: "\<forall>r\<in>set (trim_runes rs). scalar r" using rs trim_runes_subset by blast
  let ?masked = "mask_text u (newProfanityFilter u words) (trim_space (a_Text (r_Action r))) (a_UILocale (r_Action r))"
  have "?masked = encode (mask_runes (isChatWordRune u) (\<lambda>w. filter_contains u (newProfanityFilter u words) (encode w)
      (chat_languages u (a_UILocale (r_Action r)))) (trim_runes rs))"
    by (simp add: mask_text_def t trim_encode [OF rs] mask_encode [OF ts])
  then have masked: "text_ok ?masked (tm_limits m)" and ne: "trim_space (a_Text (r_Action r)) \<noteq> []"
    using masked_text_ok [OF ok [unfolded t] rs] by (simp_all add: t trim_encode [OF rs])
  have "request_Validate (tm_lang m) (tm_limits m) (r\<lparr>r_Action := (r_Action r)\<lparr>a_Text := ?masked\<rparr>\<rparr>) = None"
    using moderated_valid [OF assms(1,2) True masked] .
  then show ?thesis using assms True ne
    by (auto simp: moderate_def chat_hook_def NewTextChatModerator_def Let_def split: option.splits)
qed

definition sample_chat :: action_request where
  "sample_chat = sample_draw\<lparr>r_Action := (r_Action sample_draw)\<lparr>a_Kind := ActionChat, a_CopyID := [], a_Count := None,
     a_Text := ''darn it '', a_UILocale := ''en''\<rparr>\<rparr>"

definition sample_moderated :: text_match where
  "sample_moderated = sample_match\<lparr>tm_hooks := (tm_hooks sample_match)\<lparr>hk_ModerateChat := Some (chat_hook
     (NewTextChatModerator ascii_tables [(''en'', [''darn''])] (Some (\<lambda>_. None))) [''a'', ''b''])\<rparr>\<rparr>"

theorem moderation_keeps_requests_valid_witness:
  "moderate sample_moderated 1 sample_chat = Inr ((r_Action sample_chat)\<lparr>a_Text := mask_text ascii_tables
     (newProfanityFilter ascii_tables [(''en'', [''darn''])]) (trim_space ''darn it '') ''en''\<rparr>)"
proof -
  have v: "request_Validate (tm_lang sample_moderated) (tm_limits sample_moderated) sample_chat = None" by code_simp
  have k: "a_Kind (r_Action sample_chat) = ActionChat" by (simp add: sample_chat_def)
  have h: "hk_ModerateChat (tm_hooks sample_moderated) = Some (chat_hook
      (NewTextChatModerator ascii_tables [(''en'', [''darn''])] (Some (\<lambda>_. None))) [''a'', ''b''])"
    by (simp add: sample_moderated_def)
  have p: "a_PhraseID (r_Action sample_chat) = []" by code_simp
  show ?thesis
    using moderation_keeps_requests_valid [OF v k h, of 1] p by (simp add: sample_chat_def)
qed

end
