(* ===== verification/Lobby_State.thy ===== *)
theory Lobby_State
  imports NewMatch Delivery Bundles Dealing
begin

section \<open>The lobby: its state and its surroundings (\<open>internal/lobby\<close>)\<close>

text \<open>
  \<open>TextManager\<close> owns peers, rooms, members and queues behind one lock; an operation that holds it
  is a function of the manager's state. Peers and rooms are pointers shared between several
  maps, so they live in a store and the maps hold their addresses; a queue entry and a member are reached
  through one map each and are kept there as values.

  The outside world is the record \<open>surroundings\<close> of the operation: the database (\<open>TextValues\<close>), the owner's
  authority, the catalog, the identifiers and the clock. Each question asked of it takes the
  next number of \<open>mg_tick\<close>, so an answer may change from one question to the next in any way.
  The order in which a Go map is ranged over is such an answer too.
\<close>

subsection \<open>Errors\<close>

datatype lobby_error = ErrTextUnavailable | ErrTextMembership | ErrTextReady | ErrTextHost | ErrTextRevision
  | ErrTextSlowConsumer | ErrTextWalletHidden | ErrTextDevUnavailable | ErrTextDevRoleInvalid
  | ErrTextDevRoleConflict | ErrValueFence | ErrNoRows | External string | EngineError go_error
  | Joined "lobby_error list" | Diverges

text \<open>\<open>errors.Is\<close> on the errors above, and \<open>errors.Join\<close>. \<open>Diverges\<close> is no error of the code: it stands for a
  loop that does not end.\<close>

fun errors_is :: "lobby_error \<Rightarrow> lobby_error \<Rightarrow> bool" where
  "errors_is (Joined es) t \<longleftrightarrow> Joined es = t \<or> list_ex (\<lambda>e. errors_is e t) es"
| "errors_is e t \<longleftrightarrow> e = t"

definition errors_join :: "lobby_error option \<Rightarrow> lobby_error option \<Rightarrow> lobby_error option" where
  "errors_join a b = (case (a, b) of
     (None, None) \<Rightarrow> None
   | (Some x, None) \<Rightarrow> Some (Joined [x])
   | (None, Some y) \<Rightarrow> Some (Joined [y])
   | (Some x, Some y) \<Rightarrow> Some (Joined [x, y]))"

subsection \<open>Frames\<close>

record queue_state =
  qs_QueueID :: string
  qs_Status :: string
  qs_JoinedAtMS :: int
  qs_DecisionAtMS :: int
  qs_Settings :: lobby_settings

datatype payload = FrameLobby int string lobby_state | FrameQueue queue_state | FrameSnapshot snapshot
  | FramePage history_page | FrameAck string bool | FrameCode error_code | FrameError error_event
  | FrameDevRole string | FrameNotice

text \<open>An envelope: the request it answers and the payload, whose constructor is the frame's type.\<close>

type_synonym envelope = "string \<times> payload"

subsection \<open>Peers, rooms, queues\<close>

record text_peer =
  pe_AccountID :: string
  pe_ID :: string
  pe_binding :: string
  pe_frames :: "envelope list"
  pe_capacity :: int
  pe_closed :: bool

record text_member =
  me_account :: string
  me_admission :: string
  me_devRole :: string
  me_peer :: "nat option"
  me_joined :: nat
  me_originalSeat :: int
  me_ready :: "ready_ack option"

text \<open>Of a pending operation of an administrator the operations below only test the presence.\<close>

record text_room =
  rm_pendingOperator :: bool
  rm_excludedAccounts :: "string list"
  rm_pendingAbort :: string
  rm_id :: string
  rm_code :: string
  rm_path :: string
  rm_settings :: lobby_settings
  rm_settingsRevision :: nat
  rm_membershipRevision :: nat
  rm_host :: int
  rm_seats :: "(int \<times> text_member) list"
  rm_match :: "text_match option"
  rm_matchAccounts :: "string list"
  rm_rematching :: bool

record text_queue =
  qu_id :: string
  qu_peer :: nat
  qu_settings :: lobby_settings
  qu_joined :: gotime
  qu_decision :: gotime
  qu_order :: nat
  qu_choice :: bool

record text_manager =
  mg_peer :: "nat \<Rightarrow> text_peer"
  mg_room :: "nat \<Rightarrow> text_room"
  mg_peers :: "(string \<times> nat) list"
  mg_members :: "(string \<times> nat) list"
  mg_rooms :: "(string \<times> nat) list"
  mg_queues :: "(string \<times> text_queue) list"
  mg_order :: nat
  mg_owner :: string
  mg_draining :: bool
  mg_lost :: bool
  mg_maintenancePaused :: bool
  mg_dependencyUnavailable :: bool
  mg_fresh :: nat
  mg_tick :: nat

subsection \<open>The surroundings\<close>

record lobby_config =
  lc_tuning :: tuning_config
  lc_Modes :: "(mode_id \<times> bool \<times> string list) list"
  lc_RulesVersion :: string
  lc_QueueTimeoutS :: int
  lc_LeaderboardMinHumans :: int
  lc_dealing :: deal_tuning

text \<open>What the store is told of a match.\<close>

record text_match_record =
  mr_Contract :: match_contract
  mr_Policy :: tuning_config
  mr_Owner :: string
  mr_Epoch :: int
  mr_AdmissionIDs :: "string list"
  mr_Prototype :: bool
  mr_SponsorAccountID :: string

record store_award =
  sa_MatchID :: string
  sa_AccountID :: string
  sa_Kind :: award_kind
  sa_Ordinal :: int
  sa_Amount :: int
  sa_At :: gotime

record store_abandon =
  sb_MatchID :: string
  sb_AccountID :: string
  sb_Seat :: int
  sb_At :: gotime

record store_player =
  sp_AccountID :: string
  sp_Seat :: int
  sp_Role :: role
  sp_Points :: int
  sp_CorrectVotes :: int
  sp_VotesCast :: int
  sp_Survivals :: int
  sp_Pokes :: int
  sp_Absent :: bool

record store_outcome =
  so_MatchID :: string
  so_Kind :: match_outcome
  so_Winner :: "role option"
  so_At :: gotime
  so_Players :: "store_player list"

record lobby_env =
  ev_config :: lobby_config
  ev_Prototype :: "text_snapshot option"
  ev_Authority :: "(nat \<Rightarrow> lobby_error option) option"
  ev_Done :: "nat \<Rightarrow> bool"
  ev_ctx :: "nat \<Rightarrow> lobby_error option"
  ev_order :: "nat \<Rightarrow> nat \<Rightarrow> nat list"
  ev_uuid :: "nat \<Rightarrow> string"
  ev_Now :: "nat \<Rightarrow> gotime"
  ev_clock :: "nat \<Rightarrow> nat \<Rightarrow> gotime"
  ev_ToUpper :: "string \<Rightarrow> string"
  ev_message :: "lobby_error \<Rightarrow> string"
  ev_seed :: "nat \<Rightarrow> lobby_error + int"
  ev_match :: "nat \<Rightarrow> surroundings"
  ev_size :: "envelope \<Rightarrow> int"
  ev_language :: "string \<Rightarrow> bool"
  ev_uuid_parse :: "string \<Rightarrow> bool"
  ev_Resolve :: "(nat \<Rightarrow> string \<Rightarrow> string \<Rightarrow> lobby_error + text_snapshot option) option"
  ev_ResolveRelease :: "(nat \<Rightarrow> string \<Rightarrow> string \<Rightarrow> string \<Rightarrow> lobby_error + text_snapshot option) option"
  ev_CanMatch :: "(nat \<Rightarrow> string list \<Rightarrow> lobby_error option) option"
  ev_CheckAccess :: "(nat \<Rightarrow> string \<Rightarrow> lobby_settings \<Rightarrow> string \<Rightarrow> lobby_error option) option"
  ev_ModerateChat :: "(nat \<Rightarrow> string \<Rightarrow> action \<Rightarrow> go_error + action) option"
  ev_HideChat :: "(nat \<Rightarrow> string \<Rightarrow> string \<Rightarrow> lobby_error + bool) option"
  ev_Reserve :: "nat \<Rightarrow> string \<Rightarrow> string \<Rightarrow> string \<Rightarrow> string list \<Rightarrow> gotime \<Rightarrow> lobby_error option"
  ev_CancelReservation :: "nat \<Rightarrow> string \<Rightarrow> string \<Rightarrow> lobby_error option"
  ev_Prepare :: "nat \<Rightarrow> text_match_record \<Rightarrow> gotime \<Rightarrow> lobby_error option"
  ev_Start :: "nat \<Rightarrow> string \<Rightarrow> string \<Rightarrow> int \<Rightarrow> string list \<Rightarrow> gotime \<Rightarrow> lobby_error option"
  ev_CancelPrepared :: "nat \<Rightarrow> string \<Rightarrow> string \<Rightarrow> int \<Rightarrow> gotime \<Rightarrow> lobby_error option"
  ev_Interrupt :: "nat \<Rightarrow> string \<Rightarrow> string \<Rightarrow> int \<Rightarrow> gotime \<Rightarrow> lobby_error option"
  ev_Award :: "nat \<Rightarrow> string \<Rightarrow> int \<Rightarrow> store_award \<Rightarrow> lobby_error option"
  ev_Abandon :: "nat \<Rightarrow> string \<Rightarrow> int \<Rightarrow> store_abandon \<Rightarrow> lobby_error option"
  ev_Finish :: "nat \<Rightarrow> string \<Rightarrow> int \<Rightarrow> store_outcome \<Rightarrow> lobby_error option"
  ev_SettlePending :: "nat \<Rightarrow> string \<Rightarrow> lobby_error option"

abbreviation ev_tuning :: "lobby_env \<Rightarrow> tuning_config" where
  "ev_tuning e \<equiv> lc_tuning (ev_config e)"

subsection \<open>Operations of the manager\<close>

text \<open>An operation may fail and keeps its effects when it does.\<close>

type_synonym 'a act = "text_manager \<Rightarrow> (lobby_error + 'a) \<times> text_manager"

definition give :: "'a \<Rightarrow> 'a act" where
  "give x s = (Inr x, s)"

definition raise :: "lobby_error \<Rightarrow> 'a act" where
  "raise e s = (Inl e, s)"

definition reject_when :: "bool \<Rightarrow> lobby_error \<Rightarrow> 'a act \<Rightarrow> 'a act" where
  "reject_when b e f = (if b then raise e else f)"

definition bind_act :: "'a act \<Rightarrow> ('a \<Rightarrow> 'b act) \<Rightarrow> 'b act" where
  "bind_act f g s = (case f s of (Inl e, s') \<Rightarrow> (Inl e, s') | (Inr x, s') \<Rightarrow> g x s')"

definition after :: "unit act \<Rightarrow> 'b act \<Rightarrow> 'b act" where
  "after f g = bind_act f (\<lambda>_. g)"

definition with_state :: "(text_manager \<Rightarrow> 'a act) \<Rightarrow> 'a act" where
  "with_state f s = f s s"

definition change :: "(text_manager \<Rightarrow> text_manager) \<Rightarrow> unit act" where
  "change f s = (Inr (), f s)"

text \<open>\<open>_ = f()\<close>: the error is dropped, the effects stay.\<close>

definition ignoring :: "unit act \<Rightarrow> unit act" where
  "ignoring f s = (Inr (), snd (f s))"

text \<open>A question to the outside world.\<close>

definition ask :: "(nat \<Rightarrow> 'a) \<Rightarrow> 'a act" where
  "ask f s = (Inr (f (mg_tick s)), s\<lparr>mg_tick := Suc (mg_tick s)\<rparr>)"

definition call :: "(nat \<Rightarrow> lobby_error option) \<Rightarrow> unit act" where
  "call f = bind_act (ask f) (\<lambda>r. case r of None \<Rightarrow> give () | Some e \<Rightarrow> raise e)"

text \<open>Ranging over a map: the entries in an order of the runtime's choosing.\<close>

definition visiting :: "lobby_env \<Rightarrow> 'a list \<Rightarrow> 'a list act" where
  "visiting e xs = bind_act (ask (\<lambda>t. ev_order e t (length xs))) (\<lambda>is.
     give (if mset is = mset [0..<length xs] then map (nth xs) is else xs))"

fun each_act :: "('a \<Rightarrow> unit act) \<Rightarrow> 'a list \<Rightarrow> unit act" where
  "each_act f [] = give ()"
| "each_act f (x # xs) = after (f x) (each_act f xs)"

text \<open>\<open>result = errors.Join(result, f(x))\<close> over a list; the accumulated error is the value.\<close>

definition joining :: "lobby_error option \<Rightarrow> unit act \<Rightarrow> lobby_error option act" where
  "joining acc f s = (case f s of (r, s') \<Rightarrow> (Inr (errors_join acc (err_of r)), s'))"

fun each_join :: "('a \<Rightarrow> unit act) \<Rightarrow> 'a list \<Rightarrow> lobby_error option \<Rightarrow> lobby_error option act" where
  "each_join f [] acc = give acc"
| "each_join f (x # xs) acc = bind_act (joining acc (f x)) (each_join f xs)"

definition returning :: "lobby_error option \<Rightarrow> unit act" where
  "returning r = (case r of None \<Rightarrow> give () | Some e \<Rightarrow> raise e)"

subsection \<open>Reading and writing the store\<close>

definition upd_peer :: "nat \<Rightarrow> (text_peer \<Rightarrow> text_peer) \<Rightarrow> text_manager \<Rightarrow> text_manager" where
  "upd_peer p f s = s\<lparr>mg_peer := (mg_peer s)(p := f (mg_peer s p))\<rparr>"

definition upd_room :: "nat \<Rightarrow> (text_room \<Rightarrow> text_room) \<Rightarrow> text_manager \<Rightarrow> text_manager" where
  "upd_room r f s = s\<lparr>mg_room := (mg_room s)(r := f (mg_room s r))\<rparr>"

definition set_member :: "int \<Rightarrow> text_member \<Rightarrow> text_room \<Rightarrow> text_room" where
  "set_member seat v r = r\<lparr>rm_seats := AList.update seat v (rm_seats r)\<rparr>"

definition upd_member :: "int \<Rightarrow> (text_member \<Rightarrow> text_member) \<Rightarrow> text_room \<Rightarrow> text_room" where
  "upd_member seat f r = (case map_of (rm_seats r) seat of None \<Rightarrow> r | Some v \<Rightarrow> set_member seat (f v) r)"

definition drop_seat :: "int \<Rightarrow> text_room \<Rightarrow> text_room" where
  "drop_seat seat r = r\<lparr>rm_seats := AList.delete seat (rm_seats r)\<rparr>"

definition member_seat :: "text_room \<Rightarrow> string \<Rightarrow> (int \<times> text_member) option" where
  "member_seat r account = find (\<lambda>(seat, v). me_account v = account) (rm_seats r)"

definition is_current :: "text_manager \<Rightarrow> nat \<Rightarrow> bool" where
  "is_current s p \<longleftrightarrow> \<not> pe_closed (mg_peer s p) \<and> map_of (mg_peers s) (pe_AccountID (mg_peer s p)) = Some p"

definition admissionPaused :: "text_manager \<Rightarrow> bool" where
  "admissionPaused s \<longleftrightarrow> mg_draining s \<or> mg_maintenancePaused s \<or> mg_dependencyUnavailable s"

definition open_member :: "text_manager \<Rightarrow> text_member \<Rightarrow> bool" where
  "open_member s v = (case me_peer v of None \<Rightarrow> False | Some p \<Rightarrow> \<not> pe_closed (mg_peer s p))"

definition invalidate :: "text_room \<Rightarrow> text_room" where
  "invalidate r = r\<lparr>rm_seats := map (\<lambda>(seat, v). (seat, v\<lparr>me_ready := None\<rparr>)) (rm_seats r)\<rparr>"

text \<open>The accounts of a room in the order of their seats.\<close>

definition room_accounts :: "text_room \<Rightarrow> string list" where
  "room_accounts r = List.map_filter (\<lambda>seat. map_option me_account (map_of (rm_seats r) seat))
     (map int [0..<nat (ls_Size (rm_settings r))])"

text \<open>\<open>seat := 0; for r.seats[seat] != nil { seat++ }\<close>: at most as many steps as there are seats.\<close>

fun first_free :: "nat \<Rightarrow> int \<Rightarrow> (int \<times> text_member) list \<Rightarrow> int" where
  "first_free 0 seat seats = seat"
| "first_free (Suc n) seat seats = (if map_of seats seat = None then seat else first_free n (seat + 1) seats)"

definition free_seat :: "text_room \<Rightarrow> int" where
  "free_seat r = first_free (length (rm_seats r)) 0 (rm_seats r)"

end
