(* ===== verification/Lobby_Frames.thy ===== *)
theory Lobby_Frames
  imports Lobby_State
begin

section \<open>Authority, frames and broadcasts (\<open>lobby/text_manager.go\<close>, \<open>text_runtime.go\<close>)\<close>

subsection \<open>Authority\<close>

definition closePeer :: "nat \<Rightarrow> text_manager \<Rightarrow> text_manager" where
  "closePeer p = upd_peer p (\<lambda>v. v\<lparr>pe_closed := True\<rparr>)"

definition closePeer_opt :: "nat option \<Rightarrow> text_manager \<Rightarrow> text_manager" where
  "closePeer_opt p s = (case p of None \<Rightarrow> s | Some q \<Rightarrow> closePeer q s)"

definition loseAuthority :: "text_manager \<Rightarrow> text_manager" where
  "loseAuthority s = fold (\<lambda>(a, p). closePeer p) (mg_peers s) (s\<lparr>mg_lost := True, mg_draining := True\<rparr>)"

definition lose :: "'a act" where
  "lose = after (change loseAuthority) (raise ErrTextUnavailable)"

definition checkAuthority :: "lobby_env \<Rightarrow> unit act" where
  "checkAuthority e = with_state (\<lambda>s. reject_when (mg_lost s) ErrTextUnavailable (after (call (ev_ctx e))
     (case ev_Authority e of
        None \<Rightarrow> give ()
      | Some check \<Rightarrow> bind_act (ask check) (\<lambda>r.
          case r of
            Some err \<Rightarrow> bind_act (ask (ev_ctx e)) (\<lambda>c. bind_act (ask (ev_Done e)) (\<lambda>done.
              if (case c of None \<Rightarrow> False | Some x \<Rightarrow> errors_is err x) \<and> \<not> done then raise err else lose))
          | None \<Rightarrow> bind_act (ask (ev_Done e)) (\<lambda>done. if done then lose else give ())))))"

text \<open>\<open>select { case <-m.deps.Authority.Done(): ... }\<close>\<close>

definition authority_done :: "lobby_env \<Rightarrow> unit act" where
  "authority_done e = (case ev_Authority e of
     None \<Rightarrow> give ()
   | Some _ \<Rightarrow> bind_act (ask (ev_Done e)) (\<lambda>done. if done then lose else give ()))"

subsection \<open>\<open>emit\<close>\<close>

definition wireLimits :: "lobby_env \<Rightarrow> limits" where
  "wireLimits e = match_limits (ev_tuning e)"

definition slow_consumer :: "nat \<Rightarrow> unit act" where
  "slow_consumer p = after (change (closePeer p)) (raise ErrTextSlowConsumer)"

definition emit :: "lobby_env \<Rightarrow> nat \<Rightarrow> string \<Rightarrow> payload \<Rightarrow> unit act" where
  "emit e p request x =
     after (authority_done e) (with_state (\<lambda>s.
       reject_when (pe_closed (mg_peer s p)) ErrTextMembership
         (if ev_size e (request, x) > MaxFrameBytes (wireLimits e) then slow_consumer p
          else reject_when (mg_lost s) ErrTextUnavailable (after (authority_done e)
            (if int (length (pe_frames (mg_peer s p))) < pe_capacity (mg_peer s p)
             then change (upd_peer p (\<lambda>v. v\<lparr>pe_frames := pe_frames v @ [(request, x)]\<rparr>))
             else slow_consumer p)))))"

text \<open>\<open>Send\<close>, and the network writer that takes a frame off the channel.\<close>

definition Send :: "lobby_env \<Rightarrow> nat \<Rightarrow> string \<Rightarrow> payload \<Rightarrow> unit act" where
  "Send e p request x = with_state (\<lambda>s. reject_when (\<not> is_current s p) ErrTextMembership (emit e p request x))"

definition take_frame :: "nat \<Rightarrow> text_manager \<Rightarrow> text_manager" where
  "take_frame p = upd_peer p (\<lambda>v. v\<lparr>pe_frames := tl (pe_frames v)\<rparr>)"

subsection \<open>The lobby view\<close>

definition devEnabled :: "lobby_env \<Rightarrow> bool" where
  "devEnabled e = (case ev_Prototype e of None \<Rightarrow> False
     | Some snap \<Rightarrow> ma_Synthetic (bu_Manifest (sx_bundle snap)) \<and> \<not> is_prod (ev_tuning e))"

definition devRoleFrame :: "lobby_env \<Rightarrow> nat \<Rightarrow> nat \<Rightarrow> unit act" where
  "devRoleFrame e r p = with_state (\<lambda>s.
     if \<not> devEnabled e then give ()
     else case member_seat (mg_room s r) (pe_AccountID (mg_peer s p)) of
       None \<Rightarrow> raise ErrTextMembership
     | Some (seat, v) \<Rightarrow> emit e p [] (FrameDevRole (if me_devRole v = [] then ''random'' else me_devRole v)))"

definition lobby_seats :: "text_manager \<Rightarrow> text_room \<Rightarrow> lobby_seat list" where
  "lobby_seats s r = List.map_filter (\<lambda>seat. map_option
       (\<lambda>v. \<lparr>lb_Seat = seat, lb_Connected = open_member s v, lb_Ready = me_ready v\<rparr>) (map_of (rm_seats r) seat))
     (map int [0..<nat (ls_Size (rm_settings r))])"

text \<open>The seat \<open>my\<close>: the last one of the account, \<open>-1\<close> if there is none.\<close>

definition my_seat :: "text_room \<Rightarrow> string \<Rightarrow> int" where
  "my_seat r account = fold (\<lambda>seat my. case map_of (rm_seats r) seat of
       None \<Rightarrow> my | Some v \<Rightarrow> if me_account v = account then seat else my)
     (map int [0..<nat (ls_Size (rm_settings r))]) (-1)"

definition lobby_state_of :: "text_manager \<Rightarrow> text_room \<Rightarrow> lobby_state" where
  "lobby_state_of s r = \<lparr>lo_ProtocolVersion = 2, lo_RoomID = rm_id r, lo_Settings = rm_settings r,
     lo_SettingsRevision = rm_settingsRevision r, lo_MembershipRevision = rm_membershipRevision r,
     lo_HostSeat = rm_host r, lo_Seats = lobby_seats s r\<rparr>"

text \<open>With a match running readiness is obsolete and a connected seat stands in for an absent host.\<close>

definition match_view :: "lobby_state \<Rightarrow> lobby_state" where
  "match_view v =
     (let seats = map (\<lambda>x. x\<lparr>lb_Ready := None\<rparr>) (lo_Seats v);
          hostConnected = list_ex (\<lambda>x. lb_Seat x = lo_HostSeat v \<and> lb_Connected x) seats;
          host = (if hostConnected then lo_HostSeat v
                  else case find lb_Connected seats of None \<Rightarrow> lo_HostSeat v | Some x \<Rightarrow> lb_Seat x)
      in v\<lparr>lo_Seats := seats, lo_HostSeat := host\<rparr>)"

definition lobby_view :: "text_manager \<Rightarrow> text_room \<Rightarrow> lobby_state" where
  "lobby_view s r = (if rm_match r = None then lobby_state_of s r else match_view (lobby_state_of s r))"

definition lobby :: "lobby_env \<Rightarrow> nat \<Rightarrow> nat \<Rightarrow> unit act" where
  "lobby e r p = with_state (\<lambda>s. let room = mg_room s r; v = lobby_view s room in
     case lobby_Validate (ev_language e) v of
       Some err \<Rightarrow> raise (EngineError err)
     | None \<Rightarrow> after (emit e p [] (FrameLobby (my_seat room (pe_AccountID (mg_peer s p))) (rm_code room) v))
         (devRoleFrame e r p))"

text \<open>The member at a seat when the loop reaches it.\<close>

definition with_member :: "nat \<Rightarrow> int \<Rightarrow> (text_member \<Rightarrow> unit act) \<Rightarrow> unit act" where
  "with_member r seat f = with_state (\<lambda>s. case map_of (rm_seats (mg_room s r)) seat of None \<Rightarrow> give () | Some v \<Rightarrow> f v)"

definition visit_seats :: "lobby_env \<Rightarrow> nat \<Rightarrow> int list act" where
  "visit_seats e r = with_state (\<lambda>s. visiting e (map fst (rm_seats (mg_room s r))))"

definition broadcastLobby :: "lobby_env \<Rightarrow> nat \<Rightarrow> unit act" where
  "broadcastLobby e r = bind_act (visit_seats e r) (each_act (\<lambda>seat. with_member r seat (\<lambda>v.
     case me_peer v of None \<Rightarrow> give () | Some p \<Rightarrow> ignoring (lobby e r p))))"

subsection \<open>Match snapshots\<close>

definition authored_chat :: "public_action \<Rightarrow> int option" where
  "authored_chat ev = (if e_Kind ev \<noteq> EvChat \<or> e_Text ev = [] then None else ac_Seat (e_Actor ev))"

fun hidden_authors :: "lobby_env \<Rightarrow> string \<Rightarrow> string list \<Rightarrow> (int \<times> bool) list \<Rightarrow> public_action list \<Rightarrow> (int \<times> bool) list act" where
  "hidden_authors e viewer accounts hidden [] = give hidden"
| "hidden_authors e viewer accounts hidden (ev # evs) =
     (case (authored_chat ev, ev_HideChat e) of
        (Some author, Some hide) \<Rightarrow>
          if map_of hidden author \<noteq> None then hidden_authors e viewer accounts hidden evs
          else if \<not> in_range author accounts then raise ErrTextMembership
          else bind_act (ask (\<lambda>t. hide t viewer (Prelude.at accounts author))) (\<lambda>r. case r of
            Inl err \<Rightarrow> raise err
          | Inr h \<Rightarrow> hidden_authors e viewer accounts (AList.update author h hidden) evs)
      | _ \<Rightarrow> hidden_authors e viewer accounts hidden evs)"

definition hide_chat :: "(int \<times> bool) list \<Rightarrow> public_action \<Rightarrow> public_action" where
  "hide_chat hidden ev = (case authored_chat ev of
     None \<Rightarrow> ev
   | Some author \<Rightarrow> if map_of hidden author = Some True then ev\<lparr>e_Text := [], e_PhraseID := ''chat.hidden''\<rparr> else ev)"

text \<open>What an envelope of type \<open>history_page\<close> adds to its payload.\<close>

definition page_overhead :: int where
  "page_overhead = int (length ''{#v#:2,#type#:#history_page#,#payload#:null}'') - 4"

definition paged_snapshot :: "lobby_env \<Rightarrow> text_match \<Rightarrow> snapshot \<Rightarrow> go_error + (snapshot \<times> history_page list)" where
  "paged_snapshot e m s =
     (if ev_size e ([], FrameSnapshot s) > MaxFrameBytes (wireLimits e)
      then (let l = wireLimits e in
        case PaginateHistory (tm_sha m) (tm_lang m) (l\<lparr>MaxFrameBytes := MaxFrameBytes l - page_overhead\<rparr>)
               (mc_MatchID (sn_Contract s)) (sn_SnapshotID s) (cu_StreamEpoch (sn_Cursor s)) (slice (sn_History s)) of
          Inl err \<Rightarrow> Inl err
        | Inr (manifest, pages) \<Rightarrow> Inr (s\<lparr>sn_History := Some [], sn_HistoryPages := Some manifest\<rparr>, pages))
      else Inr (s, []))"

definition set_match :: "nat \<Rightarrow> text_match option \<Rightarrow> text_manager \<Rightarrow> text_manager" where
  "set_match r m = upd_room r (\<lambda>v. v\<lparr>rm_match := m\<rparr>)"

definition send_snapshot :: "lobby_env \<Rightarrow> nat \<Rightarrow> text_match \<Rightarrow> snapshot \<Rightarrow> unit act" where
  "send_snapshot e p m s =
     (case paged_snapshot e m s of
        Inl err \<Rightarrow> raise (EngineError err)
      | Inr (s', pages) \<Rightarrow>
          (case snapshot_Validate (tm_lang m) (wireLimits e) s' of
             Some err \<Rightarrow> raise (EngineError err)
           | None \<Rightarrow> after (emit e p [] (FrameSnapshot s')) (each_act (\<lambda>page. emit e p [] (FramePage page)) pages)))"

text \<open>Called with a match in the room; the snapshot it takes advances the recipient's stream.\<close>

definition room_snapshot :: "lobby_env \<Rightarrow> nat \<Rightarrow> int \<Rightarrow> nat \<Rightarrow> unit act" where
  "room_snapshot e r seat p = bind_act (ask (ev_Now e)) (\<lambda>now. with_state (\<lambda>s.
     case rm_match (mg_room s r) of
       None \<Rightarrow> raise (External ''nil match'')
     | Some m \<Rightarrow>
        (case SnapshotProjection m seat now of
           (Inl err, m1) \<Rightarrow> after (change (set_match r (Some m1))) (raise (EngineError err))
         | (Inr view, m1) \<Rightarrow> after (change (set_match r (Some m1)))
             (bind_act (hidden_authors e (pe_AccountID (mg_peer s p)) (rm_matchAccounts (mg_room s r)) [] (slice (sn_History view)))
               (\<lambda>hidden. send_snapshot e p m1
                 (view\<lparr>sn_History := map_option (map (hide_chat hidden)) (sn_History view), sn_HistoryPages := None\<rparr>))))))"

subsection \<open>Broadcasts of a match\<close>

definition match_phase :: "text_match \<Rightarrow> phase" where
  "match_phase m = fst (Clock m)"

definition finished :: "text_room \<Rightarrow> bool" where
  "finished r = (case rm_match r of None \<Rightarrow> False | Some m \<Rightarrow> match_phase m = PhaseVerdict)"

definition closing_on_error :: "nat \<Rightarrow> unit act \<Rightarrow> unit act" where
  "closing_on_error p f s = (case f s of (Inl err, s') \<Rightarrow> (Inl err, closePeer p s') | r \<Rightarrow> r)"

definition broadcastMatchFrames :: "lobby_env \<Rightarrow> nat \<Rightarrow> unit act" where
  "broadcastMatchFrames e r = with_state (\<lambda>s0. bind_act
     (each_join (\<lambda>seat. with_member r seat (\<lambda>v. with_state (\<lambda>s.
        case me_peer v of
          Some p \<Rightarrow> if is_current s p then closing_on_error p (room_snapshot e r seat p) else give ()
        | None \<Rightarrow> give ())))
      (map int [0..<nat (ls_Size (rm_settings (mg_room s0 r)))]) None)
     returning)"

definition prune_seat :: "nat \<Rightarrow> int \<Rightarrow> unit act" where
  "prune_seat r seat = with_member r seat (\<lambda>v. with_state (\<lambda>s.
     if open_member s v then give ()
     else change (\<lambda>s. let s1 = (if map_of (mg_members s) (me_account v) = Some r
            then s\<lparr>mg_members := AList.delete (me_account v) (mg_members s)\<rparr> else s)
          in upd_room r (drop_seat seat) s1)))"

definition drop_empty_room :: "nat \<Rightarrow> text_manager \<Rightarrow> text_manager" where
  "drop_empty_room r s =
     (if rm_seats (mg_room s r) = [] then s\<lparr>mg_rooms := AList.delete (rm_code (mg_room s r)) (mg_rooms s)\<rparr> else s)"

definition pruneFinishedRoom :: "lobby_env \<Rightarrow> nat \<Rightarrow> unit act" where
  "pruneFinishedRoom e r = with_state (\<lambda>s.
     if \<not> finished (mg_room s r) then give ()
     else after (bind_act (visit_seats e r) (each_act (prune_seat r))) (change (drop_empty_room r)))"

text \<open>\<open>defer m.pruneFinishedRoom(r)\<close>\<close>

definition deferring :: "unit act \<Rightarrow> 'a act \<Rightarrow> 'a act" where
  "deferring g f s = (case f s of (x, s') \<Rightarrow> (x, snd (g s')))"

definition broadcastMatch :: "lobby_env \<Rightarrow> nat \<Rightarrow> unit act" where
  "broadcastMatch e r = deferring (pruneFinishedRoom e r) (broadcastMatchFrames e r)"

end
