(* ===== verification/Lobby_Queues.thy ===== *)
theory Lobby_Queues
  imports Lobby_Frames "HOL-Library.List_Lexorder" "HOL-Library.Char_ord"
begin

section \<open>Admission and queues (\<open>lobby/text_manager.go\<close>, \<open>text_queue.go\<close>)\<close>

subsection \<open>Release and access\<close>

definition usable_release :: "lobby_env \<Rightarrow> lobby_settings \<Rightarrow> text_manifest \<Rightarrow> bool" where
  "usable_release e st m \<longleftrightarrow> ma_Language m = ls_ContentLanguage st \<and> ma_RulesVersion m = ls_RulesVersion st
     \<and> (ls_PackReleaseID st = [] \<or> ma_ReleaseID m = ls_PackReleaseID st)
     \<and> \<not> (ev_Prototype e = None \<and> ma_Synthetic m)"

definition find_release :: "lobby_env \<Rightarrow> lobby_settings \<Rightarrow> text_snapshot option act" where
  "find_release e st = (case ev_Prototype e of
     Some snap \<Rightarrow> give (Some snap)
   | None \<Rightarrow>
      (let (enabled, languages) = (case map_of (lc_Modes (ev_config e)) (ls_ModeID st) of
             None \<Rightarrow> (False, []) | Some c \<Rightarrow> c) in
       reject_when (\<not> enabled \<or> ev_Resolve e = None \<and> ev_ResolveRelease e = None) ErrTextUnavailable
         (reject_when (ls_ContentLanguage st \<notin> set languages) ErrTextUnavailable
           (bind_act
             (case (ls_PackReleaseID st = [], ev_ResolveRelease e, ev_Resolve e) of
                (False, Some f, _) \<Rightarrow> ask (\<lambda>t. f t (ls_ContentLanguage st) (ls_RulesVersion st) (ls_PackReleaseID st))
              | (_, _, Some f) \<Rightarrow> ask (\<lambda>t. f t (ls_ContentLanguage st) (ls_RulesVersion st))
              | _ \<Rightarrow> raise ErrTextUnavailable)
             (\<lambda>r. case r of Inl err \<Rightarrow> raise err | Inr snap \<Rightarrow> give snap)))))"

definition resolve :: "lobby_env \<Rightarrow> lobby_settings \<Rightarrow> text_snapshot act" where
  "resolve e st =
     reject_when (\<not> mode_valid (ls_ModeID st) \<or> (ls_Size st \<noteq> 4 \<and> ls_Size st \<noteq> 6) \<or> \<not> ev_language e (ls_ContentLanguage st)
        \<or> ls_RulesVersion st \<noteq> lc_RulesVersion (ev_config e)) ErrTextUnavailable
       (bind_act (find_release e st) (\<lambda>found. case found of
          None \<Rightarrow> raise ErrTextUnavailable
        | Some snap \<Rightarrow> (let m = bu_Manifest (sx_bundle snap) in
            if usable_release e st m \<and> ls_ModeID st \<in> set (ma_Modes m) then give snap else raise ErrTextUnavailable)))"

definition access :: "lobby_env \<Rightarrow> string \<Rightarrow> lobby_settings \<Rightarrow> string \<Rightarrow> unit act" where
  "access e account st path = after (checkAuthority e) (with_state (\<lambda>s.
     reject_when (admissionPaused s) ErrTextUnavailable
       (reject_when (ls_PackReleaseID st = []) ErrTextUnavailable
         (bind_act (resolve e st) (\<lambda>_.
           if ev_Prototype e \<noteq> None then give ()
           else case ev_CheckAccess e of
             None \<Rightarrow> raise ErrTextUnavailable
           | Some f \<Rightarrow> call (\<lambda>t. f t account st path))))))"

definition canMatch :: "lobby_env \<Rightarrow> string list \<Rightarrow> unit act" where
  "canMatch e accounts = (case ev_CanMatch e of
     Some f \<Rightarrow> call (\<lambda>t. f t accounts)
   | None \<Rightarrow> reject_when (ev_Prototype e = None) ErrTextUnavailable (give ()))"

text \<open>
  \<open>reserve\<close> passes the binding of the account's open connection along. It returns the identifier together with
  the error; every caller but \<open>start\<close> drops the identifier then.
\<close>

definition peer_bindings :: "text_manager \<Rightarrow> string \<Rightarrow> string list" where
  "peer_bindings s account = (case map_of (mg_peers s) account of None \<Rightarrow> [] | Some p \<Rightarrow> [pe_binding (mg_peer s p)])"

definition reservation :: "lobby_env \<Rightarrow> string \<Rightarrow> string \<Rightarrow> (string \<times> lobby_error option) act" where
  "reservation e account path = after (checkAuthority e)
     (bind_act (ask (ev_uuid e)) (\<lambda>ident. with_state (\<lambda>s. bind_act (ask (ev_Now e)) (\<lambda>now.
       bind_act (ask (\<lambda>t. ev_Reserve e t ident account path (peer_bindings s account) now)) (\<lambda>err.
         give (ident, err))))))"

definition reserve :: "lobby_env \<Rightarrow> string \<Rightarrow> string \<Rightarrow> string act" where
  "reserve e account path = bind_act (reservation e account path) (\<lambda>(ident, err).
     after (returning err) (give ident))"

text \<open>\<open>release\<close>\<close>

definition release_seat :: "lobby_env \<Rightarrow> nat \<Rightarrow> int \<Rightarrow> unit act" where
  "release_seat e r seat = with_member r seat (\<lambda>v.
     if me_admission v = [] then give ()
     else after (call (\<lambda>t. ev_CancelReservation e t (me_admission v) (me_account v)))
       (change (upd_room r (upd_member seat (\<lambda>v. v\<lparr>me_admission := []\<rparr>)))))"

subsection \<open>New rooms\<close>

text \<open>
  A code is drawn until no room has it. The model draws at most one more than there are rooms;
  \<open>Diverges\<close> stands for a source of identifiers whose codes were all taken.
\<close>

definition room_code :: "lobby_env \<Rightarrow> string \<Rightarrow> string" where
  "room_code e u = take 6 (ev_ToUpper e (filter (\<lambda>c. c \<noteq> CHR ''-'') u))"

fun draw_code :: "lobby_env \<Rightarrow> nat \<Rightarrow> string act" where
  "draw_code e 0 = raise Diverges"
| "draw_code e (Suc n) = bind_act (ask (ev_uuid e)) (\<lambda>u. with_state (\<lambda>s.
     if map_of (mg_rooms s) (room_code e u) = None then give (room_code e u) else draw_code e n))"

definition install_room :: "string \<Rightarrow> string \<Rightarrow> lobby_settings \<Rightarrow> string \<Rightarrow> text_manager \<Rightarrow> text_manager" where
  "install_room ident code st path s = s\<lparr>
     mg_room := (mg_room s)(mg_fresh s := \<lparr>rm_pendingOperator = False, rm_excludedAccounts = [], rm_pendingAbort = [],
       rm_id = ident, rm_code = code, rm_path = path, rm_settings = st, rm_settingsRevision = 1,
       rm_membershipRevision = 1, rm_host = 0, rm_seats = [], rm_match = None, rm_matchAccounts = [], rm_rematching = False\<rparr>),
     mg_rooms := AList.update code (mg_fresh s) (mg_rooms s), mg_fresh := Suc (mg_fresh s)\<rparr>"

definition newRoom :: "lobby_env \<Rightarrow> lobby_settings \<Rightarrow> string \<Rightarrow> nat act" where
  "newRoom e st path = bind_act (with_state (\<lambda>s. draw_code e (Suc (length (mg_rooms s))))) (\<lambda>code.
     bind_act (ask (ev_uuid e)) (\<lambda>id. with_state (\<lambda>s.
       after (change (install_room id code st path)) (give (mg_fresh s)))))"

subsection \<open>The queue of an account\<close>

definition queueView :: "text_queue \<Rightarrow> string \<Rightarrow> queue_state" where
  "queueView q status = \<lparr>qs_QueueID = qu_id q, qs_Status = status, qs_JoinedAtMS = unix_milli (qu_joined q),
     qs_DecisionAtMS = unix_milli (qu_decision q), qs_Settings = qu_settings q\<rparr>"

definition account_of :: "text_manager \<Rightarrow> nat \<Rightarrow> string" where
  "account_of s p = pe_AccountID (mg_peer s p)"

definition leaveQueue :: "lobby_env \<Rightarrow> nat \<Rightarrow> unit act" where
  "leaveQueue e p = with_state (\<lambda>s. case map_of (mg_queues s) (account_of s p) of
     None \<Rightarrow> give ()
   | Some q \<Rightarrow>
       if qu_peer q \<noteq> p then give ()
       else after (call (\<lambda>t. ev_CancelReservation e t (qu_id q) (account_of s p)))
        (after (change (\<lambda>s. s\<lparr>mg_queues := AList.delete (account_of s p) (mg_queues s)\<rparr>))
         (with_state (\<lambda>s. if pe_closed (mg_peer s p) then give ()
            else emit e p [] (FrameQueue (queueView q ''left''))))))"

definition sortedQueue :: "text_manager \<Rightarrow> text_queue list" where
  "sortedQueue s = sort_key qu_order (filter (\<lambda>q. is_current s (qu_peer q)) (map snd (mg_queues s)))"

definition new_member :: "string \<Rightarrow> string \<Rightarrow> nat \<Rightarrow> nat \<Rightarrow> text_member" where
  "new_member account admission p joined = \<lparr>me_account = account, me_admission = admission, me_devRole = [],
     me_peer = Some p, me_joined = joined, me_originalSeat = -1, me_ready = None\<rparr>"

text \<open>Seating an account: the member in the first free seat and the account's entry.\<close>

definition sit_down :: "nat \<Rightarrow> text_member \<Rightarrow> text_manager \<Rightarrow> text_manager" where
  "sit_down r v s = (upd_room r (\<lambda>room. set_member (free_seat room) v room) s)
     \<lparr>mg_members := AList.update (me_account v) r (mg_members s)\<rparr>"

text \<open>A change of the table: the next membership revision, and nobody is ready any more.\<close>

definition reshuffled :: "text_room \<Rightarrow> text_room" where
  "reshuffled room = invalidate (room\<lparr>rm_membershipRevision := Suc (rm_membershipRevision room)\<rparr>)"

definition assign :: "lobby_env \<Rightarrow> nat \<Rightarrow> text_queue \<Rightarrow> unit act" where
  "assign e r q = with_state (\<lambda>s. let account = account_of s (qu_peer q) in
     after (change (\<lambda>s. upd_room r reshuffled
        ((sit_down r (new_member account (qu_id q) (qu_peer q) (qu_order q)) s)
           \<lparr>mg_queues := AList.delete account (mg_queues s)\<rparr>)))
       (ignoring (emit e (qu_peer q) [] (FrameQueue (queueView q ''assigned'')))))"

subsection \<open>Matching\<close>

definition succeeds :: "unit act \<Rightarrow> bool act" where
  "succeeds f s = (case f s of (Inl _, s') \<Rightarrow> (Inr False, s') | (Inr _, s') \<Rightarrow> (Inr True, s'))"

text \<open>Existing rematches receive the next eligible players of the queue.\<close>

fun refill :: "lobby_env \<Rightarrow> nat \<Rightarrow> text_queue list \<Rightarrow> unit act" where
  "refill e r [] = give ()"
| "refill e r (q # qs) = with_state (\<lambda>s. let room = mg_room s r; account = account_of s (qu_peer q) in
     if int (length (rm_seats room)) = ls_Size (rm_settings room) then give ()
     else if qu_settings q \<noteq> rm_settings room \<or> account \<in> set (rm_excludedAccounts room) then refill e r qs
     else bind_act (succeeds (canMatch e (room_accounts room @ [account]))) (\<lambda>ok.
       if ok then after (assign e r q) (refill e r qs) else refill e r qs))"

definition refill_room :: "lobby_env \<Rightarrow> string \<Rightarrow> unit act" where
  "refill_room e code = with_state (\<lambda>s. case map_of (mg_rooms s) code of
     None \<Rightarrow> give ()
   | Some r \<Rightarrow> (let room = mg_room s r in
       if \<not> rm_rematching room \<or> rm_path room \<noteq> ''quick_play'' \<or> rm_match room \<noteq> None \<or> rm_pendingOperator room then give ()
       else after (refill e r (sortedQueue s)) (broadcastLobby e r)))"

definition still_queued :: "text_manager \<Rightarrow> text_queue \<Rightarrow> bool" where
  "still_queued s q = (case map_of (mg_queues s) (account_of s (qu_peer q)) of
     None \<Rightarrow> False | Some q' \<Rightarrow> qu_order q' = qu_order q)"

text \<open>The group that \<open>first\<close> leads: later entries with the same settings that may play together.\<close>

fun gather :: "lobby_env \<Rightarrow> text_queue \<Rightarrow> text_queue list \<Rightarrow> string list \<Rightarrow> text_queue list \<Rightarrow> text_queue list act" where
  "gather e first party accounts [] = give party"
| "gather e first party accounts (q # qs) = with_state (\<lambda>s.
     if int (length party) = ls_Size (qu_settings first) then give party
     else if \<not> still_queued s q \<or> qu_settings q \<noteq> qu_settings first then gather e first party accounts qs
     else (let candidate = accounts @ [account_of s (qu_peer q)] in
       bind_act (succeeds (canMatch e candidate)) (\<lambda>ok.
         if ok then gather e first (party @ [q]) candidate qs else gather e first party accounts qs)))"

definition form_group :: "lobby_env \<Rightarrow> text_queue \<Rightarrow> text_queue list \<Rightarrow> unit act" where
  "form_group e first rest = with_state (\<lambda>s. let account = account_of s (qu_peer first) in
     if \<not> still_queued s first then give ()
     else bind_act (gather e first [first] [account] rest) (\<lambda>party.
       if int (length party) \<noteq> ls_Size (qu_settings first) then give ()
       else bind_act (succeeds (access e account (qu_settings first) ''quick_play'')) (\<lambda>ok.
         if \<not> ok then give ()
         else bind_act (newRoom e (qu_settings first) ''quick_play'') (\<lambda>r.
           after (each_act (assign e r) party) (broadcastLobby e r)))))"

fun form_groups :: "lobby_env \<Rightarrow> text_queue list \<Rightarrow> unit act" where
  "form_groups e [] = give ()"
| "form_groups e (first # rest) = after (form_group e first rest) (form_groups e rest)"

definition matchQueues :: "lobby_env \<Rightarrow> unit act" where
  "matchQueues e = with_state (\<lambda>s.
     if admissionPaused s then give ()
     else after (each_act (refill_room e) (sort (map fst (mg_rooms s))))
       (with_state (\<lambda>s. form_groups e (sortedQueue s))))"

subsection \<open>The operations of the queue\<close>

definition decision_at :: "lobby_env \<Rightarrow> gotime \<Rightarrow> gotime" where
  "decision_at e now = add_seconds now (lc_QueueTimeoutS (ev_config e))"

definition enqueue :: "lobby_env \<Rightarrow> nat \<Rightarrow> lobby_settings \<Rightarrow> unit act" where
  "enqueue e p st = with_state (\<lambda>s. let account = account_of s p in
     bind_act (reserve e account ''quick_play'') (\<lambda>id.
     bind_act (ask (ev_Now e)) (\<lambda>joined. bind_act (ask (ev_Now e)) (\<lambda>now.
     with_state (\<lambda>s. let q = \<lparr>qu_id = id, qu_peer = p, qu_settings = st, qu_joined = joined,
            qu_decision = decision_at e now, qu_order = Suc (mg_order s), qu_choice = False\<rparr> in
       after (change (\<lambda>s. s\<lparr>mg_order := Suc (mg_order s), mg_queues := AList.update account q (mg_queues s)\<rparr>))
        (bind_act (succeeds (emit e p [] (FrameQueue (queueView q ''waiting'')))) (\<lambda>ok.
           if ok then matchQueues e else leaveQueue e p)))))))"

definition QueueJoin :: "lobby_env \<Rightarrow> nat \<Rightarrow> lobby_settings \<Rightarrow> unit act" where
  "QueueJoin e p st = with_state (\<lambda>s. let account = account_of s p in
     reject_when (\<not> is_current s p \<or> map_of (mg_members s) account \<noteq> None) ErrTextMembership
       (after (access e account st ''quick_play'') (after (canMatch e [account])
         (with_state (\<lambda>s. case map_of (mg_queues s) account of
            Some old \<Rightarrow> if qu_settings old = st then emit e p [] (FrameQueue (queueView old ''waiting''))
              else after (leaveQueue e p) (enqueue e p st)
          | None \<Rightarrow> enqueue e p st)))))"

definition KeepWaiting :: "lobby_env \<Rightarrow> nat \<Rightarrow> unit act" where
  "KeepWaiting e p = with_state (\<lambda>s. case map_of (mg_queues s) (account_of s p) of
     None \<Rightarrow> raise ErrTextMembership
   | Some q \<Rightarrow> reject_when (\<not> is_current s p \<or> qu_peer q \<noteq> p) ErrTextMembership
      (bind_act (ask (ev_Now e)) (\<lambda>now. let q' = q\<lparr>qu_choice := False, qu_decision := decision_at e now\<rparr> in
        after (change (\<lambda>s. s\<lparr>mg_queues := AList.update (account_of s p) q' (mg_queues s)\<rparr>))
          (emit e p [] (FrameQueue (queueView q' ''waiting''))))))"

definition QueueLeave :: "lobby_env \<Rightarrow> nat \<Rightarrow> unit act" where
  "QueueLeave e p = with_state (\<lambda>s. reject_when (\<not> is_current s p) ErrTextMembership (leaveQueue e p))"

end
