(* ===== verification/Lobby_Rooms.thy ===== *)
theory Lobby_Rooms
  imports Lobby_Queues Chat
begin

section \<open>Rooms (\<open>lobby/text_room.go\<close>) and what they ask of a match\<close>

subsection \<open>Durable hooks of a match (\<open>TextValueHooks\<close>)\<close>

definition hook_result :: "lobby_env \<Rightarrow> lobby_error option \<Rightarrow> go_error option" where
  "hook_result e r = map_option (\<lambda>err. HookError (ev_message e err)) r"

definition value_conflict :: "go_error option" where
  "value_conflict = Some (HookError ''value.conflict'')"

definition store_player_of :: "string list \<Rightarrow> player_result \<Rightarrow> store_player" where
  "store_player_of accounts p = \<lparr>sp_AccountID = Prelude.at accounts (pr_Seat p), sp_Seat = pr_Seat p, sp_Role = pr_Role p,
     sp_Points = pr_Points p, sp_CorrectVotes = pr_CorrectVotes p, sp_VotesCast = pr_VotesCast p,
     sp_Survivals = pr_Survivals p, sp_Pokes = pr_Pokes p, sp_Absent = pr_Absent p\<rparr>"

definition store_outcome_of :: "string list \<Rightarrow> text_result \<Rightarrow> store_outcome" where
  "store_outcome_of accounts r = \<lparr>so_MatchID = mc_MatchID (re_Contract r), so_Kind = re_Outcome r,
     so_Winner = (if re_Winner r = NoWinner then None else Some (re_Winner r)), so_At = re_OccurredAt r,
     so_Players = map (store_player_of accounts) (re_Players r)\<rparr>"

definition value_hooks :: "lobby_env \<Rightarrow> nat \<Rightarrow> string \<Rightarrow> int \<Rightarrow> string list \<Rightarrow> text_hooks" where
  "value_hooks e t owner epoch accounts = \<lparr>
     hk_ModerateChat = None,
     hk_Abandon = Some (\<lambda>ev. if \<not> in_range (ab_Seat ev) accounts then value_conflict
       else hook_result e (ev_Abandon e t owner epoch \<lparr>sb_MatchID = ab_MatchID ev,
         sb_AccountID = Prelude.at accounts (ab_Seat ev), sb_Seat = ab_Seat ev, sb_At = ab_OccurredAt ev\<rparr>)),
     hk_Award = Some (\<lambda>ev. if \<not> in_range (aw_Seat ev) accounts then value_conflict
       else hook_result e (ev_Award e t owner epoch \<lparr>sa_MatchID = aw_MatchID ev,
         sa_AccountID = Prelude.at accounts (aw_Seat ev), sa_Kind = aw_Kind ev, sa_Ordinal = aw_Ordinal ev,
         sa_Amount = aw_Amount ev, sa_At = aw_OccurredAt ev\<rparr>)),
     hk_Finish = Some (\<lambda>r.
       if re_Outcome r = MatchInterrupted
       then hook_result e (ev_Interrupt e t (mc_MatchID (re_Contract r)) owner epoch (re_OccurredAt r))
       else if list_ex (\<lambda>p. \<not> in_range (pr_Seat p) accounts) (re_Players r) then value_conflict
       else case hook_result e (ev_Finish e t owner epoch (store_outcome_of accounts r)) of
         Some err \<Rightarrow> Some err
       | None \<Rightarrow> hook_result e (ev_SettlePending e t (mc_MatchID (re_Contract r))))\<rparr>"

text \<open>With the moderator of the deployment, if it has one.\<close>

definition match_hooks :: "lobby_env \<Rightarrow> nat \<Rightarrow> string \<Rightarrow> string list \<Rightarrow> text_hooks" where
  "match_hooks e t owner accounts = (value_hooks e t owner 1 accounts)\<lparr>hk_ModerateChat :=
     (case ev_ModerateChat e of None \<Rightarrow> None | Some moderator \<Rightarrow> Some (chat_hook (moderator t) accounts))\<rparr>"

text \<open>
  An operation of the room's match. Its hooks are closures over the store, so they answer as the store
  does at the time of the call.
\<close>

definition run_match :: "lobby_env \<Rightarrow> nat \<Rightarrow> (text_match \<Rightarrow> clock_reads \<Rightarrow> outcome) \<Rightarrow> action_result act" where
  "run_match e r f = bind_act (ask (\<lambda>t. t)) (\<lambda>t. with_state (\<lambda>s. let room = mg_room s r in case rm_match room of
     None \<Rightarrow> raise (External ''nil match'')
   | Some m \<Rightarrow>
      (case f (m\<lparr>tm_hooks := match_hooks e t (mg_owner s) (rm_matchAccounts room)\<rparr>) (ev_clock e t) of
         (res, m', _) \<Rightarrow> after (change (set_match r (Some m')))
           (case res of Inl err \<Rightarrow> raise (EngineError err) | Inr x \<Rightarrow> give x))))"

definition reset_stream :: "lobby_env \<Rightarrow> nat \<Rightarrow> int \<Rightarrow> unit act" where
  "reset_stream e r seat = bind_act (ask (ev_uuid e)) (\<lambda>u. with_state (\<lambda>s. case rm_match (mg_room s r) of
     None \<Rightarrow> raise (External ''nil match'')
   | Some m \<Rightarrow> (case ResetStream u m seat of
        (err, m') \<Rightarrow> after (change (set_match r (Some m')))
          (case err of None \<Rightarrow> give () | Some x \<Rightarrow> raise (EngineError x)))))"

definition dropping :: "'a act \<Rightarrow> unit act" where
  "dropping f = bind_act f (\<lambda>_. give ())"

definition on_error :: "unit act \<Rightarrow> 'a act \<Rightarrow> 'a act" where
  "on_error g f s = (case f s of (Inl err, s') \<Rightarrow> (Inl err, snd (g s')) | r \<Rightarrow> r)"

text \<open>The seat of an account that is a member; a missing one would be a nil dereference.\<close>

definition with_seat :: "nat \<Rightarrow> string \<Rightarrow> (int \<Rightarrow> text_member \<Rightarrow> 'a act) \<Rightarrow> 'a act" where
  "with_seat r account f = with_state (\<lambda>s. case member_seat (mg_room s r) account of
     None \<Rightarrow> raise (External ''nil member'') | Some (seat, v) \<Rightarrow> f seat v)"

definition edit_member :: "nat \<Rightarrow> int \<Rightarrow> (text_member \<Rightarrow> text_member) \<Rightarrow> unit act" where
  "edit_member r seat f = change (upd_room r (upd_member seat f))"

subsection \<open>Cancelling a prepared match\<close>

definition release_all :: "lobby_env \<Rightarrow> nat \<Rightarrow> lobby_error option act" where
  "release_all e r = bind_act (visit_seats e r) (\<lambda>seats. each_join (release_seat e r) seats None)"

definition cancelled_room :: "text_room \<Rightarrow> text_room" where
  "cancelled_room room = invalidate (room\<lparr>rm_pendingAbort := [],
     rm_seats := map (\<lambda>(seat, v). (seat, v\<lparr>me_admission := []\<rparr>)) (rm_seats room)\<rparr>)"

definition abortPrepared :: "lobby_env \<Rightarrow> nat \<Rightarrow> unit act" where
  "abortPrepared e r = with_state (\<lambda>s. let abort = rm_pendingAbort (mg_room s r); owner = mg_owner s in
     if abort = [] then give ()
     else bind_act (ask (ev_Now e)) (\<lambda>now. bind_act (ask (\<lambda>t. ev_CancelPrepared e t abort owner 1 now)) (\<lambda>c.
       bind_act (if (case c of None \<Rightarrow> False | Some err \<Rightarrow> errors_is err ErrValueFence)
         then bind_act (ask (ev_Now e)) (\<lambda>now. ask (\<lambda>t. ev_Interrupt e t abort owner 1 now)) else give c) (\<lambda>i.
       bind_act (if (case i of None \<Rightarrow> False | Some err \<Rightarrow> errors_is err ErrNoRows)
         then release_all e r else give i) (\<lambda>err. case err of
           Some x \<Rightarrow> raise x
         | None \<Rightarrow> change (upd_room r cancelled_room))))))"

subsection \<open>Hosts\<close>

text \<open>The connected member who joined first; without one the host stays as it is.\<close>

definition host_candidates :: "text_manager \<Rightarrow> text_room \<Rightarrow> int list" where
  "host_candidates s room = sort_key (\<lambda>seat. case map_of (rm_seats room) seat of None \<Rightarrow> 0 | Some v \<Rightarrow> me_joined v)
     (sort (map fst (filter (\<lambda>(seat, v). open_member s v) (rm_seats room))))"

definition elect :: "text_manager \<Rightarrow> text_room \<Rightarrow> text_room" where
  "elect s room = (case host_candidates s room of [] \<Rightarrow> room | seat # _ \<Rightarrow> room\<lparr>rm_host := seat\<rparr>)"

definition elect_host :: "nat \<Rightarrow> unit act" where
  "elect_host r = with_state (\<lambda>s. change (upd_room r (elect s)))"

subsection \<open>\<open>Create\<close> and \<open>Join\<close>\<close>

definition sit_new :: "nat \<Rightarrow> nat \<Rightarrow> string \<Rightarrow> text_manager \<Rightarrow> text_manager" where
  "sit_new r p admission s =
     (let order = Suc (mg_order s) in
      (sit_down r (new_member (account_of s p) admission p order) s)\<lparr>mg_order := order\<rparr>)"

definition Create :: "lobby_env \<Rightarrow> nat \<Rightarrow> lobby_settings \<Rightarrow> string act" where
  "Create e p st = with_state (\<lambda>s. let account = account_of s p in
     reject_when (\<not> is_current s p \<or> map_of (mg_members s) account \<noteq> None \<or> map_of (mg_queues s) account \<noteq> None)
       ErrTextMembership
       (after (access e account st ''local'') (after (canMatch e [account])
         (bind_act (reserve e account ''local'') (\<lambda>admission. bind_act (newRoom e st ''local'') (\<lambda>r.
           after (change (sit_new r p admission)) (after (broadcastLobby e r)
             (with_state (\<lambda>s. give (rm_code (mg_room s r)))))))))))"

definition rejoin :: "lobby_env \<Rightarrow> nat \<Rightarrow> nat \<Rightarrow> unit act" where
  "rejoin e r p = with_state (\<lambda>s. with_seat r (account_of s p) (\<lambda>seat v.
     after (edit_member r seat (\<lambda>v. v\<lparr>me_peer := Some p\<rparr>))
       (if rm_match (mg_room s r) = None then lobby e r p
        else after (dropping (run_match e r (\<lambda>m. SetConnected m seat True)))
          (after (reset_stream e r seat) (after (lobby e r p) (broadcastMatch e r))))))"

definition join_new :: "lobby_env \<Rightarrow> nat \<Rightarrow> nat \<Rightarrow> unit act" where
  "join_new e r p = with_state (\<lambda>s. let room = mg_room s r; account = account_of s p in
     reject_when (admissionPaused s \<or> rm_pendingAbort room \<noteq> [] \<or> rm_pendingOperator room) ErrTextUnavailable
      (reject_when (rm_match room \<noteq> None \<or> rm_path room \<noteq> ''local''
          \<or> int (length (rm_seats room)) \<ge> ls_Size (rm_settings room)) ErrTextMembership
        (after (canMatch e (room_accounts room @ [account]))
          (bind_act (reserve e account (rm_path room)) (\<lambda>admission.
            after (change (\<lambda>s. upd_room r reshuffled (sit_new r p admission s))) (broadcastLobby e r))))))"

definition Join :: "lobby_env \<Rightarrow> nat \<Rightarrow> string \<Rightarrow> unit act" where
  "Join e p code = after (checkAuthority e) (with_state (\<lambda>s. let account = account_of s p in
     reject_when (\<not> is_current s p \<or> map_of (mg_queues s) account \<noteq> None) ErrTextMembership
       (case map_of (mg_rooms s) (ev_ToUpper e code) of
          None \<Rightarrow> raise ErrTextMembership
        | Some r \<Rightarrow> reject_when (rm_pendingOperator (mg_room s r) \<or> account \<in> set (rm_excludedAccounts (mg_room s r)))
            ErrTextUnavailable
            (case map_of (mg_members s) account of
               Some existing \<Rightarrow> reject_when (existing \<noteq> r) ErrTextMembership (rejoin e r p)
             | None \<Rightarrow> join_new e r p))))"

definition RoomAccount :: "lobby_env \<Rightarrow> string \<Rightarrow> string \<Rightarrow> int \<Rightarrow> string act" where
  "RoomAccount e account roomID seat = after (checkAuthority e) (with_state (\<lambda>s.
     case map_of (mg_members s) account of
       None \<Rightarrow> raise ErrTextMembership
     | Some r \<Rightarrow> (let room = mg_room s r in
         if rm_id room \<noteq> roomID \<or> seat < 0 \<or> seat \<ge> ls_Size (rm_settings room) then raise ErrTextMembership
         else case map_of (rm_seats room) seat of
           None \<Rightarrow> raise ErrTextMembership | Some v \<Rightarrow> give (me_account v))))"

subsection \<open>\<open>Settings\<close> and \<open>Ready\<close>\<close>

definition occupied :: "text_room \<Rightarrow> int list" where
  "occupied room = filter (\<lambda>seat. map_of (rm_seats room) seat \<noteq> None) (map int [0..<nat (ls_Size (rm_settings room))])"

definition compacted :: "text_room \<Rightarrow> text_room" where
  "compacted room = room\<lparr>
     rm_host := (if rm_host room \<in> set (occupied room)
       then int (length (takeWhile (\<lambda>seat. seat \<noteq> rm_host room) (occupied room))) else rm_host room),
     rm_seats := map (\<lambda>(n, seat). (int n, the (map_of (rm_seats room) seat))) (enumerate 0 (occupied room)),
     rm_membershipRevision := Suc (rm_membershipRevision room)\<rparr>"

definition new_settings :: "lobby_settings \<Rightarrow> text_room \<Rightarrow> text_room" where
  "new_settings st room0 =
     (let room = (if ls_Size st < ls_Size (rm_settings room0) then compacted room0 else room0) in
      invalidate (room\<lparr>rm_settings := st, rm_settingsRevision := Suc (rm_settingsRevision room)\<rparr>))"

definition Settings :: "lobby_env \<Rightarrow> nat \<Rightarrow> nat \<Rightarrow> lobby_settings \<Rightarrow> unit act" where
  "Settings e p revision_seen st = with_state (\<lambda>s. let account = account_of s p in
     case map_of (mg_members s) account of
       None \<Rightarrow> raise ErrTextMembership
     | Some r \<Rightarrow> (let room = mg_room s r in
         reject_when (\<not> is_current s p \<or> rm_match room \<noteq> None) ErrTextMembership
        (reject_when (rm_pendingOperator room) ErrTextUnavailable
          (with_seat r account (\<lambda>seat _.
            reject_when (seat \<noteq> rm_host room) ErrTextHost
           (reject_when (revision_seen \<noteq> rm_settingsRevision room) ErrTextRevision
           (reject_when (ls_Size st < int (length (rm_seats room))) ErrTextMembership
             (after (access e account st (rm_path room))
               (if st = rm_settings room then give ()
                else after (on_error (after (change (upd_room r invalidate)) (broadcastLobby e r))
                    (bind_act (visit_seats e r) (each_act (release_seat e r))))
                  (after (change (upd_room r (new_settings st)))
                    (after (broadcastLobby e r) (matchQueues e))))))))))))"

definition Ready :: "lobby_env \<Rightarrow> nat \<Rightarrow> ready_ack \<Rightarrow> unit act" where
  "Ready e p ack = with_state (\<lambda>s. let account = account_of s p in
     case map_of (mg_members s) account of
       None \<Rightarrow> raise ErrTextMembership
     | Some r \<Rightarrow> (let room = mg_room s r in
         reject_when (\<not> is_current s p \<or> rm_match room \<noteq> None) ErrTextMembership
        (reject_when (admissionPaused s \<or> rm_pendingAbort room \<noteq> [] \<or> rm_pendingOperator room) ErrTextUnavailable
        (reject_when (ra_SettingsRevision ack \<noteq> rm_settingsRevision room
            \<or> ra_MembershipRevision ack \<noteq> rm_membershipRevision room) ErrTextRevision
          (with_seat r account (\<lambda>seat v.
            after (if me_admission v = []
                then bind_act (reserve e account (rm_path room)) (\<lambda>admission.
                  edit_member r seat (\<lambda>v. v\<lparr>me_admission := admission\<rparr>))
                else give ())
              (after (edit_member r seat (\<lambda>v. v\<lparr>me_ready := Some ack\<rparr>)) (broadcastLobby e r))))))))"

section \<open>Leaving, connections and rematches (\<open>lobby/text_room.go\<close>, \<open>text_manager.go\<close>)\<close>

definition forget_seat :: "nat \<Rightarrow> int \<Rightarrow> string \<Rightarrow> text_manager \<Rightarrow> text_manager" where
  "forget_seat r seat account s =
     upd_room r (drop_seat seat) (s\<lparr>mg_members := AList.delete account (mg_members s)\<rparr>)"

text \<open>Leaving a room whose match runs keeps the seat for the match; after the verdict it is freed.\<close>

definition leave_match :: "lobby_env \<Rightarrow> nat \<Rightarrow> int \<Rightarrow> string \<Rightarrow> unit act" where
  "leave_match e r seat account = with_state (\<lambda>s. let over = finished (mg_room s r) in
     after (dropping (run_match e r (\<lambda>m. SetConnected m seat False)))
       (after (edit_member r seat (\<lambda>v. v\<lparr>me_peer := None\<rparr>))
         (if \<not> over then broadcastMatch e r
          else change (\<lambda>s. drop_empty_room r (forget_seat r seat account s)))))"

definition leave_lobby :: "lobby_env \<Rightarrow> nat \<Rightarrow> int \<Rightarrow> string \<Rightarrow> unit act" where
  "leave_lobby e r seat account = after (release_seat e r seat)
     (after (change (\<lambda>s. upd_room r reshuffled (forget_seat r seat account s)))
       (with_state (\<lambda>s.
         if rm_seats (mg_room s r) = [] then change (drop_empty_room r)
         else after (if rm_host (mg_room s r) = seat then elect_host r else give ())
           (after (broadcastLobby e r) (matchQueues e)))))"

definition leave :: "lobby_env \<Rightarrow> nat \<Rightarrow> unit act" where
  "leave e p = with_state (\<lambda>s. let account = account_of s p in
     case map_of (mg_members s) account of
       None \<Rightarrow> leaveQueue e p
     | Some r \<Rightarrow> reject_when (rm_pendingOperator (mg_room s r)) ErrTextUnavailable
         (with_seat r account (\<lambda>seat v.
           if me_peer v \<noteq> Some p then give ()
           else after (abortPrepared e r) (with_state (\<lambda>s.
             if rm_match (mg_room s r) \<noteq> None then leave_match e r seat account
             else leave_lobby e r seat account)))))"

definition Leave :: "lobby_env \<Rightarrow> nat \<Rightarrow> unit act" where
  "Leave e p = with_state (\<lambda>s. reject_when (\<not> is_current s p) ErrTextMembership (leave e p))"

text \<open>\<open>disconnect\<close> of a peer that is still the account's.\<close>

definition disconnect :: "lobby_env \<Rightarrow> nat \<Rightarrow> unit act" where
  "disconnect e p = with_state (\<lambda>s.
     if map_of (mg_peers s) (account_of s p) \<noteq> Some p then give ()
     else after (change (closePeer p)) (after (leave e p)
       (change (\<lambda>s. (closePeer p s)\<lparr>mg_peers := AList.delete (account_of s p) (mg_peers s)\<rparr>))))"

definition Disconnect :: "lobby_env \<Rightarrow> nat \<Rightarrow> unit act" where
  "Disconnect = disconnect"

text \<open>
  Sanctions. \<open>active\<close> is the callback that reads the canonical decision; every connected peer is
  compared with the decision, the first failure ends the pass.
\<close>

definition EnforceAccount :: "lobby_env \<Rightarrow> (nat \<Rightarrow> string \<Rightarrow> lobby_error + bool) option \<Rightarrow> string \<Rightarrow> unit act" where
  "EnforceAccount e active account = (case active of
     None \<Rightarrow> raise ErrTextUnavailable
   | Some f \<Rightarrow> bind_act (ask (\<lambda>t. f t account)) (\<lambda>r. case r of
       Inl err \<Rightarrow> raise err
     | Inr enforced \<Rightarrow> with_state (\<lambda>s. case map_of (mg_peers s) account of
         Some p \<Rightarrow> if enforced then disconnect e p else give ()
       | None \<Rightarrow> give ())))"

definition EnforceSanction ::
  "lobby_env \<Rightarrow> (nat \<Rightarrow> string \<Rightarrow> string \<Rightarrow> lobby_error + bool) option \<Rightarrow> string \<Rightarrow> unit act" where
  "EnforceSanction e active sanction = (case active of
     None \<Rightarrow> raise ErrTextUnavailable
   | Some f \<Rightarrow> bind_act (with_state (\<lambda>s. visiting e (map fst (mg_peers s)))) (each_act (\<lambda>account.
       with_state (\<lambda>s. case map_of (mg_peers s) account of
         None \<Rightarrow> give ()
       | Some p \<Rightarrow> after (call (ev_ctx e)) (bind_act (ask (\<lambda>t. f t sanction (pe_binding (mg_peer s p)))) (\<lambda>r. case r of
           Inl err \<Rightarrow> raise err
         | Inr enforced \<Rightarrow> if enforced then disconnect e p else give ()))))))"

subsection \<open>Opening a connection\<close>

definition frame_capacity :: "lobby_env \<Rightarrow> int" where
  "frame_capacity e = 2 * (MaxHistoryEvents (wireLimits e) div MaxHistoryPageEvents (wireLimits e) + 4)"

definition install_peer :: "lobby_env \<Rightarrow> string \<Rightarrow> string \<Rightarrow> string \<Rightarrow> text_manager \<Rightarrow> text_manager" where
  "install_peer e account binding ident s = s\<lparr>
     mg_peer := (mg_peer s)(mg_fresh s := \<lparr>pe_AccountID = account, pe_ID = ident, pe_binding = binding,
       pe_frames = [], pe_capacity = frame_capacity e, pe_closed = False\<rparr>),
     mg_peers := AList.update account (mg_fresh s) (mg_peers s), mg_fresh := Suc (mg_fresh s)\<rparr>"

text \<open>\<open>authenticate\<close> is the callback that yields the account and its binding.\<close>

definition OpenAuthenticated :: "lobby_env \<Rightarrow> (nat \<Rightarrow> lobby_error + (string \<times> string)) option \<Rightarrow> nat act" where
  "OpenAuthenticated e authenticate = (case authenticate of
     None \<Rightarrow> raise ErrTextMembership
   | Some f \<Rightarrow> bind_act (ask f) (\<lambda>r. case r of
       Inl err \<Rightarrow> raise err
     | Inr (account, binding) \<Rightarrow> after (checkAuthority e)
        (reject_when (\<not> ev_uuid_parse e account) ErrTextMembership (with_state (\<lambda>s.
          reject_when (case map_of (mg_members s) account of None \<Rightarrow> False | Some r \<Rightarrow> rm_pendingOperator (mg_room s r))
            ErrTextUnavailable
          (after (case map_of (mg_peers s) account of None \<Rightarrow> give () | Some old \<Rightarrow> disconnect e old)
            (bind_act (ask (ev_uuid e)) (\<lambda>ident. with_state (\<lambda>s.
              after (change (install_peer e account binding ident)) (give (mg_fresh s)))))))))))"

definition Open :: "lobby_env \<Rightarrow> string \<Rightarrow> nat act" where
  "Open e account = OpenAuthenticated e (Some (\<lambda>_. Inr (account, [])))"

subsection \<open>\<open>Rematch\<close>\<close>

definition rematch_seat :: "nat \<Rightarrow> int \<Rightarrow> unit act" where
  "rematch_seat r seat = after
     (edit_member r seat (\<lambda>v. v\<lparr>me_originalSeat := seat, me_admission := [], me_ready := None\<rparr>))
     (with_member r seat (\<lambda>v. with_state (\<lambda>s.
        if open_member s v then give () else change (forget_seat r seat (me_account v)))))"

definition lowest_seat :: "text_room \<Rightarrow> int" where
  "lowest_seat room = fold min (map fst (rm_seats room)) (ls_Size (rm_settings room))"

definition rematch_room :: "text_manager \<Rightarrow> text_room \<Rightarrow> text_room" where
  "rematch_room s room0 =
     (let room = room0\<lparr>rm_match := None, rm_rematching := True,
            rm_membershipRevision := Suc (rm_membershipRevision room0),
            rm_settingsRevision := Suc (rm_settingsRevision room0)\<rparr> in
      if rm_path room = ''quick_play'' then room\<lparr>rm_host := lowest_seat room\<rparr>
      else if map_of (rm_seats room) (rm_host room) = None then elect s room else room)"

definition Rematch :: "lobby_env \<Rightarrow> nat \<Rightarrow> unit act" where
  "Rematch e p = with_state (\<lambda>s. let account = account_of s p in
     case map_of (mg_members s) account of
       None \<Rightarrow> raise ErrTextMembership
     | Some r \<Rightarrow> (let room = mg_room s r in
         reject_when (\<not> is_current s p) ErrTextMembership
        (reject_when (admissionPaused s \<or> rm_pendingOperator room \<or> account \<in> set (rm_excludedAccounts room)) ErrTextUnavailable
          (if rm_match room = None then lobby e r p
           else if \<not> finished room then raise ErrTextMembership
           else after (bind_act (visit_seats e r) (each_act (rematch_seat r)))
             (after (with_state (\<lambda>s. change (upd_room r (rematch_room s))))
               (after (broadcastLobby e r) (matchQueues e)))))))"

definition VisibleText_lobby :: "lobby_env \<Rightarrow> string \<Rightarrow> string \<Rightarrow> content_ref \<Rightarrow> (match_contract \<times> text_content) act" where
  "VisibleText_lobby e account matchID ref = after (checkAuthority e) (with_state (\<lambda>s.
     case map_of (mg_members s) account of
       None \<Rightarrow> raise ErrTextMembership
     | Some r \<Rightarrow> (case rm_match (mg_room s r) of
         None \<Rightarrow> raise ErrTextMembership
       | Some m \<Rightarrow> bind_act (ask (ev_Now e)) (\<lambda>now.
           case VisibleText m (case member_seat (mg_room s r) account of None \<Rightarrow> -1 | Some (seat, _) \<Rightarrow> seat) ref now of
             Inl _ \<Rightarrow> raise ErrTextMembership
           | Inr (contract, content) \<Rightarrow>
               if mc_MatchID contract \<noteq> matchID then raise ErrTextMembership else give (contract, content)))))"

end
