(* ===== verification/Lobby_Start.thy ===== *)
theory Lobby_Start
  imports Lobby_Rooms
begin

section \<open>Starting a match (\<open>lobby/text_runtime.go\<close>)\<close>

definition acknowledged :: "text_room \<Rightarrow> text_member \<Rightarrow> bool" where
  "acknowledged room v = (case me_ready v of None \<Rightarrow> False
     | Some a \<Rightarrow> ra_SettingsRevision a = rm_settingsRevision room \<and> ra_MembershipRevision a = rm_membershipRevision room)"

definition current_member :: "text_manager \<Rightarrow> text_member \<Rightarrow> bool" where
  "current_member s v = (case me_peer v of None \<Rightarrow> False | Some p \<Rightarrow> is_current s p)"

definition seat_ready :: "text_manager \<Rightarrow> text_room \<Rightarrow> int \<Rightarrow> bool" where
  "seat_ready s room seat = (case map_of (rm_seats room) seat of None \<Rightarrow> False
     | Some v \<Rightarrow> current_member s v \<and> acknowledged room v)"

definition room_seats :: "text_room \<Rightarrow> int list" where
  "room_seats room = map int [0..<nat (ls_Size (rm_settings room))]"

subsection \<open>What a match is made of\<close>

definition deal_tuning_of :: "lobby_config \<Rightarrow> deal_tuning" where
  "deal_tuning_of c = (lc_dealing c)\<lparr>dt_HandSize := tg_HandSize (lc_tuning c), dt_ReserveSize := tg_DrawPile (lc_tuning c)\<rparr>"

definition ask_seed :: "lobby_env \<Rightarrow> int act" where
  "ask_seed e = bind_act (ask (ev_seed e)) (\<lambda>r. case r of Inl err \<Rightarrow> raise err | Inr n \<Rightarrow> give n)"

definition engine_result :: "go_error + 'a \<Rightarrow> 'a act" where
  "engine_result r = (case r of Inl err \<Rightarrow> raise (EngineError err) | Inr x \<Rightarrow> give x)"

definition contract_of :: "lobby_env \<Rightarrow> text_room \<Rightarrow> string \<Rightarrow> text_deal \<Rightarrow> string \<Rightarrow> string \<Rightarrow> match_contract" where
  "contract_of e room matchID d hash admission =
     (let prototype = (ev_Prototype e \<noteq> None); st = rm_settings room in
      \<lparr>mc_ProtocolVersion = 2, mc_MatchID = matchID, mc_RoomID = rm_id room, mc_OriginalSize = ls_Size st,
       mc_ModeID = ls_ModeID st, mc_RulesVersion = de_RulesVersion d, mc_ContentLanguage = de_Language d,
       mc_PackReleaseID = de_ReleaseID d, mc_PackSHA256 = de_SnapshotSHA256 d,
       mc_Tuning = \<lparr>pt_Version = ''text-tuning-v1'', pt_SHA256 = hash\<rparr>,
       mc_Eligibility = \<lparr>el_AdmissionID = admission, el_EntryPath = rm_path room, el_Rewards = \<not> prototype,
         el_Leaderboard = (\<not> prototype \<and> rm_path room = ''quick_play''
           \<and> ls_Size st \<ge> lc_LeaderboardMinHumans (ev_config e))\<rparr>\<rparr>)"

text \<open>Every seat's account and reservation; a missing reservation is made now, and kept by the member even if the store refuses it.\<close>

fun admit_seats :: "lobby_env \<Rightarrow> nat \<Rightarrow> int list \<Rightarrow> (string \<times> string) list act" where
  "admit_seats e r [] = give []"
| "admit_seats e r (seat # seats) = with_state (\<lambda>s. case map_of (rm_seats (mg_room s r)) seat of
     None \<Rightarrow> raise (External ''nil member'')
   | Some v \<Rightarrow> bind_act
       (if me_admission v = []
        then bind_act (reservation e (me_account v) (rm_path (mg_room s r))) (\<lambda>(admission, err).
          after (edit_member r seat (\<lambda>v. v\<lparr>me_admission := admission\<rparr>)) (after (returning err) (give admission)))
        else give (me_admission v))
       (\<lambda>admission. bind_act (admit_seats e r seats) (\<lambda>rest. give ((me_account v, admission) # rest))))"

definition chosen_roles :: "text_room \<Rightarrow> (int \<times> role) list" where
  "chosen_roles room = List.map_filter (\<lambda>(seat, v).
     if me_devRole v = [] \<or> me_devRole v = ''random'' then None
     else Some (seat, if me_devRole v = ''donower'' then Donower else if me_devRole v = ''nower'' then Nower
       else RoleOther (me_devRole v))) (rm_seats room)"

definition roles_conflict :: "int \<Rightarrow> role list \<Rightarrow> bool" where
  "roles_conflict sz roles \<longleftrightarrow>
     int (length (filter (\<lambda>x. x = Donower) roles)) > sz div 2 - 1
     \<or> int (length (filter (\<lambda>x. x = Nower) roles)) > sz - (sz div 2 - 1)"

record prepared_match =
  pm_engine :: text_match
  pm_record :: text_match_record
  pm_accounts :: "string list"
  pm_host :: string

definition match_record_of :: "lobby_env \<Rightarrow> text_manager \<Rightarrow> text_room \<Rightarrow> match_contract \<Rightarrow> string list \<Rightarrow> string \<Rightarrow> text_match_record" where
  "match_record_of e s room contract admissions host = \<lparr>mr_Contract = contract, mr_Policy = ev_tuning e,
     mr_Owner = mg_owner s, mr_Epoch = 1, mr_AdmissionIDs = admissions, mr_Prototype = (ev_Prototype e \<noteq> None),
     mr_SponsorAccountID = (if rm_path room = ''local'' then host else [])\<rparr>"

text \<open>The contract and the engine once the deal is known.\<close>

definition build_match :: "lobby_env \<Rightarrow> nat \<Rightarrow> string \<Rightarrow> string \<Rightarrow> text_deal \<Rightarrow> prepared_match act" where
  "build_match e r matchID host d = with_state (\<lambda>s0. let room0 = mg_room s0 r in
     bind_act (engine_result (tg_Hash (ev_tuning e))) (\<lambda>hash. bind_act (ask (ev_uuid e)) (\<lambda>ident.
     bind_act (admit_seats e r (room_seats room0)) (\<lambda>admitted. bind_act (ask (\<lambda>t. t)) (\<lambda>t. with_state (\<lambda>s.
       let room = mg_room s r; contract = contract_of e room matchID d hash ident;
           accounts = map fst admitted; roles = chosen_roles room in
       reject_when (roles_conflict (ls_Size (rm_settings room)) (map snd roles)) ErrTextDevRoleConflict
         (bind_act (engine_result (NewTextMatch (ev_match e t) \<lparr>op_DevRoles = roles, op_Contract = contract, op_Deal = d,
             op_Config = Some (ev_tuning e), op_Seed = 0, op_Hooks = match_hooks e t (mg_owner s) accounts,
             op_Prototype = (ev_Prototype e \<noteq> None)\<rparr>)) (\<lambda>m.
           give \<lparr>pm_engine = m, pm_record = match_record_of e s room contract (map snd admitted) host,
             pm_accounts = accounts, pm_host = host\<rparr>))))))))"

definition prepare_match :: "lobby_env \<Rightarrow> nat \<Rightarrow> string \<Rightarrow> prepared_match act" where
  "prepare_match e r matchID = with_state (\<lambda>s. let room = mg_room s r in
     after (canMatch e (room_accounts room)) (case map_of (rm_seats room) (rm_host room) of
        None \<Rightarrow> raise (External ''nil member'')
      | Some host \<Rightarrow> after (access e (me_account host) (rm_settings room) (rm_path room))
          (bind_act (resolve e (rm_settings room)) (\<lambda>snap.
           bind_act (ask_seed e) (\<lambda>schedule. bind_act (ask_seed e) (\<lambda>hands. bind_act (ask_seed e) (\<lambda>sys.
           bind_act (ask (ev_match e)) (\<lambda>sr.
           bind_act (engine_result (Deal (sr_rng sr) snap (ls_ModeID (rm_settings room)) (ls_Size (rm_settings room))
               (deal_tuning_of (ev_config e)) \<lparr>ra_Schedule = schedule, ra_Hands = hands, ra_System = sys\<rparr>)) (\<lambda>d.
             build_match e r matchID (me_account host) d)))))))))"

text \<open>The durable part: the record, the second check of access, the start.\<close>

definition seat_bindings :: "text_manager \<Rightarrow> text_room \<Rightarrow> int list \<Rightarrow> string list" where
  "seat_bindings s room seats = List.map_filter (\<lambda>seat. case map_of (rm_seats room) seat of
     None \<Rightarrow> None | Some v \<Rightarrow> map_option (\<lambda>p. pe_binding (mg_peer s p)) (me_peer v)) seats"

definition durable_start :: "lobby_env \<Rightarrow> nat \<Rightarrow> string \<Rightarrow> gotime \<Rightarrow> unit act" where
  "durable_start e r matchID now = bind_act (visit_seats e r) (\<lambda>seats. with_state (\<lambda>s.
     call (\<lambda>t. ev_Start e t matchID (mg_owner s) 1 (seat_bindings s (mg_room s r) seats) now)))"

definition commit_match :: "lobby_env \<Rightarrow> nat \<Rightarrow> string \<Rightarrow> gotime \<Rightarrow> prepared_match \<Rightarrow> unit act" where
  "commit_match e r matchID now pm = after (call (\<lambda>t. ev_Prepare e t (pm_record pm) now)) (with_state (\<lambda>s.
     after (access e (pm_host pm) (rm_settings (mg_room s r)) (rm_path (mg_room s r)))
       (durable_start e r matchID now)))"

subsection \<open>Failure\<close>

text \<open>\<open>defer\<close>: on an error the cleanup runs, nobody stays ready, the table is shown again and both errors are reported.\<close>

definition failing_with :: "nat \<Rightarrow> lobby_env \<Rightarrow> lobby_error option act \<Rightarrow> 'a act \<Rightarrow> 'a act" where
  "failing_with r e cleanup f s = (case f s of
     (Inl err, s1) \<Rightarrow> (case cleanup s1 of (c, s2) \<Rightarrow>
        (Inl (Joined (err # (case c of Inl x \<Rightarrow> [x] | Inr None \<Rightarrow> [] | Inr (Some x) \<Rightarrow> [x]))),
         snd (after (change (upd_room r invalidate)) (broadcastLobby e r) s2)))
   | ok \<Rightarrow> ok)"

definition cancel_prepared :: "lobby_env \<Rightarrow> nat \<Rightarrow> string \<Rightarrow> lobby_error option act" where
  "cancel_prepared e r matchID = after (change (upd_room r (\<lambda>room. room\<lparr>rm_pendingAbort := matchID\<rparr>)))
     (bind_act (abortPrepared e r) (\<lambda>_. give None))"

definition install_match :: "prepared_match \<Rightarrow> text_room \<Rightarrow> text_room" where
  "install_match pm room = room\<lparr>rm_match := Some (pm_engine pm), rm_matchAccounts := pm_accounts pm, rm_rematching := False\<rparr>"

definition start :: "lobby_env \<Rightarrow> nat \<Rightarrow> unit act" where
  "start e r = bind_act (ask (ev_uuid e)) (\<lambda>matchID. bind_act (ask (ev_Now e)) (\<lambda>now.
     bind_act (failing_with r e (release_all e r) (prepare_match e r matchID)) (\<lambda>pm.
       after (failing_with r e (cancel_prepared e r matchID) (commit_match e r matchID now pm))
         (after (change (upd_room r (install_match pm))) (ignoring (broadcastMatch e r))))))"

definition Start :: "lobby_env \<Rightarrow> nat \<Rightarrow> unit act" where
  "Start e p = with_state (\<lambda>s. let account = account_of s p in
     case map_of (mg_members s) account of
       None \<Rightarrow> raise ErrTextMembership
     | Some r \<Rightarrow> (let room = mg_room s r in
         reject_when (\<not> is_current s p \<or> rm_match room \<noteq> None) ErrTextMembership
        (reject_when (admissionPaused s \<or> rm_pendingAbort room \<noteq> [] \<or> rm_pendingOperator room) ErrTextUnavailable
          (with_seat r account (\<lambda>seat _.
            reject_when (seat \<noteq> rm_host room) ErrTextHost
           (reject_when (int (length (rm_seats room)) \<noteq> ls_Size (rm_settings room)) ErrTextReady
             (reject_when (list_ex (\<lambda>i. \<not> seat_ready s room i) (room_seats room)) ErrTextReady
               (start e r))))))))"

end
