(* ===== verification/Lobby_Run.thy ===== *)
theory Lobby_Run
  imports Lobby_Start
begin

section \<open>The running lobby (\<open>lobby/text_runtime.go\<close>, \<open>text_drain.go\<close>, \<open>text_shutdown.go\<close>, \<open>text_dev_role.go\<close>)\<close>

subsection \<open>Operations on a room's match\<close>

text \<open>\<open>lockRuntime\<close>: the room of a current peer that no administrator holds.\<close>

definition with_runtime :: "lobby_env \<Rightarrow> nat \<Rightarrow> (nat \<Rightarrow> 'a act) \<Rightarrow> 'a act" where
  "with_runtime e p f = with_state (\<lambda>s. reject_when (\<not> is_current s p) ErrTextMembership
     (case map_of (mg_members s) (account_of s p) of
        None \<Rightarrow> raise ErrTextMembership
      | Some r \<Rightarrow> after (checkAuthority e) (with_state (\<lambda>s.
          reject_when (\<not> is_current s p) ErrTextMembership
            (reject_when (rm_pendingOperator (mg_room s r) \<or> account_of s p \<in> set (rm_excludedAccounts (mg_room s r)))
              ErrTextUnavailable (f r))))))"

definition Resync :: "lobby_env \<Rightarrow> nat \<Rightarrow> unit act" where
  "Resync e p = with_runtime e p (\<lambda>r. with_state (\<lambda>s.
     if rm_match (mg_room s r) = None then lobby e r p
     else with_seat r (account_of s p) (\<lambda>seat _.
       after (reset_stream e r seat) (after (room_snapshot e r seat p) (devRoleFrame e r p)))))"

definition Action :: "lobby_env \<Rightarrow> nat \<Rightarrow> action_request \<Rightarrow> unit act" where
  "Action e p req = with_runtime e p (\<lambda>r. with_state (\<lambda>s.
     reject_when (rm_match (mg_room s r) = None) ErrTextMembership
      (with_seat r (account_of s p) (\<lambda>seat v. reject_when (me_peer v \<noteq> Some p) ErrTextMembership
        (bind_act (run_match e r (\<lambda>m. Apply m seat req)) (\<lambda>res.
          after (if ar_Changed res then broadcastMatchFrames e r else room_snapshot e r seat p)
            (emit e p (r_RequestID req) (FrameAck (r_RequestID req) (ar_Duplicate res)))))))))"

text \<open>
  What \<open>Action\<close> does once it has given up its locks: other operations may come in between, so this is a step
  of its own. It does nothing unless the room still exists and its match is over.
\<close>

definition prune_after :: "lobby_env \<Rightarrow> nat \<Rightarrow> unit act" where
  "prune_after e r = with_state (\<lambda>s.
     if map_of (mg_rooms s) (rm_code (mg_room s r)) = Some r then pruneFinishedRoom e r else give ())"

definition report_error :: "lobby_env \<Rightarrow> nat \<Rightarrow> nat \<Rightarrow> string \<Rightarrow> error_code \<Rightarrow> int \<Rightarrow> unit act" where
  "report_error e r p rid code seat = with_state (\<lambda>s. case rm_match (mg_room s r) of
     None \<Rightarrow> raise (External ''nil match'')
   | Some m \<Rightarrow> (case ActionError m seat rid code of
       (Inl _, m') \<Rightarrow> after (change (set_match r (Some m'))) (emit e p [] (FrameCode ErrMalformed))
     | (Inr event, m') \<Rightarrow> after (change (set_match r (Some m'))) (emit e p rid (FrameError event))))"

definition RejectAction :: "lobby_env \<Rightarrow> nat \<Rightarrow> string \<Rightarrow> error_code \<Rightarrow> unit act" where
  "RejectAction e p rid code = with_state (\<lambda>s. reject_when (\<not> is_current s p) ErrTextMembership
     (case map_of (mg_members s) (account_of s p) of
        None \<Rightarrow> emit e p rid (FrameCode code)
      | Some r \<Rightarrow>
          if rm_match (mg_room s r) = None then emit e p rid (FrameCode code)
          else after (checkAuthority e) (with_state (\<lambda>s. reject_when (\<not> is_current s p) ErrTextMembership
            (with_seat r (account_of s p) (\<lambda>seat _. report_error e r p rid code seat))))))"

definition known_dev_role :: "string \<Rightarrow> bool" where
  "known_dev_role role \<longleftrightarrow> role \<in> {''random'', ''nower'', ''donower''}"

definition dev_roles_with :: "text_room \<Rightarrow> int \<Rightarrow> string \<Rightarrow> string list" where
  "dev_roles_with room seat role = map (\<lambda>(i, v). if i = seat then role else me_devRole v) (rm_seats room)"

definition dev_conflict :: "int \<Rightarrow> string list \<Rightarrow> bool" where
  "dev_conflict sz roles \<longleftrightarrow>
     int (length (filter (\<lambda>x. x = ''donower'') roles)) > sz div 2 - 1
     \<or> int (length (filter (\<lambda>x. x = ''nower'') roles)) > sz - (sz div 2 - 1)"

definition DevRole :: "lobby_env \<Rightarrow> nat \<Rightarrow> string \<Rightarrow> unit act" where
  "DevRole e p role = with_runtime e p (\<lambda>r.
     reject_when (\<not> devEnabled e) ErrTextDevUnavailable
      (reject_when (\<not> known_dev_role role) ErrTextDevRoleInvalid
        (with_state (\<lambda>s. with_seat r (account_of s p) (\<lambda>seat _.
          reject_when (dev_conflict (ls_Size (rm_settings (mg_room s r))) (dev_roles_with (mg_room s r) seat role))
            ErrTextDevRoleConflict
           (after (edit_member r seat (\<lambda>v. v\<lparr>me_devRole := role\<rparr>)) (devRoleFrame e r p)))))))"

definition DevSpecialty :: "lobby_env \<Rightarrow> nat \<Rightarrow> specialty \<Rightarrow> unit act" where
  "DevSpecialty e p kind = with_runtime e p (\<lambda>r. reject_when (\<not> devEnabled e) ErrTextDevUnavailable
     (with_state (\<lambda>s. reject_when (rm_match (mg_room s r) = None) ErrTextMembership
       (with_seat r (account_of s p) (\<lambda>seat _. bind_act (ask (ev_ctx e)) (\<lambda>c.
         after (dropping (run_match e r (\<lambda>m. DevGrantSpecialty m (hook_result e c) seat kind)))
           (room_snapshot e r seat p)))))))"

subsection \<open>Pauses and drains\<close>

definition SetReady :: "bool \<Rightarrow> unit act" where
  "SetReady ready = change (\<lambda>s. s\<lparr>mg_maintenancePaused := \<not> ready\<rparr>)"

definition SetDependencyReady :: "bool \<Rightarrow> unit act" where
  "SetDependencyReady ready = change (\<lambda>s. s\<lparr>mg_dependencyUnavailable := \<not> ready\<rparr>)"

definition Drain :: "unit act" where
  "Drain = change (\<lambda>s. s\<lparr>mg_draining := True\<rparr>)"

definition RuntimeReady :: "lobby_env \<Rightarrow> unit act" where
  "RuntimeReady e = after (checkAuthority e) (with_state (\<lambda>s. reject_when (admissionPaused s) ErrTextUnavailable (give ())))"

text \<open>\<open>WithWalletAccess\<close>: no wallet is shown to the members of a running match.\<close>

definition WithWalletAccess :: "lobby_env \<Rightarrow> string \<Rightarrow> (nat \<Rightarrow> lobby_error option) \<Rightarrow> unit act" where
  "WithWalletAccess e account operation = after (checkAuthority e) (with_state (\<lambda>s.
     reject_when (case map_of (mg_members s) account of None \<Rightarrow> False
        | Some r \<Rightarrow> rm_match (mg_room s r) \<noteq> None \<and> \<not> finished (mg_room s r)) ErrTextWalletHidden
       (call operation)))"

definition NotifyNotices :: "lobby_env \<Rightarrow> unit act" where
  "NotifyNotices e = after (checkAuthority e) (bind_act (bind_act (with_state (\<lambda>s. visiting e (map snd (mg_peers s))))
     (\<lambda>ps. each_join (\<lambda>p. emit e p [] FrameNotice) ps None)) returning)"

text \<open>A loop that stops when the context ends, and joins the other errors.\<close>

fun each_unless :: "lobby_env \<Rightarrow> ('a \<Rightarrow> unit act) \<Rightarrow> 'a list \<Rightarrow> lobby_error option \<Rightarrow> lobby_error option act" where
  "each_unless e f [] acc = give acc"
| "each_unless e f (x # xs) acc = bind_act (ask (ev_ctx e)) (\<lambda>c. case c of
     Some err \<Rightarrow> raise (the (errors_join acc (Some err)))
   | None \<Rightarrow> bind_act (joining acc (f x)) (each_unless e f xs))"

definition untouched_room :: "text_room \<Rightarrow> bool" where
  "untouched_room room \<longleftrightarrow> list_all (\<lambda>(seat, v). me_admission v = [] \<and> me_ready v = None) (rm_seats room)"

definition drain_room :: "lobby_env \<Rightarrow> nat \<Rightarrow> lobby_error option \<Rightarrow> lobby_error option act" where
  "drain_room e r acc = with_state (\<lambda>s. let room = mg_room s r in
     if rm_match room \<noteq> None \<or> rm_pendingAbort room \<noteq> [] \<or> rm_pendingOperator room then give acc
     else bind_act (visit_seats e r) (\<lambda>seats. bind_act (each_unless e (release_seat e r) seats acc) (\<lambda>result.
       if untouched_room room then give result
       else after (change (upd_room r invalidate)) (after (broadcastLobby e r) (give result)))))"

fun drain_rooms :: "lobby_env \<Rightarrow> nat list \<Rightarrow> lobby_error option \<Rightarrow> lobby_error option act" where
  "drain_rooms e [] acc = give acc"
| "drain_rooms e (r # rs) acc = bind_act (drain_room e r acc) (drain_rooms e rs)"

definition leave_queue_of :: "lobby_env \<Rightarrow> string \<Rightarrow> unit act" where
  "leave_queue_of e account = with_state (\<lambda>s. case map_of (mg_queues s) account of
     None \<Rightarrow> give () | Some q \<Rightarrow> leaveQueue e (qu_peer q))"

definition cleanupDrain :: "lobby_env \<Rightarrow> unit act" where
  "cleanupDrain e = bind_act (bind_act (with_state (\<lambda>s. visiting e (map fst (mg_queues s))))
       (\<lambda>accounts. each_unless e (leave_queue_of e) accounts None))
     (\<lambda>result. bind_act (bind_act (with_state (\<lambda>s. visiting e (map snd (mg_rooms s)))) (\<lambda>rs. drain_rooms e rs result)) returning)"

definition BeginDrain :: "lobby_env \<Rightarrow> (nat \<Rightarrow> lobby_error option) option \<Rightarrow> unit act" where
  "BeginDrain e authorize = after (checkAuthority e) (case authorize of
     None \<Rightarrow> raise ErrTextUnavailable
   | Some f \<Rightarrow> after (call f) (after Drain (cleanupDrain e)))"

record drain_status =
  ds_AdmissionClosed :: bool
  ds_ActiveMatches :: nat
  ds_PendingTrades :: nat
  ds_PendingAborts :: nat
  ds_WaitingRooms :: nat
  ds_QueuedPlayers :: nat

definition rooms_of :: "text_manager \<Rightarrow> text_room list" where
  "rooms_of s = map (mg_room s \<circ> snd) (mg_rooms s)"

definition running :: "text_room \<Rightarrow> bool" where
  "running room \<longleftrightarrow> rm_match room \<noteq> None \<and> \<not> finished room"

definition DrainStatus :: "lobby_env \<Rightarrow> drain_status act" where
  "DrainStatus e = after (checkAuthority e) (with_state (\<lambda>s. give \<lparr>
     ds_AdmissionClosed = mg_draining s,
     ds_ActiveMatches = length (filter running (rooms_of s)),
     ds_PendingTrades = length (filter (\<lambda>room. case rm_match room of None \<Rightarrow> False
       | Some m \<Rightarrow> match_phase m = PhaseTradeResponse) (rooms_of s)),
     ds_PendingAborts = length (filter (\<lambda>room. rm_pendingAbort room \<noteq> []) (rooms_of s)),
     ds_WaitingRooms = length (filter (\<lambda>room. rm_match room = None) (rooms_of s)),
     ds_QueuedPlayers = length (mg_queues s)\<rparr>))"

definition ActiveMatches :: "text_manager \<Rightarrow> nat" where
  "ActiveMatches s = length (filter (\<lambda>room. rm_pendingAbort room \<noteq> [] \<or> running room) (rooms_of s))"

definition ActiveMatchesContext :: "text_manager \<Rightarrow> nat" where
  "ActiveMatchesContext s =
     length (filter (\<lambda>room. rm_pendingAbort room \<noteq> [] \<or> rm_pendingOperator room \<or> running room) (rooms_of s))"

subsection \<open>The tick\<close>

definition tick_peer :: "lobby_env \<Rightarrow> string \<Rightarrow> unit act" where
  "tick_peer e account = with_state (\<lambda>s. case map_of (mg_peers s) account of
     None \<Rightarrow> give ()
   | Some p \<Rightarrow>
       if (case map_of (mg_members s) (account_of s p) of None \<Rightarrow> False | Some r \<Rightarrow> rm_pendingOperator (mg_room s r)) then give ()
       else if pe_closed (mg_peer s p) then disconnect e p else give ())"

definition tick_queue :: "lobby_env \<Rightarrow> gotime \<Rightarrow> string \<Rightarrow> unit act" where
  "tick_queue e now account = with_state (\<lambda>s. case map_of (mg_queues s) account of
     None \<Rightarrow> give ()
   | Some q \<Rightarrow>
       if \<not> qu_choice q \<and> \<not> now < qu_decision q
       then after (change (\<lambda>s. s\<lparr>mg_queues := AList.update account (q\<lparr>qu_choice := True\<rparr>) (mg_queues s)\<rparr>))
         (emit e (qu_peer q) [] (FrameQueue (queueView q ''choice_required'')))
       else give ())"

definition tick_room :: "lobby_env \<Rightarrow> gotime \<Rightarrow> nat \<Rightarrow> unit act" where
  "tick_room e now r = with_state (\<lambda>s. let room = mg_room s r in
     if rm_pendingOperator room then give ()
     else if rm_pendingAbort room \<noteq> [] then abortPrepared e r
     else case rm_match room of
       None \<Rightarrow> give ()
     | Some m \<Rightarrow>
        (if finished room then pruneFinishedRoom e r
         else case snd (Clock m) of
           None \<Rightarrow> give ()
         | Some deadline \<Rightarrow>
             if now < deadline then give ()
             else bind_act (run_match e r (\<lambda>m. Advance_match m now)) (\<lambda>res.
               if ar_Changed res then broadcastMatch e r else give ())))"

definition tick :: "lobby_env \<Rightarrow> unit act" where
  "tick e = after (checkAuthority e) (bind_act (ask (ev_Now e)) (\<lambda>now. with_state (\<lambda>s.
     bind_act (if mg_draining s then joining None (cleanupDrain e) else give None) (\<lambda>r1.
     bind_act (with_state (\<lambda>s. visiting e (map fst (mg_peers s)))) (\<lambda>accounts. bind_act (each_join (tick_peer e) accounts r1) (\<lambda>r2.
     bind_act (with_state (\<lambda>s. visiting e (map fst (mg_queues s)))) (\<lambda>queued. bind_act (each_join (tick_queue e now) queued r2) (\<lambda>r3.
     bind_act (with_state (\<lambda>s. visiting e (map snd (mg_rooms s)))) (\<lambda>rooms. bind_act (each_join (tick_room e now) rooms r3)
       returning)))))))))"

subsection \<open>Shutdown\<close>

definition close_room :: "lobby_env \<Rightarrow> nat \<Rightarrow> unit act" where
  "close_room e r = with_state (\<lambda>s. let room = mg_room s r in
     if rm_pendingOperator room then raise ErrTextUnavailable
     else if rm_pendingAbort room \<noteq> [] then abortPrepared e r
     else if rm_match room \<noteq> None then dropping (run_match e r Close_match)
     else bind_act (release_all e r) returning)"

definition cancel_queue :: "lobby_env \<Rightarrow> string \<Rightarrow> unit act" where
  "cancel_queue e account = with_state (\<lambda>s. case map_of (mg_queues s) account of
     None \<Rightarrow> give ()
   | Some q \<Rightarrow> call (\<lambda>t. ev_CancelReservation e t (qu_id q) (account_of s (qu_peer q))))"

definition close_peers :: "text_manager \<Rightarrow> text_manager" where
  "close_peers s = fold (\<lambda>(a, p). closePeer p) (mg_peers s) (s\<lparr>mg_queues := []\<rparr>)"

definition Close_lobby :: "lobby_env \<Rightarrow> unit act" where
  "Close_lobby e = after (checkAuthority e) (after Drain
     (bind_act (with_state (\<lambda>s. visiting e (map snd (mg_rooms s)))) (\<lambda>rooms. bind_act (each_join (close_room e) rooms None) (\<lambda>r1.
      bind_act (with_state (\<lambda>s. visiting e (map fst (mg_queues s)))) (\<lambda>queued. bind_act (each_join (cancel_queue e) queued r1) (\<lambda>r2.
        case r2 of None \<Rightarrow> change close_peers | Some err \<Rightarrow> raise err))))))"

subsection \<open>The manager and its steps\<close>

definition NewTextManager :: "lobby_env \<Rightarrow> string \<Rightarrow> lobby_error + text_manager" where
  "NewTextManager e owner0 =
     (let c = ev_tuning e; owner = (if owner0 = [] then ev_uuid e 0 else owner0) in
      if tg_MaxHistoryPageEvents c < 1 \<or> tg_MaxMessageBytes c < 1 then Inl ErrTextUnavailable
      else if (case ev_Prototype e of None \<Rightarrow> False
             | Some snap \<Rightarrow> is_prod c \<or> \<not> ma_Synthetic (bu_Manifest (sx_bundle snap))) then Inl ErrTextUnavailable
      else if \<not> ev_uuid_parse e owner then Inl ErrTextUnavailable
      else Inr \<lparr>mg_peer = (\<lambda>_. \<lparr>pe_AccountID = [], pe_ID = [], pe_binding = [], pe_frames = [], pe_capacity = 0, pe_closed = True\<rparr>),
        mg_room = (\<lambda>_. \<lparr>rm_pendingOperator = False, rm_excludedAccounts = [], rm_pendingAbort = [], rm_id = [], rm_code = [],
          rm_path = [], rm_settings = \<lparr>ls_ModeID = ModeOther [], ls_Size = 0, ls_ContentLanguage = [], ls_PackReleaseID = [],
            ls_RulesVersion = []\<rparr>, rm_settingsRevision = 0, rm_membershipRevision = 0, rm_host = 0, rm_seats = [],
          rm_match = None, rm_matchAccounts = [], rm_rematching = False\<rparr>),
        mg_peers = [], mg_members = [], mg_rooms = [], mg_queues = [], mg_order = 0, mg_owner = owner, mg_draining = False,
        mg_lost = False, mg_maintenancePaused = False, mg_dependencyUnavailable = False, mg_fresh = 0, mg_tick = 1\<rparr>)"

text \<open>
  What may happen next: an operation with the lock held, from a peer that has been opened, or the
  network taking a frame. The operations of administrators (\<open>text_operator.go\<close>) are not among them.
\<close>

inductive lobby_step :: "lobby_env \<Rightarrow> text_manager \<Rightarrow> text_manager \<Rightarrow> bool" for e where
  open_peer: "lobby_step e s (snd (OpenAuthenticated e authenticate s))"
| create: "p < mg_fresh s \<Longrightarrow> lobby_step e s (snd (Create e p st s))"
| join: "p < mg_fresh s \<Longrightarrow> lobby_step e s (snd (Join e p code s))"
| settings: "p < mg_fresh s \<Longrightarrow> lobby_step e s (snd (Settings e p n st s))"
| ready: "p < mg_fresh s \<Longrightarrow> lobby_step e s (snd (Ready e p ack s))"
| leave_room: "p < mg_fresh s \<Longrightarrow> lobby_step e s (snd (Leave e p s))"
| disconnected: "p < mg_fresh s \<Longrightarrow> lobby_step e s (snd (Disconnect e p s))"
| enforce_account: "lobby_step e s (snd (EnforceAccount e active account s))"
| enforce_sanction: "lobby_step e s (snd (EnforceSanction e decided sanction s))"
| rematch: "p < mg_fresh s \<Longrightarrow> lobby_step e s (snd (Rematch e p s))"
| start_match: "p < mg_fresh s \<Longrightarrow> lobby_step e s (snd (Start e p s))"
| queue_join: "p < mg_fresh s \<Longrightarrow> lobby_step e s (snd (QueueJoin e p st s))"
| keep_waiting: "p < mg_fresh s \<Longrightarrow> lobby_step e s (snd (KeepWaiting e p s))"
| queue_leave: "p < mg_fresh s \<Longrightarrow> lobby_step e s (snd (QueueLeave e p s))"
| resync: "p < mg_fresh s \<Longrightarrow> lobby_step e s (snd (Resync e p s))"
| action: "p < mg_fresh s \<Longrightarrow> lobby_step e s (snd (Action e p req s))"
| pruned: "r < mg_fresh s \<Longrightarrow> lobby_step e s (snd (prune_after e r s))"
| reject_action: "p < mg_fresh s \<Longrightarrow> lobby_step e s (snd (RejectAction e p rid code s))"
| dev_role: "p < mg_fresh s \<Longrightarrow> lobby_step e s (snd (DevRole e p role s))"
| dev_specialty: "p < mg_fresh s \<Longrightarrow> lobby_step e s (snd (DevSpecialty e p kind s))"
| set_ready: "lobby_step e s (snd (SetReady b s))"
| set_dependency: "lobby_step e s (snd (SetDependencyReady b s))"
| drain: "lobby_step e s (snd (Drain s))"
| begin_drain: "lobby_step e s (snd (BeginDrain e authorize s))"
| notify: "lobby_step e s (snd (NotifyNotices e s))"
| ticked: "lobby_step e s (snd (tick e s))"
| close_lobby: "lobby_step e s (snd (Close_lobby e s))"
| send_frame: "p < mg_fresh s \<Longrightarrow> lobby_step e s (snd (Send e p rid x s))"
| room_account: "lobby_step e s (snd (RoomAccount e account roomID seat s))"
| visible_text: "lobby_step e s (snd (VisibleText_lobby e account matchID ref s))"
| runtime_ready: "lobby_step e s (snd (RuntimeReady e s))"
| wallet: "lobby_step e s (snd (WithWalletAccess e account operation s))"
| frame_taken: "lobby_step e s (take_frame p s)"

inductive lobby_run :: "lobby_env \<Rightarrow> text_manager \<Rightarrow> text_manager \<Rightarrow> bool" for e s where
  begun: "lobby_run e s s"
| continued: "lobby_run e s u \<Longrightarrow> lobby_step e u v \<Longrightarrow> lobby_run e s v"

end
