(* ===== verification/Lobby_Logic.thy ===== *)
theory Lobby_Logic
  imports Lobby_Run
begin

section \<open>Reasoning about the lobby\<close>

text \<open>
  Most of what an operation does is the same everywhere: it asks the outside world, fences a
  lost authority, closes slow peers and sends frames. The locale \<open>effects\<close> takes a reflexive and transitive relation
  that these primitive effects stay within and shows, once, that everything built from them does;
  \<open>stream_effects\<close> adds the streams of a match, \<open>match_effects\<close> its state, \<open>table_effects\<close> readiness and reservations.
\<close>

definition along :: "(text_manager \<Rightarrow> text_manager \<Rightarrow> bool) \<Rightarrow> 'a act \<Rightarrow> bool" where
  "along R f \<longleftrightarrow> (\<forall>s. R s (snd (f s)))"

lemma alongI: "(\<And>s. R s (snd (f s))) \<Longrightarrow> along R f"
  by (simp add: along_def)

lemma alongD: "along R f \<Longrightarrow> R s (snd (f s))"
  by (simp add: along_def)

named_theorems along_rules "operations that stay within a relation"

lemma authority_done_same: "authority_done e s = (Inr x, s') \<Longrightarrow> mg_lost s' = mg_lost s"
  by (auto simp: authority_done_def give_def bind_act_def ask_def lose_def after_def change_def raise_def
      split: option.splits if_splits)

locale effects =
  fixes R :: "text_manager \<Rightarrow> text_manager \<Rightarrow> bool"
  assumes refl: "R s s"
    and trans: "R s t \<Longrightarrow> R t u \<Longrightarrow> R s u"
    and ticked: "mg_tick s \<le> n \<Longrightarrow> R s (s\<lparr>mg_tick := n\<rparr>)"
    and closed: "R s (upd_peer p (\<lambda>v. v\<lparr>pe_closed := True\<rparr>) s)"
    and fenced: "R s (s\<lparr>mg_lost := True, mg_draining := True\<rparr>)"
    and pushed: "\<not> mg_lost s \<Longrightarrow> R s (upd_peer p (\<lambda>v. v\<lparr>pe_frames := pe_frames v @ [x]\<rparr>) s)"
begin

lemma A_give: "along R (give x)" and A_raise: "along R (raise err)"
  by (simp_all add: along_def give_def raise_def refl)

lemma A_reject: "along R f \<Longrightarrow> along R (reject_when b err f)"
  by (simp add: reject_when_def A_raise)

lemma A_bind: "along R f \<Longrightarrow> (\<And>x. along R (g x)) \<Longrightarrow> along R (bind_act f g)"
  by (rule alongI) (auto simp: bind_act_def split: prod.splits sum.splits dest: alongD intro: trans,
    metis alongD snd_conv, metis alongD snd_conv trans)

lemma A_after: "along R f \<Longrightarrow> along R g \<Longrightarrow> along R (after f g)"
  by (simp add: after_def A_bind)

lemma A_state: "(\<And>s. along R (f s)) \<Longrightarrow> along R (with_state f)"
  by (simp add: along_def with_state_def)

lemma A_change: "(\<And>s. R s (f s)) \<Longrightarrow> along R (change f)"
  by (simp add: along_def change_def)

lemma A_ignoring: "along R f \<Longrightarrow> along R (ignoring f)"
  by (simp add: along_def ignoring_def)

lemma A_ask: "along R (ask f)"
  by (simp add: along_def ask_def ticked)

lemma A_call: "along R (call f)"
  unfolding call_def by (intro A_bind A_ask) (simp add: A_give A_raise split: option.splits)

lemma A_visiting: "along R (visiting e xs)"
  unfolding visiting_def by (intro A_bind A_ask A_give)

lemma A_each_act: "(\<And>x. along R (f x)) \<Longrightarrow> along R (each_act f xs)"
  by (induction xs) (simp_all add: A_give A_after)

lemma A_joining: "along R f \<Longrightarrow> along R (joining acc f)"
  by (rule alongI) (simp add: joining_def case_prod_beta alongD)

lemma A_each_join: "(\<And>x. along R (f x)) \<Longrightarrow> along R (each_join f xs acc)"
  by (induction xs arbitrary: acc) (simp_all add: A_give A_bind A_joining)

lemma A_returning: "along R (returning r)"
  by (simp add: returning_def A_give A_raise split: option.splits)

lemma A_succeeds: "along R f \<Longrightarrow> along R (succeeds f)"
  by (rule alongI) (auto simp: succeeds_def split: prod.splits sum.splits dest: alongD, (metis alongD snd_conv)+)

lemma A_dropping: "along R f \<Longrightarrow> along R (dropping f)"
  unfolding dropping_def by (intro A_bind A_give)

lemma A_on_error: "along R g \<Longrightarrow> along R f \<Longrightarrow> along R (on_error g f)"
  by (rule alongI) (auto simp: on_error_def split: prod.splits sum.splits, (metis alongD snd_conv trans)+)

lemma A_deferring: "along R g \<Longrightarrow> along R f \<Longrightarrow> along R (deferring g f)"
  by (rule alongI) (simp add: deferring_def case_prod_beta, metis alongD trans)

lemma A_closing: "along R f \<Longrightarrow> along R (closing_on_error p f)"
  by (rule alongI) (auto simp: closing_on_error_def closePeer_def split: prod.splits sum.splits,
    (metis alongD snd_conv trans closed)+)

lemma A_member: "(\<And>v. along R (f v)) \<Longrightarrow> along R (with_member r seat f)"
  unfolding with_member_def by (intro A_state) (simp add: A_give split: option.splits)

lemma A_seat: "(\<And>seat v. along R (f seat v)) \<Longrightarrow> along R (with_seat r account f)"
  unfolding with_seat_def by (intro A_state) (auto simp: A_raise split: option.splits)

lemma A_each_unless: "(\<And>x. along R (f x)) \<Longrightarrow> along R (each_unless e f xs acc)"
  by (induction xs arbitrary: acc) (auto simp: A_give A_raise A_ask intro!: A_bind A_joining split: option.splits)

lemmas A_basic = A_give A_raise A_reject A_bind A_after A_state A_ignoring A_ask A_call A_visiting A_each_act
  A_joining A_each_join A_returning A_succeeds A_dropping A_on_error A_deferring A_closing A_member A_seat A_each_unless

lemma R_close: "R s (closePeer p s)"
  by (simp add: closePeer_def closed)

lemma R_fold: "(\<And>x s. R s (f x s)) \<Longrightarrow> R s (fold f xs s)"
  by (induction xs arbitrary: s) (auto intro: refl trans)

lemma R_lose: "R s (loseAuthority s)"
  unfolding loseAuthority_def
  by (rule trans [OF fenced]) (rule R_fold, auto intro: R_close)

lemma A_lose: "along R lose"
  unfolding lose_def by (intro A_after A_change R_lose A_raise)

lemma A_authority: "along R (checkAuthority e)"
  unfolding checkAuthority_def
  by (auto intro!: A_basic A_lose split: option.splits)

lemma A_done: "along R (authority_done e)"
  unfolding authority_done_def by (auto intro!: A_basic A_lose split: option.splits)

lemma A_slow: "along R (slow_consumer p)"
  unfolding slow_consumer_def by (intro A_after A_change A_raise R_close)

lemma A_emit: "along R (emit e p q x)"
proof -
  have push: "R s (snd (after (authority_done e)
      (if int (length (pe_frames (mg_peer s0 p))) < pe_capacity (mg_peer s0 p)
       then change (upd_peer p (\<lambda>v. v\<lparr>pe_frames := pe_frames v @ [(q, x)]\<rparr>)) else slow_consumer p) s))"
    if "\<not> mg_lost s" for s s0
  proof (cases "authority_done e s")
    case (Pair res s')
    have s': "R s s'" using alongD [OF A_done, of s e] Pair by simp
    show ?thesis
    proof (cases res)
      case (Inl err)
      with Pair s' show ?thesis by (simp add: after_def bind_act_def)
    next
      case (Inr u)
      have "\<not> mg_lost s'" using authority_done_same [of e s u s'] Pair Inr that by simp
      then have "R s' (snd ((if int (length (pe_frames (mg_peer s0 p))) < pe_capacity (mg_peer s0 p)
          then change (upd_peer p (\<lambda>v. v\<lparr>pe_frames := pe_frames v @ [(q, x)]\<rparr>)) else slow_consumer p) s'))"
        using alongD [OF A_slow, of s' p] by (simp add: change_def pushed)
      with s' Pair Inr show ?thesis by (auto simp: after_def bind_act_def intro: trans)
    qed
  qed
  show ?thesis
    unfolding emit_def
    by (intro A_after A_done alongI)
      (auto simp: with_state_def reject_when_def raise_def refl A_slow alongD push)
qed

lemma A_dev_frame: "along R (devRoleFrame e r p)"
  unfolding devRoleFrame_def by (auto intro!: A_basic A_emit split: option.splits)

lemma A_lobby: "along R (lobby e r p)"
  unfolding lobby_def Let_def by (auto intro!: A_basic A_emit A_dev_frame split: option.splits)

lemma A_visit_seats: "along R (visit_seats e r)"
  unfolding visit_seats_def by (intro A_state A_visiting)

lemma A_broadcast: "along R (broadcastLobby e r)"
  unfolding broadcastLobby_def by (auto intro!: A_basic A_visit_seats A_lobby split: option.splits)

lemma A_hidden: "along R (hidden_authors e viewer accounts hidden evs)"
  by (induction e viewer accounts hidden evs rule: hidden_authors.induct)
    (auto intro!: A_basic split: option.splits sum.splits)

lemma A_send: "along R (send_snapshot e p m s)"
  unfolding send_snapshot_def by (auto intro!: A_basic A_emit split: sum.splits option.splits)

lemma A_find: "along R (find_release e st)"
  unfolding find_release_def Let_def
  by (auto intro!: A_basic split: option.splits sum.splits prod.splits bool.splits)

lemma A_resolve: "along R (resolve e st)"
  unfolding resolve_def Let_def by (auto intro!: A_basic A_find split: option.splits)

lemma A_access: "along R (access e account st path)"
  unfolding access_def by (auto intro!: A_basic A_authority A_resolve split: option.splits)

lemma A_canMatch: "along R (canMatch e accounts)"
  unfolding canMatch_def by (auto intro!: A_basic split: option.splits)

lemma A_reservation: "along R (reservation e account path)"
  unfolding reservation_def by (intro A_basic A_authority)

lemma A_reserve: "along R (reserve e account path)"
  unfolding reserve_def by (auto intro!: A_basic A_reservation split: prod.splits)

lemma A_draw: "along R (draw_code e n)"
  by (induction n) (auto intro!: A_basic)

lemma A_gather: "along R (gather e first party accounts qs)"
  by (induction qs arbitrary: party accounts) (auto simp: Let_def intro!: A_basic A_canMatch)

lemma A_seed: "along R (ask_seed e)"
  unfolding ask_seed_def by (auto intro!: A_basic split: sum.splits)

lemma A_engine: "along R (engine_result r)"
  unfolding engine_result_def by (auto intro!: A_basic split: sum.splits)

lemmas A_plain = A_basic A_lose A_authority A_done A_slow A_emit A_dev_frame A_lobby A_visit_seats A_broadcast
  A_hidden A_send A_resolve A_access A_canMatch A_reserve A_reservation A_draw A_gather A_seed A_engine

end

subsection \<open>Matches\<close>

locale stream_effects = effects +
  assumes streamed: "rm_match (mg_room s r) = Some m \<Longrightarrow> R s (set_match r (Some (m\<lparr>tm_seq := q\<rparr>)) s)"
begin

lemma snapshot_stream: "SnapshotProjection m seat now = (res, m') \<Longrightarrow> \<exists>q. m' = m\<lparr>tm_seq := q\<rparr>"
  by (auto simp: SnapshotProjection_def snapshotLocked_def Let_def split: if_splits intro: exI [of _ "tm_seq m"])

lemma R_streamed:
  assumes "rm_match (mg_room s r) = Some m" "SnapshotProjection m seat now = (res, m')" "along R f"
  shows "R s (snd (after (change (set_match r (Some m'))) f s))"
proof -
  have "R s (set_match r (Some m') s)" using streamed [OF assms(1)] snapshot_stream [OF assms(2)] by auto
  then show ?thesis
    using trans alongD [OF assms(3)] by (auto simp: after_def bind_act_def change_def)
qed

lemma A_room_snapshot: "along R (room_snapshot e r seat p)"
  unfolding room_snapshot_def
proof (intro A_bind A_ask, rule alongI, unfold with_state_def, goal_cases)
  case (1 now s)
  show ?case
  proof (cases "rm_match (mg_room s r)")
    case None
    then show ?thesis by (simp add: raise_def refl)
  next
    case (Some m)
    then show ?thesis
      by (cases "SnapshotProjection m seat now"; cases "fst (SnapshotProjection m seat now)")
        (auto intro!: R_streamed A_plain)
  qed
qed

lemma A_match_frames: "along R (broadcastMatchFrames e r)"
  unfolding broadcastMatchFrames_def
  by (auto intro!: A_plain A_room_snapshot split: option.splits)

end

locale match_effects = effects +
  assumes matched: "rm_match (mg_room s r) \<noteq> None \<Longrightarrow> R s (set_match r (Some m) s)"

sublocale match_effects \<subseteq> stream_effects
  by unfold_locales (simp add: matched)

context match_effects
begin

text \<open>Writing the match back into a room that has one, wherever the state was read.\<close>

lemma R_rematched:
  assumes "rm_match (mg_room s r) \<noteq> None" "along R f"
  shows "R s (snd (after (change (set_match r (Some m))) f s))"
  using trans [OF matched [OF assms(1)] alongD [OF assms(2)]]
  by (simp add: after_def bind_act_def change_def)

lemma A_run: "along R (run_match e r f)"
  unfolding run_match_def
proof (intro A_bind A_ask, rule alongI, unfold with_state_def Let_def, goal_cases)
  case (1 t s)
  show ?case
  proof (cases "rm_match (mg_room s r)")
    case None
    then show ?thesis by (simp add: raise_def refl)
  next
    case (Some m)
    then show ?thesis
      by (auto intro!: R_rematched A_plain split: prod.splits sum.splits)
  qed
qed

lemma A_reset: "along R (reset_stream e r seat)"
  unfolding reset_stream_def
proof (intro A_bind A_ask, rule alongI, unfold with_state_def, goal_cases)
  case (1 t s)
  show ?case
  proof (cases "rm_match (mg_room s r)")
    case None
    then show ?thesis by (simp add: raise_def refl)
  next
    case (Some m)
    then show ?thesis
      by (auto intro!: R_rematched A_plain split: prod.splits option.splits)
  qed
qed

lemma A_report: "along R (report_error e r p rid code seat)"
  unfolding report_error_def
proof (rule alongI, unfold with_state_def, goal_cases)
  case (1 s)
  show ?case
  proof (cases "rm_match (mg_room s r)")
    case None
    then show ?thesis by (simp add: raise_def refl)
  next
    case (Some m)
    then show ?thesis
      by (auto intro!: R_rematched A_plain split: prod.splits sum.splits)
  qed
qed

lemma A_RejectAction: "along R (RejectAction e p rid code)"
  unfolding RejectAction_def by (auto intro!: A_plain A_report split: option.splits)

lemma A_runtime: "(\<And>r. along R (f r)) \<Longrightarrow> along R (with_runtime e p f)"
  unfolding with_runtime_def by (auto intro!: A_plain split: option.splits)

lemma A_Resync: "along R (Resync e p)"
  unfolding Resync_def by (auto intro!: A_plain A_runtime A_reset A_room_snapshot)

lemma A_Action: "along R (Action e p req)"
  unfolding Action_def by (auto intro!: A_plain A_runtime A_run A_match_frames A_room_snapshot)

lemma A_DevSpecialty: "along R (DevSpecialty e p kind)"
  unfolding DevSpecialty_def by (intro A_plain A_runtime A_run A_room_snapshot)

lemma A_NotifyNotices: "along R (NotifyNotices e)"
  unfolding NotifyNotices_def by (intro A_plain)

lemma A_Send: "along R (Send e p q x)"
  unfolding Send_def by (intro A_plain)

lemma A_RuntimeReady: "along R (RuntimeReady e)"
  unfolding RuntimeReady_def by (intro A_plain)

lemma A_WithWalletAccess: "along R (WithWalletAccess e account operation)"
  unfolding WithWalletAccess_def by (intro A_plain)

lemma A_RoomAccount: "along R (RoomAccount e account roomID seat)"
  unfolding RoomAccount_def Let_def by (auto intro!: A_plain split: option.splits)

lemma A_VisibleText: "along R (VisibleText_lobby e account matchID ref)"
  unfolding VisibleText_lobby_def by (auto intro!: A_plain split: option.splits sum.splits)

end

subsection \<open>Readiness and reservations\<close>

locale table_effects = match_effects +
  assumes reserved: "R s (upd_room r (upd_member seat (\<lambda>v. v\<lparr>me_admission := a\<rparr>)) s)"
    and acked: "R s (upd_room r (upd_member seat (\<lambda>v. v\<lparr>me_ready := b\<rparr>)) s)"
    and role_chosen: "R s (upd_room r (upd_member seat (\<lambda>v. v\<lparr>me_devRole := role\<rparr>)) s)"
    and unready: "R s (upd_room r invalidate s)"
    and cancelled: "R s (upd_room r cancelled_room s)"
    and aborting: "R s (upd_room r (\<lambda>room. room\<lparr>rm_pendingAbort := x\<rparr>) s)"
begin

lemma A_release: "along R (release_seat e r seat)"
  unfolding release_seat_def by (auto intro!: A_plain A_change reserved)

lemma A_release_all: "along R (release_all e r)"
  unfolding release_all_def by (intro A_plain A_release)

lemma A_abort: "along R (abortPrepared e r)"
  unfolding abortPrepared_def Let_def
  by (auto intro!: A_plain A_release_all A_change cancelled split: option.splits)

lemma A_admit: "along R (admit_seats e r seats)"
  by (induction seats)
    (auto simp: edit_member_def intro!: A_plain A_change reserved split: option.splits prod.splits)

lemma A_build: "along R (build_match e r matchID host d)"
  unfolding build_match_def Let_def by (intro A_plain A_admit)

lemma A_prepare: "along R (prepare_match e r matchID)"
  unfolding prepare_match_def Let_def by (auto intro!: A_plain A_build split: option.splits)

lemma A_commit: "along R (commit_match e r matchID now pm)"
  unfolding commit_match_def durable_start_def by (intro A_plain)

lemma A_failing: "along R cleanup \<Longrightarrow> along R f \<Longrightarrow> along R (failing_with r e cleanup f)"
proof (rule alongI)
  fix s assume c: "along R cleanup" and f: "along R f"
  have u: "along R (after (change (upd_room r invalidate)) (broadcastLobby e r))"
    by (intro A_plain A_change unready)
  show "R s (snd (failing_with r e cleanup f s))"
  proof (cases "f s")
    case (Pair res s1)
    have 1: "R s s1" using alongD [OF f, of s] Pair by simp
    obtain c1 s2 where c1: "cleanup s1 = (c1, s2)" by (cases "cleanup s1")
    have 2: "R s1 s2" using alongD [OF c, of s1] c1 by simp
    show ?thesis
    proof (cases res)
      case (Inl err)
      have "R s2 (snd (after (change (upd_room r invalidate)) (broadcastLobby e r) s2))" by (rule alongD [OF u])
      then show ?thesis using trans [OF trans [OF 1 2]] by (simp add: failing_with_def Pair Inl c1)
    next
      case (Inr x)
      then show ?thesis using 1 by (simp add: failing_with_def Pair)
    qed
  qed
qed

lemma A_cancel_prepared: "along R (cancel_prepared e r matchID)"
  unfolding cancel_prepared_def by (intro A_plain A_abort A_change aborting)

lemma A_Ready: "along R (Ready e p ack)"
  unfolding Ready_def Let_def edit_member_def
  by (auto intro!: A_plain A_change reserved acked split: option.splits)

lemma A_DevRole: "along R (DevRole e p role)"
  unfolding DevRole_def edit_member_def by (intro A_plain A_runtime A_change role_chosen)

lemma A_drain_room: "along R (drain_room e r acc)"
  unfolding drain_room_def Let_def by (auto intro!: A_plain A_release A_change unready)

lemma A_drain_rooms: "along R (drain_rooms e rs acc)"
  by (induction rs arbitrary: acc) (auto intro!: A_plain A_drain_room)

lemma A_close_room: "along R (close_room e r)"
  unfolding close_room_def Let_def by (auto intro!: A_plain A_abort A_run A_release_all)

end

end
