(* ===== verification/Lobby_Table.thy ===== *)
theory Lobby_Table
  imports Lobby_Logic
begin

section \<open>Who sits where: the invariant of the lobby\<close>

text \<open>
  The table of the lobby is its state without what comes and goes with every frame: connections
  being open, buffers, ticks, fences, matches, readiness, reservations. Two states with the same
  table differ at most in those.
\<close>

definition bare_member :: "text_member \<Rightarrow> text_member" where
  "bare_member v = v\<lparr>me_admission := [], me_ready := None, me_devRole := []\<rparr>"

definition layout :: "text_room \<Rightarrow> text_room" where
  "layout room = room\<lparr>rm_match := None, rm_pendingAbort := [],
     rm_seats := map (\<lambda>(i, v). (i, bare_member v)) (rm_seats room)\<rparr>"

definition same_table :: "text_manager \<Rightarrow> text_manager \<Rightarrow> bool" where
  "same_table s t \<longleftrightarrow> mg_peers t = mg_peers s \<and> mg_members t = mg_members s \<and> mg_rooms t = mg_rooms s
     \<and> mg_queues t = mg_queues s \<and> mg_order t = mg_order s \<and> mg_fresh t = mg_fresh s \<and> mg_owner t = mg_owner s
     \<and> (\<forall>p. account_of t p = account_of s p) \<and> (\<forall>r. layout (mg_room t r) = layout (mg_room s r))"

lemma layout_match [simp]: "layout (room\<lparr>rm_match := m\<rparr>) = layout room"
  and layout_abort [simp]: "layout (room\<lparr>rm_pendingAbort := x\<rparr>) = layout room"
  by (simp_all add: layout_def)

lemma layout_invalidate [simp]: "layout (invalidate room) = layout room"
  by (simp add: layout_def invalidate_def comp_def case_prod_beta bare_member_def)

lemma layout_cancelled [simp]: "layout (cancelled_room room) = layout room"
  by (simp add: cancelled_room_def) (simp add: layout_def comp_def case_prod_beta bare_member_def)

lemma map_update_same:
  "map_of xs k = Some v \<Longrightarrow> g w = g v \<Longrightarrow>
   map (\<lambda>(i, v). (i, g v)) (AList.update k w xs) = map (\<lambda>(i, v). (i, g v)) xs"
  by (induction xs) auto

lemma layout_member:
  "(\<And>v. bare_member (f v) = bare_member v) \<Longrightarrow> layout (upd_member seat f room) = layout room"
  by (simp add: upd_member_def set_member_def layout_def map_update_same split: option.splits)

lemma room_upd_room: "mg_room (upd_room r f s) r' = (if r' = r then f (mg_room s r) else mg_room s r')"
  by (simp add: upd_room_def)

lemma peer_upd_peer: "mg_peer (upd_peer p f s) p' = (if p' = p then f (mg_peer s p) else mg_peer s p')"
  by (simp add: upd_peer_def)

lemma upd_room_simps [simp]:
  "mg_peers (upd_room r f s) = mg_peers s" "mg_members (upd_room r f s) = mg_members s"
  "mg_rooms (upd_room r f s) = mg_rooms s" "mg_queues (upd_room r f s) = mg_queues s"
  "mg_order (upd_room r f s) = mg_order s" "mg_fresh (upd_room r f s) = mg_fresh s"
  "mg_peer (upd_room r f s) = mg_peer s" "mg_owner (upd_room r f s) = mg_owner s" "mg_lost (upd_room r f s) = mg_lost s"
  "account_of (upd_room r f s) p = account_of s p"
  by (simp_all add: upd_room_def account_of_def)

lemma upd_peer_simps [simp]:
  "mg_peers (upd_peer p f s) = mg_peers s" "mg_members (upd_peer p f s) = mg_members s"
  "mg_rooms (upd_peer p f s) = mg_rooms s" "mg_queues (upd_peer p f s) = mg_queues s"
  "mg_order (upd_peer p f s) = mg_order s" "mg_fresh (upd_peer p f s) = mg_fresh s"
  "mg_room (upd_peer p f s) = mg_room s" "mg_owner (upd_peer p f s) = mg_owner s" "mg_lost (upd_peer p f s) = mg_lost s"
  by (simp_all add: upd_peer_def)

lemma same_table_room: "layout (f (mg_room s r)) = layout (mg_room s r) \<Longrightarrow> same_table s (upd_room r f s)"
  by (simp add: same_table_def room_upd_room)

interpretation table: table_effects same_table
proof unfold_locales
  fix s t u :: text_manager
  show "same_table s s" by (simp add: same_table_def)
  show "same_table s t \<Longrightarrow> same_table t u \<Longrightarrow> same_table s u" by (simp add: same_table_def)
  show "same_table s (upd_peer p (\<lambda>v. v\<lparr>pe_closed := True\<rparr>) s)"
    "same_table s (upd_peer p (\<lambda>v. v\<lparr>pe_frames := pe_frames v @ [x]\<rparr>) s)" for p x
    by (simp_all add: same_table_def account_of_def peer_upd_peer)
  show "same_table s (set_match r (Some m) s)" for r m
    unfolding set_match_def by (rule same_table_room) simp
qed (simp_all add: same_table_def account_of_def room_upd_room layout_member bare_member_def)

subsection \<open>The invariant\<close>

definition accounts_in :: "text_room \<Rightarrow> string list" where
  "accounts_in room = map (\<lambda>x. me_account (snd x)) (rm_seats room)"

definition seats_in :: "text_room \<Rightarrow> int list" where
  "seats_in room = map fst (rm_seats room)"

text \<open>A room in order: distinct seats below its size, distinct accounts, and a seat's connection is its account's.\<close>

definition seat_in_order :: "text_manager \<Rightarrow> int \<Rightarrow> int \<times> text_member \<Rightarrow> bool" where
  "seat_in_order s n x \<longleftrightarrow> 0 \<le> fst x \<and> fst x < n
     \<and> (\<forall>p. me_peer (snd x) = Some p \<longrightarrow> p < mg_fresh s \<and> account_of s p = me_account (snd x))"

definition room_ok :: "text_manager \<Rightarrow> text_room \<Rightarrow> bool" where
  "room_ok s room \<longleftrightarrow> ls_Size (rm_settings room) \<in> {4, 6}
     \<and> distinct (seats_in room) \<and> distinct (accounts_in room)
     \<and> list_all (seat_in_order s (ls_Size (rm_settings room))) (rm_seats room)"

definition queue_ok :: "text_manager \<Rightarrow> string \<Rightarrow> text_queue \<Rightarrow> bool" where
  "queue_ok s a q \<longleftrightarrow> qu_peer q < mg_fresh s \<and> account_of s (qu_peer q) = a \<and> map_of (mg_members s) a = None
     \<and> qu_order q \<le> mg_order s"

definition listed_room :: "text_manager \<Rightarrow> nat \<Rightarrow> bool" where
  "listed_room s r \<longleftrightarrow> map_of (mg_rooms s) (rm_code (mg_room s r)) = Some r"

definition lobby_ok :: "text_manager \<Rightarrow> bool" where
  "lobby_ok s \<longleftrightarrow> distinct (map fst (mg_peers s)) \<and> distinct (map fst (mg_members s))
     \<and> distinct (map fst (mg_rooms s)) \<and> distinct (map fst (mg_queues s))
     \<and> (\<forall>a p. map_of (mg_peers s) a = Some p \<longrightarrow> p < mg_fresh s \<and> account_of s p = a)
     \<and> (\<forall>a q. map_of (mg_queues s) a = Some q \<longrightarrow> queue_ok s a q)
     \<and> (\<forall>c r. map_of (mg_rooms s) c = Some r \<longrightarrow> r < mg_fresh s \<and> rm_code (mg_room s r) = c \<and> room_ok s (mg_room s r))
     \<and> (\<forall>a r. map_of (mg_members s) a = Some r \<longleftrightarrow> listed_room s r \<and> a \<in> set (accounts_in (mg_room s r)))"

lemma layout_simps [simp]:
  "rm_code (layout room) = rm_code room" "rm_settings (layout room) = rm_settings room"
  "rm_host (layout room) = rm_host room" "rm_path (layout room) = rm_path room"
  "rm_settingsRevision (layout room) = rm_settingsRevision room"
  "rm_membershipRevision (layout room) = rm_membershipRevision room"
  "rm_pendingOperator (layout room) = rm_pendingOperator room"
  "rm_excludedAccounts (layout room) = rm_excludedAccounts room" "rm_id (layout room) = rm_id room"
  "rm_seats (layout room) = map (\<lambda>(i, v). (i, bare_member v)) (rm_seats room)"
  by (simp_all add: layout_def)

lemma layout_fields:
  assumes "layout room = layout room'"
  shows "rm_code room = rm_code room'" "rm_settings room = rm_settings room'" "rm_host room = rm_host room'"
    "rm_path room = rm_path room'" "rm_settingsRevision room = rm_settingsRevision room'"
    "rm_membershipRevision room = rm_membershipRevision room'" "rm_pendingOperator room = rm_pendingOperator room'"
    "rm_excludedAccounts room = rm_excludedAccounts room'" "rm_id room = rm_id room'"
    "map (\<lambda>(i, v). (i, bare_member v)) (rm_seats room) = map (\<lambda>(i, v). (i, bare_member v)) (rm_seats room')"
  using assms by (metis layout_simps)+

lemma layout_lists:
  assumes "layout room = layout room'"
  shows "seats_in room = seats_in room'" "accounts_in room = accounts_in room'"
    "length (rm_seats room) = length (rm_seats room')"
proof -
  note seats = layout_fields(10) [OF assms]
  show "seats_in room = seats_in room'"
    using arg_cong [OF seats, of "map fst"] by (simp add: seats_in_def comp_def case_prod_beta)
  show "accounts_in room = accounts_in room'"
    using arg_cong [OF seats, of "map (\<lambda>x. me_account (snd x))"]
    by (simp add: accounts_in_def comp_def case_prod_beta bare_member_def)
  show "length (rm_seats room) = length (rm_seats room')"
    using arg_cong [OF seats, of length] by simp
qed

lemma layout_room_ok:
  assumes "layout room' = layout room" "mg_fresh t = mg_fresh s" "\<And>p. account_of t p = account_of s p"
  shows "room_ok t room' \<longleftrightarrow> room_ok s room"
proof -
  have bare: "list_all (seat_in_order s n) (map (\<lambda>(i, v). (i, bare_member v)) xs) = list_all (seat_in_order s n) xs" for n xs
    by (induction xs) (auto simp: seat_in_order_def bare_member_def)
  have "list_all (seat_in_order s n) (rm_seats room') = list_all (seat_in_order s n) (rm_seats room)" for n
    using bare [of n "rm_seats room'"] bare [of n "rm_seats room"] layout_fields(10) [OF assms(1)] by simp
  moreover have "seat_in_order t = seat_in_order s" by (intro ext) (simp add: seat_in_order_def assms(2,3))
  ultimately show ?thesis
    unfolding room_ok_def by (simp only: layout_fields(2) [OF assms(1)] layout_lists(1,2) [OF assms(1)])
qed

lemma same_table_live: "same_table s t \<Longrightarrow> listed_room t r = listed_room s r"
  unfolding listed_room_def same_table_def using layout_fields(1) by metis

lemma same_table_ok:
  assumes "same_table s t" shows "lobby_ok t \<longleftrightarrow> lobby_ok s"
proof -
  note T = assms [unfolded same_table_def]
  have rooms: "room_ok t (mg_room t r) = room_ok s (mg_room s r)" "rm_code (mg_room t r) = rm_code (mg_room s r)"
      "accounts_in (mg_room t r) = accounts_in (mg_room s r)" for r
    using T layout_room_ok [of "mg_room t r" "mg_room s r" t s] layout_fields(1) layout_lists(2) by metis+
  have q: "queue_ok t a q = queue_ok s a q" for a q using T by (simp add: queue_ok_def)
  show ?thesis
    unfolding lobby_ok_def rooms q same_table_live [OF assms] using T by simp
qed

end
