(* ===== verification/Lobby_Moves.thy ===== *)
theory Lobby_Moves
  imports Lobby_Table
begin

section \<open>The updates of the lobby keep its invariant\<close>

definition room_live :: "nat \<Rightarrow> text_manager \<Rightarrow> bool" where
  "room_live r s \<longleftrightarrow> lobby_ok s \<and> listed_room s r"

subsection \<open>Reading\<close>

lemma member_iff: "lobby_ok s \<Longrightarrow> map_of (mg_members s) a = Some r \<longleftrightarrow> listed_room s r \<and> a \<in> set (accounts_in (mg_room s r))"
  by (simp add: lobby_ok_def)

lemma live_ok: "lobby_ok s \<Longrightarrow> listed_room s r \<Longrightarrow> r < mg_fresh s \<and> room_ok s (mg_room s r)"
  by (auto simp: lobby_ok_def listed_room_def)

lemma member_seat_Some:
  assumes "member_seat room a = Some (i, v)"
  shows "(i, v) \<in> set (rm_seats room) \<and> me_account v = a"
  using assms by (auto simp: member_seat_def find_Some_iff in_set_conv_nth)

lemma seat_map_of: "room_ok s room \<Longrightarrow> (i, v) \<in> set (rm_seats room) \<longleftrightarrow> map_of (rm_seats room) i = Some v"
  by (simp add: room_ok_def seats_in_def)

lemma seat_unique: "room_ok s room \<Longrightarrow> (i, v) \<in> set (rm_seats room) \<Longrightarrow> (i, w) \<in> set (rm_seats room) \<Longrightarrow> w = v"
  by (simp add: seat_map_of)

lemma room_ok_cong: "mg_fresh t = mg_fresh s \<Longrightarrow> account_of t = account_of s \<Longrightarrow> room_ok t = room_ok s"
  by (simp add: room_ok_def seat_in_order_def fun_eq_iff cong: list.pred_cong)

lemma account_of_seat: "(i, v) \<in> set (rm_seats room) \<Longrightarrow> me_account v \<in> set (accounts_in room)"
  by (force simp: accounts_in_def)

subsection \<open>A free seat\<close>

lemma first_free_le: "first_free n i seats \<le> i + int n \<and> i \<le> first_free n i seats"
  by (induction n i seats rule: first_free.induct) auto

lemma first_free_None:
  "finite K \<Longrightarrow> {k \<in> dom (map_of seats). i \<le> k} \<subseteq> K \<Longrightarrow> card K \<le> n \<Longrightarrow> map_of seats (first_free n i seats) = None"
proof (induction n i seats arbitrary: K rule: first_free.induct)
  case (1 i seats)
  then have "{k \<in> dom (map_of seats). i \<le> k} = {}" by auto
  then show ?case by auto
next
  case (2 n i seats)
  show ?case
  proof (cases "map_of seats i = None")
    case True
    then show ?thesis by simp
  next
    case False
    then have "i \<in> K" using 2(3) by blast
    then have "card (K - {i}) \<le> n" using 2(2,4) by simp
    moreover have "{k \<in> dom (map_of seats). i + 1 \<le> k} \<subseteq> K - {i}" using 2(3) by auto
    ultimately show ?thesis using 2(1) [OF False, of "K - {i}"] 2(2) False by simp
  qed
qed

lemma free_seat:
  assumes "room_ok s room" "int (length (rm_seats room)) < ls_Size (rm_settings room)"
  shows "0 \<le> free_seat room \<and> free_seat room < ls_Size (rm_settings room) \<and> map_of (rm_seats room) (free_seat room) = None"
proof -
  have "card (fst ` set (rm_seats room)) \<le> length (rm_seats room)"
    using card_length [of "map fst (rm_seats room)"] by simp
  moreover have "{k \<in> dom (map_of (rm_seats room)). 0 \<le> k} \<subseteq> fst ` set (rm_seats room)"
    by (auto simp: dom_map_of_conv_image_fst)
  ultimately have "map_of (rm_seats room) (free_seat room) = None"
    unfolding free_seat_def using first_free_None [of "fst ` set (rm_seats room)"] by blast
  then show ?thesis using first_free_le [of "length (rm_seats room)" 0 "rm_seats room"] assms(2)
    by (simp add: free_seat_def)
qed

lemma update_absent: "map_of xs k = None \<Longrightarrow> AList.update k v xs = xs @ [(k, v)]"
  by (induction xs) (auto split: if_splits)

subsection \<open>Rewriting one room\<close>

text \<open>A room may be rewritten if it stays in order and keeps its code and its accounts.\<close>

lemma rewrite_room:
  assumes ok: "lobby_ok s" and lv: "listed_room s r" and f: "rm_code (f (mg_room s r)) = rm_code (mg_room s r)"
    "set (accounts_in (f (mg_room s r))) = set (accounts_in (mg_room s r))" "room_ok s (f (mg_room s r))"
  shows "room_live r (upd_room r f s)"
proof -
  let ?s = "upd_room r f s"
  have code: "rm_code (mg_room ?s x) = rm_code (mg_room s x)" for x by (simp add: room_upd_room f(1))
  have l: "listed_room ?s x = listed_room s x" for x by (simp add: listed_room_def code)
  have a: "set (accounts_in (mg_room ?s x)) = set (accounts_in (mg_room s x))" for x by (simp add: room_upd_room f(2))
  have "seat_in_order ?s = seat_in_order s" by (intro ext) (simp add: seat_in_order_def)
  then have rok: "room_ok ?s room = room_ok s room" for room by (simp add: room_ok_def)
  have q: "queue_ok ?s = queue_ok s" by (intro ext) (simp add: queue_ok_def)
  have "lobby_ok ?s"
    unfolding lobby_ok_def l a code rok q
    using ok f(3) by (auto simp: lobby_ok_def room_upd_room)
  then show ?thesis using lv l by (simp add: room_live_def)
qed

lemma reshuffled_fields [simp]:
  "rm_code (reshuffled room) = rm_code room" "accounts_in (reshuffled room) = accounts_in room"
  "room_ok s (reshuffled room) = room_ok s room" "rm_settings (reshuffled room) = rm_settings room"
  "length (rm_seats (reshuffled room)) = length (rm_seats room)"
proof -
  have b: "layout (reshuffled room) = layout (room\<lparr>rm_membershipRevision := Suc (rm_membershipRevision room)\<rparr>)"
    by (simp add: reshuffled_def)
  show "rm_code (reshuffled room) = rm_code room" using layout_fields(1) [OF b] by simp
  show "rm_settings (reshuffled room) = rm_settings room" using layout_fields(2) [OF b] by simp
  show "accounts_in (reshuffled room) = accounts_in room" using layout_lists(2) [OF b] by (simp add: accounts_in_def)
  show "length (rm_seats (reshuffled room)) = length (rm_seats room)" using layout_lists(3) [OF b] by simp
  show "room_ok s (reshuffled room) = room_ok s room"
    using layout_room_ok [OF b, of s s] by (simp add: room_ok_def accounts_in_def seats_in_def)
qed

lemma reshuffle_room: "lobby_ok s \<Longrightarrow> listed_room s r \<Longrightarrow> room_live r (upd_room r reshuffled s)"
  by (rule rewrite_room) (simp_all add: live_ok)

subsection \<open>Sitting down\<close>

lemma sit_down_ok:
  assumes ok: "lobby_ok s" and lv: "listed_room s r"
    and out: "map_of (mg_members s) (me_account v) = None"
    and room: "int (length (rm_seats (mg_room s r))) < ls_Size (rm_settings (mg_room s r))"
    and peer: "\<And>p. me_peer v = Some p \<Longrightarrow> p < mg_fresh s \<and> account_of s p = me_account v"
  shows "room_live r ((sit_down r v s)\<lparr>mg_queues := AList.delete (me_account v) (mg_queues s)\<rparr>)"
proof -
  let ?s = "(sit_down r v s)\<lparr>mg_queues := AList.delete (me_account v) (mg_queues s)\<rparr>"
  let ?a = "me_account v" let ?room = "mg_room s r"
  have rok: "room_ok s ?room" using live_ok [OF ok lv] by simp
  note free = free_seat [OF rok room]
  have seats: "rm_seats (mg_room ?s r) = rm_seats ?room @ [(free_seat ?room, v)]"
    using free by (simp add: sit_down_def room_upd_room set_member_def update_absent)
  have other: "mg_room ?s x = mg_room s x" if "x \<noteq> r" for x
    using that by (simp add: sit_down_def room_upd_room)
  have code: "rm_code (mg_room ?s x) = rm_code (mg_room s x)" "rm_settings (mg_room ?s x) = rm_settings (mg_room s x)" for x
    by (simp_all add: sit_down_def room_upd_room set_member_def)
  have keep: "mg_rooms ?s = mg_rooms s" "mg_peers ?s = mg_peers s" "mg_fresh ?s = mg_fresh s" "mg_order ?s = mg_order s"
      "mg_members ?s = AList.update ?a r (mg_members s)" "account_of ?s = account_of s"
    by (simp_all add: sit_down_def account_of_def fun_eq_iff)
  have l: "listed_room ?s x = listed_room s x" for x by (simp only: listed_room_def code keep)
  have acc: "accounts_in (mg_room ?s r) = accounts_in ?room @ [?a]" unfolding accounts_in_def seats by simp
  have notin: "?a \<notin> set (accounts_in (mg_room s x))" if "listed_room s x" for x
    using member_iff [OF ok, of ?a x] out that by auto
  have sio: "seat_in_order ?s = seat_in_order s" by (intro ext) (simp add: seat_in_order_def keep)
  have "free_seat ?room \<notin> set (seats_in ?room)" using free by (auto simp: seats_in_def map_of_eq_None_iff)
  moreover have keys: "seats_in (mg_room ?s r) = seats_in ?room @ [free_seat ?room]" unfolding seats_in_def seats by simp
  ultimately have "room_ok ?s (mg_room ?s r)"
    using rok free peer notin [OF lv] unfolding room_ok_def sio acc keys code seats
    by (auto simp: seat_in_order_def)
  moreover have "room_ok ?s (mg_room s x) = room_ok s (mg_room s x)" for x by (simp add: room_ok_def sio)
  ultimately have rooms: "room_ok ?s (mg_room ?s x)" if "room_ok s (mg_room s x)" for x
    using that other by (cases "x = r") auto
  have "lobby_ok ?s"
    unfolding lobby_ok_def
  proof (intro conjI allI impI)
    show "distinct (map fst (mg_peers ?s))" "distinct (map fst (mg_members ?s))" "distinct (map fst (mg_rooms ?s))"
      "distinct (map fst (mg_queues ?s))"
      using ok by (simp_all add: keep lobby_ok_def distinct_update distinct_delete)
    show "p < mg_fresh ?s" "account_of ?s p = a" if "map_of (mg_peers ?s) a = Some p" for a p
      using ok that by (auto simp: keep lobby_ok_def)
    show "queue_ok ?s a q" if "map_of (mg_queues ?s) a = Some q" for a q
      using ok that by (auto simp: lobby_ok_def queue_ok_def keep map_of_delete map_of_update split: if_splits)
    show "r' < mg_fresh ?s" "rm_code (mg_room ?s r') = c" "room_ok ?s (mg_room ?s r')" if "map_of (mg_rooms ?s) c = Some r'" for c r'
      using ok that rooms [of r'] unfolding keep code by (auto simp: lobby_ok_def)
    show "(map_of (mg_members ?s) a = Some r') = (listed_room ?s r' \<and> a \<in> set (accounts_in (mg_room ?s r')))" for a r'
    proof (cases "r' = r")
      case True
      show ?thesis
        using member_iff [OF ok, of a r] lv notin [OF lv] unfolding True l acc keep by (auto simp: map_of_update)
    next
      case False
      then show ?thesis
        using member_iff [OF ok, of a r'] notin [of r'] unfolding l other [OF False] keep by (auto simp: map_of_update)
    qed
  qed
  then show ?thesis using lv l by (simp add: room_live_def)
qed


lemma sit_new_ok:
  assumes "lobby_ok s" "listed_room s r" "map_of (mg_members s) (account_of s p) = None"
    "map_of (mg_queues s) (account_of s p) = None" "p < mg_fresh s"
    "int (length (rm_seats (mg_room s r))) < ls_Size (rm_settings (mg_room s r))"
  shows "room_live r (sit_new r p admission s)"
proof -
  let ?v = "new_member (account_of s p) admission p (Suc (mg_order s))"
  have "AList.delete (account_of s p) (mg_queues s) = mg_queues s"
    using assms(4) by (simp add: delete_id map_of_eq_None_iff)
  then have same: "(sit_down r ?v s)\<lparr>mg_queues := AList.delete (me_account ?v) (mg_queues s)\<rparr> = sit_down r ?v s"
    by (simp add: new_member_def sit_down_def upd_room_def)
  have "room_live r ((sit_down r ?v s)\<lparr>mg_queues := AList.delete (me_account ?v) (mg_queues s)\<rparr>)"
    using assms by (intro sit_down_ok) (simp_all add: new_member_def)
  then have "room_live r (sit_down r ?v s)" by (simp only: same)
  moreover have "room_live r (t\<lparr>mg_order := Suc (mg_order s)\<rparr>)" if "room_live r t" "mg_order t = mg_order s" for t
  proof -
    have "queue_ok (t\<lparr>mg_order := Suc (mg_order s)\<rparr>) a q" if "queue_ok t a q" for a q
      using that \<open>mg_order t = mg_order s\<close> by (simp add: queue_ok_def account_of_def)
    moreover have "room_ok (t\<lparr>mg_order := Suc (mg_order s)\<rparr>) = room_ok t"
      by (rule room_ok_cong) (simp_all add: account_of_def fun_eq_iff)
    ultimately show ?thesis using that(1)
      by (simp add: room_live_def lobby_ok_def listed_room_def account_of_def)
  qed
  ultimately show ?thesis by (simp add: sit_new_def Let_def sit_down_def)
qed

subsection \<open>Standing up\<close>

lemma unlisted_distinct: "distinct (map f xs) \<Longrightarrow> distinct (map f (AList.delete k xs))"
  unfolding AList.delete_eq by (rule distinct_map_filter)

lemma forget_seat_ok:
  assumes ok: "lobby_ok s" and lv: "listed_room s r" and seat: "(seat, v) \<in> set (rm_seats (mg_room s r))"
  shows "room_live r (forget_seat r seat (me_account v) s)"
proof -
  let ?s = "forget_seat r seat (me_account v) s" let ?a = "me_account v" let ?room = "mg_room s r"
  have rok: "room_ok s ?room" using live_ok [OF ok lv] by simp
  have seats: "rm_seats (mg_room ?s r) = AList.delete seat (rm_seats ?room)"
    by (simp add: forget_seat_def room_upd_room drop_seat_def)
  have other: "mg_room ?s x = mg_room s x" if "x \<noteq> r" for x
    using that by (simp add: forget_seat_def room_upd_room)
  have code: "rm_code (mg_room ?s x) = rm_code (mg_room s x)" "rm_settings (mg_room ?s x) = rm_settings (mg_room s x)" for x
    by (simp_all add: forget_seat_def room_upd_room drop_seat_def)
  have keep: "mg_rooms ?s = mg_rooms s" "mg_peers ?s = mg_peers s" "mg_fresh ?s = mg_fresh s" "mg_order ?s = mg_order s"
      "mg_queues ?s = mg_queues s" "mg_members ?s = AList.delete ?a (mg_members s)" "account_of ?s = account_of s"
    by (simp_all add: forget_seat_def account_of_def fun_eq_iff)
  have l: "listed_room ?s x = listed_room s x" for x by (simp only: listed_room_def code keep)
  have acc: "set (accounts_in (mg_room ?s r)) = set (accounts_in ?room) - {?a}"
  proof -
    have inj: "inj_on (\<lambda>x. me_account (snd x)) (set (rm_seats ?room))"
      using rok by (simp add: room_ok_def accounts_in_def distinct_map)
    have u: "\<And>x. x \<in> set (rm_seats ?room) \<Longrightarrow> fst x = seat \<Longrightarrow> x = (seat, v)"
    proof -
      fix x assume "x \<in> set (rm_seats ?room)" "fst x = seat"
      then have "(seat, snd x) \<in> set (rm_seats ?room)" by (metis prod.collapse)
      then show "x = (seat, v)" using seat_unique [OF rok seat] \<open>fst x = seat\<close> by (metis prod.collapse)
    qed
    have "{x \<in> set (rm_seats ?room). fst x \<noteq> seat} = set (rm_seats ?room) - {(seat, v)}"
      by (rule set_eqI) (metis (mono_tags, lifting) DiffD1 DiffD2 DiffI fst_conv mem_Collect_eq singletonD singletonI u)
    moreover have "set (accounts_in (mg_room ?s r)) = (\<lambda>x. me_account (snd x)) ` {x \<in> set (rm_seats ?room). fst x \<noteq> seat}"
      unfolding accounts_in_def seats AList.delete_eq by force
    ultimately show ?thesis
      using inj_on_image_set_diff [of "\<lambda>x. me_account (snd x)" "set (rm_seats ?room)" "set (rm_seats ?room)" "{(seat, v)}"]
        inj seat
      by (simp add: accounts_in_def)
  qed
  have mine: "map_of (mg_members s) ?a = Some r" using member_iff [OF ok] lv account_of_seat [OF seat] by simp
  have sio: "seat_in_order ?s = seat_in_order s" by (intro ext) (simp add: seat_in_order_def keep)
  have "distinct (seats_in (mg_room ?s r))" "distinct (accounts_in (mg_room ?s r))"
    using rok unfolding seats_in_def accounts_in_def seats
    by (simp_all add: room_ok_def seats_in_def accounts_in_def unlisted_distinct)
  moreover have "set (rm_seats (mg_room ?s r)) \<subseteq> set (rm_seats ?room)"
    unfolding seats AList.delete_eq by simp
  ultimately have "room_ok ?s (mg_room ?s r)"
    using rok unfolding room_ok_def sio code by (auto simp: list_all_iff)
  moreover have "room_ok ?s (mg_room s x) = room_ok s (mg_room s x)" for x by (simp add: room_ok_def sio)
  ultimately have rooms: "room_ok ?s (mg_room ?s x)" if "room_ok s (mg_room s x)" for x
    using that other by (cases "x = r") auto
  have "lobby_ok ?s"
    unfolding lobby_ok_def
  proof (intro conjI allI impI)
    show "distinct (map fst (mg_peers ?s))" "distinct (map fst (mg_members ?s))" "distinct (map fst (mg_rooms ?s))"
      "distinct (map fst (mg_queues ?s))"
      using ok by (simp_all add: keep lobby_ok_def distinct_delete)
    show "p < mg_fresh ?s" "account_of ?s p = a" if "map_of (mg_peers ?s) a = Some p" for a p
      using ok that by (auto simp: keep lobby_ok_def)
    show "queue_ok ?s a q" if "map_of (mg_queues ?s) a = Some q" for a q
      using ok that by (auto simp: lobby_ok_def queue_ok_def keep map_of_delete)
    show "r' < mg_fresh ?s" "rm_code (mg_room ?s r') = c" "room_ok ?s (mg_room ?s r')" if "map_of (mg_rooms ?s) c = Some r'" for c r'
      using ok that rooms [of r'] unfolding keep code by (auto simp: lobby_ok_def)
    show "(map_of (mg_members ?s) a = Some r') = (listed_room ?s r' \<and> a \<in> set (accounts_in (mg_room ?s r')))" for a r'
    proof (cases "r' = r")
      case True
      show ?thesis using member_iff [OF ok, of a r] lv unfolding True l acc keep by (auto simp: map_of_delete)
    next
      case False
      then show ?thesis
        using member_iff [OF ok, of a r'] mine unfolding l other [OF False] keep by (auto simp: map_of_delete)
    qed
  qed
  then show ?thesis using lv l by (simp add: room_live_def)
qed

lemma drop_empty_ok:
  assumes ok: "lobby_ok s" and lv: "listed_room s r"
  shows "lobby_ok (drop_empty_room r s)"
proof (cases "rm_seats (mg_room s r) = []")
  case True
  let ?s = "drop_empty_room r s"
  have keep: "mg_room ?s = mg_room s" "mg_peers ?s = mg_peers s" "mg_fresh ?s = mg_fresh s" "mg_order ?s = mg_order s"
      "mg_queues ?s = mg_queues s" "mg_members ?s = mg_members s" "account_of ?s = account_of s"
      "mg_rooms ?s = AList.delete (rm_code (mg_room s r)) (mg_rooms s)"
    using True by (simp_all add: drop_empty_room_def account_of_def fun_eq_iff)
  have "seat_in_order ?s = seat_in_order s" by (intro ext) (simp add: seat_in_order_def keep)
  then have rok: "room_ok ?s room = room_ok s room" for room by (simp add: room_ok_def)
  have l: "listed_room ?s x \<longleftrightarrow> listed_room s x \<and> x \<noteq> r" for x
    using lv unfolding listed_room_def keep by (auto simp: map_of_delete)
  have empty: "accounts_in (mg_room s r) = []" using True by (simp add: accounts_in_def)
  show ?thesis
    unfolding lobby_ok_def rok l keep queue_ok_def
    using ok [unfolded lobby_ok_def queue_ok_def] empty by (auto simp: map_of_delete distinct_delete)
next
  case False
  with ok show ?thesis by (simp add: drop_empty_room_def)
qed

subsection \<open>New rooms\<close>

lemma install_room_ok:
  assumes ok: "lobby_ok s" and free: "map_of (mg_rooms s) code = None" and size: "ls_Size st \<in> {4, 6}"
  shows "room_live (mg_fresh s) (install_room ident code st path s)"
proof -
  let ?s = "install_room ident code st path s"
  have keep: "mg_peers ?s = mg_peers s" "mg_fresh ?s = Suc (mg_fresh s)" "mg_order ?s = mg_order s"
      "mg_queues ?s = mg_queues s" "mg_members ?s = mg_members s" "account_of ?s = account_of s"
      "mg_rooms ?s = AList.update code (mg_fresh s) (mg_rooms s)"
    by (simp_all add: install_room_def account_of_def fun_eq_iff)
  have new: "rm_code (mg_room ?s (mg_fresh s)) = code" "rm_seats (mg_room ?s (mg_fresh s)) = []"
      "rm_settings (mg_room ?s (mg_fresh s)) = st"
    by (simp_all add: install_room_def)
  have old: "mg_room ?s x = mg_room s x" if "x \<noteq> mg_fresh s" for x using that by (simp add: install_room_def)
  have below: "map_of (mg_rooms s) c = Some x \<Longrightarrow> x < mg_fresh s" for c x using ok by (auto simp: lobby_ok_def)
  have ln: "listed_room ?s (mg_fresh s)" unfolding listed_room_def new keep by (simp add: map_of_update)
  have lo: "listed_room ?s x = listed_room s x" if "x \<noteq> mg_fresh s" for x
    using that free unfolding listed_room_def old [OF that] keep by (auto simp: map_of_update)
  have nl: "\<not> listed_room s (mg_fresh s)" using below by (auto simp: listed_room_def)
  have mono: "room_ok s room \<Longrightarrow> room_ok ?s room" for room
    unfolding room_ok_def seat_in_order_def keep by (force simp: list_all_iff less_Suc_eq)
  have "room_ok ?s (mg_room ?s (mg_fresh s))"
    using size by (simp add: room_ok_def new seats_in_def accounts_in_def)
  then have rooms: "map_of (mg_rooms ?s) c = Some x \<Longrightarrow> x < mg_fresh ?s \<and> rm_code (mg_room ?s x) = c \<and> room_ok ?s (mg_room ?s x)" for c x
  proof (cases "c = code")
    case True
    assume "map_of (mg_rooms ?s) c = Some x"
    then have "x = mg_fresh s" using True unfolding keep by (simp add: map_of_update)
    with True show ?thesis using new(1) \<open>room_ok ?s (mg_room ?s (mg_fresh s))\<close> by (simp add: keep)
  next
    case False
    assume "map_of (mg_rooms ?s) c = Some x"
    then have m: "map_of (mg_rooms s) c = Some x" using False unfolding keep by (simp add: map_of_update)
    then have "x < mg_fresh s" "rm_code (mg_room s x) = c" "room_ok s (mg_room s x)" using ok by (auto simp: lobby_ok_def)
    then show ?thesis using old [of x] mono [of "mg_room s x"] by (simp add: keep)
  qed
  have "(map_of (mg_members ?s) a = Some x) = (listed_room ?s x \<and> a \<in> set (accounts_in (mg_room ?s x)))" for a x
    using member_iff [OF ok, of a x] ln lo [of x] nl old [of x] new(2) unfolding keep
    by (cases "x = mg_fresh s") (auto simp: accounts_in_def)
  moreover have "queue_ok ?s a q" if "map_of (mg_queues ?s) a = Some q" for a q
    using ok that unfolding lobby_ok_def queue_ok_def keep by (force simp: less_Suc_eq)
  ultimately have "lobby_ok ?s"
    unfolding lobby_ok_def using ok rooms
    by (auto simp: keep lobby_ok_def distinct_update less_Suc_eq)
  then show ?thesis using ln by (simp add: room_live_def)
qed

end
