(* ===== verification/Lobby_Doors.thy ===== *)
theory Lobby_Doors
  imports Lobby_Moves
begin

section \<open>Edits of single seats, entries and settings\<close>

lemma room_liveD: "room_live r s \<Longrightarrow> lobby_ok s" "room_live r s \<Longrightarrow> listed_room s r"
  by (simp_all add: room_live_def)

lemma room_fits:
  assumes "room_ok s room" shows "int (length (rm_seats room)) \<le> ls_Size (rm_settings room)"
proof -
  have "set (seats_in room) \<subseteq> {0..<ls_Size (rm_settings room)}"
    using assms by (auto simp: room_ok_def seats_in_def seat_in_order_def list_all_iff)
  moreover have "card (set (seats_in room)) = length (rm_seats room)"
    using assms distinct_card [of "seats_in room"] by (simp add: room_ok_def seats_in_def)
  ultimately show ?thesis
    using card_mono [of "{0..<ls_Size (rm_settings room)}" "set (seats_in room)"] assms
    by (auto simp: room_ok_def)
qed

subsection \<open>A seat\<close>

lemma accounts_update:
  "map_of xs k = Some v \<Longrightarrow> me_account w = me_account v \<Longrightarrow>
   map (\<lambda>x. me_account (snd x)) (AList.update k w xs) = map (\<lambda>x. me_account (snd x)) xs"
  by (induction xs) auto

lemma update_in: "x \<in> set (AList.update k w xs) \<Longrightarrow> x = (k, w) \<or> x \<in> set xs"
  by (induction xs) (auto split: if_splits)

lemma edit_seat_ok:
  assumes ok: "lobby_ok s" and lv: "listed_room s r" and f: "\<And>v. me_account (f v) = me_account v"
    and peer: "\<And>v p. map_of (rm_seats (mg_room s r)) seat = Some v \<Longrightarrow> me_peer (f v) = Some p \<Longrightarrow>
      p < mg_fresh s \<and> account_of s p = me_account v"
  shows "room_live r (upd_room r (upd_member seat f) s)"
proof (cases "map_of (rm_seats (mg_room s r)) seat")
  case None
  then have "upd_room r (upd_member seat f) s = upd_room r (\<lambda>room. room) s"
    by (simp add: upd_room_def upd_member_def)
  then show ?thesis using rewrite_room [OF ok lv, of "\<lambda>room. room"] live_ok [OF ok lv] by simp
next
  case (Some v)
  let ?room = "mg_room s r"
  have rok: "room_ok s ?room" using live_ok [OF ok lv] by simp
  have seats: "rm_seats (upd_member seat f ?room) = AList.update seat (f v) (rm_seats ?room)"
      "rm_settings (upd_member seat f ?room) = rm_settings ?room" "rm_code (upd_member seat f ?room) = rm_code ?room"
    using Some by (simp_all add: upd_member_def set_member_def)
  have acc: "accounts_in (upd_member seat f ?room) = accounts_in ?room"
    unfolding accounts_in_def seats by (rule accounts_update [OF Some]) (simp add: f)
  have "map fst (AList.update seat (f v) (rm_seats ?room)) = map fst (rm_seats ?room)"
    using Some by (simp add: update_keys) (metis map_of_eq_None_iff option.distinct(1) image_set)
  then have keys: "seats_in (upd_member seat f ?room) = seats_in ?room" unfolding seats_in_def seats .
  have "list_all (seat_in_order s (ls_Size (rm_settings ?room))) (AList.update seat (f v) (rm_seats ?room))"
    unfolding list_all_iff
  proof
    fix x assume "x \<in> set (AList.update seat (f v) (rm_seats ?room))"
    then consider "x = (seat, f v)" | "x \<in> set (rm_seats ?room)" using update_in by fast
    then show "seat_in_order s (ls_Size (rm_settings ?room)) x"
    proof cases
      case 1
      have "seat_in_order s (ls_Size (rm_settings ?room)) (seat, v)"
        using rok map_of_SomeD [OF Some] by (auto simp: room_ok_def list_all_iff)
      with 1 peer [OF Some] show ?thesis by (simp add: seat_in_order_def f)
    next
      case 2
      then show ?thesis using rok by (simp add: room_ok_def list_all_iff)
    qed
  qed
  then have "room_ok s (upd_member seat f ?room)"
    using rok unfolding room_ok_def acc keys seats by simp
  then show ?thesis by (intro rewrite_room [OF ok lv]) (simp_all only: acc seats)
qed

section \<open>Queue entries, connections, settings\<close>

lemma lobby_okD:
  assumes "lobby_ok s"
  shows "distinct (map fst (mg_peers s))" "distinct (map fst (mg_members s))" "distinct (map fst (mg_rooms s))"
    "distinct (map fst (mg_queues s))"
    "map_of (mg_peers s) a = Some p \<Longrightarrow> p < mg_fresh s \<and> account_of s p = a"
    "map_of (mg_queues s) a = Some q \<Longrightarrow> queue_ok s a q"
    "map_of (mg_rooms s) c = Some r \<Longrightarrow> r < mg_fresh s \<and> rm_code (mg_room s r) = c \<and> room_ok s (mg_room s r)"
  using assms unfolding lobby_ok_def by blast+

subsection \<open>Entries of the queue and connections\<close>

text \<open>The queues and connections may change as long as every entry stays in order.\<close>

lemma entries_ok:
  assumes ok: "lobby_ok s"
    and same: "mg_members t = mg_members s" "mg_rooms t = mg_rooms s" "mg_room t = mg_room s"
    and grow: "mg_fresh s \<le> mg_fresh t" "\<And>p. p < mg_fresh s \<Longrightarrow> account_of t p = account_of s p"
    and peers: "distinct (map fst (mg_peers t))"
      "\<And>a p. map_of (mg_peers t) a = Some p \<Longrightarrow> p < mg_fresh t \<and> account_of t p = a"
    and queues: "distinct (map fst (mg_queues t))" "\<And>a q. map_of (mg_queues t) a = Some q \<Longrightarrow> queue_ok t a q"
  shows "lobby_ok t"
proof -
  have lv: "listed_room t r = listed_room s r" for r by (simp add: listed_room_def same)
  have seats: "room_ok s room \<Longrightarrow> room_ok t room" for room
    using grow unfolding room_ok_def seat_in_order_def by (force simp: list_all_iff)
  show ?thesis
    unfolding lobby_ok_def lv same
    using ok [unfolded lobby_ok_def] peers queues seats by (meson grow(1) less_le_trans)
qed

lemma unqueue_ok: "lobby_ok s \<Longrightarrow> lobby_ok (s\<lparr>mg_queues := AList.delete a (mg_queues s)\<rparr>)"
  by (rule entries_ok [where s = s])
    (auto simp: lobby_okD account_of_def queue_ok_def distinct_delete map_of_delete simp del: map_of_eq_Some_iff
      dest: lobby_okD(5,6) split: if_splits)

lemma no_queues_ok: "lobby_ok s \<Longrightarrow> lobby_ok (s\<lparr>mg_queues := []\<rparr>)"
  by (rule entries_ok [where s = s])
    (auto simp: lobby_okD account_of_def simp del: map_of_eq_Some_iff dest: lobby_okD(5))

lemma unpeer_ok: "lobby_ok s \<Longrightarrow> lobby_ok (s\<lparr>mg_peers := AList.delete a (mg_peers s)\<rparr>)"
  by (rule entries_ok [where s = s])
    (auto simp: lobby_okD account_of_def queue_ok_def distinct_delete map_of_delete simp del: map_of_eq_Some_iff
      dest: lobby_okD(5,6) split: if_splits)

lemma enqueue_ok:
  assumes ok: "lobby_ok s" and q: "qu_peer q < mg_fresh s" "map_of (mg_members s) (account_of s (qu_peer q)) = None"
    "qu_order q \<le> n" "mg_order s \<le> n"
  shows "lobby_ok (s\<lparr>mg_order := n, mg_queues := AList.update (account_of s (qu_peer q)) q (mg_queues s)\<rparr>)"
  by (rule entries_ok [OF ok])
    (use q in \<open>auto simp: lobby_okD [OF ok] account_of_def queue_ok_def distinct_update map_of_update simp del: map_of_eq_Some_iff
      dest: lobby_okD(5,6) [OF ok] le_trans split: if_splits\<close>)

lemma requeue_ok:
  assumes ok: "lobby_ok s" and q: "map_of (mg_queues s) a = Some q" "qu_peer q' = qu_peer q" "qu_order q' = qu_order q"
  shows "lobby_ok (s\<lparr>mg_queues := AList.update a q' (mg_queues s)\<rparr>)"
proof -
  have "queue_ok s a q" using lobby_okD(6) [OF ok q(1)] .
  then have a: "a = account_of s (qu_peer q')" "s\<lparr>mg_queues := AList.update a q' (mg_queues s)\<rparr>
      = s\<lparr>mg_order := mg_order s, mg_queues := AList.update (account_of s (qu_peer q')) q' (mg_queues s)\<rparr>"
    using q by (simp_all add: queue_ok_def)
  show ?thesis
    unfolding a(2) using ok q \<open>queue_ok s a q\<close> by (intro enqueue_ok) (auto simp: queue_ok_def)
qed

lemma install_peer_ok: "lobby_ok s \<Longrightarrow> lobby_ok (install_peer e account binding ident s)"
  by (rule entries_ok [where s = s])
    (auto simp: lobby_okD account_of_def queue_ok_def install_peer_def distinct_update map_of_update less_Suc_eq
      simp del: map_of_eq_Some_iff dest: lobby_okD(5,6) split: if_splits)

lemma close_peers_ok: "lobby_ok s \<Longrightarrow> lobby_ok (close_peers s)"
  unfolding close_peers_def
  by (rule iffD2 [OF same_table_ok [OF table.R_fold] no_queues_ok]) (auto intro: table.R_close)

subsection \<open>Settings, hosts, matches\<close>

lemma elect_room: "rm_seats (elect s room) = rm_seats room" "rm_settings (elect s room) = rm_settings room"
  "rm_code (elect s room) = rm_code room"
  by (simp_all add: elect_def split: list.splits)

lemma same_seats_ok:
  assumes "lobby_ok s" "listed_room s r" "rm_seats (f (mg_room s r)) = rm_seats (mg_room s r)"
    "rm_settings (f (mg_room s r)) = rm_settings (mg_room s r)" "rm_code (f (mg_room s r)) = rm_code (mg_room s r)"
  shows "room_live r (upd_room r f s)"
  using assms live_ok [OF assms(1,2)]
  by (intro rewrite_room) (simp_all add: room_ok_def accounts_in_def seats_in_def)

lemma elect_ok: "lobby_ok s \<Longrightarrow> listed_room s r \<Longrightarrow> room_live r (upd_room r (elect t) s)"
  by (rule same_seats_ok) (simp_all add: elect_room)

lemma install_match_ok: "lobby_ok s \<Longrightarrow> listed_room s r \<Longrightarrow> room_live r (upd_room r (install_match pm) s)"
  by (rule same_seats_ok) (simp_all add: install_match_def)

lemma rematch_room_ok: "lobby_ok s \<Longrightarrow> listed_room s r \<Longrightarrow> room_live r (upd_room r (rematch_room t) s)"
  by (rule same_seats_ok) (simp_all add: rematch_room_def Let_def elect_room)

subsection \<open>A smaller table\<close>

lemma seat_range: "set (map int [0..<nat n]) = {0..<n}"
  by (cases "0 \<le> n") (simp_all add: image_int_atLeastLessThan)

lemma occupied_set:
  assumes "room_ok s room"
  shows "set (occupied room) = set (seats_in room)" "distinct (occupied room)" "length (occupied room) = length (rm_seats room)"
proof -
  have sub: "set (seats_in room) \<subseteq> {0..<ls_Size (rm_settings room)}"
    using assms by (auto simp: room_ok_def seats_in_def seat_in_order_def list_all_iff)
  have "map_of (rm_seats room) i \<noteq> None \<longleftrightarrow> i \<in> set (seats_in room)" for i
    by (simp add: seats_in_def map_of_eq_None_iff)
  then show s: "set (occupied room) = set (seats_in room)"
    unfolding occupied_def set_filter seat_range using sub by blast
  show d: "distinct (occupied room)" by (simp add: occupied_def distinct_map inj_on_def)
  have "distinct (seats_in room)" using assms by (simp add: room_ok_def)
  then show "length (occupied room) = length (rm_seats room)"
    using s d by (metis distinct_card length_map seats_in_def)
qed

lemma compacted_lists:
  "seats_in (compacted room) = map int [0..<length (occupied room)]"
  "map snd (rm_seats (compacted room)) = map (\<lambda>i. the (map_of (rm_seats room) i)) (occupied room)"
proof -
  let ?m = "map_of (rm_seats room)"
  have seats: "rm_seats (compacted room) = map (\<lambda>x. (int (fst x), the (?m (snd x)))) (enumerate 0 (occupied room))"
    by (simp add: compacted_def case_prod_beta)
  have "map fst (rm_seats (compacted room)) = map int (map fst (enumerate 0 (occupied room)))"
    unfolding seats map_map by (rule map_cong) simp_all
  then show "seats_in (compacted room) = map int [0..<length (occupied room)]"
    unfolding seats_in_def by (simp only: map_fst_enumerate add_0)
  have "map snd (rm_seats (compacted room)) = map (\<lambda>i. the (?m i)) (map snd (enumerate 0 (occupied room)))"
    unfolding seats map_map by (rule map_cong) simp_all
  then show "map snd (rm_seats (compacted room)) = map (\<lambda>i. the (?m i)) (occupied room)" by simp
qed

lemma compacted_members:
  assumes "room_ok s room"
  shows "distinct (map snd (rm_seats (compacted room)))" "snd ` set (rm_seats (compacted room)) = snd ` set (rm_seats room)"
    "inj_on me_account (snd ` set (rm_seats room))"
proof -
  let ?g = "\<lambda>i. the (map_of (rm_seats room) i)"
  note occ = occupied_set [OF assms]
  have at: "(i, ?g i) \<in> set (rm_seats room)" if "i \<in> set (occupied room)" for i
    using that seat_map_of [OF assms] unfolding occ(1) by (auto simp: seats_in_def)
  have inj: "inj_on (\<lambda>x. me_account (snd x)) (set (rm_seats room))"
    using assms by (simp add: room_ok_def accounts_in_def distinct_map)
  have "inj_on ?g (set (occupied room))"
  proof (rule inj_onI)
    fix i j assume "i \<in> set (occupied room)" "j \<in> set (occupied room)" "?g i = ?g j"
    then show "i = j" using at [of i] at [of j] inj_onD [OF inj, of "(i, ?g i)" "(j, ?g j)"] by simp
  qed
  then show "distinct (map snd (rm_seats (compacted room)))"
    unfolding compacted_lists(2) using occ(2) by (simp add: distinct_map)
  have "snd ` set (rm_seats (compacted room)) = ?g ` set (occupied room)"
    using arg_cong [OF compacted_lists(2), of set] by simp
  also have "\<dots> = snd ` set (rm_seats room)"
  proof
    show "?g ` set (occupied room) \<subseteq> snd ` set (rm_seats room)" using at by force
    show "snd ` set (rm_seats room) \<subseteq> ?g ` set (occupied room)"
    proof
      fix v assume "v \<in> snd ` set (rm_seats room)"
      then obtain i where i: "(i, v) \<in> set (rm_seats room)" by auto
      then have "map_of (rm_seats room) i = Some v" using seat_map_of [OF assms] by simp
      moreover have "i \<in> set (occupied room)" using i unfolding occ(1) by (force simp: seats_in_def)
      ultimately show "v \<in> ?g ` set (occupied room)" by force
    qed
  qed
  finally show "snd ` set (rm_seats (compacted room)) = snd ` set (rm_seats room)" .
  show "inj_on me_account (snd ` set (rm_seats room))"
    using inj by (auto simp: inj_on_def)
qed

lemma compacted_accounts:
  assumes "room_ok s room"
  shows "set (accounts_in (compacted room)) = set (accounts_in room)" "distinct (accounts_in (compacted room))"
proof -
  note m = compacted_members [OF assms]
  have a: "accounts_in x = map me_account (map snd (rm_seats x))" for x by (simp add: accounts_in_def)
  show "set (accounts_in (compacted room)) = set (accounts_in room)"
    using arg_cong [OF m(2), of "image me_account"] by (simp add: a image_comp)
  show "distinct (accounts_in (compacted room))"
    unfolding a distinct_map [of me_account] using m by simp
qed

text \<open>With the new settings the room stays in order if the table is not smaller than the company.\<close>

lemma resized_ok:
  assumes ok: "room_ok s room0" and size: "ls_Size st \<in> {4, 6}" "int (length (rm_seats room0)) \<le> ls_Size st"
  shows "room_ok s (new_settings st room0) \<and> set (accounts_in (new_settings st room0)) = set (accounts_in room0)
    \<and> rm_code (new_settings st room0) = rm_code room0"
proof -
  let ?room = "if ls_Size st < ls_Size (rm_settings room0) then compacted room0 else room0"
  let ?new = "?room\<lparr>rm_settings := st, rm_settingsRevision := Suc (rm_settingsRevision ?room)\<rparr>"
  have lay: "layout (new_settings st room0) = layout ?new" by (simp add: new_settings_def Let_def)
  have fields: "rm_seats ?new = rm_seats ?room" "rm_settings ?new = st" "rm_code ?new = rm_code room0"
      "accounts_in ?new = accounts_in ?room" "seats_in ?new = seats_in ?room"
    by (simp_all add: compacted_def accounts_in_def seats_in_def)
  have acc: "set (accounts_in ?room) = set (accounts_in room0)" "distinct (accounts_in ?room)"
    using compacted_accounts [OF ok] ok by (simp_all add: room_ok_def)
  have peers: "\<forall>p. me_peer v = Some p \<longrightarrow> p < mg_fresh s \<and> account_of s p = me_account v"
    if "v \<in> snd ` set (rm_seats ?room)" for v
  proof -
    have "v \<in> snd ` set (rm_seats room0)" using that compacted_members(2) [OF ok] by (simp split: if_splits)
    then show ?thesis using ok by (auto simp: room_ok_def list_all_iff seat_in_order_def)
  qed
  have range: "distinct (seats_in ?room) \<and> set (seats_in ?room) \<subseteq> {0..<ls_Size st}"
  proof (cases "ls_Size st < ls_Size (rm_settings room0)")
    case True
    have "set (seats_in (compacted room0)) = {0..<int (length (rm_seats room0))}"
      unfolding compacted_lists(1) occupied_set(3) [OF ok] using seat_range [of "int (length (rm_seats room0))"] by simp
    then show ?thesis using True size(2) by (simp add: compacted_lists(1) distinct_map inj_on_def)
  next
    case False
    then show ?thesis using ok by (force simp: room_ok_def seats_in_def list_all_iff seat_in_order_def)
  qed
  have "list_all (seat_in_order s (ls_Size st)) (rm_seats ?room)"
    unfolding list_all_iff seat_in_order_def
  proof
    fix x assume x: "x \<in> set (rm_seats ?room)"
    then have "fst x \<in> set (seats_in ?room)" unfolding seats_in_def set_map by (rule imageI)
    then have "fst x \<in> {0..<ls_Size st}" using range by blast
    moreover have "snd x \<in> snd ` set (rm_seats ?room)" using x by (rule imageI)
    ultimately show "0 \<le> fst x \<and> fst x < ls_Size st \<and>
        (\<forall>p. me_peer (snd x) = Some p \<longrightarrow> p < mg_fresh s \<and> account_of s p = me_account (snd x))"
      using peers by auto
  qed
  then have "room_ok s ?new" unfolding room_ok_def fields using size(1) range acc(2) by blast
  then have "room_ok s (new_settings st room0)" using layout_room_ok [OF lay, of s s] by simp
  then show ?thesis
    using layout_lists(2) [OF lay] layout_fields(1) [OF lay] acc(1) fields by simp
qed

lemma new_settings_ok:
  assumes "lobby_ok s" "listed_room s r" "ls_Size st \<in> {4, 6}" "int (length (rm_seats (mg_room s r))) \<le> ls_Size st"
  shows "room_live r (upd_room r (new_settings st) s)"
  using resized_ok [OF _ assms(3,4), of s] live_ok [OF assms(1,2)] by (intro rewrite_room [OF assms(1,2)]) blast+

end
