(* ===== verification/Lobby_Safe.thy ===== *)
theory Lobby_Safe
  imports Lobby_Doors
begin

section \<open>Operations and the invariant: the calculus\<close>

text \<open>
  \<open>ending E P f Q\<close>: from \<open>P\<close> the operation \<open>f\<close> ends in \<open>Q\<close>, or with an error and in \<open>E\<close>; \<open>ends\<close> is the case
  that an error leaves the lobby in order. Between two moves of the table the condition is \<open>same_table s\<close>, for the
  state \<open>s\<close> the operation has looked at.
\<close>

definition ending :: "(text_manager \<Rightarrow> bool) \<Rightarrow> (text_manager \<Rightarrow> bool) \<Rightarrow> 'a act \<Rightarrow> ('a \<Rightarrow> text_manager \<Rightarrow> bool) \<Rightarrow> bool" where
  "ending E P f Q \<longleftrightarrow> (\<forall>s. P s \<longrightarrow> (case f s of (Inl err, t) \<Rightarrow> E t | (Inr x, t) \<Rightarrow> Q x t))"

abbreviation ends :: "(text_manager \<Rightarrow> bool) \<Rightarrow> 'a act \<Rightarrow> ('a \<Rightarrow> text_manager \<Rightarrow> bool) \<Rightarrow> bool" where
  "ends \<equiv> ending lobby_ok"

abbreviation stays :: "'a act \<Rightarrow> bool" where
  "stays f \<equiv> ends lobby_ok f (\<lambda>_. lobby_ok)"

lemmas ends_def = ending_def

lemma endsI: "(\<And>s err t. P s \<Longrightarrow> f s = (Inl err, t) \<Longrightarrow> E t) \<Longrightarrow> (\<And>s x t. P s \<Longrightarrow> f s = (Inr x, t) \<Longrightarrow> Q x t) \<Longrightarrow> ending E P f Q"
  by (auto simp: ends_def split: prod.splits sum.splits)

lemma endsD: "ending E P f Q \<Longrightarrow> P s \<Longrightarrow> f s = (Inl err, t) \<Longrightarrow> E t"
  "ending E P f Q \<Longrightarrow> P s \<Longrightarrow> f s = (Inr x, t) \<Longrightarrow> Q x t"
  by (auto simp: ends_def)

lemma ends_ok: "ending E P f (\<lambda>_. E) \<Longrightarrow> P s \<Longrightarrow> E (snd (f s))"
  by (cases "f s"; cases "fst (f s)") (auto dest: endsD)

lemma ends_okI: "(\<And>s. P s \<Longrightarrow> E (snd (f s))) \<Longrightarrow> ending E P f (\<lambda>_. E)"
  by (rule endsI) (metis snd_conv)+

lemma E_weaken: "ending E P' f Q' \<Longrightarrow> (\<And>s. P s \<Longrightarrow> P' s) \<Longrightarrow> (\<And>x s. Q' x s \<Longrightarrow> Q x s) \<Longrightarrow> ending E P f Q"
  by (rule endsI) (blast dest: endsD)+

lemma E_pre: "ending E P' f Q \<Longrightarrow> (\<And>s. P s \<Longrightarrow> P' s) \<Longrightarrow> ending E P f Q"
  by (rule E_weaken)

lemma E_at: "(\<And>s. P s \<Longrightarrow> ending E (same_table s) f Q) \<Longrightarrow> ending E P f Q"
  using table.refl by (auto simp: ends_def)

lemma E_give: "(\<And>s. P s \<Longrightarrow> Q x s) \<Longrightarrow> ending E P (give x) Q"
  by (simp add: ends_def give_def)

lemma E_raise: "(\<And>s. P s \<Longrightarrow> E s) \<Longrightarrow> ending E P (raise err) Q"
  by (simp add: ends_def raise_def)

lemma E_reject: "(\<And>s. P s \<Longrightarrow> E s) \<Longrightarrow> (\<not> b \<Longrightarrow> ending E P f Q) \<Longrightarrow> ending E P (reject_when b err f) Q"
  by (simp add: reject_when_def E_raise)

lemma E_bind: "ending E P f Q \<Longrightarrow> (\<And>x. ending E (Q x) (g x) S) \<Longrightarrow> ending E P (bind_act f g) S"
  by (rule endsI) (auto simp: bind_act_def split: prod.splits sum.splits dest: endsD)

lemma E_after: "ending E P f Q \<Longrightarrow> ending E (Q ()) g S \<Longrightarrow> ending E P (after f g) S"
  unfolding after_def by (rule E_bind) auto

lemma E_change: "(\<And>s. P s \<Longrightarrow> Q () (f s)) \<Longrightarrow> ending E P (change f) Q"
  by (simp add: ends_def change_def)

lemma E_state: "(\<And>s. P s \<Longrightarrow> ending E (same_table s) (f s) Q) \<Longrightarrow> ending E P (with_state f) Q"
  using table.refl by (auto simp: ends_def with_state_def)

lemma E_silent: "along same_table f \<Longrightarrow> (\<And>s t. P s \<Longrightarrow> same_table s t \<Longrightarrow> E t) \<Longrightarrow>
    (\<And>s t x. P s \<Longrightarrow> same_table s t \<Longrightarrow> Q x t) \<Longrightarrow> ending E P f Q"
  by (rule endsI) (metis alongD snd_conv)+

lemma E_each: "(\<And>x. x \<in> set xs \<Longrightarrow> ending E I (f x) (\<lambda>_. I)) \<Longrightarrow> ending E I (each_act f xs) (\<lambda>_. I)"
  by (induction xs) (auto intro: E_give E_after)

lemma E_quiet: "along same_table f \<Longrightarrow> (\<And>s. P s \<Longrightarrow> lobby_ok s) \<Longrightarrow> (\<And>s t x. P s \<Longrightarrow> same_table s t \<Longrightarrow> Q x t) \<Longrightarrow> ends P f Q"
  by (rule endsI) (metis alongD same_table_ok snd_conv)+

lemma E_still: "along same_table f \<Longrightarrow> stays f"
  by (rule E_quiet) (auto simp: same_table_ok)

lemma E_quiet_live: "along same_table f \<Longrightarrow> ends (room_live r) f (\<lambda>_. room_live r)"
  by (rule E_quiet) (auto simp: same_table_ok same_table_live room_live_def)

lemma E_ignoring: "ends P f (\<lambda>_. lobby_ok) \<Longrightarrow> ends P (ignoring f) (\<lambda>_. lobby_ok)"
  by (rule ends_okI) (simp add: ignoring_def ends_ok)

lemma E_joining: "ends P f (\<lambda>_. lobby_ok) \<Longrightarrow> ends P (joining acc f) (\<lambda>_. lobby_ok)"
  by (rule ends_okI) (simp add: joining_def case_prod_beta ends_ok)

lemma E_deferring:
  assumes "along same_table f" "ends (room_live r) g (\<lambda>_. lobby_ok)"
  shows "ends (room_live r) (deferring g f) (\<lambda>_. lobby_ok)"
proof (rule ends_okI)
  fix s assume "room_live r s"
  then have "room_live r (snd (f s))"
    using alongD [OF assms(1), of s] by (auto simp: room_live_def same_table_ok same_table_live)
  then show "lobby_ok (snd (deferring g f s))"
    using ends_ok [OF assms(2)] by (simp add: deferring_def case_prod_beta)
qed

lemma E_each_join: "(\<And>x. x \<in> set xs \<Longrightarrow> stays (f x)) \<Longrightarrow> stays (each_join f xs acc)"
  by (induction xs arbitrary: acc) (auto intro!: E_give E_bind E_joining)

lemma E_each_unless: "(\<And>x. x \<in> set xs \<Longrightarrow> stays (f x)) \<Longrightarrow> stays (each_unless e f xs acc)"
proof (induction xs arbitrary: acc)
  case Nil
  then show ?case by (simp add: E_give)
next
  case (Cons x xs)
  have "stays (bind_act (joining acc (f x)) (each_unless e f xs))"
    by (rule E_bind [of _ _ _ "\<lambda>_. lobby_ok"], rule E_joining) (simp_all add: Cons)
  then show ?case
    by (auto intro!: E_bind [of _ _ _ "\<lambda>_. lobby_ok"] E_raise E_still [OF table.A_ask] split: option.splits)
qed

text \<open>Whatever order the runtime chooses, every entry is visited once.\<close>

lemma visiting_all: "\<exists>ys t. visiting e xs s = (Inr ys, t) \<and> mset ys = mset xs \<and> same_table s t"
proof -
  let ?is = "ev_order e (mg_tick s) (length xs)"
  have "mset (if mset ?is = mset [0..<length xs] then map (nth xs) ?is else xs) = mset xs"
  proof (cases "mset ?is = mset [0..<length xs]")
    case True
    then have "mset (map (nth xs) ?is) = mset (map (nth xs) [0..<length xs])" by (simp only: mset_map)
    then show ?thesis using True by (simp only: map_nth if_True simp_thms)
  qed simp
  then show ?thesis
    using table.ticked by (auto simp: visiting_def bind_act_def ask_def give_def)
qed

subsection \<open>Without looking at the table\<close>

lemma T_give: "stays (give x)" and T_raise: "stays (raise err)"
  by (simp_all add: E_give E_raise)

lemma T_reject: "(\<not> b \<Longrightarrow> stays f) \<Longrightarrow> stays (reject_when b err f)"
  by (simp add: E_reject)

lemma T_bind: "stays f \<Longrightarrow> (\<And>x. stays (g x)) \<Longrightarrow> stays (bind_act f g)"
  by (rule E_bind)

lemma T_after: "stays f \<Longrightarrow> stays g \<Longrightarrow> stays (after f g)"
  by (rule E_after)

lemma T_state: "(\<And>s. lobby_ok s \<Longrightarrow> stays (f s)) \<Longrightarrow> stays (with_state f)"
  by (rule ends_okI) (auto simp: with_state_def intro: ends_ok)

lemmas T_rules = T_give T_raise T_reject T_bind T_after T_state E_still [OF table.A_ask] E_still [OF table.A_call]
  E_still [OF table.A_visiting] E_still [OF table.A_authority] E_still [OF table.A_emit] E_still [OF table.A_broadcast]
  E_each E_each_join E_joining E_each_unless E_still [OF table.A_returning] E_still [OF table.A_visit_seats]

subsection \<open>Looking at a table that stays the same\<close>

lemma E_quiet_then:
  "along same_table f \<Longrightarrow> lobby_ok s \<Longrightarrow> (\<And>x. ends (same_table s) (g x) Q) \<Longrightarrow> ends (same_table s) (bind_act f g) Q"
  by (rule E_bind [of _ _ _ "\<lambda>_. same_table s"], rule E_quiet) (auto simp: same_table_ok intro: table.trans)

lemma E_quiet_after:
  "along same_table f \<Longrightarrow> lobby_ok s \<Longrightarrow> ends (same_table s) g Q \<Longrightarrow> ends (same_table s) (after f g) Q"
  unfolding after_def by (rule E_quiet_then)

lemma E_look:
  "(\<And>t. same_table s t \<Longrightarrow> ending E (same_table s) (f t) Q) \<Longrightarrow> ending E (same_table s) (with_state f) Q"
  by (auto simp: ends_def with_state_def)

lemma E_refuse: "lobby_ok s \<Longrightarrow> (\<not> b \<Longrightarrow> ends (same_table s) f Q) \<Longrightarrow> ends (same_table s) (reject_when b err f) Q"
  by (rule E_reject) (simp add: same_table_ok)

lemma E_fail: "lobby_ok s \<Longrightarrow> ends (same_table s) (raise err) Q"
  by (rule E_raise) (simp add: same_table_ok)

lemma E_done: "lobby_ok s \<Longrightarrow> ends (same_table s) (give x) (\<lambda>_. lobby_ok)"
  by (rule E_give) (simp add: same_table_ok)

lemma E_quietly: "lobby_ok s \<Longrightarrow> along same_table f \<Longrightarrow> ends (same_table s) f (\<lambda>_. lobby_ok)"
  by (rule E_quiet) (auto simp: same_table_ok)

lemma E_stays: "lobby_ok s \<Longrightarrow> stays f \<Longrightarrow> ends (same_table s) f (\<lambda>_. lobby_ok)"
  by (erule E_pre) (simp add: same_table_ok)

lemma same_table_sym: "same_table s t \<Longrightarrow> same_table t s"
  by (simp add: same_table_def)

lemma same_table_entries:
  assumes "same_table s t"
  shows "mg_peers t = mg_peers s" "mg_members t = mg_members s" "mg_rooms t = mg_rooms s" "mg_queues t = mg_queues s"
    "mg_order t = mg_order s" "mg_fresh t = mg_fresh s" "account_of t p = account_of s p"
    "rm_code (mg_room t r) = rm_code (mg_room s r)" "rm_settings (mg_room t r) = rm_settings (mg_room s r)"
    "accounts_in (mg_room t r) = accounts_in (mg_room s r)" "seats_in (mg_room t r) = seats_in (mg_room s r)"
    "length (rm_seats (mg_room t r)) = length (rm_seats (mg_room s r))" "listed_room t r = listed_room s r" "lobby_ok t = lobby_ok s"
proof -
  have "layout (mg_room t r) = layout (mg_room s r)" using assms by (simp add: same_table_def)
  note layout_lists [OF this] layout_fields [OF this]
  then show "rm_code (mg_room t r) = rm_code (mg_room s r)" "rm_settings (mg_room t r) = rm_settings (mg_room s r)"
    "accounts_in (mg_room t r) = accounts_in (mg_room s r)" "seats_in (mg_room t r) = seats_in (mg_room s r)"
    "length (rm_seats (mg_room t r)) = length (rm_seats (mg_room s r))" by blast+
qed (use assms in \<open>simp_all add: same_table_def same_table_live [OF assms] same_table_ok [OF assms]\<close>)

lemma same_table_seat:
  assumes "same_table s t" "map_of (rm_seats (mg_room s r)) seat = Some v"
  shows "\<exists>w. map_of (rm_seats (mg_room t r)) seat = Some w \<and> me_account w = me_account v \<and> me_peer w = me_peer v"
proof -
  have "layout (mg_room t r) = layout (mg_room s r)" using assms(1) by (simp add: same_table_def)
  then have "map (\<lambda>(i, v). (i, bare_member v)) (rm_seats (mg_room t r)) = map (\<lambda>(i, v). (i, bare_member v)) (rm_seats (mg_room s r))"
    by (rule layout_fields(10))
  moreover have "map_of (map (\<lambda>(i, v). (i, bare_member v)) xs) seat = map_option bare_member (map_of xs seat)" for xs
    by (induction xs) auto
  ultimately have "map_option bare_member (map_of (rm_seats (mg_room t r)) seat) = map_option bare_member (Some v)"
    using assms(2) by metis
  then obtain w where w: "map_of (rm_seats (mg_room t r)) seat = Some w" "bare_member w = bare_member v" by auto
  moreover have "me_account (bare_member x) = me_account x" "me_peer (bare_member x) = me_peer x" for x
    by (simp_all add: bare_member_def)
  ultimately show ?thesis by metis
qed

end
