(* ===== verification/Lobby_Lines.thy ===== *)
theory Lobby_Lines
  imports Lobby_Safe
begin

section \<open>Matching keeps the lobby in order\<close>

subsection \<open>Connections keep their account\<close>

definition grown :: "text_manager \<Rightarrow> text_manager \<Rightarrow> bool" where
  "grown s t \<longleftrightarrow> mg_fresh s \<le> mg_fresh t \<and> (\<forall>p < mg_fresh s. account_of t p = account_of s p)"

lemma grown_upd_room: "grown s (upd_room r f s)"
  by (simp add: grown_def)

interpretation grown: table_effects grown
proof unfold_locales
  fix s t u :: text_manager
  show "grown s s" by (simp add: grown_def)
  show "grown s t \<Longrightarrow> grown t u \<Longrightarrow> grown s u" by (auto simp: grown_def)
  show "grown s (upd_peer p (\<lambda>v. v\<lparr>pe_closed := True\<rparr>) s)"
    "grown s (upd_peer p (\<lambda>v. v\<lparr>pe_frames := pe_frames v @ [x]\<rparr>) s)" for p x
    by (simp_all add: grown_def account_of_def peer_upd_peer)
  show "grown s (set_match r (Some m) s)" for r m
    unfolding set_match_def by (rule grown_upd_room)
qed (simp_all add: grown_upd_room, simp_all add: grown_def account_of_def)

lemma same_table_grown: "same_table s t \<Longrightarrow> grown s t"
  by (simp add: grown_def same_table_def)

lemma G_change: "(\<And>s. mg_fresh s \<le> mg_fresh (f s) \<and> (\<forall>p < mg_fresh s. account_of (f s) p = account_of s p)) \<Longrightarrow> along grown (change f)"
  by (rule grown.A_change) (simp add: grown_def)

lemma G_assign: "along grown (assign e r q)"
  unfolding assign_def Let_def
  by (intro grown.A_plain G_change) (simp add: sit_down_def account_of_def)

lemma G_newRoom: "along grown (newRoom e st path)"
  unfolding newRoom_def
  by (intro grown.A_plain G_change) (simp add: install_room_def account_of_def)

lemma G_form_group: "along grown (form_group e first rest)"
  unfolding form_group_def Let_def by (auto intro!: grown.A_plain G_newRoom G_assign)

subsection \<open>People in line\<close>

text \<open>\<open>lined\<close>: entries of different accounts; \<open>waiting\<close>: who moreover sit nowhere, in front of a room with \<open>n\<close> free seats.\<close>

abbreviation in_queue_of :: "text_manager \<Rightarrow> text_queue \<Rightarrow> string" where
  "in_queue_of s q \<equiv> account_of s (qu_peer q)"

definition lined :: "text_queue list \<Rightarrow> text_manager \<Rightarrow> bool" where
  "lined qs s \<longleftrightarrow> lobby_ok s \<and> distinct (map (in_queue_of s) qs) \<and> (\<forall>q \<in> set qs. qu_peer q < mg_fresh s)"

definition waiting :: "nat \<Rightarrow> nat \<Rightarrow> text_queue list \<Rightarrow> text_manager \<Rightarrow> bool" where
  "waiting r n qs s \<longleftrightarrow> listed_room s r \<and> lined qs s \<and> int (length (rm_seats (mg_room s r)) + n) \<le> ls_Size (rm_settings (mg_room s r))
     \<and> (\<forall>q \<in> set qs. map_of (mg_members s) (in_queue_of s q) = None)"

lemma lined_grown: "lined qs s \<Longrightarrow> grown s t \<Longrightarrow> lobby_ok t \<Longrightarrow> lined qs t"
  unfolding lined_def grown_def by (auto simp: distinct_map inj_on_def)

lemma lined_still: "lined qs s \<Longrightarrow> same_table s t \<Longrightarrow> lined qs t"
  by (rule lined_grown) (auto simp: same_table_grown same_table_ok lined_def)

lemma waiting_still:
  assumes "waiting r n qs s" "same_table s t" shows "waiting r n qs t"
  using assms(1) lined_still [OF _ assms(2), of qs] by (simp add: waiting_def same_table_entries [OF assms(2)])

lemma waiting_tail: "waiting r n (q # qs) s \<Longrightarrow> waiting r n qs s"
  by (simp add: waiting_def lined_def)

lemma waiting_live: "waiting r n qs s \<Longrightarrow> room_live r s" "waiting r n qs s \<Longrightarrow> lobby_ok s"
  by (simp_all add: waiting_def lined_def room_live_def)

lemma sorted_lined:
  assumes ok: "lobby_ok s"
  shows "lined (sortedQueue s) s" "q \<in> set (sortedQueue s) \<Longrightarrow> map_of (mg_queues s) (in_queue_of s q) = Some q"
    "q \<in> set (sortedQueue s) \<Longrightarrow> map_of (mg_members s) (in_queue_of s q) = None"
proof -
  have entry: "queue_ok s a q" if "(a, q) \<in> set (mg_queues s)" for a q
    using that lobby_okD(6) [OF ok] lobby_okD(4) [OF ok] by simp
  have keys: "map (in_queue_of s) (map snd (mg_queues s)) = map fst (mg_queues s)"
    by (auto simp: queue_ok_def dest!: entry)
  have "distinct (map (in_queue_of s) (map snd (mg_queues s)))" unfolding keys by (rule lobby_okD(4) [OF ok])
  then have d: "distinct (map (in_queue_of s) (filter (\<lambda>q. is_current s (qu_peer q)) (map snd (mg_queues s))))"
    by (rule distinct_map_filter)
  have "mset (map (in_queue_of s) (sortedQueue s)) =
      mset (map (in_queue_of s) (filter (\<lambda>q. is_current s (qu_peer q)) (map snd (mg_queues s))))"
    by (simp add: sortedQueue_def)
  then have "distinct (map (in_queue_of s) (sortedQueue s))" using d by (rule mset_eq_imp_distinct_iff [THEN iffD2])
  moreover have m: "\<exists>a. (a, q) \<in> set (mg_queues s)" if "q \<in> set (sortedQueue s)" for q
    using that by (auto simp: sortedQueue_def)
  ultimately show "lined (sortedQueue s) s" using ok entry by (auto simp: lined_def queue_ok_def)
  show "map_of (mg_queues s) (in_queue_of s q) = Some q" "map_of (mg_members s) (in_queue_of s q) = None"
    if "q \<in> set (sortedQueue s)" for q
    using m [OF that] entry lobby_okD(4) [OF ok] by (auto simp: queue_ok_def)
qed

subsection \<open>Seating\<close>

lemma new_member_fields: "me_account (new_member a adm p j) = a" "me_peer (new_member a adm p j) = Some p"
  by (simp_all add: new_member_def)

lemma seat_next:
  assumes w: "waiting r (Suc n) (q # qs) s"
  shows "room_live r ((sit_down r (new_member (in_queue_of s q) adm (qu_peer q) j) s)
    \<lparr>mg_queues := AList.delete (in_queue_of s q) (mg_queues s)\<rparr>)"
proof -
  have w': "lobby_ok s" "listed_room s r" "map_of (mg_members s) (in_queue_of s q) = None"
      "int (length (rm_seats (mg_room s r))) < ls_Size (rm_settings (mg_room s r))" "qu_peer q < mg_fresh s"
    using w by (simp_all add: waiting_def lined_def)
  show ?thesis
    by (rule sit_down_ok [of s r "new_member (in_queue_of s q) adm (qu_peer q) j", unfolded new_member_fields])
      (use w' in simp_all)
qed

lemma S_assign: "ends (waiting r (Suc n) (q # qs)) (assign e r q) (\<lambda>_. waiting r n qs)"
  unfolding assign_def Let_def
proof (rule E_state, goal_cases)
  case (1 s)
  let ?a = "in_queue_of s q"
  let ?f = "\<lambda>s. upd_room r reshuffled ((sit_down r (new_member ?a (qu_id q) (qu_peer q) (qu_order q)) s)
    \<lparr>mg_queues := AList.delete ?a (mg_queues s)\<rparr>)"
  have "waiting r n qs (?f t)" if "same_table s t" for t
  proof -
    have w: "waiting r (Suc n) (q # qs) t" using waiting_still [OF 1 that] .
    have a: "?a = account_of t (qu_peer q)" using same_table_entries(7) [OF that] by simp
    have "room_live r ((sit_down r (new_member ?a (qu_id q) (qu_peer q) (qu_order q)) t)\<lparr>mg_queues := AList.delete ?a (mg_queues t)\<rparr>)"
      unfolding a by (rule seat_next [OF w])
    then have ok: "room_live r (?f t)" using reshuffle_room room_liveD by blast
    have g: "grown t (?f t)" by (simp add: grown_def sit_down_def account_of_def)
    have "lined qs t" using w by (simp add: waiting_def lined_def)
    then have l: "lined qs (?f t)" using lined_grown [OF _ g] ok by (simp add: room_live_def)
    have "room_ok t (mg_room t r)" using w live_ok [of t r] by (simp add: waiting_def lined_def)
    then have "length (rm_seats (mg_room (?f t) r)) = Suc (length (rm_seats (mg_room t r)))"
        "rm_settings (mg_room (?f t) r) = rm_settings (mg_room t r)"
      using free_seat [of t "mg_room t r"] w
      by (simp_all add: room_upd_room sit_down_def set_member_def update_absent waiting_def)
    moreover have "map_of (mg_members (?f t)) (in_queue_of (?f t) x) = None" if "x \<in> set qs" for x
    proof -
      have "in_queue_of t q \<notin> in_queue_of t ` set qs" using w by (simp add: waiting_def lined_def)
      then have "in_queue_of t x \<noteq> in_queue_of t q" using that by (metis (mono_tags, lifting) imageI)
      moreover have "map_of (mg_members t) (in_queue_of t x) = None" using w that by (simp add: waiting_def)
      moreover have "account_of (?f t) p = account_of t p" for p by (simp add: sit_down_def account_of_def)
      ultimately show ?thesis by (simp add: sit_down_def map_of_update new_member_def a)
    qed
    ultimately show ?thesis using ok l w by (simp add: waiting_def room_live_def)
  qed
  moreover have "ends (waiting r n qs) (ignoring (emit e (qu_peer q) [] x)) (\<lambda>_. waiting r n qs)" for x
    by (rule E_quiet [OF table.A_ignoring [OF table.A_emit]]) (auto simp: waiting_live intro: waiting_still)
  ultimately show ?case by (intro E_after [of _ _ _ "\<lambda>_. waiting r n qs"] E_change)
qed

lemma S_party: "ends (waiting r (length party) party) (each_act (assign e r) party) (\<lambda>_. room_live r)"
proof (induction party)
  case Nil
  show ?case by (simp add: E_give waiting_live)
next
  case (Cons q qs)
  have "ends (waiting r (Suc (length qs)) (q # qs)) (assign e r q) (\<lambda>_. waiting r (length qs) qs)" by (rule S_assign)
  with Cons show ?case by (simp add: E_after)
qed

lemma S_refill: "ends (waiting r 0 qs) (refill e r qs) (\<lambda>_. room_live r)"
proof (induction qs)
  case Nil
  show ?case by (simp add: E_give waiting_live)
next
  case (Cons q qs)
  have skip: "ends (same_table s) (refill e r qs) (\<lambda>_. room_live r)" if "waiting r 0 (q # qs) s" for s
    using Cons by (rule E_pre) (meson that waiting_still waiting_tail)
  show ?case
    unfolding refill.simps Let_def
  proof (rule E_state, goal_cases)
    case (1 s)
    have ok: "lobby_ok s" using 1 by (rule waiting_live)
    have "ends (same_table s) (after (assign e r q) (refill e r qs)) (\<lambda>_. room_live r)"
      if full: "int (length (rm_seats (mg_room s r))) \<noteq> ls_Size (rm_settings (mg_room s r))"
    proof -
      have "waiting r (Suc 0) (q # qs) s" using 1 full by (simp add: waiting_def)
      then have "ends (same_table s) (assign e r q) (\<lambda>_. waiting r 0 qs)"
        using E_pre [OF S_assign] waiting_still by blast
      then show ?thesis using Cons by (rule E_after)
    qed
    then show ?case
      using skip [OF 1] 1
      by (auto intro!: E_give E_quiet_then [OF table.A_succeeds [OF table.A_canMatch]] ok
        dest: waiting_still waiting_live(1))
  qed
qed

lemma rooms_live: "lobby_ok s \<Longrightarrow> map_of (mg_rooms s) c = Some r \<Longrightarrow> listed_room s r"
  using lobby_okD(7) by (simp add: listed_room_def)

lemma S_refill_room: "stays (refill_room e code)"
  unfolding refill_room_def Let_def
proof (rule E_state, goal_cases)
  case (1 s)
  have "ends (same_table s) (refill e r (sortedQueue s)) (\<lambda>_. room_live r)" if r: "map_of (mg_rooms s) code = Some r" for r
  proof -
    have "waiting r 0 (sortedQueue s) s"
      using rooms_live [OF 1 r] sorted_lined [OF 1] room_fits [of s "mg_room s r"] lobby_okD(7) [OF 1 r]
      by (simp add: waiting_def)
    then show ?thesis using E_pre [OF S_refill] waiting_still by blast
  qed
  then show ?case
    using 1 by (auto intro!: E_done E_after [of _ _ _ "\<lambda>_. room_live r" for r]
      E_pre [OF E_still [OF table.A_broadcast]] split: option.splits simp: room_live_def)
qed

subsection \<open>New groups\<close>

lemma E_silent_then:
  "along same_table f \<Longrightarrow> (\<And>t. same_table s t \<Longrightarrow> E t) \<Longrightarrow> (\<And>x. ending E (same_table s) (g x) Q) \<Longrightarrow>
   ending E (same_table s) (bind_act f g) Q"
  by (rule E_bind [of _ _ _ "\<lambda>_. same_table s"], rule E_silent) (auto intro: table.trans)

lemma S_draw: "(\<And>t. same_table s t \<Longrightarrow> E t) \<Longrightarrow>
   ending E (same_table s) (draw_code e n) (\<lambda>code t. same_table s t \<and> map_of (mg_rooms s) code = None)"
  by (induction n)
    (auto intro!: E_raise E_silent_then [OF table.A_ask] E_look E_give simp: same_table_entries(3))

definition fresh_room :: "text_manager \<Rightarrow> lobby_settings \<Rightarrow> nat \<Rightarrow> text_manager \<Rightarrow> bool" where
  "fresh_room s st r t \<longleftrightarrow> room_live r t \<and> rm_seats (mg_room t r) = [] \<and> rm_settings (mg_room t r) = st
     \<and> mg_members t = mg_members s \<and> mg_queues t = mg_queues s \<and> mg_order t = mg_order s \<and> mg_fresh s \<le> mg_fresh t
     \<and> (\<forall>x < mg_fresh s. rm_settings (mg_room t x) = rm_settings (mg_room s x))
     \<and> (\<forall>p. account_of t p = account_of s p)"

lemma S_newRoom:
  assumes ok: "lobby_ok s" and size: "ls_Size st \<in> {4, 6}" and E: "\<And>t. same_table s t \<Longrightarrow> E t"
  shows "ending E (same_table s) (newRoom e st path) (\<lambda>r. fresh_room s st r)"
proof -
  have draw: "ending E (same_table s) (with_state (\<lambda>s. draw_code e (Suc (length (mg_rooms s)))))
      (\<lambda>code t. same_table s t \<and> map_of (mg_rooms s) code = None)"
    by (intro E_look S_draw E)
  have "ending E (\<lambda>t. same_table s t \<and> map_of (mg_rooms s) code = None)
     (bind_act (ask (ev_uuid e)) (\<lambda>id. with_state (\<lambda>s.
       after (change (install_room id code st path)) (give (mg_fresh s))))) (\<lambda>r. fresh_room s st r)" for code
  proof (cases "map_of (mg_rooms s) code")
    case None
    have "fresh_room s st (mg_fresh s) (install_room id code st path t)" if t: "same_table s t" for t id
    proof -
      note T = same_table_entries [OF t]
      have "room_live (mg_fresh t) (install_room id code st path t)"
        using install_room_ok [of t code st id path] ok None size by (simp add: T)
      then show ?thesis by (simp add: fresh_room_def T install_room_def account_of_def) (simp add: T [unfolded account_of_def])
    qed
    then show ?thesis
      using ok E by (auto intro!: E_pre [OF E_silent_then [OF table.A_ask]] E_look E_after [of _ _ _ "\<lambda>_. fresh_room s st (mg_fresh s)"]
        E_change E_give simp: same_table_entries(6))
  qed (auto simp: ends_def)
  with draw show ?thesis unfolding newRoom_def by (rule E_bind)
qed

text \<open>Whom \<open>gather\<close> calls up is in line, once.\<close>

lemma still_queued_cong: "same_table s t \<Longrightarrow> still_queued t q = still_queued s q"
  by (simp add: still_queued_def same_table_entries)

definition called_up :: "text_manager \<Rightarrow> lobby_settings \<Rightarrow> text_queue list \<Rightarrow> bool" where
  "called_up s st party \<longleftrightarrow> lined party s \<and> list_all (still_queued s) party \<and> list_all (\<lambda>q. qu_settings q = st) party"

lemma S_gather:
  "(\<And>t. same_table s t \<Longrightarrow> E t) \<Longrightarrow> lined (party @ qs) s \<Longrightarrow> called_up s (qu_settings first) party \<Longrightarrow>
   ending E (same_table s) (gather e first party accounts qs)
     (\<lambda>party' t. same_table s t \<and> called_up s (qu_settings first) party' \<and> set party' \<subseteq> set (party @ qs))"
proof (induction qs arbitrary: party accounts)
  case Nil
  then show ?case by (auto intro!: E_give)
next
  case (Cons q qs)
  let ?Q = "\<lambda>party' t. same_table s t \<and> called_up s (qu_settings first) party' \<and> set party' \<subseteq> set (party @ q # qs)"
  have skip: "ending E (same_table s) (gather e first party accounts qs) ?Q" for accounts
    by (rule E_weaken [OF Cons.IH [of party accounts]]) (use Cons.prems in \<open>auto simp: lined_def\<close>)
  have add: "ending E (same_table s) (gather e first (party @ [q]) accounts qs) ?Q"
    if "still_queued s q" "qu_settings q = qu_settings first" for accounts
    by (rule E_weaken [OF Cons.IH [of "party @ [q]" accounts]])
      (use Cons.prems that in \<open>auto simp: called_up_def lined_def\<close>)
  show ?case
    unfolding gather.simps Let_def
    using Cons.prems(1,3) skip add
    by (auto intro!: E_look E_give E_silent_then [OF table.A_succeeds [OF table.A_canMatch]] simp: still_queued_cong)
qed

end
