(* ===== verification/Lobby_Order.thy ===== *)
theory Lobby_Order
  imports Lobby_Lines
begin

section \<open>The operations keep the lobby in order\<close>

lemma resolve_size: "resolve e st s = (Inr snap, t) \<Longrightarrow> ls_Size st \<in> {4, 6}"
  by (auto simp: resolve_def reject_when_def raise_def split: if_splits)

lemma access_size: "access e account st path s = (Inr u, t) \<Longrightarrow> ls_Size st \<in> {4, 6}"
  by (auto simp: access_def after_def bind_act_def with_state_def reject_when_def raise_def
      split: prod.splits sum.splits if_splits dest: resolve_size)

lemma E_access: "lobby_ok s \<Longrightarrow> (ls_Size st \<in> {4, 6} \<Longrightarrow> ends (same_table s) g Q) \<Longrightarrow>
   ends (same_table s) (after (access e account st path) g) Q"
proof (rule endsI)
  assume ok: "lobby_ok s" and g: "ls_Size st \<in> {4, 6} \<Longrightarrow> ends (same_table s) g Q"
  fix u assume u: "same_table s u"
  let ?f = "access e account st path"
  have t: "same_table s (snd (?f u))" using table.trans [OF u alongD [OF table.A_access]] .
  note d = endsD [OF g t]
  show "lobby_ok t'" if "after ?f g u = (Inl err, t')" for err t'
  proof (cases "?f u")
    case (Pair res v)
    show ?thesis
    proof (cases res)
      case (Inl err')
      then have "t' = v" using that Pair by (simp add: after_def bind_act_def)
      then show ?thesis using t ok Pair by (simp add: same_table_ok)
    next
      case (Inr x)
      then show ?thesis using that Pair d(1) access_size [of e account st path u x v] by (simp add: after_def bind_act_def)
    qed
  qed
  show "Q x t'" if "after ?f g u = (Inr x, t')" for x t'
    using that d(2) access_size [of e account st path u]
    by (auto simp: after_def bind_act_def split: prod.splits sum.splits)
qed

lemma succeeds_access: "ending E (same_table s) (succeeds (access e account st path)) (\<lambda>ok t. same_table s t \<and> (ok \<longrightarrow> ls_Size st \<in> {4, 6}))"
proof -
  have "same_table u v \<and> (x \<longrightarrow> ls_Size st \<in> {4, 6})" if "succeeds (access e account st path) u = (Inr x, v)" for u v x
    using that alongD [OF table.A_access, of u e account st path] access_size [of e account st path u]
    by (auto simp: succeeds_def split: prod.splits sum.splits)
  moreover have "fst (succeeds (access e account st path) u) \<noteq> Inl err" for u err
    by (auto simp: succeeds_def split: prod.splits sum.splits)
  ultimately show ?thesis
    by (intro endsI) (metis fst_conv, metis table.trans)
qed

lemma E_live: "along same_table f \<Longrightarrow> ends (room_live r) f (\<lambda>_. lobby_ok)"
  by (rule E_quiet) (auto simp: same_table_ok room_live_def)

subsection \<open>Queues\<close>

lemma called_out:
  assumes "called_up s st party" "q \<in> set party" shows "map_of (mg_members s) (in_queue_of s q) = None"
  using assms lobby_okD(6) [of s "in_queue_of s q"]
  by (auto simp: called_up_def still_queued_def list_all_iff queue_ok_def lined_def split: option.splits)

lemma called_waiting:
  assumes "called_up s st party" "int (length party) = ls_Size st" "fresh_room s st r t"
  shows "waiting r (length party) party t"
  using assms called_out [OF assms(1)]
  by (auto simp: fresh_room_def waiting_def called_up_def lined_def room_live_def)

text \<open>What \<open>form_group\<close> does, for any condition that survives quiet steps and any way of seating the party.\<close>

lemma group_rule:
  assumes lined: "lined (first # rest) s" and E: "\<And>t. same_table s t \<Longrightarrow> E t"
    and seat: "\<And>r party. called_up s (qu_settings first) party \<Longrightarrow> set party \<subseteq> set (first # rest) \<Longrightarrow>
      int (length party) = ls_Size (qu_settings first) \<Longrightarrow>
      ending E (fresh_room s (qu_settings first) r) (after (each_act (assign e r) party) (broadcastLobby e r)) (\<lambda>_. E)"
  shows "ending E (same_table s) (form_group e first rest) (\<lambda>_. E)"
proof -
  have ok: "lobby_ok s" using lined by (simp add: lined_def)
  let ?form = "\<lambda>party. bind_act (newRoom e (qu_settings first) ''quick_play'') (\<lambda>r.
      after (each_act (assign e r) party) (broadcastLobby e r))"
  let ?rest = "\<lambda>t party. if int (length party) \<noteq> ls_Size (qu_settings first) then give ()
       else bind_act (succeeds (access e (in_queue_of t first) (qu_settings first) ''quick_play'')) (\<lambda>ok.
         if \<not> ok then give () else ?form party)"
  have go: "ending E (\<lambda>u. same_table s u \<and> called_up s (qu_settings first) party \<and> set party \<subseteq> set ([first] @ rest)) (?rest t party) (\<lambda>_. E)" for t party
  proof (cases "called_up s (qu_settings first) party \<and> set party \<subseteq> set (first # rest) \<and> int (length party) = ls_Size (qu_settings first)")
    case True
    have "ending E (\<lambda>t. same_table s t \<and> (go \<longrightarrow> ls_Size (qu_settings first) \<in> {4, 6})) (if \<not> go then give () else ?form party) (\<lambda>_. E)" for go
    proof (cases "go \<and> ls_Size (qu_settings first) \<in> {4, 6}")
      case pass: True
      then have "ending E (same_table s) (?form party) (\<lambda>_. E)"
        by (intro E_bind [OF S_newRoom [OF ok _ E]] seat) (use True in auto)
      then show ?thesis using pass by simp
    next
      case False
      then show ?thesis using E by (auto simp: ends_def give_def)
    qed
    then show ?thesis using True by (simp add: E_bind [OF succeeds_access])
  next
    case False
    then show ?thesis using E by (auto simp: ends_def give_def)
  qed
  have "ending E (same_table s) (bind_act (gather e first [first] [in_queue_of t first] rest) (?rest t)) (\<lambda>_. E)"
    if "still_queued s first" for t
    using lined that by (intro E_bind [OF S_gather go] E) (auto simp: called_up_def lined_def)
  then show ?thesis
    unfolding form_group_def Let_def using E
    by (intro E_look) (auto intro!: E_give simp: still_queued_cong)
qed

lemma S_group: "lined (first # rest) s \<Longrightarrow> ends (same_table s) (form_group e first rest) (\<lambda>_. lobby_ok)"
proof (rule group_rule, assumption)
  fix r party assume "called_up s (qu_settings first) party" "int (length party) = ls_Size (qu_settings first)"
  then have "ends (fresh_room s (qu_settings first) r) (each_act (assign e r) party) (\<lambda>_. room_live r)"
    using E_pre [OF S_party] called_waiting by blast
  then show "ends (fresh_room s (qu_settings first) r) (after (each_act (assign e r) party) (broadcastLobby e r)) (\<lambda>_. lobby_ok)"
    by (rule E_after [OF _ E_live [OF table.A_broadcast]])
qed (simp add: lined_def same_table_ok)

lemma S_groups: "ends (lined qs) (form_groups e qs) (\<lambda>_. lobby_ok)"
proof (induction qs)
  case Nil
  show ?case by (simp add: E_give lined_def)
next
  case (Cons q qs)
  have "ends (lined (q # qs)) (form_group e q qs) (\<lambda>_. lined qs)"
  proof (rule endsI)
    fix s u t assume s: "lined (q # qs) s" and f: "form_group e q qs s = (Inr u, t)"
    have "lobby_ok t" using endsD(2) [OF S_group [OF s] table.refl f] .
    moreover have "grown s t" using alongD [OF G_form_group, of s e q qs] f by simp
    moreover have "lined qs s" using s by (simp add: lined_def)
    ultimately show "lined qs t" using lined_grown by blast
  next
    fix s err t assume s: "lined (q # qs) s" and f: "form_group e q qs s = (Inl err, t)"
    show "lobby_ok t" using endsD(1) [OF S_group [OF s] table.refl f] .
  qed
  then show ?case using Cons by (auto intro: E_after)
qed

lemma S_matchQueues: "stays (matchQueues e)"
proof -
  have "ends (same_table s) (form_groups e (sortedQueue s)) (\<lambda>_. lobby_ok)" if "lobby_ok s" for s
    using S_groups lined_still [OF sorted_lined(1) [OF that]] by (rule E_pre)
  then have "stays (with_state (\<lambda>s. form_groups e (sortedQueue s)))" by (rule E_state)
  then have "stays (after (each_act (refill_room e) xs) (with_state (\<lambda>s. form_groups e (sortedQueue s))))" for xs
    by (intro E_after [OF E_each [OF S_refill_room]])
  then show ?thesis
    unfolding matchQueues_def by (intro E_state) (auto intro: E_done E_stays)
qed

lemma S_leaveQueue:
  assumes ok: "\<And>s. I s \<Longrightarrow> lobby_ok s" and still: "\<And>s t. I s \<Longrightarrow> same_table s t \<Longrightarrow> I t"
    and gone: "\<And>s a. I s \<Longrightarrow> I (s\<lparr>mg_queues := AList.delete a (mg_queues s)\<rparr>)"
  shows "ends I (leaveQueue e p) (\<lambda>_. I)"
  unfolding leaveQueue_def
proof (rule E_state, goal_cases)
  case (1 s)
  have quiet: "ends I f (\<lambda>_. I)" if "along same_table f" for f :: "unit act"
    using that ok still by (rule E_quiet)
  have rest: "ends I (with_state (\<lambda>t. if pe_closed (mg_peer t p) then give () else emit e p [] x)) (\<lambda>_. I)" for x
    by (rule quiet) (auto intro!: table.A_plain)
  have "ends I (change (\<lambda>s. s\<lparr>mg_queues := AList.delete (account_of s p) (mg_queues s)\<rparr>)) (\<lambda>_. I)"
    by (rule E_change) (rule gone)
  then have "ends I (after (change (\<lambda>s. s\<lparr>mg_queues := AList.delete (account_of s p) (mg_queues s)\<rparr>))
      (with_state (\<lambda>t. if pe_closed (mg_peer t p) then give () else emit e p [] x))) (\<lambda>_. I)" for x
    using rest by (rule E_after)
  then have *: "ends (same_table s) (after (change (\<lambda>s. s\<lparr>mg_queues := AList.delete (account_of s p) (mg_queues s)\<rparr>))
      (with_state (\<lambda>t. if pe_closed (mg_peer t p) then give () else emit e p [] x))) (\<lambda>_. I)" for x
    by (rule E_pre) (rule still [OF 1])
  show ?case
  proof (cases "map_of (mg_queues s) (account_of s p)")
    case None
    then show ?thesis using still [OF 1] by (simp add: E_give)
  next
    case (Some q)
    show ?thesis
    proof (cases "qu_peer q = p")
      case True
      then show ?thesis unfolding Some by simp (rule E_quiet_after [OF table.A_call ok [OF 1] *])
    next
      case False
      then show ?thesis using still [OF 1] Some by (simp add: E_give)
    qed
  qed
qed

definition idle :: "nat \<Rightarrow> text_manager \<Rightarrow> bool" where
  "idle p s \<longleftrightarrow> lobby_ok s \<and> p < mg_fresh s \<and> map_of (mg_members s) (account_of s p) = None"

lemma idle_still: "idle p s \<Longrightarrow> same_table s t \<Longrightarrow> idle p t"
  using same_table_entries(2,6,7,14) [of s t] by (simp add: idle_def)

lemma leaveQueue_idle: "ends (idle p) (leaveQueue e q) (\<lambda>_. idle p)"
proof (rule S_leaveQueue)
  show "idle p s \<Longrightarrow> idle p (s\<lparr>mg_queues := AList.delete a (mg_queues s)\<rparr>)" for s a
    by (simp add: idle_def unqueue_ok account_of_def)
qed (auto intro: idle_still, simp add: idle_def)

lemma leaveQueue_stays: "stays (leaveQueue e p)"
  by (rule S_leaveQueue) (auto simp: unqueue_ok same_table_ok)

lemma S_enqueue: "ends (idle p) (enqueue e p st) (\<lambda>_. lobby_ok)"
  unfolding enqueue_def Let_def
proof (rule E_state, goal_cases)
  case (1 s)
  have ok: "lobby_ok s" using 1 by (simp add: idle_def)
  have put: "lobby_ok (t\<lparr>mg_order := Suc (mg_order t), mg_queues := AList.update (account_of s p)
      \<lparr>qu_id = id, qu_peer = p, qu_settings = st, qu_joined = joined, qu_decision = decision, qu_order = Suc (mg_order t0), qu_choice = False\<rparr>
      (mg_queues t)\<rparr>)" if "same_table s t" "same_table s t0" for t t0 id joined decision
    using enqueue_ok [of t "\<lparr>qu_id = id, qu_peer = p, qu_settings = st, qu_joined = joined, qu_decision = decision,
        qu_order = Suc (mg_order s), qu_choice = False\<rparr>" "Suc (mg_order s)"] idle_still [OF 1 that(1)]
    by (simp add: idle_def same_table_entries [OF that(1)] same_table_entries [OF that(2)])
  show ?case
    by (intro E_quiet_then [OF table.A_reserve ok] E_quiet_then [OF table.A_ask ok] E_look)
      (auto intro!: E_after [of _ _ _ "\<lambda>_. lobby_ok"] E_change E_bind [of _ _ _ "\<lambda>_. lobby_ok"]
        E_still [OF table.A_succeeds [OF table.A_emit]] S_matchQueues leaveQueue_stays intro: put)
qed

definition opened :: "nat \<Rightarrow> text_manager \<Rightarrow> bool" where
  "opened p s \<longleftrightarrow> lobby_ok s \<and> p < mg_fresh s"

lemma S_QueueJoin: "ends (opened p) (QueueJoin e p st) (\<lambda>_. lobby_ok)"
  unfolding QueueJoin_def Let_def
proof (rule E_state, goal_cases)
  case (1 s)
  then have ok: "lobby_ok s" by (simp add: opened_def)
  have "ends (same_table s) (enqueue e p st) (\<lambda>_. lobby_ok)"
      "ends (same_table s) (after (leaveQueue e p) (enqueue e p st)) (\<lambda>_. lobby_ok)"
    if "map_of (mg_members s) (account_of s p) = None"
  proof -
    have "idle p s" using 1 that by (simp add: idle_def opened_def)
    note i = idle_still [OF this]
    show "ends (same_table s) (enqueue e p st) (\<lambda>_. lobby_ok)" using S_enqueue i by (rule E_pre)
    show "ends (same_table s) (after (leaveQueue e p) (enqueue e p st)) (\<lambda>_. lobby_ok)"
      using E_after [OF leaveQueue_idle S_enqueue] i by (rule E_pre)
  qed
  then show ?case
    using ok by (auto intro!: E_refuse E_access E_quiet_after [OF table.A_canMatch] E_look E_quietly [OF _ table.A_emit] split: option.splits)
qed

lemma S_KeepWaiting: "stays (KeepWaiting e p)"
  unfolding KeepWaiting_def Let_def
proof (rule E_state, goal_cases)
  case ok: (1 s)
  have put: "lobby_ok (t\<lparr>mg_queues := AList.update (account_of t p) (q\<lparr>qu_choice := b, qu_decision := d\<rparr>) (mg_queues t)\<rparr>)"
    if "same_table s t" "map_of (mg_queues s) (account_of s p) = Some q" for t p q b d
    using that(2) ok by (intro requeue_ok) (simp_all add: same_table_entries [OF that(1)])
  show ?case
    using ok by (auto intro!: E_fail E_refuse E_quiet_then [OF table.A_ask] E_after [of _ _ _ "\<lambda>_. lobby_ok"] E_change
      E_still table.A_emit intro: put split: option.splits)
qed

lemma S_QueueLeave: "stays (QueueLeave e p)"
  unfolding QueueLeave_def by (intro E_state E_refuse E_stays leaveQueue_stays)

end
