(* ===== verification/Lobby_Seating.thy ===== *)
theory Lobby_Seating
  imports Lobby_Order
begin

section \<open>Sitting down, standing up and leaving keep the lobby in order\<close>

subsection \<open>Being seated\<close>

definition sits :: "nat \<Rightarrow> int \<Rightarrow> string \<Rightarrow> text_manager \<Rightarrow> bool" where
  "sits r seat a s \<longleftrightarrow> room_live r s \<and> (\<exists>v. map_of (rm_seats (mg_room s r)) seat = Some v \<and> me_account v = a)"

lemma sitsD: "sits r seat a s \<Longrightarrow> room_live r s" "sits r seat a s \<Longrightarrow> lobby_ok s"
  by (simp_all add: sits_def room_live_def)

lemma live_still: "room_live r s \<Longrightarrow> same_table s t \<Longrightarrow> room_live r t"
  by (simp add: room_live_def same_table_ok same_table_live)

lemma sits_still: "sits r seat a s \<Longrightarrow> same_table s t \<Longrightarrow> sits r seat a t"
  unfolding sits_def using live_still same_table_seat by metis

lemma sits_quiet: "along same_table f \<Longrightarrow> ends (sits r seat a) f (\<lambda>_. sits r seat a)"
  by (rule E_quiet) (auto intro: sits_still sitsD)

lemma member_sits:
  assumes "room_live r s" "member_seat (mg_room s r) a = Some (seat, v)" shows "sits r seat a s"
proof -
  have "room_ok s (mg_room s r)" using assms(1) live_ok by (simp add: room_live_def)
  then show ?thesis using member_seat_Some [OF assms(2)] seat_map_of assms(1) by (auto simp: sits_def)
qed

lemma E_seat:
  assumes lv: "room_live r s" and f: "\<And>seat v. sits r seat a s \<Longrightarrow> ends (same_table s) (f seat v) Q"
  shows "ends (same_table s) (with_seat r a f) Q"
  unfolding with_seat_def
proof (rule E_look)
  fix t assume t: "same_table s t"
  have ok: "lobby_ok s" using lv by (simp add: room_live_def)
  have "sits r seat a s" if "member_seat (mg_room t r) a = Some (seat, v)" for seat v
    using member_sits [OF live_still [OF lv t] that] sits_still [OF _ same_table_sym [OF t]] by blast
  then show "ends (same_table s) (case member_seat (mg_room t r) a of
      None \<Rightarrow> raise (External ''nil member'') | Some (seat, v) \<Rightarrow> f seat v) Q"
    using f by (auto intro: E_fail [OF ok] split: option.splits)
qed

lemma forget_ok:
  assumes "sits r seat a s" shows "room_live r (forget_seat r seat a s)"
proof -
  obtain v where v: "map_of (rm_seats (mg_room s r)) seat = Some v" "me_account v = a" using assms by (auto simp: sits_def)
  then show ?thesis
    using forget_seat_ok [of s r seat v] map_of_SomeD [OF v(1)] sitsD(1) [OF assms] by (simp add: room_live_def)
qed

lemma edit_sits:
  assumes "sits r seat a s" "\<And>v. me_account (f v) = me_account v"
    "\<And>v p. map_of (rm_seats (mg_room s r)) seat = Some v \<Longrightarrow> me_peer (f v) = Some p \<Longrightarrow> p < mg_fresh s \<and> account_of s p = me_account v"
  shows "sits r seat a (upd_room r (upd_member seat f) s)"
proof -
  have "room_live r (upd_room r (upd_member seat f) s)"
    using sitsD(1) [OF assms(1)] assms(2,3) by (intro edit_seat_ok) (simp_all add: room_live_def)
  then show ?thesis
    using assms(1,2) by (auto simp: sits_def room_upd_room upd_member_def set_member_def map_of_update)
qed

lemma S_unseat_peer: "ends (sits r seat a) (edit_member r seat (\<lambda>v. v\<lparr>me_peer := None\<rparr>)) (\<lambda>_. sits r seat a)"
  unfolding edit_member_def by (rule E_change) (rule edit_sits, simp_all)

lemma S_seat_peer:
  "ends (\<lambda>s. sits r seat a s \<and> p < mg_fresh s \<and> account_of s p = a) (edit_member r seat (\<lambda>v. v\<lparr>me_peer := Some p\<rparr>))
     (\<lambda>_. sits r seat a)"
  unfolding edit_member_def by (rule E_change) (rule edit_sits, auto simp: sits_def)

lemma E_if: "(b \<Longrightarrow> ending E P f Q) \<Longrightarrow> (\<not> b \<Longrightarrow> ending E P g Q) \<Longrightarrow> ending E P (if b then f else g) Q"
  by simp

subsection \<open>Finished rooms\<close>

lemma S_prune_seat: "ends (room_live r) (prune_seat r seat) (\<lambda>_. room_live r)"
  unfolding prune_seat_def with_member_def
proof (rule E_state, goal_cases)
  case (1 s)
  have forget: "room_live r (let s1 = if map_of (mg_members t) (me_account v) = Some r
        then t\<lparr>mg_members := AList.delete (me_account v) (mg_members t)\<rparr> else t in upd_room r (drop_seat seat) s1)"
    if "map_of (rm_seats (mg_room s r)) seat = Some v" "same_table s t" for v t
  proof -
    have sit: "sits r seat (me_account v) t" 
      by (rule sits_still [OF _ that(2)]) (use 1 that in \<open>simp add: sits_def\<close>)
    then obtain w where "map_of (rm_seats (mg_room t r)) seat = Some w" "me_account w = me_account v"
      by (auto simp: sits_def)
    then have "map_of (mg_members t) (me_account v) = Some r"
      using member_iff [of t "me_account v" r] account_of_seat [OF map_of_SomeD] sitsD(1) [OF sit]
      by (metis room_live_def)
    then show ?thesis using forget_ok [OF sit] by (simp add: forget_seat_def)
  qed
  show ?case
  proof (cases "map_of (rm_seats (mg_room s r)) seat")
    case None
    then show ?thesis using live_still [OF 1] by (simp add: E_give)
  next
    case (Some v)
    have "ends (same_table s) (change (\<lambda>t. let s1 = if map_of (mg_members t) (me_account v) = Some r
        then t\<lparr>mg_members := AList.delete (me_account v) (mg_members t)\<rparr> else t in upd_room r (drop_seat seat) s1)) (\<lambda>_. room_live r)"
      by (rule E_change) (rule forget [OF Some])
    then show ?thesis
      unfolding Some option.case by (intro E_look E_if E_give live_still [OF 1])
  qed
qed

lemma S_drop_empty: "ends (room_live r) (change (drop_empty_room r)) (\<lambda>_. lobby_ok)"
  by (rule E_change) (simp add: drop_empty_ok room_live_def)

lemma S_prune: "ends (room_live r) (pruneFinishedRoom e r) (\<lambda>_. lobby_ok)"
proof -
  have "ends (room_live r) (bind_act (visit_seats e r) (each_act (prune_seat r))) (\<lambda>_. room_live r)"
    by (rule E_bind [OF E_quiet_live [OF table.A_visit_seats]]) (rule E_each [OF S_prune_seat])
  then have "ends (room_live r) (after (bind_act (visit_seats e r) (each_act (prune_seat r))) (change (drop_empty_room r))) (\<lambda>_. lobby_ok)"
    using S_drop_empty by (rule E_after)
  then have "ends (same_table s) (if b then give () else after (bind_act (visit_seats e r) (each_act (prune_seat r)))
      (change (drop_empty_room r))) (\<lambda>_. lobby_ok)" if "room_live r s" for s b
    using live_still [OF that] by (auto intro!: E_give intro: E_pre dest: room_liveD)
  then show ?thesis unfolding pruneFinishedRoom_def by (rule E_state)
qed

lemma S_broadcastMatch: "ends (room_live r) (broadcastMatch e r) (\<lambda>_. lobby_ok)"
  unfolding broadcastMatch_def by (rule E_deferring [OF table.A_match_frames S_prune])

subsection \<open>Leaving\<close>

lemma S_forget_drop: "ends (sits r seat a) (change (\<lambda>s. drop_empty_room r (forget_seat r seat a s))) (\<lambda>_. lobby_ok)"
  by (rule E_change) (use forget_ok drop_empty_ok room_liveD in blast)

lemma S_leave_match: "ends (sits r seat a) (leave_match e r seat a) (\<lambda>_. lobby_ok)"
  unfolding leave_match_def Let_def
proof (rule E_state, goal_cases)
  case (1 s)
  have "ends (sits r seat a) (if \<not> over then broadcastMatch e r
      else change (\<lambda>s. drop_empty_room r (forget_seat r seat a s))) (\<lambda>_. lobby_ok)" for over
    using E_pre [OF S_broadcastMatch sitsD(1)] S_forget_drop by auto
  then have "ends (sits r seat a) (after (dropping (run_match e r (\<lambda>m. SetConnected m seat False)))
     (after (edit_member r seat (\<lambda>v. v\<lparr>me_peer := None\<rparr>))
       (if \<not> over then broadcastMatch e r else change (\<lambda>s. drop_empty_room r (forget_seat r seat a s))))) (\<lambda>_. lobby_ok)" for over
    by (intro E_after [OF sits_quiet [OF table.A_dropping [OF table.A_run]]] E_after [OF S_unseat_peer])
  then show ?case by (rule E_pre) (rule sits_still [OF 1])
qed

lemma S_leave_lobby: "ends (sits r seat a) (leave_lobby e r seat a) (\<lambda>_. lobby_ok)"
proof -
  have elect: "ends (room_live r) (elect_host r) (\<lambda>_. room_live r)"
    unfolding elect_host_def by (rule E_state) (rule E_change, meson elect_ok live_still room_liveD)
  have tail: "ends (room_live r) (after (broadcastLobby e r) (matchQueues e)) (\<lambda>_. lobby_ok)"
    by (rule E_after [OF E_live [OF table.A_broadcast] S_matchQueues])
  have "ends (room_live r) (if b then change (drop_empty_room r)
      else after (if c then elect_host r else give ()) (after (broadcastLobby e r) (matchQueues e))) (\<lambda>_. lobby_ok)" for b c
    using S_drop_empty E_after [OF elect tail] E_after [OF _ tail, of "room_live r" "give ()"]
    by (auto intro: E_give)
  then have "ends (room_live r) (with_state (\<lambda>s. if rm_seats (mg_room s r) = [] then change (drop_empty_room r)
      else after (if rm_host (mg_room s r) = seat then elect_host r else give ()) (after (broadcastLobby e r) (matchQueues e)))) (\<lambda>_. lobby_ok)"
    by (intro E_state) (rule E_pre, blast, rule live_still)
  moreover have "ends (sits r seat a) (change (\<lambda>s. upd_room r reshuffled (forget_seat r seat a s))) (\<lambda>_. room_live r)"
    by (rule E_change) (use forget_ok reshuffle_room room_liveD in blast)
  ultimately show ?thesis
    unfolding leave_lobby_def by (intro E_after [OF sits_quiet [OF table.A_release]] E_after)
qed

lemma S_leave: "stays (leave e p)"
  unfolding leave_def Let_def
proof (rule E_state, goal_cases)
  case ok: (1 s)
  have "ends (same_table s) (with_seat r (account_of s p) (\<lambda>seat v.
     if me_peer v \<noteq> Some p then give ()
     else after (abortPrepared e r) (with_state (\<lambda>s'.
       if rm_match (mg_room s' r) \<noteq> None then leave_match e r seat (account_of s p) else leave_lobby e r seat (account_of s p))))) (\<lambda>_. lobby_ok)"
    if "map_of (mg_members s) (account_of s p) = Some r" for r
  proof (rule E_seat)
    show "room_live r s" using member_iff [OF ok] that ok by (auto simp: room_live_def)
  next
    fix seat v assume s: "sits r seat (account_of s p) s"
    have "ends (same_table s) (leave_match e r seat (account_of s p)) (\<lambda>_. lobby_ok)"
        "ends (same_table s) (leave_lobby e r seat (account_of s p)) (\<lambda>_. lobby_ok)"
      by (rule E_pre [OF S_leave_match sits_still [OF s]], assumption) (rule E_pre [OF S_leave_lobby sits_still [OF s]])
    then show "ends (same_table s) (if me_peer v \<noteq> Some p then give ()
     else after (abortPrepared e r) (with_state (\<lambda>s'.
       if rm_match (mg_room s' r) \<noteq> None then leave_match e r seat (account_of s p) else leave_lobby e r seat (account_of s p)))) (\<lambda>_. lobby_ok)"
      using ok by (auto intro!: E_done E_quiet_after table.A_abort E_look)
  qed
  then show ?case
    using ok by (auto intro!: E_refuse E_stays [OF _ leaveQueue_stays] split: option.splits)
qed

lemma S_Leave: "stays (Leave e p)"
  unfolding Leave_def by (intro E_state E_refuse E_stays S_leave)

lemma S_disconnect: "stays (disconnect e p)"
proof -
  have "stays (change (\<lambda>s. (closePeer p s)\<lparr>mg_peers := AList.delete (account_of s p) (mg_peers s)\<rparr>))"
  proof (rule E_change)
    fix s assume ok: "lobby_ok s"
    have "lobby_ok (closePeer p s)" using ok same_table_ok [OF table.R_close] by simp
    then show "lobby_ok ((closePeer p s)\<lparr>mg_peers := AList.delete (account_of s p) (mg_peers s)\<rparr>)"
      using unpeer_ok [of "closePeer p s"] by (simp add: closePeer_def)
  qed
  then have "stays (after (leave e p) (change (\<lambda>s. (closePeer p s)\<lparr>mg_peers := AList.delete (account_of s p) (mg_peers s)\<rparr>)))"
    by (rule E_after [OF S_leave])
  then show ?thesis
    unfolding disconnect_def
    by (auto intro!: T_state T_give T_after [OF E_still [OF table.A_change [OF table.R_close]]])
qed

lemma S_Disconnect: "stays (Disconnect e p)"
  by (simp add: Disconnect_def S_disconnect)

lemma S_EnforceAccount: "stays (EnforceAccount e active account)"
  unfolding EnforceAccount_def by (auto intro!: T_rules S_disconnect split: option.splits sum.splits)

lemma S_EnforceSanction: "stays (EnforceSanction e active sanction)"
  unfolding EnforceSanction_def by (auto intro!: T_rules S_disconnect split: option.splits sum.splits)

lemma S_install_peer: "stays (change (install_peer e account binding ident))"
  by (rule E_change) (rule install_peer_ok)

lemma S_OpenAuthenticated: "stays (OpenAuthenticated e authenticate)"
  unfolding OpenAuthenticated_def
  by (auto intro!: T_rules S_disconnect S_install_peer split: option.splits sum.splits)

end
