(* ===== verification/Lobby_Hosting.thy ===== *)
theory Lobby_Hosting
  imports Lobby_Seating
begin

section \<open>Rooms, matches and the tick keep the lobby in order\<close>

subsection \<open>\<open>Create\<close> and \<open>Join\<close>\<close>

lemma sit_new_live:
  assumes "lobby_ok s" "listed_room s r" "map_of (mg_members s) (account_of s p) = None"
    "map_of (mg_queues s) (account_of s p) = None" "p < mg_fresh s"
    "int (length (rm_seats (mg_room s r))) < ls_Size (rm_settings (mg_room s r))"
  shows "room_live r (upd_room r reshuffled (sit_new r p admission s))"
  using sit_new_ok [OF assms] reshuffle_room room_liveD by blast

lemma S_Create: "ends (opened p) (Create e p st) (\<lambda>_. lobby_ok)"
  unfolding Create_def Let_def
proof (rule E_state, goal_cases)
  case (1 s)
  then have ok: "lobby_ok s" and p: "p < mg_fresh s" by (simp_all add: opened_def)
  have "ends (same_table s) (bind_act (newRoom e st ''local'') (\<lambda>r.
      after (change (sit_new r p admission)) (after (broadcastLobby e r) (with_state (\<lambda>s. give (rm_code (mg_room s r))))))) (\<lambda>_. lobby_ok)"
    if out: "map_of (mg_members s) (account_of s p) = None" "map_of (mg_queues s) (account_of s p) = None"
      and size: "ls_Size st \<in> {4, 6}" for admission
  proof -
    have "room_live r (sit_new r p admission t)" if "fresh_room s st r t" for r t
      using that out size p by (intro sit_new_ok) (auto simp: fresh_room_def room_live_def)
    then have "ends (fresh_room s st r) (change (sit_new r p admission)) (\<lambda>_. room_live r)" for r
      by (rule E_change)
    moreover have "ends (room_live r) (after (broadcastLobby e r) (with_state (\<lambda>s. give (rm_code (mg_room s r))))) (\<lambda>_. lobby_ok)" for r
      by (rule E_after [OF E_live [OF table.A_broadcast]]) (intro T_rules)
    ultimately show ?thesis by (intro E_bind [OF S_newRoom [OF ok size]]) (simp add: same_table_ok ok, rule E_after)
  qed
  then show ?case
    using ok by (auto intro!: E_refuse E_access E_quiet_after [OF table.A_canMatch] E_quiet_then [OF table.A_reserve])
qed

lemma S_rejoin:
  assumes lv: "room_live r s" and p: "p < mg_fresh s"
  shows "ends (same_table s) (rejoin e r p) (\<lambda>_. lobby_ok)"
  unfolding rejoin_def
proof (intro E_look E_seat lv)
  fix t seat v assume t: "same_table s t" and sit: "sits r seat (account_of t p) s"
  have "ends (same_table s) (edit_member r seat (\<lambda>v. v\<lparr>me_peer := Some p\<rparr>)) (\<lambda>_. room_live r)"
  proof (rule E_weaken [OF S_seat_peer [of r seat "account_of t p" p]])
    fix u assume u: "same_table s u"
    then show "sits r seat (account_of t p) u \<and> p < mg_fresh u \<and> account_of u p = account_of t p"
      using sits_still [OF sit u] p by (simp add: same_table_entries [OF u] same_table_entries [OF t])
  qed (rule sitsD)
  moreover have "ends (room_live r) (if b then lobby e r p
      else after (dropping (run_match e r (\<lambda>m. SetConnected m seat True)))
        (after (reset_stream e r seat) (after (lobby e r p) (broadcastMatch e r)))) (\<lambda>_. lobby_ok)" for b
    by (intro E_if E_live table.A_lobby E_after [OF E_quiet_live] table.A_dropping table.A_run table.A_reset S_broadcastMatch)
  ultimately show "ends (same_table s) (after (edit_member r seat (\<lambda>v. v\<lparr>me_peer := Some p\<rparr>))
      (if rm_match (mg_room t r) = None then lobby e r p
       else after (dropping (run_match e r (\<lambda>m. SetConnected m seat True)))
        (after (reset_stream e r seat) (after (lobby e r p) (broadcastMatch e r))))) (\<lambda>_. lobby_ok)"
    by (rule E_after)
qed

lemma S_join_new:
  assumes lv: "room_live r s" and p: "p < mg_fresh s"
    and out: "map_of (mg_members s) (account_of s p) = None" "map_of (mg_queues s) (account_of s p) = None"
  shows "ends (same_table s) (join_new e r p) (\<lambda>_. lobby_ok)"
proof -
  have ok: "lobby_ok s" "listed_room s r" using lv by (simp_all add: room_live_def)
  have "room_live r (upd_room r reshuffled (sit_new r p admission u))"
    if u: "same_table s u" and few: "int (length (rm_seats (mg_room s r))) < ls_Size (rm_settings (mg_room s r))" for u admission
    using ok p out few by (intro sit_new_live) (simp_all add: same_table_entries [OF u])
  then have "ends (same_table s) (change (\<lambda>s. upd_room r reshuffled (sit_new r p admission s))) (\<lambda>_. room_live r)"
    if "int (length (rm_seats (mg_room s r))) < ls_Size (rm_settings (mg_room s r))" for admission
    using that by (intro E_change)
  then have "ends (same_table s) (after (change (\<lambda>s. upd_room r reshuffled (sit_new r p admission s))) (broadcastLobby e r)) (\<lambda>_. lobby_ok)"
    if "int (length (rm_seats (mg_room s r))) < ls_Size (rm_settings (mg_room s r))" for admission
    using that E_after E_live [OF table.A_broadcast] by blast
  then show ?thesis
    unfolding join_new_def Let_def
    by (intro E_look E_refuse ok E_quiet_after [OF table.A_canMatch] E_quiet_then [OF table.A_reserve])
      (auto simp: same_table_entries(9,12))
qed

lemma S_Join: "ends (opened p) (Join e p code) (\<lambda>_. lobby_ok)"
  unfolding Join_def Let_def
proof (rule E_at, goal_cases)
  case (1 s)
  then have ok: "lobby_ok s" and p: "p < mg_fresh s" by (simp_all add: opened_def)
  show ?case
  proof (intro E_quiet_after [OF table.A_authority] ok E_look E_refuse)
    fix t assume t: "same_table s t"
      and free: "\<not> (\<not> is_current t p \<or> map_of (mg_queues t) (account_of t p) \<noteq> None)"
    note T = same_table_entries [OF t]
    show "ends (same_table s) (case map_of (mg_rooms t) (ev_ToUpper e code) of
          None \<Rightarrow> raise ErrTextMembership
        | Some r \<Rightarrow> reject_when (rm_pendingOperator (mg_room t r) \<or> account_of t p \<in> set (rm_excludedAccounts (mg_room t r)))
            ErrTextUnavailable
            (case map_of (mg_members t) (account_of t p) of
               Some existing \<Rightarrow> reject_when (existing \<noteq> r) ErrTextMembership (rejoin e r p)
             | None \<Rightarrow> join_new e r p)) (\<lambda>_. lobby_ok)"
    proof (cases "map_of (mg_rooms t) (ev_ToUpper e code)")
      case None
      then show ?thesis using ok by (simp add: E_fail)
    next
      case (Some r)
      then have lv: "room_live r s" using ok rooms_live [OF ok] by (simp add: T room_live_def)
      show ?thesis
        using Some free ok by (auto intro!: E_refuse S_rejoin [OF lv p] S_join_new [OF lv p] simp: T split: option.splits)
    qed
  qed
qed

subsection \<open>\<open>Settings\<close>\<close>

lemma S_new_settings:
  assumes ok: "lobby_ok s" "listed_room s r" and size: "ls_Size st \<in> {4, 6}" "int (length (rm_seats (mg_room s r))) \<le> ls_Size st"
  shows "ends (same_table s) (if same then give ()
      else after (on_error (after (change (upd_room r invalidate)) (broadcastLobby e r))
          (bind_act (visit_seats e r) (each_act (release_seat e r))))
        (after (change (upd_room r (new_settings st))) (after (broadcastLobby e r) (matchQueues e)))) (\<lambda>_. lobby_ok)"
proof -
  have quiet: "along same_table (on_error (after (change (upd_room r invalidate)) (broadcastLobby e r))
      (bind_act (visit_seats e r) (each_act (release_seat e r))))"
    by (intro table.A_plain table.A_change table.unready table.A_release)
  have "room_live r (upd_room r (new_settings st) t)" if "same_table s t" for t
    using ok size by (intro new_settings_ok) (simp_all add: same_table_entries [OF that])
  then have "ends (same_table s) (change (upd_room r (new_settings st))) (\<lambda>_. room_live r)" by (rule E_change)
  then have "ends (same_table s) (after (change (upd_room r (new_settings st))) (after (broadcastLobby e r) (matchQueues e))) (\<lambda>_. lobby_ok)"
    by (rule E_after [OF _ E_after [OF E_live [OF table.A_broadcast] S_matchQueues]])
  then show ?thesis by (intro E_if E_done ok E_quiet_after [OF quiet])
qed

lemma S_Settings: "stays (Settings e p n st)"
  unfolding Settings_def Let_def
proof (rule E_state, goal_cases)
  case ok: (1 s)
  show ?case
  proof (cases "map_of (mg_members s) (account_of s p)")
    case None
    then show ?thesis using ok by (simp add: E_fail)
  next
    case (Some r)
    then have lv: "listed_room s r" using member_iff [OF ok] by simp
    then have rl: "room_live r s" using ok by (simp add: room_live_def)
    show ?thesis
      unfolding Some option.case
      by (intro E_refuse ok E_seat rl E_access S_new_settings [OF ok lv]) simp_all
  qed
qed

subsection \<open>\<open>Rematch\<close>\<close>

lemma S_edit_quiet:
  assumes "\<And>v. me_account (f v) = me_account v" "\<And>v. me_peer (f v) = me_peer v"
  shows "ends (room_live r) (edit_member r seat f) (\<lambda>_. room_live r)"
  unfolding edit_member_def
proof (rule E_change)
  fix s assume lv: "room_live r s"
  then have "room_ok s (mg_room s r)" using live_ok by (simp add: room_live_def)
  then have "map_of (rm_seats (mg_room s r)) seat = Some v \<Longrightarrow> seat_in_order s (ls_Size (rm_settings (mg_room s r))) (seat, v)" for v
    by (auto simp: room_ok_def list_all_iff dest: map_of_SomeD)
  then show "room_live r (upd_room r (upd_member seat f) s)"
    using lv assms by (intro edit_seat_ok) (auto simp: room_live_def seat_in_order_def)
qed

lemma S_rematch_seat: "ends (room_live r) (rematch_seat r seat) (\<lambda>_. room_live r)"
proof -
  have "ends (room_live r) (with_member r seat (\<lambda>v. with_state (\<lambda>s.
        if open_member s v then give () else change (forget_seat r seat (me_account v))))) (\<lambda>_. room_live r)"
    unfolding with_member_def
  proof (rule E_state, goal_cases)
    case (1 s)
    show ?case
    proof (cases "map_of (rm_seats (mg_room s r)) seat")
      case None
      then show ?thesis using live_still [OF 1] by (simp add: E_give)
    next
      case (Some v)
      then have "sits r seat (me_account v) s" using 1 by (simp add: sits_def)
      then have "ends (same_table s) (change (forget_seat r seat (me_account v))) (\<lambda>_. room_live r)"
        by (intro E_change forget_ok) (rule sits_still)
      then show ?thesis unfolding Some option.case by (intro E_look E_if E_give live_still [OF 1])
    qed
  qed
  then show ?thesis
    unfolding rematch_seat_def by (intro E_after [OF S_edit_quiet]) simp_all
qed

lemma S_Rematch: "stays (Rematch e p)"
  unfolding Rematch_def Let_def
proof (rule E_state, goal_cases)
  case ok: (1 s)
  show ?case
  proof (cases "map_of (mg_members s) (account_of s p)")
    case None
    then show ?thesis using ok by (simp add: E_fail)
  next
    case (Some r)
    then have rl: "room_live r s" using member_iff [OF ok] ok by (simp add: room_live_def)
    have "ends (room_live r) (with_state (\<lambda>s. change (upd_room r (rematch_room s)))) (\<lambda>_. room_live r)"
      by (rule E_state) (rule E_change, meson rematch_room_ok live_still room_liveD)
    then have "ends (room_live r) (after (bind_act (visit_seats e r) (each_act (rematch_seat r)))
        (after (with_state (\<lambda>s. change (upd_room r (rematch_room s)))) (after (broadcastLobby e r) (matchQueues e)))) (\<lambda>_. lobby_ok)"
      by (intro E_after [OF E_bind [OF E_quiet_live [OF table.A_visit_seats] E_each [OF S_rematch_seat]]]
        E_after [OF _ E_after [OF E_live [OF table.A_broadcast] S_matchQueues]])
    then have "ends (same_table s) (after (bind_act (visit_seats e r) (each_act (rematch_seat r)))
        (after (with_state (\<lambda>s. change (upd_room r (rematch_room s)))) (after (broadcastLobby e r) (matchQueues e)))) (\<lambda>_. lobby_ok)"
      by (rule E_pre) (rule live_still [OF rl])
    then show ?thesis
      unfolding Some option.case
      by (intro E_refuse ok E_if E_quietly [OF ok table.A_lobby] E_fail)
  qed
qed

subsection \<open>\<open>Start\<close>\<close>

lemma S_start: "ends (room_live r) (start e r) (\<lambda>_. lobby_ok)"
proof -
  have "ends (room_live r) (change (upd_room r (install_match pm))) (\<lambda>_. room_live r)" for pm
    by (rule E_change) (use install_match_ok room_liveD in blast)
  then have "ends (room_live r) (after (failing_with r e (cancel_prepared e r matchID) (commit_match e r matchID now pm))
      (after (change (upd_room r (install_match pm))) (ignoring (broadcastMatch e r)))) (\<lambda>_. lobby_ok)" for matchID now pm
    by (intro E_after [OF E_quiet_live [OF table.A_failing [OF table.A_cancel_prepared table.A_commit]]]
      E_after [OF _ E_ignoring [OF S_broadcastMatch]])
  then show ?thesis
    unfolding start_def
    by (intro E_bind [OF E_quiet_live [OF table.A_ask]] E_bind [OF E_quiet_live [OF table.A_failing [OF table.A_release_all table.A_prepare]]])
qed

lemma S_Start: "stays (Start e p)"
  unfolding Start_def Let_def
proof (rule E_state, goal_cases)
  case ok: (1 s)
  show ?case
  proof (cases "map_of (mg_members s) (account_of s p)")
    case None
    then show ?thesis using ok by (simp add: E_fail)
  next
    case (Some r)
    then have rl: "room_live r s" using member_iff [OF ok] ok by (simp add: room_live_def)
    have "ends (same_table s) (start e r) (\<lambda>_. lobby_ok)" using S_start live_still [OF rl] by (rule E_pre)
    then show ?thesis unfolding Some option.case by (intro E_refuse ok E_seat rl)
  qed
qed

subsection \<open>The rest\<close>

lemma S_prune_after: "stays (prune_after e r)"
  unfolding prune_after_def
proof (rule E_state, goal_cases)
  case ok: (1 s)
  then show ?case
    using E_pre [OF S_prune] live_still [of r s] by (auto intro!: E_if E_done simp: room_live_def listed_room_def)
qed

lemma S_cleanupDrain: "stays (cleanupDrain e)"
  unfolding cleanupDrain_def leave_queue_of_def
  by (auto intro!: T_rules leaveQueue_stays E_still [OF table.A_drain_rooms] split: option.splits)

lemma flag_ok:
  "lobby_ok s \<Longrightarrow> lobby_ok (s\<lparr>mg_draining := b\<rparr>)" "lobby_ok s \<Longrightarrow> lobby_ok (s\<lparr>mg_maintenancePaused := b\<rparr>)"
  "lobby_ok s \<Longrightarrow> lobby_ok (s\<lparr>mg_dependencyUnavailable := b\<rparr>)"
  by (rule entries_ok [of s]; auto simp: lobby_okD account_of_def queue_ok_def simp del: map_of_eq_Some_iff
      dest: lobby_okD(5,6))+

lemma S_Drain: "stays Drain" and S_SetReady: "stays (SetReady b)" and S_SetDependencyReady: "stays (SetDependencyReady b)"
  by (simp_all add: Drain_def SetReady_def SetDependencyReady_def E_change flag_ok)

lemma S_BeginDrain: "stays (BeginDrain e authorize)"
  unfolding BeginDrain_def by (auto intro!: T_rules S_Drain S_cleanupDrain split: option.splits)

lemma S_tick_peer: "stays (tick_peer e account)"
  unfolding tick_peer_def by (auto intro!: T_rules S_disconnect split: option.splits)

lemma S_tick_queue: "stays (tick_queue e now account)"
  unfolding tick_queue_def
proof (rule E_state, goal_cases)
  case ok: (1 s)
  have "lobby_ok (t\<lparr>mg_queues := AList.update account (q\<lparr>qu_choice := True\<rparr>) (mg_queues t)\<rparr>)"
    if "same_table s t" "map_of (mg_queues s) account = Some q" for t q
    using that(2) ok by (intro requeue_ok) (simp_all add: same_table_entries [OF that(1)])
  then show ?case
    using ok by (auto intro!: E_done E_after [of _ _ _ "\<lambda>_. lobby_ok"] E_change E_still [OF table.A_emit] split: option.splits)
qed

subsection \<open>The tick\<close>

text \<open>What happens in one room leaves the entries of the others alone.\<close>

definition apart :: "nat \<Rightarrow> text_manager \<Rightarrow> text_manager \<Rightarrow> bool" where
  "apart r s t \<longleftrightarrow> (\<forall>x. rm_code (mg_room t x) = rm_code (mg_room s x))
     \<and> (\<forall>c. c \<noteq> rm_code (mg_room s r) \<longrightarrow> map_of (mg_rooms t) c = map_of (mg_rooms s) c)"

lemma same_table_apart: "same_table s t \<Longrightarrow> apart r s t"
  by (simp add: apart_def same_table_entries)

interpretation apart: table_effects "apart r" for r
proof unfold_locales
  fix s t u :: text_manager
  show "apart r s s" by (simp add: apart_def)
  show "apart r s t \<Longrightarrow> apart r t u \<Longrightarrow> apart r s u" by (auto simp: apart_def)
qed (auto intro!: same_table_apart table.ticked table.closed table.fenced table.pushed table.matched table.reserved
  table.acked table.role_chosen table.unready table.cancelled table.aborting)

lemma apart_prune: "along (apart r) (pruneFinishedRoom e r)"
proof -
  have "along (apart r) (prune_seat r seat)" for seat
    unfolding prune_seat_def Let_def
    by (intro apart.A_plain apart.A_change) (auto intro!: apart.A_plain apart.A_change simp: apart_def room_upd_room drop_seat_def)
  moreover have "along (apart r) (change (drop_empty_room r))"
    by (rule apart.A_change) (simp add: apart_def drop_empty_room_def map_of_delete)
  ultimately show ?thesis
    unfolding pruneFinishedRoom_def by (auto intro!: apart.A_plain)
qed

lemma apart_tick_room: "along (apart r) (tick_room e now r)"
proof -
  have "along (apart r) (broadcastMatch e r)"
    unfolding broadcastMatch_def by (intro apart.A_deferring apart_prune apart.A_match_frames)
  then show ?thesis
    unfolding tick_room_def Let_def
    by (auto intro!: apart.A_plain apart_prune apart.A_abort apart.A_run split: option.splits)
qed

lemma S_tick_room: "ends (room_live r) (tick_room e now r) (\<lambda>_. lobby_ok)"
  unfolding tick_room_def Let_def
proof (rule E_state, goal_cases)
  case (1 s)
  then have ok: "lobby_ok s" by (simp add: room_live_def)
  have prune: "ends (same_table s) (pruneFinishedRoom e r) (\<lambda>_. lobby_ok)"
    using S_prune live_still [OF 1] by (rule E_pre)
  have "ends (room_live r) (bind_act (run_match e r (\<lambda>m. Advance_match m now)) (\<lambda>res.
      if ar_Changed res then broadcastMatch e r else give ())) (\<lambda>_. lobby_ok)"
    by (intro E_bind [OF E_quiet_live [OF table.A_run]] E_if S_broadcastMatch E_give) (simp add: room_live_def)
  then have "ends (same_table s) (bind_act (run_match e r (\<lambda>m. Advance_match m now)) (\<lambda>res.
      if ar_Changed res then broadcastMatch e r else give ())) (\<lambda>_. lobby_ok)"
    by (rule E_pre) (rule live_still [OF 1])
  then show ?case
    using prune ok by (auto intro!: E_done E_quietly [OF _ table.A_abort] split: option.splits)
qed

definition all_live :: "nat list \<Rightarrow> text_manager \<Rightarrow> bool" where
  "all_live rs s \<longleftrightarrow> lobby_ok s \<and> distinct rs \<and> list_all (listed_room s) rs"

lemma S_tick_rooms: "ends (all_live rs) (each_join (tick_room e now) rs acc) (\<lambda>_. lobby_ok)"
proof (induction rs arbitrary: acc)
  case Nil
  show ?case by (simp add: E_give all_live_def)
next
  case (Cons r rs)
  have "all_live rs (snd (tick_room e now r s))" if "all_live (r # rs) s" for s
  proof -
    let ?t = "snd (tick_room e now r s)"
    have s: "lobby_ok s" "listed_room s r" "r \<notin> set rs" using that by (simp_all add: all_live_def)
    then have "lobby_ok ?t" using ends_ok [OF S_tick_room, of r s] by (simp add: room_live_def)
    moreover have "listed_room ?t x" if "x \<in> set rs" for x
    proof -
      have x: "listed_room s x" "x \<noteq> r" using \<open>all_live (r # rs) s\<close> that s(3) by (auto simp: all_live_def list_all_iff)
      then have "rm_code (mg_room s x) \<noteq> rm_code (mg_room s r)" using s(2) by (auto simp: listed_room_def)
      then show ?thesis using alongD [OF apart_tick_room, of r s e now] x(1) by (simp add: apart_def listed_room_def)
    qed
    ultimately show ?thesis using that by (simp add: all_live_def list_all_iff)
  qed
  then have "ends (all_live (r # rs)) (joining acc (tick_room e now r)) (\<lambda>_. all_live rs)"
    by (simp add: ends_def joining_def case_prod_beta)
  then show ?case using Cons by (simp add: E_bind)
qed

lemma visit_rooms: "ends lobby_ok (with_state (\<lambda>s. visiting e (map snd (mg_rooms s)))) all_live"
proof (rule endsI)
  fix s assume ok: "lobby_ok s"
  obtain rs t where v: "visiting e (map snd (mg_rooms s)) s = (Inr rs, t)" "mset rs = mset (map snd (mg_rooms s))" "same_table s t"
    using visiting_all by blast
  have entry: "map_of (mg_rooms s) c = Some r" if "(c, r) \<in> set (mg_rooms s)" for c r
    using that lobby_okD(3) [OF ok] by simp
  have "inj_on snd (set (mg_rooms s))"
  proof (rule inj_onI)
    fix x y assume "x \<in> set (mg_rooms s)" "y \<in> set (mg_rooms s)" "snd x = snd y"
    then show "x = y" using lobby_okD(7) [OF ok entry] by (metis prod.collapse)
  qed
  moreover have "distinct (mg_rooms s)" using lobby_okD(3) [OF ok] by (simp add: distinct_map)
  ultimately have "distinct (map snd (mg_rooms s))" by (simp add: distinct_map)
  then have d: "distinct rs" using mset_eq_imp_distinct_iff [OF v(2)] by simp
  have "set rs = snd ` set (mg_rooms s)" using v(2) by (metis set_mset_mset set_map)
  then have "listed_room s r" if "r \<in> set rs" for r using that entry rooms_live [OF ok] by force
  then have "all_live rs t"
    using d ok v(3) by (simp add: all_live_def list_all_iff same_table_live same_table_ok)
  then show "lobby_ok t'" if "with_state (\<lambda>s. visiting e (map snd (mg_rooms s))) s = (Inl err, t')" for err t'
    using that v(1) by (simp add: with_state_def)
  show "all_live x t'" if "with_state (\<lambda>s. visiting e (map snd (mg_rooms s))) s = (Inr x, t')" for x t'
    using that v(1) \<open>all_live rs t\<close> by (simp add: with_state_def)
qed

lemma S_tick: "stays (tick e)"
proof -
  have tail: "stays (bind_act (with_state (\<lambda>s. visiting e (map snd (mg_rooms s)))) (\<lambda>rooms.
      bind_act (each_join (tick_room e now) rooms acc) returning))" for now acc
    by (intro E_bind [OF visit_rooms] E_bind [OF S_tick_rooms] E_still table.A_returning)
  have queues: "stays (bind_act (with_state (\<lambda>s. visiting e (map fst (mg_queues s)))) (\<lambda>queued.
      bind_act (each_join (tick_queue e now) queued acc) f))" if "\<And>x. stays (f x)" for now acc f
    using that by (auto intro!: T_rules S_tick_queue)
  have peers: "stays (bind_act (with_state (\<lambda>s. visiting e (map fst (mg_peers s)))) (\<lambda>accounts.
      bind_act (each_join (tick_peer e) accounts acc) f))" if "\<And>x. stays (f x)" for acc f
    using that by (auto intro!: T_rules S_tick_peer)
  show ?thesis
    unfolding tick_def
    by (intro T_after T_state T_bind [OF E_still [OF table.A_ask]] T_bind [OF E_if] peers queues tail
      E_still [OF table.A_authority] E_joining S_cleanupDrain T_give)
qed

subsection \<open>Shutdown\<close>

lemma S_Close_lobby: "stays (Close_lobby e)"
proof -
  have "stays (change close_peers)" by (rule E_change) (rule close_peers_ok)
  then show ?thesis
    unfolding Close_lobby_def cancel_queue_def
    by (auto intro!: T_rules S_Drain E_still [OF table.A_close_room] split: option.splits)
qed

end
