(* ===== verification/Lobby_Effects.thy ===== *)
theory Lobby_Effects
  imports Lobby_Hosting
begin

section \<open>What every operation stays within\<close>

text \<open>
  \<open>lobby_effects\<close> adds the moves of the table to the effects of \<open>table_effects\<close>. A room may be rewritten freely
  as long as no match appears in it; so the locale covers every operation but \<open>Start\<close>, which \<open>all_effects\<close> adds.
\<close>

lemma rewritten_match:
  "rm_match (set_member seat v room) = rm_match room" "rm_match (drop_seat seat room) = rm_match room"
  "rm_match (reshuffled room) = rm_match room" "rm_match (elect t room) = rm_match room"
  "rm_match (rematch_room t room) = None" "rm_match (new_settings st room) = rm_match room"
proof -
  have e: "rm_match (elect t room) = rm_match room" for room by (simp add: elect_def split: list.splits)
  then show "rm_match (elect t room) = rm_match room" .
  show "rm_match (set_member seat v room) = rm_match room" "rm_match (drop_seat seat room) = rm_match room"
    "rm_match (reshuffled room) = rm_match room"
    by (simp_all add: set_member_def drop_seat_def reshuffled_def invalidate_def)
  show "rm_match (rematch_room t room) = None" by (simp add: rematch_room_def Let_def e)
  show "rm_match (new_settings st room) = rm_match room"
    by (simp add: new_settings_def compacted_def invalidate_def Let_def)
qed

locale lobby_effects = table_effects +
  assumes rewritten: "rm_match (f (mg_room s r)) \<in> {None, rm_match (mg_room s r)} \<Longrightarrow> R s (upd_room r f s)"
    and seated: "R s (s\<lparr>mg_members := x\<rparr>)"
    and queued: "R s (s\<lparr>mg_queues := x'\<rparr>)"
    and connected: "R s (s\<lparr>mg_peers := x''\<rparr>)"
    and listed: "R s (s\<lparr>mg_rooms := x''\<rparr>)"
    and numbered: "R s (s\<lparr>mg_order := n\<rparr>)"
    and built: "R s (install_room ident code st path s)"
    and joined: "R s (install_peer e account binding ident s)"
    and drained: "R s (s\<lparr>mg_draining := True\<rparr>)"
    and paused: "R s (s\<lparr>mg_maintenancePaused := b\<rparr>)"
    and depending: "R s (s\<lparr>mg_dependencyUnavailable := b\<rparr>)"
    and taken: "R s (take_frame p s)"
begin

lemma R_set_member: "R s (upd_room r (set_member seat v) s)" and R_drop: "R s (upd_room r (drop_seat seat) s)"
  and R_reshuffled: "R s (upd_room r reshuffled s)" and R_elect: "R s (upd_room r (elect t) s)"
  and R_rematch: "R s (upd_room r (rematch_room t) s)" and R_settings: "R s (upd_room r (new_settings st) s)"
  by (intro rewritten; simp add: rewritten_match)+

lemma R_edit: "R s (upd_room r (upd_member seat f) s)"
  by (auto intro!: rewritten simp: upd_member_def set_member_def split: option.splits)

lemma A_edit: "along R (edit_member r seat f)"
  unfolding edit_member_def by (intro A_change R_edit)

lemma R_sit_down: "R s (sit_down r v s)"
  unfolding sit_down_def by (rule trans [OF rewritten seated]) (simp add: set_member_def)

lemma R_sit_new: "R s (sit_new r p admission s)"
  unfolding sit_new_def Let_def by (rule trans [OF R_sit_down numbered])

lemma R_forget: "R s (forget_seat r seat a s)"
  unfolding forget_seat_def by (rule trans [OF seated R_drop])

lemma R_drop_empty: "R s (drop_empty_room r s)"
  by (simp add: drop_empty_room_def listed refl)

lemma A_assign: "along R (assign e r q)"
  unfolding assign_def Let_def by (intro A_plain A_change trans [OF trans [OF R_sit_down queued] R_reshuffled])

lemma A_newRoom: "along R (newRoom e st path)"
  unfolding newRoom_def by (intro A_plain A_change built)

lemma A_refill: "along R (refill e r qs)"
  by (induction qs) (auto simp: Let_def intro!: A_plain A_assign)

lemma A_form_group: "along R (form_group e first rest)"
  unfolding form_group_def Let_def by (auto intro!: A_plain A_newRoom A_assign)

lemma A_form_groups: "along R (form_groups e qs)"
  by (induction qs) (auto intro!: A_plain A_form_group)

lemma A_matchQueues: "along R (matchQueues e)"
  unfolding matchQueues_def refill_room_def Let_def
  by (auto intro!: A_plain A_refill A_form_groups split: option.splits)

lemma A_leaveQueue: "along R (leaveQueue e p)"
  unfolding leaveQueue_def by (auto intro!: A_plain A_change queued split: option.splits)

lemma A_enqueue: "along R (enqueue e p st)"
  unfolding enqueue_def Let_def
  by (auto intro!: A_plain A_change trans [OF numbered queued] A_matchQueues A_leaveQueue)

lemma A_QueueJoin: "along R (QueueJoin e p st)"
  unfolding QueueJoin_def Let_def by (auto intro!: A_plain A_leaveQueue A_enqueue split: option.splits)

lemma A_KeepWaiting: "along R (KeepWaiting e p)"
  unfolding KeepWaiting_def Let_def by (auto intro!: A_plain A_change queued split: option.splits)

lemma A_QueueLeave: "along R (QueueLeave e p)"
  unfolding QueueLeave_def by (intro A_plain A_leaveQueue)

lemma A_prune_seat: "along R (prune_seat r seat)"
  unfolding prune_seat_def Let_def by (auto intro!: A_plain A_change R_drop trans [OF seated R_drop])

lemma A_prune: "along R (pruneFinishedRoom e r)"
  unfolding pruneFinishedRoom_def by (auto intro!: A_plain A_prune_seat A_change R_drop_empty)

lemma A_broadcastMatch: "along R (broadcastMatch e r)"
  unfolding broadcastMatch_def by (intro A_plain A_match_frames A_prune)

lemma A_Create: "along R (Create e p st)"
  unfolding Create_def Let_def by (intro A_plain A_newRoom A_change R_sit_new)

lemma A_rejoin: "along R (rejoin e r p)"
  unfolding rejoin_def by (auto intro!: A_plain A_edit A_run A_reset A_broadcastMatch)

lemma A_join_new: "along R (join_new e r p)"
  unfolding join_new_def Let_def by (intro A_plain A_change trans [OF R_sit_new R_reshuffled])

lemma A_Join: "along R (Join e p code)"
  unfolding Join_def Let_def by (auto intro!: A_plain A_rejoin A_join_new split: option.splits)

lemma A_Settings: "along R (Settings e p n st)"
  unfolding Settings_def Let_def
  by (auto intro!: A_plain A_release A_change unready R_settings A_matchQueues split: option.splits)

lemma A_leave: "along R (leave e p)"
  unfolding leave_def leave_match_def leave_lobby_def elect_host_def Let_def
  by (auto intro!: A_plain A_leaveQueue A_abort A_run A_edit A_broadcastMatch A_release A_matchQueues A_change
      R_drop_empty R_elect trans [OF R_forget R_drop_empty] trans [OF R_forget R_reshuffled] split: option.splits)

lemma A_Leave: "along R (Leave e p)"
  unfolding Leave_def by (intro A_plain A_leave)

lemma A_disconnect: "along R (disconnect e p)"
  unfolding disconnect_def by (auto intro!: A_plain A_leave A_change R_close trans [OF R_close connected])

lemma A_EnforceAccount: "along R (EnforceAccount e active account)"
  unfolding EnforceAccount_def by (auto intro!: A_plain A_disconnect split: option.splits sum.splits)

lemma A_EnforceSanction: "along R (EnforceSanction e decided sanction)"
  unfolding EnforceSanction_def by (auto intro!: A_plain A_disconnect split: option.splits sum.splits)

lemma A_OpenAuthenticated: "along R (OpenAuthenticated e authenticate)"
  unfolding OpenAuthenticated_def
  by (auto intro!: A_plain A_disconnect A_change joined split: option.splits sum.splits)

lemma A_rematch_seat: "along R (rematch_seat r seat)"
  unfolding rematch_seat_def by (auto intro!: A_plain A_edit A_change R_forget)

lemma A_Rematch: "along R (Rematch e p)"
  unfolding Rematch_def Let_def
  by (auto intro!: A_plain A_rematch_seat A_change R_rematch A_matchQueues split: option.splits)

lemma A_prune_after: "along R (prune_after e r)"
  unfolding prune_after_def by (intro A_plain) (simp add: A_prune A_give)

lemma A_Drain: "along R Drain" and A_SetReady: "along R (SetReady b)" and A_SetDependencyReady: "along R (SetDependencyReady b)"
  unfolding Drain_def SetReady_def SetDependencyReady_def by (intro A_change drained paused depending)+

lemma A_cleanupDrain: "along R (cleanupDrain e)"
  unfolding cleanupDrain_def leave_queue_of_def
  by (auto intro!: A_plain A_leaveQueue A_drain_rooms split: option.splits)

lemma A_BeginDrain: "along R (BeginDrain e authorize)"
  unfolding BeginDrain_def by (auto intro!: A_plain A_Drain A_cleanupDrain split: option.splits)

lemma A_tick: "along R (tick e)"
  unfolding tick_def tick_peer_def tick_queue_def tick_room_def Let_def
  by (auto intro!: A_plain A_cleanupDrain A_disconnect A_change queued A_abort A_prune A_run A_broadcastMatch
      split: option.splits)

lemma A_Close: "along R (Close_lobby e)"
proof -
  have "R s (close_peers s)" for s
    unfolding close_peers_def by (rule trans [OF queued]) (rule R_fold, auto intro: R_close)
  then show ?thesis
    unfolding Close_lobby_def cancel_queue_def
    by (auto intro!: A_plain A_Drain A_close_room A_change split: option.splits)
qed

text \<open>Every step but the start of a match.\<close>

lemma R_step: "lobby_step e s t \<Longrightarrow> (\<exists>p. p < mg_fresh s \<and> t = snd (Start e p s)) \<or> R s t"
  by (induction rule: lobby_step.induct)
    (auto simp: Disconnect_def intro: alongD A_OpenAuthenticated A_Create A_Join A_Settings A_Ready A_Leave A_disconnect A_EnforceAccount
      A_EnforceSanction A_Rematch A_QueueJoin A_KeepWaiting A_QueueLeave A_Resync A_Action A_prune_after A_RejectAction
      A_DevRole A_DevSpecialty A_SetReady A_SetDependencyReady A_Drain A_BeginDrain A_NotifyNotices A_tick A_Close
      A_Send A_RoomAccount A_VisibleText A_RuntimeReady A_WithWalletAccess taken)

end

subsection \<open>With the start\<close>

locale all_effects = lobby_effects +
  assumes installed: "R s (upd_room r (install_match pm) s)"
begin

lemma A_start: "along R (start e r)"
  unfolding start_def
  by (intro A_plain A_failing A_release_all A_prepare A_cancel_prepared A_commit A_change installed A_broadcastMatch)

lemma A_Start: "along R (Start e p)"
  unfolding Start_def Let_def by (auto intro!: A_plain A_start split: option.splits)

lemma R_any: "lobby_step e s t \<Longrightarrow> R s t"
  using R_step alongD [OF A_Start] by blast

lemma R_runs: "lobby_run e s t \<Longrightarrow> R s t"
  by (induction rule: lobby_run.induct) (auto intro: refl trans R_any)

end

end
