(* ===== verification/Lobby_Steps.thy ===== *)
theory Lobby_Steps
  imports Lobby_Effects
begin

section \<open>The steps of the lobby\<close>

subsection \<open>The table\<close>

lemmas step_kept = S_Create [THEN ends_ok] S_Join [THEN ends_ok] S_QueueJoin [THEN ends_ok] S_OpenAuthenticated [THEN ends_ok]
  S_Settings [THEN ends_ok] S_Leave [THEN ends_ok] S_Disconnect [THEN ends_ok] S_EnforceAccount [THEN ends_ok]
  S_EnforceSanction [THEN ends_ok] S_Rematch [THEN ends_ok] S_Start [THEN ends_ok] S_KeepWaiting [THEN ends_ok]
  S_QueueLeave [THEN ends_ok] S_prune_after [THEN ends_ok] S_SetReady [THEN ends_ok] S_SetDependencyReady [THEN ends_ok]
  S_Drain [THEN ends_ok] S_BeginDrain [THEN ends_ok] S_tick [THEN ends_ok] S_Close_lobby [THEN ends_ok]
  ends_ok [OF E_still [OF table.A_Ready]] ends_ok [OF E_still [OF table.A_Resync]] ends_ok [OF E_still [OF table.A_Action]]
  ends_ok [OF E_still [OF table.A_RejectAction]] ends_ok [OF E_still [OF table.A_DevRole]]
  ends_ok [OF E_still [OF table.A_DevSpecialty]] ends_ok [OF E_still [OF table.A_NotifyNotices]]
  ends_ok [OF E_still [OF table.A_Send]] ends_ok [OF E_still [OF table.A_RoomAccount]]
  ends_ok [OF E_still [OF table.A_VisibleText]] ends_ok [OF E_still [OF table.A_RuntimeReady]]
  ends_ok [OF E_still [OF table.A_WithWalletAccess]]

lemma step_ok: "lobby_step e s t \<Longrightarrow> lobby_ok s \<Longrightarrow> lobby_ok t"
proof (induction rule: lobby_step.induct)
  case (frame_taken s p)
  have "same_table s (take_frame p s)"
    by (simp add: take_frame_def same_table_def account_of_def peer_upd_peer)
  with frame_taken show ?case by (simp add: same_table_ok)
qed (auto intro: step_kept simp: opened_def)

lemma manager_ok: "NewTextManager e owner = Inr s \<Longrightarrow> lobby_ok s"
  by (auto simp: NewTextManager_def Let_def lobby_ok_def listed_room_def split: if_splits)

lemma manager_fields:
  "NewTextManager e owner = Inr s \<Longrightarrow> \<not> mg_lost s" "NewTextManager e owner = Inr s \<Longrightarrow> pe_frames (mg_peer s p) = []"
  by (auto simp: NewTextManager_def Let_def split: if_splits)

lemma lobby_stays_ok: "lobby_run e s t \<Longrightarrow> lobby_ok s \<Longrightarrow> lobby_ok t"
  by (induction rule: lobby_run.induct) (auto intro: step_ok)

subsection \<open>Matches appear nowhere else\<close>

definition unstarted :: "nat \<Rightarrow> text_manager \<Rightarrow> text_manager \<Rightarrow> bool" where
  "unstarted r s t \<longleftrightarrow> (rm_match (mg_room s r) = None \<longrightarrow> rm_match (mg_room t r) = None)"

lemma unstarted_room: "rm_match (f (mg_room s x)) \<in> {None, rm_match (mg_room s x)} \<Longrightarrow> unstarted r s (upd_room x f s)"
  by (auto simp: unstarted_def room_upd_room)

interpretation unstarted: lobby_effects "unstarted r" for r
proof unfold_locales
  fix s t u :: text_manager and x m
  show "unstarted r s s" by (simp add: unstarted_def)
  show "unstarted r s t \<Longrightarrow> unstarted r t u \<Longrightarrow> unstarted r s u" by (simp add: unstarted_def)
  show "rm_match (mg_room s x) \<noteq> None \<Longrightarrow> unstarted r s (set_match x (Some m) s)"
    by (simp add: unstarted_def set_match_def room_upd_room)
qed (auto intro!: unstarted_room simp: upd_member_def set_member_def invalidate_def cancelled_room_def split: option.splits,
  auto simp: unstarted_def upd_peer_def install_room_def install_peer_def take_frame_def)

subsection \<open>A lost authority\<close>

definition fenced_off :: "text_manager \<Rightarrow> text_manager \<Rightarrow> bool" where
  "fenced_off s t \<longleftrightarrow> mg_fresh s \<le> mg_fresh t
     \<and> (\<forall>p < mg_fresh s. pe_closed (mg_peer s p) \<longrightarrow> pe_closed (mg_peer t p))
     \<and> (mg_draining s \<longrightarrow> mg_draining t) \<and> ((mg_lost s \<longrightarrow> mg_draining s) \<longrightarrow> mg_lost t \<longrightarrow> mg_draining t)
     \<and> (mg_lost s \<longrightarrow> mg_lost t \<and> (\<forall>p. \<exists>n. pe_frames (mg_peer t p) = drop n (pe_frames (mg_peer s p))))"

lemma drop_Suc_tl: "\<exists>n. tl xs = drop n xs"
  by (rule exI [of _ 1]) (simp add: drop_Suc)

lemma fenced_same: "mg_fresh t = mg_fresh s \<Longrightarrow> mg_peer t = mg_peer s \<Longrightarrow> mg_lost t = mg_lost s \<Longrightarrow>
  (mg_draining s \<longrightarrow> mg_draining t) \<Longrightarrow> fenced_off s t"
  by (auto simp: fenced_off_def intro: exI [of _ 0])

interpretation fenced_off: all_effects fenced_off
proof unfold_locales
  fix s t u :: text_manager and p x
  show "fenced_off s s" by (rule fenced_same) simp_all
  show "fenced_off s u" if st: "fenced_off s t" and tu: "fenced_off t u"
  proof -
    have "\<exists>n. pe_frames (mg_peer u p) = drop n (pe_frames (mg_peer s p))" if lost: "mg_lost s" for p
    proof -
      obtain a where "pe_frames (mg_peer t p) = drop a (pe_frames (mg_peer s p))"
        using st lost by (auto simp: fenced_off_def)
      moreover obtain b where "pe_frames (mg_peer u p) = drop b (pe_frames (mg_peer t p))"
        using st tu lost by (force simp: fenced_off_def)
      ultimately show ?thesis by auto
    qed
    then show ?thesis using st tu by (auto simp: fenced_off_def)
  qed
  show "fenced_off s (upd_peer p (\<lambda>v. v\<lparr>pe_closed := True\<rparr>) s)"
    "fenced_off s (s\<lparr>mg_lost := True, mg_draining := True\<rparr>)"
    "\<not> mg_lost s \<Longrightarrow> fenced_off s (upd_peer p (\<lambda>v. v\<lparr>pe_frames := pe_frames v @ [x]\<rparr>) s)"
    "fenced_off s (take_frame p s)"
    by (auto simp: fenced_off_def upd_peer_def take_frame_def intro: exI [of _ 0] drop_Suc_tl)
  show "fenced_off s (install_room ident code st path s)" "fenced_off s (install_peer e account binding ident s)"
    for ident code st path e account binding
    by (auto simp: fenced_off_def install_room_def install_peer_def intro: exI [of _ 0] exI [of _ "length xs" for xs])
qed (auto simp: set_match_def upd_room_def intro!: fenced_same)

subsection \<open>How a match starts\<close>

lemma start_elsewhere: "r' \<noteq> r \<Longrightarrow> along (unstarted r) (start e r')"
  unfolding start_def
  by (intro unstarted.A_plain unstarted.A_failing unstarted.A_release_all unstarted.A_prepare unstarted.A_cancel_prepared
      unstarted.A_commit unstarted.A_change unstarted.A_broadcastMatch) (simp add: unstarted_def room_upd_room)

text \<open>
  While a match is prepared and committed the table and the bindings of the connections stay, and
  the questions to the outside world are asked one after the other.
\<close>

definition preparing :: "text_manager \<Rightarrow> text_manager \<Rightarrow> bool" where
  "preparing s t \<longleftrightarrow> same_table s t \<and> mg_tick s \<le> mg_tick t
     \<and> (\<forall>p. pe_binding (mg_peer t p) = pe_binding (mg_peer s p))"

lemma tick_simps [simp]:
  "mg_tick (upd_room r f s) = mg_tick s" "mg_tick (upd_peer p g s) = mg_tick s" "mg_tick (set_match r m s) = mg_tick s"
  "mg_peer (set_match r m s) = mg_peer s"
  by (simp_all add: upd_room_def upd_peer_def set_match_def)

interpretation preparing: table_effects preparing
proof unfold_locales
  fix s t u :: text_manager
  show "preparing s s" by (simp add: preparing_def table.refl)
  show "preparing s t \<Longrightarrow> preparing t u \<Longrightarrow> preparing s u"
    using table.trans [of s t u] by (simp add: preparing_def)
qed (simp_all add: preparing_def peer_upd_peer table.ticked table.closed table.fenced table.pushed table.matched table.reserved
    table.acked table.role_chosen table.unready table.cancelled table.aborting)

lemma preparing_member:
  assumes "preparing s t" "map_of (rm_seats (mg_room t r)) seat = Some v"
  shows "\<exists>w. map_of (rm_seats (mg_room s r)) seat = Some w \<and> me_account w = me_account v \<and> me_peer w = me_peer v"
proof -
  have bare_fields: "me_account (bare_member x) = me_account x" "me_peer (bare_member x) = me_peer x" for x
    by (simp_all add: bare_member_def)
  have "layout (mg_room t r) = layout (mg_room s r)" using assms(1) by (simp add: preparing_def same_table_def)
  note seats = layout_fields(10) [OF this]
  have bare: "map_of (map (\<lambda>(i, v). (i, bare_member v)) xs) seat = map_option bare_member (map_of xs seat)" for xs
    by (simp add: map_of_map)
  have "map_option bare_member (map_of (rm_seats (mg_room s r)) seat) = Some (bare_member v)"
    using arg_cong [OF seats, of "\<lambda>xs. map_of xs seat"] assms(2) by (simp only: bare option.map)
  then obtain w where w: "map_of (rm_seats (mg_room s r)) seat = Some w" "bare_member w = bare_member v"
    by auto
  then have "me_account w = me_account v" "me_peer w = me_peer v"
    using w(2) by (metis bare_fields)+
  then show ?thesis using w(1) by blast
qed

lemma preparing_sym_seats: "preparing s t \<Longrightarrow> map fst (rm_seats (mg_room t r)) = map fst (rm_seats (mg_room s r))"
  using layout_lists(1) [of "mg_room t r" "mg_room s r"] by (simp add: preparing_def same_table_def seats_in_def)

subsection \<open>What a successful preparation yields\<close>

text \<open>\<open>yields s0 P f\<close>: whenever \<open>f\<close> runs at the table of \<open>s0\<close> and succeeds, its value has the property \<open>P\<close>.\<close>

definition yields :: "text_manager \<Rightarrow> ('a \<Rightarrow> bool) \<Rightarrow> 'a act \<Rightarrow> bool" where
  "yields s0 P f \<longleftrightarrow> (\<forall>s x t. preparing s0 s \<longrightarrow> f s = (Inr x, t) \<longrightarrow> P x)"

lemma Y_bind:
  assumes "along preparing f" "yields s0 Q f" "\<And>x. Q x \<Longrightarrow> yields s0 P (g x)"
  shows "yields s0 P (bind_act f g)"
  unfolding yields_def
proof (intro allI impI)
  fix s x t assume s: "preparing s0 s" and b: "bind_act f g s = (Inr x, t)"
  obtain y u where y: "f s = (Inr y, u)" "g y u = (Inr x, t)"
    using b by (auto simp: bind_act_def split: prod.splits sum.splits)
  have "preparing s0 u" using preparing.trans [OF s] alongD [OF assms(1), of s] y(1) by simp
  moreover have "Q y" using assms(2) s y(1) by (auto simp: yields_def)
  ultimately show "P x" using assms(3) y(2) by (auto simp: yields_def)
qed

lemma Y_any: "yields s0 (\<lambda>_. True) f"
  by (simp add: yields_def)

lemma Y_then: "along preparing f \<Longrightarrow> (\<And>x. yields s0 P (g x)) \<Longrightarrow> yields s0 P (bind_act f g)"
  by (rule Y_bind [OF _ Y_any])

lemma Y_after: "along preparing f \<Longrightarrow> yields s0 P g \<Longrightarrow> yields s0 P (after f g)"
  by (simp add: after_def Y_then)

lemma Y_state: "(\<And>s. preparing s0 s \<Longrightarrow> yields s0 P (f s)) \<Longrightarrow> yields s0 P (with_state f)"
  by (auto simp: yields_def with_state_def)

lemma Y_give: "P x \<Longrightarrow> yields s0 P (give x)" and Y_raise: "yields s0 P (raise err)"
  by (simp_all add: yields_def give_def raise_def)

lemma Y_reject: "yields s0 P f \<Longrightarrow> yields s0 P (reject_when b err f)"
  by (simp add: reject_when_def Y_raise)

lemma Y_engine: "(\<And>x. res = Inr x \<Longrightarrow> P x) \<Longrightarrow> yields s0 P (engine_result res)"
  by (auto simp: engine_result_def intro: Y_give Y_raise split: sum.splits)

definition seated_accounts :: "text_room \<Rightarrow> string list" where
  "seated_accounts room = map (\<lambda>seat. me_account (the (map_of (rm_seats room) seat))) (room_seats room)"

text \<open>The prepared match is one: record and engine have the same contract, made for this room and this match.\<close>

definition prepared_for :: "text_manager \<Rightarrow> nat \<Rightarrow> string \<Rightarrow> prepared_match \<Rightarrow> bool" where
  "prepared_for s r matchID pm \<longleftrightarrow> (let record = pm_record pm; k = mr_Contract record; room = mg_room s r in
     tm_contract (pm_engine pm) = k \<and> mc_MatchID k = matchID \<and> mc_RoomID k = rm_id room
     \<and> mc_OriginalSize k = ls_Size (rm_settings room) \<and> mc_ModeID k = ls_ModeID (rm_settings room)
     \<and> mr_Owner record = mg_owner s \<and> mr_Epoch record = 1
     \<and> pm_accounts pm = seated_accounts room \<and> length (mr_AdmissionIDs record) = length (room_seats room))"

lemma engine_contract: "NewTextMatch env opts = Inr m \<Longrightarrow> tm_contract m = op_Contract opts"
  by (auto simp: NewTextMatch_def start_match_def initial_match_def Let_def split: option.splits sum.splits)

lemma Y_admit:
  "yields s0 (\<lambda>xs. map fst xs = map (\<lambda>seat. me_account (the (map_of (rm_seats (mg_room s0 r)) seat))) seats) (admit_seats e r seats)"
proof (induction seats)
  case Nil
  then show ?case by (simp add: Y_give)
next
  case (Cons seat seats)
  let ?acc = "\<lambda>seat. me_account (the (map_of (rm_seats (mg_room s0 r)) seat))"
  have rest: "yields s0 (\<lambda>xs. map fst xs = map ?acc (seat # seats))
      (bind_act (admit_seats e r seats) (\<lambda>rest. give ((?acc seat, admission) # rest)))" for admission
    by (rule Y_bind [OF preparing.A_admit Cons.IH]) (simp add: Y_give)
  show ?case
    unfolding admit_seats.simps
  proof (rule Y_state)
    fix s assume s: "preparing s0 s"
    show "yields s0 (\<lambda>xs. map fst xs = map ?acc (seat # seats)) (case map_of (rm_seats (mg_room s r)) seat of
       None \<Rightarrow> raise (External ''nil member'')
     | Some v \<Rightarrow> bind_act
         (if me_admission v = []
          then bind_act (reservation e (me_account v) (rm_path (mg_room s r))) (\<lambda>(admission, err).
            after (edit_member r seat (\<lambda>v. v\<lparr>me_admission := admission\<rparr>)) (after (returning err) (give admission)))
          else give (me_admission v))
         (\<lambda>admission. bind_act (admit_seats e r seats) (\<lambda>rest. give ((me_account v, admission) # rest))))"
    proof (cases "map_of (rm_seats (mg_room s r)) seat")
      case None
      then show ?thesis by (simp add: Y_raise)
    next
      case (Some v)
      have "me_account v = ?acc seat" using preparing_member [OF s Some] by auto
      then show ?thesis
        unfolding Some option.case edit_member_def
        by (intro Y_then [where f = "if _ then _ else _"])
          (auto intro!: preparing.A_plain preparing.A_change preparing.reserved simp: rest simp del: list.map)
    qed
  qed
qed

lemma Y_build: "yields s0 (prepared_for s0 r matchID) (build_match e r matchID host d)"
  unfolding build_match_def Let_def
proof (rule Y_state, rule Y_then [OF preparing.A_engine], rule Y_then [OF preparing.A_ask], goal_cases)
  case (1 s1 hash ident)
  have room: "rm_settings (mg_room s r) = rm_settings (mg_room s0 r)" "rm_id (mg_room s r) = rm_id (mg_room s0 r)"
      "mg_owner s = mg_owner s0" if "preparing s0 s" for s
    using that layout_fields(2,9) by (metis preparing_def same_table_def)+
  have seats: "room_seats (mg_room s1 r) = room_seats (mg_room s0 r)" using room(1) [OF 1] by (simp add: room_seats_def)
  show ?case
    by (rule Y_bind [OF preparing.A_admit Y_admit], rule Y_then [OF preparing.A_ask], rule Y_state, rule Y_reject,
        rule Y_bind [OF preparing.A_engine Y_engine [where P = "\<lambda>m. tm_contract m = _"]], erule engine_contract, rule Y_give)
      (auto simp: prepared_for_def match_record_of_def contract_of_def seated_accounts_def seats room Let_def
        dest: arg_cong [where f = length])
qed

lemma Y_prepare: "yields s0 (prepared_for s0 r matchID) (prepare_match e r matchID)"
  unfolding prepare_match_def Let_def
  by (auto intro!: Y_state Y_after Y_then Y_raise Y_build preparing.A_plain split: option.splits)

subsection \<open>The store's consent\<close>

lemma failing_with_ok: "failing_with r e cleanup f s = (Inr x, t) \<Longrightarrow> f s = (Inr x, t)"
  by (auto simp: failing_with_def split: prod.splits sum.splits)

lemma call_ok: "call f s = (Inr u, t) \<Longrightarrow> f (mg_tick s) = None \<and> mg_tick t = Suc (mg_tick s)"
  by (auto simp: call_def bind_act_def ask_def give_def raise_def split: option.splits)

lemma after_ok: "after f g s = (Inr x, t) \<Longrightarrow> \<exists>u. f s = (Inr (), u) \<and> g u = (Inr x, t)"
  by (auto simp: after_def bind_act_def split: prod.splits sum.splits)

text \<open>The bindings of the connections that occupy the seats of a room.\<close>

definition seated_bindings :: "text_manager \<Rightarrow> nat \<Rightarrow> string set" where
  "seated_bindings s r = {b. \<exists>seat v q. map_of (rm_seats (mg_room s r)) seat = Some v \<and> me_peer v = Some q
     \<and> b = pe_binding (mg_peer s q)}"

lemma set_map_filtered: "set (List.map_filter f xs) = {y. \<exists>x\<in>set xs. f x = Some y}"
  by (induction xs) (auto split: option.splits)

lemma set_seat_bindings:
  assumes "preparing s w" "set seats = fst ` set (rm_seats (mg_room w r))"
  shows "set (seat_bindings w (mg_room w r) seats) = seated_bindings s r"
proof -
  have "seat \<in> set seats" if "map_of (rm_seats (mg_room w r)) seat = Some v" for seat v
    using map_of_SomeD [OF that] assms(2) by force
  then have "set (seat_bindings w (mg_room w r) seats) = seated_bindings w r"
    unfolding seat_bindings_def seated_bindings_def set_map_filtered by (auto split: option.splits) blast
  also have "\<dots> = seated_bindings s r"
  proof -
    have same: "pe_binding (mg_peer w q) = pe_binding (mg_peer s q)" for q using assms(1) by (simp add: preparing_def)
    have "map_of (rm_seats (mg_room s r)) seat = None" if "map_of (rm_seats (mg_room w r)) seat = None" for seat
      using that preparing_sym_seats [OF assms(1), of r] by (metis list.set_map map_of_eq_None_iff)
    then have there: "\<exists>v. map_of (rm_seats (mg_room w r)) seat = Some v"
      if "map_of (rm_seats (mg_room s r)) seat = Some u" for seat u using that by fastforce
    show ?thesis
      unfolding seated_bindings_def same [symmetric]
    proof (intro Collect_cong iffI; elim exE conjE)
      fix b seat v q
      assume v: "map_of (rm_seats (mg_room w r)) seat = Some v" "me_peer v = Some q" "b = pe_binding (mg_peer w q)"
      then show "\<exists>seat v q. map_of (rm_seats (mg_room s r)) seat = Some v \<and> me_peer v = Some q \<and> b = pe_binding (mg_peer w q)"
        using preparing_member [OF assms(1) v(1)] by metis
    next
      fix b seat u q
      assume u: "map_of (rm_seats (mg_room s r)) seat = Some u" "me_peer u = Some q" "b = pe_binding (mg_peer w q)"
      then obtain v where v: "map_of (rm_seats (mg_room w r)) seat = Some v" using there by blast
      then have "me_peer v = Some q" using preparing_member [OF assms(1) v] u by auto
      then show "\<exists>seat v q. map_of (rm_seats (mg_room w r)) seat = Some v \<and> me_peer v = Some q \<and> b = pe_binding (mg_peer w q)"
        using v u(3) by blast
    qed
  qed
  finally show ?thesis .
qed

lemma commit_ok:
  assumes "commit_match e r matchID now pm s = (Inr x, t)"
  shows "\<exists>k k' bindings. ev_Prepare e k (pm_record pm) now = None \<and> k < k'
    \<and> ev_Start e k' matchID (mg_owner s) 1 bindings now = None \<and> set bindings = seated_bindings s r"
proof -
  obtain u where u: "call (\<lambda>t. ev_Prepare e t (pm_record pm) now) s = (Inr (), u)"
    and rest: "after (access e (pm_host pm) (rm_settings (mg_room u r)) (rm_path (mg_room u r)))
       (durable_start e r matchID now) u = (Inr x, t)"
    using after_ok [OF assms [unfolded commit_match_def]] unfolding with_state_def by blast
  obtain v where v: "access e (pm_host pm) (rm_settings (mg_room u r)) (rm_path (mg_room u r)) u = (Inr (), v)"
    and "durable_start e r matchID now v = (Inr x, t)"
    using after_ok [OF rest] by blast
  then obtain seats w where w: "visit_seats e r v = (Inr seats, w)"
    and start: "call (\<lambda>t. ev_Start e t matchID (mg_owner w) 1 (seat_bindings w (mg_room w r) seats) now) w = (Inr x, t)"
    unfolding durable_start_def bind_act_def with_state_def by (auto split: prod.splits sum.splits)
  have su: "preparing s u" using alongD [OF preparing.A_call, of s] u by (metis snd_conv)
  have uv: "preparing u v" using alongD [OF preparing.A_access, of u] v by (metis snd_conv)
  have vw: "preparing v w" using alongD [OF preparing.A_visit_seats, of v] w by (metis snd_conv)
  have sw: "preparing s w" using preparing.trans [OF preparing.trans [OF su uv] vw] .
  have "mset seats = mset (map fst (rm_seats (mg_room v r)))"
    using w visiting_all [of e "map fst (rm_seats (mg_room v r))" v] by (auto simp: visit_seats_def with_state_def)
  then have "set seats = fst ` set (rm_seats (mg_room w r))"
    using preparing_sym_seats [OF vw, of r] by (metis list.set_map set_mset_mset)
  note bindings = set_seat_bindings [OF sw this]
  have "mg_tick s < mg_tick w" using call_ok [OF u] uv vw by (simp add: preparing_def)
  moreover have "mg_owner w = mg_owner s" using sw by (simp add: preparing_def same_table_def)
  ultimately show ?thesis using call_ok [OF u] call_ok [OF start] bindings by metis
qed

lemma installing_bind:
  assumes none: "rm_match (mg_room s r) = None" and some: "rm_match (mg_room (snd (bind_act f g s)) r) \<noteq> None"
    and quiet: "along (unstarted r) f" "along preparing f"
  shows "\<exists>x u. f s = (Inr x, u) \<and> preparing s u \<and> rm_match (mg_room u r) = None
    \<and> snd (bind_act f g s) = snd (g x u) \<and> rm_match (mg_room (snd (g x u)) r) \<noteq> None"
proof (cases "f s")
  case (Pair res u)
  have u: "rm_match (mg_room u r) = None" "preparing s u"
    using none alongD [OF quiet(1), of s] alongD [OF quiet(2), of s] Pair by (simp_all add: unstarted_def)
  show ?thesis
  proof (cases res)
    case (Inl err)
    then show ?thesis using some u Pair by (simp add: bind_act_def)
  next
    case (Inr x)
    then show ?thesis using some u Pair by (simp add: bind_act_def)
  qed
qed

text \<open>Broadcasting a match does not take it away and does not change its contract.\<close>

definition same_match :: "nat \<Rightarrow> text_manager \<Rightarrow> text_manager \<Rightarrow> bool" where
  "same_match r s t \<longleftrightarrow> map_option tm_contract (rm_match (mg_room t r)) = map_option tm_contract (rm_match (mg_room s r))
     \<and> rm_matchAccounts (mg_room t r) = rm_matchAccounts (mg_room s r)"

interpretation same_match: stream_effects "same_match r" for r
  by unfold_locales (auto simp: same_match_def upd_peer_def set_match_def room_upd_room)

lemma broadcast_same: "along (same_match r) (broadcastMatch e r)"
proof -
  have "along (same_match r) (prune_seat r seat)" for seat
    unfolding prune_seat_def Let_def
    by (auto intro!: same_match.A_plain same_match.A_change simp: same_match_def room_upd_room drop_seat_def)
  moreover have "along (same_match r) (change (drop_empty_room r))"
    by (rule same_match.A_change) (simp add: same_match_def drop_empty_room_def)
  ultimately have "along (same_match r) (pruneFinishedRoom e r)"
    unfolding pruneFinishedRoom_def by (auto intro!: same_match.A_plain)
  then show ?thesis unfolding broadcastMatch_def by (intro same_match.A_deferring same_match.A_match_frames)
qed

text \<open>
  So a match that \<open>start\<close> leaves in the room is the one whose record the store accepted, and after
  the record the store accepted its start, with the bindings of the connections at the table.
\<close>

lemma start_installs:
  assumes none: "rm_match (mg_room s r) = None" and some: "rm_match (mg_room (snd (start e r s)) r) \<noteq> None"
  shows "\<exists>m record now k k' bindings. rm_match (mg_room (snd (start e r s)) r) = Some m
    \<and> rm_matchAccounts (mg_room (snd (start e r s)) r)
        = map (\<lambda>seat. me_account (the (map_of (rm_seats (mg_room s r)) seat))) (room_seats (mg_room s r))
    \<and> mc_RoomID (tm_contract m) = rm_id (mg_room s r) \<and> mc_OriginalSize (tm_contract m) = ls_Size (rm_settings (mg_room s r))
    \<and> mc_ModeID (tm_contract m) = ls_ModeID (rm_settings (mg_room s r))
    \<and> mr_Contract record = tm_contract m \<and> mr_Owner record = mg_owner s \<and> mr_Epoch record = 1
    \<and> length (mr_AdmissionIDs record) = length (room_seats (mg_room s r))
    \<and> ev_Prepare e k record now = None
    \<and> k < k' \<and> ev_Start e k' (mc_MatchID (tm_contract m)) (mg_owner s) 1 bindings now = None
    \<and> set bindings = seated_bindings s r"
proof -
  let ?last = "\<lambda>pm. after (change (upd_room r (install_match pm))) (ignoring (broadcastMatch e r))"
  let ?prep = "\<lambda>matchID. failing_with r e (release_all e r) (prepare_match e r matchID)"
  let ?com = "\<lambda>matchID now pm. failing_with r e (cancel_prepared e r matchID) (commit_match e r matchID now pm)"
  let ?t = "snd (start e r s)"
  obtain matchID s1 where 1: "preparing s s1" "rm_match (mg_room s1 r) = None"
    "?t = snd (bind_act (ask (ev_Now e)) (\<lambda>now. bind_act (?prep matchID) (\<lambda>pm. after (?com matchID now pm) (?last pm))) s1)"
    using installing_bind [OF none some [unfolded start_def] unstarted.A_ask preparing.A_ask] unfolding start_def by blast
  obtain now s2 where 2: "preparing s1 s2" "rm_match (mg_room s2 r) = None"
    "?t = snd (bind_act (?prep matchID) (\<lambda>pm. after (?com matchID now pm) (?last pm)) s2)"
    using installing_bind [OF 1(2) some [unfolded 1(3)] unstarted.A_ask preparing.A_ask] unfolding 1(3) by blast
  obtain pm s3 where 3: "?prep matchID s2 = (Inr pm, s3)" "preparing s2 s3" "rm_match (mg_room s3 r) = None"
    "?t = snd (after (?com matchID now pm) (?last pm) s3)"
    using installing_bind [OF 2(2) some [unfolded 2(3)] unstarted.A_failing [OF unstarted.A_release_all unstarted.A_prepare]
      preparing.A_failing [OF preparing.A_release_all preparing.A_prepare]] unfolding 2(3) by blast
  obtain s4 where 4: "?com matchID now pm s3 = (Inr (), s4)" "?t = snd (?last pm s4)"
    using installing_bind [OF 3(3) some [unfolded 3(4) after_def [of "?com matchID now pm"]]
      unstarted.A_failing [OF unstarted.A_cancel_prepared unstarted.A_commit]
      preparing.A_failing [OF preparing.A_cancel_prepared preparing.A_commit]]
    unfolding 3(4) after_def [of "?com matchID now pm"] by auto
  have s2: "preparing s s2" and s3: "preparing s s3"
    using preparing.trans [OF 1(1) 2(1)] preparing.trans [OF preparing.trans [OF 1(1) 2(1)] 3(2)] by simp_all
  have pm: "prepared_for s r matchID pm"
    using Y_prepare [of s r matchID e] s2 failing_with_ok [OF 3(1)] by (auto simp: yields_def)
  obtain k k' bindings where store: "ev_Prepare e k (pm_record pm) now = None" "k < k'"
      "ev_Start e k' matchID (mg_owner s) 1 bindings now = None" "set bindings = seated_bindings s3 r"
    using commit_ok [OF failing_with_ok [OF 4(1)]] s3 by (auto simp: preparing_def same_table_def)
  have bound: "seated_bindings s3 r = seated_bindings s r"
  proof -
    have "set (map fst (rm_seats (mg_room s3 r))) = fst ` set (rm_seats (mg_room s3 r))" by simp
    from set_seat_bindings [OF s3 this] set_seat_bindings [OF preparing.refl this] show ?thesis by simp
  qed
  have "same_match r (upd_room r (install_match pm) s4) ?t"
    unfolding 4(2) by (simp add: after_def bind_act_def change_def)
      (rule alongD [OF same_match.A_ignoring [OF broadcast_same]])
  then obtain m where "rm_match (mg_room ?t r) = Some m" "tm_contract m = tm_contract (pm_engine pm)"
      "rm_matchAccounts (mg_room ?t r) = pm_accounts pm"
    by (auto simp: same_match_def room_upd_room install_match_def)
  then show ?thesis
    using store pm unfolding bound
    by (intro exI [of _ m] exI [of _ "pm_record pm"] exI [of _ now] exI [of _ k] exI [of _ k'] exI [of _ bindings])
      (simp add: prepared_for_def seated_accounts_def Let_def)
qed

lemma Start_installs:
  assumes none: "rm_match (mg_room s r) = None" and some: "rm_match (mg_room (snd (Start e p s)) r) \<noteq> None"
  shows "is_current s p \<and> map_of (mg_members s) (account_of s p) = Some r \<and> \<not> admissionPaused s
    \<and> rm_pendingAbort (mg_room s r) = [] \<and> \<not> rm_pendingOperator (mg_room s r)
    \<and> (\<exists>v. member_seat (mg_room s r) (account_of s p) = Some (rm_host (mg_room s r), v))
    \<and> int (length (rm_seats (mg_room s r))) = ls_Size (rm_settings (mg_room s r))
    \<and> list_all (seat_ready s (mg_room s r)) (room_seats (mg_room s r))
    \<and> rm_match (mg_room (snd (start e r s)) r) \<noteq> None \<and> snd (Start e p s) = snd (start e r s)"
proof (cases "map_of (mg_members s) (account_of s p)")
  case None
  then show ?thesis using none some by (simp add: Start_def with_state_def raise_def)
next
  case (Some x)
  show ?thesis
  proof (cases "x = r")
    case True
    show ?thesis
    proof (cases "member_seat (mg_room s r) (account_of s p)")
      case None
      then show ?thesis
        using none some Some True
        by (auto simp: Start_def with_state_def raise_def reject_when_def with_seat_def Let_def split: if_splits)
    next
      case seat: (Some y)
      obtain i v where y: "y = (i, v)" by (cases y)
      show ?thesis
        using none some Some True seat y
        by (auto simp: Start_def with_state_def raise_def reject_when_def with_seat_def Let_def list_all_iff list_ex_iff
            split: if_splits)
    qed
  next
    case False
    have "along (unstarted r) (with_seat x (account_of s p) (\<lambda>seat _.
        reject_when (seat \<noteq> rm_host (mg_room s x)) ErrTextHost
         (reject_when (int (length (rm_seats (mg_room s x))) \<noteq> ls_Size (rm_settings (mg_room s x))) ErrTextReady
           (reject_when (list_ex (\<lambda>i. \<not> seat_ready s (mg_room s x) i) (room_seats (mg_room s x))) ErrTextReady
             (start e x)))))"
      by (intro unstarted.A_plain start_elsewhere False)
    from alongD [OF this, of s] show ?thesis
      using none some Some
      by (auto simp: Start_def with_state_def raise_def reject_when_def Let_def unstarted_def split: if_splits)
  qed
qed

subsection \<open>Seats, one by one\<close>

lemma one_seat:
  assumes "room_ok s room"
  shows "(\<exists>!seat. \<exists>v. map_of (rm_seats room) seat = Some v \<and> me_account v = a) \<longleftrightarrow> a \<in> set (accounts_in room)"
proof
  assume "a \<in> set (accounts_in room)"
  then obtain seat v where v: "(seat, v) \<in> set (rm_seats room)" "me_account v = a" by (auto simp: accounts_in_def)
  have inj: "inj_on (\<lambda>x. me_account (snd x)) (set (rm_seats room))"
    using assms by (simp add: room_ok_def accounts_in_def distinct_map)
  show "\<exists>!seat. \<exists>v. map_of (rm_seats room) seat = Some v \<and> me_account v = a"
  proof (rule ex1I [of _ seat])
    show "\<exists>v. map_of (rm_seats room) seat = Some v \<and> me_account v = a" using v seat_map_of [OF assms] by blast
    fix i assume "\<exists>v. map_of (rm_seats room) i = Some v \<and> me_account v = a"
    then obtain w where w: "(i, w) \<in> set (rm_seats room)" "me_account w = a" by (auto dest: map_of_SomeD)
    then show "i = seat" using inj_onD [OF inj, of "(i, w)" "(seat, v)"] v by simp
  qed
next
  assume "\<exists>!seat. \<exists>v. map_of (rm_seats room) seat = Some v \<and> me_account v = a"
  then obtain i v where "map_of (rm_seats room) i = Some v" "me_account v = a" by blast
  then show "a \<in> set (accounts_in room)" using account_of_seat [OF map_of_SomeD] by metis
qed

lemma ready_parts:
  "seat_ready s room seat \<Longrightarrow> \<exists>m q a. map_of (rm_seats room) seat = Some m \<and> me_peer m = Some q \<and> is_current s q \<and> me_ready m = Some a
      \<and> ra_SettingsRevision a = rm_settingsRevision room \<and> ra_MembershipRevision a = rm_membershipRevision room"
  by (auto simp: seat_ready_def current_member_def acknowledged_def split: option.splits)

end
