(* ===== verification/Lobby_Matching.thy ===== *)
theory Lobby_Matching
  imports Lobby_Order
begin

section \<open>Whom the queue serves\<close>

text \<open>
  \<open>served s t\<close>: between \<open>s\<close> and \<open>t\<close> every entry of the queue is still there or its account sits in a
  room with the settings it asked for; nobody has lost a seat, nobody has been seated who was not in the queue, and
  nobody has joined it.
\<close>

definition served :: "text_manager \<Rightarrow> text_manager \<Rightarrow> bool" where
  "served s t \<longleftrightarrow>
     (\<forall>a q. map_of (mg_queues s) a = Some q \<longrightarrow> map_of (mg_queues t) a = Some q
        \<or> map_of (mg_queues t) a = None \<and> (\<exists>r. map_of (mg_members t) a = Some r \<and> rm_settings (mg_room t r) = qu_settings q))
   \<and> (\<forall>a. map_of (mg_queues s) a = None \<longrightarrow> map_of (mg_queues t) a = None)
   \<and> (\<forall>a r. map_of (mg_members s) a = Some r \<longrightarrow> map_of (mg_members t) a = Some r
        \<and> rm_settings (mg_room t r) = rm_settings (mg_room s r))
   \<and> (\<forall>a r. map_of (mg_members t) a = Some r \<longrightarrow> map_of (mg_members s) a = Some r \<or> map_of (mg_queues s) a \<noteq> None)"

lemma servedD:
  assumes "served s t"
  shows "map_of (mg_queues s) a = None \<Longrightarrow> map_of (mg_queues t) a = None"
    "map_of (mg_members s) a = Some r \<Longrightarrow> map_of (mg_members t) a = Some r \<and> rm_settings (mg_room t r) = rm_settings (mg_room s r)"
    "map_of (mg_members t) a = Some r \<Longrightarrow> map_of (mg_members s) a \<noteq> Some r \<Longrightarrow> map_of (mg_queues s) a \<noteq> None"
  using assms unfolding served_def by blast+

lemma served_same:
  assumes "mg_queues t = mg_queues s" "mg_members t = mg_members s"
    "\<And>a r. map_of (mg_members s) a = Some r \<Longrightarrow> rm_settings (mg_room t r) = rm_settings (mg_room s r)"
  shows "served s t"
  unfolding served_def assms(1,2) using assms(3) by blast

lemma served_still: "same_table s t \<Longrightarrow> served s t"
  by (rule served_same) (simp_all add: same_table_entries)

lemma served_trans:
  assumes st: "served s t" and tu: "served t u" shows "served s u"
  unfolding served_def
proof (intro conjI allI impI)
  show "map_of (mg_queues u) a = Some q
      \<or> map_of (mg_queues u) a = None \<and> (\<exists>r. map_of (mg_members u) a = Some r \<and> rm_settings (mg_room u r) = qu_settings q)"
    if q: "map_of (mg_queues s) a = Some q" for a q
  proof -
    consider "map_of (mg_queues t) a = Some q"
      | r where "map_of (mg_queues t) a = None" "map_of (mg_members t) a = Some r" "rm_settings (mg_room t r) = qu_settings q"
      using st q unfolding served_def by blast
    then show ?thesis
    proof cases
      case 1
      then show ?thesis using tu unfolding served_def by blast
    next
      case 2
      then show ?thesis using tu unfolding served_def by metis
    qed
  qed
  show "map_of (mg_queues u) a = None" if "map_of (mg_queues s) a = None" for a
    using servedD(1) [OF tu servedD(1) [OF st that]] .
  show "map_of (mg_members u) a = Some r" "rm_settings (mg_room u r) = rm_settings (mg_room s r)"
    if "map_of (mg_members s) a = Some r" for a r
    using servedD(2) [OF st that] servedD(2) [OF tu servedD(2) [OF st that, THEN conjunct1]] by simp_all
  show "map_of (mg_members s) a = Some r \<or> map_of (mg_queues s) a \<noteq> None" if r: "map_of (mg_members u) a = Some r" for a r
  proof (cases "map_of (mg_members t) a = Some r")
    case True
    then show ?thesis using servedD(3) [OF st, of a r] by auto
  next
    case False
    then show ?thesis using servedD(3) [OF tu r False] servedD(1) [OF st, of a] by auto
  qed
qed

subsection \<open>Seating\<close>

text \<open>\<open>hopeful s\<close>: what lies between \<open>s\<close> and now, and who waits with which settings in front of which room.\<close>

definition good :: "text_manager \<Rightarrow> text_manager \<Rightarrow> bool" where
  "good s t \<longleftrightarrow> lobby_ok t \<and> served s t"

definition hopeful :: "text_manager \<Rightarrow> lobby_settings \<Rightarrow> nat \<Rightarrow> nat \<Rightarrow> text_queue list \<Rightarrow> text_manager \<Rightarrow> bool" where
  "hopeful s st r n qs t \<longleftrightarrow> waiting r n qs t \<and> served s t \<and> rm_settings (mg_room t r) = st
     \<and> (\<forall>q \<in> set qs. map_of (mg_queues t) (in_queue_of t q) = Some q)"

lemma good_still: "good s t \<Longrightarrow> same_table t u \<Longrightarrow> good s u"
  unfolding good_def using served_trans served_still same_table_ok by blast

lemma hopeful_good: "hopeful s st r n qs t \<Longrightarrow> good s t"
  by (simp add: hopeful_def good_def waiting_def lined_def)

lemma hopeful_still: "hopeful s st r n qs t \<Longrightarrow> same_table t u \<Longrightarrow> hopeful s st r n qs u"
  unfolding hopeful_def using waiting_still [of r n qs t u] served_trans [of s t u] served_still [of t u]
  by (simp add: same_table_entries)

lemma hopeful_tail: "hopeful s st r n (q # qs) t \<Longrightarrow> hopeful s st r n qs t"
  using waiting_tail by (auto simp: hopeful_def)

definition seat_queued :: "nat \<Rightarrow> text_queue \<Rightarrow> string \<Rightarrow> text_manager \<Rightarrow> text_manager" where
  "seat_queued r q a s = upd_room r reshuffled ((sit_down r (new_member a (qu_id q) (qu_peer q) (qu_order q)) s)
     \<lparr>mg_queues := AList.delete a (mg_queues s)\<rparr>)"

lemma seat_queued_fields:
  "mg_queues (seat_queued r q a s) = AList.delete a (mg_queues s)"
  "mg_members (seat_queued r q a s) = AList.update a r (mg_members s)"
  "rm_settings (mg_room (seat_queued r q a s) x) = rm_settings (mg_room s x)"
  "account_of (seat_queued r q a s) p = account_of s p"
  by (simp_all add: seat_queued_def sit_down_def room_upd_room set_member_def new_member_fields account_of_def)

lemma assign_state: "\<exists>t. assign e r q s = (Inr (), t) \<and> same_table (seat_queued r q (in_queue_of s q) s) t"
proof -
  let ?s = "seat_queued r q (in_queue_of s q) s"
  have "assign e r q s = ignoring (emit e (qu_peer q) [] (FrameQueue (queueView q ''assigned''))) ?s"
    by (simp add: assign_def Let_def with_state_def after_def bind_act_def change_def seat_queued_def)
  then show ?thesis using alongD [OF table.A_emit, of ?s e "qu_peer q"] by (simp add: ignoring_def)
qed

lemma served_seat:
  assumes "map_of (mg_queues t) a = Some q" "map_of (mg_members t) a = None" "rm_settings (mg_room t r) = qu_settings q"
  shows "served t (seat_queued r q a t)"
  unfolding served_def seat_queued_fields
  using assms by (auto simp: map_of_delete map_of_update)

lemma H_assign: "ending (good s) (hopeful s (qu_settings q) r (Suc n) (q # qs)) (assign e r q) (\<lambda>_. hopeful s (qu_settings q) r n qs)"
proof (rule endsI)
  fix t x u assume t: "hopeful s (qu_settings q) r (Suc n) (q # qs) t" and f: "assign e r q t = (Inr x, u)"
  let ?u = "seat_queued r q (in_queue_of t q) t"
  have w: "waiting r (Suc n) (q # qs) t" using t by (simp add: hopeful_def)
  have u: "same_table ?u u" using assign_state [of e r q t] f by auto
  note U = same_table_entries [OF u]
  have "waiting r n qs u" using endsD(2) [OF S_assign w f] .
  moreover have "served t ?u"
    using t w by (intro served_seat) (simp_all add: hopeful_def waiting_def)
  then have "served s u" using t served_trans [of s t u] served_trans [OF _ served_still [OF u]] by (auto simp: hopeful_def)
  moreover have "map_of (mg_queues u) (in_queue_of u x) = Some x" if "x \<in> set qs" for x
  proof -
    have "in_queue_of t q \<notin> in_queue_of t ` set qs" using w by (simp add: waiting_def lined_def)
    then have "in_queue_of t x \<noteq> in_queue_of t q" using that by (metis (mono_tags, lifting) imageI)
    then show ?thesis using t that by (simp add: U seat_queued_fields map_of_delete hopeful_def)
  qed
  ultimately show "hopeful s (qu_settings q) r n qs u"
    using t by (simp add: hopeful_def U seat_queued_fields)
next
  fix t err u assume "assign e r q t = (Inl err, u)"
  then show "good s u" using assign_state [of e r q t] by auto
qed

lemma H_party:
  "list_all (\<lambda>q. qu_settings q = st) party \<Longrightarrow>
   ending (good s) (hopeful s st r (length party) party) (each_act (assign e r) party) (\<lambda>_. good s)"
proof (induction party)
  case Nil
  show ?case by (simp add: E_give hopeful_good)
next
  case (Cons q qs)
  then have "ending (good s) (hopeful s st r (Suc (length qs)) (q # qs)) (assign e r q) (\<lambda>_. hopeful s st r (length qs) qs)"
    using H_assign [of s q r "length qs" qs e] by simp
  with Cons show ?case by (simp add: E_after)
qed

lemma H_quiet: "along same_table f \<Longrightarrow> ending (good s) (good s) f (\<lambda>_. good s)"
  by (rule E_silent) (auto intro: good_still)

lemma H_refill: "ending (good s) (hopeful s st r 0 qs) (refill e r qs) (\<lambda>_. good s)"
proof (induction qs)
  case Nil
  show ?case by (simp add: E_give hopeful_good)
next
  case (Cons q qs)
  show ?case
    unfolding refill.simps Let_def
  proof (rule E_state, goal_cases)
    case (1 t)
    have E: "same_table t u \<Longrightarrow> good s u" for u using hopeful_good [OF 1] good_still by blast
    have skip: "ending (good s) (same_table t) (refill e r qs) (\<lambda>_. good s)"
      using Cons by (rule E_pre) (rule hopeful_still [OF hopeful_tail [OF 1]])
    have seat: "ending (good s) (same_table t) (after (assign e r q) (refill e r qs)) (\<lambda>_. good s)"
      if full: "int (length (rm_seats (mg_room t r))) \<noteq> ls_Size (rm_settings (mg_room t r))"
        and st: "qu_settings q = rm_settings (mg_room t r)"
    proof -
      have h: "hopeful s (qu_settings q) r (Suc 0) (q # qs) t" "qu_settings q = st"
        using 1 full unfolding st hopeful_def waiting_def by auto
      have "ending (good s) (same_table t) (assign e r q) (\<lambda>_. hopeful s (qu_settings q) r 0 qs)"
        using H_assign hopeful_still [OF h(1)] by (rule E_pre)
      then show ?thesis using Cons h(2) by (auto intro: E_after)
    qed
    show ?case
      using skip seat E
      by (auto intro!: E_give E_silent_then [OF table.A_succeeds [OF table.A_canMatch]])
  qed
qed

lemma H_refill_room: "ending (good s) (good s) (refill_room e code) (\<lambda>_. good s)"
  unfolding refill_room_def Let_def
proof (rule E_state, goal_cases)
  case (1 t)
  have ok: "lobby_ok t" using 1 by (simp add: good_def)
  have "ending (good s) (same_table t) (refill e r (sortedQueue t)) (\<lambda>_. good s)" if r: "map_of (mg_rooms t) code = Some r" for r
  proof -
    have "hopeful s (rm_settings (mg_room t r)) r 0 (sortedQueue t) t"
      using rooms_live [OF ok r] sorted_lined [OF ok] room_fits [of t "mg_room t r"] lobby_okD(7) [OF ok r] 1
      by (simp add: hopeful_def waiting_def good_def)
    from hopeful_still [OF this] show ?thesis by (rule E_pre [OF H_refill])
  qed
  then show ?case
    using good_still [OF 1] by (auto intro!: E_give E_after H_quiet table.A_broadcast split: option.splits)
qed

subsection \<open>New groups\<close>

definition known :: "text_queue list \<Rightarrow> text_manager \<Rightarrow> bool" where
  "known qs s \<longleftrightarrow> lined qs s \<and> (\<forall>q \<in> set qs. map_of (mg_queues s) (in_queue_of s q) \<in> {None, Some q})"

lemma H_group: "known (first # rest) s \<Longrightarrow> ending (good s) (same_table s) (form_group e first rest) (\<lambda>_. good s)"
proof (rule group_rule)
  assume k: "known (first # rest) s"
  then show "lined (first # rest) s" by (simp add: known_def)
  have ok: "lobby_ok s" using k by (simp add: known_def lined_def)
  show "good s t" if "same_table s t" for t
    using ok that served_still [OF that] by (simp add: good_def same_table_ok [OF that])
  fix r party
  assume up: "called_up s (qu_settings first) party" and sub: "set party \<subseteq> set (first # rest)"
    and full: "int (length party) = ls_Size (qu_settings first)"
  have "hopeful s (qu_settings first) r (length party) party t" if new: "fresh_room s (qu_settings first) r t" for t
  proof -
    have entry: "map_of (mg_queues s) (in_queue_of s q) = Some q" if "q \<in> set party" for q
    proof -
      have "map_of (mg_queues s) (in_queue_of s q) \<noteq> None"
        using up that by (auto simp: called_up_def list_all_iff still_queued_def split: option.splits)
      moreover have "map_of (mg_queues s) (in_queue_of s q) \<in> {None, Some q}" using k sub that unfolding known_def by blast
      ultimately show ?thesis by auto
    qed
    have "served s t"
    proof (rule served_same)
      show "rm_settings (mg_room t x) = rm_settings (mg_room s x)" if "map_of (mg_members s) a = Some x" for a x
        using new live_ok [OF ok, of x] member_iff [OF ok, of a x] that by (simp add: fresh_room_def)
    qed (use new in \<open>simp_all add: fresh_room_def\<close>)
    then show ?thesis
      using called_waiting [OF up full new] new entry by (simp add: hopeful_def fresh_room_def)
  qed
  then have "ending (good s) (fresh_room s (qu_settings first) r) (each_act (assign e r) party) (\<lambda>_. good s)"
    using E_pre [OF H_party] up by (auto simp: called_up_def)
  then show "ending (good s) (fresh_room s (qu_settings first) r) (after (each_act (assign e r) party) (broadcastLobby e r)) (\<lambda>_. good s)"
    by (rule E_after [OF _ H_quiet [OF table.A_broadcast]])
qed

lemma H_groups: "ending (good s) (\<lambda>t. good s t \<and> known qs t) (form_groups e qs) (\<lambda>_. good s)"
proof (induction qs)
  case Nil
  show ?case by (auto intro: E_give)
next
  case (Cons q qs)
  have "ending (good s) (\<lambda>t. good s t \<and> known (q # qs) t) (form_group e q qs) (\<lambda>_ t. good s t \<and> known qs t)"
  proof (rule endsI)
    fix t err u assume t: "good s t \<and> known (q # qs) t" and f: "form_group e q qs t = (Inl err, u)"
    then have "good t u" using endsD(1) [OF H_group table.refl] by blast
    then show "good s u" using t served_trans by (auto simp: good_def)
  next
    fix t x u assume t: "good s t \<and> known (q # qs) t" and f: "form_group e q qs t = (Inr x, u)"
    then have g: "good t u" using endsD(2) [OF H_group table.refl] by blast
    have "grown t u" using alongD [OF G_form_group, of t e q qs] f by simp
    moreover have l: "lined qs t" using t by (simp add: known_def lined_def)
    ultimately have lu: "lined qs u" using g lined_grown by (auto simp: good_def)
    have "map_of (mg_queues u) (in_queue_of u x) \<in> {None, Some x}" if "x \<in> set qs" for x
    proof -
      have "in_queue_of u x = in_queue_of t x" using \<open>grown t u\<close> l that by (simp add: grown_def lined_def)
      moreover have "map_of (mg_queues t) (in_queue_of t x) \<in> {None, Some x}" using t that by (simp add: known_def)
      ultimately show ?thesis using g unfolding good_def served_def by (metis insert_iff singletonD)
    qed
    then have "known qs u" using lu by (simp add: known_def)
    then show "good s u \<and> known qs u" using t g served_trans by (auto simp: good_def)
  qed
  then show ?case using Cons by (auto intro: E_after)
qed

text \<open>Matchmaking serves.\<close>

lemma H_matchQueues: "lobby_ok s \<Longrightarrow> good s (snd (matchQueues e s))"
proof -
  assume ok: "lobby_ok s"
  have groups: "ending (good s) (good s) (with_state (\<lambda>t. form_groups e (sortedQueue t))) (\<lambda>_. good s)"
  proof (rule E_state)
    fix t assume t: "good s t"
    then have tok: "lobby_ok t" by (simp add: good_def)
    have "good s u \<and> known (sortedQueue t) u" if "same_table t u" for u
      using good_still [OF t that] lined_still [OF sorted_lined(1) [OF tok] that] sorted_lined(2) [OF tok]
      by (simp add: known_def same_table_entries [OF that])
    then show "ending (good s) (same_table t) (form_groups e (sortedQueue t)) (\<lambda>_. good s)"
      using H_groups by (rule E_pre [rotated])
  qed
  have "ending (good s) (good s) (matchQueues e) (\<lambda>_. good s)"
    unfolding matchQueues_def
    by (rule E_state) (auto intro: E_give good_still E_pre [OF E_after [OF E_each [OF H_refill_room] groups]])
  moreover have "good s s" using ok served_still [OF table.refl] by (simp add: good_def)
  ultimately show ?thesis by (rule ends_ok)
qed

end
