(* ===== verification/Lobby_Company.thy ===== *)
theory Lobby_Company
  imports Lobby_Steps
begin

section \<open>A table of another size\<close>

text \<open>
  New settings keep the company: the members sit in the same order, the host stays the same person, and everybody has to
  become ready again.
\<close>

lemma map_filter_the:
  "List.map_filter (\<lambda>x. map_option f (m x)) xs = map (\<lambda>x. f (the (m x))) (filter (\<lambda>x. m x \<noteq> None) xs)"
  by (induction xs) (auto simp: List.map_filter_simps)

lemma room_accounts_occupied:
  "room_accounts room = map (\<lambda>i. me_account (the (map_of (rm_seats room) i))) (occupied room)"
  unfolding room_accounts_def occupied_def by (rule map_filter_the)

lemma map_of_members: "map_of (map (\<lambda>(i, v). (i, g v)) xs) i = map_option g (map_of xs i)"
  by (induction xs) auto

lemma invalidate_seats: "map_of (rm_seats (invalidate room)) i = map_option (\<lambda>v. v\<lparr>me_ready := None\<rparr>) (map_of (rm_seats room) i)"
  by (simp add: invalidate_def map_of_members)

lemma accounts_by_seats:
  assumes "ls_Size (rm_settings room') = ls_Size (rm_settings room)"
    "\<And>i. map_option me_account (map_of (rm_seats room') i) = map_option me_account (map_of (rm_seats room) i)"
  shows "room_accounts room' = room_accounts room"
  by (simp add: room_accounts_def assms)

lemma filter_beyond:
  assumes "m \<le> n" "\<And>i. P i \<Longrightarrow> i < int m"
  shows "filter P (map int [0..<n]) = filter P (map int [0..<m])"
proof -
  have "[0..<n] = [0..<m] @ [m..<n]" using assms(1) by (metis le_add_diff_inverse upt_add_eq_append zero_le)
  moreover have "filter P (map int [m..<n]) = []" using assms(2) by (force simp: filter_empty_conv)
  ultimately show ?thesis by simp
qed

text \<open>Within a larger table nobody moves.\<close>

lemma larger_table:
  assumes ok: "room_ok s room" and "ls_Size (rm_settings room) \<le> ls_Size st"
  shows "room_accounts (room\<lparr>rm_settings := st\<rparr>) = room_accounts room"
proof -
  have "map_of (rm_seats room) i \<noteq> None \<Longrightarrow> i < ls_Size (rm_settings room)" for i
    using ok by (force simp: room_ok_def list_all_iff seat_in_order_def dest: map_of_SomeD)
  then have "occupied (room\<lparr>rm_settings := st\<rparr>) = occupied room"
    using assms ok unfolding occupied_def by (auto intro!: filter_beyond simp: room_ok_def)
  then show ?thesis by (simp add: room_accounts_occupied)
qed

text \<open>At a smaller one everybody moves up.\<close>

lemma enumerated_map_of:
  "map_of (map (\<lambda>(n, x). (int n, f x)) (enumerate k xs)) i =
     (if int k \<le> i \<and> i < int (k + length xs) then Some (f (xs ! (nat i - k))) else None)"
proof (induction xs arbitrary: k)
  case (Cons x xs)
  have "nat i - k = Suc (nat i - Suc k)" if "int (Suc k) \<le> i" using that by auto
  then show ?case by (auto simp: Cons nth_Cons')
qed simp

lemma compacted_at:
  "map_of (rm_seats (compacted room)) i =
     (if 0 \<le> i \<and> i < int (length (occupied room)) then Some (the (map_of (rm_seats room) (occupied room ! nat i))) else None)"
  by (simp add: compacted_def enumerated_map_of)

lemma smaller_table:
  assumes ok: "room_ok s room" and "int (length (rm_seats room)) \<le> ls_Size st"
  shows "room_accounts ((compacted room)\<lparr>rm_settings := st\<rparr>) = room_accounts room"
proof -
  let ?n = "length (occupied room)"
  have n: "?n \<le> nat (ls_Size st)" using assms occupied_set(3) [OF ok] by simp
  have "occupied ((compacted room)\<lparr>rm_settings := st\<rparr>) = filter (\<lambda>i. 0 \<le> i \<and> i < int ?n) (map int [0..<nat (ls_Size st)])"
    by (simp add: occupied_def compacted_at)
  also have "\<dots> = filter (\<lambda>i. 0 \<le> i \<and> i < int ?n) (map int [0..<?n])" by (rule filter_beyond [OF n]) simp
  also have "\<dots> = map int [0..<?n]" by (rule filter_True) auto
  finally have seats: "occupied ((compacted room)\<lparr>rm_settings := st\<rparr>) = map int [0..<?n]" .
  have "map (\<lambda>i. me_account (the (map_of (rm_seats (compacted room)) i))) (map int [0..<?n])
      = map (\<lambda>i. me_account (the (map_of (rm_seats room) (occupied room ! i)))) [0..<?n]"
    by (simp add: compacted_at)
  also have "\<dots> = map (\<lambda>i. me_account (the (map_of (rm_seats room) i))) (occupied room)"
    by (rule nth_equalityI) simp_all
  finally show ?thesis unfolding room_accounts_occupied seats by simp
qed

text \<open>The host is looked up in the old order.\<close>

lemma index_takeWhile: "x \<in> set xs \<Longrightarrow> length (takeWhile (\<lambda>y. y \<noteq> x) xs) < length xs \<and> xs ! length (takeWhile (\<lambda>y. y \<noteq> x) xs) = x"
  by (induction xs) auto

lemma compacted_host:
  assumes ok: "room_ok s room" and host: "map_of (rm_seats room) (rm_host room) = Some v"
  shows "map_of (rm_seats (compacted room)) (rm_host (compacted room)) = Some v"
proof -
  have "rm_host room \<in> set (occupied room)"
    using occupied_set(1) [OF ok] map_of_SomeD [OF host] by (force simp: seats_in_def)
  moreover from index_takeWhile [OF this] host
  have "map_of (rm_seats (compacted room)) (int (length (takeWhile (\<lambda>seat. seat \<noteq> rm_host room) (occupied room)))) = Some v"
    by (simp add: compacted_at)
  ultimately show ?thesis by (simp add: compacted_def [of room] del: map_of_eq_Some_iff)
qed

lemma new_settings_company:
  assumes ok: "room_ok s room" and size: "ls_Size st \<in> {4, 6}" "int (length (rm_seats room)) \<le> ls_Size st"
  shows "room_accounts (new_settings st room) = room_accounts room"
    "map_of (rm_seats room) (rm_host room) = Some v \<Longrightarrow>
     \<exists>w. map_of (rm_seats (new_settings st room)) (rm_host (new_settings st room)) = Some w \<and> me_account w = me_account v"
    "map_of (rm_seats (new_settings st room)) i = Some w \<Longrightarrow> me_ready w = None"
proof -
  let ?room = "if ls_Size st < ls_Size (rm_settings room) then compacted room else room"
  have seats: "map_of (rm_seats (new_settings st room)) i = map_option (\<lambda>v. v\<lparr>me_ready := None\<rparr>) (map_of (rm_seats ?room) i)" for i
    by (simp add: new_settings_def Let_def invalidate_seats)
  have rest: "rm_settings (new_settings st room) = st" "rm_host (new_settings st room) = rm_host ?room"
    by (simp_all add: new_settings_def Let_def invalidate_def)
  have "room_accounts (new_settings st room) = room_accounts (?room\<lparr>rm_settings := st\<rparr>)"
    by (rule accounts_by_seats) (simp_all add: seats rest option.map_comp comp_def)
  also have "\<dots> = room_accounts room"
    using smaller_table [OF ok size(2)] larger_table [OF ok, of st] by simp
  finally show "room_accounts (new_settings st room) = room_accounts room" .
  show "\<exists>w. map_of (rm_seats (new_settings st room)) (rm_host (new_settings st room)) = Some w \<and> me_account w = me_account v"
    if "map_of (rm_seats room) (rm_host room) = Some v"
    using compacted_host [OF ok that] that unfolding seats rest by simp
  show "me_ready w = None" if "map_of (rm_seats (new_settings st room)) i = Some w"
    using that unfolding seats by auto
qed

end
