(* ===== verification/Lobby_Sample.thy ===== *)
theory Lobby_Sample
  imports Lobby_Steps Sample_Bundle
begin

section \<open>A small lobby\<close>

text \<open>
  A lobby of the synthetic prototype on the small bundle: every question is answered in favour of
  the caller, identifiers count upwards, and maps are ranged over in the order of their entries.
\<close>

definition demo_tuning :: tuning_config where
  "demo_tuning = sample_config\<lparr>tg_HandSize := 2, tg_DrawPile := 0, tg_Env := ''dev''\<rparr>"

definition demo_config :: lobby_config where
  "demo_config = \<lparr>lc_tuning = demo_tuning, lc_Modes = [], lc_RulesVersion = ''v'', lc_QueueTimeoutS = 30,
     lc_LeaderboardMinHumans = 4, lc_dealing = deal_sizes\<rparr>"

definition demo :: lobby_env where
  "demo = \<lparr>ev_config = demo_config, ev_Prototype = Some (index_bundle sample_bundle zero_hash), ev_Authority = None,
     ev_Done = (\<lambda>_. False), ev_ctx = (\<lambda>_. None), ev_order = (\<lambda>_ n. [0..<n]), ev_uuid = (\<lambda>_. ''abcdefgh''),
     ev_Now = (\<lambda>_. time_unix_milli 1000), ev_clock = (\<lambda>_ _. time_unix_milli 1000), ev_ToUpper = (\<lambda>x. x),
     ev_message = (\<lambda>_. ''failed''), ev_seed = (\<lambda>_. Inr 1), ev_match = (\<lambda>_. sample_surroundings),
     ev_size = (\<lambda>_. 100), ev_language = (\<lambda>_. True), ev_uuid_parse = (\<lambda>_. True), ev_Resolve = None,
     ev_ResolveRelease = None, ev_CanMatch = None, ev_CheckAccess = None, ev_ModerateChat = None, ev_HideChat = None,
     ev_Reserve = (\<lambda>_ _ _ _ _ _. None), ev_CancelReservation = (\<lambda>_ _ _. None), ev_Prepare = (\<lambda>_ _ _. None),
     ev_Start = (\<lambda>_ _ _ _ _ _. None), ev_CancelPrepared = (\<lambda>_ _ _ _ _. None), ev_Interrupt = (\<lambda>_ _ _ _ _. None),
     ev_Award = (\<lambda>_ _ _ _. None), ev_Abandon = (\<lambda>_ _ _ _. None), ev_Finish = (\<lambda>_ _ _ _. None),
     ev_SettlePending = (\<lambda>_ _. None)\<rparr>"

definition demo_settings :: lobby_settings where
  "demo_settings = \<lparr>ls_ModeID = ModeTopThat, ls_Size = 4, ls_ContentLanguage = ''en'', ls_PackReleaseID = ''p'', ls_RulesVersion = ''v''\<rparr>"

definition demo_start :: text_manager where
  "demo_start = (case NewTextManager demo ''o'' of Inr s \<Rightarrow> s | Inl _ \<Rightarrow> undefined)"

lemma demo_fields:
  "ev_config demo = demo_config" "ev_Prototype demo = Some (index_bundle sample_bundle zero_hash)" "ev_Authority demo = None"
  "ev_Done demo n = False" "ev_ctx demo n = None" "ev_order demo t n' = [0..<n']" "ev_uuid demo n = ''abcdefgh''"
  "ev_Now demo n = time_unix_milli 1000" "ev_ToUpper demo x = x" "ev_size demo x' = 100" "ev_language demo x = True"
  "ev_uuid_parse demo x = True" "ev_CanMatch demo = None" "ev_CheckAccess demo = None" "ev_Reserve demo n x1 x2 x3 xs g = None"
  "ev_CancelReservation demo n x1 x2 = None" "ev_seed demo n = Inr 1" "ev_match demo n = sample_surroundings" "ev_Prepare demo n r g = None" "ev_Start demo n x1 x2 i xs g = None"
  by (simp_all add: demo_def)

lemmas act_defs = give_def raise_def reject_when_def bind_act_def after_def with_state_def change_def ignoring_def ask_def
  call_def visiting_def joining_def returning_def with_member_def

lemma demo_started: "NewTextManager demo ''o'' = Inr demo_start"
  by (simp add: demo_start_def NewTextManager_def Let_def demo_fields demo_config_def demo_tuning_def sample_config_def is_prod_def
    index_bundle_def sample_bundle_def)

lemma demo_start_fields: "mg_peers demo_start = []" "mg_members demo_start = []" "mg_rooms demo_start = []" "mg_queues demo_start = []"
  "mg_fresh demo_start = 0" "mg_lost demo_start = False" "mg_tick demo_start = 1"
  "mg_draining demo_start = False" "mg_maintenancePaused demo_start = False" "mg_dependencyUnavailable demo_start = False"
  by (simp_all add: demo_start_def NewTextManager_def Let_def demo_fields demo_config_def demo_tuning_def sample_config_def is_prod_def
    index_bundle_def sample_bundle_def)

definition demo_open :: text_manager where
  "demo_open = snd (OpenAuthenticated demo (Some (\<lambda>_. Inr (''a'', ''b''))) demo_start)"

lemma demo_open_value: "demo_open = install_peer demo ''a'' ''b'' ''abcdefgh'' (demo_start\<lparr>mg_tick := 4\<rparr>)"
  unfolding demo_open_def OpenAuthenticated_def
  by (simp add: act_defs checkAuthority_def demo_fields demo_start_fields numeral_eq_Suc)

definition demo_created :: text_manager where
  "demo_created = snd (Create demo 0 demo_settings demo_open)"

lemma demo_manifest:
  "ma_Language (bu_Manifest (sx_bundle (index_bundle sample_bundle zero_hash))) = ''en''"
  "ma_RulesVersion (bu_Manifest (sx_bundle (index_bundle sample_bundle zero_hash))) = ''v''"
  "ma_ReleaseID (bu_Manifest (sx_bundle (index_bundle sample_bundle zero_hash))) = ''p''"
  "ma_Modes (bu_Manifest (sx_bundle (index_bundle sample_bundle zero_hash))) = [ModeTopThat]"
  by (simp_all add: index_bundle_def sample_bundle_def)

lemma demo_access: "admissionPaused s = False \<Longrightarrow> mg_lost s = False \<Longrightarrow>
   access demo a demo_settings path s = (Inr (), s\<lparr>mg_tick := Suc (mg_tick s)\<rparr>)"
  by (simp add: act_defs access_def checkAuthority_def demo_fields admissionPaused_def resolve_def Let_def demo_settings_def demo_config_def
    find_release_def usable_release_def demo_manifest)

lemma quiet_members: "along same_table f \<Longrightarrow> mg_members (snd (f s)) = mg_members s"
  using alongD same_table_entries(2) by blast

lemma demo_seated: "map_of (mg_members demo_created) ''a'' = Some 1"
  unfolding demo_created_def Create_def
  apply (simp add: act_defs checkAuthority_def demo_fields demo_start_fields demo_open_value install_peer_def account_of_def is_current_def
    demo_access admissionPaused_def Let_def canMatch_def reserve_def reservation_def returning_def newRoom_def)
  apply (simp add: act_defs room_code_def demo_fields install_room_def sit_new_def sit_down_def upd_room_def free_seat_def broadcastLobby_def visit_seats_def Let_def new_member_def set_member_def demo_start_fields
    quiet_members [OF table.A_lobby] account_of_def)
  done

subsection \<open>A full room\<close>

definition demo_member :: "string \<Rightarrow> nat \<Rightarrow> text_member" where
  "demo_member a p = \<lparr>me_account = a, me_admission = ''r'', me_devRole = [], me_peer = Some p, me_joined = p,
     me_originalSeat = -1, me_ready = Some \<lparr>ra_SettingsRevision = 1, ra_MembershipRevision = 1\<rparr>\<rparr>"

definition demo_peer :: "string \<Rightarrow> text_peer" where
  "demo_peer a = \<lparr>pe_AccountID = a, pe_ID = ''p'', pe_binding = ''b'', pe_frames = [], pe_capacity = 28, pe_closed = False\<rparr>"

definition demo_room :: text_room where
  "demo_room = \<lparr>rm_pendingOperator = False, rm_excludedAccounts = [], rm_pendingAbort = [], rm_id = ''i'', rm_code = ''abcdef'',
     rm_path = ''local'', rm_settings = demo_settings, rm_settingsRevision = 1, rm_membershipRevision = 1, rm_host = 0,
     rm_seats = [(0, demo_member ''a'' 0), (1, demo_member ''b'' 1), (2, demo_member ''c'' 2), (3, demo_member ''d'' 3)],
     rm_match = None, rm_matchAccounts = [], rm_rematching = False\<rparr>"

definition demo_full :: text_manager where
  "demo_full = demo_start\<lparr>mg_peer := (\<lambda>p. demo_peer ([''a'', ''b'', ''c'', ''d''] ! p)), mg_room := (\<lambda>_. demo_room),
     mg_peers := [(''a'', 0), (''b'', 1), (''c'', 2), (''d'', 3)], mg_members := [(''a'', 4), (''b'', 4), (''c'', 4), (''d'', 4)],
     mg_rooms := [(''abcdef'', 4)], mg_fresh := 5\<rparr>"

definition demo_deal :: text_deal where
  "demo_deal = (case Deal (sr_rng sample_surroundings) (index_bundle sample_bundle zero_hash) ModeTopThat 4
      (deal_tuning_of demo_config) \<lparr>ra_Schedule = 1, ra_Hands = 1, ra_System = 1\<rparr> of Inr d \<Rightarrow> d | Inl _ \<Rightarrow> sample_deal)"

lemma demo_dealt: "Deal (sr_rng sample_surroundings) (index_bundle sample_bundle zero_hash) ModeTopThat 4
      (deal_tuning_of demo_config) \<lparr>ra_Schedule = 1, ra_Hands = 1, ra_System = 1\<rparr> = Inr demo_deal"
proof -
  have "accepted (Deal (sr_rng sample_surroundings) (index_bundle sample_bundle zero_hash) ModeTopThat 4
      (deal_tuning_of demo_config) \<lparr>ra_Schedule = 1, ra_Hands = 1, ra_System = 1\<rparr>)" by code_simp
  then show ?thesis by (auto simp: demo_deal_def dest: accepted_Inr)
qed

definition demo_options :: "text_hooks \<Rightarrow> text_options" where
  "demo_options h = \<lparr>op_DevRoles = [], op_Contract = contract_of demo demo_room ''abcdefgh'' demo_deal zero_hash ''abcdefgh'',
     op_Deal = demo_deal, op_Config = Some demo_tuning, op_Seed = 0, op_Hooks = h, op_Prototype = True\<rparr>"

lemma demo_new: "accepted (NewTextMatch sample_surroundings (demo_options \<lparr>hk_ModerateChat = None, hk_Abandon = a, hk_Award = b, hk_Finish = c\<rparr>))"
  by code_simp

text \<open>The first seat starts the match.\<close>

definition full :: "nat \<Rightarrow> text_manager" where
  "full k = demo_full\<lparr>mg_tick := k\<rparr>"

lemma full_fields:
  "mg_room (full k) r = demo_room" "mg_peer (full k) p = demo_peer ([''a'', ''b'', ''c'', ''d''] ! p)"
  "map_of (mg_members (full k)) ''a'' = Some 4" "mg_peers (full k) = [(''a'', 0), (''b'', 1), (''c'', 2), (''d'', 3)]"
  "mg_fresh (full k) = 5" "admissionPaused (full k) = False" "mg_lost (full k) = False" "mg_tick (full k) = k"
  "(full k)\<lparr>mg_tick := n\<rparr> = full n"
  by (simp_all add: full_def demo_full_def demo_start_fields admissionPaused_def)

lemma full_access: "access demo a demo_settings path (full k) = (Inr (), full (Suc k))"
  using demo_access [of "full k"] by (simp add: full_fields)

lemma full_resolve: "resolve demo demo_settings (full k) = (Inr (index_bundle sample_bundle zero_hash), full k)"
  by (simp add: act_defs resolve_def demo_fields Let_def demo_settings_def demo_config_def find_release_def usable_release_def demo_manifest)

lemma demo_seats: "room_seats demo_room = [0, 1, 2, 3]"
  by (simp add: room_seats_def demo_room_def demo_settings_def upt_rec)

lemma full_built: "\<exists>pm n. build_match demo 4 ''abcdefgh'' h demo_deal (full k) = (Inr pm, full n)"
proof -
  obtain xs where xs: "\<And>k. admit_seats demo 4 [0, 1, 2, 3] (full k) = (Inr xs, full k)"
    by (simp add: act_defs full_fields demo_room_def demo_member_def)
  have hash: "tg_Hash demo_tuning = Inr zero_hash" "lc_tuning demo_config = demo_tuning"
    by (simp_all add: demo_tuning_def sample_config_def demo_config_def)
  have roles: "chosen_roles demo_room = []" by (simp add: chosen_roles_def demo_room_def demo_member_def List.map_filter_simps)
  have "\<exists>m. NewTextMatch sample_surroundings (demo_options (match_hooks demo t ow accounts)) = Inr m" for t ow accounts
    using accepted_Inr [OF demo_new] by (simp add: match_hooks_def value_hooks_def demo_def)
  then obtain m where m: "\<And>t ow accounts. NewTextMatch sample_surroundings (demo_options (match_hooks demo t ow accounts)) = Inr (m t ow accounts)"
    by metis
  have size: "ls_Size (rm_settings demo_room) = 4" by (simp add: demo_room_def demo_settings_def)
  show ?thesis
    unfolding build_match_def
    by (simp add: act_defs full_fields Let_def demo_fields hash engine_result_def demo_seats xs roles roles_conflict_def size
      m [unfolded demo_options_def] del: admit_seats.simps) blast
qed

lemma full_prepared: "\<exists>pm n. prepare_match demo 4 ''abcdefgh'' (full k) = (Inr pm, full n)"
proof -
  obtain pm n where b: "\<And>k. build_match demo 4 ''abcdefgh'' ''a'' demo_deal (full k) = (Inr (pm k), full (n k))"
    using full_built by metis
  have room: "rm_settings demo_room = demo_settings" "rm_host demo_room = 0" "ls_ModeID demo_settings = ModeTopThat"
      "ls_Size demo_settings = 4" "map_of (rm_seats demo_room) 0 = Some (demo_member ''a'' 0)" "me_account (demo_member ''a'' 0) = ''a''"
    by (simp_all add: demo_room_def demo_settings_def demo_member_def)
  show ?thesis
    unfolding prepare_match_def
    by (simp add: act_defs full_fields Let_def demo_fields canMatch_def room full_access full_resolve ask_seed_def engine_result_def
      demo_dealt b) blast
qed

lemma full_committed: "\<exists>n. commit_match demo 4 matchID now pm (full k) = (Inr (), full n)"
proof -
  have room: "rm_settings demo_room = demo_settings" by (simp add: demo_room_def)
  show ?thesis
    unfolding commit_match_def
    by (simp add: act_defs full_fields demo_fields room full_access durable_start_def visit_seats_def visiting_def) blast
qed

lemma demo_starts: "rm_match (mg_room (snd (Start demo 0 (full 5))) 4) \<noteq> None"
proof -
  obtain pm n where p: "prepare_match demo 4 ''abcdefgh'' (full 7) = (Inr pm, full n)"
    using full_prepared by blast
  obtain n' where c: "commit_match demo 4 ''abcdefgh'' (time_unix_milli 1000) pm (full n) = (Inr (), full n')"
    using full_committed by blast
  have room: "rm_match demo_room = None" "rm_pendingAbort demo_room = []" "rm_pendingOperator demo_room = False"
      "rm_host demo_room = 0" "member_seat demo_room ''a'' = Some (0, demo_member ''a'' 0)"
      "length (rm_seats demo_room) = 4" "ls_Size (rm_settings demo_room) = 4"
    by (simp_all add: demo_room_def member_seat_def demo_member_def demo_settings_def)
  have ready: "seat_ready (full 5) demo_room 0" "seat_ready (full 5) demo_room 1" "seat_ready (full 5) demo_room 2"
      "seat_ready (full 5) demo_room 3"
    by (simp_all add: seat_ready_def demo_room_def demo_member_def current_member_def acknowledged_def is_current_def full_fields demo_peer_def)
  have current: "is_current (full 5) 0" "account_of (full 5) 0 = ''a''"
    by (simp_all add: is_current_def account_of_def full_fields demo_peer_def)
  have k: "along (same_match 4) (ignoring (broadcastMatch demo 4))"
    by (intro same_match.A_ignoring broadcast_same)
  have "Start demo 0 (full 5) = start demo 4 (full 5)"
    unfolding Start_def
    by (simp add: act_defs Let_def full_fields current room with_seat_def demo_seats ready)
  moreover have "\<exists>t. snd (start demo 4 (full 5)) = snd (ignoring (broadcastMatch demo 4) t) \<and> rm_match (mg_room t 4) \<noteq> None"
  proof -
    have "snd (start demo 4 (full 5)) = snd (ignoring (broadcastMatch demo 4)
        (upd_room 4 (install_match pm) (full n')))"
      unfolding start_def
      by (simp add: bind_act_def after_def ask_def change_def demo_fields full_fields p c failing_with_def)
    then show ?thesis by (intro exI conjI) (assumption, simp add: room_upd_room install_match_def)
  qed
  ultimately show ?thesis
    using alongD [OF k] unfolding same_match_def by (metis option.map_disc_iff)
qed

subsection \<open>Two more\<close>

text \<open>Four connections in the queue.\<close>

definition demo_entry :: "nat \<Rightarrow> text_queue" where
  "demo_entry p = \<lparr>qu_id = ''r'', qu_peer = p, qu_settings = demo_settings, qu_joined = time_unix_milli 0,
     qu_decision = time_unix_milli 0, qu_order = p, qu_choice = False\<rparr>"

definition demo_queue :: text_manager where
  "demo_queue = demo_full\<lparr>mg_rooms := [], mg_members := [], mg_order := 3,
     mg_queues := [(''a'', demo_entry 0), (''b'', demo_entry 1), (''c'', demo_entry 2), (''d'', demo_entry 3)]\<rparr>"

lemma demo_queue_entry: "map_of (mg_queues demo_queue) ''a'' = Some (demo_entry 0)"
  by (simp add: demo_queue_def)

lemma demo_queue_ok: "lobby_ok demo_queue"
  by (auto simp: lobby_ok_def demo_queue_def demo_full_def queue_ok_def demo_entry_def account_of_def demo_peer_def listed_room_def
    split: if_splits)

text \<open>A table of six with the host in its last seat.\<close>

definition wide_room :: text_room where
  "wide_room = demo_room\<lparr>rm_settings := demo_settings\<lparr>ls_Size := 6\<rparr>, rm_host := 5,
     rm_seats := [(5, demo_member ''c'' 2), (3, demo_member ''b'' 1)]\<rparr>"

definition demo_wide :: text_manager where
  "demo_wide = demo_full\<lparr>mg_rooms := [(''abcdef'', 0)], mg_members := [(''b'', 0), (''c'', 0)], mg_room := (\<lambda>_. wide_room)\<rparr>"

lemma wide_room_values: "room_accounts wide_room = [''b'', ''c'']" "rm_host (new_settings demo_settings wide_room) = 1"
  by code_simp+

lemma demo_wide_ok: "lobby_ok demo_wide"
  by (auto simp: lobby_ok_def demo_wide_def demo_full_def demo_start_fields wide_room_def demo_room_def listed_room_def room_ok_def
    seats_in_def accounts_in_def seat_in_order_def demo_member_def account_of_def demo_peer_def split: if_splits)

text \<open>The authority is gone from the start.\<close>

definition cut_off :: lobby_env where
  "cut_off = demo\<lparr>ev_Authority := Some (\<lambda>_. None), ev_Done := (\<lambda>_. True)\<rparr>"

end
