(* ===== verification/Lobby_Claims.thy ===== *)
theory Lobby_Claims
  imports Lobby_Steps Lobby_Matching Lobby_Company Lobby_Sample
begin

section \<open>The lobby\<close>

text \<open>
  Claims about the lobby: who sits where, when a match starts, whom the queue serves, what new settings do to
  the company, and what is left after the authority is lost.
\<close>

subsection \<open>Seats\<close>

text \<open>
  C36. Whatever the operations, in whatever order and with whatever failures of the outside world, every state of the lobby is
  well formed: an account is registered as a member of a room exactly if the room is listed and the account holds one,
  and only one, of its seats; an account that is queued is no member and its entry names a connection of its own;
  a listed room is found under its code, has four or six seats, occupies none beyond them, and every connection
  seated there belongs to the account of its seat; the registered connection of an account is its own.
\<close>

theorem every_seat_has_its_account:
  assumes "NewTextManager e owner = Inr s0" "lobby_run e s0 s"
  shows "(\<forall>a r. map_of (mg_members s) a = Some r \<longleftrightarrow> map_of (mg_rooms s) (rm_code (mg_room s r)) = Some r
        \<and> (\<exists>!seat. \<exists>v. map_of (rm_seats (mg_room s r)) seat = Some v \<and> me_account v = a))
    \<and> (\<forall>a q. map_of (mg_queues s) a = Some q \<longrightarrow> map_of (mg_members s) a = None \<and> account_of s (qu_peer q) = a)
    \<and> (\<forall>c r. map_of (mg_rooms s) c = Some r \<longrightarrow> rm_code (mg_room s r) = c \<and> ls_Size (rm_settings (mg_room s r)) \<in> {4, 6}
        \<and> (\<forall>seat v. map_of (rm_seats (mg_room s r)) seat = Some v \<longrightarrow> 0 \<le> seat \<and> seat < ls_Size (rm_settings (mg_room s r))
            \<and> (\<forall>p. me_peer v = Some p \<longrightarrow> account_of s p = me_account v)))
    \<and> (\<forall>a p. map_of (mg_peers s) a = Some p \<longrightarrow> account_of s p = a)"
proof -
  have ok: "lobby_ok s" using lobby_stays_ok [OF assms(2) manager_ok [OF assms(1)]] .
  have seat: "(\<exists>!seat. \<exists>v. map_of (rm_seats (mg_room s r)) seat = Some v \<and> me_account v = a) \<longleftrightarrow> a \<in> set (accounts_in (mg_room s r))"
    if "listed_room s r" for r a
    using one_seat live_ok [OF ok that] by blast
  have members: "map_of (mg_members s) a = Some r \<longleftrightarrow> map_of (mg_rooms s) (rm_code (mg_room s r)) = Some r
        \<and> (\<exists>!seat. \<exists>v. map_of (rm_seats (mg_room s r)) seat = Some v \<and> me_account v = a)" for a r
    using member_iff [OF ok, of a r] seat [of r a] unfolding listed_room_def by blast
  have rooms: "rm_code (mg_room s r) = c \<and> ls_Size (rm_settings (mg_room s r)) \<in> {4, 6}
        \<and> (\<forall>seat v. map_of (rm_seats (mg_room s r)) seat = Some v \<longrightarrow> 0 \<le> seat \<and> seat < ls_Size (rm_settings (mg_room s r))
            \<and> (\<forall>p. me_peer v = Some p \<longrightarrow> account_of s p = me_account v))" if "map_of (mg_rooms s) c = Some r" for c r
    using lobby_okD(7) [OF ok that] by (fastforce simp: room_ok_def list_all_iff seat_in_order_def dest: map_of_SomeD)
  show ?thesis
    using members rooms lobby_okD(5,6) [OF ok] by (simp add: queue_ok_def)
qed

text \<open>A connection opens and creates a room.\<close>

lemma demo_run: "lobby_run demo demo_start demo_created"
proof -
  have "lobby_run demo demo_start demo_open"
    unfolding demo_open_def by (rule continued [OF begun open_peer])
  moreover have "0 < mg_fresh demo_open" by (simp add: demo_open_value install_peer_def)
  ultimately show ?thesis unfolding demo_created_def by (rule continued [OF _ create])
qed

theorem every_seat_has_its_account_witness:
  "\<exists>!seat. \<exists>v. map_of (rm_seats (mg_room demo_created 1)) seat = Some v \<and> me_account v = ''a''"
  using every_seat_has_its_account [OF demo_started demo_run] demo_seated by simp

subsection \<open>Starting\<close>

text \<open>
  C37. A match appears in a room by one step only, the successful \<open>Start\<close> of its host, over the open connection of the host's account;
  admission is open, no earlier attempt is still to be undone and no administrator holds the room;
  every seat is taken, its connection is the open one of its account, and its account has acknowledged exactly the
  settings and the membership the room has now. The match in the room is the one the store knows: the store
  accepted a record with the contract of this very match (this room, its size and mode, this
  manager's fence, a reservation for every seat), and after that, at a later call, the start of the
  match with this identity, under the same fence, with the bindings of exactly the connections that occupy the
  seats; and the match is played for the accounts of the seats, in their order.
\<close>

theorem matches_start_when_everyone_is_ready:
  assumes "lobby_step e s t" "rm_match (mg_room s r) = None" "rm_match (mg_room t r) \<noteq> None"
  shows "\<exists>p v. t = snd (Start e p s) \<and> is_current s p \<and> map_of (mg_members s) (account_of s p) = Some r
    \<and> member_seat (mg_room s r) (account_of s p) = Some (rm_host (mg_room s r), v)
    \<and> \<not> admissionPaused s \<and> rm_pendingAbort (mg_room s r) = [] \<and> \<not> rm_pendingOperator (mg_room s r)
    \<and> int (length (rm_seats (mg_room s r))) = ls_Size (rm_settings (mg_room s r))
    \<and> (\<forall>seat. 0 \<le> seat \<longrightarrow> seat < ls_Size (rm_settings (mg_room s r)) \<longrightarrow>
        (\<exists>m q a. map_of (rm_seats (mg_room s r)) seat = Some m \<and> me_peer m = Some q \<and> is_current s q \<and> me_ready m = Some a
          \<and> ra_SettingsRevision a = rm_settingsRevision (mg_room s r)
          \<and> ra_MembershipRevision a = rm_membershipRevision (mg_room s r)))
    \<and> (\<exists>m record now k k' bindings. rm_match (mg_room t r) = Some m
        \<and> rm_matchAccounts (mg_room t r) = map (\<lambda>seat. me_account (the (map_of (rm_seats (mg_room s r)) seat))) (room_seats (mg_room s r))
        \<and> mc_RoomID (tm_contract m) = rm_id (mg_room s r) \<and> mc_OriginalSize (tm_contract m) = ls_Size (rm_settings (mg_room s r))
        \<and> mc_ModeID (tm_contract m) = ls_ModeID (rm_settings (mg_room s r))
        \<and> mr_Contract record = tm_contract m \<and> mr_Owner record = mg_owner s \<and> mr_Epoch record = 1
        \<and> length (mr_AdmissionIDs record) = length (room_seats (mg_room s r))
        \<and> ev_Prepare e k record now = None
        \<and> k < k' \<and> ev_Start e k' (mc_MatchID (tm_contract m)) (mg_owner s) 1 bindings now = None
        \<and> set bindings = {b. \<exists>seat v q. map_of (rm_seats (mg_room s r)) seat = Some v \<and> me_peer v = Some q
              \<and> b = pe_binding (mg_peer s q)})"
proof -
  have "\<not> unstarted r s t" using assms(2,3) by (simp add: unstarted_def)
  then obtain p where p: "t = snd (Start e p s)" using unstarted.R_step [OF assms(1)] by blast
  note start = Start_installs [OF assms(2) assms(3) [unfolded p]]
  then have "list_all (seat_ready s (mg_room s r)) (room_seats (mg_room s r))" by blast
  then have "seat_ready s (mg_room s r) seat" if "0 \<le> seat" "seat < ls_Size (rm_settings (mg_room s r))" for seat
    using that unfolding list_all_iff room_seats_def seat_range by simp
  then have "\<exists>m q a. map_of (rm_seats (mg_room s r)) seat = Some m \<and> me_peer m = Some q \<and> is_current s q \<and> me_ready m = Some a
      \<and> ra_SettingsRevision a = rm_settingsRevision (mg_room s r) \<and> ra_MembershipRevision a = rm_membershipRevision (mg_room s r)"
    if "0 \<le> seat" "seat < ls_Size (rm_settings (mg_room s r))" for seat
    using that ready_parts by blast
  moreover have t: "t = snd (start e r s)" using start unfolding p by blast
  moreover note start_installs [OF assms(2), of e, folded t, OF assms(3), unfolded seated_bindings_def]
  moreover obtain v where "member_seat (mg_room s r) (account_of s p) = Some (rm_host (mg_room s r), v)" using start by blast
  ultimately show ?thesis using start p by (intro exI [of _ p] exI [of _ v] conjI) (assumption | blast)+
qed

theorem matches_start_when_everyone_is_ready_witness: "is_current (full 5) 0 \<and> is_current (full 5) 3"
proof -
  have "lobby_step demo (full 5) (snd (Start demo 0 (full 5)))" by (rule start_match) (simp add: full_fields)
  moreover have "rm_match (mg_room (full 5) 4) = None" by (simp add: full_fields demo_room_def)
  ultimately obtain p where "is_current (full 5) p" "map_of (mg_members (full 5)) (account_of (full 5) p) = Some 4"
    and seats: "\<And>seat. 0 \<le> seat \<Longrightarrow> seat < ls_Size (rm_settings (mg_room (full 5) 4)) \<Longrightarrow>
      \<exists>m q a. map_of (rm_seats (mg_room (full 5) 4)) seat = Some m \<and> me_peer m = Some q \<and> is_current (full 5) q"
    using matches_start_when_everyone_is_ready [OF _ _ demo_starts] by (metis (no_types, lifting))
  show ?thesis
    using seats [of 0] seats [of 3] by (simp add: full_fields demo_room_def demo_settings_def demo_member_def)
qed

subsection \<open>The queue\<close>

text \<open>
  C38. Matchmaking serves only what was asked for. In a well-formed lobby (\<open>lobby_ok\<close>, which every step keeps, C36), after
  it every entry of the queue either still stands unchanged, or is gone and its account is a
  member of a room with exactly the settings it had asked for; nobody enters the queue; every
  member keeps its room and the room its settings; and every new member comes from the queue. This is
  about safety: it does not say that a group which could be formed is formed.
\<close>

theorem matchmaking_serves_the_queue:
  assumes "lobby_ok s" "t = snd (matchQueues e s)"
  shows "(\<forall>a q. map_of (mg_queues s) a = Some q \<longrightarrow> map_of (mg_queues t) a = Some q
        \<or> map_of (mg_queues t) a = None \<and> (\<exists>r. map_of (mg_members t) a = Some r \<and> rm_settings (mg_room t r) = qu_settings q))
    \<and> (\<forall>a. map_of (mg_queues s) a = None \<longrightarrow> map_of (mg_queues t) a = None)
    \<and> (\<forall>a r. map_of (mg_members s) a = Some r \<longrightarrow> map_of (mg_members t) a = Some r
        \<and> rm_settings (mg_room t r) = rm_settings (mg_room s r))
    \<and> (\<forall>a r. map_of (mg_members t) a = Some r \<longrightarrow> map_of (mg_members s) a = Some r \<or> map_of (mg_queues s) a \<noteq> None)"
  using H_matchQueues [OF assms(1), of e] unfolding assms(2) good_def served_def by blast

theorem matchmaking_serves_the_queue_witness:
  "map_of (mg_queues (snd (matchQueues demo demo_queue))) ''a'' = Some (demo_entry 0)
   \<or> (\<exists>r. map_of (mg_members (snd (matchQueues demo demo_queue))) ''a'' = Some r
        \<and> rm_settings (mg_room (snd (matchQueues demo demo_queue)) r) = demo_settings)"
proof -
  have "qu_settings (demo_entry 0) = demo_settings" by (simp add: demo_entry_def)
  then show ?thesis
    using matchmaking_serves_the_queue [OF demo_queue_ok refl, THEN conjunct1] demo_queue_entry by metis
qed

subsection \<open>New settings\<close>

text \<open>
  C39. New settings keep the company: in a lobby in order, a room given settings with enough seats has the same accounts in the same
  order of their seats, its host, if the host's seat is taken, is still the same account, and nobody is ready any more.
  This holds in particular when the table becomes smaller and the seats are renumbered.
\<close>

theorem settings_keep_the_company:
  assumes "lobby_ok s" "map_of (mg_rooms s) c = Some r" "room = mg_room s r"
    and "ls_Size st \<in> {4, 6}" "int (length (rm_seats room)) \<le> ls_Size st"
  shows "room_accounts (new_settings st room) = room_accounts room \<and> rm_settings (new_settings st room) = st
    \<and> (\<forall>v. map_of (rm_seats room) (rm_host room) = Some v \<longrightarrow>
        (\<exists>w. map_of (rm_seats (new_settings st room)) (rm_host (new_settings st room)) = Some w \<and> me_account w = me_account v))
    \<and> (\<forall>seat w. map_of (rm_seats (new_settings st room)) seat = Some w \<longrightarrow> 0 \<le> seat \<and> seat < ls_Size st \<and> me_ready w = None)"
proof -
  have ok: "room_ok s room" using lobby_okD(7) [OF assms(1,2)] assms(3) by simp
  have new: "room_ok s (new_settings st room)" using resized_ok [OF ok assms(4,5)] by blast
  have st: "rm_settings (new_settings st room) = st" by (simp add: new_settings_def Let_def invalidate_def)
  have "0 \<le> seat \<and> seat < ls_Size st" if "map_of (rm_seats (new_settings st room)) seat = Some w" for seat w
    using new map_of_SomeD [OF that] by (force simp: room_ok_def st list_all_iff seat_in_order_def)
  then show ?thesis using new_settings_company [OF ok assms(4,5)] st by blast
qed

theorem settings_keep_the_company_witness:
  "room_accounts (new_settings demo_settings wide_room) = [''b'', ''c''] \<and> rm_host (new_settings demo_settings wide_room) = 1"
proof -
  have w: "wide_room = mg_room demo_wide 0" "ls_Size demo_settings \<in> {4, 6}" "int (length (rm_seats wide_room)) \<le> ls_Size demo_settings"
    "map_of (mg_rooms demo_wide) ''abcdef'' = Some 0"
    by (simp_all add: demo_wide_def wide_room_def demo_room_def demo_settings_def)
  note kept = settings_keep_the_company [OF demo_wide_ok w(4,1,2,3)]
  have "room_accounts wide_room = [''b'', ''c'']" "rm_host (new_settings demo_settings wide_room) = 1"
    by (simp_all add: wide_room_values)
  then show ?thesis using kept by metis
qed

subsection \<open>Authority\<close>

text \<open>
  C40. A lost authority is final: once a manager has lost it, whatever operations follow, it has lost it, admission is paused, a
  closed connection stays closed, and no connection, not even one installed later, ever gets another frame: what is
  left in its buffer is a rest of what was there.
\<close>

theorem lost_authority_is_final:
  assumes "NewTextManager e owner = Inr s0" "lobby_run e s0 s" "mg_lost s" "lobby_run e s t"
  shows "mg_lost t \<and> admissionPaused t
    \<and> (\<forall>p < mg_fresh s. pe_closed (mg_peer s p) \<longrightarrow> pe_closed (mg_peer t p))
    \<and> (\<forall>p. \<exists>n. pe_frames (mg_peer t p) = drop n (pe_frames (mg_peer s p)))"
proof -
  have "\<not> mg_lost s0" using manager_fields(1) [OF assms(1)] .
  then have "mg_draining s" using fenced_off.R_runs [OF assms(2)] assms(3) by (auto simp: fenced_off_def)
  then show ?thesis using fenced_off.R_runs [OF assms(4)] assms(3) by (auto simp: fenced_off_def admissionPaused_def)
qed

text \<open>An environment that loses the authority at the first question; the operation is refused and the manager is fenced.\<close>

definition demo_fenced :: text_manager where
  "demo_fenced = snd (OpenAuthenticated cut_off (Some (\<lambda>_. Inr (''a'', ''b''))) demo_start)"

lemma demo_fenced_value: "mg_lost demo_fenced" "mg_fresh demo_fenced = 0" "mg_peer demo_fenced = mg_peer demo_start"
  unfolding demo_fenced_def OpenAuthenticated_def
  by (simp_all add: act_defs checkAuthority_def cut_off_def demo_fields demo_start_fields lose_def loseAuthority_def)

theorem lost_authority_is_final_witness: "pe_frames (mg_peer (snd (tick cut_off demo_fenced)) 0) = []"
proof -
  have f: "ev_config cut_off = ev_config demo" "ev_Prototype cut_off = ev_Prototype demo" "ev_uuid cut_off = ev_uuid demo"
    "ev_uuid_parse cut_off = ev_uuid_parse demo"
    by (simp_all add: cut_off_def)
  have "NewTextManager cut_off ''o'' = NewTextManager demo ''o''" unfolding NewTextManager_def f by (rule refl)
  then have start: "NewTextManager cut_off ''o'' = Inr demo_start" using demo_started by simp
  have run: "lobby_run cut_off demo_start demo_fenced"
    unfolding demo_fenced_def by (rule continued [OF begun open_peer])
  have step: "lobby_run cut_off demo_fenced (snd (tick cut_off demo_fenced))" by (rule continued [OF begun ticked])
  have "pe_frames (mg_peer demo_start 0) = []" using manager_fields(2) [OF demo_started] .
  then show ?thesis
    using lost_authority_is_final [OF start run demo_fenced_value(1) step] demo_fenced_value(3) by (metis drop_Nil)
qed

end
