(* ===== verification/Spec2Isabelle.thy ===== *)
theory Spec2Isabelle
  imports Match_Claims View_Claims Engine_Claims Rule_Claims Deal_Claims Wire_Claims Guard_Claims Lobby_Claims
begin

text \<open>
  The Knowoff server, modelled from its Go sources.

  \<^bold>\<open>The program.\<close> A match of Knowoff seats four or six accounts. Half of them less one are
  secretly \<open>donower\<close>s; the \<open>nower\<close>s share a prompt they do not know, everybody plays cards for
  or around it, and ballots eliminate suspects. The engine (\<open>server/internal/game\<close>) computes a candidate
  state for every input, checks it, lets the durable hooks commit it and only then installs it. What it
  shows is a snapshot per seat in the format of the wire contract
  (\<open>server/internal/transport/v2\<close>); what it plays with is a deal drawn from a reviewed
  bundle (\<open>server/pkg/media\<close>). The lobby (\<open>server/internal/lobby\<close>) seats the accounts in rooms, fills rooms from
  the queue, starts a match once everybody is ready, drives it and delivers its frames. Chat passes the moderator (\<open>game/text_chat.go\<close>); requests and
  workers pass the admission gate and the connection cap.

  \<^bold>\<open>Conventions\<close> (\<open>Prelude\<close>). A Go \<open>int\<close> is an \<open>int\<close>, a \<open>uint64\<close> revision a \<open>nat\<close> bounded by
  the validators, an atomic \<open>int64\<close> a 64-bit word; a string is its bytes (\<open>Utf8\<close>, \<open>Runes\<close>: the
  decoder and encoder of \<open>unicode/utf8\<close>). An \<open>error\<close> is an option or the left side of a sum, a
  Go map an association list with distinct keys (the locale \<open>go_map\<close> and its interpretation), a
  panic an error of its own (\<open>GoPanic\<close>): indexing by a seat, a target or a count that a caller supplies, a missing
  field and a division by zero panic where the code does; the indices that the state itself stores are proved to be in
  range (\<open>Ballots\<close>, C13). A mutex makes its critical section one step. Time is a count
  of nanoseconds and every reading of the clock is an argument.

  \<^bold>\<open>Theories and the files they model.\<close>

  \<^item> \<open>Contract\<close>: the types of \<open>v2/contract.go\<close> and \<open>gamecontract/mode.go\<close>. \<open>Validate\<close>: \<open>v2/validate.go\<close>.
    \<open>Sequence\<close>: \<open>v2/sequence.go\<close>. \<open>Json\<close>: the canonical rendering of \<open>v2/canonical.go\<close>, which sizes and hashes
    are taken of. \<open>History\<close>, \<open>Snapshots\<close>: \<open>v2/history.go\<close>, \<open>v2/snapshot.go\<close>.
  \<^item> \<open>MatchState\<close>, \<open>Rng\<close>, \<open>Layouts\<close>, \<open>Ballot\<close>, \<open>Turns\<close>, \<open>Trades\<close>, \<open>Actions\<close>, \<open>Specialties\<close>, \<open>Advance\<close>:
    the records and the transitions of \<open>game/text_match.go\<close>, \<open>text_actions.go\<close>, \<open>text_specialty.go\<close>.
    \<open>MatchOps\<close>: \<open>Apply\<close>, \<open>Advance\<close>, \<open>SetConnected\<close>, \<open>Close\<close>, \<open>DevGrantSpecialty\<close>, \<open>persist\<close> and the conservation
    check. \<open>NewMatch\<close>: \<open>NewTextMatch\<close>. \<open>Projection\<close>, \<open>Delivery\<close>: \<open>game/text_snapshot.go\<close>.
  \<^item> \<open>Bundles\<close>, \<open>Dealing\<close>: \<open>media/text_types.go\<close>, \<open>text_validation.go\<close>, the index of \<open>text_loader.go\<close>,
    \<open>text_dealing.go\<close>.
  \<^item> \<open>Chat\<close>: \<open>game/text_chat.go\<close>. \<open>Work_Gate\<close>: \<open>transport/work_gate.go\<close>. \<open>Limiter\<close>:
    \<open>ratelimit/connlimiter.go\<close>.
  \<^item> \<open>Lobby_State\<close>: the records of \<open>lobby/text_manager.go\<close>, its surroundings and the notation of its operations.
    \<open>Lobby_Frames\<close>: authority, \<open>emit\<close>, the lobby view, snapshots and broadcasts (\<open>text_manager.go\<close>, \<open>text_runtime.go\<close>,
    \<open>devRoleFrame\<close> of \<open>text_dev_role.go\<close>).
    \<open>Lobby_Queues\<close>: admission and \<open>text_queue.go\<close>. \<open>Lobby_Rooms\<close>: \<open>text_room.go\<close>, \<open>OpenAuthenticated\<close>, \<open>abortPrepared\<close>,
    \<open>TextValueHooks\<close>. \<open>Lobby_Start\<close>: \<open>Start\<close>. \<open>Lobby_Run\<close>: \<open>Action\<close>, \<open>Resync\<close>, \<open>RejectAction\<close>, the tick, pauses, drains, \<open>Close\<close>
    (\<open>text_runtime.go\<close>, \<open>text_drain.go\<close>, \<open>text_shutdown.go\<close>, \<open>text_dev_role.go\<close>) and the steps \<open>lobby_step\<close> of a running manager.

  \<^bold>\<open>What the lemmas show.\<close>

  \<^item> \<open>Stock\<close>, \<open>Moves\<close>, \<open>Match_Stock\<close>, \<open>Conservation\<close>, \<open>Keeping\<close>, \<open>Keeping_Acts\<close>, \<open>Keeping_Ops\<close>: the
    stock of copies, the moves that permute it, and the invariant \<open>kept\<close> through every operation.
  \<^item> \<open>Steps\<close>, \<open>Growth\<close>, \<open>Soundness\<close>, \<open>Transitions\<close>, \<open>Verdicts\<close>, \<open>Seats\<close>: the reachable matches
    (\<open>match_step\<close>), their refinement to an abstract commit machine (\<open>commit_step\<close>), and the
    locale through which an invariant of candidates becomes one of every reachable match.
  \<^item> \<open>Liveness\<close>, \<open>Opening\<close>, \<open>Beginning\<close>, \<open>Ballots\<close>, \<open>Evidence\<close>, \<open>Accepting\<close>: the clock comes to
    rest, rounds begin, trades settle (\<open>Transitions\<close>), every seat a state refers to is a seat of the table and every
    running ballot is open (\<open>Ballots\<close>), ballots are recorded, accepted actions were offered.
  \<^item> \<open>Deals\<close>, \<open>Reviewed\<close>, \<open>Paging\<close>: the search for retained cards, the review of pairs, pages.
  \<^item> \<open>Lobby_Logic\<close>: the relations between states that every operation establishes, as locales that extend each other
    (\<open>effects\<close>, \<open>stream_effects\<close>, \<open>match_effects\<close>, \<open>table_effects\<close>); \<open>Lobby_Effects\<close> extends them to every operation and step
    (\<open>lobby_effects\<close>, \<open>all_effects\<close>). \<open>Lobby_Table\<close>: the invariant \<open>lobby_ok\<close> of members, rooms, queues and connections. \<open>Lobby_Moves\<close>,
    \<open>Lobby_Doors\<close>: the changes of the table that keep it. \<open>Lobby_Safe\<close>: the calculus \<open>ending\<close> of pre- and postconditions;
    \<open>Lobby_Lines\<close>, \<open>Lobby_Order\<close>, \<open>Lobby_Seating\<close>, \<open>Lobby_Hosting\<close>: every operation keeps the invariant. \<open>Lobby_Steps\<close>: hence every
    run does, and what the store has accepted when a match is installed. \<open>Lobby_Matching\<close>: whom matchmaking serves. \<open>Lobby_Company\<close>: renumbered seats.
  \<^item> \<open>Sample\<close>, \<open>Sample_Bundle\<close>, \<open>Lobby_Sample\<close>: a concrete match, a concrete bundle and a concrete manager on which
    the claims are instantiated.
  \<^item> \<open>Match_Claims\<close>, \<open>View_Claims\<close>, \<open>Engine_Claims\<close>, \<open>Rule_Claims\<close>, \<open>Deal_Claims\<close>, \<open>Wire_Claims\<close>,
    \<open>Guard_Claims\<close>, \<open>Lobby_Claims\<close>: the properties C1 to C40, each with a witness on concrete inputs.

  \<^bold>\<open>Bounds.\<close> The loop of \<open>advance\<close> is bounded by twelve transitions in the source; the model has the same
  bound and C12 shows that a reachable match needs at most ten, so the error of the bound is
  never returned. \<open>newRoom\<close> of the lobby draws codes until one is free, which ends only if the source of identifiers
  yields one; the model draws once more than there are rooms and then gives the error \<open>Diverges\<close>, and every property of the lobby
  holds whether or not a draw succeeds. The search for retained cards has the source's node budget as its fuel, and
  C24 says what a failure within it means. Every other recursion is structural or measured.

  \<^bold>\<open>Parameters.\<close> SHA-256, JSON string escapes outside the rendering above, UUIDs, the random sources, the parser of
  language tags, the Unicode letter tables and every durable callback are arguments; a property that relies on
  one says so in its hypotheses (distinct names get distinct identifiers) or in its conclusion (C28: two histories under one manifest are equal, or
  the digest collides at two texts that were hashed for them). The lobby's surroundings (\<open>lobby_env\<close>: the durable store \<open>TextValues\<close>, the authority, the catalog, the clock, identifiers, the order in which
  a Go map is ranged over) answer each question as a function of its number, so any sequence of answers, failures included, is some
  environment; the properties of the lobby hold for every one.

  \<^bold>\<open>Not modelled.\<close> SQL and everything that only wraps it (\<open>store\<close>, \<open>economy\<close>, \<open>portal\<close>, \<open>admin\<close>,
  \<open>auth\<close>, \<open>reports\<close>, \<open>profile\<close>): its behaviour is that of the database. HTTP and WebSocket plumbing
  (\<open>handler\<close>, \<open>transport\<close> besides the gate). JSON decoding and deep copies (\<open>v2/decode.go\<close>, \<open>clone.go\<close>): a decoded value
  enters as data. Editorial tooling around the bundles and the loading of files. Configuration: the validated tuning is an
  argument. Of the lobby: the operations of administrators (\<open>text_operator.go\<close>; a room holds only the mark that one is pending), with
  \<open>operatorFinish\<close> and \<open>retryRoomOperations\<close>, the waiting for locks, the request rates and \<open>Availability\<close> of \<open>text_manager.go\<close>, the delivery
  of durable notices in \<open>text_delivery.go\<close>. Operations on different rooms, which the code lets overlap, are steps one after the other. Administration tools, the game bot and the client.
\<close>

end
